(* ===== verification/Hyde_Prelude.thy ===== *)
theory Hyde_Prelude
  imports Main "HOL-Library.Sublist"
begin

text \<open>
  Shared vocabulary of the development: Rust strings as byte lists, the operations of the
  Rust standard library that the modelled code calls on them, machine time, the result type,
  and the generic lemmas the component theories rely on.

  A Rust \<open>str\<close> is a UTF-8 byte sequence; here it is a \<^typ>\<open>string\<close>, one \<^typ>\<open>char\<close> per byte,
  so that every index, \<open>len()\<close> and slice of the source is the same number here.
  Unicode case mapping is table data of the standard library. Where the code calls
  \<open>to_lowercase\<close> the model takes the mapping as an argument \<open>lower\<close>; the ASCII mapping
  \<open>ascii_lower\<close> below is exact where the code calls \<open>to_ascii_lowercase\<close> or
  \<open>eq_ignore_ascii_case\<close>.
\<close>

section \<open>Automation collections\<close>

named_theorems model_defs \<open>definitions of the operations, unfolded by the component proofs\<close>
named_theorems find_simps \<open>facts about substring search\<close>
named_theorems inv_intros \<open>invariant preservation rules\<close>

section \<open>Types\<close>

type_synonym bytes = "char list"
type_synonym ('e, 'a) result = "'e + 'a"

text \<open>\<open>Instant\<close> and \<open>Duration\<close> values are natural numbers of nanoseconds. \<open>duration_since\<close>
  saturates at zero in Rust, which is what subtraction on \<^typ>\<open>nat\<close> does.\<close>

type_synonym instant = nat
type_synonym duration = nat

definition nanos_per_sec :: nat where
  "nanos_per_sec = 1000000000"

definition from_secs :: "nat \<Rightarrow> duration" where
  "from_secs s = s * nanos_per_sec"

definition from_millis :: "nat \<Rightarrow> duration" where
  "from_millis ms = ms * 1000000"

definition as_secs :: "duration \<Rightarrow> nat" where
  "as_secs d = d div nanos_per_sec"

definition duration_since :: "instant \<Rightarrow> instant \<Rightarrow> duration" where
  "duration_since now earlier = now - earlier"

lemma as_secs_from_secs [simp]: "as_secs (from_secs s) = s"
  by (simp add: as_secs_def from_secs_def nanos_per_sec_def)

lemma from_secs_le_iff [simp]: "from_secs a \<le> from_secs b \<longleftrightarrow> a \<le> b"
  by (simp add: from_secs_def nanos_per_sec_def)

lemma as_secs_less_iff: "as_secs d < s \<longleftrightarrow> d < from_secs s"
  by (simp add: as_secs_def from_secs_def nanos_per_sec_def div_less_iff_less_mult)

section \<open>Options\<close>

definition option_ok :: "('e, 'a) result \<Rightarrow> 'a option" where
  "option_ok r = (case r of Inl _ \<Rightarrow> None | Inr x \<Rightarrow> Some x)"

definition unwrap_or :: "'a option \<Rightarrow> 'a \<Rightarrow> 'a" where
  "unwrap_or m d = (case m of None \<Rightarrow> d | Some x \<Rightarrow> x)"

lemma unwrap_or_simps [simp]:
  "unwrap_or None d = d"
  "unwrap_or (Some x) d = x"
  by (simp_all add: unwrap_or_def)

section \<open>Byte strings\<close>

lemma drop_length_append: "drop (length xs) (xs @ ys) = ys"
  by simp

definition starts_with :: "'a list \<Rightarrow> 'a list \<Rightarrow> bool" where
  "starts_with s p \<longleftrightarrow> take (length p) s = p"

definition ends_with :: "'a list \<Rightarrow> 'a list \<Rightarrow> bool" where
  "ends_with s p \<longleftrightarrow> length p \<le> length s \<and> drop (length s - length p) s = p"

lemma starts_with_iff_prefix: "starts_with s p \<longleftrightarrow> prefix p s"
  by (metis append_eq_conv_conj append_take_drop_id prefixE prefixI starts_with_def)

lemma starts_with_append [simp]: "starts_with (p @ s) p"
  by (simp add: starts_with_def)

lemma ends_with_iff_suffix: "ends_with s p \<longleftrightarrow> suffix p s"
  unfolding ends_with_def suffix_def
proof
  assume "length p \<le> length s \<and> drop (length s - length p) s = p"
  then show "\<exists>zs. s = zs @ p" by (metis append_take_drop_id)
qed auto

text \<open>\<open>windows(n).position(f)\<close>: the first start index of a window of length \<open>n\<close> that
  satisfies the predicate (\<open>n\<close> is positive in every call of the source).\<close>

fun position_windows :: "nat \<Rightarrow> ('a list \<Rightarrow> bool) \<Rightarrow> 'a list \<Rightarrow> nat option" where
  "position_windows n P [] = None"
| "position_windows n P (c # t) =
     (if length (c # t) < n then None
      else if P (take n (c # t)) then Some 0
      else map_option Suc (position_windows n P t))"

lemma position_windows_Some:
  assumes "position_windows n P s = Some i"
  shows "i + n \<le> length s \<and> P (take n (drop i s))"
  using assms
proof (induction n P s arbitrary: i rule: position_windows.induct)
  case (2 n P c t)
  then show ?case by (auto split: if_splits)
qed simp

lemma position_windows_Some_lt [find_simps]:
  assumes "position_windows n P s = Some i"
  shows "i < length s"
  using assms
proof (induction n P s arbitrary: i rule: position_windows.induct)
  case (2 n P c t)
  then show ?case by (auto split: if_splits)
qed simp

lemma position_windows_least:
  assumes "position_windows n P s = Some i" and "j < i"
  shows "\<not> P (take n (drop j s))"
  using assms
proof (induction n P s arbitrary: i j rule: position_windows.induct)
  case (2 n P c t)
  then show ?case by (cases j) (auto split: if_splits)
qed simp

lemma position_windows_None:
  assumes "position_windows n P s = None" and "0 < n" and "i + n \<le> length s"
  shows "\<not> P (take n (drop i s))"
  using assms
proof (induction n P s arbitrary: i rule: position_windows.induct)
  case (2 n P c t)
  then show ?case by (cases i) (auto split: if_splits)
qed simp

text \<open>Search in a concatenation, when no window that starts in the first part matches.\<close>

lemma position_windows_skip:
  assumes "\<And>j. j < length v \<Longrightarrow> \<not> P (take n (drop j (v @ r)))" and "0 < n"
  shows "position_windows n P (v @ r) = map_option (\<lambda>i. length v + i) (position_windows n P r)"
  using assms(1)
proof (induction v)
  case (Cons c v)
  have step: "\<not> P (take n (drop j (v @ r)))" if "j < length v" for j
    using Cons.prems [of "Suc j"] that by simp
  have none: "length (c # v @ r) < n \<Longrightarrow> position_windows n P r = None"
    by (cases r) auto
  from Cons.prems [of 0] have "\<not> P (take n (c # v @ r))" by simp
  with Cons.IH [OF step] none show ?case
    by (auto simp: option.map_comp comp_def)
qed (cases "position_windows n P r"; simp)

lemma position_windows_sublist_None:
  assumes "position_windows n P (a @ s @ b) = None" and "0 < n"
  shows "position_windows n P s = None"
proof (cases "position_windows n P s")
  case (Some i)
  from position_windows_Some [OF this]
  have i: "i + n \<le> length s" "P (take n (drop i s))" by auto
  have "take n (drop (length a + i) (a @ s @ b)) = take n (drop i s)"
    using i(1) by simp
  with position_windows_None [OF assms, of "length a + i"] i show ?thesis by simp
qed simp

text \<open>\<open>str::find\<close> with a string pattern.\<close>

definition str_find :: "'a list \<Rightarrow> 'a list \<Rightarrow> nat option" where
  "str_find s p = (if p = [] then Some 0 else position_windows (length p) (\<lambda>w. w = p) s)"

definition contains :: "'a list \<Rightarrow> 'a list \<Rightarrow> bool" where
  "contains s p \<longleftrightarrow> str_find s p \<noteq> None"

lemma str_find_Some [find_simps]:
  assumes "str_find s p = Some i"
  shows "i + length p \<le> length s \<and> take (length p) (drop i s) = p"
  using assms position_windows_Some [of "length p" "\<lambda>w. w = p" s i]
  by (auto simp: str_find_def split: if_splits)

lemma str_find_least:
  assumes "str_find s p = Some i" and "j < i"
  shows "take (length p) (drop j s) \<noteq> p"
  using assms position_windows_least [of "length p" "\<lambda>w. w = p" s i j]
  by (auto simp: str_find_def split: if_splits)

lemma str_find_None:
  assumes "str_find s p = None"
  shows "take (length p) (drop i s) \<noteq> p"
proof
  assume eq: "take (length p) (drop i s) = p"
  from assms have p: "p \<noteq> []" by (auto simp: str_find_def)
  from eq have "length p \<le> length s - i"
    by (metis length_drop length_take min.cobounded1)
  with p have "i + length p \<le> length s"
    by (cases "i \<le> length s") auto
  with assms p eq position_windows_None [of "length p" "\<lambda>w. w = p" s i] show False
    by (auto simp: str_find_def)
qed

lemma contains_iff: "contains s p \<longleftrightarrow> (\<exists>a b. s = a @ p @ b)"
proof
  assume "contains s p"
  then obtain i where "str_find s p = Some i" by (auto simp: contains_def)
  then have "take (length p) (drop i s) = p" by (auto dest: str_find_Some)
  then have "s = take i s @ p @ drop (length p) (drop i s)"
    by (metis append_take_drop_id)
  then show "\<exists>a b. s = a @ p @ b" by blast
next
  assume "\<exists>a b. s = a @ p @ b"
  then obtain a b where "s = a @ p @ b" by blast
  then have "take (length p) (drop (length a) s) = p" by simp
  then show "contains s p"
    using str_find_None [of s p "length a"] by (auto simp: contains_def)
qed

text \<open>\<open>str::find\<close> and \<open>str::rfind\<close> with a single-byte pattern.\<close>

fun find_char :: "'a list \<Rightarrow> 'a \<Rightarrow> nat option" where
  "find_char [] c = None"
| "find_char (x # xs) c = (if x = c then Some 0 else map_option Suc (find_char xs c))"

fun rfind_char :: "'a list \<Rightarrow> 'a \<Rightarrow> nat option" where
  "rfind_char [] c = None"
| "rfind_char (x # xs) c =
     (case rfind_char xs c of
        Some i \<Rightarrow> Some (Suc i)
      | None \<Rightarrow> if x = c then Some 0 else None)"

lemma find_char_Some [find_simps]: "find_char s c = Some i \<Longrightarrow> i < length s \<and> s ! i = c"
  by (induction s c arbitrary: i rule: find_char.induct) (auto split: if_splits)

lemma find_char_None: "find_char s c = None \<longleftrightarrow> c \<notin> set s"
  by (induction s c rule: find_char.induct) auto

lemma rfind_char_Some [find_simps]:
  "rfind_char s c = Some i \<Longrightarrow> i < length s \<and> s ! i = c \<and> c \<notin> set (drop (Suc i) s)"
proof (induction s c arbitrary: i rule: rfind_char.induct)
  case (2 x xs c)
  have none: "rfind_char xs c = None \<Longrightarrow> c \<notin> set xs"
    by (induction xs) (auto split: option.splits if_splits)
  from 2 show ?case by (auto split: option.splits if_splits dest: none)
qed simp

lemma rfind_char_None: "rfind_char s c = None \<longleftrightarrow> c \<notin> set s"
  by (induction s c rule: rfind_char.induct) (auto split: option.splits)

subsection \<open>ASCII case\<close>

definition to_ascii_lowercase :: "char \<Rightarrow> char" where
  "to_ascii_lowercase c =
     (let n = (of_char c :: nat) in if 65 \<le> n \<and> n \<le> 90 then char_of (n + 32) else c)"

definition ascii_lower :: "bytes \<Rightarrow> bytes" where
  "ascii_lower s = map to_ascii_lowercase s"

definition eq_ignore_ascii_case :: "bytes \<Rightarrow> bytes \<Rightarrow> bool" where
  "eq_ignore_ascii_case a b \<longleftrightarrow> ascii_lower a = ascii_lower b"

lemma length_ascii_lower [simp]: "length (ascii_lower s) = length s"
  by (simp add: ascii_lower_def)

lemma take_ascii_lower: "take n (ascii_lower s) = ascii_lower (take n s)"
  by (simp add: ascii_lower_def take_map)

lemma drop_ascii_lower: "drop n (ascii_lower s) = ascii_lower (drop n s)"
  by (simp add: ascii_lower_def drop_map)

definition is_ascii_digit :: "char \<Rightarrow> bool" where
  "is_ascii_digit c \<longleftrightarrow> (let n = (of_char c :: nat) in 48 \<le> n \<and> n \<le> 57)"

definition is_ascii_alphabetic :: "char \<Rightarrow> bool" where
  "is_ascii_alphabetic c \<longleftrightarrow>
     (let n = (of_char c :: nat) in (65 \<le> n \<and> n \<le> 90) \<or> (97 \<le> n \<and> n \<le> 122))"

definition is_ascii_alphanumeric :: "char \<Rightarrow> bool" where
  "is_ascii_alphanumeric c \<longleftrightarrow> is_ascii_alphabetic c \<or> is_ascii_digit c"

text \<open>\<open>u8::is_ascii_whitespace\<close>: space, tab, line feed, form feed, carriage return.\<close>

definition is_ascii_whitespace :: "char \<Rightarrow> bool" where
  "is_ascii_whitespace c \<longleftrightarrow> (of_char c :: nat) \<in> {9, 10, 12, 13, 32}"

subsection \<open>Trimming\<close>

text \<open>\<open>str::trim\<close> removes characters with the Unicode property White\_Space. Their UTF-8
  encodings are listed, so that trimming works on bytes: at the end of well-formed UTF-8 an
  encoding is matched exactly when the last character is that whitespace character.\<close>

definition white_space_encodings :: "bytes list" where
  "white_space_encodings =
     map (map (char_of :: nat \<Rightarrow> char))
       [[9], [10], [11], [12], [13], [32], [0xC2, 0x85], [0xC2, 0xA0], [0xE1, 0x9A, 0x80],
        [0xE2, 0x80, 0x80], [0xE2, 0x80, 0x81], [0xE2, 0x80, 0x82], [0xE2, 0x80, 0x83],
        [0xE2, 0x80, 0x84], [0xE2, 0x80, 0x85], [0xE2, 0x80, 0x86], [0xE2, 0x80, 0x87],
        [0xE2, 0x80, 0x88], [0xE2, 0x80, 0x89], [0xE2, 0x80, 0x8A], [0xE2, 0x80, 0xA8],
        [0xE2, 0x80, 0xA9], [0xE2, 0x80, 0xAF], [0xE2, 0x81, 0x9F], [0xE3, 0x80, 0x80]]"

definition leading_ws :: "bytes \<Rightarrow> nat" where
  "leading_ws s =
     (case find (\<lambda>w. starts_with s w) white_space_encodings of
        None \<Rightarrow> 0 | Some w \<Rightarrow> length w)"

definition trailing_ws :: "bytes \<Rightarrow> nat" where
  "trailing_ws s =
     (case find (\<lambda>w. ends_with s w) white_space_encodings of
        None \<Rightarrow> 0 | Some w \<Rightarrow> length w)"

function trim_start :: "bytes \<Rightarrow> bytes" where
  "trim_start s =
     (if s = [] \<or> leading_ws s = 0 then s else trim_start (drop (leading_ws s) s))"
  by pat_completeness auto
termination
  by (relation "measure length") auto

function trim_end :: "bytes \<Rightarrow> bytes" where
  "trim_end s =
     (if s = [] \<or> trailing_ws s = 0 then s
      else trim_end (take (length s - trailing_ws s) s))"
  by pat_completeness auto
termination
  by (relation "measure length") auto

declare trim_start.simps [simp del]
declare trim_end.simps [simp del]

definition trim :: "bytes \<Rightarrow> bytes" where
  "trim s = trim_end (trim_start s)"

lemma trim_start_suffix: "suffix (trim_start s) s"
proof (induction s rule: trim_start.induct)
  case (1 s)
  then show ?case
    by (subst trim_start.simps) (auto intro: suffix_order.trans suffix_drop)
qed

lemma trim_end_prefix: "prefix (trim_end s) s"
proof (induction s rule: trim_end.induct)
  case (1 s)
  then show ?case
    by (subst trim_end.simps) (auto intro: prefix_order.trans take_is_prefix)
qed

lemma trim_Nil [simp]: "trim [] = []"
  by (simp add: trim_def trim_start.simps trim_end.simps)

lemma trim_sublist: "sublist (trim s) s"
  unfolding trim_def
  by (rule sublist_order.order_trans [OF prefix_imp_sublist [OF trim_end_prefix]
        suffix_imp_sublist [OF trim_start_suffix]])

lemma trim_end_no_trailing: "trim_end s = [] \<or> trailing_ws (trim_end s) = 0"
proof (induction s rule: trim_end.induct)
  case (1 s)
  show ?case
  proof (cases "s = [] \<or> trailing_ws s = 0")
    case True
    then show ?thesis by (auto simp: trim_end.simps [of s])
  next
    case False
    with 1 show ?thesis by (simp add: trim_end.simps [of s])
  qed
qed

text \<open>Text that starts and ends with a visible ASCII character is not changed by trimming.\<close>

definition is_ascii_graphic :: "char \<Rightarrow> bool" where
  "is_ascii_graphic c \<longleftrightarrow> (let n = (of_char c :: nat) in 33 \<le> n \<and> n \<le> 126)"

lemma white_space_heads:
  "w \<in> set white_space_encodings \<Longrightarrow> w \<noteq> [] \<and> \<not> is_ascii_graphic (hd w) \<and> \<not> is_ascii_graphic (last w)"
  by (auto simp: white_space_encodings_def is_ascii_graphic_def of_char_of)

lemma leading_ws_graphic: "s \<noteq> [] \<Longrightarrow> is_ascii_graphic (hd s) \<Longrightarrow> leading_ws s = 0"
proof -
  assume s: "s \<noteq> []" "is_ascii_graphic (hd s)"
  have "\<not> starts_with s w" if "w \<in> set white_space_encodings" for w
    using white_space_heads [OF that] s by (auto simp: starts_with_iff_prefix prefix_def)
  then have "find (\<lambda>w. starts_with s w) white_space_encodings = None" by (simp add: find_None_iff)
  then show ?thesis by (simp add: leading_ws_def)
qed

lemma trailing_ws_graphic: "s \<noteq> [] \<Longrightarrow> is_ascii_graphic (last s) \<Longrightarrow> trailing_ws s = 0"
proof -
  assume s: "s \<noteq> []" "is_ascii_graphic (last s)"
  have "\<not> ends_with s w" if "w \<in> set white_space_encodings" for w
    using white_space_heads [OF that] s by (auto simp: ends_with_iff_suffix suffix_def)
  then have "find (\<lambda>w. ends_with s w) white_space_encodings = None" by (simp add: find_None_iff)
  then show ?thesis by (simp add: trailing_ws_def)
qed

lemma trim_graphic:
  "s \<noteq> [] \<Longrightarrow> is_ascii_graphic (hd s) \<Longrightarrow> is_ascii_graphic (last s) \<Longrightarrow> trim s = s"
  by (simp add: trim_def trim_start.simps [of s] trim_end.simps [of s]
      leading_ws_graphic trailing_ws_graphic)

text \<open>\<open>trim_start_matches\<close> with a set of single-byte characters.\<close>

definition trim_start_matches :: "'a list \<Rightarrow> 'a list \<Rightarrow> 'a list" where
  "trim_start_matches cs s = dropWhile (\<lambda>c. c \<in> set cs) s"

subsection \<open>Characters of a UTF-8 string\<close>

definition is_continuation :: "char \<Rightarrow> bool" where
  "is_continuation c \<longleftrightarrow> (let n = (of_char c :: nat) in 128 \<le> n \<and> n < 192)"

definition is_char_boundary :: "bytes \<Rightarrow> nat \<Rightarrow> bool" where
  "is_char_boundary s i \<longleftrightarrow> i = 0 \<or> i = length s \<or> (i < length s \<and> \<not> is_continuation (s ! i))"

fun floor_boundary_from :: "bytes \<Rightarrow> nat \<Rightarrow> nat" where
  "floor_boundary_from s 0 = 0"
| "floor_boundary_from s (Suc i) =
     (if is_char_boundary s (Suc i) then Suc i else floor_boundary_from s i)"

definition floor_char_boundary :: "bytes \<Rightarrow> nat \<Rightarrow> nat" where
  "floor_char_boundary s i = (if length s \<le> i then length s else floor_boundary_from s i)"

lemma floor_boundary_from_le: "floor_boundary_from s i \<le> i"
  by (induction s i rule: floor_boundary_from.induct) auto

lemma floor_boundary_from_boundary: "is_char_boundary s (floor_boundary_from s i)"
  by (induction s i rule: floor_boundary_from.induct) (auto simp: is_char_boundary_def)

lemma floor_char_boundary_le: "floor_char_boundary s i \<le> i \<and> floor_char_boundary s i \<le> length s"
  using floor_boundary_from_le [of s i] by (auto simp: floor_char_boundary_def)

lemma floor_char_boundary_boundary: "is_char_boundary s (floor_char_boundary s i)"
  by (simp add: floor_char_boundary_def floor_boundary_from_boundary)
     (simp add: is_char_boundary_def)

lemma floor_boundary_from_max:
  "is_char_boundary s b \<Longrightarrow> b \<le> i \<Longrightarrow> b \<le> floor_boundary_from s i"
proof (induction s i rule: floor_boundary_from.induct)
  case (2 s i)
  then show ?case by (cases "b = Suc i") auto
qed simp

text \<open>Well-formed UTF-8 as far as the modelled code depends on it: every lead byte is followed
  by the number of continuation bytes it announces.\<close>

definition utf8_tail :: "char \<Rightarrow> nat option" where
  "utf8_tail c =
     (let n = (of_char c :: nat)
      in if n < 128 then Some 0
         else if n < 192 then None
         else if n < 224 then Some 1
         else if n < 240 then Some 2
         else if n < 248 then Some 3
         else None)"

function valid_utf8 :: "bytes \<Rightarrow> bool" where
  "valid_utf8 [] = True"
| "valid_utf8 (c # s) =
     (case utf8_tail c of
        None \<Rightarrow> False
      | Some k \<Rightarrow> k \<le> length s \<and> list_all is_continuation (take k s) \<and> valid_utf8 (drop k s))"
  by pat_completeness auto
termination
  by (relation "measure length") auto

lemma utf8_tail_lead: "utf8_tail c = Some k \<Longrightarrow> \<not> is_continuation c \<and> k \<le> 3"
  by (auto simp: utf8_tail_def is_continuation_def Let_def split: if_splits)

lemma utf8_tail_ascii: "(of_char c :: nat) < 128 \<Longrightarrow> utf8_tail c = Some 0"
  by (simp add: utf8_tail_def)

lemma valid_utf8_ascii: "\<forall>c \<in> set s. (of_char c :: nat) < 128 \<Longrightarrow> valid_utf8 s"
  by (induction s) (auto simp: utf8_tail_ascii)

lemma valid_utf8_append: "valid_utf8 a \<Longrightarrow> valid_utf8 b \<Longrightarrow> valid_utf8 (a @ b)"
  by (induction a rule: valid_utf8.induct) (auto split: option.splits)

text \<open>Cutting well-formed text at a character boundary leaves well-formed text.\<close>

lemma char_boundary_Cons:
  assumes "is_char_boundary (c # s) i" and "utf8_tail c = Some k" and "k \<le> length s"
    and "list_all is_continuation (take k s)" and "0 < i" and "i \<le> length s"
  shows "Suc k \<le> i \<and> is_char_boundary (drop k s) (i - Suc k)"
proof -
  from assms have nc: "\<not> is_continuation (s ! (i - 1))"
    by (cases i) (auto simp: is_char_boundary_def)
  have "Suc k \<le> i"
  proof (rule ccontr)
    assume "\<not> Suc k \<le> i"
    with assms have "i - 1 < length (take k s)" by auto
    with assms(4) have "is_continuation (take k s ! (i - 1))" by (simp add: list_all_length)
    with nc \<open>\<not> Suc k \<le> i\<close> assms(5) show False by simp
  qed
  moreover have "is_char_boundary (drop k s) (i - Suc k)"
    using calculation assms nc by (auto simp: is_char_boundary_def nth_drop)
  ultimately show ?thesis by simp
qed

lemma valid_utf8_drop:
  "valid_utf8 s \<Longrightarrow> is_char_boundary s i \<Longrightarrow> valid_utf8 (drop i s)"
proof (induction s arbitrary: i rule: valid_utf8.induct)
  case (2 c s)
  show ?case
  proof (cases "i = 0 \<or> length s < i")
    case True
    with 2 show ?thesis by auto
  next
    case False
    from 2(2) obtain k where k: "utf8_tail c = Some k" "k \<le> length s"
      "list_all is_continuation (take k s)" "valid_utf8 (drop k s)"
      by (auto split: option.splits)
    from char_boundary_Cons [OF 2(3) k(1-3)] False
    have i: "Suc k \<le> i" "is_char_boundary (drop k s) (i - Suc k)" by auto
    from 2(1) [OF k(1) k(4) i(2)] have "valid_utf8 (drop (i - Suc k) (drop k s))" .
    moreover have "drop (i - Suc k) (drop k s) = drop i (c # s)"
      using i(1) by (cases i) (auto simp: add.commute)
    ultimately show ?thesis by simp
  qed
qed simp

lemma valid_utf8_boundary_near:
  "valid_utf8 s \<Longrightarrow> i \<le> length s \<Longrightarrow> \<exists>j\<le>3. j \<le> i \<and> is_char_boundary s (i - j)"
proof (induction s arbitrary: i rule: valid_utf8.induct)
  case (2 c s)
  from 2(2) obtain k where k: "utf8_tail c = Some k" "k \<le> length s" "valid_utf8 (drop k s)"
    by (auto split: option.splits)
  show ?case
  proof (cases "i \<le> k")
    case True
    with utf8_tail_lead [OF k(1)] have "i \<le> 3" by simp
    then show ?thesis by (intro exI [of _ i]) (auto simp: is_char_boundary_def)
  next
    case False
    with 2(3) have "i - Suc k \<le> length (drop k s)" by auto
    from 2(1) [OF k(1) k(3) this] obtain j where j: "j \<le> 3" "j \<le> i - Suc k"
      "is_char_boundary (drop k s) (i - Suc k - j)" by blast
    have i: "i - j = Suc k + (i - Suc k - j)" using j False by arith
    have "is_char_boundary (c # s) (i - j)"
    proof (cases "i - Suc k - j = 0")
      case True
      with i have "i - j = Suc k" by simp
      moreover have "k = length s \<or> \<not> is_continuation (s ! k)"
        using k(2,3) utf8_tail_lead
        by (cases "drop k s") (auto simp: nth_via_drop split: option.splits)
      ultimately show ?thesis using k(2) by (auto simp: is_char_boundary_def)
    next
      case False
      with j(3) i k(2) show ?thesis
        by (auto simp: is_char_boundary_def nth_drop)
    qed
    with j False show ?thesis by auto
  qed
qed (auto simp: is_char_boundary_def)

lemma floor_char_boundary_near:
  assumes "valid_utf8 s" and "i \<le> length s"
  shows "i \<le> floor_char_boundary s i + 3"
proof (cases "i = length s")
  case False
  from valid_utf8_boundary_near [OF assms] obtain j where "j \<le> 3" "is_char_boundary s (i - j)"
    by blast
  with floor_boundary_from_max [of s "i - j" i] have "i - j \<le> floor_boundary_from s i" by simp
  with \<open>j \<le> 3\<close> False assms(2) show ?thesis by (simp add: floor_char_boundary_def)
qed (simp add: floor_char_boundary_def)

text \<open>In well-formed text the position after an ASCII byte is a boundary.\<close>

lemma valid_utf8_after_ascii:
  "valid_utf8 s \<Longrightarrow> i < length s \<Longrightarrow> (of_char (s ! i) :: nat) < 128 \<Longrightarrow> is_char_boundary s (Suc i)"
proof (induction s arbitrary: i rule: valid_utf8.induct)
  case (2 c s)
  from 2(2) obtain k where k: "utf8_tail c = Some k" "k \<le> length s"
    "list_all is_continuation (take k s)" "valid_utf8 (drop k s)"
    by (auto split: option.splits)
  show ?case
  proof (cases i)
    case 0
    with 2(4) k(1) utf8_tail_ascii have "k = 0" by simp
    with k(4) have "s = [] \<or> \<not> is_continuation (hd s)"
      using utf8_tail_lead by (cases s) (auto split: option.splits)
    with 0 show ?thesis by (cases s) (auto simp: is_char_boundary_def)
  next
    case (Suc m)
    have "k \<le> m"
    proof (rule ccontr)
      assume "\<not> k \<le> m"
      with k(2,3) have "is_continuation (take k s ! m)" by (simp add: list_all_length)
      with \<open>\<not> k \<le> m\<close> 2(4) Suc show False by (simp add: is_continuation_def Let_def)
    qed
    with 2(3,4) Suc have "is_char_boundary (drop k s) (Suc (m - k))"
      by (intro 2(1) [OF k(1) k(4)]) (auto simp: nth_drop)
    with \<open>k \<le> m\<close> Suc k(2) show ?thesis by (auto simp: is_char_boundary_def nth_drop Suc_diff_le)
  qed
qed simp

text \<open>\<open>chars().take(n).collect()\<close>: the bytes of the first \<open>n\<close> characters.\<close>

fun take_chars :: "nat \<Rightarrow> bytes \<Rightarrow> bytes" where
  "take_chars n [] = []"
| "take_chars n (c # s) =
     (if is_continuation c then c # take_chars n s
      else case n of 0 \<Rightarrow> [] | Suc m \<Rightarrow> c # take_chars m s)"

lemma take_chars_prefix: "prefix (take_chars n s) s"
  by (induction n s rule: take_chars.induct) (auto split: nat.splits)

definition char_count :: "bytes \<Rightarrow> nat" where
  "char_count s = length (filter (\<lambda>c. \<not> is_continuation c) s)"

lemma take_chars_count: "char_count (take_chars n s) \<le> n"
  by (induction n s rule: take_chars.induct) (auto simp: char_count_def split: nat.splits)

lemma take_chars_all: "char_count s \<le> n \<Longrightarrow> take_chars n s = s"
  by (induction n s rule: take_chars.induct)
     (auto simp: char_count_def split: nat.splits if_splits)

subsection \<open>Joining and decimal numbers\<close>

fun join :: "'a list \<Rightarrow> 'a list list \<Rightarrow> 'a list" where
  "join sep [] = []"
| "join sep [x] = x"
| "join sep (x # y # zs) = x @ sep @ join sep (y # zs)"

definition digit_char :: "nat \<Rightarrow> char" where
  "digit_char d = char_of (48 + d)"

fun show_nat :: "nat \<Rightarrow> bytes" where
  "show_nat n = (if n < 10 then [digit_char n] else show_nat (n div 10) @ [digit_char (n mod 10)])"

declare show_nat.simps [simp del]

lemma show_nat_nonempty [simp]: "show_nat n \<noteq> []"
  by (subst show_nat.simps) simp

definition newline :: char where
  "newline = CHR 0x0A"

definition tick :: bytes where
  "tick = [CHR 0x27]"

definition dquote :: bytes where
  "dquote = [CHR 0x22]"

definition utf8 :: "nat list \<Rightarrow> bytes" where
  "utf8 ns = map char_of ns"

section \<open>Lists and maps\<close>

text \<open>A \<open>HashMap\<close> is a map; \<open>retain\<close> keeps the entries that satisfy the predicate.\<close>

definition map_retain :: "('k \<Rightarrow> 'v \<Rightarrow> bool) \<Rightarrow> ('k \<rightharpoonup> 'v) \<Rightarrow> ('k \<rightharpoonup> 'v)" where
  "map_retain P m = (\<lambda>k. case m k of None \<Rightarrow> None | Some v \<Rightarrow> if P k v then Some v else None)"

lemma map_retain_Some [simp]:
  "map_retain P m k = Some v \<longleftrightarrow> m k = Some v \<and> P k v"
  by (auto simp: map_retain_def split: option.splits)

lemma map_retain_None:
  "map_retain P m k = None \<longleftrightarrow> (\<forall>v. m k = Some v \<longrightarrow> \<not> P k v)"
  by (auto simp: map_retain_def split: option.splits)

lemma map_retain_dom: "dom (map_retain P m) \<subseteq> dom m"
  by (auto simp: map_retain_def split: option.splits if_splits)

lemma map_retain_idem [simp]: "map_retain P (map_retain P m) = map_retain P m"
  by (rule ext) (auto simp: map_retain_def split: option.splits)

text \<open>Where the code iterates over a map, or the map is printed, it is an association list with
  distinct keys. \<open>al_insert\<close> replaces the value of a key that is present.\<close>

fun al_insert :: "'k \<Rightarrow> 'v \<Rightarrow> ('k \<times> 'v) list \<Rightarrow> ('k \<times> 'v) list" where
  "al_insert k v [] = [(k, v)]"
| "al_insert k v ((k', v') # kvs) =
     (if k' = k then (k, v) # kvs else (k', v') # al_insert k v kvs)"

definition al_remove :: "'k \<Rightarrow> ('k \<times> 'v) list \<Rightarrow> ('k \<times> 'v) list" where
  "al_remove k kvs = filter (\<lambda>(k', _). k' \<noteq> k) kvs"

lemma map_of_al_insert [simp]: "map_of (al_insert k v kvs) = (map_of kvs)(k \<mapsto> v)"
  by (induction k v kvs rule: al_insert.induct) (auto simp: fun_eq_iff)

lemma map_of_al_remove [simp]: "map_of (al_remove k kvs) = (map_of kvs)(k := None)"
  by (induction kvs) (auto simp: al_remove_def fun_eq_iff)

lemma keys_al_insert: "fst ` set (al_insert k v kvs) = insert k (fst ` set kvs)"
  by (induction k v kvs rule: al_insert.induct) auto

lemma keys_al_remove: "fst ` set (al_remove k kvs) = fst ` set kvs - {k}"
  by (force simp: al_remove_def)

lemma distinct_al_insert [simp]:
  "distinct (map fst kvs) \<Longrightarrow> distinct (map fst (al_insert k v kvs))"
proof (induction k v kvs rule: al_insert.induct)
  case (2 k v k' v' kvs)
  then show ?case using keys_al_insert [of k v kvs] by auto
qed simp

lemma distinct_al_remove [simp]:
  "distinct (map fst kvs) \<Longrightarrow> distinct (map fst (al_remove k kvs))"
  by (induction kvs) (auto simp: al_remove_def)

lemma set_al_insert: "(k', v') \<in> set (al_insert k v kvs) \<Longrightarrow> (k', v') = (k, v) \<or> (k', v') \<in> set kvs"
  by (induction k v kvs rule: al_insert.induct) (auto split: if_splits)

lemma al_remove_insert_fresh:
  "k \<notin> fst ` set kvs \<Longrightarrow> al_remove k (al_insert k v kvs) = kvs"
proof (induction k v kvs rule: al_insert.induct)
  case (2 k v k' v' kvs)
  then show ?case by (auto simp: al_remove_def)
qed (simp add: al_remove_def)

lemma length_al_insert:
  "length (al_insert k v kvs) = (if k \<in> fst ` set kvs then length kvs else Suc (length kvs))"
  by (induction k v kvs rule: al_insert.induct) auto

lemma length_al_remove:
  "distinct (map fst kvs) \<Longrightarrow> k \<in> fst ` set kvs \<Longrightarrow> Suc (length (al_remove k kvs)) = length kvs"
proof (induction kvs)
  case (Cons kv kvs)
  have "k \<notin> fst ` set kvs \<Longrightarrow> al_remove k kvs = kvs"
    unfolding al_remove_def by (rule filter_True) force
  with Cons show ?case by (cases kv) (auto simp: al_remove_def)
qed simp

section \<open>Shared contracts\<close>

text \<open>A machine whose every step keeps an invariant: the contract of all stateful components.\<close>

locale step_invariant =
  fixes step :: "'s \<Rightarrow> 'e \<Rightarrow> 's"
    and inv :: "'s \<Rightarrow> bool"
  assumes step_inv: "inv s \<Longrightarrow> inv (step s e)"
begin

lemma run_inv: "inv s \<Longrightarrow> inv (foldl step s es)"
  by (induction es arbitrary: s) (auto intro: step_inv)

end

text \<open>A counter of consecutive events with the same key. An event without a key ends the
  streak. \<open>trailing_run\<close> is the specification: how many events at the end of the history have
  the given key.\<close>

definition trailing_run :: "('e \<Rightarrow> 'k option) \<Rightarrow> 'k \<Rightarrow> 'e list \<Rightarrow> nat" where
  "trailing_run ev_key k es = length (takeWhile (\<lambda>e. ev_key e = Some k) (rev es))"

lemma trailing_run_Nil [simp]: "trailing_run ev_key k [] = 0"
  by (simp add: trailing_run_def)

lemma trailing_run_snoc [simp]:
  "trailing_run ev_key k (es @ [e]) = (if ev_key e = Some k then Suc (trailing_run ev_key k es) else 0)"
  by (simp add: trailing_run_def)

lemma trailing_run_last:
  "0 < trailing_run ev_key k es \<longleftrightarrow> es \<noteq> [] \<and> ev_key (last es) = Some k"
  by (cases es rule: rev_cases) auto

lemma trailing_run_replicate [simp]:
  "ev_key e = Some k \<Longrightarrow> trailing_run ev_key k (replicate n e) = n"
  by (simp add: trailing_run_def takeWhile_replicate)

locale run_length =
  fixes step :: "'s \<Rightarrow> 'e \<Rightarrow> 's"
    and cnt :: "'s \<Rightarrow> nat"
    and key :: "'s \<Rightarrow> 'k option"
    and ev_key :: "'e \<Rightarrow> 'k option"
  assumes step_none: "ev_key e = None \<Longrightarrow> cnt (step s e) = 0 \<and> key (step s e) = None"
    and step_same: "ev_key e = Some k \<Longrightarrow> key s = Some k \<Longrightarrow>
      cnt (step s e) = Suc (cnt s) \<and> key (step s e) = Some k"
    and step_diff: "ev_key e = Some k \<Longrightarrow> key s \<noteq> Some k \<Longrightarrow>
      cnt (step s e) = 1 \<and> key (step s e) = Some k"
begin

lemma run_key:
  "key s0 = None \<Longrightarrow> key (foldl step s0 es) = (if es = [] then None else ev_key (last es))"
proof (induction es rule: rev_induct)
  case (snoc e es)
  then show ?case
    using step_none [of e] step_same [of e] step_diff [of e] by (cases "ev_key e") auto
qed simp

lemma run_count:
  assumes "key s0 = None" and "key (foldl step s0 es) = Some k"
  shows "cnt (foldl step s0 es) = trailing_run ev_key k es"
  using assms
proof (induction es arbitrary: k rule: rev_induct)
  case (snoc e es)
  let ?s = "foldl step s0 es"
  from snoc.prems run_key [OF snoc.prems(1), of "es @ [e]"] have k: "ev_key e = Some k" by simp
  show ?case
  proof (cases "key ?s = Some k")
    case True
    with snoc k step_same [OF k, of ?s] show ?thesis by simp
  next
    case False
    with run_key [OF snoc.prems(1), of es] have "trailing_run ev_key k es = 0"
      using trailing_run_last [of ev_key k es] by auto
    with False k step_diff [OF k, of ?s] show ?thesis by simp
  qed
qed simp

lemma run_count_None:
  assumes "key s0 = None" and "cnt s0 = 0" and "key (foldl step s0 es) = None"
  shows "cnt (foldl step s0 es) = 0"
proof (cases es rule: rev_cases)
  case (snoc es' e)
  with assms run_key [OF assms(1), of es] step_none [of e] show ?thesis by simp
qed (use assms in simp)

end

text \<open>A table of independent entries: a step for one key updates the entry of that key and no
  other. Then the entry of a key depends on the events of that key only, however the events of
  other keys are interleaved.\<close>

locale keyed_step =
  fixes step :: "'s \<Rightarrow> 'k \<times> 'e \<Rightarrow> 's"
    and entry :: "'s \<Rightarrow> 'k \<Rightarrow> 'v"
    and upd :: "'v \<Rightarrow> 'e \<Rightarrow> 'v"
  assumes entry_own: "entry (step s (k, e)) k = upd (entry s k) e"
    and entry_other: "k' \<noteq> k \<Longrightarrow> entry (step s (k, e)) k' = entry s k'"
begin

lemma entry_run: "entry (foldl step s es) k = foldl upd (entry s k) (map snd (filter (\<lambda>e. fst e = k) es))"
proof (induction es arbitrary: s)
  case (Cons e es)
  obtain k' x where e: "e = (k', x)" by (cases e)
  show ?case using Cons.IH [of "step s e"] entry_own [of s k x] entry_other [of k k' s x]
    by (cases "k' = k") (auto simp: e)
qed simp

end

end
