(* ===== verification/Hyde_Types.thy ===== *)
theory Hyde_Types
  imports Complex_Main Hyde_Prelude "HOL-Library.Word"
begin

text \<open>
  The data that the components exchange (\<open>hydeclaw-types/src/lib.rs\<close>,
  \<open>agent/stream_event.rs\<close>): JSON values, chat messages with their tool calls, LLM responses
  and the stream events an engine emits.

  JSON values stand for \<open>serde_json::Value\<close>. An object is an association list from which
  lookups take the first entry; \<open>obj_insert\<close> and \<open>obj_remove\<close> keep keys distinct. Printing and
  parsing of JSON text belong to a library outside the repository and are arguments of the
  definitions that use them.
\<close>

section \<open>JSON values\<close>

datatype json =
    JNull
  | JBool bool
  | JInt int
  | JFloat rat
  | JString bytes
  | JArray "json list"
  | JObject "(bytes \<times> json) list"

type_synonym json_object = "(bytes \<times> json) list"

definition json_get :: "json \<Rightarrow> bytes \<Rightarrow> json option" where
  "json_get v k = (case v of JObject kvs \<Rightarrow> map_of kvs k | _ \<Rightarrow> None)"

definition json_as_str :: "json \<Rightarrow> bytes option" where
  "json_as_str v = (case v of JString s \<Rightarrow> Some s | _ \<Rightarrow> None)"

definition json_as_bool :: "json \<Rightarrow> bool option" where
  "json_as_bool v = (case v of JBool b \<Rightarrow> Some b | _ \<Rightarrow> None)"

definition json_as_array :: "json \<Rightarrow> json list option" where
  "json_as_array v = (case v of JArray xs \<Rightarrow> Some xs | _ \<Rightarrow> None)"

definition json_as_u64 :: "json \<Rightarrow> nat option" where
  "json_as_u64 v = (case v of JInt i \<Rightarrow> if 0 \<le> i \<and> i < 2 ^ 64 then Some (nat i) else None | _ \<Rightarrow> None)"

definition json_is_object :: "json \<Rightarrow> bool" where
  "json_is_object v \<longleftrightarrow> (case v of JObject _ \<Rightarrow> True | _ \<Rightarrow> False)"

text \<open>\<open>Map::insert\<close> and \<open>Map::remove\<close> on the members of an object.\<close>

definition obj_insert :: "bytes \<Rightarrow> json \<Rightarrow> json_object \<Rightarrow> json_object" where
  "obj_insert k v kvs = al_insert k v kvs"

definition obj_remove :: "bytes \<Rightarrow> json_object \<Rightarrow> json_object" where
  "obj_remove k kvs = al_remove k kvs"

lemmas obj_defs = obj_insert_def obj_remove_def

section \<open>Messages\<close>

datatype message_role = System | User | Assistant | Tool

record tool_call =
  tc_id :: bytes
  tc_name :: bytes
  tc_arguments :: json

record thinking_block =
  tb_thinking :: bytes
  tb_signature :: bytes

record message =
  msg_role :: message_role
  msg_content :: bytes
  msg_tool_calls :: "tool_call list option"
  msg_tool_call_id :: "bytes option"
  msg_thinking_blocks :: "thinking_block list"

definition plain_message :: "message_role \<Rightarrow> bytes \<Rightarrow> message" where
  "plain_message r c =
     \<lparr>msg_role = r, msg_content = c, msg_tool_calls = None, msg_tool_call_id = None,
      msg_thinking_blocks = []\<rparr>"

record tool_definition =
  td_name :: bytes
  td_description :: bytes
  td_input_schema :: json

record token_usage =
  input_tokens :: "32 word"
  output_tokens :: "32 word"

record llm_response =
  lr_content :: bytes
  lr_tool_calls :: "tool_call list"
  lr_usage :: "token_usage option"
  lr_finish_reason :: "bytes option"
  lr_model :: "bytes option"
  lr_provider :: "bytes option"
  lr_fallback_notice :: "bytes option"
  lr_tools_used :: "bytes list"
  lr_iterations :: "32 word"
  lr_thinking_blocks :: "thinking_block list"

section \<open>Messages from channels\<close>

datatype media_type = Image | Audio | Video | Document

type_synonym uuid = nat

record media_attachment =
  ma_url :: bytes
  ma_media_type :: media_type
  ma_file_name :: "bytes option"
  ma_mime_type :: "bytes option"
  ma_file_size :: "64 word option"

record incoming_message =
  im_user_id :: bytes
  im_context :: json
  im_text :: "bytes option"
  im_attachments :: "media_attachment list"
  im_agent_id :: bytes
  im_channel :: bytes
  im_timestamp :: bytes
  im_formatting_prompt :: "bytes option"
  im_tool_policy_override :: "json option"
  im_leaf_message_id :: "uuid option"
  im_user_message_id :: "uuid option"

record incoming_message_dto =
  dto_user_id :: bytes
  dto_display_name :: "bytes option"
  dto_text :: "bytes option"
  dto_attachments :: "media_attachment list"
  dto_context :: json
  dto_timestamp :: bytes

definition into_incoming ::
  "incoming_message_dto \<Rightarrow> bytes \<Rightarrow> bytes \<Rightarrow> bytes option \<Rightarrow> incoming_message" where
  "into_incoming self agent_id channel formatting_prompt =
     \<lparr>im_user_id = dto_user_id self,
      im_context = dto_context self,
      im_text = dto_text self,
      im_attachments = dto_attachments self,
      im_agent_id = agent_id,
      im_channel = channel,
      im_timestamp = dto_timestamp self,
      im_formatting_prompt = formatting_prompt,
      im_tool_policy_override = None,
      im_leaf_message_id = None,
      im_user_message_id = None\<rparr>"

section \<open>Stream events\<close>

datatype stream_event =
    SessionId bytes
  | MessageStart (ms_message_id: bytes)
  | StepStart (ss_step_id: bytes)
  | TextDelta bytes
  | ToolCallStart (tcs_id: bytes) (tcs_name: bytes)
  | ToolCallArgs (tca_id: bytes) (tca_args_text: bytes)
  | ToolResult (tr_id: bytes) (tr_result: bytes)
  | StepFinish (sf_step_id: bytes) (sf_finish_reason: bytes)
  | RichCard (rc_card_type: bytes) (rc_data: json)
  | File (f_url: bytes) (f_media_type: bytes)
  | Finish (fin_finish_reason: bytes) (fin_continuation: bool)
  | ApprovalNeeded (an_approval_id: bytes) (an_tool_name: bytes) (an_tool_input: json)
      (an_timeout_ms: "64 word")
  | ApprovalResolved (ar_approval_id: bytes) (ar_action: bytes) (ar_modified_input: "json option")
  | AgentSwitch (as_agent_name: bytes)
  | Error bytes
  | Reconnecting (r_attempt: "32 word") (r_delay_ms: "64 word")

definition is_text_delta :: "stream_event \<Rightarrow> bool" where
  "is_text_delta ev \<longleftrightarrow> (case ev of TextDelta _ \<Rightarrow> True | _ \<Rightarrow> False)"

lemma is_text_delta_simp [simp]: "is_text_delta (TextDelta s)"
  by (simp add: is_text_delta_def)

end
