(* ===== verification/Text_Codec.thy ===== *)
theory Text_Codec
  imports Hyde_Prelude
begin

text \<open>
  Text operations of the Rust standard library that the provider components use:
  \<open>String::from_utf8_lossy\<close>, \<open>str::replace\<close> and \<open>str::lines\<close>, with the facts about cutting a
  byte stream into pieces.
\<close>

section \<open>Decoding of UTF-8\<close>

text \<open>The number of bytes a lead byte announces; \<open>None\<close> for a byte that cannot start a
  character. \<open>second_ok\<close> is the range of the second byte, which excludes overlong forms,
  surrogates and code points above \<open>0x10FFFF\<close>.\<close>

definition utf8_width :: "char \<Rightarrow> nat option" where
  "utf8_width c =
     (let n = (of_char c :: nat)
      in if n < 0x80 then Some 1
         else if n < 0xC2 then None
         else if n < 0xE0 then Some 2
         else if n < 0xF0 then Some 3
         else if n < 0xF5 then Some 4
         else None)"

definition second_ok :: "char \<Rightarrow> char \<Rightarrow> bool" where
  "second_ok c d =
     (let n = (of_char c :: nat); m = (of_char d :: nat)
      in if n = 0xE0 then 0xA0 \<le> m \<and> m < 0xC0
         else if n = 0xED then 0x80 \<le> m \<and> m < 0xA0
         else if n = 0xF0 then 0x90 \<le> m \<and> m < 0xC0
         else if n = 0xF4 then 0x80 \<le> m \<and> m < 0x90
         else is_continuation d)"

text \<open>How many bytes the first character of \<open>c # s\<close> takes, and whether it is well formed. An
  ill-formed sequence ends before the first byte that does not fit.\<close>

definition utf8_chunk :: "char \<Rightarrow> bytes \<Rightarrow> nat \<times> bool" where
  "utf8_chunk c s = (case utf8_width c of
       None \<Rightarrow> (1, False)
     | Some w \<Rightarrow>
         if w = 1 then (1, True)
         else (case s of [] \<Rightarrow> (1, False)
               | d # s2 \<Rightarrow>
                   if \<not> second_ok c d then (1, False)
                   else if w = 2 then (2, True)
                   else (case s2 of [] \<Rightarrow> (2, False)
                         | e # s3 \<Rightarrow>
                             if \<not> is_continuation e then (2, False)
                             else if w = 3 then (3, True)
                             else (case s3 of [] \<Rightarrow> (3, False)
                                   | f # _ \<Rightarrow> if is_continuation f then (4, True) else (3, False)))))"

definition REPLACEMENT :: bytes where
  "REPLACEMENT = utf8 [0xEF, 0xBF, 0xBD]"

lemma utf8_chunk_pos: "0 < fst (utf8_chunk c s)"
  by (auto simp: utf8_chunk_def split: option.splits list.splits)

lemma utf8_chunk_drop: "(k, ok) = utf8_chunk c s \<Longrightarrow> Suc (length s) - k < Suc (length s)"
  using utf8_chunk_pos [of c s] by (cases "utf8_chunk c s") auto

function from_utf8_lossy :: "bytes \<Rightarrow> bytes" where
  "from_utf8_lossy [] = []"
| "from_utf8_lossy (c # s) =
     (let (k, ok) = utf8_chunk c s
      in (if ok then take k (c # s) else REPLACEMENT) @ from_utf8_lossy (drop k (c # s)))"
  by pat_completeness auto
termination
  by (relation "measure length") (auto dest: utf8_chunk_drop)

declare from_utf8_lossy.simps(2) [simp del]

function wf_utf8 :: "bytes \<Rightarrow> bool" where
  "wf_utf8 [] = True"
| "wf_utf8 (c # s) = (let (k, ok) = utf8_chunk c s in ok \<and> wf_utf8 (drop k (c # s)))"
  by pat_completeness auto
termination
  by (relation "measure length") (auto dest: utf8_chunk_drop)

declare wf_utf8.simps(2) [simp del]

lemma utf8_chunk_le: "snd (utf8_chunk c s) \<Longrightarrow> fst (utf8_chunk c s) \<le> Suc (length s)"
  by (auto simp: utf8_chunk_def split: option.splits list.splits if_splits)

lemma utf8_chunk_append:
  "snd (utf8_chunk c s) \<Longrightarrow> utf8_chunk c (s @ t) = utf8_chunk c s"
  by (auto simp: utf8_chunk_def split: option.splits list.splits if_splits)

text \<open>Text that ends at a character boundary is decoded independently of what follows.\<close>

lemma lossy_append: "wf_utf8 s \<Longrightarrow> from_utf8_lossy (s @ t) = s @ from_utf8_lossy t"
proof (induction s rule: wf_utf8.induct)
  case (2 c s)
  obtain k ok where k: "utf8_chunk c s = (k, ok)" by (cases "utf8_chunk c s")
  have ok: "ok" and rest: "wf_utf8 (drop k (c # s))"
    using "2.prems" k by (simp_all add: wf_utf8.simps(2))
  have le: "k \<le> length (c # s)" using utf8_chunk_le [of c s] k ok by simp
  have "utf8_chunk c (s @ t) = (k, True)" using utf8_chunk_append [of c s t] k ok by simp
  then have "from_utf8_lossy (c # s @ t) = take k (c # s @ t) @ from_utf8_lossy (drop k (c # s @ t))"
    by (simp add: from_utf8_lossy.simps(2))
  also have "take k (c # s @ t) = take k (c # s)" using take_append [of k "c # s" t] le by simp
  also have "drop k (c # s @ t) = drop k (c # s) @ t" using drop_append [of k "c # s" t] le by simp
  also have "from_utf8_lossy (drop k (c # s) @ t) = drop k (c # s) @ from_utf8_lossy t"
    using "2.IH" k ok rest by simp
  finally show ?case using append_take_drop_id [of k "c # s"] by (metis append_Cons append_assoc)
qed simp

lemma lossy_id: "wf_utf8 s \<Longrightarrow> from_utf8_lossy s = s"
  using lossy_append [of s "[]"] by simp

lemma lossy_concat: "\<forall>s \<in> set ss. wf_utf8 s \<Longrightarrow> concat (map from_utf8_lossy ss) = concat ss"
  by (induction ss) (auto simp: lossy_id)

lemma wf_utf8_ascii: "\<forall>c \<in> set s. (of_char c :: nat) < 128 \<Longrightarrow> wf_utf8 s"
  by (induction s) (auto simp: wf_utf8.simps(2) utf8_chunk_def utf8_width_def)

section \<open>Replacing\<close>

text \<open>\<open>str::replace\<close> with a single character and with a non-empty text.\<close>

definition replace_char :: "char \<Rightarrow> bytes \<Rightarrow> bytes \<Rightarrow> bytes" where
  "replace_char c r s = concat (map (\<lambda>x. if x = c then r else [x]) s)"

function str_replace :: "bytes \<Rightarrow> bytes \<Rightarrow> bytes \<Rightarrow> bytes" where
  "str_replace p r s =
     (case (if p = [] then None else str_find s p) of
        None \<Rightarrow> s
      | Some i \<Rightarrow> take i s @ r @ str_replace p r (drop (i + length p) s))"
  by pat_completeness auto
termination
proof (relation "measure (\<lambda>(p, r, s). length s)")
  fix p r s :: bytes and i
  assume "(if p = [] then None else str_find s p) = Some i"
  then have p: "p \<noteq> []" and f: "str_find s p = Some i" by (auto split: if_splits)
  have "0 < length s" using str_find_Some [OF f] p by (cases s) auto
  then show "((p, r, drop (i + length p) s), p, r, s) \<in> measure (\<lambda>(p, r, s). length s)"
    using p by (cases p) auto
qed auto

declare str_replace.simps [simp del]

lemma str_replace_absent: "\<not> contains s p \<Longrightarrow> str_replace p r s = s"
  by (subst str_replace.simps) (auto simp: contains_def)

lemma replace_char_simps [simp]:
  "replace_char c r [] = []"
  "replace_char c r (x # s) = (if x = c then r else [x]) @ replace_char c r s"
  by (simp_all add: replace_char_def)

section \<open>Lines\<close>

definition strip_cr :: "bytes \<Rightarrow> bytes" where
  "strip_cr l = (if l \<noteq> [] \<and> last l = char_of (13 :: nat) then butlast l else l)"

text \<open>\<open>str::lines\<close>.\<close>

fun split_lines :: "bytes \<Rightarrow> bytes \<Rightarrow> bytes list" where
  "split_lines acc [] = (if acc = [] then [] else [rev acc])"
| "split_lines acc (c # cs) =
     (if c = newline then strip_cr (rev acc) # split_lines [] cs else split_lines (c # acc) cs)"

definition lines :: "bytes \<Rightarrow> bytes list" where
  "lines s = split_lines [] s"

section \<open>Prefixes, pieces and numbers\<close>

text \<open>\<open>trim_start_matches\<close> with a non-empty text; as many rounds as the text has bytes are enough.\<close>

fun trim_prefixes :: "bytes \<Rightarrow> nat \<Rightarrow> bytes \<Rightarrow> bytes" where
  "trim_prefixes pat 0 s = s"
| "trim_prefixes pat (Suc fuel) s =
     (if pat \<noteq> [] \<and> starts_with s pat then trim_prefixes pat fuel (drop (length pat) s) else s)"

text \<open>\<open>str::split\<close> at a character.\<close>

fun split_char :: "char \<Rightarrow> bytes \<Rightarrow> bytes list" where
  "split_char c [] = [[]]"
| "split_char c (x # s) =
     (if x = c then [] # split_char c s
      else (case split_char c s of p # ps \<Rightarrow> (x # p) # ps | [] \<Rightarrow> [[x]]))"

text \<open>\<open>str::parse\<close> for an unsigned type with \<open>b\<close> values: an optional plus sign and digits, in range.\<close>

definition parse_unsigned :: "nat \<Rightarrow> bytes \<Rightarrow> nat option" where
  "parse_unsigned b s =
     (let digits = (if starts_with s ''+'' then drop 1 s else s);
          n = foldl (\<lambda>acc c. acc * 10 + (of_char c - 48)) 0 digits
      in if digits \<noteq> [] \<and> list_all is_ascii_digit digits \<and> n < b then Some n else None)"

lemma str_find_step:
  "p \<noteq> [] \<Longrightarrow> str_find (c # s) p = (if starts_with (c # s) p then Some 0 else map_option Suc (str_find s p))"
proof -
  assume p: "p \<noteq> []"
  have short: "length (c # s) < length p \<Longrightarrow> position_windows (length p) P s = None" for P
    using position_windows_Some_lt [of "length p" P s] position_windows_Some [of "length p" P s]
    by (cases "position_windows (length p) P s") auto
  show ?thesis
  proof (cases "length (c # s) < length p")
    case True
    then have "take (length p) (c # s) \<noteq> p" by (metis length_take min.strict_order_iff nat_less_le)
    then show ?thesis using True p short [OF True] by (simp add: str_find_def starts_with_def)
  qed (use p in \<open>simp add: str_find_def starts_with_def\<close>)
qed

lemma str_replace_skip:
  assumes "\<not> starts_with (c # s) p"
  shows "str_replace p r (c # s) = c # str_replace p r s"
proof (cases "p = []")
  case False
  then show ?thesis using assms
    by (cases "str_find s p") (simp_all add: str_replace.simps [of p r "c # s"] str_replace.simps [of p r s] str_find_step)
qed (use assms in \<open>simp add: starts_with_def\<close>)

lemma str_replace_here: "p \<noteq> [] \<Longrightarrow> str_replace p r (p @ s) = r @ str_replace p r s"
proof (cases p)
  case (Cons a q)
  have "str_find (p @ s) p = Some 0" using str_find_step [of p a "q @ s"] Cons starts_with_append [of p s] by simp
  moreover have "p \<noteq> []" using Cons by simp
  ultimately show ?thesis unfolding str_replace.simps [of p r "p @ s"] by simp
qed simp

lemma str_replace_nil [simp]: "str_replace p r [] = []"
  by (simp add: str_replace.simps [of p r "[]"] str_find_def)

text \<open>Text without the first character of the pattern is passed over.\<close>

lemma str_replace_pass:
  "c \<notin> set s \<Longrightarrow> str_replace (c # p) r (s @ t) = s @ str_replace (c # p) r t"
  by (induction s) (auto simp: str_replace_skip starts_with_def)

lemma find_char_hit: "c \<notin> set s \<Longrightarrow> find_char (s @ c # t) c = Some (length s)"
  by (induction s) auto

lemma show_nat_digits:
  "foldl (\<lambda>acc c. acc * 10 + (of_char c - 48)) 0 (show_nat n) = n \<and> list_all is_ascii_digit (show_nat n)"
proof (induction n rule: show_nat.induct)
  case (1 n)
  have digit: "of_char (digit_char d) = (48 + d :: nat)" if "d < 10" for d
    using that by (simp add: digit_char_def)
  show ?case
  proof (cases "n < 10")
    case True
    then show ?thesis by (subst (1 2) show_nat.simps) (simp add: digit is_ascii_digit_def)
  next
    case False
    have "is_ascii_digit (digit_char (n mod 10))" using digit [of "n mod 10"] by (simp add: is_ascii_digit_def less_Suc_eq_le [symmetric])
    then show ?thesis using 1 [OF False] digit [of "n mod 10"] False
      by (subst (1 2) show_nat.simps) simp
  qed
qed

lemma show_nat_without: "\<not> is_ascii_digit c \<Longrightarrow> c \<notin> set (show_nat n)"
  using show_nat_digits [of n] by (auto simp: list_all_iff)

lemma parse_show_nat: "n < b \<Longrightarrow> parse_unsigned b (show_nat n) = Some n"
proof -
  have "\<not> starts_with (show_nat n) ''+''"
    using show_nat_without [of "CHR ''+''" n] by (cases "show_nat n") (auto simp: starts_with_def is_ascii_digit_def)
  then show "n < b \<Longrightarrow> parse_unsigned b (show_nat n) = Some n"
    using show_nat_digits [of n] by (simp add: parse_unsigned_def)
qed

end
