(* ===== verification/Thinking.thy ===== *)
theory Thinking
  imports Hyde_Types
begin

text \<open>
  \<open>agent/thinking.rs\<close>: removal of model reasoning blocks (\<open><think>\<close>, \<open><thinking>\<close>,
  \<open><thought>\<close>, \<open><antthinking>\<close>) from finished responses (\<open>strip_thinking\<close>) and from
  streamed chunks (\<open>ThinkingFilter\<close>), the auto-continue heuristic \<open>looks_incomplete\<close> and
  \<open>extract_result_text\<close>.
\<close>

section \<open>Tags\<close>

definition open_tags :: "bytes list" where
  "open_tags = [''<think>'', ''<thinking>'', ''<thinking '', ''<think '', ''<thought>'', ''<antthinking>'']"

definition close_tags :: "bytes list" where
  "close_tags = [''</think>'', ''</thinking>'', ''</thought>'', ''</antthinking>'']"

definition tag_position :: "bytes \<Rightarrow> bytes \<Rightarrow> nat option" where
  "tag_position tag text = position_windows (length tag) (\<lambda>w. eq_ignore_ascii_case w tag) text"

text \<open>The \<open>for tag in [...]\<close> loop with its early return: the first tag of the list that
  occurs at all, with the position of its first occurrence.\<close>

fun first_tag :: "bytes list \<Rightarrow> bytes \<Rightarrow> (bytes \<times> nat) option" where
  "first_tag [] text = None"
| "first_tag (tag # tags) text =
     (case tag_position tag text of Some pos \<Rightarrow> Some (tag, pos) | None \<Rightarrow> first_tag tags text)"

definition find_open_tag_ascii :: "bytes \<Rightarrow> nat option" where
  "find_open_tag_ascii text = map_option snd (first_tag open_tags text)"

definition find_close_tag_ascii :: "bytes \<Rightarrow> nat option" where
  "find_close_tag_ascii text = map_option (\<lambda>(tag, pos). pos + length tag) (first_tag close_tags text)"

lemma first_tag_Some:
  assumes "first_tag tags text = Some (tag, pos)"
  shows "tag \<in> set tags \<and> tag_position tag text = Some pos"
  using assms by (induction tags) (auto split: option.splits)

lemma tag_position_lt [find_simps]: "tag_position tag text = Some pos \<Longrightarrow> pos < length text"
  unfolding tag_position_def by (rule position_windows_Some_lt)

lemma find_open_tag_lt [find_simps]: "find_open_tag_ascii text = Some pos \<Longrightarrow> pos < length text"
  by (auto simp: find_open_tag_ascii_def dest!: first_tag_Some tag_position_lt)

lemma tag_position_bound:
  "tag_position tag text = Some pos \<Longrightarrow> pos + length tag \<le> length text"
  unfolding tag_position_def by (drule position_windows_Some) simp

lemma find_close_tag_bounds [find_simps]:
  assumes "find_close_tag_ascii text = Some pos"
  shows "0 < pos \<and> pos \<le> length text"
proof -
  from assms obtain tag p where t: "first_tag close_tags text = Some (tag, p)"
    and pos: "pos = p + length tag" by (auto simp: find_close_tag_ascii_def)
  from first_tag_Some [OF t] have "tag \<in> set close_tags" "tag_position tag text = Some p" by auto
  then show ?thesis
    using tag_position_bound [of tag _ p] pos by (auto simp: close_tags_def)
qed

section \<open>Stripping a complete response\<close>

function strip_loop :: "bytes \<Rightarrow> bytes \<Rightarrow> bytes" where
  "strip_loop acc rest =
     (case find_open_tag_ascii rest of
        None \<Rightarrow> acc @ rest
      | Some start \<Rightarrow>
          (case find_char (drop start rest) CHR ''>'' of
             Some p \<Rightarrow>
               (case find_close_tag_ascii (drop (start + p + 1) rest) of
                  Some close_len \<Rightarrow>
                    strip_loop (acc @ take start rest) (drop (start + p + 1 + close_len) rest)
                | None \<Rightarrow> acc @ take start rest)
           | None \<Rightarrow> acc @ take start rest))"
  by pat_completeness auto
termination
  by (relation "measure (\<lambda>(acc, rest). length rest)") (auto dest: find_open_tag_lt)

declare strip_loop.simps [simp del]

definition strip_thinking :: "bytes \<Rightarrow> bytes" where
  "strip_thinking text = trim (strip_loop [] text)"

definition should_strip_thinking :: "incoming_message \<Rightarrow> bool" where
  "should_strip_thinking msg =
     (\<not> unwrap_or
        (Option.bind (Option.bind (json_get (im_context msg) ''directives'')
           (\<lambda>d. json_get d ''think'')) json_as_bool) False)"

definition maybe_strip_thinking :: "bytes \<Rightarrow> incoming_message \<Rightarrow> nat \<Rightarrow> bytes" where
  "maybe_strip_thinking text msg thinking_level =
     (if \<not> should_strip_thinking msg then text
      else if 3 \<le> thinking_level then text
      else strip_thinking text)"

section \<open>The streaming filter\<close>

record thinking_filter =
  in_thinking :: bool
  buffer :: bytes

definition filter_new :: thinking_filter where
  "filter_new = \<lparr>in_thinking = False, buffer = []\<rparr>"

definition partial_tags :: "bytes list" where
  "partial_tags =
     [''<think>'', ''<thinking>'', ''<thought>'', ''<antthinking>'',
      ''</think>'', ''</thinking>'', ''</thought>'', ''</antthinking>'']"

definition safe_emit_len :: "bytes \<Rightarrow> nat" where
  "safe_emit_len text =
     (case rfind_char text CHR ''<'' of
        Some pos \<Rightarrow>
          (let tail_lower = ascii_lower (drop pos text);
               could_be_tag = list_ex (\<lambda>tag. starts_with tag tail_lower) partial_tags
           in if could_be_tag then pos else length text)
      | None \<Rightarrow> length text)"

function process_loop :: "thinking_filter \<Rightarrow> bytes \<Rightarrow> thinking_filter \<times> bytes" where
  "process_loop self output =
     (if in_thinking self then
        (case find_close_tag_ascii (buffer self) of
           Some pos \<Rightarrow>
             process_loop (self\<lparr>buffer := drop pos (buffer self), in_thinking := False\<rparr>) output
         | None \<Rightarrow>
             (if 20 < length (buffer self)
              then (self\<lparr>buffer :=
                      drop (floor_char_boundary (buffer self) (length (buffer self) - 20)) (buffer self)\<rparr>,
                    output)
              else (self, output)))
      else
        (case find_open_tag_ascii (buffer self) of
           Some pos \<Rightarrow>
             (let rest = drop pos (buffer self);
                  rest' = (case find_char rest CHR ''>'' of
                             Some end \<Rightarrow> drop (end + 1) rest | None \<Rightarrow> [])
              in process_loop (self\<lparr>buffer := rest', in_thinking := True\<rparr>)
                   (output @ take pos (buffer self)))
         | None \<Rightarrow>
             (let safe = safe_emit_len (buffer self)
              in if 0 < safe
                 then (self\<lparr>buffer := drop safe (buffer self)\<rparr>, output @ take safe (buffer self))
                 else (self, output))))"
  by pat_completeness auto
termination
proof (relation "measure (\<lambda>(self, output). length (buffer self))", goal_cases)
  case 1
  show ?case by simp
next
  case (2 self acc pos)
  then show ?case by (auto dest: find_close_tag_bounds)
next
  case (3 self acc pos rest rest')
  then show ?case by (auto dest: find_open_tag_lt split: option.splits)
qed

declare process_loop.simps [simp del]

definition process :: "thinking_filter \<Rightarrow> bytes \<Rightarrow> thinking_filter \<times> bytes" where
  "process self chunk = process_loop (self\<lparr>buffer := buffer self @ chunk\<rparr>) []"

text \<open>A whole stream: the filter after the last chunk and the concatenation of what was emitted.\<close>

fun process_all :: "thinking_filter \<Rightarrow> bytes list \<Rightarrow> thinking_filter \<times> bytes" where
  "process_all f [] = (f, [])"
| "process_all f (c # cs) =
     (let (f', out) = process f c; (f'', outs) = process_all f' cs in (f'', out @ outs))"

section \<open>Incomplete responses and result extraction\<close>

definition incomplete_markers :: "bytes list" where
  "incomplete_markers =
     [utf8 [0xD0, 0xB4, 0xD0, 0xB0, 0xD0, 0xBB, 0xD0, 0xB5, 0xD0, 0xB5, 0x20, 0xD0, 0xBD,
      0xD1, 0x83, 0xD0, 0xB6, 0xD0, 0xBD, 0xD0, 0xBE],
      utf8 [0xD1, 0x81, 0xD0, 0xBB, 0xD0, 0xB5, 0xD0, 0xB4, 0xD1, 0x83, 0xD1, 0x8E, 0xD1,
      0x89, 0xD0, 0xB8, 0xD0, 0xB9, 0x20, 0xD1, 0x88, 0xD0, 0xB0, 0xD0, 0xB3],
      utf8 [0xD0, 0xBE, 0xD1, 0x81, 0xD1, 0x82, 0xD0, 0xB0, 0xD0, 0xBB, 0xD0, 0xBE, 0xD1,
      0x81, 0xD1, 0x8C, 0x20, 0xD1, 0x81, 0xD0, 0xB4, 0xD0, 0xB5, 0xD0, 0xBB, 0xD0, 0xB0,
      0xD1, 0x82, 0xD1, 0x8C],
      utf8 [0xD0, 0xB7, 0xD0, 0xB0, 0xD1, 0x82, 0xD0, 0xB5, 0xD0, 0xBC, 0x20, 0xD0, 0xBD,
      0xD1, 0x83, 0xD0, 0xB6, 0xD0, 0xBD, 0xD0, 0xBE],
      utf8 [0xD1, 0x82, 0xD0, 0xB5, 0xD0, 0xBF, 0xD0, 0xB5, 0xD1, 0x80, 0xD1, 0x8C, 0x20,
      0xD0, 0xBD, 0xD1, 0x83, 0xD0, 0xB6, 0xD0, 0xBD, 0xD0, 0xBE],
      utf8 [0xD0, 0xBD, 0xD1, 0x83, 0xD0, 0xB6, 0xD0, 0xBD, 0xD0, 0xBE, 0x20, 0xD0, 0xB5,
      0xD1, 0x89, 0xD1, 0x91],
      utf8 [0xD0, 0xBD, 0xD1, 0x83, 0xD0, 0xB6, 0xD0, 0xBD, 0xD0, 0xBE, 0x20, 0xD0, 0xB5,
      0xD1, 0x89, 0xD0, 0xB5],
      utf8 [0xD0, 0xBF, 0xD1, 0x80, 0xD0, 0xB8, 0xD1, 0x81, 0xD1, 0x82, 0xD1, 0x83, 0xD0,
      0xBF, 0xD0, 0xB0, 0xD1, 0x8E, 0x20, 0xD0, 0xBA],
      utf8 [0xD0, 0xBF, 0xD0, 0xB5, 0xD1, 0x80, 0xD0, 0xB5, 0xD1, 0x85, 0xD0, 0xBE, 0xD0,
      0xB6, 0xD1, 0x83, 0x20, 0xD0, 0xBA],
      ''next step'',
      ''remaining steps'',
      utf8 [0x69, 0x27, 0x6C, 0x6C, 0x20, 0x6E, 0x6F, 0x77],
      ''i will then'',
      ''starting with'',
      ''todo:'',
      ''need to also'',
      utf8 [0x6C, 0x65, 0x74, 0x27, 0x73, 0x20, 0x62, 0x65, 0x67, 0x69, 0x6E, 0x20, 0x62,
      0x79]]"

definition incomplete_exclusions :: "bytes list" where
  "incomplete_exclusions =
     [utf8 [0xD0, 0xBC, 0xD0, 0xBE, 0xD0, 0xB6, 0xD0, 0xB5, 0xD1, 0x88, 0xD1, 0x8C],
      utf8 [0xD1, 0x85, 0xD0, 0xBE, 0xD1, 0x87, 0xD0, 0xB5, 0xD1, 0x88, 0xD1, 0x8C],
      utf8 [0xD1, 0x85, 0xD0, 0xBE, 0xD1, 0x82, 0xD0, 0xB8, 0xD1, 0x82, 0xD0, 0xB5],
      utf8 [0xD0, 0xB5, 0xD1, 0x81, 0xD0, 0xBB, 0xD0, 0xB8, 0x20, 0xD0, 0xBD, 0xD1, 0x83,
      0xD0, 0xB6, 0xD0, 0xBD, 0xD0, 0xBE],
      utf8 [0xD0, 0xBF, 0xD1, 0x80, 0xD0, 0xB8, 0x20, 0xD0, 0xBD, 0xD0, 0xB5, 0xD0, 0xBE,
      0xD0, 0xB1, 0xD1, 0x85, 0xD0, 0xBE, 0xD0, 0xB4, 0xD0, 0xB8, 0xD0, 0xBC, 0xD0, 0xBE,
      0xD1, 0x81, 0xD1, 0x82, 0xD0, 0xB8],
      utf8 [0xD0, 0xBC, 0xD0, 0xBE, 0xD0, 0xB6, 0xD0, 0xBD, 0xD0, 0xBE, 0x20, 0xD1, 0x82,
      0xD0, 0xB0, 0xD0, 0xBA, 0xD0, 0xB6, 0xD0, 0xB5],
      utf8 [0xD1, 0x80, 0xD0, 0xB5, 0xD0, 0xBA, 0xD0, 0xBE, 0xD0, 0xBC, 0xD0, 0xB5, 0xD0,
      0xBD, 0xD0, 0xB4, 0xD1, 0x83, 0xD1, 0x8E],
      utf8 [0xD0, 0xBF, 0xD1, 0x80, 0xD0, 0xB5, 0xD0, 0xB4, 0xD0, 0xBB, 0xD0, 0xB0, 0xD0,
      0xB3, 0xD0, 0xB0, 0xD1, 0x8E],
      utf8 [0xD0, 0xB6, 0xD0, 0xB4, 0xD1, 0x83, 0x20, 0xD1, 0x82, 0xD0, 0xB2, 0xD0, 0xBE,
      0xD0, 0xB8, 0xD1, 0x85],
      utf8 [0xD0, 0xB6, 0xD0, 0xB4, 0xD1, 0x83, 0x20, 0xD0, 0xB2, 0xD0, 0xB0, 0xD1, 0x88,
      0xD0, 0xB8, 0xD1, 0x85],
      ''would you like'',
      ''do you want'',
      ''if you need'',
      ''you can'',
      ''let me know'']"

definition looks_incomplete :: "(bytes \<Rightarrow> bytes) \<Rightarrow> bytes \<Rightarrow> bool" where
  "looks_incomplete lower text =
     (let low = lower text;
          trimmed = trim text;
          is_open_code_block =
            contains trimmed ''```'' \<and> \<not> ends_with trimmed ''```''
              \<and> \<not> ends_with trimmed (''```'' @ [newline]);
          ends_with_list_marker =
            ends_with trimmed '':'' \<or> ends_with trimmed ''-''
              \<or> (trimmed \<noteq> [] \<and> is_ascii_digit (last trimmed));
          has_marker = list_ex (\<lambda>m. contains low m) incomplete_markers;
          has_exclusion = list_ex (\<lambda>m. contains low m) incomplete_exclusions
      in (has_marker \<or> is_open_code_block \<or> ends_with_list_marker) \<and> \<not> has_exclusion)"

definition extract_result_text :: "bytes \<Rightarrow> message list \<Rightarrow> bytes" where
  "extract_result_text content messages =
     (let stripped = strip_thinking content
      in if trim stripped \<noteq> [] then stripped
         else case find (\<lambda>m. msg_role m = Tool) (rev messages) of
                Some last_tool \<Rightarrow>
                  ''[No summary from agent. Last tool output:]'' @ [newline]
                    @ take_chars 3000 (msg_content last_tool)
              | None \<Rightarrow> ''(no result)'')"

section \<open>Search for tags\<close>

lemma to_ascii_lowercase_lt [simp]: "to_ascii_lowercase c = CHR ''<'' \<longleftrightarrow> c = CHR ''<''"
proof (cases "65 \<le> (of_char c :: nat) \<and> (of_char c :: nat) \<le> 90")
  case True
  then have "to_ascii_lowercase c = char_of ((of_char c :: nat) + 32)"
    by (simp add: to_ascii_lowercase_def Let_def)
  moreover have "char_of ((of_char c :: nat) + 32) \<noteq> CHR ''<''"
  proof
    assume "char_of ((of_char c :: nat) + 32) = CHR ''<''"
    then have "of_char (char_of ((of_char c :: nat) + 32) :: char) = (60 :: nat)" by simp
    with True show False by (simp add: of_char_of)
  qed
  moreover have "c \<noteq> CHR ''<''" using True by auto
  ultimately show ?thesis by simp
qed (auto simp: to_ascii_lowercase_def Let_def)

lemma to_ascii_lowercase_gt [simp]: "to_ascii_lowercase c = CHR ''>'' \<longleftrightarrow> c = CHR ''>''"
proof (cases "65 \<le> (of_char c :: nat) \<and> (of_char c :: nat) \<le> 90")
  case True
  then have "to_ascii_lowercase c = char_of ((of_char c :: nat) + 32)"
    by (simp add: to_ascii_lowercase_def Let_def)
  moreover have "char_of ((of_char c :: nat) + 32) \<noteq> CHR ''>''"
  proof
    assume "char_of ((of_char c :: nat) + 32) = CHR ''>''"
    then have "of_char (char_of ((of_char c :: nat) + 32) :: char) = (62 :: nat)" by simp
    with True show False by (simp add: of_char_of)
  qed
  moreover have "c \<noteq> CHR ''>''" using True by auto
  ultimately show ?thesis by simp
qed (auto simp: to_ascii_lowercase_def Let_def)

lemma tag_position_skip [find_simps]:
  assumes "CHR ''<'' \<notin> set v"
  shows "tag_position (CHR ''<'' # t) (v @ r)
    = map_option (\<lambda>i. length v + i) (tag_position (CHR ''<'' # t) r)"
  unfolding tag_position_def
proof (rule position_windows_skip)
  fix j assume j: "j < length v"
  then have "drop j (v @ r) = v ! j # drop (Suc j) (v @ r)"
    by (metis Cons_nth_drop_Suc length_append nth_append trans_less_add1)
  moreover have "v ! j \<noteq> CHR ''<''" using assms j by (metis nth_mem)
  ultimately show "\<not> eq_ignore_ascii_case (take (length (CHR ''<'' # t)) (drop j (v @ r))) (CHR ''<'' # t)"
    by (simp add: eq_ignore_ascii_case_def ascii_lower_def)
       (metis to_ascii_lowercase_lt)
qed simp

lemma tag_position_here [find_simps]:
  "tag \<noteq> [] \<Longrightarrow> tag_position tag (tag @ r) = Some 0"
  by (cases tag) (auto simp: tag_position_def eq_ignore_ascii_case_def)

lemma find_open_think [find_simps]:
  "CHR ''<'' \<notin> set v \<Longrightarrow> find_open_tag_ascii (v @ ''<think>'' @ r) = Some (length v)"
  using tag_position_skip [of v "''think>''" "''<think>'' @ r"]
    tag_position_here [of "''<think>''" r]
  by (simp add: find_open_tag_ascii_def open_tags_def)

lemma find_close_think [find_simps]:
  "CHR ''<'' \<notin> set v \<Longrightarrow> find_close_tag_ascii (v @ ''</think>'' @ r) = Some (length v + 8)"
  using tag_position_skip [of v "''/think>''" "''</think>'' @ r"]
    tag_position_here [of "''</think>''" r]
  by (simp add: find_close_tag_ascii_def close_tags_def)

lemma tag_position_sublist_None:
  assumes "tag_position tag (a @ s @ b) = None" and "tag \<noteq> []"
  shows "tag_position tag s = None"
  using assms position_windows_sublist_None
  unfolding tag_position_def by blast

lemma first_tag_None: "first_tag tags s = None \<longleftrightarrow> (\<forall>tag \<in> set tags. tag_position tag s = None)"
  by (induction tags) (auto split: option.splits)

lemma find_open_tag_sublist_None:
  assumes "find_open_tag_ascii (a @ s @ b) = None"
  shows "find_open_tag_ascii s = None"
proof -
  have "[] \<notin> set open_tags" by (simp add: open_tags_def)
  with assms show ?thesis
    unfolding find_open_tag_ascii_def
    by (auto simp: first_tag_None dest: tag_position_sublist_None)
qed

lemma find_open_tag_no_lt: "CHR ''<'' \<notin> set s \<Longrightarrow> find_open_tag_ascii s = None"
proof -
  assume "CHR ''<'' \<notin> set s"
  then have "tag_position (CHR ''<'' # t) s = None" for t
    using tag_position_skip [of s t "[]"] by (simp add: tag_position_def)
  then show ?thesis
    unfolding find_open_tag_ascii_def option.map_disc_iff first_tag_None open_tags_def by simp
qed

section \<open>Functional correctness of \<open>strip_thinking\<close>\<close>

text \<open>A response made of visible pieces, each followed by one reasoning block, and a visible end.\<close>

fun render_blocks :: "(bytes \<times> bytes) list \<Rightarrow> bytes \<Rightarrow> bytes" where
  "render_blocks [] end_text = end_text"
| "render_blocks ((v, t) # bs) end_text = v @ ''<think>'' @ t @ ''</think>'' @ render_blocks bs end_text"

lemma strip_loop_block:
  assumes "CHR ''<'' \<notin> set v" and "CHR ''<'' \<notin> set t"
  shows "strip_loop acc (v @ ''<think>'' @ t @ ''</think>'' @ r) = strip_loop (acc @ v) r"
proof -
  have "find_char (''<think>'' @ t @ ''</think>'' @ r) CHR ''>'' = Some 6" by simp
  moreover have "drop (15 + length t) (''<think>'' @ t @ ''</think>'' @ r) = r"
  proof -
    let ?b = "''<think>'' @ t @ ''</think>''"
    have len: "15 + length t = length ?b" by simp
    have "drop (length ?b) (?b @ r) = r" by (rule drop_length_append)
    then show ?thesis unfolding len by (simp only: append_assoc)
  qed
  ultimately show ?thesis using assms
    by (subst strip_loop.simps)
       (simp add: find_open_think [simplified] find_close_think [simplified])
qed

lemma strip_loop_render:
  assumes "\<forall>(v, t) \<in> set bs. CHR ''<'' \<notin> set v \<and> CHR ''<'' \<notin> set t" and "CHR ''<'' \<notin> set end_text"
  shows "strip_loop acc (render_blocks bs end_text) = acc @ concat (map fst bs) @ end_text"
  using assms(1)
proof (induction bs arbitrary: acc)
  case Nil
  with assms(2) show ?case by (subst strip_loop.simps) (simp add: find_open_tag_no_lt)
next
  case (Cons b bs)
  obtain v t where b: "b = (v, t)" by (cases b)
  with Cons.prems have "CHR ''<'' \<notin> set v" "CHR ''<'' \<notin> set t" by auto
  with Cons b show ?case by (simp add: strip_loop_block [simplified])
qed

text \<open>In a response whose reasoning is delimited by \<open><think>\<close> and \<open></think>\<close> and which has no
  other angle bracket, \<open>strip_thinking\<close> removes exactly the reasoning blocks: what is left is
  the visible text, in order, with outer white space trimmed.\<close>

theorem strip_thinking_removes_blocks:
  assumes "\<forall>(v, t) \<in> set bs. CHR ''<'' \<notin> set v \<and> CHR ''<'' \<notin> set t"
    and "CHR ''<'' \<notin> set end_text"
  shows "strip_thinking (render_blocks bs end_text) = trim (concat (map fst bs) @ end_text)"
  using strip_loop_render [OF assms, of "[]"] by (simp add: strip_thinking_def)

theorem strip_thinking_removes_blocks_witness:
  "strip_thinking ''Hi <think>plan</think>there'' = trim ''Hi there''"
  using strip_thinking_removes_blocks [of "[(''Hi '', ''plan'')]" "''there''"] by simp

text \<open>The tag search prefers the tag kind that is listed first over the tag that occurs
  first. A \<open><thought>\<close> block that precedes a \<open><think>\<close> block is therefore left in the stripped
  text together with its tags.\<close>

theorem strip_thinking_leaks_earlier_thought_block:
  "strip_thinking ''<thought>a</thought><think>b</think>c'' = ''<thought>a</thought>c''"
proof -
  have "strip_loop [] ''<thought>a</thought><think>b</think>c'' = ''<thought>a</thought>c''"
    by (simp add: strip_loop.simps find_open_tag_ascii_def open_tags_def find_close_tag_ascii_def
        close_tags_def tag_position_def eq_ignore_ascii_case_def ascii_lower_def
        to_ascii_lowercase_def)
  moreover have "trim ''<thought>a</thought>c'' = ''<thought>a</thought>c''"
    by (rule trim_graphic) (simp_all add: is_ascii_graphic_def)
  ultimately show ?thesis by (simp add: strip_thinking_def)
qed

section \<open>The streaming filter\<close>

lemma safe_emit_len_le: "safe_emit_len s \<le> length s"
  by (auto simp: safe_emit_len_def Let_def split: option.splits dest: rfind_char_Some)

lemma process_no_open_tag:
  assumes "\<not> in_thinking f" and "find_open_tag_ascii (buffer f @ chunk) = None"
    and "process f chunk = (f', out)"
  shows "\<not> in_thinking f' \<and> out @ buffer f' = buffer f @ chunk"
  using assms safe_emit_len_le [of "buffer f @ chunk"]
  unfolding process_def
  by (subst (asm) process_loop.simps)
     (auto simp: Let_def simp del: take_append drop_append split: if_splits)

lemma process_all_no_open_tag:
  assumes "\<not> in_thinking f" and "find_open_tag_ascii (buffer f @ concat cs) = None"
    and "process_all f cs = (f', out)"
  shows "\<not> in_thinking f' \<and> out @ buffer f' = buffer f @ concat cs"
  using assms
proof (induction cs arbitrary: f out)
  case (Cons c cs)
  obtain g o1 where g: "process f c = (g, o1)" by (cases "process f c")
  obtain o2 where o2: "process_all g cs = (f', o2)" and out: "out = o1 @ o2"
    using Cons.prems(3) g by (auto split: prod.splits)
  have "find_open_tag_ascii (buffer f @ c) = None"
    using find_open_tag_sublist_None [of "[]" "buffer f @ c" "concat cs"] Cons.prems(2) by simp
  from process_no_open_tag [OF Cons.prems(1) this g]
  have gth: "\<not> in_thinking g" and gb: "o1 @ buffer g = buffer f @ c" by auto
  have "find_open_tag_ascii (buffer g @ concat cs) = None"
    using find_open_tag_sublist_None [of o1 "buffer g @ concat cs" "[]"] Cons.prems(2) gb
    by (metis append.assoc append.right_neutral concat.simps(2))
  from Cons.IH [OF gth this o2] gb out show ?case by auto
qed simp

text \<open>The streaming filter is lossless and order preserving on visible text: as long as no
  opening tag occurs in the stream, the text emitted so far followed by the text still held back
  is exactly the text received, whatever the chunk boundaries are.\<close>

theorem filter_transparent_without_tags:
  assumes "find_open_tag_ascii (concat cs) = None"
    and "process_all filter_new cs = (f, out)"
  shows "out @ buffer f = concat cs"
  using process_all_no_open_tag [of filter_new cs f out] assms by (simp add: filter_new_def)

theorem filter_transparent_without_tags_witness:
  "snd (process_all filter_new [''a <t'', ''able>'']) @ buffer (fst (process_all filter_new [''a <t'', ''able>'']))
    = ''a <table>''"
proof -
  have "find_open_tag_ascii (concat [''a <t'', ''able>'']) = None" by code_simp
  from filter_transparent_without_tags [OF this, of "fst (process_all filter_new [''a <t'', ''able>''])"
      "snd (process_all filter_new [''a <t'', ''able>''])"]
  show ?thesis by simp
qed

text \<open>Inside a reasoning block the filter emits nothing until the closing tag has arrived.\<close>

theorem filter_silent_inside_block:
  assumes "in_thinking f" and "find_close_tag_ascii (buffer f @ chunk) = None"
  shows "snd (process f chunk) = [] \<and> in_thinking (fst (process f chunk))"
  using assms
  by (simp add: process_def process_loop.simps [of "f\<lparr>buffer := buffer f @ chunk\<rparr>" "[]"])

theorem filter_silent_inside_block_witness:
  "snd (process \<lparr>in_thinking = True, buffer = ''secret ''\<rparr> ''plan <b>'') = []"
proof -
  let ?f = "\<lparr>in_thinking = True, buffer = ''secret ''\<rparr>"
  have "find_close_tag_ascii (buffer ?f @ ''plan <b>'') = None" by code_simp
  then show ?thesis using filter_silent_inside_block [of ?f "''plan <b>''"] by simp
qed

subsection \<open>Bound on the held-back text\<close>

lemma safe_emit_tail:
  "length (drop (safe_emit_len s) s) \<le> 14"
proof (cases "rfind_char s CHR ''<''")
  case (Some pos)
  show ?thesis
  proof (cases "list_ex (\<lambda>tag. starts_with tag (ascii_lower (drop pos s))) partial_tags")
    case True
    then obtain tag where "tag \<in> set partial_tags" "starts_with tag (ascii_lower (drop pos s))"
      by (auto simp: list_ex_iff)
    then have "length (drop pos s) \<le> length tag" "length tag \<le> 14"
      by (metis length_ascii_lower length_take min.cobounded1 starts_with_def)
         (use \<open>tag \<in> set partial_tags\<close> in \<open>auto simp: partial_tags_def\<close>)
    with Some True show ?thesis by (simp add: safe_emit_len_def)
  next
    case False
    with Some show ?thesis by (simp add: safe_emit_len_def)
  qed
qed (simp add: safe_emit_len_def)

lemma first_tag_window:
  assumes "first_tag tags s = Some (tag, pos)"
  shows "tag \<in> set tags \<and> pos + length tag \<le> length s
    \<and> ascii_lower (take (length tag) (drop pos s)) = ascii_lower tag"
  using first_tag_Some [OF assms] position_windows_Some [of "length tag" _ s pos]
  unfolding tag_position_def eq_ignore_ascii_case_def by auto

lemma after_close_boundary:
  assumes "find_close_tag_ascii s = Some pos" and "valid_utf8 s"
  shows "is_char_boundary s pos"
proof -
  from assms obtain tag p where t: "first_tag close_tags s = Some (tag, p)"
    and pos: "pos = p + length tag" by (auto simp: find_close_tag_ascii_def)
  from first_tag_window [OF t] have w: "tag \<in> set close_tags" "p + length tag \<le> length s"
    "ascii_lower (take (length tag) (drop p s)) = ascii_lower tag" by auto
  let ?n = "length tag"
  have n: "0 < ?n" "last tag = CHR ''>''" using w(1) by (auto simp: close_tags_def)
  have "ascii_lower (take ?n (drop p s)) ! (?n - 1) = ascii_lower tag ! (?n - 1)"
    using w(3) by simp
  then have "to_ascii_lowercase (s ! (p + ?n - 1)) = to_ascii_lowercase (last tag)"
    using n(1) w(2) by (simp add: ascii_lower_def last_conv_nth)
  then have gt: "s ! (pos - 1) = CHR ''>''"
    using n pos by (simp add: to_ascii_lowercase_def [of "CHR ''>''"])
  have "pos - 1 < length s" using n(1) pos w(2) by linarith
  then have "is_char_boundary s (Suc (pos - 1))"
    by (rule valid_utf8_after_ascii [OF assms(2)]) (use gt in simp)
  then show ?thesis using n pos by simp
qed

lemma open_tag_rest_valid:
  assumes "find_open_tag_ascii s = Some pos" and "valid_utf8 s"
  shows "valid_utf8 (case find_char (drop pos s) CHR ''>'' of
           Some e \<Rightarrow> drop (e + 1) (drop pos s) | None \<Rightarrow> [])"
proof (cases "find_char (drop pos s) CHR ''>''")
  case (Some e)
  from find_char_Some [OF Some] have e: "e < length (drop pos s)" "s ! (pos + e) = CHR ''>''"
    by auto
  then have "is_char_boundary s (Suc (pos + e))"
    by (intro valid_utf8_after_ascii [OF assms(2)]) auto
  with assms(2) have "valid_utf8 (drop (Suc (pos + e)) s)" by (rule valid_utf8_drop)
  with Some show ?thesis by (simp add: add.commute)
qed simp

lemma safe_emit_valid:
  assumes "valid_utf8 s" shows "valid_utf8 (drop (safe_emit_len s) s)"
proof (rule valid_utf8_drop [OF assms])
  show "is_char_boundary s (safe_emit_len s)"
    by (auto simp: safe_emit_len_def Let_def is_char_boundary_def is_continuation_def
        split: option.splits dest: rfind_char_Some)
qed

lemma process_loop_buffer:
  "valid_utf8 (buffer f) \<Longrightarrow>
   valid_utf8 (buffer (fst (process_loop f out))) \<and> length (buffer (fst (process_loop f out))) \<le> 23"
proof (induction f out rule: process_loop.induct)
  case (1 f out)
  let ?b = "buffer f"
  show ?case
  proof (cases "in_thinking f")
    case th: True
    show ?thesis
    proof (cases "find_close_tag_ascii ?b")
      case None
      let ?cut = "floor_char_boundary ?b (length ?b - 20)"
      have "length ?b \<le> ?cut + 23"
        using floor_char_boundary_near [OF "1.prems", of "length ?b - 20"] by simp
      moreover have "valid_utf8 (drop ?cut ?b)"
        by (rule valid_utf8_drop [OF "1.prems" floor_char_boundary_boundary])
      ultimately show ?thesis
        using th None "1.prems" by (subst process_loop.simps, subst process_loop.simps) auto
    next
      case (Some pos)
      have "valid_utf8 (drop pos ?b)"
        by (rule valid_utf8_drop [OF "1.prems" after_close_boundary [OF Some "1.prems"]])
      with "1.IH"(1) [OF th Some] th Some show ?thesis
        by (simp add: process_loop.simps [of f out])
    qed
  next
    case th: False
    show ?thesis
    proof (cases "find_open_tag_ascii ?b")
      case None
      then show ?thesis
        using th safe_emit_tail [of ?b] safe_emit_valid [OF "1.prems"] "1.prems"
        by (auto simp: process_loop.simps [of f out] Let_def)
    next
      case (Some pos)
      from "1.IH"(2) [OF th Some refl refl] open_tag_rest_valid [OF Some "1.prems"] th Some
      show ?thesis by (simp add: process_loop.simps [of f out] Let_def)
    qed
  qed
qed

text \<open>The filter needs constant memory: after any sequence of well-formed UTF-8 chunks it
  holds back at most 23 bytes (20 for a partial closing tag, rounded down to a character
  boundary, or a partial tag outside a block).\<close>

theorem filter_buffer_bounded:
  assumes "\<forall>c \<in> set cs. valid_utf8 c"
  shows "length (buffer (fst (process_all filter_new cs))) \<le> 23"
proof -
  have "valid_utf8 (buffer f) \<Longrightarrow> length (buffer f) \<le> 23 \<Longrightarrow>
      length (buffer (fst (process_all f cs))) \<le> 23" for f
    using assms
  proof (induction cs arbitrary: f)
    case (Cons c cs)
    have "valid_utf8 (buffer f @ c)" using Cons.prems by (auto intro: valid_utf8_append)
    from process_loop_buffer [of "f\<lparr>buffer := buffer f @ c\<rparr>" "[]"] this
    have "valid_utf8 (buffer (fst (process f c)))" "length (buffer (fst (process f c))) \<le> 23"
      by (auto simp: process_def)
    with Cons.IH [of "fst (process f c)"] Cons.prems(3) show ?case
      by (auto simp: Let_def split: prod.splits)
  qed simp
  from this [of filter_new] show ?thesis by (simp add: filter_new_def)
qed

theorem filter_buffer_bounded_witness:
  "length (buffer (fst (process_all filter_new [''<think>abcdefghijklmnopqrstuvwxyz0123456789'', ''<b>'']))) \<le> 23"
  by (rule filter_buffer_bounded) (simp add: utf8_tail_def)

section \<open>Result extraction\<close>

text \<open>\<open>extract_result_text\<close> always produces a non-empty result, whatever the model wrote and
  whatever messages there are.\<close>

theorem extract_result_text_nonempty: "extract_result_text content messages \<noteq> []"
  by (auto simp: extract_result_text_def Let_def split: option.splits)

end
