(* ===== verification/Tool_Loop.thy ===== *)
theory Tool_Loop
  imports Hyde_Types
begin

text \<open>
  \<open>agent/tool_loop.rs\<close>: the loop detector that stops an agent which repeats one tool call, or
  whose calls to one tool keep failing. Calls are compared by a 64-bit hash of the tool name and
  the printed arguments; the hasher and the JSON printer are arguments (\<open>hasher\<close>, \<open>ser\<close>).
  \<open>usize\<close> counters are natural numbers: they count calls of one session and cannot reach
  \<open>2 ^ 64\<close>.
\<close>

section \<open>Configuration\<close>

record tool_loop_config =
  max_iterations :: nat
  compact_on_overflow :: bool
  detect_loops :: bool
  cfg_break_threshold :: nat
  max_consecutive_failures :: nat
  max_auto_continues :: nat
  max_loop_nudges :: nat
  cfg_error_break_threshold :: nat

definition usize_MAX :: nat where
  "usize_MAX = 2 ^ 64 - 1"

definition effective_max_iterations :: "tool_loop_config \<Rightarrow> nat" where
  "effective_max_iterations self = (if max_iterations self = 0 then usize_MAX else max_iterations self)"

definition tool_loop_config_default :: tool_loop_config where
  "tool_loop_config_default =
     \<lparr>max_iterations = 50, compact_on_overflow = True, detect_loops = True,
      cfg_break_threshold = 10, max_consecutive_failures = 3, max_auto_continues = 5,
      max_loop_nudges = 3, cfg_error_break_threshold = 3\<rparr>"

record tool_loop_settings =
  tls_max_iterations :: nat
  tls_compact_on_overflow :: bool
  tls_detect_loops :: bool
  tls_warn_threshold :: nat
  tls_break_threshold :: nat
  tls_max_consecutive_failures :: nat
  tls_max_auto_continues :: nat
  tls_max_loop_nudges :: nat
  tls_ngram_cycle_length :: nat
  tls_error_break_threshold :: "nat option"

definition tool_loop_config_from :: "tool_loop_settings \<Rightarrow> tool_loop_config" where
  "tool_loop_config_from s =
     \<lparr>max_iterations = tls_max_iterations s,
      compact_on_overflow = tls_compact_on_overflow s,
      detect_loops = tls_detect_loops s,
      cfg_break_threshold = tls_break_threshold s,
      max_consecutive_failures = tls_max_consecutive_failures s,
      max_auto_continues = tls_max_auto_continues s,
      max_loop_nudges = tls_max_loop_nudges s,
      cfg_error_break_threshold = unwrap_or (tls_error_break_threshold s) 3\<rparr>"

section \<open>The detector\<close>

datatype loop_status = Ok | Break bytes

record loop_detector =
  recent :: "64 word list"
  recent_names :: "bytes list"
  consecutive :: nat
  last_hash :: "64 word option"
  break_threshold :: nat
  tool_counts :: "(bytes \<times> nat) list"
  consecutive_errors :: nat
  last_error_tool :: "bytes option"
  error_break_threshold :: nat

definition detector_new :: "tool_loop_config \<Rightarrow> loop_detector" where
  "detector_new config =
     \<lparr>recent = [], recent_names = [], consecutive = 0, last_hash = None,
      break_threshold = cfg_break_threshold config, tool_counts = [],
      consecutive_errors = 0, last_error_tool = None,
      error_break_threshold = cfg_error_break_threshold config\<rparr>"

definition hash_call :: "(bytes \<Rightarrow> bytes \<Rightarrow> 64 word) \<Rightarrow> (json \<Rightarrow> bytes) \<Rightarrow> bytes \<Rightarrow> json \<Rightarrow> 64 word" where
  "hash_call hasher ser name args = hasher name (ser args)"

definition check_limits ::
  "(bytes \<Rightarrow> bytes \<Rightarrow> 64 word) \<Rightarrow> (json \<Rightarrow> bytes) \<Rightarrow> loop_detector \<Rightarrow> bytes \<Rightarrow> json \<Rightarrow> loop_status" where
  "check_limits hasher ser self tool_name args =
     (if recent self \<noteq> [] \<and> last_hash self = Some (hash_call hasher ser tool_name args)
         \<and> break_threshold self \<le> consecutive self + 1
      then Break (''tool '' @ tick @ tool_name @ tick @ '' called '' @ show_nat (consecutive self + 1)
                  @ '' times consecutively'')
      else Ok)"

definition record_result :: "loop_detector \<Rightarrow> bytes \<Rightarrow> bool \<Rightarrow> loop_detector \<times> loop_status" where
  "record_result self tool_name success =
     (if success then (self\<lparr>consecutive_errors := 0, last_error_tool := None\<rparr>, Ok)
      else
        let self' =
              (if last_error_tool self = Some tool_name
               then self\<lparr>consecutive_errors := consecutive_errors self + 1\<rparr>
               else self\<lparr>consecutive_errors := 1, last_error_tool := Some tool_name\<rparr>)
        in if error_break_threshold self' \<le> consecutive_errors self'
           then (self', Break (''tool '' @ tick @ tool_name @ tick @ '' failed ''
                   @ show_nat (consecutive_errors self') @ '' times consecutively''))
           else (self', Ok))"

fun bump_count :: "bytes \<Rightarrow> (bytes \<times> nat) list \<Rightarrow> (bytes \<times> nat) list" where
  "bump_count n [] = [(n, 1)]"
| "bump_count n ((m, c) # cs) = (if m = n then (m, c + 1) # cs else (m, c) # bump_count n cs)"

definition record_call ::
  "(bytes \<Rightarrow> bytes \<Rightarrow> 64 word) \<Rightarrow> (json \<Rightarrow> bytes) \<Rightarrow> loop_detector \<Rightarrow> bytes \<Rightarrow> json \<Rightarrow> loop_detector" where
  "record_call hasher ser self tool_name args =
     (let hash = hash_call hasher ser tool_name args;
          self1 = self\<lparr>tool_counts := bump_count tool_name (tool_counts self)\<rparr>;
          self2 = (if last_hash self1 = Some hash
                   then self1\<lparr>consecutive := consecutive self1 + 1\<rparr>
                   else self1\<lparr>consecutive := 1, last_hash := Some hash\<rparr>);
          self3 = (if 64 \<le> length (recent self2)
                   then self2\<lparr>recent := tl (recent self2), recent_names := tl (recent_names self2)\<rparr>
                   else self2)
      in self3\<lparr>recent := recent self3 @ [hash], recent_names := recent_names self3 @ [tool_name]\<rparr>)"

definition record_execution ::
  "(bytes \<Rightarrow> bytes \<Rightarrow> 64 word) \<Rightarrow> (json \<Rightarrow> bytes) \<Rightarrow> loop_detector \<Rightarrow> bytes \<Rightarrow> json \<Rightarrow> bool
     \<Rightarrow> loop_detector \<times> loop_status" where
  "record_execution hasher ser self tool_name args success =
     record_result (record_call hasher ser self tool_name args) tool_name success"

definition record_result_from_wal :: "loop_detector \<Rightarrow> bytes \<Rightarrow> bool \<Rightarrow> loop_detector" where
  "record_result_from_wal self tool_name success = fst (record_result self tool_name success)"

text \<open>The \<open>for e in events\<close> loop over the write-ahead-log entries (tool name, success).\<close>

definition warm_up_from_wal :: "tool_loop_config \<Rightarrow> (bytes \<times> bool) list \<Rightarrow> loop_detector" where
  "warm_up_from_wal config events =
     foldl (\<lambda>d (name, success). record_result_from_wal d name success) (detector_new config) events"

definition iteration_count :: "loop_detector \<Rightarrow> nat" where
  "iteration_count self = sum_list (map snd (tool_counts self))"

definition detector_reset :: "loop_detector \<Rightarrow> loop_detector" where
  "detector_reset self =
     self\<lparr>recent := [], recent_names := [], consecutive := 0, last_hash := None,
          consecutive_errors := 0, last_error_tool := None\<rparr>"

definition is_context_overflow :: "(bytes \<Rightarrow> bytes) \<Rightarrow> bytes \<Rightarrow> bool" where
  "is_context_overflow lower error =
     (let msg = lower error
      in contains msg ''context length'' \<or> contains msg ''token limit''
         \<or> contains msg ''too many token'' \<or> contains msg ''input too long''
         \<or> (contains msg ''400'' \<and> (contains msg ''too long'' \<or> contains msg ''too large'')))"

section \<open>One executed call as a step\<close>

type_synonym exec_event = "bytes \<times> json \<times> bool"

definition exec_step ::
  "(bytes \<Rightarrow> bytes \<Rightarrow> 64 word) \<Rightarrow> (json \<Rightarrow> bytes) \<Rightarrow> loop_detector \<Rightarrow> exec_event \<Rightarrow> loop_detector" where
  "exec_step hasher ser d e = (case e of (name, args, success) \<Rightarrow>
     fst (record_execution hasher ser d name args success))"

definition exec_hash :: "(bytes \<Rightarrow> bytes \<Rightarrow> 64 word) \<Rightarrow> (json \<Rightarrow> bytes) \<Rightarrow> exec_event \<Rightarrow> 64 word option" where
  "exec_hash hasher ser e = (case e of (name, args, _) \<Rightarrow> Some (hash_call hasher ser name args))"

definition exec_failure :: "exec_event \<Rightarrow> bytes option" where
  "exec_failure e = (case e of (name, _, success) \<Rightarrow> if success then None else Some name)"

definition wal_step :: "loop_detector \<Rightarrow> bytes \<times> bool \<Rightarrow> loop_detector" where
  "wal_step d e = (case e of (name, success) \<Rightarrow> record_result_from_wal d name success)"

definition wal_failure :: "bytes \<times> bool \<Rightarrow> bytes option" where
  "wal_failure e = (case e of (name, success) \<Rightarrow> if success then None else Some name)"

lemma record_result_fields [simp]:
  "recent (fst (record_result d n ok)) = recent d"
  "recent_names (fst (record_result d n ok)) = recent_names d"
  "consecutive (fst (record_result d n ok)) = consecutive d"
  "last_hash (fst (record_result d n ok)) = last_hash d"
  "break_threshold (fst (record_result d n ok)) = break_threshold d"
  "tool_counts (fst (record_result d n ok)) = tool_counts d"
  "error_break_threshold (fst (record_result d n ok)) = error_break_threshold d"
  "last_error_tool (fst (record_result d n ok)) = (if ok then None else Some n)"
  "consecutive_errors (fst (record_result d n ok)) =
     (if ok then 0 else if last_error_tool d = Some n then consecutive_errors d + 1 else 1)"
  by (simp_all add: record_result_def Let_def)

lemma record_call_fields [simp]:
  "consecutive_errors (record_call hasher ser d n a) = consecutive_errors d"
  "last_error_tool (record_call hasher ser d n a) = last_error_tool d"
  "break_threshold (record_call hasher ser d n a) = break_threshold d"
  "error_break_threshold (record_call hasher ser d n a) = error_break_threshold d"
  "last_hash (record_call hasher ser d n a) = Some (hash_call hasher ser n a)"
  "consecutive (record_call hasher ser d n a) =
     (if last_hash d = Some (hash_call hasher ser n a) then consecutive d + 1 else 1)"
  "tool_counts (record_call hasher ser d n a) = bump_count n (tool_counts d)"
  "recent (record_call hasher ser d n a) =
     (if 64 \<le> length (recent d) then tl (recent d) else recent d) @ [hash_call hasher ser n a]"
  "recent_names (record_call hasher ser d n a) =
     (if 64 \<le> length (recent d) then tl (recent_names d) else recent_names d) @ [n]"
  by (simp_all add: record_call_def Let_def)

lemma exec_step_pair [simp]:
  "exec_step hasher ser d (n, a, ok) = fst (record_result (record_call hasher ser d n a) n ok)"
  by (simp add: exec_step_def record_execution_def)

lemma exec_keys [simp]:
  "exec_hash hasher ser (n, a, ok) = Some (hash_call hasher ser n a)"
  "exec_failure (n, a, ok) = (if ok then None else Some n)"
  "wal_failure (n, ok) = (if ok then None else Some n)"
  "wal_step d (n, ok) = fst (record_result d n ok)"
  by (simp_all add: exec_hash_def exec_failure_def wal_failure_def wal_step_def
      record_result_from_wal_def)

text \<open>Both streaks of the detector are run-length counters.\<close>

interpretation hash_streak: run_length "exec_step hasher ser" consecutive last_hash "exec_hash hasher ser"
  for hasher ser
  by unfold_locales (auto split: if_splits)

interpretation error_streak: run_length "exec_step hasher ser" consecutive_errors last_error_tool exec_failure
  for hasher ser
  by unfold_locales (auto split: if_splits)

interpretation wal_streak: run_length wal_step consecutive_errors last_error_tool wal_failure
  by unfold_locales (auto split: if_splits)

definition detector_wf :: "loop_detector \<Rightarrow> bool" where
  "detector_wf d \<longleftrightarrow>
     length (recent d) = length (recent_names d) \<and> length (recent d) \<le> 64
     \<and> (last_hash d = None \<longleftrightarrow> recent d = []) \<and> (recent d \<noteq> [] \<longrightarrow> last_hash d = Some (last (recent d)))
     \<and> distinct (map fst (tool_counts d))"

lemma bump_count_keys: "fst ` set (bump_count n cs) = insert n (fst ` set cs)"
  by (induction n cs rule: bump_count.induct) auto

lemma bump_count_distinct: "distinct (map fst cs) \<Longrightarrow> distinct (map fst (bump_count n cs))"
proof (induction n cs rule: bump_count.induct)
  case (2 n m c cs)
  then show ?case using bump_count_keys [of n cs] by auto
qed simp

lemma bump_count_sum: "sum_list (map snd (bump_count n cs)) = sum_list (map snd cs) + 1"
  by (induction n cs rule: bump_count.induct) auto

lemma detector_new_wf: "detector_wf (detector_new config)"
  by (simp add: detector_wf_def detector_new_def)

lemma detector_reset_wf: "detector_wf d \<Longrightarrow> detector_wf (detector_reset d)"
  by (simp add: detector_wf_def detector_reset_def)

interpretation detector_inv: step_invariant "exec_step hasher ser" detector_wf
  for hasher ser
proof unfold_locales
  fix d :: loop_detector and e :: exec_event
  assume wf: "detector_wf d"
  then show "detector_wf (exec_step hasher ser d e)"
    by (cases "64 \<le> length (recent d)")
       (cases e; force simp: detector_wf_def bump_count_distinct)+
qed

section \<open>Properties\<close>

lemma run_thresholds [simp]:
  "break_threshold (foldl (exec_step hasher ser) d es) = break_threshold d"
  "error_break_threshold (foldl (exec_step hasher ser) d es) = error_break_threshold d"
  by (induction es arbitrary: d) auto

lemma run_recent_empty:
  "recent (foldl (exec_step hasher ser) (detector_new config) es) = [] \<longleftrightarrow> es = []"
  by (cases es rule: rev_cases) (auto simp: detector_new_def)

text \<open>C32: The detector refuses a call exactly when executing it would make it the
  \<open>break_threshold\<close>-th (or a later) consecutive call with the same hash: the history ends with at
  least \<open>break_threshold - 1\<close> calls that hash like the new one, and with at least one.\<close>

theorem check_limits_breaks_iff:
  "check_limits hasher ser (foldl (exec_step hasher ser) (detector_new config) es) name args \<noteq> Ok
   \<longleftrightarrow> (let run = trailing_run (exec_hash hasher ser) (hash_call hasher ser name args) es
       in 0 < run \<and> cfg_break_threshold config \<le> run + 1)"
proof -
  let ?d = "foldl (exec_step hasher ser) (detector_new config) es"
  let ?h = "hash_call hasher ser name args"
  have init: "last_hash (detector_new config) = None" by (simp add: detector_new_def)
  have key: "last_hash ?d = (if es = [] then None else exec_hash hasher ser (last es))"
    by (rule hash_streak.run_key [OF init])
  have pos: "0 < trailing_run (exec_hash hasher ser) ?h es \<longleftrightarrow> last_hash ?d = Some ?h"
    using key trailing_run_last [of "exec_hash hasher ser" ?h es] by auto
  have cnt: "last_hash ?d = Some ?h \<Longrightarrow> consecutive ?d = trailing_run (exec_hash hasher ser) ?h es"
    by (rule hash_streak.run_count [OF init])
  have thr: "break_threshold ?d = cfg_break_threshold config" by (simp add: detector_new_def)
  have ne: "last_hash ?d = Some ?h \<Longrightarrow> recent ?d \<noteq> []"
    using key by (auto simp: run_recent_empty split: if_splits)
  show ?thesis
    using pos cnt thr ne unfolding check_limits_def Let_def by auto
qed

text \<open>\<open>record_execution\<close> reports a break exactly when the call just recorded is the
  \<open>error_break_threshold\<close>-th (or a later) consecutive failure of one tool.\<close>

theorem record_execution_breaks_iff:
  "snd (record_execution hasher ser (foldl (exec_step hasher ser) (detector_new config) es) name args success) \<noteq> Ok
   \<longleftrightarrow> \<not> success \<and> cfg_error_break_threshold config \<le> trailing_run exec_failure name es + 1"
proof -
  let ?d = "foldl (exec_step hasher ser) (detector_new config) es"
  have init: "last_error_tool (detector_new config) = None" by (simp add: detector_new_def)
  have key: "last_error_tool ?d = (if es = [] then None else exec_failure (last es))"
    by (rule error_streak.run_key [OF init])
  have cnt: "last_error_tool ?d = Some name \<Longrightarrow>
      consecutive_errors ?d = trailing_run exec_failure name es"
    by (rule error_streak.run_count [OF init])
  have zero: "last_error_tool ?d \<noteq> Some name \<Longrightarrow> trailing_run exec_failure name es = 0"
    using key trailing_run_last [of exec_failure name es] by auto
  have thr: "error_break_threshold ?d = cfg_error_break_threshold config"
    by (simp add: detector_new_def)
  show ?thesis
    using cnt zero thr by (auto simp: record_execution_def record_result_def Let_def)
qed

lemma wal_run: "warm_up_from_wal config events = foldl wal_step (detector_new config) events"
  unfolding warm_up_from_wal_def by (rule foldl_cong) (auto simp: wal_step_def)

text \<open>Replaying the write-ahead log after a crash restores the error streak: the warmed-up
  detector has the streak length and the failing tool of the detector that executed the calls.\<close>

theorem warm_up_restores_error_streak:
  "consecutive_errors (warm_up_from_wal config (map (\<lambda>(n, a, ok). (n, ok)) es))
     = consecutive_errors (foldl (exec_step hasher ser) (detector_new config) es)
   \<and> last_error_tool (warm_up_from_wal config (map (\<lambda>(n, a, ok). (n, ok)) es))
     = last_error_tool (foldl (exec_step hasher ser) (detector_new config) es)"
  unfolding wal_run
proof (induction es rule: rev_induct)
  case (snoc e es)
  obtain n a ok where "e = (n, a, ok)" by (cases e)
  with snoc show ?case by simp
qed simp

text \<open>The window of recent calls is well formed in every state an execution reaches: it holds
  at most 64 hashes, one per remembered tool name, and ends with the last hash.\<close>

theorem detector_reachable_wf: "detector_wf (foldl (exec_step hasher ser) (detector_new config) es)"
  by (rule detector_inv.run_inv [OF detector_new_wf])

text \<open>The iteration count is the number of executed calls; a reset clears both streaks, so
  that no call is refused right after it, and keeps the iteration count.\<close>

theorem iteration_count_and_reset:
  "iteration_count (foldl (exec_step hasher ser) (detector_new config) es) = length es
   \<and> iteration_count (detector_reset d) = iteration_count d
   \<and> check_limits hasher ser (detector_reset d) name args = Ok"
proof -
  have "iteration_count (foldl (exec_step hasher ser) (detector_new config) es) = length es"
    by (induction es rule: rev_induct)
       (auto simp: iteration_count_def bump_count_sum, simp add: detector_new_def)
  then show ?thesis by (simp add: iteration_count_def detector_reset_def check_limits_def)
qed

end
