(* ===== verification/Mention_Parser.thy ===== *)
theory Mention_Parser
  imports Hyde_Prelude
begin

text \<open>
  \<open>agent/mention_parser.rs\<close>: \<open>@AgentName\<close> routing in shared sessions. The source searches in
  the lower-cased text but inspects and slices the original text with the same byte indices.
  An index out of range or off a character boundary panics; the operations return \<open>None\<close> then.
  Unicode lower-casing is the argument \<open>lower\<close>.
\<close>

section \<open>Operations\<close>

definition mention_valid_start :: "bytes \<Rightarrow> nat \<Rightarrow> bool option" where
  "mention_valid_start s abs_pos =
     (if abs_pos = 0 then Some True
      else if length s \<le> abs_pos - 1 then None
      else let prev_char = s ! (abs_pos - 1)
           in Some (is_ascii_whitespace prev_char
                \<or> prev_char \<in> set (''([{,;:'' @ [CHR 0x22, CHR 0x27, newline])))"

definition mention_valid_end :: "bytes \<Rightarrow> nat \<Rightarrow> bool" where
  "mention_valid_end s end_pos =
     (if length s \<le> end_pos then True
      else \<not> is_ascii_alphanumeric (s ! end_pos) \<and> s ! end_pos \<noteq> CHR ''_'')"

text \<open>The \<open>while let Some(pos)\<close> loop for one agent. The pattern starts with \<open>@\<close>, so it is not empty.\<close>

function mention_loop :: "bytes \<Rightarrow> bytes \<Rightarrow> bytes \<Rightarrow> bytes \<Rightarrow> nat \<Rightarrow> bytes list \<Rightarrow> bytes list option" where
  "mention_loop s lower_text lower_pattern agent search_from found =
     (case str_find (drop search_from lower_text) (CHR ''@'' # lower_pattern) of
        None \<Rightarrow> Some found
      | Some pos \<Rightarrow>
          let abs_pos = search_from + pos;
              end_pos = abs_pos + length (CHR ''@'' # lower_pattern)
          in case mention_valid_start s abs_pos of
               None \<Rightarrow> None
             | Some valid_start \<Rightarrow>
                 mention_loop s lower_text lower_pattern agent (abs_pos + 1)
                   (if valid_start \<and> mention_valid_end s end_pos \<and> agent \<notin> set found
                    then found @ [agent] else found))"
  by pat_completeness auto
termination
  by (relation "measure (\<lambda>(s, l, p, a, from, f). length l - from)") (auto dest!: str_find_Some)

declare mention_loop.simps [simp del]

fun parse_mentions_acc :: "(bytes \<Rightarrow> bytes) \<Rightarrow> bytes \<Rightarrow> bytes list \<Rightarrow> bytes list \<Rightarrow> bytes list option" where
  "parse_mentions_acc lower s [] found = Some found"
| "parse_mentions_acc lower s (agent # agents) found =
     (case mention_loop s (lower s) (lower agent) agent 0 found of
        None \<Rightarrow> None | Some found' \<Rightarrow> parse_mentions_acc lower s agents found')"

definition parse_mentions :: "(bytes \<Rightarrow> bytes) \<Rightarrow> bytes \<Rightarrow> bytes list \<Rightarrow> bytes list option" where
  "parse_mentions lower s known_agents = parse_mentions_acc lower s known_agents []"

definition parse_first_mention :: "(bytes \<Rightarrow> bytes) \<Rightarrow> bytes \<Rightarrow> bytes list \<Rightarrow> bytes option option" where
  "parse_first_mention lower s known_agents =
     map_option (\<lambda>ms. case ms of [] \<Rightarrow> None | m # _ \<Rightarrow> Some m) (parse_mentions lower s known_agents)"

definition strip_mention :: "(bytes \<Rightarrow> bytes) \<Rightarrow> bytes \<Rightarrow> bytes \<Rightarrow> bytes option" where
  "strip_mention lower s agent_name =
     (let pattern = CHR ''@'' # agent_name
      in case str_find (lower s) (lower pattern) of
           Some pos \<Rightarrow>
             (let end_pos = pos + length pattern
              in if length s < end_pos \<or> \<not> is_char_boundary s end_pos \<or> \<not> is_char_boundary s pos then None
                 else Some (trim (take pos s @ trim_start_matches '',:; '' (drop end_pos s))))
         | None \<Rightarrow> Some s)"

section \<open>Specification\<close>

text \<open>An occurrence of the mention at byte \<open>i\<close> with word boundaries on both sides.\<close>

definition mentioned_at :: "(bytes \<Rightarrow> bytes) \<Rightarrow> bytes \<Rightarrow> bytes \<Rightarrow> nat \<Rightarrow> bool" where
  "mentioned_at lower s agent i \<longleftrightarrow>
     starts_with (drop i (lower s)) (CHR ''@'' # lower agent)
     \<and> mention_valid_start s i = Some True
     \<and> mention_valid_end s (i + 1 + length (lower agent))"

definition mentioned :: "(bytes \<Rightarrow> bytes) \<Rightarrow> bytes \<Rightarrow> bytes \<Rightarrow> bool" where
  "mentioned lower s agent \<longleftrightarrow> (\<exists>i. mentioned_at lower s agent i)"

lemma str_find_first:
  "starts_with (drop i l) p \<Longrightarrow> p \<noteq> [] \<Longrightarrow> k \<le> i \<Longrightarrow>
   \<exists>j. str_find (drop k l) p = Some j \<and> k + j \<le> i"
proof -
  assume p: "starts_with (drop i l) p" "p \<noteq> []" "k \<le> i"
  then have at: "take (length p) (drop (i - k) (drop k l)) = p" by (simp add: starts_with_def)
  obtain j where j: "str_find (drop k l) p = Some j"
    using str_find_None [of "drop k l" p "i - k"] at by (cases "str_find (drop k l) p") auto
  have "\<not> i - k < j" using str_find_least [OF j, of "i - k"] at by blast
  with p j show ?thesis by auto
qed

lemma mention_valid_start_total: "i \<le> length s \<Longrightarrow> mention_valid_start s i \<noteq> None"
  by (auto simp: mention_valid_start_def Let_def)

lemma mention_loop_spec:
  assumes "length l = length s"
  shows "mention_loop s l p agent k found =
    Some (if agent \<notin> set found \<and>
            (\<exists>i\<ge>k. starts_with (drop i l) (CHR ''@'' # p) \<and> mention_valid_start s i = Some True
               \<and> mention_valid_end s (i + 1 + length p))
          then found @ [agent] else found)"
  using assms
proof (induction s l p agent k found rule: mention_loop.induct)
  case (1 s l p agent k found)
  let ?pat = "CHR ''@'' # p"
  let ?good = "\<lambda>i. starts_with (drop i l) ?pat \<and> mention_valid_start s i = Some True
               \<and> mention_valid_end s (i + 1 + length p)"
  show ?case
  proof (cases "str_find (drop k l) ?pat")
    case None
    have "\<not> (\<exists>i\<ge>k. ?good i)" using None str_find_first [of _ l ?pat k] by fastforce
    with None show ?thesis by (subst mention_loop.simps) simp
  next
    case (Some pos)
    let ?i = "k + pos"
    from str_find_Some [OF Some] have at: "starts_with (drop ?i l) ?pat" "?i < length l"
      by (auto simp: starts_with_def add.commute)
    obtain v where v: "mention_valid_start s ?i = Some v"
      using mention_valid_start_total [of ?i s] at(2) "1.prems" by auto
    have first: "starts_with (drop i l) ?pat \<Longrightarrow> k \<le> i \<Longrightarrow> ?i \<le> i" for i
      using str_find_first [of i l ?pat k] Some by auto
    have split: "(\<exists>i\<ge>k. ?good i) \<longleftrightarrow> ?good ?i \<or> (\<exists>i\<ge>?i + 1. ?good i)"
    proof
      assume "\<exists>i\<ge>k. ?good i"
      then obtain i where i: "k \<le> i" "?good i" by blast
      with first [of i] show "?good ?i \<or> (\<exists>i\<ge>?i + 1. ?good i)"
        by (cases "i = ?i") (auto simp: Suc_le_eq)
    next
      assume "?good ?i \<or> (\<exists>i\<ge>?i + 1. ?good i)"
      then show "\<exists>i\<ge>k. ?good i" by (meson add_leD1 le_add1 le_trans)
    qed
    have good: "?good ?i \<longleftrightarrow> v \<and> mention_valid_end s (?i + length ?pat)" using at v by simp
    note IH = "1.IH" [OF Some refl refl v "1.prems"]
    show ?thesis
      using Some v IH good split
      by (subst mention_loop.simps) (auto simp: Let_def)
  qed
qed

lemma parse_mentions_acc_spec:
  assumes "length (lower s) = length s"
  shows "parse_mentions_acc lower s agents found =
     Some (fold (\<lambda>a f. if a \<notin> set f \<and> mentioned lower s a then f @ [a] else f) agents found)"
proof (induction agents arbitrary: found)
  case (Cons a agents)
  have "mention_loop s (lower s) (lower a) a 0 found
      = Some (if a \<notin> set found \<and> mentioned lower s a then found @ [a] else found)"
    by (simp add: mention_loop_spec [OF assms] mentioned_def mentioned_at_def)
  with Cons show ?case by simp
qed simp

lemma fold_add_set:
  "set (fold (\<lambda>a f. if a \<notin> set f \<and> P a then f @ [a] else f) xs f0) = set f0 \<union> {a \<in> set xs. P a}"
  by (induction xs arbitrary: f0) auto

lemma fold_add_distinct:
  "distinct f0 \<Longrightarrow> distinct (fold (\<lambda>a f. if a \<notin> set f \<and> P a then f @ [a] else f) xs f0)"
  by (induction xs arbitrary: f0) auto

section \<open>Properties\<close>

text \<open>When lower-casing keeps the byte length of the text (as it does for ASCII text),
  \<open>parse_mentions\<close> does not panic and returns, without duplicates, exactly the known agents that
  occur as \<open>@name\<close>, in any case, with word boundaries on both sides.\<close>

theorem parse_mentions_correct:
  assumes "length (lower s) = length s"
  shows "\<exists>ms. parse_mentions lower s known_agents = Some ms \<and> distinct ms
    \<and> (\<forall>a. a \<in> set ms \<longleftrightarrow> a \<in> set known_agents \<and> mentioned lower s a)"
proof (intro exI conjI)
  let ?ms = "fold (\<lambda>a f. if a \<notin> set f \<and> mentioned lower s a then f @ [a] else f) known_agents []"
  show "parse_mentions lower s known_agents = Some ?ms"
    by (simp add: parse_mentions_def parse_mentions_acc_spec assms)
  show "distinct ?ms" by (rule fold_add_distinct) simp
  show "\<forall>a. a \<in> set ?ms \<longleftrightarrow> a \<in> set known_agents \<and> mentioned lower s a"
    by (simp add: fold_add_set)
qed

theorem parse_mentions_correct_witness:
  "\<exists>ms. parse_mentions ascii_lower ''hi @Bob'' [''Bob'', ''Eve''] = Some ms \<and> distinct ms
    \<and> (\<forall>a. a \<in> set ms \<longleftrightarrow> a \<in> set [''Bob'', ''Eve''] \<and> mentioned ascii_lower ''hi @Bob'' a)"
  by (rule parse_mentions_correct) simp

text \<open>\<open>parse_first_mention\<close> follows the order of the agent list, not the order of appearance
  in the text: here \<open>@Bob\<close> is mentioned first but \<open>Alice\<close>, listed first, is returned.\<close>

theorem parse_first_mention_uses_agent_order:
  "parse_first_mention ascii_lower ''@Bob ask @Alice'' [''Alice'', ''Bob''] = Some (Some ''Alice'')"
  by code_simp

text \<open>Lower-casing that lengthens the text breaks the shared byte indices. The Latin capital
  letter I with dot above (bytes C4 B0) is lower-cased to three bytes (69 CC 87); after three of
  them a mention lies beyond the end of the original text and the parser panics.\<close>

theorem parse_mentions_panics_on_longer_lowercase:
  assumes "lower (concat (replicate 3 [CHR 0xC4, CHR 0xB0]) @ ''@a'')
      = concat (replicate 3 [CHR 0x69, CHR 0xCC, CHR 0x87]) @ ''@a''"
    and "lower ''a'' = ''a''"
  shows "parse_mentions lower (concat (replicate 3 [CHR 0xC4, CHR 0xB0]) @ ''@a'') [''a''] = None"
proof -
  let ?s = "concat (replicate 3 [CHR 0xC4, CHR 0xB0]) @ ''@a''"
  let ?l = "concat (replicate 3 [CHR 0x69, CHR 0xCC, CHR 0x87]) @ ''@a''"
  have "str_find ?l ''@a'' = Some 9" by (simp add: str_find_def numeral_eq_Suc)
  moreover have "mention_valid_start ?s 9 = None"
    by (simp add: mention_valid_start_def numeral_eq_Suc)
  ultimately have "mention_loop ?s ?l ''a'' ''a'' 0 [] = None"
    by (subst mention_loop.simps) (simp only: drop_0 option.case Let_def add_0)
  with assms show ?thesis by (simp only: parse_mentions_def parse_mentions_acc.simps option.case)
qed

theorem parse_mentions_panics_on_longer_lowercase_witness:
  "\<exists>lower. parse_mentions lower (concat (replicate 3 [CHR 0xC4, CHR 0xB0]) @ ''@a'') [''a''] = None"
proof -
  let ?lower = "\<lambda>s. concat (map (\<lambda>c. if c = CHR 0xC4 then [CHR 0x69, CHR 0xCC]
                    else if c = CHR 0xB0 then [CHR 0x87] else [c]) s)"
  have "parse_mentions ?lower (concat (replicate 3 [CHR 0xC4, CHR 0xB0]) @ ''@a'') [''a''] = None"
    by (rule parse_mentions_panics_on_longer_lowercase) (simp_all add: numeral_eq_Suc)
  then show ?thesis by blast
qed

end
