(* ===== verification/Agent_Pool.thy ===== *)
theory Agent_Pool
  imports Hyde_Types
begin

text \<open>
  \<open>agent/session_agent_pool.rs\<close>: pools of live agents bound to a session, eviction of stale
  pools, and the processing loop of one live agent.

  A \<open>HashMap\<close> of agents is an association list with distinct keys. Removing an agent by
  \<open>insert\<close> over it, \<open>kill_all\<close> or eviction runs its \<open>Drop\<close> implementation; those operations
  return the dropped agents. The processing loop runs concurrently with the clients that send
  messages and cancel: it is a step relation with one rule per atomic step.
\<close>

section \<open>Live agents\<close>

definition STATUS_IDLE :: nat where "STATUS_IDLE = 0"
definition STATUS_PROCESSING :: nat where "STATUS_PROCESSING = 1"
definition CHANNEL_CAPACITY :: nat where "CHANNEL_CAPACITY = 32"
definition POOL_IDLE_TIMEOUT_SECS :: nat where "POOL_IDLE_TIMEOUT_SECS = 600"

text \<open>Where the task of the agent is: waiting in \<open>rx.recv()\<close>, running a message, or finished.\<close>

datatype loop_phase = Receiving | Running bytes | Exited

record live_agent =
  la_name :: bytes
  la_inbox :: "bytes list"
  la_sender_open :: bool
  la_status :: nat
  la_last_result :: "bytes option"
  la_cancel :: bool
  la_created_at :: instant
  la_iteration_count :: nat
  la_phase :: loop_phase
  la_notified :: bool

definition is_processing :: "live_agent \<Rightarrow> bool" where
  "is_processing a \<longleftrightarrow> la_status a = STATUS_PROCESSING"

definition is_idle :: "live_agent \<Rightarrow> bool" where
  "is_idle a \<longleftrightarrow> la_status a = STATUS_IDLE"

definition elapsed :: "instant \<Rightarrow> live_agent \<Rightarrow> duration" where
  "elapsed now a = duration_since now (la_created_at a)"

definition task_finished :: "live_agent \<Rightarrow> bool" where
  "task_finished a \<longleftrightarrow> la_phase a = Exited"

text \<open>\<open>Drop for LiveAgent\<close>: set the cancel flag, abort the task; the sender goes with the value.\<close>

definition drop_agent :: "live_agent \<Rightarrow> live_agent" where
  "drop_agent a = a\<lparr>la_cancel := True, la_phase := Exited, la_sender_open := False\<rparr>"

definition spawn_live_agent :: "bytes \<Rightarrow> bytes \<Rightarrow> instant \<Rightarrow> live_agent option" where
  "spawn_live_agent name initial_task now =
     (let inbox = ([] :: bytes list)
      in if length inbox < CHANNEL_CAPACITY
         then Some \<lparr>la_name = name, la_inbox = inbox @ [initial_task], la_sender_open = True,
                    la_status = STATUS_PROCESSING, la_last_result = None, la_cancel = False,
                    la_created_at = now, la_iteration_count = 0, la_phase = Receiving,
                    la_notified = False\<rparr>
         else None)"

section \<open>The processing loop\<close>

definition result_text :: "(bytes, bytes) result \<Rightarrow> bytes" where
  "result_text r = (case r of Inr t \<Rightarrow> t | Inl e \<Rightarrow> ''Error: '' @ e)"

text \<open>The end of one iteration: count it, publish the result, become idle, notify the waiters.\<close>

definition finish_message :: "live_agent \<Rightarrow> (bytes, bytes) result \<Rightarrow> live_agent" where
  "finish_message a r =
     a\<lparr>la_iteration_count := la_iteration_count a + 1,
       la_last_result := Some (result_text r),
       la_status := STATUS_IDLE, la_notified := True,
       la_phase := (if la_cancel a then Exited else Receiving)\<rparr>"

text \<open>Rules \<open>recv\<close> to \<open>finish\<close> are the loop; \<open>send\<close>, \<open>cancel\<close> and \<open>dropped\<close> are other tasks.\<close>

inductive agent_step :: "live_agent \<Rightarrow> live_agent \<Rightarrow> bool" where
  recv: "la_phase a = Receiving \<Longrightarrow> la_inbox a = m # ms \<Longrightarrow> \<not> la_cancel a \<Longrightarrow>
     agent_step a (a\<lparr>la_inbox := ms, la_status := STATUS_PROCESSING, la_phase := Running m\<rparr>)"
| recv_cancelled: "la_phase a = Receiving \<Longrightarrow> la_inbox a = m # ms \<Longrightarrow> la_cancel a \<Longrightarrow>
     agent_step a (a\<lparr>la_inbox := ms, la_phase := Exited\<rparr>)"
| recv_closed: "la_phase a = Receiving \<Longrightarrow> la_inbox a = [] \<Longrightarrow> \<not> la_sender_open a \<Longrightarrow>
     agent_step a (a\<lparr>la_phase := Exited\<rparr>)"
| finish: "la_phase a = Running m \<Longrightarrow> agent_step a (finish_message a r)"
| send: "la_sender_open a \<Longrightarrow> length (la_inbox a) < CHANNEL_CAPACITY \<Longrightarrow>
     agent_step a (a\<lparr>la_inbox := la_inbox a @ [m]\<rparr>)"
| cancel: "agent_step a (a\<lparr>la_cancel := True\<rparr>)"
| consumed_notification: "agent_step a (a\<lparr>la_notified := False\<rparr>)"
| dropped: "agent_step a (drop_agent a)"

inductive_cases agent_stepE: "agent_step a b"

inductive agent_reachable :: "live_agent \<Rightarrow> bool" where
  spawned: "spawn_live_agent name initial_task now = Some a \<Longrightarrow> agent_reachable a"
| stepped: "agent_reachable a \<Longrightarrow> agent_step a b \<Longrightarrow> agent_reachable b"

section \<open>Pools\<close>

record session_agent_pool =
  pool_agents :: "(bytes \<times> live_agent) list"
  pool_session_id :: bytes

definition pool_new :: "bytes \<Rightarrow> session_agent_pool" where
  "pool_new session_id = \<lparr>pool_agents = [], pool_session_id = session_id\<rparr>"

definition pool_get :: "session_agent_pool \<Rightarrow> bytes \<Rightarrow> live_agent option" where
  "pool_get p name = map_of (pool_agents p) name"

definition pool_contains :: "session_agent_pool \<Rightarrow> bytes \<Rightarrow> bool" where
  "pool_contains p name \<longleftrightarrow> pool_get p name \<noteq> None"

definition pool_insert :: "session_agent_pool \<Rightarrow> live_agent \<Rightarrow> session_agent_pool \<times> live_agent option" where
  "pool_insert p agent =
     (p\<lparr>pool_agents := al_insert (la_name agent) agent (pool_agents p)\<rparr>,
      map_option drop_agent (pool_get p (la_name agent)))"

definition pool_remove :: "session_agent_pool \<Rightarrow> bytes \<Rightarrow> session_agent_pool \<times> live_agent option" where
  "pool_remove p name = (p\<lparr>pool_agents := al_remove name (pool_agents p)\<rparr>, pool_get p name)"

definition pool_kill_all :: "session_agent_pool \<Rightarrow> session_agent_pool \<times> live_agent list" where
  "pool_kill_all p = (p\<lparr>pool_agents := []\<rparr>, map (drop_agent \<circ> snd) (pool_agents p))"

definition pool_len :: "session_agent_pool \<Rightarrow> nat" where
  "pool_len p = length (pool_agents p)"

definition pool_is_empty :: "session_agent_pool \<Rightarrow> bool" where
  "pool_is_empty p \<longleftrightarrow> pool_agents p = []"

record agent_pool_entry =
  pe_name :: bytes
  pe_status :: bytes
  pe_iterations :: nat
  pe_elapsed :: duration

definition pool_list :: "instant \<Rightarrow> session_agent_pool \<Rightarrow> agent_pool_entry list" where
  "pool_list now p =
     map (\<lambda>(_, a). \<lparr>pe_name = la_name a,
                    pe_status = (if is_processing a then ''processing'' else ''idle''),
                    pe_iterations = la_iteration_count a,
                    pe_elapsed = elapsed now a\<rparr>) (pool_agents p)"

definition pool_is_all_finished :: "session_agent_pool \<Rightarrow> bool" where
  "pool_is_all_finished p \<longleftrightarrow> list_all (\<lambda>(_, a). task_finished a) (pool_agents p)"

definition pool_all_idle_longer_than :: "instant \<Rightarrow> session_agent_pool \<Rightarrow> duration \<Rightarrow> bool" where
  "pool_all_idle_longer_than now p d \<longleftrightarrow>
     \<not> pool_is_empty p \<and> list_all (\<lambda>(_, a). is_idle a \<and> d < elapsed now a) (pool_agents p)"

section \<open>Eviction of stale pools\<close>

type_synonym session_pools = "(bytes \<times> session_agent_pool) list"

definition pool_stale :: "instant \<Rightarrow> session_agent_pool \<Rightarrow> bool" where
  "pool_stale now p \<longleftrightarrow>
     pool_is_empty p \<or> pool_is_all_finished p
     \<or> pool_all_idle_longer_than now p (from_secs POOL_IDLE_TIMEOUT_SECS)"

text \<open>The first phase runs under the read lock, the second under the write lock. Other tasks may
  change the map between the two, so the phases are separate operations.\<close>

definition cleanup_scan :: "instant \<Rightarrow> session_pools \<Rightarrow> bytes list" where
  "cleanup_scan now pools = map fst (filter (\<lambda>(_, p). pool_stale now p) pools)"

fun cleanup_remove :: "instant \<Rightarrow> bytes list \<Rightarrow> session_pools \<Rightarrow> nat \<Rightarrow> session_pools \<times> nat" where
  "cleanup_remove now [] pools removed = (pools, removed)"
| "cleanup_remove now (sid # ids) pools removed =
     (case map_of pools sid of
        Some p \<Rightarrow>
          if pool_stale now p then cleanup_remove now ids (al_remove sid pools) (removed + 1)
          else cleanup_remove now ids pools removed
      | None \<Rightarrow> cleanup_remove now ids pools removed)"

text \<open>\<open>interfere\<close> is what other tasks do between the two phases.\<close>

definition cleanup_stale_pools ::
  "instant \<Rightarrow> instant \<Rightarrow> (session_pools \<Rightarrow> session_pools) \<Rightarrow> session_pools \<Rightarrow> session_pools \<times> nat" where
  "cleanup_stale_pools now1 now2 interfere pools =
     (let stale_ids = cleanup_scan now1 pools
      in if stale_ids = [] then (interfere pools, 0)
         else cleanup_remove now2 stale_ids (interfere pools) 0)"

section \<open>Pool laws\<close>

text \<open>The map interface the rest of the engine uses.\<close>

locale agent_store =
  fixes empty_store :: "'p"
    and get :: "'p \<Rightarrow> bytes \<Rightarrow> live_agent option"
    and put :: "'p \<Rightarrow> live_agent \<Rightarrow> 'p"
    and del :: "'p \<Rightarrow> bytes \<Rightarrow> 'p"
    and size_of :: "'p \<Rightarrow> nat"
    and wf :: "'p \<Rightarrow> bool"
  assumes wf_empty: "wf empty_store"
    and wf_put: "wf p \<Longrightarrow> wf (put p a)"
    and wf_del: "wf p \<Longrightarrow> wf (del p n)"
    and get_empty: "get empty_store n = None"
    and get_put: "get (put p a) n = (if n = la_name a then Some a else get p n)"
    and get_del: "wf p \<Longrightarrow> get (del p m) n = (if n = m then None else get p n)"
    and size_card: "wf p \<Longrightarrow> size_of p = card (dom (get p))"
    and finite_names: "finite (dom (get p))"
begin

lemma put_same_size:
  assumes "wf p" and "get p (la_name a) \<noteq> None"
  shows "size_of (put p a) = size_of p"
proof -
  have "dom (get (put p a)) = dom (get p)" using assms(2) by (auto simp: get_put split: if_splits)
  then show ?thesis using assms(1) by (simp add: size_card wf_put)
qed

lemma put_new_size:
  assumes "wf p" and "get p (la_name a) = None"
  shows "size_of (put p a) = Suc (size_of p)"
proof -
  have "dom (get (put p a)) = insert (la_name a) (dom (get p))"
    by (auto simp: get_put split: if_splits)
  moreover have "la_name a \<notin> dom (get p)" using assms(2) by auto
  ultimately show ?thesis using assms(1) by (simp add: size_card wf_put finite_names)
qed

lemma del_put_fresh:
  "wf p \<Longrightarrow> get p (la_name a) = None \<Longrightarrow> get (del (put p a) (la_name a)) n = get p n"
  by (simp add: get_del wf_put get_put)

end

definition pool_wf :: "session_agent_pool \<Rightarrow> bool" where
  "pool_wf p \<longleftrightarrow> distinct (map fst (pool_agents p)) \<and> (\<forall>(n, a) \<in> set (pool_agents p). la_name a = n)"

lemma pool_wf_insert: "pool_wf p \<Longrightarrow> pool_wf (fst (pool_insert p a))"
  by (auto simp: pool_wf_def pool_insert_def dest!: set_al_insert)

lemma pool_wf_remove: "pool_wf p \<Longrightarrow> pool_wf (fst (pool_remove p n))"
  by (auto simp: pool_wf_def pool_remove_def al_remove_def distinct_map_filter)

lemma dom_pool_get: "dom (pool_get p) = fst ` set (pool_agents p)"
  by (simp add: pool_get_def [abs_def] dom_map_of_conv_image_fst)

interpretation pool_store: agent_store "pool_new sid" pool_get
  "\<lambda>p a. fst (pool_insert p a)" "\<lambda>p n. fst (pool_remove p n)" pool_len pool_wf
  for sid
proof unfold_locales
  fix p :: session_agent_pool
  assume "pool_wf p"
  then have "distinct (map fst (pool_agents p))" by (simp add: pool_wf_def)
  then have "card (set (map fst (pool_agents p))) = length (map fst (pool_agents p))"
    by (rule distinct_card)
  then show "pool_len p = card (dom (pool_get p))" by (simp add: pool_len_def dom_pool_get)
next
  show "finite (dom (pool_get p))" for p by (simp add: dom_pool_get)
next
  show "pool_wf (pool_new sid)" by (simp add: pool_wf_def pool_new_def)
qed (auto simp: pool_wf_insert pool_wf_remove, auto simp: pool_get_def pool_insert_def pool_remove_def pool_new_def)

section \<open>The processing loop\<close>

definition agent_inv :: "live_agent \<Rightarrow> bool" where
  "agent_inv a \<longleftrightarrow>
     length (la_inbox a) \<le> CHANNEL_CAPACITY
     \<and> (la_status a = STATUS_IDLE \<or> la_status a = STATUS_PROCESSING)
     \<and> (\<forall>m. la_phase a = Running m \<longrightarrow> la_status a = STATUS_PROCESSING)
     \<and> (la_status a = STATUS_IDLE \<longrightarrow> la_last_result a \<noteq> None)
     \<and> (la_last_result a = None \<longleftrightarrow> la_iteration_count a = 0)"

lemmas agent_consts = STATUS_IDLE_def STATUS_PROCESSING_def CHANNEL_CAPACITY_def

lemma agent_inv_spawn: "spawn_live_agent name t now = Some a \<Longrightarrow> agent_inv a"
  by (auto simp: spawn_live_agent_def agent_inv_def agent_consts)

lemma agent_inv_step [inv_intros]: "agent_step a b \<Longrightarrow> agent_inv a \<Longrightarrow> agent_inv b"
  by (erule agent_step.cases) (auto simp: agent_inv_def drop_agent_def finish_message_def agent_consts)

text \<open>In every reachable state of a live agent, under any interleaving with senders,
  cancellation and drop: the mailbox never exceeds its capacity, the status is processing while
  a message runs, and an idle status means that a result is available; results exist exactly when
  at least one message was completed.\<close>

theorem agent_reachable_inv: "agent_reachable a \<Longrightarrow> agent_inv a"
  by (induction rule: agent_reachable.induct) (auto intro: agent_inv_spawn agent_inv_step)

theorem agent_reachable_inv_witness:
  "agent_inv \<lparr>la_name = ''a'', la_inbox = [], la_sender_open = True, la_status = STATUS_IDLE,
     la_last_result = Some ''done'', la_cancel = False, la_created_at = 5, la_iteration_count = 1,
     la_phase = Receiving, la_notified = True\<rparr>"
proof -
  let ?s0 = "\<lparr>la_name = ''a'', la_inbox = [''t''], la_sender_open = True, la_status = STATUS_PROCESSING,
     la_last_result = None, la_cancel = False, la_created_at = 5, la_iteration_count = 0,
     la_phase = Receiving, la_notified = False\<rparr>"
  let ?s1 = "?s0\<lparr>la_inbox := [], la_status := STATUS_PROCESSING, la_phase := Running ''t''\<rparr>"
  have "agent_reachable ?s0"
    by (rule agent_reachable.spawned [of "''a''" "''t''" 5])
       (simp add: spawn_live_agent_def agent_consts)
  then have "agent_reachable ?s1"
    by (rule agent_reachable.stepped) (rule agent_step.recv, simp_all)
  then have "agent_reachable (finish_message ?s1 (Inr ''done''))"
    by (rule agent_reachable.stepped) (rule agent_step.finish, simp)
  from agent_reachable_inv [OF this] show ?thesis by (simp add: finish_message_def result_text_def)
qed

text \<open>A finished task stays finished: only the flags and the mailbox of an exited agent change.\<close>

lemma exited_stays: "agent_step a b \<Longrightarrow> la_phase a = Exited \<Longrightarrow> la_phase b = Exited"
  by (erule agent_step.cases) (auto simp: drop_agent_def finish_message_def)

lemma cancel_stays: "agent_step a b \<Longrightarrow> la_cancel a \<Longrightarrow> la_cancel b"
  by (erule agent_step.cases) (auto simp: drop_agent_def finish_message_def)

text \<open>Cancellation is effective: once the cancel flag is set the agent completes at most the
  message it is running, and never starts another one.\<close>

theorem cancelled_never_starts:
  assumes "agent_step a b" and "la_cancel a" and "\<And>m. la_phase a \<noteq> Running m"
  shows "la_phase b \<noteq> Running m \<and> la_iteration_count b = la_iteration_count a"
  using assms by (auto simp: drop_agent_def finish_message_def elim!: agent_step.cases)

theorem cancelled_never_starts_witness:
  "la_phase (\<lparr>la_name = ''a'', la_inbox = [], la_sender_open = True, la_status = STATUS_IDLE,
     la_last_result = None, la_cancel = True, la_created_at = 0, la_iteration_count = 3,
     la_phase = Exited, la_notified = False\<rparr>) \<noteq> Running ''m''"
proof -
  let ?a = "\<lparr>la_name = ''a'', la_inbox = [''m''], la_sender_open = True, la_status = STATUS_IDLE,
     la_last_result = None, la_cancel = True, la_created_at = 0, la_iteration_count = 3,
     la_phase = Receiving, la_notified = False\<rparr>"
  have "agent_step ?a (?a\<lparr>la_inbox := [], la_phase := Exited\<rparr>)"
    by (rule agent_step.recv_cancelled) simp_all
  from cancelled_never_starts [OF this, of "''m''"] show ?thesis by simp
qed

section \<open>Eviction\<close>

lemma cleanup_remove_lookup:
  assumes "cleanup_remove now ids pools r = (pools', r')"
  shows "map_of pools' sid =
    (case map_of pools sid of
       None \<Rightarrow> None
     | Some p \<Rightarrow> if sid \<in> set ids \<and> pool_stale now p then None else Some p)"
  using assms
proof (induction now ids pools r rule: cleanup_remove.induct)
  case (2 now i ids pools r)
  then show ?case by (auto split: option.splits if_splits)
qed (auto split: option.splits)

lemma cleanup_remove_count:
  "distinct (map fst pools) \<Longrightarrow> distinct ids \<Longrightarrow> cleanup_remove now ids pools r = (pools', r') \<Longrightarrow>
   length pools' + r' = length pools + r"
proof (induction now ids pools r rule: cleanup_remove.induct)
  case (2 now i ids pools r)
  show ?case
  proof (cases "map_of pools i")
    case None
    with 2 show ?thesis by simp
  next
    case (Some p)
    then have "i \<in> fst ` set pools" by (metis map_of_eq_None_iff option.distinct(1))
    with 2(4) have "Suc (length (al_remove i pools)) = length pools" by (rule length_al_remove)
    with 2 Some show ?thesis
      by (cases "pool_stale now p") (simp_all del: map_of_eq_Some_iff)
  qed
qed simp

text \<open>Eviction is safe and complete under concurrency. Whatever other tasks do between the
  scan and the removal, a pool is removed only when it is stale at the moment of removal and was
  scanned as stale; every other pool is untouched.\<close>

theorem cleanup_removes_only_stale:
  assumes "cleanup_stale_pools now1 now2 interfere pools = (pools', removed)"
  shows "map_of pools' sid =
    (case map_of (interfere pools) sid of
       None \<Rightarrow> None
     | Some p \<Rightarrow> if sid \<in> set (cleanup_scan now1 pools) \<and> pool_stale now2 p then None else Some p)"
proof (cases "cleanup_scan now1 pools = []")
  case True
  with assms show ?thesis by (auto simp: cleanup_stale_pools_def split: option.splits)
next
  case False
  with assms have "cleanup_remove now2 (cleanup_scan now1 pools) (interfere pools) 0 = (pools', removed)"
    by (simp add: cleanup_stale_pools_def)
  then show ?thesis by (rule cleanup_remove_lookup)
qed

theorem cleanup_removes_only_stale_witness:
  "map_of (fst (cleanup_stale_pools 0 0 id [(''s'', pool_new ''s'')])) ''s'' = None"
proof -
  let ?r = "cleanup_stale_pools 0 0 id [(''s'', pool_new ''s'')]"
  have "?r = (fst ?r, snd ?r)" by simp
  from cleanup_removes_only_stale [OF this, of "''s''"] show ?thesis
    by (simp add: cleanup_scan_def pool_stale_def pool_is_empty_def pool_new_def)
qed

text \<open>The eviction age is measured from the creation of an agent, not from when it became
  idle: a pool whose only agent was created more than ten minutes ago is stale as soon as the
  agent is idle, even if it was busy a moment before.\<close>

theorem busy_pool_stale_when_just_idle:
  assumes "agent_inv a" and "la_phase a = Running m"
    and "from_secs POOL_IDLE_TIMEOUT_SECS < elapsed now a"
  shows "agent_step a (finish_message a r)
    \<and> \<not> pool_stale now \<lparr>pool_agents = [(la_name a, a)], pool_session_id = sid\<rparr>
    \<and> pool_stale now \<lparr>pool_agents = [(la_name a, finish_message a r)], pool_session_id = sid\<rparr>"
  using assms agent_step.finish [OF assms(2), of r]
  by (auto simp: pool_stale_def pool_is_empty_def pool_is_all_finished_def task_finished_def
      pool_all_idle_longer_than_def is_idle_def elapsed_def finish_message_def agent_consts agent_inv_def)

theorem busy_pool_stale_when_just_idle_witness:
  "\<exists>a. agent_step a (finish_message a (Inr ''ok''))
    \<and> pool_stale (from_secs 601) \<lparr>pool_agents = [(''a'', finish_message a (Inr ''ok''))], pool_session_id = ''s''\<rparr>"
proof -
  let ?a = "\<lparr>la_name = ''a'', la_inbox = [], la_sender_open = True, la_status = STATUS_PROCESSING,
     la_last_result = None, la_cancel = False, la_created_at = 0, la_iteration_count = 0,
     la_phase = Running ''m'', la_notified = False\<rparr>"
  have "agent_inv ?a" by (simp add: agent_inv_def agent_consts)
  moreover have "from_secs POOL_IDLE_TIMEOUT_SECS < elapsed (from_secs 601) ?a"
    by (simp add: elapsed_def duration_since_def from_secs_def nanos_per_sec_def POOL_IDLE_TIMEOUT_SECS_def)
  ultimately show ?thesis
    using busy_pool_stale_when_just_idle [of ?a "''m''" "from_secs 601" "Inr ''ok''" "''s''"]
    by (intro exI [of _ ?a]) simp
qed

end
