(* ===== verification/History.thy ===== *)
theory History
  imports Thinking Tool_Loop
begin

text \<open>
  \<open>agent/history.rs\<close> and the context helpers of \<open>agent/pipeline/context.rs\<close>: token estimation,
  compaction of the conversation history, the session progress header, truncation and compaction
  of tool results.

  The LLM provider is an argument (\<open>chat\<close>: prompt to error text or response text), as are the
  JSON printer \<open>ser\<close>, the parser \<open>parse_facts\<close> of a JSON array of strings and Unicode
  lower-casing \<open>lower\<close>. Operations that can panic (index out of range, slice off a character
  boundary) return \<open>None\<close> in that case.
\<close>

section \<open>Token estimation\<close>

definition tool_call_tokens :: "(json \<Rightarrow> bytes) \<Rightarrow> tool_call \<Rightarrow> nat" where
  "tool_call_tokens ser t = (length (ser (tc_arguments t)) + length (tc_name t) + 20) div 4"

definition message_tokens :: "(json \<Rightarrow> bytes) \<Rightarrow> message \<Rightarrow> nat" where
  "message_tokens ser m =
     (length (msg_content m) div 4 + 10)
     + (case msg_tool_calls m of None \<Rightarrow> 0 | Some tc \<Rightarrow> sum_list (map (tool_call_tokens ser) tc))"

definition estimate_tokens :: "(json \<Rightarrow> bytes) \<Rightarrow> message list \<Rightarrow> nat" where
  "estimate_tokens ser messages = sum_list (map (message_tokens ser) messages)"

section \<open>Where to cut\<close>

text \<open>The \<open>while end > start && messages[end].role == Tool\<close> loop.\<close>

fun skip_tools :: "message list \<Rightarrow> nat \<Rightarrow> nat \<Rightarrow> nat" where
  "skip_tools messages start e =
     (if start < e \<and> msg_role (messages ! e) = Tool then skip_tools messages start (e - 1) else e)"

declare skip_tools.simps [simp del]

definition system_msg :: "message list \<Rightarrow> message option" where
  "system_msg messages =
     (if messages \<noteq> [] \<and> msg_role (hd messages) = System then Some (hd messages) else None)"

definition compaction_start :: "message list \<Rightarrow> nat" where
  "compaction_start messages = (case system_msg messages of Some _ \<Rightarrow> 1 | None \<Rightarrow> 0)"

text \<open>Outer \<open>None\<close>: the index panic. Inner \<open>None\<close>: the early returns \<open>Ok(None)\<close>.\<close>

definition compaction_end :: "message list \<Rightarrow> nat \<Rightarrow> nat option option" where
  "compaction_end messages preserve_last_n =
     (let start = compaction_start messages
      in if start + preserve_last_n < length messages then
           let e0 = length messages - preserve_last_n
           in if length messages \<le> e0 then None
              else
                let e1 = skip_tools messages start e0;
                    e2 = (if start < e1 \<and> msg_role (messages ! e1) = Assistant
                             \<and> msg_tool_calls (messages ! e1) \<noteq> None
                          then e1 - 1 else e1)
                in if e2 \<le> start then Some None else Some (Some e2)
         else Some None)"

section \<open>Compaction\<close>

definition role_name :: "message_role \<Rightarrow> bytes" where
  "role_name r = (case r of User \<Rightarrow> ''User'' | Assistant \<Rightarrow> ''Assistant''
     | System \<Rightarrow> ''System'' | Tool \<Rightarrow> ''Tool'')"

definition format_messages_for_compaction :: "message list \<Rightarrow> bytes" where
  "format_messages_for_compaction messages =
     concat (map (\<lambda>m. ''['' @ role_name (msg_role m) @ '']: '' @ msg_content m @ [newline, newline]) messages)"

definition extraction_prompt :: "bytes option \<Rightarrow> bytes \<Rightarrow> message list" where
  "extraction_prompt agent_language formatted =
     (let lang_hint =
            (if agent_language = Some ''ru'' then '' Write each fact in Russian.''
             else if agent_language = Some ''en'' then '' Write each fact in English.''
             else [])
      in [plain_message System
     (''Extract key facts from this conversation as a JSON array of strings.''
      @ [newline] @ [newline] @ ''MUST PRESERVE:'' @ [newline]
      @ ''- Active tasks with their current status and progress (e.g. '' @ tick
      @ ''5/17 items done'' @ tick @ '')'' @ [newline]
      @ ''- All identifiers: UUIDs, URLs, file paths, IPs, hostnames, port numbers, ''
      @ ''service names'' @ [newline] @ ''- Decisions made and their rationale''
      @ [newline] @ ''- User preferences and requirements discovered'' @ [newline]
      @ ''- Error conditions encountered and their resolutions'' @ [newline]
      @ ''- Commitments, action items, and deadlines'' @ [newline] @ [newline]
      @ ''MAY OMIT:'' @ [newline] @ ''- Routine greetings and confirmations''
      @ [newline] @ ''- Tool calls that succeeded without noteworthy results''
      @ [newline] @ ''- Repeated information already captured in other facts''
      @ [newline] @ [newline]
      @ ''Each fact must be self-contained and useful without the original conversat''
      @ ''ion.''
      @ lang_hint @ [newline] @ ''Return ONLY the JSON array, no other text.''),
          plain_message User formatted])"

definition summary_prompt :: "bytes option \<Rightarrow> bytes \<Rightarrow> message list" where
  "summary_prompt agent_language formatted =
     (let summary_lang = (if agent_language = Some ''en'' then ''in English'' else ''in Russian'')
      in [plain_message System
     (''Summarize this conversation concisely '' @ summary_lang
      @ ''. Structure:'' @ [newline] @ ''1. Active tasks and their progress''
      @ [newline] @ ''2. Key decisions made'' @ [newline]
      @ ''3. Open questions or blockers'' @ [newline] @ [newline]
      @ ''Preserve exact identifiers: UUIDs, URLs, file paths, IPs, hostnames, port ''
      @ ''numbers.'' @ [newline] @ ''Be brief '' @ utf8 [0xE2, 0x80, 0x94]
      @ '' 2-3 paragraphs max.''),
          plain_message User formatted])"

definition summary_messages :: "bytes \<Rightarrow> message list" where
  "summary_messages summary_response =
     (let summary_text = strip_thinking summary_response
      in if trim summary_text \<noteq> []
         then [plain_message System (''[Previous conversation summary]'' @ [newline] @ summary_text)]
         else [])"

text \<open>\<open>system + summary + preserved recent\<close>.\<close>

definition rebuild_messages :: "message list \<Rightarrow> nat \<Rightarrow> bytes \<Rightarrow> message list" where
  "rebuild_messages messages e summary_response =
     (case system_msg messages of Some sys \<Rightarrow> [sys] | None \<Rightarrow> [])
     @ summary_messages summary_response @ drop e messages"

type_synonym chat_fun = "message list \<Rightarrow> (bytes, bytes) result"

text \<open>The result: the messages afterwards and the returned \<open>Result<Option<Vec<String>>>\<close>.\<close>

definition compact_if_needed ::
  "(json \<Rightarrow> bytes) \<Rightarrow> (bytes \<Rightarrow> bytes list option) \<Rightarrow> chat_fun \<Rightarrow> chat_fun option \<Rightarrow> message list
     \<Rightarrow> nat \<Rightarrow> nat \<Rightarrow> bytes option \<Rightarrow> (message list \<times> (bytes, bytes list option) result) option" where
  "compact_if_needed ser parse_facts provider compaction_provider messages max_tokens preserve_last_n agent_language =
     (let chat = unwrap_or compaction_provider provider;
          total = estimate_tokens ser messages;
          threshold = max_tokens * 80 div 100
      in if total < threshold then Some (messages, Inr None)
         else case compaction_end messages preserve_last_n of
           None \<Rightarrow> None
         | Some None \<Rightarrow> Some (messages, Inr None)
         | Some (Some e) \<Rightarrow>
             let start = compaction_start messages;
                 formatted = format_messages_for_compaction (take (e - start) (drop start messages))
             in case chat (extraction_prompt agent_language formatted) of
                  Inl err \<Rightarrow> Some (messages, Inl err)
                | Inr facts_response \<Rightarrow>
                    let extracted_facts = unwrap_or (parse_facts facts_response) []
                    in case chat (summary_prompt agent_language formatted) of
                         Inl err \<Rightarrow> Some (messages, Inl err)
                       | Inr summary_response \<Rightarrow>
                           Some (rebuild_messages messages e summary_response,
                                 Inr (if extracted_facts = [] then None else Some extracted_facts)))"

section \<open>Progress header\<close>

definition progress_tag :: bytes where
  "progress_tag = ''[Session Progress]''"

definition generate_progress_header :: "(bytes \<Rightarrow> bytes) \<Rightarrow> message list \<Rightarrow> loop_detector \<Rightarrow> bytes" where
  "generate_progress_header lower messages detector =
     (let sorted = sort_key (\<lambda>(_, count). - int count) (tool_counts detector);
          top_tools = map (\<lambda>(name, count). name @ ''('' @ show_nat count @ '')'') (take 5 sorted);
          error_count = length (filter (\<lambda>m. msg_role m = Tool \<and> contains (lower (msg_content m)) ''error'') messages);
          tools_str = (if top_tools = [] then ''none'' else join '', '' top_tools);
          header = ''[Session Progress] Iterations: '' @ show_nat (iteration_count detector)
                   @ ''. Tools called: '' @ tools_str @ ''.''
      in if 0 < error_count
         then header @ '' Errors encountered: '' @ show_nat error_count @ '' tool failures.''
         else header)"

definition is_progress_header :: "message \<Rightarrow> bool" where
  "is_progress_header m \<longleftrightarrow>
     (msg_role m = Tool \<and> starts_with (msg_content m) progress_tag)
     \<or> (msg_role m = System \<and> starts_with (msg_content m) progress_tag)"

definition remove_progress_header :: "message list \<Rightarrow> message list" where
  "remove_progress_header messages = filter (\<lambda>m. \<not> is_progress_header m) messages"

text \<open>The header injection of \<open>compact_messages\<close> after a compaction that produced facts.\<close>

definition inject_progress_header :: "(bytes \<Rightarrow> bytes) \<Rightarrow> message list \<Rightarrow> loop_detector \<Rightarrow> message list" where
  "inject_progress_header lower messages det =
     (let messages' = remove_progress_header messages;
          header = generate_progress_header lower messages' det;
          insert_pos = (case messages' of [] \<Rightarrow> 0 | m # _ \<Rightarrow> if msg_role m = System then 1 else 0)
      in take insert_pos messages' @ [plain_message System header] @ drop insert_pos messages')"

record compaction_config =
  cc_enabled :: bool
  cc_threshold :: rat
  cc_preserve_tool_calls :: bool
  cc_preserve_last_n :: "32 word"
  cc_max_context_tokens :: "32 word option"

definition default_context_for_model :: "bytes \<Rightarrow> nat" where
  "default_context_for_model model =
     (if contains model ''claude'' then 200000
      else if contains model ''gpt-4'' then 128000
      else if contains model ''MiniMax'' \<or> contains model ''M2.5'' \<or> contains model ''gemini'' then 1000000
      else 128000)"

definition compaction_params :: "bytes \<Rightarrow> compaction_config option \<Rightarrow> nat \<times> nat" where
  "compaction_params model config =
     (unwrap_or (map_option unat (Option.bind config cc_max_context_tokens)) (default_context_for_model model),
      unwrap_or (map_option (\<lambda>c. unat (cc_preserve_last_n c)) config) 10)"

text \<open>\<open>compact_messages\<close>: the facts handed to \<open>index_facts\<close> are returned with the messages;
  audit and user notification have no effect on either. An error or \<open>Ok(None)\<close> ends the call.\<close>

definition compact_messages ::
  "(json \<Rightarrow> bytes) \<Rightarrow> (bytes \<Rightarrow> bytes list option) \<Rightarrow> (bytes \<Rightarrow> bytes) \<Rightarrow> bytes \<Rightarrow> compaction_config option
     \<Rightarrow> bytes \<Rightarrow> chat_fun \<Rightarrow> chat_fun option \<Rightarrow> message list \<Rightarrow> loop_detector option
     \<Rightarrow> (message list \<times> bytes list option) option" where
  "compact_messages ser parse_facts lower model config language provider compaction_provider messages detector =
     (let (max_tokens, preserve_last_n) = compaction_params model config
      in case compact_if_needed ser parse_facts provider compaction_provider messages
                max_tokens preserve_last_n (Some language) of
           None \<Rightarrow> None
         | Some (messages', Inr (Some facts)) \<Rightarrow>
             Some (case detector of
                     Some det \<Rightarrow> inject_progress_header lower messages' det
                   | None \<Rightarrow> messages', Some facts)
         | Some (messages', _) \<Rightarrow> Some (messages', None))"

section \<open>Tool results\<close>

definition truncate_preview :: "bytes \<Rightarrow> nat \<Rightarrow> bytes" where
  "truncate_preview s max_len =
     (if max_len < length s then take (floor_char_boundary s max_len) s @ ''...'' else s)"

definition truncation_marker :: "nat \<Rightarrow> nat \<Rightarrow> bytes" where
  "truncation_marker original limit =
     [newline, newline] @ ''[... truncated '' @ show_nat original @ '' ''
     @ utf8 [0xE2, 0x86, 0x92] @ '' '' @ show_nat limit @ '' chars ...]'' @ [newline, newline]"

definition truncation_limit :: "bytes \<Rightarrow> nat \<Rightarrow> nat" where
  "truncation_limit model current_context_chars =
     (let model_max_chars = default_context_for_model model * 4;
          remaining = model_max_chars - current_context_chars
      in max (remaining * 50 div 100) 2000)"

text \<open>The slice \<open>&result[result.len().saturating_sub(1500)..]\<close> panics off a character boundary.\<close>

definition truncate_tool_result :: "bytes \<Rightarrow> bytes \<Rightarrow> nat \<Rightarrow> bytes option" where
  "truncate_tool_result model res current_context_chars =
     (let limit = truncation_limit model current_context_chars
      in if length res \<le> limit then Some res
         else if \<not> is_char_boundary res (length res - 1500) then None
         else
           let tail_region = drop (length res - 1500) res;
               tail_has_error = contains tail_region ''error'' \<or> contains tail_region ''Error''
                 \<or> contains tail_region ''failed'' \<or> contains tail_region ''exception'';
               tail_size = (if tail_has_error then 1500 else 500);
               marker = truncation_marker (length res) limit;
               head_size = limit - tail_size - length marker;
               head_part = take (floor_char_boundary res head_size) res;
               tail_part = drop (floor_char_boundary res (length res - tail_size)) res
           in Some (head_part @ marker @ tail_part))"

definition compacted_text :: bytes where
  "compacted_text = ''[tool result compacted]''"

text \<open>The \<open>for &idx in tool_indices\<close> loop: walks the messages and compacts the first
  \<open>to_compact\<close> tool results that have more than 100 characters, counting the removed ones.\<close>

fun compact_tools_loop :: "nat \<Rightarrow> message list \<Rightarrow> message list \<times> nat" where
  "compact_tools_loop n [] = ([], 0)"
| "compact_tools_loop n (m # ms) =
     (if msg_role m = Tool then
        (case n of
           0 \<Rightarrow> (m # ms, 0)
         | Suc k \<Rightarrow>
             let (ms', removed) = compact_tools_loop k ms;
                 old_len = char_count (msg_content m)
             in if 100 < old_len
                then (m\<lparr>msg_content := compacted_text\<rparr> # ms', removed + (old_len - length compacted_text))
                else (m # ms', removed))
      else let (ms', removed) = compact_tools_loop n ms in (m # ms', removed))"

definition compact_tool_results ::
  "bytes \<Rightarrow> compaction_config option \<Rightarrow> message list \<Rightarrow> nat \<Rightarrow> message list \<times> nat" where
  "compact_tool_results model config messages context_chars =
     (let context_window = default_context_for_model model * 4;
          threshold = context_window * 70 div 100
      in if context_chars \<le> threshold then (messages, context_chars)
         else
           let preserve_n = unwrap_or (map_option (\<lambda>c. unat (cc_preserve_last_n c)) config) 10;
               to_compact = length (filter (\<lambda>m. msg_role m = Tool) messages) - preserve_n;
               (messages', chars_removed) = compact_tools_loop to_compact messages
           in (messages', context_chars - chars_removed))"

section \<open>Properties of compaction\<close>

lemma skip_tools_le: "skip_tools ms start e \<le> e"
proof (induction ms start e rule: skip_tools.induct)
  case (1 ms start e)
  show ?case
  proof (cases "start < e \<and> msg_role (ms ! e) = Tool")
    case True
    with 1 have "skip_tools ms start (e - 1) \<le> e - 1" by blast
    with True show ?thesis by (simp add: skip_tools.simps [of ms start e])
  next
    case False
    then have "skip_tools ms start e = e" by (subst skip_tools.simps) (simp only: if_False)
    then show ?thesis by simp
  qed
qed

lemma compaction_end_bounds:
  assumes "compaction_end ms n = Some (Some e)"
  shows "compaction_start ms < e \<and> e \<le> length ms - n \<and> 0 < n"
proof -
  let ?e1 = "skip_tools ms (compaction_start ms) (length ms - n)"
  have le: "?e1 \<le> length ms - n" by (rule skip_tools_le)
  from assms have n: "0 < n" and e: "compaction_start ms < e" "e = ?e1 \<or> e = ?e1 - 1"
    by (auto simp: compaction_end_def Let_def split: if_splits)
  from e(2) le have "e \<le> length ms - n" by linarith
  with n e(1) show ?thesis by blast
qed

lemma compaction_end_panic:
  "compaction_end ms n = None \<longleftrightarrow> n = 0 \<and> compaction_start ms < length ms"
  by (auto simp: compaction_end_def Let_def)

lemma rebuild_suffix: "e \<le> k \<Longrightarrow> suffix (drop k ms) (rebuild_messages ms e r)"
  unfolding rebuild_messages_def
  by (metis append.assoc drop_drop le_add_diff_inverse2 suffix_append suffix_def suffix_drop)

lemma rebuild_hd: "system_msg ms = Some sys \<Longrightarrow> \<exists>rest. rebuild_messages ms e r = sys # rest"
  by (simp add: rebuild_messages_def)

lemma rebuild_length:
  "compaction_start ms < e \<Longrightarrow> e \<le> length ms \<Longrightarrow> length (rebuild_messages ms e r) \<le> length ms"
  by (auto simp: rebuild_messages_def summary_messages_def compaction_start_def Let_def
      split: option.splits)

lemma system_msg_hd: "system_msg ms = Some sys \<Longrightarrow> \<exists>rest. ms = sys # rest"
  by (cases ms) (auto simp: system_msg_def split: if_splits)

text \<open>The three shapes of a run that does not panic.\<close>

lemma compact_if_needed_cases:
  assumes "compact_if_needed ser parse_facts provider cp ms max_tokens n lang = Some (ms', r)"
  obtains "ms' = ms" and "r = Inr None"
    | err where "ms' = ms" and "r = Inl err"
    | e summary facts where "compaction_end ms n = Some (Some e)"
        and "ms' = rebuild_messages ms e summary" and "r = Inr facts"
proof -
  let ?chat = "unwrap_or cp provider"
  note d = assms [unfolded compact_if_needed_def Let_def]
  show thesis
  proof (cases "estimate_tokens ser ms < max_tokens * 80 div 100")
    case True
    with d that(1) show thesis by simp
  next
    case False
    note d1 = d [unfolded if_not_P [OF False]]
    from d1 have "compaction_end ms n \<noteq> None" by (cases "compaction_end ms n") simp_all
    then obtain o' where o: "compaction_end ms n = Some o'" by auto
    show thesis
    proof (cases o')
      case None
      with d1 o that(1) show thesis by simp
    next
      case (Some e)
      let ?f = "format_messages_for_compaction (take (e - compaction_start ms) (drop (compaction_start ms) ms))"
      show thesis
      proof (cases "?chat (extraction_prompt lang ?f)")
        case (Inl err)
        with d1 o Some have "ms' = ms" "r = Inl err" by simp_all
        then show thesis by (rule that(2))
      next
        case x: (Inr facts)
        show thesis
        proof (cases "?chat (summary_prompt lang ?f)")
          case (Inl err)
          with d1 o Some x have "ms' = ms" "r = Inl err" by simp_all
          then show thesis by (rule that(2))
        next
          case (Inr summ)
          with d1 o Some x have "ms' = rebuild_messages ms e summ" "\<exists>f. r = Inr f" by auto
          with o Some that(3) show thesis by blast
        qed
      qed
    qed
  qed
qed

text \<open>C40: Compaction never loses the protected part of the history: whatever the provider
  answers, the system prompt stays first, the last \<open>preserve_last_n\<close> messages stay at the end
  unchanged, and the history never gets longer.\<close>

theorem compaction_preserves_recent:
  assumes "compact_if_needed ser parse_facts provider cp ms max_tokens n lang = Some (ms', r)"
  shows "suffix (drop (length ms - n) ms) ms'
    \<and> (\<forall>sys. system_msg ms = Some sys \<longrightarrow> (\<exists>rest. ms' = sys # rest))
    \<and> length ms' \<le> length ms"
  using assms
proof (cases rule: compact_if_needed_cases)
  case 1
  then show ?thesis by (auto simp: suffix_drop dest: system_msg_hd)
next
  case (2 err)
  then show ?thesis by (auto simp: suffix_drop dest: system_msg_hd)
next
  case (3 e summary facts)
  from compaction_end_bounds [OF 3(1)] have e: "compaction_start ms < e" "e \<le> length ms - n" by auto
  from rebuild_suffix [OF e(2), of ms summary] rebuild_length [OF e(1), of summary] e(2) 3(2)
  show ?thesis by (auto dest: rebuild_hd)
qed

theorem compaction_preserves_recent_witness:
  "\<exists>ms' r. compact_if_needed (\<lambda>_. []) (\<lambda>_. None) (\<lambda>_. Inr ''S'') None
       [plain_message System ''p'', plain_message User ''a'', plain_message User ''b''] 1 1 None = Some (ms', r)
    \<and> suffix [plain_message User ''b''] ms'"
proof -
  let ?ms = "[plain_message System ''p'', plain_message User ''a'', plain_message User ''b'']"
  let ?c = "compact_if_needed (\<lambda>_. []) (\<lambda>_. None) (\<lambda>_. Inr ''S'') None ?ms 1 1 None"
  have "compaction_end ?ms 1 \<noteq> None" unfolding compaction_end_panic by simp
  then have "?c \<noteq> None"
    by (auto simp: compact_if_needed_def Let_def split: option.splits sum.splits)
  then obtain ms' r where c: "?c = Some (ms', r)" by auto
  from compaction_preserves_recent [OF c] c show ?thesis by auto
qed

text \<open>A provider error leaves the history exactly as it was.\<close>

theorem compaction_error_atomic:
  assumes "compact_if_needed ser parse_facts provider cp ms max_tokens n lang = Some (ms', Inl err)"
  shows "ms' = ms"
  using assms by (rule compact_if_needed_cases) auto

theorem compaction_error_atomic_witness:
  "\<exists>ms' err. compact_if_needed (\<lambda>_. []) (\<lambda>_. None) (\<lambda>_. Inl ''down'') None
       [plain_message User ''a'', plain_message User ''b''] 1 1 None = Some (ms', Inl err)
     \<and> ms' = [plain_message User ''a'', plain_message User ''b'']"
proof -
  let ?ms = "[plain_message User ''a'', plain_message User ''b'']"
  have "compact_if_needed (\<lambda>_. []) (\<lambda>_. None) (\<lambda>_. Inl ''down'') None ?ms 1 1 None = Some (?ms, Inl ''down'')"
    by (simp add: compact_if_needed_def estimate_tokens_def message_tokens_def compaction_end_def
        compaction_start_def system_msg_def plain_message_def skip_tools.simps)
  with compaction_error_atomic [OF this] show ?thesis by blast
qed

text \<open>Compaction panics exactly when the token threshold is reached, the configuration
  preserves no message at all and there is something besides the system prompt: the scan for tool
  results then starts one past the end of the list.\<close>

theorem compaction_panics_iff:
  "compact_if_needed ser parse_facts provider cp ms max_tokens n lang = None
   \<longleftrightarrow> max_tokens * 80 div 100 \<le> estimate_tokens ser ms \<and> n = 0 \<and> compaction_start ms < length ms"
  using compaction_end_panic [of ms n]
  by (auto simp: compact_if_needed_def Let_def not_less split: option.splits sum.splits)

text \<open>The cut can separate a tool result from the call it answers. With two consecutive tool
  rounds the second adjustment steps back from the assistant message of the later round onto the
  tool result of the earlier one, so the preserved part starts with an orphaned tool message.\<close>

theorem compaction_orphans_tool_result:
  fixes call1 call2 res1 res2 :: message
  assumes "msg_role call1 = Assistant" "msg_tool_calls call1 = Some [tc1]" "msg_role res1 = Tool"
    and "msg_role call2 = Assistant" "msg_tool_calls call2 = Some [tc2]" "msg_role res2 = Tool"
  shows "compaction_end [plain_message System p, plain_message User u, call1, res1, call2, res2] 1 = Some (Some 3)
    \<and> hd (drop 3 [plain_message System p, plain_message User u, call1, res1, call2, res2]) = res1"
  using assms
  by (simp add: compaction_end_def compaction_start_def system_msg_def plain_message_def
      skip_tools.simps Let_def numeral_eq_Suc)

theorem compaction_orphans_tool_result_witness:
  "\<exists>ms res1. msg_role res1 = Tool \<and> compaction_end ms 1 = Some (Some 3) \<and> hd (drop 3 ms) = res1"
proof -
  let ?tc = "\<lparr>tc_id = ''1'', tc_name = ''t'', tc_arguments = JNull\<rparr>"
  let ?call = "(plain_message Assistant [])\<lparr>msg_tool_calls := Some [?tc]\<rparr>"
  let ?res = "plain_message Tool ''ok''"
  show ?thesis
    using compaction_orphans_tool_result [of ?call ?tc ?res ?call ?tc ?res "''p''" "''u''"]
    by (intro exI [of _ "[plain_message System ''p'', plain_message User ''u'', ?call, ?res, ?call, ?res]"]
          exI [of _ ?res]) (simp add: plain_message_def)
qed

section \<open>Properties of the progress header\<close>

lemma generated_header_tagged: "starts_with (generate_progress_header lower ms d) progress_tag"
  by (simp add: generate_progress_header_def progress_tag_def starts_with_def Let_def)

lemma remove_none_left: "filter is_progress_header (remove_progress_header ms) = []"
  by (simp add: remove_progress_header_def)

text \<open>Repeated compaction does not accumulate headers: after an injection there is exactly one
  progress header, and removing it gives back the messages without headers.\<close>

theorem exactly_one_progress_header:
  "length (filter is_progress_header (inject_progress_header lower ms d)) = 1
   \<and> remove_progress_header (inject_progress_header lower ms d) = remove_progress_header ms"
proof -
  let ?ms = "remove_progress_header ms"
  let ?h = "plain_message System (generate_progress_header lower ?ms d)"
  obtain k where inj: "inject_progress_header lower ms d = take k ?ms @ [?h] @ drop k ?ms"
    by (auto simp: inject_progress_header_def Let_def)
  have h: "is_progress_header ?h"
    by (simp add: is_progress_header_def plain_message_def generated_header_tagged)
  have nil: "filter is_progress_header (take k ?ms) = []" "filter is_progress_header (drop k ?ms) = []"
    using remove_none_left [of ms] by (metis append_is_Nil_conv append_take_drop_id filter_append)+
  have id: "filter (\<lambda>m. \<not> is_progress_header m) xs = xs" if "filter is_progress_header xs = []" for xs
    using that by (simp add: filter_empty_conv filter_id_conv)
  show ?thesis
    unfolding inj using h nil
    by (simp add: remove_progress_header_def [of "_ @ _"] id [OF nil(1)] id [OF nil(2)])
qed

section \<open>Properties of tool-result truncation\<close>

lemma show_nat_length: "n < 10 ^ k \<Longrightarrow> 0 < k \<Longrightarrow> length (show_nat n) \<le> k"
proof (induction k arbitrary: n)
  case (Suc k)
  show ?case
  proof (cases "n < 10")
    case True
    then show ?thesis by (simp add: show_nat.simps [of n])
  next
    case False
    with Suc.prems have "0 < k" by (cases k) auto
    moreover have "n div 10 < 10 ^ k" using Suc.prems by (simp add: div_less_iff_less_mult mult.commute)
    ultimately have "length (show_nat (n div 10)) \<le> k" by (rule Suc.IH [rotated])
    with False show ?thesis by (simp add: show_nat.simps [of n])
  qed
qed simp

lemma truncation_limit_bounds: "2000 \<le> truncation_limit model c \<and> truncation_limit model c \<le> 2000000"
  by (auto simp: truncation_limit_def default_context_for_model_def Let_def)

lemma truncation_marker_length:
  assumes "a < 2 ^ 64" and "b \<le> 2000000"
  shows "length (truncation_marker a b) \<le> 100"
proof -
  have "length (show_nat a) \<le> 20" by (rule show_nat_length) (use assms(1) in simp_all)
  moreover have "length (show_nat b) \<le> 7" by (rule show_nat_length) (use assms(2) in simp_all)
  ultimately show ?thesis by (simp add: truncation_marker_def utf8_def)
qed

text \<open>A truncated tool result respects its budget: for well-formed text cut at a character
  boundary the result is at most three bytes over the limit (the tail may be extended to the start
  of a character), and text within the limit is returned unchanged.\<close>

theorem truncate_tool_result_bounded:
  assumes "valid_utf8 res" and "length res < 2 ^ 64"
    and "truncate_tool_result model res c = Some out"
  shows "length out \<le> truncation_limit model c + 3 \<and> (length res \<le> truncation_limit model c \<longrightarrow> out = res)"
proof (cases "length res \<le> truncation_limit model c")
  case True
  with assms(3) show ?thesis by (simp add: truncate_tool_result_def)
next
  case False
  let ?lim = "truncation_limit model c"
  let ?mk = "truncation_marker (length res) ?lim"
  have mk: "length ?mk \<le> 100"
    by (rule truncation_marker_length) (use assms(2) truncation_limit_bounds in auto)
  obtain t where t: "t = 1500 \<or> t = 500"
    and out: "out = take (floor_char_boundary res (?lim - t - length ?mk)) res @ ?mk
                    @ drop (floor_char_boundary res (length res - t)) res"
    using False assms(3) by (auto simp: truncate_tool_result_def Let_def split: if_splits)
  have "length res - t \<le> floor_char_boundary res (length res - t) + 3"
    by (rule floor_char_boundary_near [OF assms(1)]) simp
  moreover have "floor_char_boundary res (?lim - t - length ?mk) \<le> ?lim - t - length ?mk"
    using floor_char_boundary_le by blast
  ultimately have "length out \<le> (?lim - t - length ?mk) + length ?mk + (t + 3)"
    unfolding out by auto
  then show ?thesis using mk t truncation_limit_bounds [of model c] False by auto
qed

theorem truncate_tool_result_bounded_witness:
  "\<exists>out. truncate_tool_result ''gpt-4'' ''ok'' 7 = Some out \<and> length out \<le> truncation_limit ''gpt-4'' 7 + 3"
proof -
  have lim: "length ''ok'' \<le> truncation_limit ''gpt-4'' 7"
    using truncation_limit_bounds [of "''gpt-4''" 7] by simp
  then have some: "truncate_tool_result ''gpt-4'' ''ok'' 7 = Some ''ok''"
    by (simp add: truncate_tool_result_def)
  have "valid_utf8 ''ok''" by (simp add: utf8_tail_def)
  from truncate_tool_result_bounded [OF this _ some] some show ?thesis by auto
qed

lemma nth_concat_pairs:
  "i < n \<Longrightarrow> concat (replicate n [a, b]) ! (2 * i) = a \<and> concat (replicate n [a, b]) ! (2 * i + 1) = b"
proof (induction n arbitrary: i)
  case (Suc n)
  then show ?case by (cases i) auto
qed simp

lemma length_concat_pairs: "length (concat (replicate n [a, b])) = 2 * n"
  by (induction n) auto

text \<open>Truncation panics on some well-formed text that is not ASCII: the error check slices the
  last 1500 bytes without rounding to a character boundary. Here a tool result of 1001 Cyrillic
  letters and one ASCII letter is cut inside a letter when the context is nearly full.\<close>

theorem truncate_tool_result_panics:
  "valid_utf8 (concat (replicate 1001 [CHR 0xD0, CHR 0xB0]) @ ''a'')
   \<and> truncate_tool_result ''gpt-4'' (concat (replicate 1001 [CHR 0xD0, CHR 0xB0]) @ ''a'') 512000 = None"
proof -
  let ?p = "concat (replicate 1001 [CHR 0xD0, CHR 0xB0])"
  have len: "length ?p = 2002" by (simp add: length_concat_pairs)
  have "valid_utf8 (concat (replicate n [CHR 0xD0, CHR 0xB0]))" for n
    by (induction n) (auto simp: utf8_tail_def is_continuation_def)
  then have "valid_utf8 (?p @ ''a'')"
    by (intro valid_utf8_append) (simp_all add: utf8_tail_def)
  moreover have "?p ! 503 = CHR 0xB0"
    using nth_concat_pairs [of 251 1001 "CHR 0xD0" "CHR 0xB0"] by simp
  then have "\<not> is_char_boundary (?p @ ''a'') 503"
    using len by (simp add: is_char_boundary_def nth_append is_continuation_def)
  moreover have "truncation_limit ''gpt-4'' 512000 = 2000"
    by (simp add: truncation_limit_def default_context_for_model_def contains_def str_find_def)
  ultimately show ?thesis using len by (simp add: truncate_tool_result_def)
qed

section \<open>Properties of tool-result compaction\<close>

lemma compact_tools_loop_roles:
  "map msg_role (fst (compact_tools_loop n ms)) = map msg_role ms"
  by (induction n ms rule: compact_tools_loop.induct)
     (auto split: nat.splits prod.splits simp: Let_def)

lemma compact_tools_loop_keeps:
  "n \<le> length (filter (\<lambda>m. msg_role m = Tool) ms) \<Longrightarrow>
   filter (\<lambda>m. msg_role m \<noteq> Tool) (fst (compact_tools_loop n ms)) = filter (\<lambda>m. msg_role m \<noteq> Tool) ms
   \<and> drop n (filter (\<lambda>m. msg_role m = Tool) (fst (compact_tools_loop n ms)))
     = drop n (filter (\<lambda>m. msg_role m = Tool) ms)"
  by (induction n ms rule: compact_tools_loop.induct)
     (auto split: nat.splits prod.splits if_splits simp: Let_def)

text \<open>Compaction of tool results changes nothing but old tool results: messages that are not
  tool results and the last \<open>preserve_n\<close> tool results are kept, and the sequence of roles is the same.\<close>

theorem compact_tool_results_keeps_recent:
  assumes "compact_tool_results model config ms chars = (ms', chars')"
    and "preserve_n = unwrap_or (map_option (\<lambda>c. unat (cc_preserve_last_n c)) config) 10"
  shows "map msg_role ms' = map msg_role ms
    \<and> filter (\<lambda>m. msg_role m \<noteq> Tool) ms' = filter (\<lambda>m. msg_role m \<noteq> Tool) ms
    \<and> (let tools = filter (\<lambda>m. msg_role m = Tool) ms; tools' = filter (\<lambda>m. msg_role m = Tool) ms'
       in drop (length tools - preserve_n) tools' = drop (length tools - preserve_n) tools)
    \<and> chars' \<le> chars"
proof (cases "chars \<le> default_context_for_model model * 4 * 70 div 100")
  case True
  with assms show ?thesis by (auto simp: compact_tool_results_def Let_def)
next
  case False
  let ?n = "length (filter (\<lambda>m. msg_role m = Tool) ms) - preserve_n"
  from False assms have ms': "ms' = fst (compact_tools_loop ?n ms)" and "chars' \<le> chars"
    by (auto simp: compact_tool_results_def Let_def split: prod.splits)
  then show ?thesis
    using compact_tools_loop_roles [of ?n ms] compact_tools_loop_keeps [of ?n ms] by (simp add: Let_def)
qed

theorem compact_tool_results_keeps_recent_witness:
  "\<exists>ms' chars'. compact_tool_results ''gpt-4'' None [plain_message Tool ''x''] 9 = (ms', chars') \<and> chars' \<le> 9"
proof -
  obtain ms' chars' where r: "compact_tool_results ''gpt-4'' None [plain_message Tool ''x''] 9 = (ms', chars')"
    by (cases "compact_tool_results ''gpt-4'' None [plain_message Tool ''x''] 9")
  from compact_tool_results_keeps_recent [OF r, of 10] r show ?thesis by auto
qed

end
