(* ===== verification/Session_Store.thy ===== *)
theory Session_Store
  imports Hyde_Types
begin

text \<open>
  \<open>hydeclaw-db/src/session_status.rs\<close>, \<open>sessions.rs\<close> and \<open>session_wal.rs\<close>: the session life
  cycle and the transcript tables. Each function of these files is one SQL statement or one
  transaction, and is a function on the tables here. The tables are lists in insertion order;
  \<open>ORDER BY created_at\<close> is a stable sort, so rows with the same time stay in insertion order.
  What the schema in \<open>migrations/\<close> adds is part of the operations: the primary key, the foreign keys
  (\<open>session_id\<close> cascades, \<open>parent_message_id\<close> and \<open>branch_from_message_id\<close> are set to null) and the
  trigger that copies the time of a new message to its session. Generated ids and the clock are
  arguments; times are numbers of nanoseconds.
\<close>

section \<open>Session status\<close>

datatype session_status = Running | Done | Failed | Interrupted | Timeout | SCancelled

definition is_terminal :: "session_status \<Rightarrow> bool" where
  "is_terminal st \<longleftrightarrow> st \<noteq> Running"

definition can_transition_to :: "session_status \<Rightarrow> session_status \<Rightarrow> bool" where
  "can_transition_to st to = (case st of
       Done \<Rightarrow> False
     | Running \<Rightarrow> True
     | _ \<Rightarrow> to = Running)"

definition status_as_str :: "session_status \<Rightarrow> bytes" where
  "status_as_str st = (case st of
       Running \<Rightarrow> ''running'' | Done \<Rightarrow> ''done'' | Failed \<Rightarrow> ''failed''
     | Interrupted \<Rightarrow> ''interrupted'' | Timeout \<Rightarrow> ''timeout'' | SCancelled \<Rightarrow> ''cancelled'')"

definition status_parse :: "bytes \<Rightarrow> session_status option" where
  "status_parse s =
     (if s = ''running'' then Some Running
      else if s = ''done'' then Some Done
      else if s = ''failed'' then Some Failed
      else if s = ''interrupted'' then Some Interrupted
      else if s = ''timeout'' then Some Timeout
      else if s = ''cancelled'' then Some SCancelled
      else None)"

section \<open>Tables\<close>

record session_row =
  s_id :: uuid
  s_agent_id :: bytes
  s_user_id :: bytes
  s_channel :: bytes
  s_started_at :: instant
  s_last_message_at :: instant
  s_title :: "bytes option"
  s_metadata :: "json option"
  s_run_status :: "bytes option"
  s_activity_at :: "instant option"
  s_participants :: "bytes list"
  s_retry_count :: int

record message_row =
  m_id :: uuid
  m_session_id :: uuid
  m_role :: bytes
  m_content :: bytes
  m_tool_calls :: "json option"
  m_tool_call_id :: "bytes option"
  m_created_at :: instant
  m_agent_id :: "bytes option"
  m_feedback :: "int option"
  m_edited_at :: "instant option"
  m_status :: bytes
  m_thinking_blocks :: "json option"
  m_parent :: "uuid option"
  m_branch_from :: "uuid option"
  m_abort_reason :: "bytes option"

record database =
  sessions :: "session_row list"
  messages :: "message_row list"

datatype db_error = SessionNotFound uuid | ConstraintViolation | NotAnArray

section \<open>Schema-level operations\<close>

definition in_session :: "uuid \<Rightarrow> message_row list \<Rightarrow> message_row list" where
  "in_session sid ms = filter (\<lambda>m. m_session_id m = sid) ms"

definition by_time :: "message_row list \<Rightarrow> message_row list" where
  "by_time ms = sort_key m_created_at ms"

definition session_ids :: "database \<Rightarrow> uuid list" where
  "session_ids db = map s_id (sessions db)"

definition message_ids :: "database \<Rightarrow> uuid list" where
  "message_ids db = map m_id (messages db)"

text \<open>\<open>UPDATE sessions SET f WHERE P\<close>, with the number of rows.\<close>

definition update_sessions :: "(session_row \<Rightarrow> bool) \<Rightarrow> (session_row \<Rightarrow> session_row) \<Rightarrow> database \<Rightarrow> database \<times> nat" where
  "update_sessions P f db =
     (db\<lparr>sessions := map (\<lambda>s. if P s then f s else s) (sessions db)\<rparr>, length (filter P (sessions db)))"

definition update_messages :: "(message_row \<Rightarrow> bool) \<Rightarrow> (message_row \<Rightarrow> message_row) \<Rightarrow> database \<Rightarrow> database \<times> nat" where
  "update_messages P f db =
     (db\<lparr>messages := map (\<lambda>m. if P m then f m else m) (messages db)\<rparr>, length (filter P (messages db)))"

definition null_refs :: "uuid set \<Rightarrow> message_row \<Rightarrow> message_row" where
  "null_refs gone m =
     m\<lparr>m_parent := (if \<exists>p \<in> gone. m_parent m = Some p then None else m_parent m),
       m_branch_from := (if \<exists>p \<in> gone. m_branch_from m = Some p then None else m_branch_from m)\<rparr>"

definition delete_messages :: "(message_row \<Rightarrow> bool) \<Rightarrow> database \<Rightarrow> database \<times> nat" where
  "delete_messages P db =
     (let gone = set (map m_id (filter P (messages db)))
      in (db\<lparr>messages := map (null_refs gone) (filter (\<lambda>m. \<not> P m) (messages db))\<rparr>,
          length (filter P (messages db))))"

definition delete_sessions :: "(session_row \<Rightarrow> bool) \<Rightarrow> database \<Rightarrow> database \<times> nat" where
  "delete_sessions P db =
     (let gone = set (map s_id (filter P (sessions db)));
          db1 = fst (delete_messages (\<lambda>m. m_session_id m \<in> gone) db)
      in (db1\<lparr>sessions := filter (\<lambda>s. \<not> P s) (sessions db)\<rparr>, length (filter P (sessions db))))"

definition fk_ok :: "database \<Rightarrow> uuid option \<Rightarrow> bool" where
  "fk_ok db r = (case r of None \<Rightarrow> True | Some i \<Rightarrow> i \<in> set (message_ids db))"

text \<open>A parent has to be a row that is there already. (The foreign key would let a row through that names
  itself as its parent; no caller writes one, since the identifiers of rows are made for the insertion.)\<close>

definition insert_message :: "message_row \<Rightarrow> database \<Rightarrow> (db_error, database) result" where
  "insert_message m db =
     (if m_session_id m \<in> set (session_ids db) \<and> m_id m \<notin> set (message_ids db)
         \<and> fk_ok db (m_parent m) \<and> fk_ok db (m_branch_from m)
      then Inr (fst (update_sessions (\<lambda>s. s_id s = m_session_id m)
                       (\<lambda>s. s\<lparr>s_last_message_at := m_created_at m\<rparr>)
                       (db\<lparr>messages := messages db @ [m]\<rparr>)))
      else Inl ConstraintViolation)"

definition insert_session :: "uuid \<Rightarrow> instant \<Rightarrow> bytes \<Rightarrow> bytes \<Rightarrow> bytes \<Rightarrow> database \<Rightarrow> database" where
  "insert_session new_id now agent_id user_id channel db =
     db\<lparr>sessions := sessions db @
       [\<lparr>s_id = new_id, s_agent_id = agent_id, s_user_id = user_id, s_channel = channel,
         s_started_at = now, s_last_message_at = now, s_title = None, s_metadata = None,
         s_run_status = None, s_activity_at = None, s_participants = [agent_id], s_retry_count = 0\<rparr>]\<rparr>"

section \<open>Finding and creating sessions\<close>

definition hours :: "nat \<Rightarrow> duration" where
  "hours h = from_secs (h * 3600)"

definition effective_scope :: "bytes \<Rightarrow> bytes \<Rightarrow> bytes \<Rightarrow> bytes \<times> bytes" where
  "effective_scope dm_scope user_id channel =
     (if dm_scope = ''shared'' \<or> dm_scope = ''per-peer'' then (user_id, ''*'')
      else if dm_scope = ''per-chat'' then (''*'', channel)
      else (user_id, channel))"

text \<open>\<open>ORDER BY last_message_at DESC LIMIT 1\<close>.\<close>

definition latest_session :: "session_row list \<Rightarrow> session_row option" where
  "latest_session ss = (case rev (sort_key s_last_message_at ss) of [] \<Rightarrow> None | s # _ \<Rightarrow> Some s)"

definition active_sessions :: "instant \<Rightarrow> bytes \<Rightarrow> bytes \<Rightarrow> bytes \<Rightarrow> database \<Rightarrow> session_row list" where
  "active_sessions now agent_id eff_user eff_channel db =
     filter (\<lambda>s. s_agent_id s = agent_id \<and> s_user_id s = eff_user \<and> s_channel s = eff_channel
                 \<and> now < s_last_message_at s + hours 4) (sessions db)"

definition find_active_session ::
  "instant \<Rightarrow> bytes \<Rightarrow> bytes \<Rightarrow> bytes \<Rightarrow> bytes \<Rightarrow> database \<Rightarrow> uuid option" where
  "find_active_session now agent_id user_id channel dm_scope db =
     (let (eff_user, eff_channel) = effective_scope dm_scope user_id channel
      in map_option s_id (latest_session (active_sessions now agent_id eff_user eff_channel db)))"

text \<open>One transaction under an advisory lock on the scope: find, or insert if there is none.\<close>

definition get_or_create_session ::
  "uuid \<Rightarrow> instant \<Rightarrow> bytes \<Rightarrow> bytes \<Rightarrow> bytes \<Rightarrow> bytes \<Rightarrow> database \<Rightarrow> database \<times> uuid" where
  "get_or_create_session new_id now agent_id user_id channel dm_scope db =
     (let (eff_user, eff_channel) = effective_scope dm_scope user_id channel
      in case latest_session (active_sessions now agent_id eff_user eff_channel db) of
           Some s \<Rightarrow> (db, s_id s)
         | None \<Rightarrow> (insert_session new_id now agent_id eff_user eff_channel db, new_id))"

definition create_new_session ::
  "uuid \<Rightarrow> instant \<Rightarrow> bytes \<Rightarrow> bytes \<Rightarrow> bytes \<Rightarrow> database \<Rightarrow> database \<times> uuid" where
  "create_new_session new_id now agent_id user_id channel db =
     (insert_session new_id now agent_id user_id channel db, new_id)"

definition create_isolated_session_with_user ::
  "uuid \<Rightarrow> instant \<Rightarrow> bytes \<Rightarrow> bytes \<Rightarrow> bytes \<Rightarrow> database \<Rightarrow> database \<times> uuid" where
  "create_isolated_session_with_user new_id now agent_id user_id channel db =
     (insert_session new_id now agent_id user_id channel db, new_id)"

definition get_session :: "uuid \<Rightarrow> database \<Rightarrow> session_row option" where
  "get_session sid db = find (\<lambda>s. s_id s = sid) (sessions db)"

definition ellipsis :: bytes where
  "ellipsis = utf8 [0xE2, 0x80, 0xA6]"

definition session_title :: "bytes \<Rightarrow> bytes" where
  "session_title user_text =
     (let trimmed = trim user_text
      in if length trimmed \<le> 60 then trimmed
         else let e = floor_char_boundary trimmed 60
              in case rfind_char (take e trimmed) (CHR '' '') of
                   Some pos \<Rightarrow> take pos trimmed @ ellipsis
                 | None \<Rightarrow> take e trimmed @ ellipsis)"

definition auto_title_session :: "uuid \<Rightarrow> bytes \<Rightarrow> database \<Rightarrow> database" where
  "auto_title_session sid user_text db =
     (if trim user_text = [] then db
      else case get_session sid db of
        None \<Rightarrow> db
      | Some s \<Rightarrow>
          if s_title s \<noteq> None then db
          else fst (update_sessions (\<lambda>s. s_id s = sid \<and> s_title s = None)
                     (\<lambda>s. s\<lparr>s_title := Some (session_title user_text)\<rparr>) db))"

definition resume_session :: "uuid \<Rightarrow> instant \<Rightarrow> database \<Rightarrow> database \<times> (db_error, uuid) result" where
  "resume_session sid now db =
     (let (db', n) = update_sessions (\<lambda>s. s_id s = sid) (\<lambda>s. s\<lparr>s_last_message_at := now\<rparr>) db
      in if n = 0 then (db', Inl (SessionNotFound sid)) else (db', Inr sid))"

definition add_participant :: "uuid \<Rightarrow> bytes \<Rightarrow> database \<Rightarrow> database \<times> bytes list option" where
  "add_participant sid agent_name db =
     (let db' = fst (update_sessions (\<lambda>s. s_id s = sid \<and> agent_name \<notin> set (s_participants s))
                      (\<lambda>s. s\<lparr>s_participants := s_participants s @ [agent_name]\<rparr>) db)
      in (db', map_option s_participants (get_session sid db')))"

definition get_participants :: "uuid \<Rightarrow> database \<Rightarrow> bytes list option" where
  "get_participants sid db = map_option s_participants (get_session sid db)"

definition get_latest_ui_session :: "instant \<Rightarrow> bytes \<Rightarrow> database \<Rightarrow> session_row option" where
  "get_latest_ui_session now agent_id db =
     latest_session (filter (\<lambda>s. s_agent_id s = agent_id \<and> s_channel s = ''ui''
                                 \<and> now < s_last_message_at s + hours 4) (sessions db))"

section \<open>Messages\<close>

definition new_row ::
  "uuid \<Rightarrow> instant \<Rightarrow> uuid \<Rightarrow> bytes \<Rightarrow> bytes \<Rightarrow> json option \<Rightarrow> bytes option \<Rightarrow> bytes option \<Rightarrow> json option
     \<Rightarrow> uuid option \<Rightarrow> message_row" where
  "new_row i now sid role content tool_calls tool_call_id agent_id thinking_blocks parent_id =
     \<lparr>m_id = i, m_session_id = sid, m_role = role, m_content = content, m_tool_calls = tool_calls,
      m_tool_call_id = tool_call_id, m_created_at = now, m_agent_id = agent_id, m_feedback = Some 0,
      m_edited_at = None, m_status = ''complete'', m_thinking_blocks = thinking_blocks,
      m_parent = parent_id, m_branch_from = None, m_abort_reason = None\<rparr>"

definition save_message_ex ::
  "uuid \<Rightarrow> instant \<Rightarrow> uuid \<Rightarrow> bytes \<Rightarrow> bytes \<Rightarrow> json option \<Rightarrow> bytes option \<Rightarrow> bytes option \<Rightarrow> json option
     \<Rightarrow> uuid option \<Rightarrow> database \<Rightarrow> (db_error, database) result" where
  "save_message_ex new_id now sid role content tool_calls tool_call_id agent_id thinking_blocks parent_id db =
     insert_message (new_row new_id now sid role content tool_calls tool_call_id agent_id thinking_blocks parent_id) db"

definition save_message ::
  "uuid \<Rightarrow> instant \<Rightarrow> uuid \<Rightarrow> bytes \<Rightarrow> bytes \<Rightarrow> json option \<Rightarrow> bytes option \<Rightarrow> database
     \<Rightarrow> (db_error, database) result" where
  "save_message new_id now sid role content tool_calls tool_call_id db =
     save_message_ex new_id now sid role content tool_calls tool_call_id None None None db"

text \<open>\<open>ON CONFLICT (id) DO NOTHING\<close>.\<close>

definition save_message_ex_with_id ::
  "uuid \<Rightarrow> instant \<Rightarrow> uuid \<Rightarrow> bytes \<Rightarrow> bytes \<Rightarrow> json option \<Rightarrow> bytes option \<Rightarrow> bytes option \<Rightarrow> json option
     \<Rightarrow> uuid option \<Rightarrow> database \<Rightarrow> (db_error, database) result" where
  "save_message_ex_with_id i now sid role content tool_calls tool_call_id agent_id thinking_blocks parent_id db =
     (if i \<in> set (message_ids db) then Inr db
      else insert_message (new_row i now sid role content tool_calls tool_call_id agent_id thinking_blocks parent_id) db)"

definition load_messages :: "uuid \<Rightarrow> nat option \<Rightarrow> database \<Rightarrow> message_row list" where
  "load_messages sid limit db =
     (let rows = by_time (in_session sid (messages db))
      in case limit of
           Some n \<Rightarrow> by_time (take n (rev rows))
         | None \<Rightarrow> rows)"

definition touch_session_activity :: "uuid \<Rightarrow> instant \<Rightarrow> database \<Rightarrow> database" where
  "touch_session_activity sid now db =
     fst (update_sessions (\<lambda>s. s_id s = sid) (\<lambda>s. s\<lparr>s_activity_at := Some now\<rparr>) db)"

definition last_user_row :: "uuid \<Rightarrow> database \<Rightarrow> message_row option" where
  "last_user_row sid db =
     (case rev (by_time (filter (\<lambda>m. m_role m = ''user'') (in_session sid (messages db)))) of
        [] \<Rightarrow> None | m # _ \<Rightarrow> Some m)"

definition upsert_streaming_message ::
  "uuid \<Rightarrow> instant \<Rightarrow> uuid \<Rightarrow> bytes \<Rightarrow> bytes \<Rightarrow> json option \<Rightarrow> database \<Rightarrow> (db_error, database) result" where
  "upsert_streaming_message msg_id now sid agent_id content tool_calls db =
     (let r = (if msg_id \<in> set (message_ids db)
               then Inr (fst (update_messages (\<lambda>m. m_id m = msg_id)
                               (\<lambda>m. m\<lparr>m_content := content, m_tool_calls := tool_calls\<rparr>) db))
               else insert_message ((new_row msg_id now sid ''assistant'' content tool_calls None (Some agent_id) None
                                      (map_option m_id (last_user_row sid db)))\<lparr>m_status := ''streaming''\<rparr>) db)
      in case r of
           Inl e \<Rightarrow> Inl e
         | Inr db' \<Rightarrow> Inr (touch_session_activity sid now db'))"

definition finalize_streaming_message :: "uuid \<Rightarrow> database \<Rightarrow> database" where
  "finalize_streaming_message msg_id db =
     fst (delete_messages (\<lambda>m. m_id m = msg_id \<and> m_status m = ''streaming'') db)"

definition get_last_user_message :: "uuid \<Rightarrow> database \<Rightarrow> bytes option" where
  "get_last_user_message sid db = map_option m_content (last_user_row sid db)"

definition empty_tool_calls :: "message_row \<Rightarrow> bool" where
  "empty_tool_calls m \<longleftrightarrow> m_tool_calls m = None \<or> m_tool_calls m = Some (JArray [])"

definition delete_empty_assistant_messages :: "uuid \<Rightarrow> database \<Rightarrow> database \<times> nat" where
  "delete_empty_assistant_messages sid db =
     delete_messages (\<lambda>m. m_session_id m = sid \<and> m_role m = ''assistant'' \<and> m_content m = []
                          \<and> empty_tool_calls m) db"

definition count_messages :: "uuid \<Rightarrow> database \<Rightarrow> nat" where
  "count_messages sid db = length (in_session sid (messages db))"

definition trim_session_messages :: "uuid \<Rightarrow> nat \<Rightarrow> database \<Rightarrow> database \<times> nat" where
  "trim_session_messages sid max_messages db =
     (if max_messages = 0 then (db, 0)
      else let keep = set (map m_id (take max_messages (rev (by_time (in_session sid (messages db))))))
           in delete_messages (\<lambda>m. m_session_id m = sid \<and> m_id m \<notin> keep) db)"

section \<open>Run status\<close>

definition set_session_run_status :: "uuid \<Rightarrow> bytes \<Rightarrow> database \<Rightarrow> database" where
  "set_session_run_status sid status db =
     fst (update_sessions (\<lambda>s. s_id s = sid \<and> s_run_status s \<noteq> Some ''done'')
           (\<lambda>s. s\<lparr>s_run_status := Some status\<rparr>) db)"

text \<open>Whether the warning is logged.\<close>

definition warn_invalid_transition :: "session_status option \<Rightarrow> session_status \<Rightarrow> bool" where
  "warn_invalid_transition from to = (case from of Some f \<Rightarrow> \<not> can_transition_to f to | None \<Rightarrow> False)"

definition claim_session_running :: "uuid \<Rightarrow> database \<Rightarrow> database \<times> bool" where
  "claim_session_running sid db =
     (let (db', n) = update_sessions (\<lambda>s. s_id s = sid) (\<lambda>s. s\<lparr>s_run_status := Some ''running''\<rparr>) db
      in (db', 0 < n))"

definition interrupt_streaming :: "message_row \<Rightarrow> message_row" where
  "interrupt_streaming m =
     m\<lparr>m_status := ''interrupted'', m_content := (if m_content m = [] then ''[interrupted]'' else m_content m)\<rparr>"

definition cleanup_session_streaming_messages :: "uuid \<Rightarrow> database \<Rightarrow> database \<times> nat" where
  "cleanup_session_streaming_messages sid db =
     update_messages (\<lambda>m. m_session_id m = sid \<and> m_status m = ''streaming'') interrupt_streaming db"

definition mark_session_run_status_if_running :: "uuid \<Rightarrow> bytes \<Rightarrow> database \<Rightarrow> database \<times> nat" where
  "mark_session_run_status_if_running sid new_status db =
     update_sessions (\<lambda>s. s_id s = sid \<and> s_run_status s = Some ''running'')
       (\<lambda>s. s\<lparr>s_run_status := Some new_status\<rparr>) db"

definition last_activity :: "session_row \<Rightarrow> instant" where
  "last_activity s = unwrap_or (s_activity_at s) (s_last_message_at s)"

definition find_stale_running_sessions :: "instant \<Rightarrow> nat \<Rightarrow> database \<Rightarrow> (uuid \<times> bytes) list" where
  "find_stale_running_sessions now inactivity_secs db =
     map (\<lambda>s. (s_id s, s_agent_id s))
       (filter (\<lambda>s. s_run_status s = Some ''running'' \<and> last_activity s + from_secs inactivity_secs < now)
          (sessions db))"

definition latest_message :: "uuid \<Rightarrow> database \<Rightarrow> message_row option" where
  "latest_message sid db =
     (case rev (by_time (in_session sid (messages db))) of [] \<Rightarrow> None | m # _ \<Rightarrow> Some m)"

definition find_stuck_sessions :: "instant \<Rightarrow> nat \<Rightarrow> int \<Rightarrow> database \<Rightarrow> (uuid \<times> bytes) list" where
  "find_stuck_sessions now stale_secs max_retries db =
     map (\<lambda>s. (s_id s, s_agent_id s))
       (filter (\<lambda>s. s_retry_count s < max_retries \<and> last_activity s + from_secs stale_secs < now
          \<and> (case latest_message (s_id s) db of
               None \<Rightarrow> False
             | Some m \<Rightarrow>
                 (s_run_status s = Some ''running'' \<and> m_role m = ''user'')
                 \<or> (s_run_status s = Some ''done'' \<and> m_role m = ''assistant'' \<and> m_content m = []
                    \<and> empty_tool_calls m)))
          (sessions db))"

definition increment_retry_count :: "uuid \<Rightarrow> database \<Rightarrow> database \<times> int option" where
  "increment_retry_count sid db =
     (let P = (\<lambda>s. s_id s = sid \<and> (s_run_status s = Some ''running'' \<or> s_run_status s = Some ''done''));
          (db', n) = update_sessions P
            (\<lambda>s. s\<lparr>s_retry_count := s_retry_count s + 1, s_run_status := Some ''running''\<rparr>) db
      in (db', if n = 0 then None else map_option s_retry_count (get_session sid db')))"

definition mark_session_failed :: "uuid \<Rightarrow> database \<Rightarrow> database" where
  "mark_session_failed sid db =
     fst (update_sessions (\<lambda>s. s_id s = sid) (\<lambda>s. s\<lparr>s_run_status := Some ''failed''\<rparr>) db)"

section \<open>Transcript repair\<close>

definition interrupted_result :: bytes where
  "interrupted_result =
     ''[interrupted] Tool execution was interrupted (process restart). Result unavailable.''"

text \<open>The ids of the calls in a \<open>tool_calls\<close> value; entries without a string id are skipped.\<close>

definition call_ids :: "json option \<Rightarrow> bytes list" where
  "call_ids tool_calls = (case tool_calls of
       Some (JArray calls) \<Rightarrow> List.map_filter (\<lambda>c. Option.bind (json_get c ''id'') json_as_str) calls
     | _ \<Rightarrow> [])"

definition assistant_rows :: "uuid \<Rightarrow> database \<Rightarrow> message_row list" where
  "assistant_rows sid db = by_time (filter (\<lambda>m. m_role m = ''assistant'') (in_session sid (messages db)))"

definition all_call_ids :: "uuid \<Rightarrow> database \<Rightarrow> bytes list" where
  "all_call_ids sid db =
     concat (map (\<lambda>m. call_ids (m_tool_calls m)) (assistant_rows sid db))"

text \<open>\<open>jsonb_array_length\<close> is an error on a value that is not an array.\<close>

definition tool_calls_arrays :: "uuid \<Rightarrow> database \<Rightarrow> bool" where
  "tool_calls_arrays sid db =
     list_all (\<lambda>m. case m_tool_calls m of None \<Rightarrow> True | Some (JArray _) \<Rightarrow> True | Some _ \<Rightarrow> False)
       (assistant_rows sid db)"

definition answered_call_ids :: "uuid \<Rightarrow> database \<Rightarrow> bytes set" where
  "answered_call_ids sid db =
     set (List.map_filter m_tool_call_id (filter (\<lambda>m. m_role m = ''tool'') (in_session sid (messages db))))"

text \<open>One INSERT per call id; \<open>fresh i\<close> is the id of the \<open>i\<close>-th new row. The rows written before
  an error are in the resulting tables.\<close>

fun insert_tool_rows ::
  "(nat \<Rightarrow> uuid) \<Rightarrow> instant \<Rightarrow> uuid \<Rightarrow> nat \<Rightarrow> bytes list \<Rightarrow> database \<Rightarrow> database \<times> (db_error, unit) result" where
  "insert_tool_rows fresh now sid i [] db = (db, Inr ())"
| "insert_tool_rows fresh now sid i (c # cs) db =
     (case insert_message (new_row (fresh i) now sid ''tool'' interrupted_result None (Some c) None None None) db of
        Inl e \<Rightarrow> (db, Inl e)
      | Inr db' \<Rightarrow> insert_tool_rows fresh now sid (Suc i) cs db')"

text \<open>The chunked multi-row INSERT is one transaction: an error rolls all of it back.\<close>

definition insert_synthetic_tool_results ::
  "(nat \<Rightarrow> uuid) \<Rightarrow> instant \<Rightarrow> uuid \<Rightarrow> database \<Rightarrow> database \<times> (db_error, nat) result" where
  "insert_synthetic_tool_results fresh now sid db =
     (let missing = filter (\<lambda>c. c \<notin> answered_call_ids sid db) (all_call_ids sid db)
      in if \<not> tool_calls_arrays sid db then (db, Inl NotAnArray)
         else if missing = [] then (db, Inr 0)
         else case insert_tool_rows fresh now sid 0 missing db of
                (_, Inl e) \<Rightarrow> (db, Inl e)
              | (db', Inr _) \<Rightarrow> (db', Inr (length missing)))"

definition insert_missing_tool_results ::
  "(nat \<Rightarrow> uuid) \<Rightarrow> instant \<Rightarrow> uuid \<Rightarrow> bytes list \<Rightarrow> database \<Rightarrow> database \<times> (db_error, unit) result" where
  "insert_missing_tool_results fresh now sid ids db = insert_tool_rows fresh now sid 0 ids db"

section \<open>Clean-up\<close>

definition needs_cleanup :: "database \<Rightarrow> session_row \<Rightarrow> bool" where
  "needs_cleanup db s \<longleftrightarrow> s_run_status s = Some ''running''
     \<or> (\<exists>m \<in> set (messages db). m_session_id m = s_id s \<and> m_status m = ''streaming'')"

text \<open>The database calls of a batch of the clean-up; the insertion of the results of one session is one
  transaction. \<open>fails\<close> says which calls of the batch fail: a failed call changes nothing, and the failures
  of a single session are logged and passed over.\<close>

datatype cleanup_call =
    SelectCall
  | RepairCall uuid
  | StreamingCall uuid
  | StatusCall uuid
  | StaleCall
  | MetadataCall

definition cleanup_one ::
  "(cleanup_call \<Rightarrow> bool) \<Rightarrow> (uuid \<Rightarrow> nat \<Rightarrow> uuid) \<Rightarrow> instant \<Rightarrow> uuid \<Rightarrow> database \<Rightarrow> database" where
  "cleanup_one fails fresh now sid db =
     (let db1 = (if fails (RepairCall sid) then db else fst (insert_synthetic_tool_results (fresh sid) now sid db));
          db2 = (if fails (StreamingCall sid) then db1 else fst (cleanup_session_streaming_messages sid db1))
      in if fails (StatusCall sid) then db2 else set_session_run_status sid ''interrupted'' db2)"

definition stream_status :: "session_row \<Rightarrow> bytes option" where
  "stream_status s =
     Option.bind (Option.bind (Option.bind (s_metadata s) (\<lambda>m. json_get m ''ui_state''))
       (\<lambda>u. json_get u ''streamStatus'')) json_as_str"

definition set_stream_idle :: "json \<Rightarrow> json" where
  "set_stream_idle meta = (case meta of
       JObject kvs \<Rightarrow> (case map_of kvs ''ui_state'' of
           Some (JObject ui) \<Rightarrow>
             JObject (obj_insert ''ui_state'' (JObject (obj_insert ''streamStatus'' (JString ''idle'') ui)) kvs)
         | _ \<Rightarrow> meta)
     | _ \<Rightarrow> meta)"

definition cleanup_candidates :: "database \<Rightarrow> uuid list" where
  "cleanup_candidates db = map s_id (filter (needs_cleanup db) (sessions db))"

text \<open>The result is \<open>None\<close> when the selection or the final update of the status fails, which the function
  returns as its error.\<close>

definition cleanup_interrupted_sessions ::
  "(cleanup_call \<Rightarrow> bool) \<Rightarrow> (uuid \<Rightarrow> nat \<Rightarrow> uuid) \<Rightarrow> instant \<Rightarrow> database \<Rightarrow> database \<times> nat option" where
  "cleanup_interrupted_sessions fails fresh now db =
     (if fails SelectCall then (db, None)
      else
        let interrupted = take 100 (cleanup_candidates db);
            db1 = foldl (\<lambda>d sid. cleanup_one fails fresh now sid d) db interrupted
        in if fails StaleCall then (db1, None)
           else
             let db2 = fst (update_sessions (\<lambda>s. s_run_status s = Some ''running''
                                               \<and> last_activity s + from_secs (30 * 60) < now)
                            (\<lambda>s. s\<lparr>s_run_status := Some ''interrupted''\<rparr>) db1);
                 db3 = (if fails MetadataCall then db2
                        else fst (update_sessions (\<lambda>s. stream_status s = Some ''streaming'')
                                    (\<lambda>s. s\<lparr>s_metadata := map_option set_stream_idle (s_metadata s)\<rparr>) db2))
             in (db3, Some (length interrupted)))"

text \<open>The start-up loop of \<open>main.rs\<close>: batches until one finds nothing or fails. \<open>fails k\<close>, \<open>fresh k\<close> and \<open>now k\<close>
  are the failing calls, the new row ids and the clock of batch \<open>k\<close>; \<open>None\<close> when the fuel is used up first.\<close>

fun startup_cleanup ::
  "nat \<Rightarrow> (nat \<Rightarrow> cleanup_call \<Rightarrow> bool) \<Rightarrow> (nat \<Rightarrow> uuid \<Rightarrow> nat \<Rightarrow> uuid) \<Rightarrow> (nat \<Rightarrow> instant) \<Rightarrow> nat \<Rightarrow> database
    \<Rightarrow> database option" where
  "startup_cleanup 0 fails fresh now k db = None"
| "startup_cleanup (Suc fuel) fails fresh now k db =
     (case cleanup_interrupted_sessions (fails k) (fresh k) (now k) db of
        (db', None) \<Rightarrow> Some db'
      | (db', Some cleaned) \<Rightarrow> if cleaned = 0 then Some db' else startup_cleanup fuel fails fresh now (Suc k) db')"

definition cleanup_old_sessions :: "instant \<Rightarrow> nat \<Rightarrow> database \<Rightarrow> database \<times> nat" where
  "cleanup_old_sessions now ttl_days db =
     (if ttl_days = 0 then (db, 0)
      else delete_sessions (\<lambda>s. s_last_message_at s + hours (24 * ttl_days) < now) db)"

text \<open>The row number of a session among the idle sessions of its agent, most recent first.\<close>

definition idle_sessions :: "bytes \<Rightarrow> database \<Rightarrow> session_row list" where
  "idle_sessions agent_id db =
     rev (sort_key s_last_message_at
       (filter (\<lambda>s. s_agent_id s = agent_id \<and> s_run_status s \<noteq> Some ''running'') (sessions db)))"

definition cleanup_excess_sessions_per_agent :: "nat \<Rightarrow> database \<Rightarrow> database \<times> nat" where
  "cleanup_excess_sessions_per_agent max_per_agent db =
     (if max_per_agent = 0 then (db, 0)
      else delete_sessions
             (\<lambda>s. s_id s \<in> set (map s_id (drop max_per_agent (idle_sessions (s_agent_id s) db)))) db)"

definition delete_session :: "uuid \<Rightarrow> database \<Rightarrow> database" where
  "delete_session sid db = fst (delete_sessions (\<lambda>s. s_id s = sid) db)"

section \<open>Branches\<close>

definition find_message :: "uuid \<Rightarrow> uuid \<Rightarrow> database \<Rightarrow> message_row option" where
  "find_message sid i db = find (\<lambda>m. m_id m = i \<and> m_session_id m = sid) (messages db)"

text \<open>The recursive CTE: leaf first. \<open>None\<close> is a query that does not end.\<close>

fun parent_chain :: "nat \<Rightarrow> uuid \<Rightarrow> uuid option \<Rightarrow> database \<Rightarrow> message_row list option" where
  "parent_chain fuel sid None db = Some []"
| "parent_chain 0 sid (Some i) db = None"
| "parent_chain (Suc fuel) sid (Some i) db = (case find_message sid i db of
       None \<Rightarrow> Some []
     | Some m \<Rightarrow> map_option ((#) m) (parent_chain fuel sid (m_parent m) db))"

definition load_branch_messages :: "uuid \<Rightarrow> uuid \<Rightarrow> database \<Rightarrow> message_row list option" where
  "load_branch_messages sid leaf db =
     map_option by_time (parent_chain (Suc (length (messages db))) sid (Some leaf) db)"

definition is_leaf :: "uuid \<Rightarrow> database \<Rightarrow> message_row \<Rightarrow> bool" where
  "is_leaf sid db m \<longleftrightarrow> (\<forall>c \<in> set (messages db). m_session_id c = sid \<longrightarrow> m_parent c \<noteq> Some (m_id m))"

definition resolve_active_path :: "uuid \<Rightarrow> uuid option \<Rightarrow> database \<Rightarrow> message_row list option" where
  "resolve_active_path sid leaf_message_id db = (case leaf_message_id of
       Some leaf \<Rightarrow> load_branch_messages sid leaf db
     | None \<Rightarrow>
         (case rev (by_time (filter (is_leaf sid db) (in_session sid (messages db)))) of
            m # _ \<Rightarrow> load_branch_messages sid (m_id m) db
          | [] \<Rightarrow> Some (load_messages sid None db)))"

definition find_parent_of_message :: "uuid \<Rightarrow> uuid \<Rightarrow> database \<Rightarrow> uuid option" where
  "find_parent_of_message sid i db = (case find_message sid i db of
       Some m \<Rightarrow> m_parent m
     | None \<Rightarrow>
         (case find (\<lambda>m. m_id m = i) (messages db) of
            None \<Rightarrow> None
          | Some other \<Rightarrow>
              (case rev (by_time (filter (\<lambda>m. m_created_at m < m_created_at other)
                                    (in_session sid (messages db)))) of
                 [] \<Rightarrow> None | m # _ \<Rightarrow> Some (m_id m))))"

definition save_message_branched ::
  "uuid \<Rightarrow> instant \<Rightarrow> uuid \<Rightarrow> bytes \<Rightarrow> bytes \<Rightarrow> json option \<Rightarrow> bytes option \<Rightarrow> bytes option \<Rightarrow> json option
     \<Rightarrow> uuid option \<Rightarrow> uuid option \<Rightarrow> database \<Rightarrow> (db_error, database) result" where
  "save_message_branched new_id now sid role content tool_calls tool_call_id agent_id thinking_blocks
       parent_message_id branch_from_message_id db =
     insert_message ((new_row new_id now sid role content tool_calls tool_call_id agent_id thinking_blocks
       parent_message_id)\<lparr>m_branch_from := branch_from_message_id\<rparr>) db"

definition MAX_PARTIAL_BYTES :: nat where
  "MAX_PARTIAL_BYTES = 256 * 1024"

definition truncate_partial :: "bytes \<Rightarrow> bytes" where
  "truncate_partial content =
     (if length content \<le> MAX_PARTIAL_BYTES then content
      else take (floor_char_boundary content MAX_PARTIAL_BYTES) content)"

definition insert_assistant_partial ::
  "uuid \<Rightarrow> instant \<Rightarrow> uuid \<Rightarrow> bytes option \<Rightarrow> bytes \<Rightarrow> bytes option \<Rightarrow> uuid option \<Rightarrow> database
     \<Rightarrow> (db_error, database) result" where
  "insert_assistant_partial new_id now sid agent_id content abort_reason parent_message_id db =
     insert_message ((new_row new_id now sid ''assistant'' (truncate_partial content) None None agent_id None
       parent_message_id)\<lparr>m_status := ''aborted'', m_abort_reason := abort_reason\<rparr>) db"

section \<open>The write-ahead log\<close>

record wal_event =
  ev_id :: nat
  ev_session_id :: uuid
  ev_type :: bytes
  ev_payload :: "json option"
  ev_created_at :: instant

definition log_event :: "nat \<Rightarrow> instant \<Rightarrow> uuid \<Rightarrow> bytes \<Rightarrow> json option \<Rightarrow> wal_event list \<Rightarrow> wal_event list" where
  "log_event new_id now sid event_type payload wal =
     wal @ [\<lparr>ev_id = new_id, ev_session_id = sid, ev_type = event_type, ev_payload = payload, ev_created_at = now\<rparr>]"

definition prune_batch :: "instant \<Rightarrow> nat \<Rightarrow> nat \<Rightarrow> wal_event list \<Rightarrow> wal_event list \<times> nat" where
  "prune_batch now days batch wal =
     (let old = take batch (sort_key ev_id (filter (\<lambda>e. ev_created_at e + hours (24 * days) < now) wal));
          gone = set (map ev_id old)
      in (filter (\<lambda>e. ev_id e \<notin> gone) wal, length (filter (\<lambda>e. ev_id e \<in> gone) wal)))"

text \<open>The batch loop; \<open>None\<close> when the fuel is used up first.\<close>

fun prune_loop :: "nat \<Rightarrow> instant \<Rightarrow> nat \<Rightarrow> nat \<Rightarrow> nat \<Rightarrow> wal_event list \<Rightarrow> (wal_event list \<times> nat) option" where
  "prune_loop 0 now days batch deleted wal = None"
| "prune_loop (Suc fuel) now days batch deleted wal =
     (let (wal', affected) = prune_batch now days batch wal;
          deleted' = deleted + affected
      in if affected < batch then Some (wal', deleted')
         else prune_loop fuel now days batch deleted' wal')"

definition prune_old_events_batched ::
  "nat \<Rightarrow> instant \<Rightarrow> nat \<Rightarrow> int \<Rightarrow> wal_event list \<Rightarrow> (bytes, wal_event list \<times> nat) result option" where
  "prune_old_events_batched fuel now days batch_size wal =
     (if days = 0 then Some (Inr (wal, 0))
      else if batch_size \<le> 0 then Some (Inl ''batch_size must be > 0'')
      else map_option Inr (prune_loop fuel now days (nat batch_size) 0 wal))"

text \<open>\<open>payload->>'tool_name'\<close> and \<open>(payload->>'success')::bool\<close>, a missing flag counting as success.
  The payloads of \<open>tool_end\<close> events hold a string and a boolean there; other JSON values, which SQL
  would convert to text, are not followed.\<close>

definition load_tool_events :: "uuid \<Rightarrow> wal_event list \<Rightarrow> (bytes \<times> bool) list" where
  "load_tool_events sid wal =
     List.map_filter
       (\<lambda>e. case Option.bind (ev_payload e) (\<lambda>p. json_get p ''tool_name'') of
              Some (JString name) \<Rightarrow>
                Some (name, unwrap_or (Option.bind (Option.bind (ev_payload e) (\<lambda>p. json_get p ''success'')) json_as_bool) True)
            | _ \<Rightarrow> None)
       (sort_key ev_created_at (filter (\<lambda>e. ev_session_id e = sid \<and> ev_type e = ''tool_end'') wal))"

end
