(* ===== verification/Tool_Batch.thy ===== *)
theory Tool_Batch
  imports Tool_Loop History Session_Store
begin

text \<open>
  \<open>agent/pipeline/parallel.rs\<close>: the execution of one batch of tool calls. Calls found in the semantic
  cache are not executed; the others are partitioned into a parallel and a sequential group. Every
  executed call is recorded in the loop detector and the write-ahead log, and its result is persisted
  under an id generated beforehand. What the batch does to the log, the cache and the message table is a
  list of effects in the order in which the code starts them. The executor is an argument: \<open>b_exec i\<close> is the
  answer to call \<open>i\<close>, or \<open>None\<close> when it does not come within the timeout.
\<close>

section \<open>Predicates and arguments\<close>

definition is_system_tool_parallel_safe :: "bytes \<Rightarrow> bool" where
  "is_system_tool_parallel_safe name \<longleftrightarrow> name \<in> set
     [''web_fetch'', ''memory'', ''workspace_read'', ''workspace_list'', ''tool_list'', ''skill'', ''session'',
      ''canvas'', ''rich_card'', ''agent'']"

definition is_tool_cacheable :: "bytes \<Rightarrow> bool" where
  "is_tool_cacheable name \<longleftrightarrow> name \<in> set [''searxng_search'', ''brave_search'', ''browser_render'', ''web_search'']"

definition enrich_tool_args :: "json \<Rightarrow> json \<Rightarrow> bytes \<Rightarrow> bytes \<Rightarrow> json" where
  "enrich_tool_args args context session_id channel = (case args of
       JObject obj \<Rightarrow>
         let ctx = (if context = JNull then JObject [] else context);
             ctx' = (case ctx of
                 JObject ctx_obj \<Rightarrow>
                   JObject (obj_insert ''_channel'' (JString channel)
                     (obj_insert ''session_id'' (JString session_id) ctx_obj))
               | _ \<Rightarrow> ctx)
         in JObject (obj_insert ''_context'' ctx' obj)
     | _ \<Rightarrow> args)"

definition query_text :: "tool_call \<Rightarrow> bytes" where
  "query_text tc =
     unwrap_or (Option.bind
       (case json_get (tc_arguments tc) ''query'' of Some v \<Rightarrow> Some v | None \<Rightarrow> json_get (tc_arguments tc) ''url'')
       json_as_str) []"

section \<open>The environment of a batch\<close>

record batch_env =
  b_hasher :: "bytes \<Rightarrow> bytes \<Rightarrow> 64 word"
  b_ser :: "json \<Rightarrow> bytes"
  b_lower :: "bytes \<Rightarrow> bytes"
  b_needs_approval :: "bytes \<Rightarrow> bool"
  yaml_tools :: "bytes \<rightharpoonup> bool \<times> bool"
  embedder_available :: bool
  cache_check :: "bytes \<Rightarrow> bytes \<Rightarrow> bytes option"
  b_exec :: "nat \<Rightarrow> bytes \<Rightarrow> json \<Rightarrow> bytes option"
  agent_safety_timeout :: nat
  fresh_id :: "nat \<Rightarrow> uuid"
  b_context :: json
  b_session_id :: bytes
  b_channel :: bytes
  b_model :: bytes
  current_context_chars :: nat
  b_detect_loops :: bool
  persist_ctx :: "(bytes \<times> uuid option) option"

text \<open>\<open>yaml_tools\<close> gives a tool's \<open>parallel\<close> flag and whether it has a channel action.\<close>

datatype effect =
    Wal bytes json
  | CacheStore bytes bytes bytes nat
  | PersistTool uuid bytes bytes bytes "uuid option"

record batch_state =
  bs_detector :: loop_detector
  bs_results :: "bytes option list"
  bs_ids :: "uuid option list"
  bs_parent :: "uuid option"
  bs_effects :: "effect list"

datatype batch_flow = Panicked batch_state | Broke bytes batch_state | Continue batch_state

record tool_batch_result =
  br_tool_call_id :: bytes
  br_result :: bytes
  br_tool_msg_id :: "uuid option"

section \<open>Payloads of the log\<close>

definition hex_digit :: "nat \<Rightarrow> char" where
  "hex_digit n = (if n < 10 then char_of (48 + n) else char_of (87 + n))"

fun show_hex :: "nat \<Rightarrow> bytes" where
  "show_hex n = (if n < 16 then [hex_digit n] else show_hex (n div 16) @ [hex_digit (n mod 16)])"

definition start_payload :: "batch_env \<Rightarrow> tool_call \<Rightarrow> json" where
  "start_payload env tc =
     JObject [(''tool_call_id'', JString (tc_id tc)), (''tool_name'', JString (tc_name tc)),
       (''args_hash'', JString (show_hex (unat (hash_call (b_hasher env) (b_ser env) (tc_name tc) (tc_arguments tc)))))]"

definition wal_success :: "(bytes \<Rightarrow> bytes) \<Rightarrow> bytes \<Rightarrow> bool" where
  "wal_success low res \<longleftrightarrow> \<not> contains (low res) ''error'' \<and> \<not> contains (low res) ''failed''"

definition end_payload :: "batch_env \<Rightarrow> tool_call \<Rightarrow> bytes \<Rightarrow> json" where
  "end_payload env tc res =
     JObject [(''tool_call_id'', JString (tc_id tc)), (''tool_name'', JString (tc_name tc)),
       (''success'', JBool (wal_success (b_lower env) res))]"

section \<open>Steps\<close>

definition is_err :: "bytes \<Rightarrow> bool" where
  "is_err res \<longleftrightarrow> starts_with res ''Error:'' \<or> starts_with res ''tool error:''"

definition exec_success :: "bytes \<Rightarrow> bool" where
  "exec_success res \<longleftrightarrow> \<not> is_err res \<and> \<not> contains res ''timed out''"

text \<open>The cached answer of a call, looked up only for a cacheable tool with a query.\<close>

definition cache_hit :: "batch_env \<Rightarrow> tool_call \<Rightarrow> bytes option" where
  "cache_hit env tc =
     (if is_tool_cacheable (tc_name tc) \<and> embedder_available env \<and> query_text tc \<noteq> []
      then cache_check env (tc_name tc) (query_text tc) else None)"

definition is_parallel :: "batch_env \<Rightarrow> tool_call \<Rightarrow> bool" where
  "is_parallel env tc =
     (if is_system_tool_parallel_safe (tc_name tc) then True
      else if b_needs_approval env (tc_name tc) then False
      else case yaml_tools env (tc_name tc) of
             Some (par, has_action) \<Rightarrow> par \<and> \<not> has_action
           | None \<Rightarrow> False)"

definition parallel_indices :: "batch_env \<Rightarrow> tool_call list \<Rightarrow> nat list" where
  "parallel_indices env calls =
     filter (\<lambda>i. cache_hit env (calls ! i) = None \<and> is_parallel env (calls ! i)) [0..<length calls]"

definition sequential_indices :: "batch_env \<Rightarrow> tool_call list \<Rightarrow> nat list" where
  "sequential_indices env calls =
     filter (\<lambda>i. cache_hit env (calls ! i) = None \<and> \<not> is_parallel env (calls ! i)) [0..<length calls]"

definition timeout_secs :: "batch_env \<Rightarrow> bytes \<Rightarrow> nat" where
  "timeout_secs env name = (if name = ''agent'' then agent_safety_timeout env else 120)"

text \<open>The answer or the timeout text, truncated; \<open>None\<close> is a panic of the truncation.\<close>

definition run_tool :: "batch_env \<Rightarrow> tool_call list \<Rightarrow> nat \<Rightarrow> bytes option" where
  "run_tool env calls i =
     (let tc = calls ! i;
          args = enrich_tool_args (tc_arguments tc) (b_context env) (b_session_id env) (b_channel env);
          raw = (case b_exec env i (tc_name tc) args of
              Some r \<Rightarrow> r
            | None \<Rightarrow> ''Tool '' @ tick @ tc_name tc @ tick @ '' timed out after ''
                      @ show_nat (timeout_secs env (tc_name tc)) @ ''s'')
      in truncate_tool_result (b_model env) raw (current_context_chars env))"

definition emit :: "effect list \<Rightarrow> batch_state \<Rightarrow> batch_state" where
  "emit es st = st\<lparr>bs_effects := bs_effects st @ es\<rparr>"

definition record_detector :: "batch_env \<Rightarrow> tool_call \<Rightarrow> bytes \<Rightarrow> batch_state \<Rightarrow> batch_state" where
  "record_detector env tc res st =
     (if b_detect_loops env
      then st\<lparr>bs_detector := fst (record_execution (b_hasher env) (b_ser env) (bs_detector st) (tc_name tc)
                                   (tc_arguments tc) (exec_success res))\<rparr>
      else st)"

definition store_effects :: "tool_call \<Rightarrow> bytes \<Rightarrow> effect list" where
  "store_effects tc res =
     (if is_tool_cacheable (tc_name tc) \<and> \<not> is_err res \<and> query_text tc \<noteq> []
      then [CacheStore (tc_name tc) (query_text tc) res 3600] else [])"

text \<open>Record, store in the cache, set the result and log the end of the call: common to both groups.\<close>

definition finish_call :: "batch_env \<Rightarrow> tool_call list \<Rightarrow> nat \<Rightarrow> bytes \<Rightarrow> batch_state \<Rightarrow> batch_state" where
  "finish_call env calls i res st =
     (let tc = calls ! i;
          st1 = record_detector env tc res st;
          st2 = emit (store_effects tc res) st1;
          st3 = st2\<lparr>bs_results := (bs_results st2)[i := Some res]\<rparr>
      in emit [Wal ''tool_end'' (end_payload env tc res)] st3)"

definition loop_check :: "batch_env \<Rightarrow> tool_call \<Rightarrow> batch_state \<Rightarrow> loop_status" where
  "loop_check env tc st =
     (if b_detect_loops env then check_limits (b_hasher env) (b_ser env) (bs_detector st) (tc_name tc) (tc_arguments tc) else Ok)"

definition post_parallel ::
  "batch_env \<Rightarrow> tool_call list \<Rightarrow> uuid option \<Rightarrow> nat \<Rightarrow> bytes \<Rightarrow> batch_state \<Rightarrow> batch_flow" where
  "post_parallel env calls shared_parent i res st = (case loop_check env (calls ! i) st of
       Break reason \<Rightarrow> Broke reason st
     | Ok \<Rightarrow>
         let st1 = finish_call env calls i res st
         in Continue (case persist_ctx env of
              None \<Rightarrow> st1
            | Some (agent_name, _) \<Rightarrow>
                emit [PersistTool (fresh_id env i) agent_name (tc_id (calls ! i)) res shared_parent] st1))"

definition run_sequential :: "batch_env \<Rightarrow> tool_call list \<Rightarrow> nat \<Rightarrow> batch_state \<Rightarrow> batch_flow" where
  "run_sequential env calls i st = (case loop_check env (calls ! i) st of
       Break reason \<Rightarrow> Broke reason st
     | Ok \<Rightarrow>
         let st0 = emit [Wal ''tool_start'' (start_payload env (calls ! i))] st
         in case run_tool env calls i of
              None \<Rightarrow> Panicked st0
            | Some res \<Rightarrow>
                let st1 = finish_call env calls i res st0
                in Continue (case persist_ctx env of
                     None \<Rightarrow> st1
                   | Some (agent_name, _) \<Rightarrow>
                       let st2 = emit [PersistTool (fresh_id env i) agent_name (tc_id (calls ! i)) res (bs_parent st1)] st1
                       in st2\<lparr>bs_ids := (bs_ids st2)[i := Some (fresh_id env i)], bs_parent := Some (fresh_id env i)\<rparr>))"

fun each_call :: "('a \<Rightarrow> batch_state \<Rightarrow> batch_flow) \<Rightarrow> 'a list \<Rightarrow> batch_state \<Rightarrow> batch_flow" where
  "each_call f [] st = Continue st"
| "each_call f (x # xs) st = (case f x st of Continue st' \<Rightarrow> each_call f xs st' | r \<Rightarrow> r)"

section \<open>The batch\<close>

definition initial_state :: "batch_env \<Rightarrow> tool_call list \<Rightarrow> loop_detector \<Rightarrow> batch_state" where
  "initial_state env calls det =
     \<lparr>bs_detector = det, bs_results = map (cache_hit env) calls, bs_ids = replicate (length calls) None,
      bs_parent = Option.bind (persist_ctx env) snd, bs_effects = []\<rparr>"

text \<open>The ids of the parallel rows are allocated before the calls run and share the parent; the chain
  goes on from the last of them.\<close>

definition allocate_parallel :: "batch_env \<Rightarrow> nat list \<Rightarrow> batch_state \<Rightarrow> batch_state" where
  "allocate_parallel env par st =
     (if persist_ctx env = None then st
      else st\<lparr>bs_ids := foldl (\<lambda>ids i. ids[i := Some (fresh_id env i)]) (bs_ids st) par,
              bs_parent := (if par = [] then bs_parent st else Some (fresh_id env (last par)))\<rparr>)"

definition parallel_phase :: "batch_env \<Rightarrow> tool_call list \<Rightarrow> batch_state \<Rightarrow> batch_flow" where
  "parallel_phase env calls st =
     (let par = parallel_indices env calls
      in if par = [] then Continue st
         else
           let st1 = emit (map (\<lambda>i. Wal ''tool_start'' (start_payload env (calls ! i))) par) st;
               shared_parent = bs_parent st1;
               st2 = allocate_parallel env par st1
           in case those (map (run_tool env calls) par) of
                None \<Rightarrow> Panicked st2
              | Some rs \<Rightarrow> each_call (\<lambda>(i, res). post_parallel env calls shared_parent i res) (zip par rs) st2)"

definition reassemble :: "tool_call list \<Rightarrow> batch_state \<Rightarrow> tool_batch_result list" where
  "reassemble calls st =
     map (\<lambda>i. \<lparr>br_tool_call_id = tc_id (calls ! i), br_result = unwrap_or (bs_results st ! i) [],
               br_tool_msg_id = bs_ids st ! i\<rparr>) [0..<length calls]"

definition run_batch :: "batch_env \<Rightarrow> tool_call list \<Rightarrow> loop_detector \<Rightarrow> batch_flow" where
  "run_batch env calls det = (case parallel_phase env calls (initial_state env calls det) of
       Continue st \<Rightarrow> each_call (run_sequential env calls) (sequential_indices env calls) st
     | r \<Rightarrow> r)"

text \<open>The final value: \<open>None\<close> is a panic, \<open>Inl\<close> the loop break.\<close>

definition execute_tool_calls_partitioned ::
  "batch_env \<Rightarrow> tool_call list \<Rightarrow> loop_detector \<Rightarrow> (bytes, tool_batch_result list) result option" where
  "execute_tool_calls_partitioned env calls det = (case run_batch env calls det of
       Panicked _ \<Rightarrow> None
     | Broke reason _ \<Rightarrow> Some (Inl reason)
     | Continue st \<Rightarrow> Some (Inr (reassemble calls st)))"

section \<open>Detached persistence\<close>

text \<open>At most three attempts; an attempt is retried when its error text looks like a missing parent or a
  connection problem. The result is the number of attempts made and whether the row was written.\<close>

definition retryable :: "bytes \<Rightarrow> bool" where
  "retryable e \<longleftrightarrow> contains e ''foreign key'' \<or> contains e ''fkey'' \<or> contains e ''connection'' \<or> contains e ''pool''"

fun persist_loop :: "nat \<Rightarrow> (nat \<Rightarrow> (bytes, unit) result) \<Rightarrow> nat \<Rightarrow> nat \<times> bool" where
  "persist_loop 0 save n = (n, False)"
| "persist_loop (Suc left) save n = (case save n of
       Inr _ \<Rightarrow> (Suc n, True)
     | Inl e \<Rightarrow> if retryable e then persist_loop left save (Suc n) else (Suc n, False))"

definition spawn_persist_message_row :: "(nat \<Rightarrow> (bytes, unit) result) \<Rightarrow> nat \<times> bool" where
  "spawn_persist_message_row save = persist_loop 3 save 0"

section \<open>What a completed batch has done\<close>

definition set_all :: "(nat \<Rightarrow> 'v) \<Rightarrow> nat list \<Rightarrow> 'v list \<Rightarrow> 'v list" where
  "set_all g is vs = foldl (\<lambda>vs i. vs[i := g i]) vs is"

lemma set_all_simps [simp]:
  "set_all g [] vs = vs" "set_all g (i # is) vs = set_all g is (vs[i := g i])"
  by (simp_all add: set_all_def)

lemma set_all_length [simp]: "length (set_all g is vs) = length vs"
  by (induction "is" arbitrary: vs) simp_all

lemma set_all_nth: "j < length vs \<Longrightarrow> set_all g is vs ! j = (if j \<in> set is then g j else vs ! j)"
  by (induction "is" arbitrary: vs) (auto simp: nth_list_update)

definition is_persist :: "effect \<Rightarrow> bool" where
  "is_persist e = (case e of PersistTool _ _ _ _ _ \<Rightarrow> True | _ \<Rightarrow> False)"

definition persists :: "batch_state \<Rightarrow> effect list" where
  "persists st = filter is_persist (bs_effects st)"

definition wal_ends :: "batch_state \<Rightarrow> json list" where
  "wal_ends st = List.map_filter (\<lambda>e. case e of Wal t p \<Rightarrow> if t = ''tool_end'' then Some p else None | _ \<Rightarrow> None) (bs_effects st)"

lemma is_persist_simps [simp]:
  "\<not> is_persist (Wal t p)" "\<not> is_persist (CacheStore a b c d)" "is_persist (PersistTool u v w x y)"
  by (simp_all add: is_persist_def)

lemma emit_simps [simp]:
  "bs_detector (emit es st) = bs_detector st" "bs_results (emit es st) = bs_results st"
  "bs_ids (emit es st) = bs_ids st" "bs_parent (emit es st) = bs_parent st"
  "bs_effects (emit es st) = bs_effects st @ es" "persists (emit es st) = persists st @ filter is_persist es"
  by (simp_all add: emit_def persists_def)

lemma record_detector_simps [simp]:
  "bs_results (record_detector env tc res st) = bs_results st" "bs_ids (record_detector env tc res st) = bs_ids st"
  "bs_parent (record_detector env tc res st) = bs_parent st" "bs_effects (record_detector env tc res st) = bs_effects st"
  by (simp_all add: record_detector_def)

lemma finish_call_simps [simp]:
  "bs_results (finish_call env calls i res st) = (bs_results st)[i := Some res]"
  "bs_ids (finish_call env calls i res st) = bs_ids st"
  "bs_parent (finish_call env calls i res st) = bs_parent st"
  "bs_effects (finish_call env calls i res st) =
     bs_effects st @ store_effects (calls ! i) res @ [Wal ''tool_end'' (end_payload env (calls ! i) res)]"
  by (simp_all add: finish_call_def Let_def)

lemma store_effects_persist [simp]: "filter is_persist (store_effects tc res) = []"
  by (simp add: store_effects_def)

lemma finish_call_persists [simp]: "persists (finish_call env calls i res st) = persists st"
  by (simp add: persists_def)

text \<open>The rows a batch writes: the parallel ones below the shared parent, the sequential ones in a chain.\<close>

definition row_of :: "batch_env \<Rightarrow> tool_call list \<Rightarrow> bytes \<Rightarrow> nat \<Rightarrow> uuid option \<Rightarrow> effect" where
  "row_of env calls agent i p =
     PersistTool (fresh_id env i) agent (tc_id (calls ! i)) (unwrap_or (run_tool env calls i) []) p"

fun chain_rows :: "batch_env \<Rightarrow> tool_call list \<Rightarrow> bytes \<Rightarrow> uuid option \<Rightarrow> nat list \<Rightarrow> effect list" where
  "chain_rows env calls agent p [] = []"
| "chain_rows env calls agent p (i # is) =
     row_of env calls agent i p # chain_rows env calls agent (Some (fresh_id env i)) is"

definition par_rows :: "batch_env \<Rightarrow> tool_call list \<Rightarrow> uuid option \<Rightarrow> nat list \<Rightarrow> effect list" where
  "par_rows env calls p is = (case persist_ctx env of None \<Rightarrow> [] | Some (agent, _) \<Rightarrow> map (\<lambda>i. row_of env calls agent i p) is)"

definition seq_rows :: "batch_env \<Rightarrow> tool_call list \<Rightarrow> uuid option \<Rightarrow> nat list \<Rightarrow> effect list" where
  "seq_rows env calls p is = (case persist_ctx env of None \<Rightarrow> [] | Some (agent, _) \<Rightarrow> chain_rows env calls agent p is)"

lemma rows_Nil [simp]: "par_rows env calls p [] = []" "seq_rows env calls p [] = []"
  by (simp_all add: par_rows_def seq_rows_def split: option.splits)

lemma sequential_effect:
  assumes "each_call (run_sequential env calls) is st = Continue st'"
  shows "bs_results st' = set_all (run_tool env calls) is (bs_results st)
    \<and> (\<forall>i \<in> set is. run_tool env calls i \<noteq> None)
    \<and> bs_ids st' = (if persist_ctx env = None then bs_ids st else set_all (\<lambda>i. Some (fresh_id env i)) is (bs_ids st))
    \<and> persists st' = persists st @ seq_rows env calls (bs_parent st) is"
  using assms
proof (induction "is" arbitrary: st)
  case (Cons i "is")
  from Cons.prems obtain st1 where st1: "run_sequential env calls i st = Continue st1"
    "each_call (run_sequential env calls) is st1 = Continue st'"
    by (auto split: batch_flow.splits)
  from st1(1) obtain res where res: "run_tool env calls i = Some res"
    by (auto simp: run_sequential_def Let_def split: loop_status.splits option.splits)
  show ?case
  proof (cases "persist_ctx env")
    case None
    then have "bs_results st1 = (bs_results st)[i := Some res]" "bs_ids st1 = bs_ids st" "persists st1 = persists st"
      using st1(1) res by (auto simp: run_sequential_def Let_def split: loop_status.splits)
    then show ?thesis using Cons.IH[OF st1(2)] None res by (simp add: seq_rows_def)
  next
    case (Some c)
    obtain agent q where c: "c = (agent, q)" by fastforce
    have s1: "st1 = (emit [PersistTool (fresh_id env i) agent (tc_id (calls ! i)) res (bs_parent st)]
        (finish_call env calls i res (emit [Wal ''tool_start'' (start_payload env (calls ! i))] st)))
        \<lparr>bs_ids := (bs_ids st)[i := Some (fresh_id env i)], bs_parent := Some (fresh_id env i)\<rparr>"
      using st1(1) res Some c by (auto simp: run_sequential_def Let_def split: loop_status.splits)
    have "bs_results st1 = (bs_results st)[i := Some res]" "bs_ids st1 = (bs_ids st)[i := Some (fresh_id env i)]"
      "bs_parent st1 = Some (fresh_id env i)"
      "persists st1 = persists st @ [PersistTool (fresh_id env i) agent (tc_id (calls ! i)) res (bs_parent st)]"
      by (simp_all add: s1 persists_def)
    then show ?thesis using Cons.IH[OF st1(2)] Some c res by (simp add: row_of_def seq_rows_def)
  qed
qed simp

lemma those_Some: "those (map f xs) = Some ys \<longleftrightarrow> map f xs = map Some ys"
  by (induction xs arbitrary: ys) (auto split: option.splits simp: map_eq_Cons_conv Cons_eq_map_conv)

lemma parallel_effect:
  assumes "each_call (\<lambda>(i, res). post_parallel env calls p i res) (zip is rs) st = Continue st'"
    and "map (run_tool env calls) is = map Some rs"
  shows "bs_results st' = set_all (run_tool env calls) is (bs_results st)
    \<and> bs_ids st' = bs_ids st \<and> bs_parent st' = bs_parent st
    \<and> persists st' = persists st @ par_rows env calls p is"
  using assms
proof (induction "is" arbitrary: st rs)
  case (Cons i "is")
  then obtain res rs' where rs: "rs = res # rs'" "run_tool env calls i = Some res" "map (run_tool env calls) is = map Some rs'"
    by (auto simp: Cons_eq_map_conv)
  from Cons.prems(1) rs obtain st1 where st1: "post_parallel env calls p i res st = Continue st1"
    "each_call (\<lambda>(i, res). post_parallel env calls p i res) (zip is rs') st1 = Continue st'"
    by (auto split: batch_flow.splits)
  have "bs_results st1 = (bs_results st)[i := Some res]" "bs_ids st1 = bs_ids st" "bs_parent st1 = bs_parent st"
    "persists st1 = persists st @ par_rows env calls p [i]"
    using st1(1) rs(2)
    by (auto simp: post_parallel_def Let_def row_of_def par_rows_def split: loop_status.splits option.splits)
  moreover have "par_rows env calls p (i # is) = par_rows env calls p [i] @ par_rows env calls p is"
    by (simp add: par_rows_def split: option.splits)
  ultimately show ?case using Cons.IH[OF st1(2) rs(3)] rs(2) by simp
qed simp

lemma parallel_phase_effect:
  assumes "parallel_phase env calls st = Continue st'"
  shows "bs_results st' = set_all (run_tool env calls) (parallel_indices env calls) (bs_results st)
    \<and> (\<forall>i \<in> set (parallel_indices env calls). run_tool env calls i \<noteq> None)
    \<and> bs_ids st' = (if persist_ctx env = None then bs_ids st
        else set_all (\<lambda>i. Some (fresh_id env i)) (parallel_indices env calls) (bs_ids st))
    \<and> (persist_ctx env \<noteq> None \<longrightarrow> bs_parent st' = (if parallel_indices env calls = [] then bs_parent st
        else Some (fresh_id env (last (parallel_indices env calls)))))
    \<and> persists st' = persists st @ par_rows env calls (bs_parent st) (parallel_indices env calls)"
proof (cases "parallel_indices env calls = []")
  case True
  then show ?thesis using assms by (simp add: parallel_phase_def)
next
  case False
  let ?par = "parallel_indices env calls"
  let ?st2 = "allocate_parallel env ?par (emit (map (\<lambda>i. Wal ''tool_start'' (start_payload env (calls ! i))) ?par) st)"
  obtain rs where rs: "map (run_tool env calls) ?par = map Some rs"
    "each_call (\<lambda>(i, res). post_parallel env calls (bs_parent st) i res) (zip ?par rs) ?st2 = Continue st'"
    using assms False by (auto simp: parallel_phase_def Let_def those_Some split: option.splits)
  have "run_tool env calls i \<noteq> None" if "i \<in> set ?par" for i
  proof -
    have "run_tool env calls i \<in> set (map (run_tool env calls) ?par)" using that by simp
    then show ?thesis unfolding rs(1) by auto
  qed
  moreover have "persists ?st2 = persists st" "bs_results ?st2 = bs_results st"
    "bs_ids ?st2 = (if persist_ctx env = None then bs_ids st else set_all (\<lambda>i. Some (fresh_id env i)) ?par (bs_ids st))"
    "persist_ctx env \<noteq> None \<longrightarrow> bs_parent ?st2 = Some (fresh_id env (last ?par))"
    using False by (simp_all add: allocate_parallel_def set_all_def persists_def filter_map comp_def)
  ultimately show ?thesis using parallel_effect[OF rs(2,1)] False
    by (simp only: if_False simp_thms) (metis (lifting) allocate_parallel_def emit_simps(4))
qed

lemma indices_mem:
  "i \<in> set (parallel_indices env calls) \<longleftrightarrow> i < length calls \<and> cache_hit env (calls ! i) = None \<and> is_parallel env (calls ! i)"
  "i \<in> set (sequential_indices env calls) \<longleftrightarrow> i < length calls \<and> cache_hit env (calls ! i) = None \<and> \<not> is_parallel env (calls ! i)"
  by (auto simp: parallel_indices_def sequential_indices_def)

lemma run_batch_effect:
  assumes "run_batch env calls det = Continue st" "i < length calls"
  shows "bs_results st ! i = (case cache_hit env (calls ! i) of Some r \<Rightarrow> Some r | None \<Rightarrow> run_tool env calls i)"
    and "bs_results st ! i \<noteq> None"
    and "bs_ids st ! i = (if persist_ctx env = None \<or> cache_hit env (calls ! i) \<noteq> None then None else Some (fresh_id env i))"
proof -
  let ?par = "parallel_indices env calls" and ?seq = "sequential_indices env calls"
  from assms(1) obtain st1 where st1: "parallel_phase env calls (initial_state env calls det) = Continue st1"
    "each_call (run_sequential env calls) ?seq st1 = Continue st"
    by (auto simp: run_batch_def split: batch_flow.splits)
  note par = parallel_phase_effect[OF st1(1)] and seq = sequential_effect[OF st1(2)]
  have r: "bs_results st = set_all (run_tool env calls) ?seq (set_all (run_tool env calls) ?par (map (cache_hit env) calls))"
    using par seq by (simp add: initial_state_def)
  show res: "bs_results st ! i = (case cache_hit env (calls ! i) of Some r \<Rightarrow> Some r | None \<Rightarrow> run_tool env calls i)"
    using assms(2) by (auto simp: r set_all_nth indices_mem split: option.splits)
  show "bs_results st ! i \<noteq> None"
  proof -
    have "run_tool env calls i \<noteq> None" if "i \<in> set ?par \<or> i \<in> set ?seq" using that par seq by blast
    then show ?thesis using assms(2) by (auto simp: res indices_mem split: option.splits)
  qed
  have "bs_ids st = (if persist_ctx env = None then replicate (length calls) None
      else set_all (\<lambda>i. Some (fresh_id env i)) ?seq (set_all (\<lambda>i. Some (fresh_id env i)) ?par (replicate (length calls) None)))"
    using par seq by (simp add: initial_state_def)
  then show "bs_ids st ! i = (if persist_ctx env = None \<or> cache_hit env (calls ! i) \<noteq> None then None else Some (fresh_id env i))"
    using assms(2) by (auto simp: set_all_nth indices_mem)
qed

lemma run_batch_persists:
  assumes "run_batch env calls det = Continue st" "persist_ctx env = Some (agent, p)"
  shows "persists st = map (\<lambda>i. row_of env calls agent i p) (parallel_indices env calls)
    @ chain_rows env calls agent
        (if parallel_indices env calls = [] then p else Some (fresh_id env (last (parallel_indices env calls))))
        (sequential_indices env calls)"
proof -
  from assms(1) obtain st1 where st1: "parallel_phase env calls (initial_state env calls det) = Continue st1"
    "each_call (run_sequential env calls) (sequential_indices env calls) st1 = Continue st"
    by (auto simp: run_batch_def split: batch_flow.splits)
  have "bs_parent (initial_state env calls det) = p" "persists (initial_state env calls det) = []"
    using assms(2) by (simp_all add: initial_state_def persists_def)
  then show ?thesis
    using parallel_phase_effect[OF st1(1)] sequential_effect[OF st1(2)] assms(2)
    by (simp add: par_rows_def seq_rows_def)
qed

lemma reassemble_ids: "map br_tool_call_id (reassemble calls st) = map tc_id calls"
  by (rule nth_equalityI) (simp_all add: reassemble_def)

text \<open>C36: a completed batch has exactly one result per call, in the order of the calls whatever the
  partition was: the cached answer if there is one, and else the truncated answer of the tool. A call
  answered from the cache gets no message row.\<close>

theorem batch_results_complete:
  assumes "execute_tool_calls_partitioned env calls det = Some (Inr rs)"
  shows "map br_tool_call_id rs = map tc_id calls
    \<and> (\<forall>i < length calls. Some (br_result (rs ! i)) =
          (case cache_hit env (calls ! i) of Some r \<Rightarrow> Some r | None \<Rightarrow> run_tool env calls i))
    \<and> (\<forall>i < length calls. br_tool_msg_id (rs ! i) =
          (if persist_ctx env = None \<or> cache_hit env (calls ! i) \<noteq> None then None else Some (fresh_id env i)))"
proof -
  from assms obtain st where st: "run_batch env calls det = Continue st" "rs = reassemble calls st"
    by (auto simp: execute_tool_calls_partitioned_def split: batch_flow.splits)
  have ids: "map br_tool_call_id rs = map tc_id calls"
    by (simp add: st(2) reassemble_ids)
  have "Some (br_result (rs ! i)) = (case cache_hit env (calls ! i) of Some r \<Rightarrow> Some r | None \<Rightarrow> run_tool env calls i)"
    "br_tool_msg_id (rs ! i) =
          (if persist_ctx env = None \<or> cache_hit env (calls ! i) \<noteq> None then None else Some (fresh_id env i))"
    if "i < length calls" for i
    using run_batch_effect[OF st(1) that] that by (auto simp: st(2) reassemble_def unwrap_or_def split: option.splits)
  with ids show ?thesis by blast
qed

text \<open>An environment in which every tool answers \<open>ok\<close>, and two calls: a parallel and a sequential one.\<close>

definition sample_env :: batch_env where
  "sample_env = \<lparr>b_hasher = (\<lambda>_ _. 0), b_ser = (\<lambda>_. []), b_lower = id, b_needs_approval = (\<lambda>_. False), yaml_tools = Map.empty,
     embedder_available = False, cache_check = (\<lambda>_ _. None), b_exec = (\<lambda>_ _ _. Some ''ok''), agent_safety_timeout = 600,
     fresh_id = (\<lambda>i. 100 + i), b_context = JNull, b_session_id = ''s'', b_channel = ''ui'', b_model = ''m'',
     current_context_chars = 0, b_detect_loops = False, persist_ctx = Some (''A'', Some 1)\<rparr>"

definition sample_calls :: "tool_call list" where
  "sample_calls = [\<lparr>tc_id = ''c1'', tc_name = ''memory'', tc_arguments = JNull\<rparr>,
     \<lparr>tc_id = ''c2'', tc_name = ''code_exec'', tc_arguments = JNull\<rparr>]"

lemma run_tool_ok: "b_exec env = (\<lambda>_ _ _. Some ''ok'') \<Longrightarrow> run_tool env calls i = Some ''ok''"
proof -
  have "Suc (Suc 0) \<le> truncation_limit m c" for m c by (simp add: truncation_limit_def)
  then show "b_exec env = (\<lambda>_ _ _. Some ''ok'') \<Longrightarrow> ?thesis" by (simp add: run_tool_def truncate_tool_result_def Let_def)
qed

lemma sample_tool_run: "run_tool sample_env sample_calls i = Some ''ok''"
  by (rule run_tool_ok) (simp add: sample_env_def)

lemma sample_indices:
  "parallel_indices sample_env sample_calls = [0]" "sequential_indices sample_env sample_calls = [1]"
  by (simp_all add: parallel_indices_def sequential_indices_def sample_env_def sample_calls_def cache_hit_def
      is_parallel_def is_system_tool_parallel_safe_def upt_rec)

lemma sample_batch: "\<exists>st. run_batch sample_env sample_calls det = Continue st"
  by (simp add: run_batch_def parallel_phase_def sample_indices sample_tool_run post_parallel_def run_sequential_def
      loop_check_def Let_def) (simp add: sample_env_def)

theorem batch_results_complete_witness:
  "\<exists>rs. execute_tool_calls_partitioned sample_env sample_calls (detector_new tool_loop_config_default) = Some (Inr rs)
    \<and> map br_tool_call_id rs = [''c1'', ''c2'']"
proof -
  obtain rs where rs: "execute_tool_calls_partitioned sample_env sample_calls (detector_new tool_loop_config_default) = Some (Inr rs)"
    using sample_batch[of "detector_new tool_loop_config_default"] by (auto simp: execute_tool_calls_partitioned_def)
  have "map tc_id sample_calls = [''c1'', ''c2'']" by (simp add: sample_calls_def)
  then have "map br_tool_call_id rs = [''c1'', ''c2'']" using conjunct1[OF batch_results_complete[OF rs]] by (simp only:)
  then show ?thesis by (intro exI[of _ rs] conjI rs)
qed

text \<open>the rows of a completed batch. The results of the parallel group are written below the shared
  parent, as siblings; the sequential ones form a chain that starts at the last parallel row. There is one
  row for every executed call and none for a cached one.\<close>

theorem batch_rows:
  assumes "run_batch env calls det = Continue st" "persist_ctx env = Some (agent, p)"
  shows "persists st = map (\<lambda>i. row_of env calls agent i p) (parallel_indices env calls)
    @ chain_rows env calls agent
        (if parallel_indices env calls = [] then p else Some (fresh_id env (last (parallel_indices env calls))))
        (sequential_indices env calls)"
  by (rule run_batch_persists[OF assms])

theorem batch_rows_witness:
  "\<exists>st. run_batch sample_env sample_calls (detector_new tool_loop_config_default) = Continue st
    \<and> persists st = [PersistTool 100 ''A'' ''c1'' ''ok'' (Some 1), PersistTool 101 ''A'' ''c2'' ''ok'' (Some 100)]"
proof -
  obtain st where st: "run_batch sample_env sample_calls (detector_new tool_loop_config_default) = Continue st"
    using sample_batch by blast
  moreover have "persist_ctx sample_env = Some (''A'', Some 1)" by (simp add: sample_env_def)
  ultimately have "persists st = map (\<lambda>i. row_of sample_env sample_calls ''A'' i (Some 1)) [0]
      @ chain_rows sample_env sample_calls ''A'' (Some (fresh_id sample_env 0)) [1]"
    using batch_rows by (fastforce simp: sample_indices)
  then show ?thesis using st by (simp add: row_of_def sample_tool_run) (simp add: sample_env_def sample_calls_def)
qed

section \<open>The error threshold has no effect\<close>

definition with_threshold :: "nat \<Rightarrow> loop_detector \<Rightarrow> loop_detector" where
  "with_threshold k d = d\<lparr>error_break_threshold := k\<rparr>"

definition st_threshold :: "nat \<Rightarrow> batch_state \<Rightarrow> batch_state" where
  "st_threshold k st = st\<lparr>bs_detector := with_threshold k (bs_detector st)\<rparr>"

fun flow_threshold :: "nat \<Rightarrow> batch_flow \<Rightarrow> batch_flow" where
  "flow_threshold k (Panicked st) = Panicked (st_threshold k st)"
| "flow_threshold k (Broke r st) = Broke r (st_threshold k st)"
| "flow_threshold k (Continue st) = Continue (st_threshold k st)"

lemma record_call_threshold: "record_call h s (with_threshold k d) n a = with_threshold k (record_call h s d n a)"
  by (cases "last_hash d = Some (hash_call h s n a)"; cases "64 \<le> length (recent d)")
    (simp_all add: record_call_def with_threshold_def Let_def)

lemma record_result_threshold: "fst (record_result (with_threshold k d) n ok) = with_threshold k (fst (record_result d n ok))"
  by (cases ok; cases "last_error_tool d = Some n") (simp_all add: record_result_def with_threshold_def Let_def)

lemma record_execution_threshold:
  "fst (record_execution h s (with_threshold k d) n a ok) = with_threshold k (fst (record_execution h s d n a ok))"
  by (simp add: record_execution_def record_call_threshold record_result_threshold)

lemma loop_check_threshold: "loop_check env tc (st_threshold k st) = loop_check env tc st"
  by (simp add: loop_check_def check_limits_def st_threshold_def with_threshold_def)

lemma finish_call_threshold:
  "finish_call env calls i res (st_threshold k st) = st_threshold k (finish_call env calls i res st)"
  by (simp add: finish_call_def record_detector_def emit_def st_threshold_def record_execution_threshold Let_def)

lemma emit_threshold: "emit es (st_threshold k st) = st_threshold k (emit es st)"
  by (simp add: emit_def st_threshold_def)

lemma st_threshold_simps [simp]:
  "bs_results (st_threshold k st) = bs_results st" "bs_ids (st_threshold k st) = bs_ids st"
  "bs_parent (st_threshold k st) = bs_parent st"
  by (simp_all add: st_threshold_def)

lemma post_parallel_threshold:
  "post_parallel env calls p i res (st_threshold k st) = flow_threshold k (post_parallel env calls p i res st)"
  by (simp add: post_parallel_def loop_check_threshold finish_call_threshold emit_threshold Let_def
      split: loop_status.splits option.splits)

lemma run_sequential_threshold:
  "run_sequential env calls i (st_threshold k st) = flow_threshold k (run_sequential env calls i st)"
  by (simp add: run_sequential_def loop_check_threshold finish_call_threshold emit_threshold Let_def
      split: loop_status.splits option.splits) (simp add: st_threshold_def)

lemma each_call_threshold:
  assumes "\<And>x st. f x (st_threshold k st) = flow_threshold k (f x st)"
  shows "each_call f xs (st_threshold k st) = flow_threshold k (each_call f xs st)"
  by (induction xs arbitrary: st) (simp_all add: assms split: batch_flow.splits)

lemma parallel_phase_threshold:
  "parallel_phase env calls (st_threshold k st) = flow_threshold k (parallel_phase env calls st)"
proof -
  have "allocate_parallel env par (st_threshold k d) = st_threshold k (allocate_parallel env par d)" for par d
    by (simp add: allocate_parallel_def st_threshold_def)
  moreover have "each_call (\<lambda>(i, res). post_parallel env calls p i res) xs (st_threshold k d)
      = flow_threshold k (each_call (\<lambda>(i, res). post_parallel env calls p i res) xs d)" for p xs d
    by (rule each_call_threshold) (simp add: post_parallel_threshold split_beta)
  ultimately show ?thesis by (simp add: parallel_phase_def Let_def emit_threshold split: option.splits)
qed

lemma run_batch_threshold: "run_batch env calls (with_threshold k det) = flow_threshold k (run_batch env calls det)"
proof -
  have "initial_state env calls (with_threshold k det) = st_threshold k (initial_state env calls det)"
    by (simp add: initial_state_def st_threshold_def)
  then show ?thesis
    by (simp add: run_batch_def parallel_phase_threshold each_call_threshold run_sequential_threshold
        split: batch_flow.splits)
qed

text \<open>a batch behaves the same for every error threshold of the detector: the break that
  \<open>record_execution\<close> reports after a streak of failures is not read, so no streak of failing calls stops
  the tool loop.\<close>

theorem error_threshold_no_effect:
  "execute_tool_calls_partitioned env calls (det\<lparr>error_break_threshold := k\<rparr>) =
   execute_tool_calls_partitioned env calls det"
  using run_batch_threshold[of env calls k det]
  by (simp add: execute_tool_calls_partitioned_def reassemble_def with_threshold_def split: batch_flow.splits)

text \<open>the context the engine adds to the arguments of a call replaces any \<open>_context\<close> the model wrote,
  carries the session and channel of the engine, and leaves the other arguments alone.\<close>

theorem enrich_not_forgeable:
  assumes "ctx = JNull \<or> json_is_object ctx"
  shows "\<exists>c. json_get (enrich_tool_args (JObject args) ctx sid ch) ''_context'' = Some c
    \<and> json_get c ''session_id'' = Some (JString sid) \<and> json_get c ''_channel'' = Some (JString ch)
    \<and> json_get (enrich_tool_args (JObject other) ctx sid ch) ''_context'' = Some c
    \<and> (\<forall>k. k \<noteq> ''_context'' \<longrightarrow> json_get (enrich_tool_args (JObject args) ctx sid ch) k = json_get (JObject args) k)"
  using assms
  by (cases ctx) (simp_all add: enrich_tool_args_def json_get_def obj_defs json_is_object_def Let_def)

theorem enrich_not_forgeable_witness:
  "\<exists>c. json_get (enrich_tool_args (JObject [(''_context'', JString ''forged'')]) JNull ''s1'' ''ui'') ''_context'' = Some c
    \<and> json_get c ''session_id'' = Some (JString ''s1'')"
  using enrich_not_forgeable[of JNull "[(''_context'', JString ''forged'')]" "''s1''" "''ui''" "[]"] by auto

section \<open>Detached persistence\<close>

lemma persist_loop_result:
  "fst (persist_loop left save n) \<le> n + left
   \<and> (snd (persist_loop left save n) \<longleftrightarrow>
        (\<exists>k < left. save (n + k) = Inr () \<and> (\<forall>j < k. \<exists>e. save (n + j) = Inl e \<and> retryable e)))"
proof (induction left arbitrary: n)
  case (Suc left)
  have shift: "(\<exists>k < Suc left. save (n + k) = Inr () \<and> (\<forall>j < k. \<exists>e. save (n + j) = Inl e \<and> retryable e)) \<longleftrightarrow>
      save n = Inr () \<or> ((\<exists>e. save n = Inl e \<and> retryable e) \<and>
        (\<exists>k < left. save (Suc n + k) = Inr () \<and> (\<forall>j < k. \<exists>e. save (Suc n + j) = Inl e \<and> retryable e)))"
    unfolding Ex_less_Suc2 All_less_Suc2 by auto
  show ?case
  proof (cases "save n")
    case (Inl e)
    then show ?thesis using Suc[of "Suc n"] unfolding shift by auto
  next
    case (Inr u)
    then show ?thesis unfolding shift by simp
  qed
qed simp

text \<open>a row is written exactly when one of the first three attempts succeeds and every earlier one
  failed with an error that is retried, and there are never more than three attempts.\<close>

theorem persist_row_attempts:
  "fst (spawn_persist_message_row save) \<le> 3
   \<and> (snd (spawn_persist_message_row save) \<longleftrightarrow>
        (\<exists>k < 3. save k = Inr () \<and> (\<forall>j < k. \<exists>e. save j = Inl e \<and> retryable e)))"
  using persist_loop_result[of 3 save 0] by (simp add: spawn_persist_message_row_def)

end
