(* ===== verification/Llm_Errors.thy ===== *)
theory Llm_Errors
  imports Hyde_Types
begin

text \<open>
  \<open>agent/providers/error.rs\<close>, \<open>agent/error_classify.rs\<close> and the error texts of
  \<open>agent/localization.rs\<close>: the typed error of an LLM call, its classification for recovery, the
  texts shown to the user and the retry delays.

  The regular expression engine is a library: \<open>is_match pattern message\<close> and
  \<open>capture pattern message\<close> (the first group) are arguments, the patterns are the ones of the code.
  A floating-point product is a rational one, the random factor an argument.
\<close>

section \<open>Typed errors\<close>

datatype cancel_reason =
    CR_InactivityTimeout (silent_secs: nat)
  | CR_MaxDurationExceeded (elapsed_secs: nat)
  | CR_UserCancelled
  | CR_ShutdownDrain

datatype partial_state = Text bytes | ToolUse | ThinkingPart | Empty

definition is_resumable :: "partial_state \<Rightarrow> bool" where
  "is_resumable p \<longleftrightarrow> (case p of Text s \<Rightarrow> s \<noteq> [] | _ \<Rightarrow> False)"

definition partial_text :: "partial_state \<Rightarrow> bytes option" where
  "partial_text p = (case p of Text s \<Rightarrow> Some s | _ \<Rightarrow> None)"

text \<open>\<open>Network\<close> carries the text of the wrapped client error.\<close>

datatype llm_call_error =
    ConnectTimeout bytes nat
  | InactivityTimeout bytes nat partial_state
  | RequestTimeout bytes nat
  | MaxDurationExceeded bytes nat partial_state
  | UserCancelled partial_state
  | ShutdownDrain partial_state
  | SchemaError bytes bytes nat
  | AuthError bytes nat
  | Server5xx bytes nat
  | Network bytes

definition error_display :: "llm_call_error \<Rightarrow> bytes" where
  "error_display e = (case e of
       ConnectTimeout p n \<Rightarrow> p @ '': connect timed out after '' @ show_nat n @ ''s''
     | InactivityTimeout p n _ \<Rightarrow> p @ '': provider stopped sending data for '' @ show_nat n @ ''s''
     | RequestTimeout p n \<Rightarrow> p @ '': request timed out after '' @ show_nat n @ ''s''
     | MaxDurationExceeded p n _ \<Rightarrow> p @ '': stream exceeded max duration '' @ show_nat n @ ''s''
     | UserCancelled _ \<Rightarrow> ''stopped by user''
     | ShutdownDrain _ \<Rightarrow> ''interrupted by shutdown drain''
     | SchemaError p d n \<Rightarrow> p @ '': schema error at byte '' @ show_nat n @ '': '' @ d
     | AuthError p n \<Rightarrow> p @ '': auth failed with status '' @ show_nat n
     | Server5xx p n \<Rightarrow> p @ '': server returned '' @ show_nat n
     | Network t \<Rightarrow> ''network error: '' @ t)"

text \<open>What the classification reads of an HTTP client error.\<close>

record reqwest_error =
  re_is_connect :: bool
  re_is_timeout :: bool
  re_status :: "nat option"
  re_text :: bytes

definition classify_reqwest_err :: "reqwest_error \<Rightarrow> bytes \<Rightarrow> nat \<Rightarrow> nat \<Rightarrow> llm_call_error" where
  "classify_reqwest_err err provider connect_secs request_secs =
     (if re_is_connect err then ConnectTimeout provider connect_secs
      else if re_is_timeout err then RequestTimeout provider request_secs
      else case re_status err of
        Some code \<Rightarrow>
          if code = 401 \<or> code = 403 then AuthError provider code
          else if 500 \<le> code then Server5xx provider code
          else Network (re_text err)
      | None \<Rightarrow> Network (re_text err))"

definition is_failover_worthy :: "llm_call_error \<Rightarrow> bool" where
  "is_failover_worthy e = (case e of
       ConnectTimeout _ _ \<Rightarrow> True
     | RequestTimeout _ _ \<Rightarrow> True
     | Network _ \<Rightarrow> True
     | Server5xx _ _ \<Rightarrow> True
     | InactivityTimeout _ _ _ \<Rightarrow> False
     | MaxDurationExceeded _ _ _ \<Rightarrow> False
     | UserCancelled _ \<Rightarrow> False
     | ShutdownDrain _ \<Rightarrow> False
     | AuthError _ _ \<Rightarrow> False
     | SchemaError _ _ at_bytes \<Rightarrow> at_bytes = 0)"

definition error_partial_state :: "llm_call_error \<Rightarrow> partial_state option" where
  "error_partial_state e = (case e of
       InactivityTimeout _ _ p \<Rightarrow> Some p
     | MaxDurationExceeded _ _ p \<Rightarrow> Some p
     | UserCancelled p \<Rightarrow> Some p
     | ShutdownDrain p \<Rightarrow> Some p
     | _ \<Rightarrow> None)"

definition abort_reason :: "llm_call_error \<Rightarrow> bytes option" where
  "abort_reason e = (case e of
       ConnectTimeout _ _ \<Rightarrow> Some ''connect_timeout''
     | InactivityTimeout _ _ _ \<Rightarrow> Some ''inactivity''
     | RequestTimeout _ _ \<Rightarrow> Some ''request_timeout''
     | MaxDurationExceeded _ _ _ \<Rightarrow> Some ''max_duration''
     | UserCancelled _ \<Rightarrow> Some ''user_cancelled''
     | ShutdownDrain _ \<Rightarrow> Some ''shutdown_drain''
     | _ \<Rightarrow> None)"

text \<open>An \<open>anyhow::Error\<close> wraps a typed error, found again by \<open>downcast_ref\<close>, or any other text.\<close>

datatype anyhow_error = Typed llm_call_error | Untyped bytes

definition err_to_string :: "anyhow_error \<Rightarrow> bytes" where
  "err_to_string e = (case e of Typed t \<Rightarrow> error_display t | Untyped s \<Rightarrow> s)"

definition downcast :: "anyhow_error \<Rightarrow> llm_call_error option" where
  "downcast e = (case e of Typed t \<Rightarrow> Some t | Untyped _ \<Rightarrow> None)"

section \<open>Classification\<close>

datatype llm_error_class =
    ContextOverflow | SessionCorruption | TransientHttp | RateLimit | AuthPermanent | Billing
  | Overloaded | CallTimeout | Unknown

definition RE_CONTEXT_OVERFLOW :: bytes where
  "RE_CONTEXT_OVERFLOW =
     (''(?i)context.?length|token.?limit|too.many.token|input.too.long|prompt.is.t''
      @ ''oo.long|maximum.context|exceeds.the.model|request_too_large|context.overfl''
      @ ''ow|'' @ utf8 [0xE4, 0xB8, 0x8A, 0xE4, 0xB8, 0x8B, 0xE6, 0x96, 0x87])"

definition RE_SESSION_CORRUPTION :: bytes where
  "RE_SESSION_CORRUPTION =
     (''(?i)tool_use_block|tool_result.*not.*found|role.*ordering|roles.must.alter''
      @ ''nate|orphan.*tool|function.call.turn.comes.immediately|incorrect.role.info''
      @ ''rmation'')"

definition RE_TRANSIENT_HTTP :: bytes where
  "RE_TRANSIENT_HTTP =
     (''(?i)'' @ [CHR 0x5C] @ ''b(500|502|503|504|521|522|523|524|529)'' @ [CHR 0x5C]
      @ ''b|bad.gateway|gateway.timeout|without.sending.*(chunks?|response)'')"

definition RE_RATE_LIMIT :: bytes where
  "RE_RATE_LIMIT =
     (''(?i)'' @ [CHR 0x5C] @ ''b429'' @ [CHR 0x5C]
      @ ''b|rate.?limit|too.many.requests|tokens.per.minute|'' @ [CHR 0x5C] @ ''btpm''
      @ [CHR 0x5C] @ ''b|resource.?exhausted|usage.?limit'')"

definition RE_AUTH :: bytes where
  "RE_AUTH =
     (''(?i)('' @ [CHR 0x5C] @ ''b(401|403)'' @ [CHR 0x5C]
      @ ''b.*(api.?key|unauthorized|authentication|forbidden))|(api.?key.*(invalid|r''
      @ ''evoked|expired|deactivated))|(unauthorized|authentication.*(failed|error))''
      @ ''|PERMISSION_DENIED'')"

definition RE_BILLING :: bytes where
  "RE_BILLING =
     (''(?i)'' @ [CHR 0x5C] @ ''b402'' @ [CHR 0x5C]
      @ ''b|payment.required|insufficient.credit|quota.exceeded|insufficient.balance''
      @ ''|insufficient.quota|billing'')"

definition RE_OVERLOADED :: bytes where
  "RE_OVERLOADED =
     (''(?i)overloaded|service.unavailable.*capacity|high.demand|overloaded_error'')"

definition RE_RETRY_AFTER :: bytes where
  "RE_RETRY_AFTER =
     (''(?i)retry-after:'' @ [CHR 0x5C] @ ''s*('' @ [CHR 0x5C] @ ''d+)'')"

type_synonym regex_engine = "bytes \<Rightarrow> bytes \<Rightarrow> bool"

definition classify_str :: "regex_engine \<Rightarrow> bytes \<Rightarrow> llm_error_class" where
  "classify_str is_match msg =
     (if is_match RE_BILLING msg then Billing
      else if is_match RE_AUTH msg then AuthPermanent
      else if is_match RE_CONTEXT_OVERFLOW msg then ContextOverflow
      else if is_match RE_SESSION_CORRUPTION msg then SessionCorruption
      else if is_match RE_RATE_LIMIT msg then RateLimit
      else if is_match RE_OVERLOADED msg then Overloaded
      else if is_match RE_TRANSIENT_HTTP msg then TransientHttp
      else Unknown)"

definition classify :: "regex_engine \<Rightarrow> anyhow_error \<Rightarrow> llm_error_class" where
  "classify is_match err = (case downcast err of
       Some (InactivityTimeout _ _ _) \<Rightarrow> CallTimeout
     | Some (MaxDurationExceeded _ _ _) \<Rightarrow> CallTimeout
     | _ \<Rightarrow> classify_str is_match (err_to_string err))"

definition cooldown_duration :: "llm_error_class \<Rightarrow> duration" where
  "cooldown_duration c = (case c of
       AuthPermanent \<Rightarrow> from_secs 3600
     | Billing \<Rightarrow> from_secs 3600
     | RateLimit \<Rightarrow> from_secs 60
     | Overloaded \<Rightarrow> from_secs 30
     | TransientHttp \<Rightarrow> from_secs 15
     | Unknown \<Rightarrow> from_secs 15
     | ContextOverflow \<Rightarrow> 0
     | SessionCorruption \<Rightarrow> 0
     | CallTimeout \<Rightarrow> 0)"

definition is_retryable :: "llm_error_class \<Rightarrow> bool" where
  "is_retryable c \<longleftrightarrow> c \<in> {TransientHttp, Overloaded, RateLimit}"

section \<open>User messages\<close>

record error_strings =
  es_context_overflow :: bytes
  es_session_corruption :: bytes
  es_transient_http :: bytes
  es_rate_limit :: bytes
  es_auth_permanent :: bytes
  es_billing :: bytes
  es_overloaded :: bytes
  es_unknown :: bytes

definition RU_ERR :: error_strings where
  "RU_ERR =
     \<lparr>es_context_overflow =
      (utf8 [0xD0, 0x9A, 0xD0, 0xBE, 0xD0, 0xBD, 0xD1, 0x82, 0xD0, 0xB5]
      @ utf8 [0xD0, 0xBA, 0xD1, 0x81, 0xD1, 0x82] @ '' ''
      @ utf8 [0xD1, 0x81, 0xD0, 0xBB, 0xD0, 0xB8, 0xD1, 0x88, 0xD0, 0xBA]
      @ utf8 [0xD0, 0xBE, 0xD0, 0xBC] @ '' ''
      @ utf8 [0xD0, 0xB1, 0xD0, 0xBE, 0xD0, 0xBB, 0xD1, 0x8C, 0xD1, 0x88]
      @ utf8 [0xD0, 0xBE, 0xD0, 0xB9] @ '' ''
      @ utf8 [0xD0, 0xB4, 0xD0, 0xBB, 0xD1, 0x8F] @ '' ''
      @ utf8 [0xD0, 0xBC, 0xD0, 0xBE, 0xD0, 0xB4, 0xD0, 0xB5, 0xD0, 0xBB]
      @ utf8 [0xD0, 0xB8] @ ''. ''
      @ utf8 [0xD0, 0x9F, 0xD0, 0xBE, 0xD0, 0xBF, 0xD1, 0x80, 0xD0, 0xBE]
      @ utf8 [0xD0, 0xB1, 0xD1, 0x83, 0xD0, 0xB9, 0xD1, 0x82, 0xD0, 0xB5] @ '' ''
      @ utf8 [0xD0, 0xBD, 0xD0, 0xB0, 0xD1, 0x87, 0xD0, 0xB0, 0xD1, 0x82]
      @ utf8 [0xD1, 0x8C] @ '' ''
      @ utf8 [0xD0, 0xBD, 0xD0, 0xBE, 0xD0, 0xB2, 0xD1, 0x83, 0xD1, 0x8E] @ '' ''
      @ utf8 [0xD1, 0x81, 0xD0, 0xB5, 0xD1, 0x81, 0xD1, 0x81, 0xD0, 0xB8]
      @ utf8 [0xD1, 0x8E] @ ''.''),
      es_session_corruption =
      (utf8 [0xD0, 0xA1, 0xD0, 0xB5, 0xD1, 0x81, 0xD1, 0x81, 0xD0, 0xB8]
      @ utf8 [0xD1, 0x8F] @ '' ''
      @ utf8 [0xD0, 0xBF, 0xD0, 0xBE, 0xD0, 0xB2, 0xD1, 0x80, 0xD0, 0xB5]
      @ utf8 [0xD0, 0xB6, 0xD0, 0xB4, 0xD0, 0xB5, 0xD0, 0xBD, 0xD0, 0xB0] @ ''. ''
      @ utf8 [0xD0, 0x9D, 0xD0, 0xB0, 0xD1, 0x87, 0xD0, 0xBD, 0xD0, 0xB8]
      @ utf8 [0xD1, 0x82, 0xD0, 0xB5] @ '' ''
      @ utf8 [0xD0, 0xBD, 0xD0, 0xBE, 0xD0, 0xB2, 0xD1, 0x8B, 0xD0, 0xB9] @ '' ''
      @ utf8 [0xD1, 0x87, 0xD0, 0xB0, 0xD1, 0x82] @ ''.''),
      es_transient_http =
      (utf8 [0xD0, 0x92, 0xD1, 0x80, 0xD0, 0xB5, 0xD0, 0xBC, 0xD0, 0xB5]
      @ utf8 [0xD0, 0xBD, 0xD0, 0xBD, 0xD0, 0xB0, 0xD1, 0x8F] @ '' ''
      @ utf8 [0xD0, 0xBE, 0xD1, 0x88, 0xD0, 0xB8, 0xD0, 0xB1, 0xD0, 0xBA]
      @ utf8 [0xD0, 0xB0] @ '' ''
      @ utf8 [0xD1, 0x81, 0xD0, 0xB5, 0xD1, 0x80, 0xD0, 0xB2, 0xD0, 0xB5]
      @ utf8 [0xD1, 0x80, 0xD0, 0xB0] @ ''. ''
      @ utf8 [0xD0, 0x9F, 0xD0, 0xBE, 0xD0, 0xBF, 0xD1, 0x80, 0xD0, 0xBE]
      @ utf8 [0xD0, 0xB1, 0xD1, 0x83, 0xD0, 0xB9, 0xD1, 0x82, 0xD0, 0xB5] @ '' ''
      @ utf8 [0xD0, 0xB5, 0xD1, 0x89, 0xD1, 0x91] @ '' ''
      @ utf8 [0xD1, 0x80, 0xD0, 0xB0, 0xD0, 0xB7] @ '' ''
      @ utf8 [0xD1, 0x87, 0xD0, 0xB5, 0xD1, 0x80, 0xD0, 0xB5, 0xD0, 0xB7] @ '' ''
      @ utf8 [0xD0, 0xBC, 0xD0, 0xB8, 0xD0, 0xBD, 0xD1, 0x83, 0xD1, 0x82]
      @ utf8 [0xD1, 0x83] @ ''.''),
      es_rate_limit =
      (utf8 [0xD0, 0xA1, 0xD0, 0xBB, 0xD0, 0xB8, 0xD1, 0x88, 0xD0, 0xBA]
      @ utf8 [0xD0, 0xBE, 0xD0, 0xBC] @ '' ''
      @ utf8 [0xD0, 0xBC, 0xD0, 0xBD, 0xD0, 0xBE, 0xD0, 0xB3, 0xD0, 0xBE] @ '' ''
      @ utf8 [0xD0, 0xB7, 0xD0, 0xB0, 0xD0, 0xBF, 0xD1, 0x80, 0xD0, 0xBE]
      @ utf8 [0xD1, 0x81, 0xD0, 0xBE, 0xD0, 0xB2] @ ''. ''
      @ utf8 [0xD0, 0x9F, 0xD0, 0xBE, 0xD0, 0xB4, 0xD0, 0xBE, 0xD0, 0xB6]
      @ utf8 [0xD0, 0xB4, 0xD0, 0xB8, 0xD1, 0x82, 0xD0, 0xB5] @ '' ''
      @ utf8 [0xD0, 0xBD, 0xD0, 0xB5, 0xD0, 0xBC, 0xD0, 0xBD, 0xD0, 0xBE]
      @ utf8 [0xD0, 0xB3, 0xD0, 0xBE] @ ''.''),
      es_auth_permanent =
      (utf8 [0xD0, 0x9E, 0xD1, 0x88, 0xD0, 0xB8, 0xD0, 0xB1, 0xD0, 0xBA]
      @ utf8 [0xD0, 0xB0] @ '' ''
      @ utf8 [0xD0, 0xB0, 0xD1, 0x83, 0xD1, 0x82, 0xD0, 0xB5, 0xD0, 0xBD]
      @ utf8 [0xD1, 0x82, 0xD0, 0xB8, 0xD1, 0x84, 0xD0, 0xB8, 0xD0, 0xBA]
      @ utf8 [0xD0, 0xB0, 0xD1, 0x86, 0xD0, 0xB8, 0xD0, 0xB8] @ '' API. ''
      @ utf8 [0xD0, 0x9F, 0xD1, 0x80, 0xD0, 0xBE, 0xD0, 0xB2, 0xD0, 0xB5]
      @ utf8 [0xD1, 0x80, 0xD1, 0x8C, 0xD1, 0x82, 0xD0, 0xB5] @ '' ''
      @ utf8 [0xD0, 0xBA, 0xD0, 0xBB, 0xD1, 0x8E, 0xD1, 0x87] @ ''.''),
      es_billing =
      (utf8 [0xD0, 0x9F, 0xD1, 0x80, 0xD0, 0xBE, 0xD0, 0xB1, 0xD0, 0xBB]
      @ utf8 [0xD0, 0xB5, 0xD0, 0xBC, 0xD0, 0xB0] @ '' '' @ utf8 [0xD1, 0x81] @ '' ''
      @ utf8 [0xD0, 0xBE, 0xD0, 0xBF, 0xD0, 0xBB, 0xD0, 0xB0, 0xD1, 0x82]
      @ utf8 [0xD0, 0xBE, 0xD0, 0xB9] @ ''/''
      @ utf8 [0xD0, 0xBA, 0xD0, 0xB2, 0xD0, 0xBE, 0xD1, 0x82, 0xD0, 0xBE]
      @ utf8 [0xD0, 0xB9] @ '' API ''
      @ utf8 [0xD0, 0xBF, 0xD1, 0x80, 0xD0, 0xBE, 0xD0, 0xB2, 0xD0, 0xB0]
      @ utf8 [0xD0, 0xB9, 0xD0, 0xB4, 0xD0, 0xB5, 0xD1, 0x80, 0xD0, 0xB0] @ ''.''),
      es_overloaded =
      (utf8 [0xD0, 0xA1, 0xD0, 0xB5, 0xD1, 0x80, 0xD0, 0xB2, 0xD0, 0xB5]
      @ utf8 [0xD1, 0x80] @ '' ''
      @ utf8 [0xD0, 0xBF, 0xD0, 0xB5, 0xD1, 0x80, 0xD0, 0xB5, 0xD0, 0xB3]
      @ utf8 [0xD1, 0x80, 0xD1, 0x83, 0xD0, 0xB6, 0xD0, 0xB5, 0xD0, 0xBD] @ ''. ''
      @ utf8 [0xD0, 0x9F, 0xD0, 0xBE, 0xD0, 0xBF, 0xD1, 0x80, 0xD0, 0xBE]
      @ utf8 [0xD0, 0xB1, 0xD1, 0x83, 0xD0, 0xB9, 0xD1, 0x82, 0xD0, 0xB5] @ '' ''
      @ utf8 [0xD0, 0xBF, 0xD0, 0xBE, 0xD0, 0xB7, 0xD0, 0xB6, 0xD0, 0xB5] @ ''.''),
      es_unknown =
      (utf8 [0xD0, 0x9F, 0xD1, 0x80, 0xD0, 0xBE, 0xD0, 0xB8, 0xD0, 0xB7]
      @ utf8 [0xD0, 0xBE, 0xD1, 0x88, 0xD0, 0xBB, 0xD0, 0xB0] @ '' ''
      @ utf8 [0xD0, 0xBE, 0xD1, 0x88, 0xD0, 0xB8, 0xD0, 0xB1, 0xD0, 0xBA]
      @ utf8 [0xD0, 0xB0] @ ''. ''
      @ utf8 [0xD0, 0x9F, 0xD0, 0xBE, 0xD0, 0xBF, 0xD1, 0x80, 0xD0, 0xBE]
      @ utf8 [0xD0, 0xB1, 0xD1, 0x83, 0xD0, 0xB9, 0xD1, 0x82, 0xD0, 0xB5] @ '' ''
      @ utf8 [0xD0, 0xB5, 0xD1, 0x89, 0xD1, 0x91] @ '' ''
      @ utf8 [0xD1, 0x80, 0xD0, 0xB0, 0xD0, 0xB7] @ ''.'')\<rparr>"

definition EN_ERR :: error_strings where
  "EN_ERR =
     \<lparr>es_context_overflow =
      (''Context is too large for the model. Try starting a new session.''),
      es_session_corruption =
      (''Session is corrupted. Please start a new chat.''),
      es_transient_http =
      (''Temporary server error. Please try again in a minute.''),
      es_rate_limit =
      (''Too many requests. Please wait a moment.''),
      es_auth_permanent =
      (''API authentication error. Please check your key.''),
      es_billing =
      (''API provider billing/quota issue.''),
      es_overloaded =
      (''Server is overloaded. Please try later.''),
      es_unknown =
      (''An error occurred. Please try again.'')\<rparr>"

definition get_error_strings :: "bytes \<Rightarrow> error_strings" where
  "get_error_strings language = (if language = ''en'' then EN_ERR else RU_ERR)"

definition user_message_lang :: "llm_error_class \<Rightarrow> bytes \<Rightarrow> bytes" where
  "user_message_lang c language =
     (let e = get_error_strings language
      in case c of
           ContextOverflow \<Rightarrow> es_context_overflow e
         | SessionCorruption \<Rightarrow> es_session_corruption e
         | TransientHttp \<Rightarrow> es_transient_http e
         | RateLimit \<Rightarrow> es_rate_limit e
         | AuthPermanent \<Rightarrow> es_auth_permanent e
         | Billing \<Rightarrow> es_billing e
         | Overloaded \<Rightarrow> es_overloaded e
         | CallTimeout \<Rightarrow> es_unknown e
         | Unknown \<Rightarrow> es_unknown e)"

definition user_message :: "llm_error_class \<Rightarrow> bytes" where
  "user_message c = user_message_lang c ''ru''"

definition warning_prefix :: bytes where
  "warning_prefix = utf8 [0xE2, 0x9A, 0xA0, 0xEF, 0xB8, 0x8F] @ '' ''"

definition format_user_error :: "regex_engine \<Rightarrow> anyhow_error \<Rightarrow> bytes" where
  "format_user_error is_match err = warning_prefix @ user_message (classify is_match err)"

definition format_user_error_lang :: "regex_engine \<Rightarrow> anyhow_error \<Rightarrow> bytes \<Rightarrow> bytes" where
  "format_user_error_lang is_match err language =
     warning_prefix @ user_message_lang (classify is_match err) language"

section \<open>Delays\<close>

record retry_config =
  rc_max_attempts :: nat
  rc_base_delay_ms :: nat
  rc_max_delay_ms :: nat
  rc_jitter_factor :: rat

definition retry_config_default :: retry_config where
  "retry_config_default =
     \<lparr>rc_max_attempts = 5, rc_base_delay_ms = 500, rc_max_delay_ms = 32000, rc_jitter_factor = 1 / 4\<rparr>"

text \<open>\<open>2u64.pow(attempt)\<close> wraps in a release build; \<open>r\<close> is the random number.\<close>

definition delay :: "retry_config \<Rightarrow> rat \<Rightarrow> nat \<Rightarrow> duration" where
  "delay cfg r attempt =
     (let e = rc_base_delay_ms cfg * (2 ^ attempt mod 2 ^ 64);
          capped = min e (rc_max_delay_ms cfg);
          jitter_ms = nat \<lfloor>r * rc_jitter_factor cfg * of_nat capped\<rfloor>
      in from_millis (capped + jitter_ms))"

definition retry_delay_for_error :: "retry_config \<Rightarrow> rat \<Rightarrow> llm_error_class \<Rightarrow> nat \<Rightarrow> duration" where
  "retry_delay_for_error cfg r c attempt = (case c of
       RateLimit \<Rightarrow> cooldown_duration c
     | _ \<Rightarrow> delay cfg r attempt)"

text \<open>\<open>str::parse::<u64>\<close> of the digits the pattern captured: in range or an error.\<close>

definition parse_u64 :: "bytes \<Rightarrow> nat option" where
  "parse_u64 s =
     (let n = foldl (\<lambda>acc c. acc * 10 + (of_char c - 48)) 0 s
      in if s \<noteq> [] \<and> list_all is_ascii_digit s \<and> n < 2 ^ 64 then Some n else None)"

definition extract_retry_after :: "(bytes \<Rightarrow> bytes \<Rightarrow> bytes option) \<Rightarrow> bytes \<Rightarrow> duration option" where
  "extract_retry_after capture error_msg =
     map_option from_secs (Option.bind (capture RE_RETRY_AFTER error_msg) parse_u64)"

section \<open>Properties\<close>

text \<open>The two retry layers never overlap: a stream timeout is never retried by the inner
  transient loop, whatever the provider is called, and it never triggers a failover.\<close>

theorem timeouts_only_outer_retry:
  assumes "e = InactivityTimeout p n s \<or> e = MaxDurationExceeded p n s"
  shows "\<not> is_retryable (classify is_match (Typed e)) \<and> \<not> is_failover_worthy e
    \<and> error_partial_state e = Some s"
  using assms
  by (auto simp: classify_def downcast_def is_retryable_def is_failover_worthy_def error_partial_state_def)

theorem timeouts_only_outer_retry_witness:
  "\<not> is_retryable (classify (\<lambda>_ _. True) (Typed (InactivityTimeout ''p'' 60 Empty)))"
  using timeouts_only_outer_retry [of "InactivityTimeout ''p'' 60 Empty" "''p''" 60 Empty] by simp

lemma min_pow_le: "(min (b * k) m :: nat) \<le> m"
  by simp

text \<open>A backoff delay stays between the capped exponential value and that value plus the
  jitter share: with the default configuration between 0.5 s and 40 s, for every attempt the
  retry loop makes.\<close>

theorem default_delay_bounds:
  assumes "0 \<le> r" and "r < 1" and "attempt < rc_max_attempts retry_config_default"
  shows "from_millis (500 * 2 ^ attempt) \<le> delay retry_config_default r attempt
    \<and> delay retry_config_default r attempt \<le> from_millis (625 * 2 ^ attempt)"
proof -
  have a: "attempt < 5" using assms(3) by (simp add: retry_config_default_def)
  have p: "(2::nat) ^ attempt \<le> 2 ^ 4" using a by (intro power_increasing) auto
  let ?c = "500 * 2 ^ attempt :: nat"
  have m: "(2::nat) ^ attempt mod 2 ^ 64 = 2 ^ attempt" using p by simp
  have c: "min (500 * (2 ^ attempt mod 2 ^ 64)) 32000 = ?c" unfolding m using p by simp
  have "r * (1 / 4) * of_nat ?c \<le> 1 * (1 / 4) * of_nat ?c"
    using assms(1,2) by (intro mult_right_mono) auto
  also have "\<dots> = of_nat (125 * 2 ^ attempt)" by simp
  finally have "\<lfloor>r * (1 / 4) * of_nat ?c\<rfloor> \<le> int (125 * 2 ^ attempt)"
    by (metis floor_mono floor_of_nat)
  then have "nat \<lfloor>r * (1 / 4) * of_nat ?c\<rfloor> \<le> 125 * 2 ^ attempt" by linarith
  then show ?thesis using c
    by (simp add: delay_def retry_config_default_def from_millis_def Let_def)
qed

theorem default_delay_bounds_witness:
  "delay retry_config_default (1 / 2) 4 \<le> from_millis 10000"
  using default_delay_bounds [of "1 / 2" 4] by (simp add: retry_config_default_def)

end
