(* ===== verification/Llm_Call.thy ===== *)
theory Llm_Call
  imports Llm_Errors Tool_Loop
begin

text \<open>
  \<open>agent/pipeline/llm_call.rs\<close>: the retry layers around a provider call. Innermost the recovery
  from a context overflow by compaction, around it the retry of transient errors with backoff,
  around that the retry of stream timeouts until a run deadline.

  Provider, compactor, clock, random numbers, cancellation and the regular expression engine are
  the environment \<open>llm_env\<close>: the reply to the \<open>i\<close>-th provider call is an arbitrary function of
  \<open>i\<close> and of the messages sent, the \<open>i\<close>-th compaction likewise. The world records what the code
  did to its environment: the calls with their messages, the number of compactions, the sleeps,
  the reconnect signals and the retries reported.
\<close>

section \<open>World and environment\<close>

record llm_world =
  w_calls :: "message list list"
  w_compactions :: nat
  w_sleeps :: "duration list"
  w_signals :: "bytes list"
  w_retries :: "(nat \<times> nat) list"

type_synonym reply = "(anyhow_error, llm_response) result"

record llm_env =
  env_reply :: "nat \<Rightarrow> message list \<Rightarrow> reply"
  env_compact :: "nat \<Rightarrow> message list \<Rightarrow> message list"
  env_jitter :: "nat \<Rightarrow> rat"
  env_is_match :: regex_engine
  env_capture :: "bytes \<Rightarrow> bytes \<Rightarrow> bytes option"
  env_lower :: "bytes \<Rightarrow> bytes"
  env_elapsed_secs :: "llm_world \<Rightarrow> nat"
  env_cancelled :: "llm_world \<Rightarrow> bool"
  env_cancelled_during :: "llm_world \<Rightarrow> duration \<Rightarrow> bool"
  env_name :: bytes
  env_supports_prefill :: bool

definition call_provider :: "llm_env \<Rightarrow> llm_world \<Rightarrow> message list \<Rightarrow> llm_world \<times> reply" where
  "call_provider env w ms =
     (w\<lparr>w_calls := w_calls w @ [ms]\<rparr>, env_reply env (length (w_calls w)) ms)"

definition call_compact :: "llm_env \<Rightarrow> llm_world \<Rightarrow> message list \<Rightarrow> llm_world \<times> message list" where
  "call_compact env w ms =
     (w\<lparr>w_compactions := Suc (w_compactions w)\<rparr>, env_compact env (w_compactions w) ms)"

definition sleep :: "llm_world \<Rightarrow> duration \<Rightarrow> llm_world" where
  "sleep w d = w\<lparr>w_sleeps := w_sleeps w @ [d]\<rparr>"

section \<open>Budget\<close>

text \<open>\<open>used\<close>: the result of the usage query, an \<open>i64\<close> that the code reinterprets as \<open>u64\<close>.\<close>

definition check_budget :: "(bytes, 64 word) result \<Rightarrow> 64 word \<Rightarrow> (bytes, unit) result" where
  "check_budget used daily_budget_tokens =
     (if daily_budget_tokens = 0 then Inr ()
      else let u = unwrap_or (option_ok used) 0
           in if daily_budget_tokens \<le> u
              then Inl (''Daily token budget exceeded ('' @ show_nat (unat u) @ ''/''
                        @ show_nat (unat daily_budget_tokens) @ '' tokens). Resets at midnight.'')
              else Inr ())"

section \<open>Context overflow recovery\<close>

type_synonym outcome = "llm_world \<times> message list \<times> reply"

text \<open>The loop \<open>for compact_attempt in 0..=max\<close>; the first argument counts the compactions left.
  In the last round the guard fails and the error is returned, so the text after the loop is
  never reached.\<close>

fun overflow_loop :: "llm_env \<Rightarrow> nat \<Rightarrow> llm_world \<Rightarrow> message list \<Rightarrow> outcome" where
  "overflow_loop env left w ms =
     (case call_provider env w ms of
        (w1, Inr resp) \<Rightarrow> (w1, ms, Inr resp)
      | (w1, Inl e) \<Rightarrow>
          if is_context_overflow (env_lower env) (err_to_string e) \<and> 0 < left
          then (case call_compact env w1 ms of (w2, ms2) \<Rightarrow> overflow_loop env (left - 1) w2 ms2)
          else (w1, ms, Inl e))"

declare overflow_loop.simps [simp del]

definition chat_with_overflow_recovery :: "llm_env \<Rightarrow> llm_world \<Rightarrow> message list \<Rightarrow> outcome" where
  "chat_with_overflow_recovery env w ms = overflow_loop env 3 w ms"

definition chat_stream_with_overflow_recovery :: "llm_env \<Rightarrow> llm_world \<Rightarrow> message list \<Rightarrow> outcome" where
  "chat_stream_with_overflow_recovery env w ms = overflow_loop env 3 w ms"

section \<open>Transient retry\<close>

definition retry_wait :: "llm_env \<Rightarrow> retry_config \<Rightarrow> llm_world \<Rightarrow> anyhow_error \<Rightarrow> nat \<Rightarrow> duration" where
  "retry_wait env cfg w e attempt =
     unwrap_or (extract_retry_after (env_capture env) (err_to_string e))
       (retry_delay_for_error cfg (env_jitter env (length (w_sleeps w)))
          (classify (env_is_match env) e) attempt)"

text \<open>The loop \<open>for attempt in 0..max_attempts\<close> around one attempt \<open>call\<close>; the number of rounds
  left makes the recursion structural.\<close>

fun transient_loop ::
  "llm_env \<Rightarrow> retry_config \<Rightarrow> (llm_world \<Rightarrow> message list \<Rightarrow> outcome) \<Rightarrow> bytes \<Rightarrow> nat \<Rightarrow> nat
     \<Rightarrow> anyhow_error option \<Rightarrow> llm_world \<Rightarrow> message list \<Rightarrow> outcome" where
  "transient_loop env cfg call failed 0 attempt last_error w ms =
     (w, ms, Inl (unwrap_or last_error (Untyped failed)))"
| "transient_loop env cfg call failed (Suc n) attempt last_error w ms =
     (case call w ms of
        (w1, ms1, Inr resp) \<Rightarrow> (w1, ms1, Inr resp)
      | (w1, ms1, Inl e) \<Rightarrow>
          if \<not> is_retryable (classify (env_is_match env) e) then (w1, ms1, Inl e)
          else let w2 = (if attempt < rc_max_attempts cfg - 1
                         then sleep w1 (retry_wait env cfg w1 e attempt) else w1)
               in transient_loop env cfg call failed n (attempt + 1) (Some e) w2 ms1)"

definition transient_retry ::
  "llm_env \<Rightarrow> (llm_world \<Rightarrow> message list \<Rightarrow> outcome) \<Rightarrow> bytes \<Rightarrow> llm_world \<Rightarrow> message list \<Rightarrow> outcome" where
  "transient_retry env call failed w ms =
     transient_loop env retry_config_default call failed (rc_max_attempts retry_config_default) 0 None w ms"

definition chat_with_transient_retry :: "llm_env \<Rightarrow> llm_world \<Rightarrow> message list \<Rightarrow> outcome" where
  "chat_with_transient_retry env w ms =
     transient_retry env (chat_with_overflow_recovery env) ''LLM call failed after retries'' w ms"

definition chat_stream_with_transient_retry :: "llm_env \<Rightarrow> llm_world \<Rightarrow> message list \<Rightarrow> outcome" where
  "chat_stream_with_transient_retry env w ms =
     transient_retry env (chat_stream_with_overflow_recovery env) ''LLM stream call failed after retries'' w ms"

text \<open>The attempt of the variants with an explicit provider: one compaction, one second call.\<close>

definition attempt_using :: "llm_env \<Rightarrow> llm_world \<Rightarrow> message list \<Rightarrow> outcome" where
  "attempt_using env w ms =
     (case call_provider env w ms of
        (w1, Inr resp) \<Rightarrow> (w1, ms, Inr resp)
      | (w1, Inl e) \<Rightarrow>
          if is_context_overflow (env_lower env) (err_to_string e)
          then (case call_compact env w1 ms of (w2, ms2) \<Rightarrow>
                  (case call_provider env w2 ms2 of (w3, r) \<Rightarrow> (w3, ms2, r)))
          else (w1, ms, Inl e))"

definition chat_with_transient_retry_using :: "llm_env \<Rightarrow> llm_world \<Rightarrow> message list \<Rightarrow> outcome" where
  "chat_with_transient_retry_using env w ms =
     transient_retry env (attempt_using env) ''LLM call failed after retries (fallback provider)'' w ms"

definition chat_stream_with_transient_retry_using :: "llm_env \<Rightarrow> llm_world \<Rightarrow> message list \<Rightarrow> outcome" where
  "chat_stream_with_transient_retry_using env w ms =
     transient_retry env (attempt_using env) ''LLM stream call failed after retries (fallback provider)'' w ms"

section \<open>Deadline retry\<close>

definition RECONNECTING_PREFIX :: bytes where
  "RECONNECTING_PREFIX = ''__reconnecting__:''"

text \<open>\<open>(2u64.saturating_pow(attempt) * 1000).min(30_000)\<close>: the power saturates, the product wraps
  in a release build.\<close>

definition deadline_delay_ms :: "nat \<Rightarrow> nat" where
  "deadline_delay_ms attempt =
     (let p = min (2 ^ attempt) (2 ^ 64 - 1) in min (p * 1000 mod 2 ^ 64) 30000)"

definition is_timeout_error :: "llm_call_error \<Rightarrow> bool" where
  "is_timeout_error e = (case e of
       InactivityTimeout _ _ _ \<Rightarrow> True | MaxDurationExceeded _ _ _ \<Rightarrow> True | _ \<Rightarrow> False)"

text \<open>The messages of the next attempt after a timeout.\<close>

definition prefill_messages :: "llm_env \<Rightarrow> message list \<Rightarrow> llm_call_error \<Rightarrow> message list option" where
  "prefill_messages env base te =
     (case error_partial_state te of
        Some (Text partial) \<Rightarrow>
          if is_resumable (Text partial) \<and> env_supports_prefill env
          then Some (base @ [plain_message Assistant partial]) else None
      | _ \<Rightarrow> None)"

text \<open>The \<open>loop\<close>; \<open>None\<close> means that the fuel is used up before it returns.\<close>

fun deadline_loop ::
  "llm_env \<Rightarrow> nat \<Rightarrow> message list \<Rightarrow> nat \<Rightarrow> nat \<Rightarrow> message list option \<Rightarrow> llm_world \<Rightarrow> message list
     \<Rightarrow> outcome option" where
  "deadline_loop env max_secs base 0 attempt prepared w ms = None"
| "deadline_loop env max_secs base (Suc fuel) attempt prepared w ms =
     (if 0 < max_secs \<and> max_secs \<le> env_elapsed_secs env w
      then Some (w, ms, Inl (Typed (MaxDurationExceeded (env_name env) (env_elapsed_secs env w) Empty)))
      else if env_cancelled env w then Some (w, ms, Inl (Typed (UserCancelled Empty)))
      else case chat_stream_with_transient_retry env w (unwrap_or prepared base) of
        (w1, ms1, Inr resp) \<Rightarrow> Some (w1, ms1, Inr resp)
      | (w1, ms1, Inl e) \<Rightarrow>
          (case downcast e of
             None \<Rightarrow> Some (w1, ms1, Inl e)
           | Some te \<Rightarrow>
               if is_timeout_error te then
                 let attempt' = attempt + 1;
                     delay_ms = deadline_delay_ms attempt';
                     signal = RECONNECTING_PREFIX @ show_nat attempt' @ '':'' @ show_nat delay_ms;
                     w2 = w1\<lparr>w_retries := w_retries w1 @ [(attempt', delay_ms)],
                             w_signals := w_signals w1 @ [signal]\<rparr>
                 in if env_cancelled_during env w2 (from_millis delay_ms)
                    then Some (w2, ms1, Inl (Typed (UserCancelled Empty)))
                    else deadline_loop env max_secs base fuel attempt' (prefill_messages env base te)
                           (sleep w2 (from_millis delay_ms)) ms1
               else Some (w1, ms1, Inl e)))"

definition deadline_retry :: "llm_env \<Rightarrow> nat \<Rightarrow> nat \<Rightarrow> llm_world \<Rightarrow> message list \<Rightarrow> outcome option" where
  "deadline_retry env max_secs fuel w ms = deadline_loop env max_secs ms fuel 0 None w ms"

section \<open>Bounds of the inner layers\<close>

lemma overflow_loop_accounting:
  assumes "overflow_loop env left w ms = (w', ms', r)"
  shows "w_sleeps w' = w_sleeps w
    \<and> (\<exists>k \<le> left. w_compactions w' = w_compactions w + k \<and> length (w_calls w') = length (w_calls w) + k + 1)
    \<and> (\<exists>i m. r = env_reply env i m)"
  using assms
proof (induction env left w ms rule: overflow_loop.induct)
  case (1 env left w ms)
  let ?w1 = "w\<lparr>w_calls := w_calls w @ [ms]\<rparr>"
  let ?r = "env_reply env (length (w_calls w)) ms"
  show ?case
  proof (cases "\<exists>e. ?r = Inl e \<and> is_context_overflow (env_lower env) (err_to_string e) \<and> 0 < left")
    case False
    then have "w' = ?w1 \<and> ms' = ms \<and> r = ?r" using "1.prems"
      by (subst (asm) overflow_loop.simps) (auto simp: call_provider_def split: sum.splits if_splits)
    then show ?thesis by auto
  next
    case True
    then obtain e where e: "?r = Inl e" "is_context_overflow (env_lower env) (err_to_string e)" "0 < left" by blast
    let ?w2 = "?w1\<lparr>w_compactions := Suc (w_compactions w)\<rparr>"
    let ?ms2 = "env_compact env (w_compactions w) ms"
    have rec: "overflow_loop env (left - 1) ?w2 ?ms2 = (w', ms', r)"
      using "1.prems" e by (subst (asm) overflow_loop.simps) (simp add: call_provider_def call_compact_def)
    have "w_sleeps w' = w_sleeps ?w2 \<and> (\<exists>k \<le> left - 1. w_compactions w' = w_compactions ?w2 + k
        \<and> length (w_calls w') = length (w_calls ?w2) + k + 1) \<and> (\<exists>i m. r = env_reply env i m)"
      using "1.IH" [of ?w1 "Inl e" e ?w2 ?ms2] e rec by (simp add: call_provider_def call_compact_def)
    then obtain k where "k \<le> left - 1" "w_compactions w' = w_compactions ?w2 + k"
      "length (w_calls w') = length (w_calls ?w2) + k + 1" "w_sleeps w' = w_sleeps w" "\<exists>i m. r = env_reply env i m"
      by auto
    with e(3) have "Suc k \<le> left \<and> w_compactions w' = w_compactions w + Suc k
        \<and> length (w_calls w') = length (w_calls w) + Suc k + 1" by simp
    with \<open>w_sleeps w' = w_sleeps w\<close> \<open>\<exists>i m. r = env_reply env i m\<close> show ?thesis by blast
  qed
qed

text \<open>What the transient loop needs of one attempt: it makes between one and \<open>bound\<close> calls, does
  not sleep, and its outcome is a reply of the provider.\<close>

locale bounded_attempt =
  fixes env :: llm_env
    and call :: "llm_world \<Rightarrow> message list \<Rightarrow> outcome"
    and bound :: nat
  assumes call_calls: "call w ms = (w', ms', r) \<Longrightarrow>
      length (w_calls w) < length (w_calls w') \<and> length (w_calls w') \<le> length (w_calls w) + bound"
    and call_sleeps: "call w ms = (w', ms', r) \<Longrightarrow> w_sleeps w' = w_sleeps w"
    and call_reply: "call w ms = (w', ms', r) \<Longrightarrow> \<exists>i m. r = env_reply env i m"
begin

lemma transient_loop_accounting:
  assumes "transient_loop env cfg call failed n attempt prev w ms = (w', ms', r)"
    and "attempt + n = rc_max_attempts cfg"
    and "n = 0 \<longrightarrow> prev \<noteq> None"
    and "\<forall>e. prev = Some e \<longrightarrow> is_retryable (classify (env_is_match env) e) \<and> (\<exists>i m. env_reply env i m = Inl e)"
  shows "length (w_calls w') \<le> length (w_calls w) + bound * n
    \<and> length (w_sleeps w') \<le> length (w_sleeps w) + (n - 1)
    \<and> (\<exists>i m. r = env_reply env i m)
    \<and> (\<forall>e. r = Inl e \<and> is_retryable (classify (env_is_match env) e) \<longrightarrow>
          length (w_calls w) + n \<le> length (w_calls w') \<and> length (w_sleeps w') = length (w_sleeps w) + (n - 1))"
  using assms
proof (induction n arbitrary: attempt prev w ms)
  case 0
  then obtain e where "prev = Some e" by auto
  with 0 show ?case by (auto simp: eq_commute)
next
  case (Suc n)
  obtain w1 ms1 r1 where c: "call w ms = (w1, ms1, r1)" by (cases "call w ms")
  note acc = call_calls [OF c] call_sleeps [OF c] call_reply [OF c]
  show ?case
  proof (cases "\<exists>e. r1 = Inl e \<and> is_retryable (classify (env_is_match env) e)")
    case False
    with Suc.prems(1) c have "w' = w1 \<and> r = r1" by (auto split: sum.splits if_splits)
    with acc False show ?thesis by auto
  next
    case True
    then obtain e where e: "r1 = Inl e" "is_retryable (classify (env_is_match env) e)" by blast
    define w2 where "w2 = (if attempt < rc_max_attempts cfg - 1
                           then sleep w1 (retry_wait env cfg w1 e attempt) else w1)"
    have rec: "transient_loop env cfg call failed n (attempt + 1) (Some e) w2 ms1 = (w', ms', r)"
      using Suc.prems(1) c e by (simp add: w2_def Let_def)
    have w2: "w_calls w2 = w_calls w1" "length (w_sleeps w2) = length (w_sleeps w1) + (if 0 < n then 1 else 0)"
      using Suc.prems(2) by (auto simp: w2_def sleep_def)
    have "\<exists>i m. env_reply env i m = Inl e" using acc(3) e(1) by metis
    with Suc.IH [OF rec] Suc.prems(2) e(2) have IH: "length (w_calls w') \<le> length (w_calls w2) + bound * n"
      "length (w_sleeps w') \<le> length (w_sleeps w2) + (n - 1)" "\<exists>i m. r = env_reply env i m"
      "\<forall>e. r = Inl e \<and> is_retryable (classify (env_is_match env) e) \<longrightarrow>
          length (w_calls w2) + n \<le> length (w_calls w') \<and> length (w_sleeps w') = length (w_sleeps w2) + (n - 1)"
      by auto
    show ?thesis
    proof (intro conjI allI impI)
      show "length (w_calls w') \<le> length (w_calls w) + bound * Suc n" using IH(1) w2(1) acc(1) by simp
      show "length (w_sleeps w') \<le> length (w_sleeps w) + (Suc n - 1)" using IH(2) w2(2) acc(2) by (simp split: if_splits)
      show "\<exists>i m. r = env_reply env i m" by (rule IH(3))
      fix e' assume "r = Inl e' \<and> is_retryable (classify (env_is_match env) e')"
      with IH(4) have "length (w_calls w2) + n \<le> length (w_calls w')" "length (w_sleeps w') = length (w_sleeps w2) + (n - 1)"
        by blast+
      then show "length (w_calls w) + Suc n \<le> length (w_calls w')"
        "length (w_sleeps w') = length (w_sleeps w) + (Suc n - 1)"
        using w2 acc(1,2) by (simp_all split: if_splits)
    qed
  qed
qed

lemma transient_loop_sleeps:
  assumes "transient_loop env cfg call failed n attempt prev w ms = (w', ms', r)"
  shows "sum_list (w_sleeps w) \<le> sum_list (w_sleeps w')"
  using assms
proof (induction n arbitrary: attempt prev w ms)
  case (Suc n)
  obtain w1 ms1 r1 where c: "call w ms = (w1, ms1, r1)" by (cases "call w ms")
  note eq = call_sleeps [OF c]
  show ?case
  proof (cases "\<exists>e. r1 = Inl e \<and> is_retryable (classify (env_is_match env) e)")
    case False
    with Suc.prems c eq show ?thesis by (auto split: sum.splits if_splits)
  next
    case True
    with Suc.prems c Suc.IH eq show ?thesis by (fastforce simp: sleep_def Let_def split: if_splits)
  qed
qed simp

lemma transient_retry_accounting:
  assumes "transient_retry env call failed w ms = (w', ms', r)"
  shows "length (w_calls w') \<le> length (w_calls w) + 5 * bound
    \<and> length (w_sleeps w') \<le> length (w_sleeps w) + 4
    \<and> (\<exists>i m. r = env_reply env i m)
    \<and> (\<forall>e. r = Inl e \<and> is_retryable (classify (env_is_match env) e) \<longrightarrow>
          length (w_calls w) + 5 \<le> length (w_calls w') \<and> length (w_sleeps w') = length (w_sleeps w) + 4)"
  using transient_loop_accounting [OF assms [unfolded transient_retry_def]]
  by (simp add: retry_config_default_def mult.commute)

end

interpretation overflow_attempt: bounded_attempt env "chat_with_overflow_recovery env" 4 for env
proof unfold_locales
  fix w ms w' ms' r
  assume "chat_with_overflow_recovery env w ms = (w', ms', r)"
  note acc = overflow_loop_accounting [OF this [unfolded chat_with_overflow_recovery_def]]
  then show "length (w_calls w) < length (w_calls w') \<and> length (w_calls w') \<le> length (w_calls w) + 4"
    and "w_sleeps w' = w_sleeps w" and "\<exists>i m. r = env_reply env i m" by auto
qed

interpretation stream_overflow_attempt: bounded_attempt env "chat_stream_with_overflow_recovery env" 4 for env
proof unfold_locales
  fix w ms w' ms' r
  assume "chat_stream_with_overflow_recovery env w ms = (w', ms', r)"
  note acc = overflow_loop_accounting [OF this [unfolded chat_stream_with_overflow_recovery_def]]
  then show "length (w_calls w) < length (w_calls w') \<and> length (w_calls w') \<le> length (w_calls w) + 4"
    and "w_sleeps w' = w_sleeps w" and "\<exists>i m. r = env_reply env i m" by auto
qed

interpretation using_attempt: bounded_attempt env "attempt_using env" 2 for env
  by unfold_locales
    (auto simp: attempt_using_def call_provider_def call_compact_def split: sum.splits if_splits, metis+)

text \<open>Whatever the provider does, one logical call makes at most 20 provider calls and 4
  sleeps, and its outcome is a reply the provider gave: a success, an error that must not be
  retried, or a retryable error after the full five attempts.\<close>

theorem transient_retry_bounded:
  assumes "chat_with_transient_retry env w ms = (w', ms', r)"
  shows "length (w_calls w') \<le> length (w_calls w) + 20
    \<and> length (w_sleeps w') \<le> length (w_sleeps w) + 4
    \<and> (\<exists>i m. r = env_reply env i m)
    \<and> (\<forall>e. r = Inl e \<and> is_retryable (classify (env_is_match env) e) \<longrightarrow>
          length (w_calls w) + 5 \<le> length (w_calls w') \<and> length (w_sleeps w') = length (w_sleeps w) + 4)"
  using overflow_attempt.transient_retry_accounting [OF assms [unfolded chat_with_transient_retry_def]]
  by simp

text \<open>A world at the start of a run, and the environment in which every call gets the same reply,
  compaction does nothing and the clock counts exactly the time slept.\<close>

definition fresh_world :: llm_world where
  "fresh_world = \<lparr>w_calls = [], w_compactions = 0, w_sleeps = [], w_signals = [], w_retries = []\<rparr>"

definition constant_env :: "reply \<Rightarrow> llm_env" where
  "constant_env r =
     \<lparr>env_reply = (\<lambda>_ _. r), env_compact = (\<lambda>_ ms. ms), env_jitter = (\<lambda>_. 0),
      env_is_match = (\<lambda>p m. p = RE_TRANSIENT_HTTP \<and> contains m ''503''), env_capture = (\<lambda>_ _. None), env_lower = ascii_lower,
      env_elapsed_secs = (\<lambda>w. as_secs (sum_list (w_sleeps w))), env_cancelled = (\<lambda>_. False),
      env_cancelled_during = (\<lambda>_ _. False), env_name = ''p'', env_supports_prefill = True\<rparr>"

theorem transient_retry_bounded_witness:
  "\<exists>w' ms' r. chat_with_transient_retry (constant_env (Inl (Untyped ''503''))) fresh_world [] = (w', ms', r)
     \<and> length (w_calls w') \<le> 20"
proof -
  obtain w' ms' r where
    c: "chat_with_transient_retry (constant_env (Inl (Untyped ''503''))) fresh_world [] = (w', ms', r)"
    using prod_cases3 by blast
  from transient_retry_bounded [OF c] c show ?thesis by (auto simp: fresh_world_def)
qed

section \<open>The deadline loop\<close>

lemma deadline_delay_eq:
  "deadline_delay_ms a = (if a \<in> {61, 62, 63} then 0 else min (2 ^ a * 1000) 30000)"
proof -
  consider "a \<le> 54" | "a \<in> {55, 56, 57, 58, 59, 60, 61, 62, 63}" | "64 \<le> a" by fastforce
  then show ?thesis
  proof cases
    case 1
    then have p: "(2::nat) ^ a \<le> 2 ^ 54" by (intro power_increasing) auto
    then have "min (2 ^ a) (2 ^ 64 - 1) = (2 ^ a :: nat)" and "(2 ^ a * 1000) mod 2 ^ 64 = (2 ^ a * 1000 :: nat)"
      by simp_all
    with 1 show ?thesis by (auto simp: deadline_delay_ms_def Let_def)
  next
    case 2
    then show ?thesis by (auto simp: deadline_delay_ms_def)
  next
    case 3
    then have p: "(2::nat) ^ 64 \<le> 2 ^ a" by (intro power_increasing) auto
    then have "min (2 ^ a) (2 ^ 64 - 1) = (2 ^ 64 - 1 :: nat)" by simp
    moreover have "min (2 ^ a * 1000) 30000 = (30000 :: nat)" using p by simp
    ultimately show ?thesis using 3 by (simp add: deadline_delay_ms_def)
  qed
qed

text \<open>The backoff between timeout retries is 2 s, 4 s, 8 s, 16 s and then 30 s, except that
  the 64-bit product wraps to zero in the retries 61, 62 and 63, which are made without any
  delay.\<close>

theorem deadline_backoff:
  "deadline_delay_ms a =
     (if a \<in> {61, 62, 63} then 0
      else if a = 0 then 1000 else if a = 1 then 2000 else if a = 2 then 4000 else if a = 3 then 8000
      else if a = 4 then 16000 else 30000)"
proof -
  have "4 < a \<Longrightarrow> (2::nat) ^ 5 \<le> 2 ^ a" by (intro power_increasing) auto
  then have "4 < a \<Longrightarrow> min (2 ^ a * 1000) 30000 = (30000::nat)" by simp
  moreover have "a \<le> 4 \<Longrightarrow> a \<in> {0, 1, 2, 3, 4}" by auto
  ultimately show ?thesis unfolding deadline_delay_eq by auto
qed

lemma stream_retry_sleeps:
  "chat_stream_with_transient_retry env w ms = (w', ms', r) \<Longrightarrow> sum_list (w_sleeps w) \<le> sum_list (w_sleeps w')"
  unfolding chat_stream_with_transient_retry_def transient_retry_def
  by (rule stream_overflow_attempt.transient_loop_sleeps)

text \<open>Seconds certainly slept before retry \<open>n\<close>.\<close>

definition slept_secs :: "nat \<Rightarrow> nat" where
  "slept_secs n = (if n \<le> 60 then 2 * n else if n \<le> 63 then 120 else 2 * (n - 3))"

lemma slept_secs_Suc: "from_secs (slept_secs (Suc n)) \<le> from_secs (slept_secs n) + from_millis (deadline_delay_ms (Suc n))"
proof -
  have "Suc n \<notin> {61, 62, 63} \<Longrightarrow> 2000 \<le> deadline_delay_ms (Suc n)"
    unfolding deadline_delay_eq by (simp add: mult_le_mono)
  then have "slept_secs (Suc n) * 1000 \<le> slept_secs n * 1000 + deadline_delay_ms (Suc n)"
    by (auto simp: slept_secs_def)
  then show ?thesis by (simp add: from_secs_def from_millis_def nanos_per_sec_def)
qed

lemma deadline_loop_returns:
  assumes "0 < max_secs" and clock: "\<forall>w. as_secs (sum_list (w_sleeps w)) \<le> env_elapsed_secs env w"
    and "max_secs div 2 + 4 < fuel + attempt" and "0 < fuel"
    and "from_secs (slept_secs attempt) \<le> sum_list (w_sleeps w)"
  shows "\<exists>out. deadline_loop env max_secs base fuel attempt prepared w ms = Some out"
  using assms(3-)
proof (induction fuel arbitrary: attempt prepared w ms)
  case (Suc fuel)
  show ?case
  proof (cases "max_secs \<le> env_elapsed_secs env w")
    case True
    with assms(1) show ?thesis by simp
  next
    case False
    have "slept_secs attempt \<le> as_secs (sum_list (w_sleeps w))"
      using Suc.prems(3) by (metis as_secs_less_iff leD leI)
    with False clock have "slept_secs attempt < max_secs" by (metis le_trans leD leI)
    then have "attempt < max_secs div 2 + 4" by (auto simp: slept_secs_def split: if_splits)
    with Suc.prems(1) have fuel: "0 < fuel" "max_secs div 2 + 4 < fuel + Suc attempt" by auto
    obtain w1 ms1 r1 where c: "chat_stream_with_transient_retry env w (unwrap_or prepared base) = (w1, ms1, r1)"
      by (cases "chat_stream_with_transient_retry env w (unwrap_or prepared base)")
    let ?d = "from_millis (deadline_delay_ms (Suc attempt))"
    have "from_secs (slept_secs (Suc attempt)) \<le> sum_list (w_sleeps w1) + ?d"
      using slept_secs_Suc [of attempt] stream_retry_sleeps [OF c] Suc.prems(3) by linarith
    then have next_ok: "from_secs (slept_secs (Suc attempt)) \<le>
        sum_list (w_sleeps (sleep (w1\<lparr>w_retries := x, w_signals := y\<rparr>) ?d))" for x y
      by (simp add: sleep_def)
    show ?thesis
      using c False Suc.IH [OF fuel(2,1) next_ok]
      by (cases r1) (auto simp: Let_def split: option.splits)
  qed
qed simp

text \<open>With a run deadline the timeout retry always ends: if the clock counts at least the time
  slept, no behaviour of the provider makes it retry more often than once per two seconds of the
  deadline, plus four.\<close>

theorem deadline_retry_returns:
  assumes "0 < max_secs" and "\<forall>w. as_secs (sum_list (w_sleeps w)) \<le> env_elapsed_secs env w"
    and "max_secs div 2 + 4 < fuel"
  shows "\<exists>out. deadline_retry env max_secs fuel w ms = Some out"
  unfolding deadline_retry_def
  by (rule deadline_loop_returns [OF assms(1,2)]) (use assms(3) in \<open>auto simp: slept_secs_def from_secs_def\<close>)

theorem deadline_retry_returns_witness:
  "\<exists>out. deadline_retry (constant_env (Inl (Typed (InactivityTimeout ''p'' 60 Empty)))) 10 10 fresh_world [] = Some out"
  by (rule deadline_retry_returns) (simp_all add: constant_env_def)

text \<open>A provider that always times out leaves every inner layer at once.\<close>

lemma stream_retry_timeout:
  assumes "\<forall>i m. env_reply env i m = Inl (Typed te)" and "is_timeout_error te"
  shows "\<exists>w' ms'. chat_stream_with_transient_retry env w ms = (w', ms', Inl (Typed te))"
proof -
  obtain w1 ms1 r where c: "overflow_loop env 3 w ms = (w1, ms1, r)" using prod_cases3 by blast
  with overflow_loop_accounting [OF c] assms(1) have r: "r = Inl (Typed te)" by auto
  have "\<not> is_retryable (classify (env_is_match env) (Typed te))"
    using assms(2) by (auto simp: is_timeout_error_def classify_def downcast_def is_retryable_def
        split: llm_call_error.splits)
  then have "transient_loop env cfg (chat_stream_with_overflow_recovery env) f (Suc n) a p w ms = (w1, ms1, r)" for cfg f n a p
    by (simp add: chat_stream_with_overflow_recovery_def c r)
  moreover have "rc_max_attempts retry_config_default = Suc 4" by (simp add: retry_config_default_def)
  ultimately show ?thesis
    by (simp only: chat_stream_with_transient_retry_def transient_retry_def r) blast
qed

text \<open>Without a run deadline the retry is unbounded: if every call times out and nobody
  cancels, it never returns.\<close>

theorem deadline_retry_unbounded:
  assumes "\<forall>i m. env_reply env i m = Inl (Typed te)" and "is_timeout_error te"
    and "\<forall>w. \<not> env_cancelled env w" and "\<forall>w d. \<not> env_cancelled_during env w d"
  shows "deadline_retry env 0 fuel w ms = None"
proof -
  have "deadline_loop env 0 base fuel attempt prepared w ms = None" for base attempt prepared w ms
  proof (induction fuel arbitrary: attempt prepared w ms)
    case (Suc fuel)
    from stream_retry_timeout [OF assms(1,2)] obtain w1 ms1 where
      "chat_stream_with_transient_retry env w (unwrap_or prepared base) = (w1, ms1, Inl (Typed te))" by blast
    with assms(2-) Suc show ?case by (simp add: downcast_def Let_def)
  qed simp
  then show ?thesis by (simp add: deadline_retry_def)
qed

theorem deadline_retry_unbounded_witness:
  "deadline_retry (constant_env (Inl (Typed (InactivityTimeout ''p'' 60 Empty)))) 0 100 fresh_world [] = None"
  by (rule deadline_retry_unbounded [of _ "InactivityTimeout ''p'' 60 Empty"])
    (simp_all add: constant_env_def is_timeout_error_def)

text \<open>Without overflow replies an attempt sends its messages unchanged.\<close>

lemma stream_retry_calls:
  assumes "\<forall>i m e. env_reply env i m = Inl e \<longrightarrow> \<not> is_context_overflow (env_lower env) (err_to_string e)"
    and "chat_stream_with_transient_retry env w ms = (w', ms', r)"
  shows "set (w_calls w') \<subseteq> insert ms (set (w_calls w))"
proof -
  have one: "chat_stream_with_overflow_recovery env w ms =
      (w\<lparr>w_calls := w_calls w @ [ms]\<rparr>, ms, env_reply env (length (w_calls w)) ms)" for w
    using assms(1) unfolding chat_stream_with_overflow_recovery_def
    by (subst overflow_loop.simps) (auto simp: call_provider_def split: sum.splits)
  have "transient_loop env cfg (chat_stream_with_overflow_recovery env) f n a p w ms = (w', ms', r)
      \<Longrightarrow> set (w_calls w') \<subseteq> insert ms (set (w_calls w))" for cfg f n a p w
  proof (induction n arbitrary: a p w)
    case (Suc n)
    show ?case
    proof (cases "env_reply env (length (w_calls w)) ms")
      case (Inl e)
      with Suc one [of w] show ?thesis
        by (fastforce simp: sleep_def Let_def split: if_splits)
    qed (use Suc.prems one [of w] in auto)
  qed auto
  with assms(2) show ?thesis by (simp add: chat_stream_with_transient_retry_def transient_retry_def)
qed

definition prefilled :: "bool \<Rightarrow> message list \<Rightarrow> message list set" where
  "prefilled ok base = insert base {base @ [plain_message Assistant t] | t. ok \<and> t \<noteq> []}"

lemma prefill_messages_prefilled:
  "unwrap_or (prefill_messages env base te) base \<in> prefilled (env_supports_prefill env) base"
  by (auto simp: prefill_messages_def prefilled_def is_resumable_def split: option.splits partial_state.splits)

lemma deadline_loop_calls:
  assumes "\<forall>i m e. env_reply env i m = Inl e \<longrightarrow> \<not> is_context_overflow (env_lower env) (err_to_string e)"
    and "deadline_loop env max_secs base fuel attempt prepared w ms = Some (w', ms', r)"
    and "unwrap_or prepared base \<in> prefilled (env_supports_prefill env) base"
    and "set (w_calls w) \<subseteq> prefilled (env_supports_prefill env) base"
  shows "set (w_calls w') \<subseteq> prefilled (env_supports_prefill env) base"
  using assms(2-)
proof (induction fuel arbitrary: attempt prepared w ms)
  case (Suc fuel)
  obtain w1 ms1 r1 where c: "chat_stream_with_transient_retry env w (unwrap_or prepared base) = (w1, ms1, r1)"
    using prod_cases3 by blast
  have w1: "set (w_calls w1) \<subseteq> prefilled (env_supports_prefill env) base"
    using stream_retry_calls [OF assms(1) c] Suc.prems(2,3) by blast
  note IH = Suc.IH [OF _ prefill_messages_prefilled]
  show ?case
  proof (cases "(0 < max_secs \<and> max_secs \<le> env_elapsed_secs env w) \<or> env_cancelled env w")
    case True
    with Suc.prems(1,3) show ?thesis by (auto split: if_splits)
  next
    case False
    show ?thesis
    proof (cases "\<exists>te. r1 = Inl (Typed te) \<and> is_timeout_error te")
      case True
      then obtain te where te: "r1 = Inl (Typed te)" "is_timeout_error te" by blast
      with Suc.prems(1) c False w1 show ?thesis
        by (auto simp: downcast_def Let_def sleep_def split: if_splits dest!: IH)
    next
      case nt: False
      with Suc.prems(1) c False have "w' = w1"
        by (cases r1) (auto simp: downcast_def split: anyhow_error.splits if_splits)
      with w1 show ?thesis by simp
    qed
  qed
qed simp

text \<open>Timeout retries never pile up partial answers: if no reply is a context overflow, every
  request sent is the original history, or that history with exactly one non-empty assistant
  prefill, and the latter only for a provider that supports it.\<close>

theorem deadline_retry_prefill:
  assumes "\<forall>i m e. env_reply env i m = Inl e \<longrightarrow> \<not> is_context_overflow (env_lower env) (err_to_string e)"
    and "deadline_retry env max_secs fuel fresh_world ms = Some (w', ms', r)"
  shows "\<forall>sent \<in> set (w_calls w'). sent = ms
    \<or> env_supports_prefill env \<and> (\<exists>t. t \<noteq> [] \<and> sent = ms @ [plain_message Assistant t])"
  using deadline_loop_calls [OF assms(1) assms(2) [unfolded deadline_retry_def]]
  by (auto simp: fresh_world_def prefilled_def)

theorem deadline_retry_prefill_witness:
  "\<exists>w' ms' r. deadline_retry (constant_env (Inl (Typed (InactivityTimeout ''p'' 60 (Text ''ab''))))) 10 10 fresh_world [] = Some (w', ms', r)
     \<and> (\<forall>sent \<in> set (w_calls w'). sent = [] \<or> (\<exists>t. t \<noteq> [] \<and> sent = [plain_message Assistant t]))"
proof -
  let ?env = "constant_env (Inl (Typed (InactivityTimeout ''p'' 60 (Text ''ab''))))"
  have "\<exists>out. deadline_retry ?env 10 10 fresh_world [] = Some out"
    unfolding deadline_retry_def
    by (rule deadline_loop_returns) (simp_all add: constant_env_def slept_secs_def from_secs_def)
  then obtain w' ms' r where c: "deadline_retry ?env 10 10 fresh_world [] = Some (w', ms', r)" by auto
  have disp: "ascii_lower (err_to_string (Typed (InactivityTimeout ''p'' 60 (Text ''ab'')))) =
      ''p: provider stopped sending data for 60s''" by code_simp
  have no: "\<not> is_context_overflow ascii_lower (err_to_string (Typed (InactivityTimeout ''p'' 60 (Text ''ab''))))"
    unfolding is_context_overflow_def disp Let_def by code_simp
  have "\<forall>sent \<in> set (w_calls w'). sent = [] \<or> env_supports_prefill ?env
      \<and> (\<exists>t. t \<noteq> [] \<and> sent = [] @ [plain_message Assistant t])"
    by (rule deadline_retry_prefill [OF _ c]) (use no in \<open>auto simp: constant_env_def\<close>)
  with c show ?thesis by (auto simp del: deadline_loop.simps)
qed

end
