(* ===== verification/Agent_Loop.thy ===== *)
theory Agent_Loop
  imports Tool_Batch Llm_Call Text_Codec
begin

text \<open>
  \<open>agent/pipeline/execute.rs\<close>: the loop of LLM calls and tool batches that answers one message. The
  streaming LLM call of iteration \<open>i\<close> is an argument: the chunks it sends, the messages it leaves and its
  result, whatever the retry layers of theory \<open>Llm_Call\<close> did on the way. The sink answers every event;
  the state records the events handed to it and the message rows whose insertion the loop starts.
\<close>

section \<open>State and environment\<close>

datatype sink_error = SinkClosed | SinkFull | SinkFatal bytes

datatype execute_status = EDone | EFailed bytes | EInterrupted bytes

record execute_outcome =
  eo_status :: execute_status
  eo_final_text :: bytes
  eo_thinking_json :: "json option"
  eo_messages_len :: nat
  eo_parent :: uuid

record row_write =
  rw_id :: uuid
  rw_role :: bytes
  rw_agent :: bytes
  rw_content :: bytes
  rw_tool_calls :: "tool_call list"
  rw_tool_call_id :: "bytes option"
  rw_thinking :: "thinking_block list"
  rw_parent :: "uuid option"

record usage_write =
  uw_agent :: bytes
  uw_provider :: bytes
  uw_model :: bytes
  uw_tokens :: token_usage

record loop_env =
  le_config :: tool_loop_config
  le_model :: bytes
  le_compaction :: "compaction_config option"
  le_llm :: "nat \<Rightarrow> message list \<Rightarrow> bytes list \<times> message list \<times> reply"
  le_sink :: "nat \<Rightarrow> stream_event \<Rightarrow> (sink_error, unit) result"
  le_cancelled_at_start :: bool
  le_cancelled :: "nat \<Rightarrow> bool"
  le_batch :: "nat \<Rightarrow> batch_env"
  le_agent_name :: bytes
  le_provider_name :: bytes
  le_message_id :: bytes
  le_assistant_id :: "nat \<Rightarrow> uuid"
  le_is_match :: regex_engine
  le_parse_json :: "bytes \<Rightarrow> json option"
  le_thinking_value :: "thinking_block list \<Rightarrow> json option"

text \<open>\<open>ls_offered\<close> lists the events handed to \<open>sink.emit\<close>, in order. The sink may refuse one: \<open>le_sink\<close> gives
  its answer to the n-th offer, and \<open>sink_taken\<close> below the events it took. \<open>SseSink\<close> refuses the text deltas
  that find the channel full and reports them like a closed client.\<close>

record loop_state =
  ls_messages :: "message list"
  ls_detector :: loop_detector
  ls_parent :: uuid
  ls_chars :: nat
  ls_nudges :: nat
  ls_offered :: "stream_event list"
  ls_rows :: "row_write list"
  ls_usage :: "usage_write list"
  ls_wal :: "(bytes \<times> json) list"

text \<open>A panic leaves the state before the batch that panicked.\<close>

datatype turn =
    TPanic loop_state
  | TErr bytes loop_state
  | TReturn execute_outcome loop_state
  | TNext loop_state

text \<open>\<open>sink.emit(ev)\<close>: the offer and the answer of the sink.\<close>

definition emit_to :: "loop_env \<Rightarrow> stream_event \<Rightarrow> loop_state \<Rightarrow> loop_state \<times> (sink_error, unit) result" where
  "emit_to env ev st =
     (st\<lparr>ls_offered := ls_offered st @ [ev]\<rparr>, le_sink env (length (ls_offered st)) ev)"

text \<open>\<open>let _ = sink.emit(ev)\<close>.\<close>

definition emit_ignore :: "loop_env \<Rightarrow> stream_event \<Rightarrow> loop_state \<Rightarrow> loop_state" where
  "emit_ignore env ev st = fst (emit_to env ev st)"

definition outcome_of :: "execute_status \<Rightarrow> bytes \<Rightarrow> json option \<Rightarrow> loop_state \<Rightarrow> execute_outcome" where
  "outcome_of status txt thinking st =
     \<lparr>eo_status = status, eo_final_text = txt, eo_thinking_json = thinking,
      eo_messages_len = length (ls_messages st), eo_parent = ls_parent st\<rparr>"

definition sink_error_text :: "sink_error \<Rightarrow> bytes" where
  "sink_error_text e = (case e of
       SinkClosed \<Rightarrow> ''sink closed (client disconnected)'' | SinkFull \<Rightarrow> ''sink full (backpressure)'' | SinkFatal m \<Rightarrow> m)"

section \<open>Forwarding the chunks of a call\<close>

definition reconnecting_event :: "bytes \<Rightarrow> stream_event" where
  "reconnecting_event rest =
     (let (first, second) = (case find_char rest (CHR '':'') of
            Some i \<Rightarrow> (take i rest, Some (drop (Suc i) rest)) | None \<Rightarrow> (rest, None));
          attempt = unwrap_or (parse_unsigned (2 ^ 32) first) 1;
          delay_ms = unwrap_or (Option.bind second (parse_unsigned (2 ^ 64))) 2000
      in Reconnecting (of_nat attempt) (of_nat delay_ms))"

text \<open>The accumulated text and the first sink error other than \<open>Closed\<close>.\<close>

definition note_sink_error :: "(sink_error, unit) result \<Rightarrow> sink_error option \<Rightarrow> sink_error option" where
  "note_sink_error r first_err = (case r of
       Inr _ \<Rightarrow> first_err
     | Inl SinkClosed \<Rightarrow> first_err
     | Inl e \<Rightarrow> if first_err = None then Some e else first_err)"

definition emit_chunk ::
  "loop_env \<Rightarrow> bytes \<Rightarrow> loop_state \<times> bytes \<times> sink_error option \<Rightarrow> loop_state \<times> bytes \<times> sink_error option" where
  "emit_chunk env chunk = (\<lambda>(st, partial, first_err).
     if starts_with chunk RECONNECTING_PREFIX
     then (let (st', r) = emit_to env (reconnecting_event (drop (length RECONNECTING_PREFIX) chunk)) st
           in (st', partial, note_sink_error r first_err))
     else (let (st', r) = emit_to env (TextDelta chunk) st
           in (st', partial @ chunk, note_sink_error r first_err)))"

text \<open>The \<open>select!\<close> loop is biased to the chunks and drains them after the call: every chunk is forwarded,
  in order, before the result is looked at.\<close>

fun forward_chunks :: "loop_env \<Rightarrow> bytes list \<Rightarrow> loop_state \<times> bytes \<times> sink_error option \<Rightarrow> loop_state \<times> bytes \<times> sink_error option" where
  "forward_chunks env [] acc = acc"
| "forward_chunks env (c # cs) acc = forward_chunks env cs (emit_chunk env c acc)"

definition forward_chunks_into_sink :: "loop_env \<Rightarrow> bytes list \<Rightarrow> loop_state \<Rightarrow> loop_state \<times> bytes \<times> sink_error option" where
  "forward_chunks_into_sink env chunks st = forward_chunks env chunks (st, [], None)"

section \<open>Markers in tool results\<close>

definition RICH_CARD_PREFIX :: bytes where
  "RICH_CARD_PREFIX = ''__rich_card__:''"

definition FILE_PREFIX :: bytes where
  "FILE_PREFIX = ''__file__:''"


definition file_events :: "loop_env \<Rightarrow> bytes \<Rightarrow> stream_event list" where
  "file_events env json_str = (case le_parse_json env json_str of
       None \<Rightarrow> []
     | Some meta \<Rightarrow>
         let url = unwrap_or (Option.bind (json_get meta ''url'') json_as_str) [];
             media_type = unwrap_or (Option.bind (json_get meta ''mediaType'') json_as_str) ''application/octet-stream''
         in if url = [] then [] else [File url media_type])"

definition card_events :: "loop_env \<Rightarrow> bytes \<Rightarrow> stream_event list" where
  "card_events env json_str = (case le_parse_json env json_str of
       None \<Rightarrow> []
     | Some data \<Rightarrow> [RichCard (unwrap_or (Option.bind (json_get data ''card_type'') json_as_str) ''table'') data])"

text \<open>The display text and the events for the markers.\<close>

definition tool_result_parts :: "loop_env \<Rightarrow> bytes \<Rightarrow> bytes \<times> stream_event list" where
  "tool_result_parts env tool_result =
     (if starts_with tool_result RICH_CARD_PREFIX
      then (''Rich card displayed'', card_events env (drop (length RICH_CARD_PREFIX) tool_result))
      else if contains tool_result FILE_PREFIX
      then (let ls = lines tool_result;
                plain = filter (\<lambda>l. \<not> starts_with l FILE_PREFIX) ls;
                evs = concat (map (\<lambda>l. file_events env (drop (length FILE_PREFIX) l))
                        (filter (\<lambda>l. starts_with l FILE_PREFIX) ls));
                txt = join [newline] plain
            in (if txt = [] then ''Image displayed inline in the chat. Do NOT use canvas or other tools to show it again.''
                else txt, evs))
      else (tool_result, []))"

definition extract_tool_result_events :: "loop_env \<Rightarrow> bytes \<Rightarrow> loop_state \<Rightarrow> loop_state \<times> bytes" where
  "extract_tool_result_events env tool_result st =
     (let (display, evs) = tool_result_parts env tool_result
      in (foldl (\<lambda>s ev. emit_ignore env ev s) st evs, display))"

definition build_loop_nudge_message :: "bytes option \<Rightarrow> bytes" where
  "build_loop_nudge_message reason =
     ''LOOP DETECTED: You have repeated the same sequence of actions ('' @ unwrap_or reason ''repeating pattern''
     @ ''). Change your approach entirely. If the task is too large for a single session, tell the user and suggest breaking it into smaller steps. Do NOT retry the same approach.''"

section \<open>One turn\<close>

definition content_bytes :: "message list \<Rightarrow> nat" where
  "content_bytes ms = sum_list (map (\<lambda>m. length (msg_content m)) ms)"

definition tool_message :: "bytes \<Rightarrow> bytes \<Rightarrow> message" where
  "tool_message call_id content =
     \<lparr>msg_role = Tool, msg_content = content, msg_tool_calls = None, msg_tool_call_id = Some call_id, msg_thinking_blocks = []\<rparr>"

text \<open>The executor builds the environment of the batch from the loop's arguments.\<close>

definition batch_for :: "loop_env \<Rightarrow> nat \<Rightarrow> loop_state \<Rightarrow> batch_env" where
  "batch_for env i st =
     (le_batch env i)\<lparr>b_context := JNull, b_channel := [], current_context_chars := content_bytes (ls_messages st),
       b_detect_loops := tool_loop_config.detect_loops (le_config env),
       persist_ctx := Some (le_agent_name env, Some (ls_parent st))\<rparr>"

definition announce_call :: "loop_env \<Rightarrow> (json \<Rightarrow> bytes) \<Rightarrow> loop_state \<Rightarrow> tool_call \<Rightarrow> loop_state" where
  "announce_call env ser st tc =
     emit_ignore env (ToolCallArgs (tc_id tc) (ser (tc_arguments tc)))
       (emit_ignore env (ToolCallStart (tc_id tc) (tc_name tc)) st)"

definition add_result :: "loop_env \<Rightarrow> loop_state \<Rightarrow> tool_batch_result \<Rightarrow> loop_state" where
  "add_result env st b =
     (let (st1, display) = extract_tool_result_events env (br_result b) st;
          st2 = emit_ignore env (ToolResult (br_tool_call_id b) display) st1
      in st2\<lparr>ls_messages := ls_messages st2 @ [tool_message (br_tool_call_id b) display],
             ls_chars := ls_chars st2 + char_count display,
             ls_parent := (case br_tool_msg_id b of Some p \<Rightarrow> p | None \<Rightarrow> ls_parent st2)\<rparr>)"

definition tool_row_writes :: "effect list \<Rightarrow> row_write list" where
  "tool_row_writes es = List.map_filter (\<lambda>e. case e of
       PersistTool i agent call content p \<Rightarrow>
         Some \<lparr>rw_id = i, rw_role = ''tool'', rw_agent = agent, rw_content = content, rw_tool_calls = [],
               rw_tool_call_id = Some call, rw_thinking = [], rw_parent = p\<rparr>
     | _ \<Rightarrow> None) es"

definition wal_writes :: "effect list \<Rightarrow> (bytes \<times> json) list" where
  "wal_writes es = List.map_filter (\<lambda>e. case e of Wal t p \<Rightarrow> Some (t, p) | _ \<Rightarrow> None) es"

text \<open>Steps 8 and 9: the assistant message with its calls joins the context and the chain.\<close>

definition begin_tools :: "loop_env \<Rightarrow> nat \<Rightarrow> bytes \<Rightarrow> llm_response \<Rightarrow> loop_state \<Rightarrow> loop_state" where
  "begin_tools env i partial resp st =
     (let st1 = st\<lparr>ls_messages := ls_messages st @
                    [\<lparr>msg_role = Assistant, msg_content = partial, msg_tool_calls = Some (lr_tool_calls resp),
                      msg_tool_call_id = None, msg_thinking_blocks = lr_thinking_blocks resp\<rparr>],
                  ls_chars := ls_chars st + char_count partial,
                  ls_rows := ls_rows st @
                    [\<lparr>rw_id = le_assistant_id env i, rw_role = ''assistant'', rw_agent = le_agent_name env, rw_content = partial,
                      rw_tool_calls = lr_tool_calls resp, rw_tool_call_id = None, rw_thinking = lr_thinking_blocks resp,
                      rw_parent = Some (ls_parent st)\<rparr>],
                  ls_parent := le_assistant_id env i\<rparr>
      in foldl (announce_call env (b_ser (le_batch env i))) st1 (lr_tool_calls resp))"

text \<open>Step 10 and the end of the turn. The rows and log entries of the calls before a panic are on their
  way already.\<close>

definition step_id_of :: "nat \<Rightarrow> bytes" where
  "step_id_of i = ''step_'' @ show_nat i"

definition run_tools :: "loop_env \<Rightarrow> nat \<Rightarrow> llm_response \<Rightarrow> loop_state \<Rightarrow> turn" where
  "run_tools env i resp st =
     (let calls = lr_tool_calls resp;
          end_step = emit_ignore env (StepFinish (step_id_of i) ''tool-calls'')
      in case run_batch (batch_for env i st) calls (ls_detector st) of
           Panicked b \<Rightarrow> TPanic (st\<lparr>ls_rows := ls_rows st @ tool_row_writes (bs_effects b), ls_wal := ls_wal st @ wal_writes (bs_effects b)\<rparr>)
         | Continue b \<Rightarrow>
             let st1 = st\<lparr>ls_detector := bs_detector b, ls_rows := ls_rows st @ tool_row_writes (bs_effects b), ls_wal := ls_wal st @ wal_writes (bs_effects b)\<rparr>
             in TNext (end_step (foldl (add_result env) st1 (reassemble calls b)))
         | Broke reason b \<Rightarrow>
             let st1 = st\<lparr>ls_detector := bs_detector b, ls_rows := ls_rows st @ tool_row_writes (bs_effects b), ls_wal := ls_wal st @ wal_writes (bs_effects b)\<rparr>
             in if ls_nudges st1 < max_loop_nudges (le_config env)
                then TNext (end_step (st1\<lparr>ls_messages := ls_messages st1 @
                              [plain_message System (build_loop_nudge_message (Some reason))],
                            ls_nudges := ls_nudges st1 + 1\<rparr>))
                else let st2 = emit_ignore env (Finish ''loop_detected'' False) (end_step st1)
                     in TReturn (outcome_of (EFailed ''loop_detected_max_nudges'') [] None st2) st2)"

text \<open>Step 7: the final answer.\<close>

definition answer :: "loop_env \<Rightarrow> nat \<Rightarrow> bytes \<Rightarrow> llm_response \<Rightarrow> loop_state \<Rightarrow> turn" where
  "answer env i partial resp st =
     (let st1 = emit_ignore env (StepFinish (step_id_of i) ''stop'') st
      in case emit_to env (Finish ''stop'' False) st1 of
           (st2, Inr _) \<Rightarrow>
             TReturn (outcome_of EDone partial
               (if lr_thinking_blocks resp = [] then None else le_thinking_value env (lr_thinking_blocks resp)) st2) st2
         | (st2, Inl SinkClosed) \<Rightarrow> TReturn (outcome_of (EInterrupted ''sink_closed'') partial None st2) st2
         | (st2, Inl e) \<Rightarrow> TErr (sink_error_text e) st2)"

text \<open>Step 6, the error branch.\<close>

definition llm_failed :: "loop_env \<Rightarrow> nat \<Rightarrow> anyhow_error \<Rightarrow> loop_state \<Rightarrow> turn" where
  "llm_failed env i e st =
     (let user_msg = format_user_error (le_is_match env) e
      in case emit_to env (TextDelta user_msg) st of
           (st1, Inl SinkFull) \<Rightarrow> TErr (sink_error_text SinkFull) st1
         | (st1, Inl (SinkFatal m)) \<Rightarrow> TErr m st1
         | (st1, _) \<Rightarrow>
             let st2 = emit_ignore env (StepFinish (step_id_of i) ''error'') st1
             in TReturn (outcome_of (EFailed (''LLM call failed: '' @ err_to_string e)) user_msg None st2) st2)"

text \<open>The tokens of a successful call are recorded for the agent; the insertion is not waited for.\<close>

definition note_usage :: "loop_env \<Rightarrow> llm_response \<Rightarrow> loop_state \<Rightarrow> loop_state" where
  "note_usage env resp st = (case lr_usage resp of
       None \<Rightarrow> st
     | Some usage \<Rightarrow> st\<lparr>ls_usage := ls_usage st @
         [\<lparr>uw_agent = le_agent_name env, uw_provider = unwrap_or (lr_provider resp) (le_provider_name env),
           uw_model = unwrap_or (lr_model resp) [], uw_tokens = usage\<rparr>]\<rparr>)"

definition after_llm :: "loop_env \<Rightarrow> nat \<Rightarrow> bytes \<Rightarrow> reply \<Rightarrow> loop_state \<Rightarrow> turn" where
  "after_llm env i partial r st = (case r of
       Inl e \<Rightarrow> llm_failed env i e st
     | Inr resp \<Rightarrow>
         if lr_tool_calls resp = [] then answer env i partial resp (note_usage env resp st)
         else run_tools env i resp (begin_tools env i partial resp (note_usage env resp st)))"

definition do_turn :: "loop_env \<Rightarrow> nat \<Rightarrow> loop_state \<Rightarrow> turn" where
  "do_turn env i st =
     (if le_cancelled env i then TReturn (outcome_of (EInterrupted ''cancel_token'') [] None st) st
      else case emit_to env (StepStart (step_id_of i)) st of
        (st1, Inl SinkClosed) \<Rightarrow> TReturn (outcome_of (EInterrupted ''sink_closed'') [] None st1) st1
      | (st1, Inl e) \<Rightarrow> TErr (sink_error_text e) st1
      | (st1, Inr _) \<Rightarrow>
          let (ms, chars) = compact_tool_results (le_model env) (le_compaction env) (ls_messages st1) (ls_chars st1);
              (chunks, ms', r) = le_llm env i ms;
              (st2, partial, sink_fatal) =
                forward_chunks_into_sink env chunks (st1\<lparr>ls_messages := ms', ls_chars := chars\<rparr>)
          in case sink_fatal of
               Some e \<Rightarrow> TErr (sink_error_text e) st2
             | None \<Rightarrow> after_llm env i partial r st2)"

section \<open>The loop\<close>

fun turn_loop :: "loop_env \<Rightarrow> nat \<Rightarrow> nat \<Rightarrow> loop_state \<Rightarrow> turn" where
  "turn_loop env 0 i st =
     (let st1 = emit_ignore env (Finish ''turn_limit'' False) st
      in TReturn (outcome_of EDone [] None st1) st1)"
| "turn_loop env (Suc left) i st = (case do_turn env i st of
       TNext st' \<Rightarrow> turn_loop env left (Suc i) st'
     | r \<Rightarrow> r)"

definition loop_start :: "message list \<Rightarrow> loop_detector \<Rightarrow> uuid \<Rightarrow> loop_state" where
  "loop_start history det user_message_id =
     \<lparr>ls_messages = history, ls_detector = det, ls_parent = user_message_id,
      ls_chars = sum_list (map (\<lambda>m. char_count (msg_content m)) history), ls_nudges = 0, ls_offered = [], ls_rows = [], ls_usage = [], ls_wal = []\<rparr>"

definition execute :: "loop_env \<Rightarrow> message list \<Rightarrow> loop_detector \<Rightarrow> uuid \<Rightarrow> turn" where
  "execute env history det user_message_id =
     (let st = loop_start history det user_message_id
      in if le_cancelled_at_start env then TReturn (outcome_of (EInterrupted ''cancel_token'') [] None st) st
         else case emit_to env (MessageStart (le_message_id env)) st of
           (st1, Inr _) \<Rightarrow> turn_loop env (effective_max_iterations (le_config env)) 0 st1
         | (st1, Inl (SinkFatal m)) \<Rightarrow> TErr m st1
         | (st1, Inl _) \<Rightarrow> TReturn (outcome_of (EInterrupted ''sink_closed'') [] None st1) st1)"

section \<open>Events of a run\<close>

text \<open>The events that delimit a run: the start of a step and the end of the message.\<close>

definition is_mark :: "stream_event \<Rightarrow> bool" where
  "is_mark ev = (case ev of StepStart _ \<Rightarrow> True | Finish _ _ \<Rightarrow> True | _ \<Rightarrow> False)"

definition marks :: "loop_state \<Rightarrow> stream_event list" where
  "marks st = filter is_mark (ls_offered st)"

lemma is_mark_simps [simp]:
  "is_mark (StepStart a)" "is_mark (Finish a b)" "\<not> is_mark (TextDelta a)" "\<not> is_mark (StepFinish a c)"
  "\<not> is_mark (MessageStart a)" "\<not> is_mark (ToolCallStart a c)" "\<not> is_mark (ToolCallArgs a c)"
  "\<not> is_mark (ToolResult a c)" "\<not> is_mark (File a c)" "\<not> is_mark (RichCard a d)" "\<not> is_mark (Reconnecting w v)"
  by (simp_all add: is_mark_def)

lemma sink_emit_simps [simp]:
  "ls_offered (fst (emit_to env ev st)) = ls_offered st @ [ev]" "ls_messages (fst (emit_to env ev st)) = ls_messages st"
  "ls_rows (fst (emit_to env ev st)) = ls_rows st" "ls_parent (fst (emit_to env ev st)) = ls_parent st"
  "ls_detector (fst (emit_to env ev st)) = ls_detector st" "ls_nudges (fst (emit_to env ev st)) = ls_nudges st"
  by (simp_all add: emit_to_def)

lemma emit_ignore_simps [simp]:
  "ls_offered (emit_ignore env ev st) = ls_offered st @ [ev]" "ls_messages (emit_ignore env ev st) = ls_messages st"
  "ls_rows (emit_ignore env ev st) = ls_rows st" "ls_parent (emit_ignore env ev st) = ls_parent st"
  "ls_detector (emit_ignore env ev st) = ls_detector st" "ls_nudges (emit_ignore env ev st) = ls_nudges st"
  by (simp_all add: emit_ignore_def)

lemma note_usage_simps [simp]:
  "ls_offered (note_usage env resp st) = ls_offered st" "ls_messages (note_usage env resp st) = ls_messages st"
  "ls_rows (note_usage env resp st) = ls_rows st" "ls_parent (note_usage env resp st) = ls_parent st"
  "ls_detector (note_usage env resp st) = ls_detector st" "ls_nudges (note_usage env resp st) = ls_nudges st"
  "ls_chars (note_usage env resp st) = ls_chars st"
  by (simp_all add: note_usage_def split: option.splits)

text \<open>What the client sees of a chunk.\<close>

definition chunk_event :: "bytes \<Rightarrow> stream_event" where
  "chunk_event c = (if starts_with c RECONNECTING_PREFIX
     then reconnecting_event (drop (length RECONNECTING_PREFIX) c) else TextDelta c)"

definition text_of :: "stream_event list \<Rightarrow> bytes" where
  "text_of evs = concat (map (\<lambda>ev. case ev of TextDelta s \<Rightarrow> s | _ \<Rightarrow> []) evs)"

lemma text_of_simps [simp]: "text_of [] = []" "text_of (a @ b) = text_of a @ text_of b"
  by (simp_all add: text_of_def)

text \<open>The texts among the events, and the events the sink took of those it was offered from the \<open>n\<close>-th on.\<close>

definition texts_of :: "stream_event list \<Rightarrow> bytes list" where
  "texts_of evs = List.map_filter (\<lambda>ev. case ev of TextDelta s \<Rightarrow> Some s | _ \<Rightarrow> None) evs"

fun sink_taken :: "loop_env \<Rightarrow> nat \<Rightarrow> stream_event list \<Rightarrow> stream_event list" where
  "sink_taken env n [] = []"
| "sink_taken env n (ev # evs) =
     (case le_sink env n ev of Inr _ \<Rightarrow> [ev] | Inl _ \<Rightarrow> []) @ sink_taken env (Suc n) evs"

lemma texts_of_simps [simp]:
  "texts_of [] = []"
  "texts_of (ev # evs) = (case ev of TextDelta s \<Rightarrow> s # texts_of evs | _ \<Rightarrow> texts_of evs)"
  by (simp_all add: texts_of_def List.map_filter_simps split: stream_event.split)

lemma texts_of_append [simp]: "texts_of (a @ b) = texts_of a @ texts_of b"
  by (simp add: texts_of_def List.map_filter_def)

lemma text_of_texts: "text_of evs = concat (texts_of evs)"
  by (induction evs) (simp_all add: text_of_def split: stream_event.split)

lemma texts_of_chunks: "texts_of (map chunk_event cs) = filter (\<lambda>c. \<not> starts_with c RECONNECTING_PREFIX) cs"
  by (induction cs) (auto simp: chunk_event_def reconnecting_event_def Let_def split_beta)

lemma sink_taken_texts: "subseq (texts_of (sink_taken env n evs)) (texts_of evs)"
  by (induction evs arbitrary: n) (auto split: sum.split stream_event.split)

lemma sink_taken_all:
  "(\<And>n s. le_sink env n (TextDelta s) = Inr ()) \<Longrightarrow> texts_of (sink_taken env n evs) = texts_of evs"
  by (induction evs arbitrary: n) (auto split: sum.split stream_event.split)

lemma chunk_event_text: "text_of [chunk_event c] = (if starts_with c RECONNECTING_PREFIX then [] else c)"
  by (simp add: text_of_def chunk_event_def reconnecting_event_def Let_def split_beta)

lemma chunk_event_mark [simp]: "\<not> is_mark (chunk_event c)"
  by (simp add: chunk_event_def reconnecting_event_def Let_def split_beta)

lemma emit_chunk_effect:
  "\<exists>err'. emit_chunk env c (st, partial, err) =
     (fst (emit_to env (chunk_event c) st), partial @ text_of [chunk_event c], err')"
  unfolding chunk_event_text by (simp add: emit_chunk_def chunk_event_def Let_def split_beta)

lemma forward_chunks_effect:
  "forward_chunks env cs (st, partial, err) = (st', partial', err') \<Longrightarrow>
     st' = st\<lparr>ls_offered := ls_offered st @ map chunk_event cs\<rparr> \<and> partial' = partial @ text_of (map chunk_event cs)"
proof (induction cs arbitrary: st partial err)
  case (Cons c cs)
  let ?st1 = "fst (emit_to env (chunk_event c) st)"
  obtain err1 where "emit_chunk env c (st, partial, err) = (?st1, partial @ text_of [chunk_event c], err1)"
    using emit_chunk_effect by blast
  with Cons show ?case
    using text_of_simps(2)[of "[chunk_event c]" "map chunk_event cs"] by (fastforce simp: emit_to_def)
qed simp

lemma forward_chunks_into_sink_effect:
  assumes "forward_chunks_into_sink env cs st = (st', partial, err)"
  shows "st' = st\<lparr>ls_offered := ls_offered st @ map chunk_event cs\<rparr>" "partial = text_of (map chunk_event cs)"
  using forward_chunks_effect[OF assms[unfolded forward_chunks_into_sink_def]] by simp_all

text \<open>Steps that only add events of the middle of a turn.\<close>

definition quiet :: "loop_state \<Rightarrow> loop_state \<Rightarrow> bool" where
  "quiet st st' \<longleftrightarrow> (\<exists>evs. ls_offered st' = ls_offered st @ evs \<and> filter is_mark evs = [])"

lemma quiet_refl [simp]: "quiet st st" "ls_offered st' = ls_offered st \<Longrightarrow> quiet st st'"
  by (simp_all add: quiet_def)

lemma quiet_trans [trans]: "quiet a b \<Longrightarrow> quiet b c \<Longrightarrow> quiet a c"
  by (auto simp: quiet_def)

lemma quiet_emit: "\<not> is_mark ev \<Longrightarrow> quiet st (emit_ignore env ev st)"
  by (simp add: quiet_def)

lemma quiet_marks: "quiet st st' \<Longrightarrow> marks st' = marks st"
  by (auto simp: quiet_def marks_def)

lemma quiet_foldl: "(\<And>x s. quiet s (f s x)) \<Longrightarrow> quiet st (foldl f st xs)"
proof (induction xs arbitrary: st)
  case (Cons x xs)
  then show ?case using quiet_trans[of st "f st x"] by simp
qed simp

lemma tool_result_events_marks: "ev \<in> set (snd (tool_result_parts env r)) \<Longrightarrow> \<not> is_mark ev"
  by (auto simp: tool_result_parts_def card_events_def file_events_def Let_def split: if_splits option.splits)

lemma foldl_emit_effect:
  "foldl (\<lambda>s ev. emit_ignore env ev s) st evs = st\<lparr>ls_offered := ls_offered st @ evs\<rparr>"
  by (induction evs arbitrary: st) (simp_all add: emit_ignore_def emit_to_def)

lemma extract_effect:
  "extract_tool_result_events env r st =
     (st\<lparr>ls_offered := ls_offered st @ snd (tool_result_parts env r)\<rparr>, fst (tool_result_parts env r))"
  by (simp add: extract_tool_result_events_def split_beta foldl_emit_effect)

lemma add_result_effect:
  "ls_messages (add_result env st b) = ls_messages st @ [tool_message (br_tool_call_id b) (fst (tool_result_parts env (br_result b)))]"
  "ls_parent (add_result env st b) = (case br_tool_msg_id b of Some p \<Rightarrow> p | None \<Rightarrow> ls_parent st)"
  "ls_rows (add_result env st b) = ls_rows st" "ls_nudges (add_result env st b) = ls_nudges st"
  "quiet st (add_result env st b)"
  using tool_result_events_marks[of _ env "br_result b"]
  by (auto simp: add_result_def extract_effect quiet_def filter_empty_conv Let_def split: option.splits)

lemma add_results_effect:
  "ls_messages (foldl (add_result env) st bs) = ls_messages st @
     map (\<lambda>b. tool_message (br_tool_call_id b) (fst (tool_result_parts env (br_result b)))) bs"
  "ls_rows (foldl (add_result env) st bs) = ls_rows st"
  by (induction bs arbitrary: st) (simp_all add: add_result_effect)

lemma add_results_quiet: "quiet st (foldl (add_result env) st bs)"
  by (rule quiet_foldl) (rule add_result_effect)

lemma announce_effect:
  "ls_messages (foldl (announce_call env ser) st calls) = ls_messages st"
  "ls_rows (foldl (announce_call env ser) st calls) = ls_rows st"
  "ls_parent (foldl (announce_call env ser) st calls) = ls_parent st"
  "ls_detector (foldl (announce_call env ser) st calls) = ls_detector st"
  "ls_nudges (foldl (announce_call env ser) st calls) = ls_nudges st"
  by (induction calls arbitrary: st) (simp_all add: announce_call_def)

lemma announce_quiet: "quiet st (foldl (announce_call env ser) st calls)"
  by (rule quiet_foldl) (simp add: announce_call_def quiet_def)

lemma begin_tools_effect:
  "ls_rows (begin_tools env i partial resp st) = ls_rows st @
     [\<lparr>rw_id = le_assistant_id env i, rw_role = ''assistant'', rw_agent = le_agent_name env, rw_content = partial,
       rw_tool_calls = lr_tool_calls resp, rw_tool_call_id = None, rw_thinking = lr_thinking_blocks resp,
       rw_parent = Some (ls_parent st)\<rparr>]"
  "ls_parent (begin_tools env i partial resp st) = le_assistant_id env i"
  "ls_messages (begin_tools env i partial resp st) = ls_messages st @
     [\<lparr>msg_role = Assistant, msg_content = partial, msg_tool_calls = Some (lr_tool_calls resp),
       msg_tool_call_id = None, msg_thinking_blocks = lr_thinking_blocks resp\<rparr>]"
  "ls_detector (begin_tools env i partial resp st) = ls_detector st"
  "ls_nudges (begin_tools env i partial resp st) = ls_nudges st"
  by (simp_all add: begin_tools_def Let_def announce_effect)

lemma begin_tools_quiet: "quiet st (begin_tools env i partial resp st)"
  unfolding begin_tools_def Let_def by (rule quiet_trans[OF _ announce_quiet]) simp

lemma run_tools_marks:
  "run_tools env i resp st = TNext st' \<Longrightarrow> marks st' = marks st"
  "run_tools env i resp st = TReturn oc st' \<Longrightarrow>
     marks st' = marks st @ [Finish ''loop_detected'' False] \<and> eo_status oc \<noteq> EDone"
proof -
  let ?d = "\<lambda>b. st\<lparr>ls_detector := bs_detector b, ls_rows := ls_rows st @ tool_row_writes (bs_effects b), ls_wal := ls_wal st @ wal_writes (bs_effects b)\<rparr>"
  have "marks (foldl (add_result env) (?d b) bs) = marks st" for b bs
    using quiet_marks[OF add_results_quiet[of "?d b" env bs]] by (simp add: marks_def)
  then show "run_tools env i resp st = TNext st' \<Longrightarrow> marks st' = marks st"
    by (auto simp: run_tools_def Let_def marks_def split: batch_flow.splits if_splits)
  show "run_tools env i resp st = TReturn oc st' \<Longrightarrow>
     marks st' = marks st @ [Finish ''loop_detected'' False] \<and> eo_status oc \<noteq> EDone"
    by (auto simp: run_tools_def Let_def marks_def outcome_of_def split: batch_flow.splits if_splits)
qed

lemma after_llm_marks:
  "after_llm env i partial r st = TNext st' \<Longrightarrow> marks st' = marks st"
  "after_llm env i partial r st = TReturn oc st' \<Longrightarrow>
     (\<exists>x. marks st' = marks st @ x \<and> length x \<le> 1 \<and> (\<forall>ev \<in> set x. \<not> (\<exists>s. ev = StepStart s)))
     \<and> (eo_status oc = EDone \<longrightarrow> marks st' = marks st @ [Finish ''stop'' False]
          \<and> last (ls_offered st') = Finish ''stop'' False \<and> eo_final_text oc = partial)"
proof -
  have b: "marks (begin_tools env i partial resp (note_usage env resp st)) = marks st" for resp
    using quiet_marks[OF begin_tools_quiet[of "note_usage env resp st" env i partial resp]] by (simp add: marks_def)
  show "after_llm env i partial r st = TNext st' \<Longrightarrow> marks st' = marks st"
    using b run_tools_marks(1)
    by (auto simp: after_llm_def llm_failed_def answer_def Let_def
        split: sum.splits if_splits prod.splits sink_error.splits)
  assume r: "after_llm env i partial r st = TReturn oc st'"
  show "(\<exists>x. marks st' = marks st @ x \<and> length x \<le> 1 \<and> (\<forall>ev \<in> set x. \<not> (\<exists>s. ev = StepStart s)))
     \<and> (eo_status oc = EDone \<longrightarrow> marks st' = marks st @ [Finish ''stop'' False]
          \<and> last (ls_offered st') = Finish ''stop'' False \<and> eo_final_text oc = partial)"
  proof (cases r)
    case (Inl e)
    with r have "after_llm env i partial (Inl e) st = TReturn oc st'" by simp
    then show ?thesis
      by (auto simp: after_llm_def llm_failed_def emit_to_def emit_ignore_def Let_def marks_def outcome_of_def
          split: sum.splits sink_error.splits)
  next
    case (Inr resp)
    show ?thesis
    proof (cases "lr_tool_calls resp = []")
      case True
      with r Inr show ?thesis
        by (auto simp: after_llm_def answer_def emit_to_def emit_ignore_def Let_def marks_def outcome_of_def
            split: sum.splits sink_error.splits)
    next
      case False
      with r Inr show ?thesis using run_tools_marks(2) b by (fastforce simp: after_llm_def)
    qed
  qed
qed

lemma do_turn_marks:
  "do_turn env i st = TNext st' \<Longrightarrow> marks st' = marks st @ [StepStart (step_id_of i)]"
  "do_turn env i st = TReturn oc st' \<Longrightarrow>
     (\<exists>x. marks st' = marks st @ x \<and> length (filter (\<lambda>ev. \<exists>s. ev = StepStart s) x) \<le> 1)
     \<and> (eo_status oc = EDone \<longrightarrow> marks st' = marks st @ [StepStart (step_id_of i), Finish ''stop'' False]
          \<and> last (ls_offered st') = Finish ''stop'' False)"
proof -
  obtain ms chars where c: "compact_tool_results (le_model env) (le_compaction env) (ls_messages st) (ls_chars st) = (ms, chars)"
    by fastforce
  obtain chunks ms' r where l: "le_llm env i ms = (chunks, ms', r)" using prod_cases3 by blast
  let ?st1 = "fst (emit_to env (StepStart (step_id_of i)) st)\<lparr>ls_messages := ms', ls_chars := chars\<rparr>"
  obtain st2 partial fatal where f: "forward_chunks_into_sink env chunks ?st1 = (st2, partial, fatal)" using prod_cases3 by blast
  have m2: "marks st2 = marks st @ [StepStart (step_id_of i)]"
    using forward_chunks_into_sink_effect(1)[OF f] by (simp add: marks_def filter_map comp_def)
  have eq: "do_turn env i st =
      (if le_cancelled env i then TReturn (outcome_of (EInterrupted ''cancel_token'') [] None st) st
       else case snd (emit_to env (StepStart (step_id_of i)) st) of
         Inl SinkClosed \<Rightarrow> TReturn (outcome_of (EInterrupted ''sink_closed'') [] None (fst (emit_to env (StepStart (step_id_of i)) st)))
           (fst (emit_to env (StepStart (step_id_of i)) st))
       | Inl e \<Rightarrow> TErr (sink_error_text e) (fst (emit_to env (StepStart (step_id_of i)) st))
       | Inr _ \<Rightarrow> (case fatal of Some e \<Rightarrow> TErr (sink_error_text e) st2 | None \<Rightarrow> after_llm env i partial r st2))"
    using c l f by (simp add: do_turn_def emit_to_def split: sum.splits sink_error.splits option.splits)
  show "do_turn env i st = TNext st' \<Longrightarrow> marks st' = marks st @ [StepStart (step_id_of i)]"
    using after_llm_marks(1)[of env i partial r st2 st'] m2
    by (simp add: eq split: if_splits sum.splits sink_error.splits option.splits)
  assume "do_turn env i st = TReturn oc st'"
  then consider (early) "eo_status oc \<noteq> EDone" "\<exists>x. marks st' = marks st @ x \<and> length x \<le> 1"
    | (llm) "after_llm env i partial r st2 = TReturn oc st'"
    by (auto simp: eq outcome_of_def marks_def split: if_splits sum.splits sink_error.splits option.splits)
  then show "(\<exists>x. marks st' = marks st @ x \<and> length (filter (\<lambda>ev. \<exists>s. ev = StepStart s) x) \<le> 1)
     \<and> (eo_status oc = EDone \<longrightarrow> marks st' = marks st @ [StepStart (step_id_of i), Finish ''stop'' False]
          \<and> last (ls_offered st') = Finish ''stop'' False)"
  proof cases
    case early
    then show ?thesis using length_filter_le order_trans by blast
  next
    case llm
    note a = after_llm_marks(2)[OF llm]
    then obtain x where x: "marks st' = marks st2 @ x" "\<forall>ev \<in> set x. \<not> (\<exists>s. ev = StepStart s)" by blast
    then have "filter (\<lambda>ev. \<exists>s. ev = StepStart s) x = []" by (simp add: filter_empty_conv)
    with x m2 have "marks st' = marks st @ (StepStart (step_id_of i) # x)
        \<and> length (filter (\<lambda>ev. \<exists>s. ev = StepStart s) (StepStart (step_id_of i) # x)) \<le> 1" by simp
    then show ?thesis using a m2 by (intro conjI) (blast, simp)
  qed
qed

definition step_starts :: "stream_event list \<Rightarrow> stream_event list" where
  "step_starts evs = filter (\<lambda>ev. \<exists>s. ev = StepStart s) evs"

lemma step_starts_marks: "step_starts (ls_offered st) = step_starts (marks st)"
  by (auto simp: step_starts_def marks_def is_mark_def intro: filter_cong)

lemma turn_loop_marks:
  assumes "turn_loop env left i st = TReturn oc st'"
  shows "length (step_starts (marks st')) \<le> length (step_starts (marks st)) + left
    \<and> (eo_status oc = EDone \<longrightarrow> (\<exists>k r. k \<le> left
        \<and> marks st' = marks st @ map (\<lambda>j. StepStart (step_id_of j)) [i..<i + k] @ [Finish r False]
        \<and> last (ls_offered st') = Finish r False
        \<and> (r = ''stop'' \<or> r = ''turn_limit'' \<and> k = left)))"
  using assms
proof (induction left arbitrary: i st)
  case 0
  then show ?case by (auto simp: Let_def outcome_of_def marks_def step_starts_def)
next
  case (Suc left)
  show ?case
  proof (cases "do_turn env i st")
    case (TNext st1)
    then have rec: "turn_loop env left (Suc i) st1 = TReturn oc st'" using Suc.prems by simp
    note m = do_turn_marks(1)[OF TNext] and IH = Suc.IH[OF rec]
    have "\<exists>k r. k \<le> Suc left
        \<and> marks st' = marks st @ map (\<lambda>j. StepStart (step_id_of j)) [i..<i + k] @ [Finish r False]
        \<and> last (ls_offered st') = Finish r False
        \<and> (r = ''stop'' \<or> r = ''turn_limit'' \<and> k = Suc left)" if "eo_status oc = EDone"
    proof -
      from IH that obtain k r where k: "k \<le> left"
        "marks st' = marks st1 @ map (\<lambda>j. StepStart (step_id_of j)) [Suc i..<Suc i + k] @ [Finish r False]"
        "last (ls_offered st') = Finish r False" "r = ''stop'' \<or> r = ''turn_limit'' \<and> k = left" by blast
      have "[i..<i + Suc k] = i # [Suc i..<Suc i + k]" by (simp add: upt_conv_Cons)
      then show ?thesis using k m by (intro exI[of _ "Suc k"] exI[of _ r]) simp
    qed
    moreover have "length (step_starts (marks st1)) = Suc (length (step_starts (marks st)))"
      using m by (simp add: step_starts_def)
    ultimately show ?thesis using IH by simp
  next
    case (TReturn o1 st1)
    then have [simp]: "o1 = oc" "st1 = st'" using Suc.prems by simp_all
    note m = do_turn_marks(2)[OF TReturn]
    then have "length (step_starts (marks st')) \<le> length (step_starts (marks st)) + Suc left"
      by (auto simp: step_starts_def)
    moreover have "eo_status oc = EDone \<longrightarrow> (\<exists>k r. k \<le> Suc left
        \<and> marks st' = marks st @ map (\<lambda>j. StepStart (step_id_of j)) [i..<i + k] @ [Finish r False]
        \<and> last (ls_offered st') = Finish r False \<and> (r = ''stop'' \<or> r = ''turn_limit'' \<and> k = Suc left))"
      using m by (intro impI exI[of _ 1] exI[of _ "''stop''"]) simp
    ultimately show ?thesis by blast
  qed (use Suc.prems in simp_all)
qed

lemma execute_returns:
  assumes "execute env history det uid = TReturn oc st"
  obtains (early) "eo_status oc \<noteq> EDone" "length (step_starts (ls_offered st)) = 0" "ls_rows st = []"
  | (loop) st1 where "ls_offered st1 = [MessageStart (le_message_id env)]" "ls_rows st1 = []" "ls_parent st1 = uid"
      "ls_messages st1 = history" "ls_nudges st1 = 0"
      "turn_loop env (effective_max_iterations (le_config env)) 0 st1 = TReturn oc st"
proof -
  let ?st1 = "(loop_start history det uid)\<lparr>ls_offered := [MessageStart (le_message_id env)]\<rparr>"
  consider "eo_status oc \<noteq> EDone \<and> length (step_starts (ls_offered st)) = 0 \<and> ls_rows st = []"
    | "turn_loop env (effective_max_iterations (le_config env)) 0 ?st1 = TReturn oc st"
    using assms by (auto simp: execute_def emit_to_def loop_start_def outcome_of_def step_starts_def Let_def
        split: if_splits sum.splits sink_error.splits)
  then show thesis
    using early loop[of ?st1] by cases (simp_all add: loop_start_def)
qed

text \<open>C18: the shape of a run. A run never starts more steps than the configured maximum; a run that ends
  as done has emitted the steps \<open>0, 1, \<dots>\<close> in order and then exactly one \<open>Finish\<close>, as its last event, with
  the reason \<open>stop\<close>, or \<open>turn_limit\<close> after the maximal number of steps.\<close>

theorem run_event_shape:
  assumes "execute env history det uid = TReturn oc st"
  shows "length (step_starts (ls_offered st)) \<le> effective_max_iterations (le_config env)
    \<and> (eo_status oc = EDone \<longrightarrow> (\<exists>k r. k \<le> effective_max_iterations (le_config env)
        \<and> filter is_mark (ls_offered st) = map (\<lambda>j. StepStart (step_id_of j)) [0..<k] @ [Finish r False]
        \<and> last (ls_offered st) = Finish r False
        \<and> (r = ''stop'' \<or> r = ''turn_limit'' \<and> k = effective_max_iterations (le_config env))))"
  using assms
proof (cases rule: execute_returns)
  case early
  then show ?thesis by simp
next
  case (loop st1)
  then have "marks st1 = []" by (simp add: marks_def)
  then show ?thesis
    using turn_loop_marks[OF loop(6)] step_starts_marks[of st] by (simp add: marks_def step_starts_def)
qed

section \<open>The saved answer\<close>

text \<open>C20: the text a done turn returns for saving is the concatenation of the text chunks that the
  model's call sent in that turn: all of them that are no reconnect signals, in order - including those of
  attempts that timed out and were retried. Each is handed to the sink as one text event, also in this
  order. The client gets those of them that the sink takes, which are all if it refuses none; one that
  finds the channel full is lost for the client and is in the saved text all the same.\<close>

theorem answer_is_streamed_text:
  assumes "do_turn env i st = TReturn oc st'" "eo_status oc = EDone"
  shows "\<exists>evs ms chunks ms' r. le_llm env i ms = (chunks, ms', r)
    \<and> ls_offered st' = ls_offered st @ StepStart (step_id_of i) # evs
    \<and> texts_of evs = filter (\<lambda>c. \<not> starts_with c RECONNECTING_PREFIX) chunks
    \<and> eo_final_text oc = concat (texts_of evs)
    \<and> subseq (texts_of (sink_taken env (Suc (length (ls_offered st))) evs)) (texts_of evs)
    \<and> ((\<forall>n s. le_sink env n (TextDelta s) = Inr ())
        \<longrightarrow> texts_of (sink_taken env (Suc (length (ls_offered st))) evs) = texts_of evs)"
proof -
  obtain ms chars where c: "compact_tool_results (le_model env) (le_compaction env) (ls_messages st) (ls_chars st) = (ms, chars)"
    by fastforce
  obtain chunks ms' r where l: "le_llm env i ms = (chunks, ms', r)" using prod_cases3 by blast
  let ?st1 = "fst (emit_to env (StepStart (step_id_of i)) st)\<lparr>ls_messages := ms', ls_chars := chars\<rparr>"
  obtain st2 partial fatal where f: "forward_chunks_into_sink env chunks ?st1 = (st2, partial, fatal)" using prod_cases3 by blast
  have a: "after_llm env i partial r st2 = TReturn oc st'"
    using assms c l f
    by (auto simp: do_turn_def emit_to_def outcome_of_def split: if_splits sum.splits sink_error.splits option.splits)
  have e2: "ls_offered st2 = ls_offered st @ StepStart (step_id_of i) # map chunk_event chunks"
    and p: "partial = text_of (map chunk_event chunks)"
    using forward_chunks_into_sink_effect[OF f] by simp_all
  have ft: "eo_final_text oc = partial" using after_llm_marks(2)[OF a] assms(2) by blast
  have "\<exists>evs. ls_offered st' = ls_offered st2 @ evs \<and> texts_of evs = []"
    using a assms(2) run_tools_marks(2)
    by (fastforce simp: after_llm_def llm_failed_def answer_def emit_to_def emit_ignore_def outcome_of_def Let_def
        split: sum.splits if_splits sink_error.splits)
  then obtain evs where evs: "ls_offered st' = ls_offered st2 @ evs" "texts_of evs = []" by blast
  let ?evs = "map chunk_event chunks @ evs"
  have "ls_offered st' = ls_offered st @ StepStart (step_id_of i) # ?evs"
    and "texts_of ?evs = filter (\<lambda>c. \<not> starts_with c RECONNECTING_PREFIX) chunks"
    and "eo_final_text oc = concat (texts_of ?evs)"
    using evs e2 p ft by (simp_all add: texts_of_chunks text_of_texts)
  then show ?thesis
    by (intro exI [of _ ?evs] exI [of _ ms] exI [of _ chunks] exI [of _ ms'] exI [of _ r] conjI impI sink_taken_texts
        sink_taken_all) (simp_all add: l)
qed

section \<open>The context after a batch\<close>

text \<open>after a completed batch the context ends with the assistant message that made the calls and one
  tool message per call, in the order of the calls. After a batch that the loop detector broke off, the
  calls of that message are followed by the nudge alone: none of them is answered.\<close>

theorem turn_answers_calls:
  assumes "lr_tool_calls resp \<noteq> []"
    and "after_llm env i partial (Inr resp) st = TNext st'"
  shows "\<exists>a rest. ls_messages st' = ls_messages st @ a # rest
    \<and> msg_role a = Assistant \<and> msg_tool_calls a = Some (lr_tool_calls resp)
    \<and> (if ls_nudges st' = ls_nudges st
       then map msg_tool_call_id rest = map (\<lambda>tc. Some (tc_id tc)) (lr_tool_calls resp) \<and> (\<forall>m \<in> set rest. msg_role m = Tool)
       else \<exists>reason. rest = [plain_message System (build_loop_nudge_message (Some reason))])"
proof -
  let ?st0 = "begin_tools env i partial resp (note_usage env resp st)"
  have r: "run_tools env i resp ?st0 = TNext st'" using assms by (simp add: after_llm_def)
  show ?thesis
  proof (cases "run_batch (batch_for env i ?st0) (lr_tool_calls resp) (ls_detector ?st0)")
    case (Panicked b)
    then show ?thesis using r by (simp add: run_tools_def)
  next
    case (Broke reason b)
    then have "ls_messages st' = ls_messages ?st0 @ [plain_message System (build_loop_nudge_message (Some reason))]"
      "ls_nudges st' = Suc (ls_nudges ?st0)"
      using r by (auto simp: run_tools_def Let_def split: if_splits)
    then show ?thesis by (auto simp: begin_tools_effect)
  next
    case (Continue b)
    let ?bs = "reassemble (lr_tool_calls resp) b"
    have n: "ls_nudges (foldl (add_result env) s bs) = ls_nudges s" for s bs
      by (induction bs arbitrary: s) (simp_all add: add_result_effect)
    have m: "ls_messages st' = ls_messages ?st0 @
        map (\<lambda>b. tool_message (br_tool_call_id b) (fst (tool_result_parts env (br_result b)))) ?bs"
      "ls_nudges st' = ls_nudges ?st0"
      using r Continue by (auto simp: run_tools_def Let_def add_results_effect n)
    have "map (\<lambda>b. Some (br_tool_call_id b)) ?bs = map Some (map br_tool_call_id ?bs)" by simp
    also have "\<dots> = map (\<lambda>tc. Some (tc_id tc)) (lr_tool_calls resp)" unfolding reassemble_ids by simp
    finally have ids: "map (\<lambda>b. Some (br_tool_call_id b)) ?bs = map (\<lambda>tc. Some (tc_id tc)) (lr_tool_calls resp)" .
    then show ?thesis using m by (auto simp: begin_tools_effect tool_message_def comp_def)
  qed
qed

section \<open>Rows\<close>

text \<open>Every row hangs below a known id or below a row written before it.\<close>

fun rows_known :: "uuid set \<Rightarrow> row_write list \<Rightarrow> bool" where
  "rows_known known [] = True"
| "rows_known known (r # rs) \<longleftrightarrow>
     (\<exists>p \<in> known. rw_parent r = Some p) \<and> rows_known (insert (rw_id r) known) rs"

lemma rows_known_append:
  "rows_known known (a @ b) \<longleftrightarrow> rows_known known a \<and> rows_known (known \<union> rw_id ` set a) b"
  by (induction a arbitrary: known) (auto simp: insert_commute)

lemma tool_row_writes_append [simp]: "tool_row_writes (a @ b) = tool_row_writes a @ tool_row_writes b"
  by (simp add: tool_row_writes_def List.map_filter_def)

lemma tool_row_writes_simps [simp]:
  "tool_row_writes [] = []" "tool_row_writes (Wal t p # es) = tool_row_writes es"
  "tool_row_writes (store_effects tc res) = []"
  "tool_row_writes (PersistTool u ag c r q # es) =
     \<lparr>rw_id = u, rw_role = ''tool'', rw_agent = ag, rw_content = r, rw_tool_calls = [], rw_tool_call_id = Some c,
       rw_thinking = [], rw_parent = q\<rparr> # tool_row_writes es"
  by (simp_all add: tool_row_writes_def List.map_filter_def store_effects_def)

definition batch_known :: "uuid \<Rightarrow> batch_state \<Rightarrow> bool" where
  "batch_known k b \<longleftrightarrow> rows_known {k} (tool_row_writes (bs_effects b))"

definition batch_tail_known :: "uuid \<Rightarrow> batch_state \<Rightarrow> bool" where
  "batch_tail_known k b \<longleftrightarrow> batch_known k b
     \<and> (\<exists>p \<in> insert k (rw_id ` set (tool_row_writes (bs_effects b))). bs_parent b = Some p)"

text \<open>An invariant of the steps of \<open>each_call\<close> holds in the state it stops with, broken off or not.\<close>

lemma each_call_inv:
  assumes "\<And>x s s' r. x \<in> set xs \<Longrightarrow> I s \<Longrightarrow> f x s = Continue s' \<or> f x s = Broke r s' \<Longrightarrow> I s'" and "I s"
    and "each_call f xs s = Continue s' \<or> each_call f xs s = Broke r s'"
  shows "I s'"
  using assms
proof (induction xs arbitrary: s)
  case (Cons x xs)
  show ?case
  proof (cases "f x s")
    case (Continue s1)
    then have "I s1" using Cons.prems(1)[of x s s1] Cons.prems(2) by simp
    moreover have "I b" if "y \<in> set xs" "I a" "f y a = Continue b \<or> f y a = Broke q b" for y a b q
      using Cons.prems(1)[of y a b q] that by simp
    ultimately show ?thesis using Cons.IH[of s1] Cons.prems(3) Continue by simp
  next
    case (Broke r1 s1)
    then show ?thesis using Cons.prems(1)[of x s s1 r1] Cons.prems(2,3) by auto
  qed (use Cons.prems in simp)
qed auto

lemma post_parallel_known:
  assumes "batch_known k b" "post_parallel env calls (Some k) i res b = Continue b' \<or> post_parallel env calls (Some k) i res b = Broke r b'"
  shows "batch_known k b'"
  using assms
  by (auto simp: post_parallel_def batch_known_def rows_known_append Let_def split: loop_status.splits option.splits)

lemma run_sequential_known:
  assumes "batch_tail_known k b" "persist_ctx env \<noteq> None"
    and "run_sequential env calls i b = Continue b' \<or> run_sequential env calls i b = Broke r b'"
  shows "batch_tail_known k b'"
  using assms
  by (auto simp: run_sequential_def batch_tail_known_def batch_known_def rows_known_append Let_def
      split: loop_status.splits option.splits)

lemma tool_row_writes_persist: "tool_row_writes (filter is_persist es) = tool_row_writes es"
proof (induction es)
  case (Cons e es)
  then show ?case by (cases e) (simp_all add: tool_row_writes_def List.map_filter_def)
qed simp

lemma written_ids:
  "rw_id ` set (tool_row_writes (bs_effects b)) = {u. \<exists>ag c r q. PersistTool u ag c r q \<in> set (persists b)}"
  unfolding tool_row_writes_persist[of "bs_effects b", symmetric] persists_def[symmetric]
  by (force simp: tool_row_writes_def List.map_filter_def image_iff split: effect.splits option.splits)

lemma par_rows_ids: "persist_ctx env = Some (ag, q) \<Longrightarrow> i \<in> set is \<Longrightarrow>
    \<exists>c r p'. PersistTool (fresh_id env i) ag c r p' \<in> set (par_rows env calls p is)"
  by (force simp: par_rows_def row_of_def)

lemma seq_rows_ids: "persist_ctx env = Some (ag, q) \<Longrightarrow> i \<in> set is \<Longrightarrow>
    \<exists>c r p'. PersistTool (fresh_id env i) ag c r p' \<in> set (seq_rows env calls p is)"
proof -
  have "i \<in> set is \<Longrightarrow> \<exists>c r p'. PersistTool (fresh_id env i) ag c r p' \<in> set (chain_rows env calls ag p is)"
    by (induction "is" arbitrary: p) (fastforce simp: row_of_def)+
  then show "persist_ctx env = Some (ag, q) \<Longrightarrow> i \<in> set is \<Longrightarrow> ?thesis" by (simp add: seq_rows_def)
qed

lemma parallel_phase_known:
  assumes "persist_ctx env = Some (ag, q)" "bs_parent b = Some k" "bs_effects b = []"
  shows "parallel_phase env calls b = Continue b' \<Longrightarrow> batch_tail_known k b'"
    and "parallel_phase env calls b = Broke r b' \<Longrightarrow> batch_known k b'"
proof -
  let ?par = "parallel_indices env calls"
  let ?b2 = "allocate_parallel env ?par (emit (map (\<lambda>i. Wal ''tool_start'' (start_payload env (calls ! i))) ?par) b)"
  have "tool_row_writes (map (\<lambda>i. Wal ''tool_start'' (start_payload env (calls ! i))) xs) = []" for xs
    by (induction xs) simp_all
  then have k2: "batch_known k ?b2"
    using assms by (simp add: batch_known_def allocate_parallel_def)
  have each: "batch_known k b'" if "each_call (\<lambda>(i, res). post_parallel env calls (Some k) i res) xs ?b2 = Continue b'
      \<or> each_call (\<lambda>(i, res). post_parallel env calls (Some k) i res) xs ?b2 = Broke r b'" for xs
  proof (rule each_call_inv[where I = "batch_known k", OF _ k2 that])
    show "batch_known k s'" if "batch_known k s" "(case x of (i, res) \<Rightarrow> post_parallel env calls (Some k) i res) s = Continue s'
        \<or> (case x of (i, res) \<Rightarrow> post_parallel env calls (Some k) i res) s = Broke t s'" for x s s' t
      using that post_parallel_known[of k s env calls "fst x" "snd x" s' t] by (simp add: split_beta)
  qed
  have known: "batch_known k b'" if "parallel_phase env calls b = Continue b' \<or> parallel_phase env calls b = Broke r b'"
    using that each assms by (auto simp: parallel_phase_def Let_def batch_known_def split: if_splits option.splits)
  then show "parallel_phase env calls b = Broke r b' \<Longrightarrow> batch_known k b'" by blast
  assume c: "parallel_phase env calls b = Continue b'"
  note eff = parallel_phase_effect[OF c]
  show "batch_tail_known k b'"
  proof (cases "?par = []")
    case True
    then show ?thesis using eff assms known c by (simp add: batch_tail_known_def)
  next
    case False
    have "fresh_id env (last ?par) \<in> rw_id ` set (tool_row_writes (bs_effects b'))"
      using eff par_rows_ids[OF assms(1) last_in_set[OF False]] unfolding written_ids by fastforce
    then show ?thesis using eff assms known c False by (auto simp: batch_tail_known_def)
  qed
qed

lemma run_batch_known:
  assumes "persist_ctx env = Some (ag, Some k)"
    and "run_batch env calls det = Continue b \<or> run_batch env calls det = Broke r b"
  shows "rows_known {k} (tool_row_writes (bs_effects b))"
proof -
  let ?b0 = "initial_state env calls det"
  have b0: "bs_parent ?b0 = Some k" "bs_effects ?b0 = []" using assms(1) by (simp_all add: initial_state_def)
  note par = parallel_phase_known[OF assms(1) b0]
  show ?thesis
  proof (cases "parallel_phase env calls ?b0")
    case (Continue b1)
    note t = par(1)[OF Continue]
    have "batch_tail_known k b"
    proof (rule each_call_inv[where I = "batch_tail_known k", OF _ t])
      show "each_call (run_sequential env calls) (sequential_indices env calls) b1 = Continue b
          \<or> each_call (run_sequential env calls) (sequential_indices env calls) b1 = Broke r b"
        using assms(2) Continue by (simp add: run_batch_def)
      show "batch_tail_known k s'" if "batch_tail_known k s"
        "run_sequential env calls i s = Continue s' \<or> run_sequential env calls i s = Broke r' s'" for i s s' r'
        using run_sequential_known[OF that(1) _ that(2)] assms(1) by simp
    qed
    then show ?thesis by (simp add: batch_tail_known_def batch_known_def)
  next
    case (Broke r1 b1)
    then show ?thesis using par(2)[OF Broke] assms(2) by (simp add: run_batch_def batch_known_def)
  qed (use assms(2) in \<open>simp add: run_batch_def\<close>)
qed

lemma run_batch_ids:
  assumes "persist_ctx env = Some (ag, Some k)" "run_batch env calls det = Continue b" "Some p \<in> set (bs_ids b)"
  shows "p \<in> rw_id ` set (tool_row_writes (bs_effects b))"
proof -
  let ?b0 = "initial_state env calls det"
  from assms(2) obtain b1 where b1: "parallel_phase env calls ?b0 = Continue b1"
    "each_call (run_sequential env calls) (sequential_indices env calls) b1 = Continue b"
    by (auto simp: run_batch_def split: batch_flow.splits)
  note e1 = parallel_phase_effect[OF b1(1)] and e2 = sequential_effect[OF b1(2)]
  let ?par = "parallel_indices env calls" and ?seq = "sequential_indices env calls"
  let ?ids = "set_all (\<lambda>i. Some (fresh_id env i)) ?seq (set_all (\<lambda>i. Some (fresh_id env i)) ?par (replicate (length calls) None))"
  have ids: "bs_ids b = ?ids" using e1 e2 assms(1) by (simp add: initial_state_def)
  then obtain j where j: "j < length calls" "bs_ids b ! j = Some p" using assms(3) by (metis in_set_conv_nth length_replicate set_all_length)
  then have "j \<in> set ?seq \<union> set ?par" "p = fresh_id env j"
    using ids by (auto simp: set_all_nth split: if_splits)
  then show ?thesis
    using e1 e2 par_rows_ids[OF assms(1), of j ?par calls "bs_parent ?b0"] seq_rows_ids[OF assms(1), of j ?seq calls "bs_parent b1"]
    unfolding written_ids by auto
qed

definition rows_ok :: "uuid \<Rightarrow> loop_state \<Rightarrow> bool" where
  "rows_ok uid st \<longleftrightarrow> rows_known {uid} (ls_rows st) \<and> ls_parent st \<in> insert uid (rw_id ` set (ls_rows st))"

lemma rows_known_mono: "rows_known known rs \<Longrightarrow> known \<subseteq> wider \<Longrightarrow> rows_known wider rs"
proof (induction rs arbitrary: known wider)
  case (Cons r rs)
  have "insert (rw_id r) known \<subseteq> insert (rw_id r) wider" using Cons.prems(2) by blast
  then show ?case using Cons by auto
qed simp

lemma rows_ok_same: "ls_rows st' = ls_rows st \<Longrightarrow> ls_parent st' = ls_parent st \<Longrightarrow> rows_ok uid st' = rows_ok uid st"
  by (simp add: rows_ok_def)

lemma begin_tools_rows: "rows_ok uid st \<Longrightarrow> rows_ok uid (begin_tools env i partial resp st)"
  by (simp add: rows_ok_def begin_tools_effect rows_known_append)

lemma batch_rows_ok:
  assumes "rows_ok uid st" "persist_ctx benv = Some (ag, Some (ls_parent st))"
    and "run_batch benv calls det = Continue b \<or> run_batch benv calls det = Broke r b"
  shows "rows_ok uid (st\<lparr>ls_detector := d, ls_rows := ls_rows st @ tool_row_writes (bs_effects b), ls_wal := ls_wal st @ wal_writes (bs_effects b)\<rparr>)"
  using assms(1) run_batch_known[OF assms(2,3)]
    rows_known_mono[of "{ls_parent st}" "tool_row_writes (bs_effects b)" "insert uid (rw_id ` set (ls_rows st))"]
  by (auto simp: rows_ok_def rows_known_append)

lemma add_results_parent:
  "ls_parent (foldl (add_result env) st bs) = ls_parent st
     \<or> (\<exists>b \<in> set bs. br_tool_msg_id b = Some (ls_parent (foldl (add_result env) st bs)))"
proof (induction bs arbitrary: st)
  case (Cons b bs)
  show ?case using Cons[of "add_result env st b"] by (auto simp: add_result_effect split: option.splits)
qed simp

lemma run_tools_rows:
  assumes "rows_ok uid st"
  shows "run_tools env i resp st = TNext st' \<Longrightarrow> rows_ok uid st'"
    and "run_tools env i resp st = TReturn oc st' \<Longrightarrow> rows_ok uid st' \<and> eo_parent oc = ls_parent st'"
proof -
  let ?benv = "batch_for env i st" and ?calls = "lr_tool_calls resp"
  let ?st1 = "\<lambda>b. st\<lparr>ls_detector := bs_detector b, ls_rows := ls_rows st @ tool_row_writes (bs_effects b), ls_wal := ls_wal st @ wal_writes (bs_effects b)\<rparr>"
  have p: "persist_ctx ?benv = Some (le_agent_name env, Some (ls_parent st))" by (simp add: batch_for_def)
  note ok = batch_rows_ok[OF assms p]
  have res: "rows_ok uid (foldl (add_result env) (?st1 b) (reassemble ?calls b))"
    if c: "run_batch ?benv ?calls (ls_detector st) = Continue b" for b
  proof -
    let ?st2 = "foldl (add_result env) (?st1 b) (reassemble ?calls b)"
    have len: "length (bs_ids b) = length ?calls"
      using c parallel_phase_effect sequential_effect by (fastforce simp: run_batch_def initial_state_def split: batch_flow.splits if_splits)
    then have ids: "br_tool_msg_id x \<in> set (bs_ids b)" if "x \<in> set (reassemble ?calls b)" for x
      using that by (auto simp: reassemble_def)
    have "ls_parent ?st2 = ls_parent st \<or> Some (ls_parent ?st2) \<in> set (bs_ids b)"
      using add_results_parent[of env "?st1 b" "reassemble ?calls b"] ids by fastforce
    then have "ls_parent ?st2 \<in> insert uid (rw_id ` set (ls_rows (?st1 b)))"
      using run_batch_ids[OF p c] assms by (auto simp: rows_ok_def)
    then show ?thesis using ok[OF disjI1[OF c], of "bs_detector b"] by (simp add: rows_ok_def add_results_effect)
  qed
  have brk: "rows_ok uid (?st1 b)" if "run_batch ?benv ?calls (ls_detector st) = Broke r b" for r b
    using ok[OF disjI2[OF that]] .
  show "run_tools env i resp st = TNext st' \<Longrightarrow> rows_ok uid st'"
    using res brk by (fastforce simp: run_tools_def Let_def rows_ok_def split: batch_flow.splits if_splits)
  show "run_tools env i resp st = TReturn oc st' \<Longrightarrow> rows_ok uid st' \<and> eo_parent oc = ls_parent st'"
    using brk by (fastforce simp: run_tools_def Let_def rows_ok_def outcome_of_def split: batch_flow.splits if_splits)
qed

lemma after_llm_rows:
  assumes "rows_ok uid st"
  shows "after_llm env i partial r st = TNext st' \<Longrightarrow> rows_ok uid st'"
    and "after_llm env i partial r st = TReturn oc st' \<Longrightarrow> rows_ok uid st' \<and> eo_parent oc = ls_parent st'"
proof -
  have u: "rows_ok uid (note_usage env resp st)" for resp using assms by (simp add: rows_ok_def)
  note b = begin_tools_rows[OF u]
  show "after_llm env i partial r st = TNext st' \<Longrightarrow> rows_ok uid st'"
    using run_tools_rows(1)[OF b]
    by (auto simp: after_llm_def llm_failed_def answer_def Let_def split: sum.splits if_splits prod.splits sink_error.splits)
  show "after_llm env i partial r st = TReturn oc st' \<Longrightarrow> rows_ok uid st' \<and> eo_parent oc = ls_parent st'"
    using run_tools_rows(2)[OF b] u assms
    by (auto simp: after_llm_def llm_failed_def answer_def emit_to_def Let_def outcome_of_def rows_ok_def
        split: sum.splits if_splits sink_error.splits)
qed

lemma do_turn_rows:
  assumes "rows_ok uid st"
  shows "do_turn env i st = TNext st' \<Longrightarrow> rows_ok uid st'"
    and "do_turn env i st = TReturn oc st' \<Longrightarrow> rows_ok uid st' \<and> eo_parent oc = ls_parent st'"
proof -
  obtain ms chars where c: "compact_tool_results (le_model env) (le_compaction env) (ls_messages st) (ls_chars st) = (ms, chars)"
    by fastforce
  obtain chunks ms' r where l: "le_llm env i ms = (chunks, ms', r)" using prod_cases3 by blast
  let ?st0 = "fst (emit_to env (StepStart (step_id_of i)) st)"
  obtain st2 partial fatal where f: "forward_chunks_into_sink env chunks (?st0\<lparr>ls_messages := ms', ls_chars := chars\<rparr>) = (st2, partial, fatal)"
    using prod_cases3 by blast
  have ok2: "rows_ok uid st2" using assms forward_chunks_into_sink_effect(1)[OF f] by (simp add: rows_ok_def)
  show "do_turn env i st = TNext st' \<Longrightarrow> rows_ok uid st'"
    using after_llm_rows(1)[OF ok2] c l f
    by (auto simp: do_turn_def emit_to_def split: if_splits sum.splits sink_error.splits option.splits)
  assume "do_turn env i st = TReturn oc st'"
  then consider "st' = st \<or> st' = ?st0" "eo_parent oc = ls_parent st"
    | "after_llm env i partial r st2 = TReturn oc st'"
    using c l f by (auto simp: do_turn_def emit_to_def outcome_of_def split: if_splits sum.splits sink_error.splits option.splits)
  then show "rows_ok uid st' \<and> eo_parent oc = ls_parent st'"
    using after_llm_rows(2)[OF ok2] assms by cases (auto simp: rows_ok_def)
qed

lemma turn_loop_rows:
  "turn_loop env left i st = TReturn oc st' \<Longrightarrow> rows_ok uid st \<Longrightarrow> rows_ok uid st' \<and> eo_parent oc = ls_parent st'"
proof (induction left arbitrary: i st)
  case 0
  then show ?case by (auto simp: Let_def outcome_of_def rows_ok_def)
next
  case (Suc left)
  show ?case
  proof (cases "do_turn env i st")
    case (TNext st1)
    then show ?thesis using Suc.IH[of "Suc i" st1] Suc.prems do_turn_rows(1)[OF Suc.prems(2) TNext] by simp
  next
    case (TReturn o1 st1)
    then show ?thesis using Suc.prems do_turn_rows(2)[OF Suc.prems(2) TReturn] by simp
  qed (use Suc.prems in simp_all)
qed

text \<open>C5: the rows of a run form one tree below the user's message: every row a run writes hangs below that
  message or below a row the run has started to write before it, and so does the row of the final answer,
  whose parent the outcome names. This holds on every exit, also after batches that were broken off.\<close>

theorem run_rows_connected:
  assumes "execute env history det uid = TReturn oc st"
  shows "rows_known {uid} (ls_rows st) \<and> (eo_parent oc = uid \<or> eo_parent oc \<in> rw_id ` set (ls_rows st))"
proof -
  let ?st0 = "loop_start history det uid"
  have ok: "rows_ok uid ?st0" "rows_ok uid (fst (emit_to env ev ?st0))" for ev
    by (simp_all add: rows_ok_def loop_start_def)
  have "rows_ok uid st \<and> eo_parent oc = ls_parent st"
    using assms ok turn_loop_rows
    by (fastforce simp: execute_def emit_to_def Let_def outcome_of_def split: if_splits sum.splits sink_error.splits)
  then show ?thesis by (auto simp: rows_ok_def)
qed

section \<open>A result off the path\<close>

lemma run_tools_completed:
  assumes "run_tools env i resp st = TNext st'" "ls_nudges st' = ls_nudges st"
  obtains b where "run_batch (batch_for env i st) (lr_tool_calls resp) (ls_detector st) = Continue b"
    "ls_rows st' = ls_rows st @ tool_row_writes (bs_effects b)"
    "ls_parent st' = ls_parent (foldl (add_result env) (st\<lparr>ls_detector := bs_detector b,
        ls_rows := ls_rows st @ tool_row_writes (bs_effects b), ls_wal := ls_wal st @ wal_writes (bs_effects b)\<rparr>) (reassemble (lr_tool_calls resp) b))"
  using assms
  by (cases "run_batch (batch_for env i st) (lr_tool_calls resp) (ls_detector st)")
    (auto simp: run_tools_def Let_def add_results_effect split: if_splits)

text \<open>when a batch has a sequential call and after it a parallel one, the next assistant message hangs
  below the parallel result, while the sequential result was written below the same row: it is a side
  branch of the tree, and the path from the next assistant message to the root does not contain it.\<close>

theorem sequential_result_off_path:
  assumes "run_tools env i resp st = TNext st'" "ls_nudges st' = ls_nudges st"
    and "lr_tool_calls resp = [s, p]" "benv = batch_for env i st"
    and "cache_hit benv s = None" "cache_hit benv p = None" "\<not> is_parallel benv s" "is_parallel benv p"
  shows "ls_parent st' = fresh_id benv 1
    \<and> map (\<lambda>r. (rw_id r, rw_parent r)) (drop (length (ls_rows st)) (ls_rows st'))
        = [(fresh_id benv 1, Some (ls_parent st)), (fresh_id benv 0, Some (fresh_id benv 1))]"
proof -
  obtain b where b: "run_batch benv [s, p] (ls_detector st) = Continue b"
    "ls_rows st' = ls_rows st @ tool_row_writes (bs_effects b)"
    "ls_parent st' = ls_parent (foldl (add_result env) (st\<lparr>ls_detector := bs_detector b,
        ls_rows := ls_rows st @ tool_row_writes (bs_effects b), ls_wal := ls_wal st @ wal_writes (bs_effects b)\<rparr>) (reassemble [s, p] b))"
    using run_tools_completed[OF assms(1,2)] assms(3,4) by metis
  have ctx: "persist_ctx benv = Some (le_agent_name env, Some (ls_parent st))" by (simp add: assms(4) batch_for_def)
  have idx: "parallel_indices benv [s, p] = [1]" "sequential_indices benv [s, p] = [0]"
    using assms(5-8) by (simp_all add: parallel_indices_def sequential_indices_def upt_rec)
  have rows: "persists b = [row_of benv [s, p] (le_agent_name env) 1 (Some (ls_parent st)),
      row_of benv [s, p] (le_agent_name env) 0 (Some (fresh_id benv 1))]"
    using run_batch_persists[OF b(1) ctx] idx by simp
  have "bs_ids b ! 1 = Some (fresh_id benv 1)" using run_batch_effect(3)[OF b(1), of 1] ctx assms(6) by simp
  then have "ls_parent st' = fresh_id benv 1" using b(3) by (simp add: reassemble_def add_result_effect upt_rec)
  moreover have "tool_row_writes (bs_effects b) = tool_row_writes (persists b)"
    by (simp add: persists_def tool_row_writes_persist)
  ultimately show ?thesis using b(2) rows by (simp add: row_of_def)
qed

section \<open>A sample run\<close>

text \<open>The model first calls a sequential and a parallel tool and then answers; the client takes every event.\<close>

definition sample_resp :: "tool_call list \<Rightarrow> llm_response" where
  "sample_resp calls = \<lparr>lr_content = [], lr_tool_calls = calls, lr_usage = None, lr_finish_reason = None, lr_model = None,
     lr_provider = None, lr_fallback_notice = None, lr_tools_used = [], lr_iterations = 1, lr_thinking_blocks = []\<rparr>"

definition sample_loop :: loop_env where
  "sample_loop = \<lparr>le_config = tool_loop_config_default\<lparr>detect_loops := False\<rparr>, le_model = ''m'', le_compaction = None,
     le_llm = (\<lambda>i ms. if i = 0 then ([''a''], ms, Inr (sample_resp (rev sample_calls))) else ([''b''], ms, Inr (sample_resp []))),
     le_sink = (\<lambda>_ _. Inr ()), le_cancelled_at_start = False, le_cancelled = (\<lambda>_. False), le_batch = (\<lambda>_. sample_env),
     le_agent_name = ''A'', le_provider_name = ''p'', le_message_id = ''m1'', le_assistant_id = (\<lambda>i. 10 + i), le_is_match = (\<lambda>_ _. False),
     le_parse_json = (\<lambda>_. None), le_thinking_value = (\<lambda>_. None)\<rparr>"

lemma each_call_total: "(\<And>x s. \<exists>s'. f x s = Continue s') \<Longrightarrow> \<exists>s'. each_call f xs s = Continue s'"
proof (induction xs arbitrary: s)
  case (Cons x xs)
  obtain s1 where "f x s = Continue s1" using Cons.prems by blast
  then show ?case using Cons by simp
qed simp

lemma run_batch_total:
  assumes "\<not> b_detect_loops env" "b_exec env = (\<lambda>_ _ _. Some ''ok'')"
  shows "\<exists>b. run_batch env calls det = Continue b"
proof -
  have those: "\<exists>rs. those (map (run_tool env calls) xs) = Some rs" for xs
    by (induction xs) (auto simp: run_tool_ok[OF assms(2)])
  have "\<exists>s'. (case x of (i, res) \<Rightarrow> post_parallel env calls p i res) s = Continue s'" for x p s
    using assms(1) by (simp add: post_parallel_def loop_check_def Let_def split_beta)
  then have par: "\<exists>b1. parallel_phase env calls b = Continue b1" for b
    using those[of "parallel_indices env calls"] each_call_total[of "\<lambda>(i, res). post_parallel env calls (bs_parent b) i res"]
    by (auto simp: parallel_phase_def Let_def)
  have "\<exists>s'. run_sequential env calls i s = Continue s'" for i s
    using assms(1) by (simp add: run_sequential_def loop_check_def run_tool_ok[OF assms(2)] Let_def)
  then have "\<exists>b. each_call (run_sequential env calls) xs b1 = Continue b" for xs b1 by (rule each_call_total)
  moreover obtain b1 where "parallel_phase env calls (initial_state env calls det) = Continue b1" using par by blast
  ultimately show ?thesis by (simp add: run_batch_def)
qed

lemma sample_batch_total: "\<exists>b. run_batch (batch_for sample_loop i st) calls det = Continue b"
  by (rule run_batch_total) (simp_all add: batch_for_def sample_loop_def sample_env_def)

lemma sample_run_tools: "\<exists>st'. run_tools sample_loop i resp st = TNext st' \<and> ls_nudges st' = ls_nudges st"
proof -
  have "ls_nudges (foldl (add_result env) s bs) = ls_nudges s" for env s bs
    by (induction bs arbitrary: s) (simp_all add: add_result_effect)
  then show ?thesis
    using sample_batch_total[of i st "lr_tool_calls resp" "ls_detector st"] by (auto simp: run_tools_def Let_def)
qed

lemma sample_sink: "emit_to sample_loop ev st = (st\<lparr>ls_offered := ls_offered st @ [ev]\<rparr>, Inr ())"
  by (simp add: emit_to_def sample_loop_def)

lemma sample_forward: "\<exists>st' p. forward_chunks_into_sink sample_loop [c] st = (st', p, None)"
  by (simp add: forward_chunks_into_sink_def emit_chunk_def sample_sink note_sink_error_def Let_def)

lemma sample_turn:
  "\<exists>st'. do_turn sample_loop 0 st = TNext st'"
  "\<exists>oc st'. do_turn sample_loop (Suc i) st = TReturn oc st' \<and> eo_status oc = EDone"
proof -
  let ?st1 = "\<lambda>j. st\<lparr>ls_offered := ls_offered st @ [StepStart (step_id_of j)]\<rparr>"
  obtain ms chars where c: "compact_tool_results ''m'' None (ls_messages st) (ls_chars st) = (ms, chars)" by fastforce
  have llm: "le_llm sample_loop 0 ms = ([''a''], ms, Inr (sample_resp (rev sample_calls)))"
    "le_llm sample_loop (Suc i) ms = ([''b''], ms, Inr (sample_resp []))" by (simp_all add: sample_loop_def)
  have conf: "\<not> le_cancelled sample_loop j" "le_model sample_loop = ''m''" "le_compaction sample_loop = None" for j
    by (simp_all add: sample_loop_def)
  have calls: "lr_tool_calls (sample_resp (rev sample_calls)) \<noteq> []" by (simp add: sample_resp_def sample_calls_def)
  obtain s2 p where f: "forward_chunks_into_sink sample_loop [''a''] ((?st1 0)\<lparr>ls_messages := ms, ls_chars := chars\<rparr>) = (s2, p, None)"
    using sample_forward by blast
  have u: "note_usage sample_loop (sample_resp c) s = s" for c s by (simp add: note_usage_def sample_resp_def)
  obtain st' where "run_tools sample_loop 0 (sample_resp (rev sample_calls))
      (begin_tools sample_loop 0 p (sample_resp (rev sample_calls)) s2) = TNext st'" using sample_run_tools by blast
  then have "do_turn sample_loop 0 st = TNext st'"
    using c llm(1) conf calls f by (simp add: do_turn_def sample_sink after_llm_def u)
  then show "\<exists>st'. do_turn sample_loop 0 st = TNext st'" by blast
  obtain s3 q where g: "forward_chunks_into_sink sample_loop [''b''] ((?st1 (Suc i))\<lparr>ls_messages := ms, ls_chars := chars\<rparr>) = (s3, q, None)"
    using sample_forward by blast
  have "\<exists>oc st'. after_llm sample_loop (Suc i) q (Inr (sample_resp [])) s3 = TReturn oc st' \<and> eo_status oc = EDone"
    by (simp add: after_llm_def answer_def sample_sink sample_resp_def outcome_of_def Let_def)
  then show "\<exists>oc st'. do_turn sample_loop (Suc i) st = TReturn oc st' \<and> eo_status oc = EDone"
    using c llm(2) conf g by (simp add: do_turn_def sample_sink)
qed

lemma sample_execute: "\<exists>oc st. execute sample_loop [] det 1 = TReturn oc st \<and> eo_status oc = EDone"
proof -
  let ?st1 = "(loop_start [] det 1)\<lparr>ls_offered := [MessageStart ''m1'']\<rparr>"
  have conf: "effective_max_iterations (le_config sample_loop) = Suc (Suc 48)" "\<not> le_cancelled_at_start sample_loop"
      "le_message_id sample_loop = ''m1''"
    by (simp_all add: sample_loop_def effective_max_iterations_def tool_loop_config_default_def)
  obtain s1 where s1: "do_turn sample_loop 0 ?st1 = TNext s1" using sample_turn(1) by blast
  obtain oc s2 where s2: "do_turn sample_loop (Suc 0) s1 = TReturn oc s2" "eo_status oc = EDone" using sample_turn(2) by blast
  have "turn_loop sample_loop (Suc (Suc 48)) 0 ?st1 = TReturn oc s2" using s1 s2(1) by (simp only: turn_loop.simps turn.simps)
  moreover have "ls_offered (loop_start [] det 1) = []" by (simp add: loop_start_def)
  ultimately have "execute sample_loop [] det 1 = TReturn oc s2"
    by (simp only: execute_def Let_def conf sample_sink if_False prod.case sum.case append_Nil)
  then show ?thesis using s2(2) by blast
qed

theorem run_event_shape_witness:
  "\<exists>oc st. execute sample_loop [] (detector_new tool_loop_config_default) 1 = TReturn oc st
    \<and> (\<exists>r. last (ls_offered st) = Finish r False)"
  using sample_execute[of "detector_new tool_loop_config_default"] run_event_shape by meson

theorem run_rows_connected_witness:
  "\<exists>oc st. execute sample_loop [] (detector_new tool_loop_config_default) 1 = TReturn oc st \<and> rows_known {1} (ls_rows st)"
  using sample_execute[of "detector_new tool_loop_config_default"] run_rows_connected by meson

theorem answer_is_streamed_text_witness:
  "\<exists>oc st'. do_turn sample_loop 1 (loop_start [] (detector_new tool_loop_config_default) 1) = TReturn oc st'
    \<and> eo_final_text oc = ''b''"
proof -
  obtain oc st' where t: "do_turn sample_loop 1 (loop_start [] (detector_new tool_loop_config_default) 1) = TReturn oc st'" "eo_status oc = EDone"
    using sample_turn(2)[of 0] by fastforce
  obtain evs ms chunks ms' r where "le_llm sample_loop 1 ms = (chunks, ms', r)"
    "texts_of evs = filter (\<lambda>c. \<not> starts_with c RECONNECTING_PREFIX) chunks"
    "eo_final_text oc = concat (texts_of evs)"
    using answer_is_streamed_text[OF t] by blast
  moreover have "\<not> starts_with ''b'' RECONNECTING_PREFIX" by (simp add: RECONNECTING_PREFIX_def starts_with_def)
  ultimately have "eo_final_text oc = ''b''" by (auto simp: sample_loop_def)
  with t show ?thesis by blast
qed

theorem turn_answers_calls_witness:
  "\<exists>st' a rest. after_llm sample_loop 0 ''a'' (Inr (sample_resp sample_calls)) (loop_start [] (detector_new tool_loop_config_default) 1) = TNext st'
    \<and> ls_messages st' = a # rest \<and> map msg_tool_call_id rest = [Some ''c1'', Some ''c2'']"
proof -
  let ?st = "loop_start [] (detector_new tool_loop_config_default) 1" and ?resp = "sample_resp sample_calls"
  have c: "lr_tool_calls ?resp \<noteq> []" by (simp add: sample_resp_def sample_calls_def)
  obtain st' where st': "run_tools sample_loop 0 ?resp (begin_tools sample_loop 0 ''a'' ?resp ?st) = TNext st'"
    "ls_nudges st' = ls_nudges (begin_tools sample_loop 0 ''a'' ?resp ?st)" using sample_run_tools by blast
  have a: "after_llm sample_loop 0 ''a'' (Inr ?resp) ?st = TNext st'" using st'(1) c by (simp add: after_llm_def note_usage_def sample_resp_def)
  have "ls_nudges st' = ls_nudges ?st" "ls_messages ?st = []" using st'(2) by (simp_all add: begin_tools_effect loop_start_def)
  moreover have "map (\<lambda>tc. Some (tc_id tc)) (lr_tool_calls ?resp) = [Some ''c1'', Some ''c2'']"
    by (simp add: sample_resp_def sample_calls_def)
  ultimately obtain x rest where "ls_messages st' = x # rest" "map msg_tool_call_id rest = [Some ''c1'', Some ''c2'']"
    using turn_answers_calls[OF c a] by (simp only: append_Nil if_True refl) (elim exE conjE, rule that)
  then show ?thesis by (intro exI conjI) (rule a)
qed

theorem sequential_result_off_path_witness:
  "\<exists>st'. run_tools sample_loop 0 (sample_resp (rev sample_calls)) (loop_start [] (detector_new tool_loop_config_default) 1) = TNext st'
    \<and> ls_parent st' = 101"
proof -
  let ?st = "loop_start [] (detector_new tool_loop_config_default) 1" and ?resp = "sample_resp (rev sample_calls)"
  obtain st' where st': "run_tools sample_loop 0 ?resp ?st = TNext st'" "ls_nudges st' = ls_nudges ?st" using sample_run_tools by blast
  define benv where "benv = batch_for sample_loop 0 ?st"
  have calls: "lr_tool_calls ?resp = [sample_calls ! 1, sample_calls ! 0]" by (simp add: sample_resp_def sample_calls_def)
  have "cache_hit benv (sample_calls ! 1) = None" "cache_hit benv (sample_calls ! 0) = None"
    "\<not> is_parallel benv (sample_calls ! 1)" "is_parallel benv (sample_calls ! 0)" "fresh_id benv 1 = 101"
    by (simp_all add: benv_def batch_for_def sample_loop_def sample_env_def sample_calls_def cache_hit_def
        is_parallel_def is_system_tool_parallel_safe_def)
  then have "ls_parent st' = 101" using sequential_result_off_path[OF st' calls benv_def] by auto
  then show ?thesis using st'(1) by blast
qed

end
