(* ===== verification/Tool_Policy.thy ===== *)
theory Tool_Policy
  imports Hyde_Types
begin

text \<open>
  Which tools an agent may use and which calls need a human: \<open>agent/pipeline/dispatch.rs\<close>,
  \<open>agent/channel_kind.rs\<close>, \<open>agent/hooks.rs\<close> and the policy sections of \<open>config/mod.rs\<close>.
\<close>

section \<open>Configuration\<close>

record approval_config =
  ap_enabled :: bool
  ap_require_for :: "bytes list"
  ap_require_for_categories :: "bytes list"
  ap_timeout_seconds :: nat

record tool_groups =
  tg_git :: bool
  tg_tool_management :: bool
  tg_skill_editing :: bool
  tg_session_tools :: bool

definition tool_groups_default :: tool_groups where
  "tool_groups_default =
     \<lparr>tg_git = True, tg_tool_management = True, tg_skill_editing = True, tg_session_tools = True\<rparr>"

record agent_tool_policy =
  tp_allow :: "bytes list"
  tp_deny :: "bytes list"
  tp_allow_all :: bool
  tp_deny_all_others :: bool
  tp_groups :: tool_groups

section \<open>Channels and categories\<close>

definition is_automated :: "bytes \<Rightarrow> bool" where
  "is_automated ch \<longleftrightarrow> ch \<in> {''cron'', ''heartbeat'', ''system'', ''inter-agent''}"

datatype tool_category = CatSystem | CatDestructive | CatExternal

definition category_as_str :: "tool_category \<Rightarrow> bytes" where
  "category_as_str c = (case c of
       CatSystem \<Rightarrow> ''system'' | CatDestructive \<Rightarrow> ''destructive'' | CatExternal \<Rightarrow> ''external'')"

definition classify_tool :: "bytes \<Rightarrow> tool_category" where
  "classify_tool tool_name =
     (if tool_name \<in> {''code_exec'', ''process'', ''browser_action''} then CatSystem
      else if tool_name \<in> {''workspace_delete'', ''workspace_write'', ''workspace_edit'', ''workspace_rename''}
      then CatDestructive
      else if starts_with tool_name ''git_'' then CatSystem
      else CatExternal)"

section \<open>Approval and result checks\<close>

definition needs_approval :: "approval_config option \<Rightarrow> bytes \<Rightarrow> bool" where
  "needs_approval approval tool_name = (case approval of
       Some a \<Rightarrow>
         if ap_enabled a then
           if tool_name \<in> set (ap_require_for a) then True
           else if ap_require_for_categories a \<noteq> []
                   \<and> category_as_str (classify_tool tool_name) \<in> set (ap_require_for_categories a)
           then True
           else False
         else False
     | None \<Rightarrow> False)"

definition classify_tool_result :: "bytes \<Rightarrow> bool" where
  "classify_tool_result res \<longleftrightarrow>
     contains res (dquote @ ''status'' @ dquote @ '':'' @ dquote @ ''error'' @ dquote)
     \<or> starts_with res ''Error:''
     \<or> (starts_with res (''Tool '' @ tick) \<and> contains res ''timed out'')"

definition clean_tool_params :: "json \<Rightarrow> json" where
  "clean_tool_params arguments = (case arguments of
       JObject obj \<Rightarrow> JObject (obj_remove ''_context'' obj)
     | other \<Rightarrow> other)"

section \<open>Policy filter\<close>

definition SYSTEM_TOOL_NAMES :: "bytes list" where
  "SYSTEM_TOOL_NAMES =
     [''workspace_write'', ''workspace_read'', ''workspace_list'', ''workspace_edit'',
      ''workspace_delete'', ''workspace_rename'',
      ''web_fetch'', ''agent'', ''message'', ''cron'', ''code_exec'', ''browser_action'',
      ''git'', ''session'', ''skill'', ''skill_use'', ''canvas'', ''rich_card'',
      ''agents_list'', ''secret_set'', ''process'']"

definition policy_admits :: "agent_tool_policy \<Rightarrow> bool \<Rightarrow> bytes \<Rightarrow> bool" where
  "policy_admits policy memory_available name =
     (if name \<in> set (tp_deny policy) then False
      else if name \<in> set SYSTEM_TOOL_NAMES then True
      else if name = ''memory'' then memory_available
      else if starts_with name ''tool_'' then True
      else if tp_allow_all policy then True
      else if tp_deny_all_others policy then name \<in> set (tp_allow policy)
      else if tp_allow policy \<noteq> [] then name \<in> set (tp_allow policy)
      else True)"

definition filter_tools_by_policy ::
  "tool_definition list \<Rightarrow> agent_tool_policy option \<Rightarrow> bool \<Rightarrow> tool_definition list" where
  "filter_tools_by_policy tools policy memory_available = (case policy of
       None \<Rightarrow> tools
     | Some p \<Rightarrow> filter (\<lambda>t. policy_admits p memory_available (td_name t)) tools)"

definition apply_tool_policy_override ::
  "tool_definition list \<Rightarrow> bytes list option \<Rightarrow> agent_tool_policy \<Rightarrow> tool_definition list" where
  "apply_tool_policy_override tools base_deny override_policy =
     filter (\<lambda>t. if td_name t \<in> set (tp_deny override_policy) then False
                 else if td_name t \<in> set (unwrap_or base_deny []) then False
                 else if tp_allow override_policy \<noteq> [] then td_name t \<in> set (tp_allow override_policy)
                 else True) tools"

section \<open>Hooks\<close>

datatype hook_event =
    BeforeMessage
  | AfterResponse
  | BeforeToolCall bytes bytes
  | AfterToolResult bytes bytes nat
  | OnError

datatype hook_action = Continue | Block bytes

type_synonym hook_registry = "(bytes \<times> (hook_event \<Rightarrow> hook_action)) list"

definition register :: "hook_registry \<Rightarrow> bytes \<Rightarrow> (hook_event \<Rightarrow> hook_action) \<Rightarrow> hook_registry" where
  "register handlers name handler = handlers @ [(name, handler)]"

fun fire :: "hook_registry \<Rightarrow> hook_event \<Rightarrow> hook_action" where
  "fire [] event = Continue"
| "fire ((name, handler) # handlers) event =
     (case handler event of
        Continue \<Rightarrow> fire handlers event
      | action \<Rightarrow> action)"

definition hook_names :: "hook_registry \<Rightarrow> bytes list" where
  "hook_names handlers = map fst handlers"

definition logging_hook :: "hook_event \<Rightarrow> hook_action" where
  "logging_hook event = Continue"

definition block_tools_hook :: "bytes list \<Rightarrow> hook_event \<Rightarrow> hook_action" where
  "block_tools_hook blocked event = (case event of
       BeforeToolCall agent tool_name \<Rightarrow>
         if tool_name \<in> set blocked
         then Block (''tool '' @ tick @ tool_name @ tick @ '' is blocked by policy'')
         else Continue
     | _ \<Rightarrow> Continue)"

section \<open>Properties\<close>

text \<open>A denied tool is never offered, by no combination of agent policy and cron override, and
  an override can only remove tools: what both filters leave is a sublist of the tools the agent
  policy admits, in the same order, free of every deny list, and inside the override's allow list
  when that has entries.\<close>

theorem policy_override_only_restricts:
  "let offered = filter_tools_by_policy tools (Some p) mem;
       final = apply_tool_policy_override offered (Some (tp_deny p)) ov
   in subseq final offered \<and> subseq offered tools
      \<and> (\<forall>t. t \<in> set final \<longleftrightarrow> t \<in> set tools \<and> policy_admits p mem (td_name t)
           \<and> td_name t \<notin> set (tp_deny p) \<union> set (tp_deny ov)
           \<and> (tp_allow ov = [] \<or> td_name t \<in> set (tp_allow ov)))"
  by (auto simp: filter_tools_by_policy_def apply_tool_policy_override_def Let_def policy_admits_def
      subseq_filter_left)

text \<open>Under \<open>deny_all_others\<close> without \<open>allow_all\<close> exactly these tools remain: not denied, and
  explicitly allowed or one of the built-in names, the memory tool when memory is there, or a
  tool-management tool.\<close>

theorem deny_all_others_exact:
  assumes "tp_deny_all_others p" and "\<not> tp_allow_all p"
  shows "policy_admits p mem name \<longleftrightarrow> name \<notin> set (tp_deny p)
    \<and> (name \<in> set SYSTEM_TOOL_NAMES \<or> (name = ''memory'' \<and> mem)
       \<or> (name \<noteq> ''memory'' \<and> (starts_with name ''tool_'' \<or> name \<in> set (tp_allow p))))"
proof -
  have "''memory'' \<notin> set SYSTEM_TOOL_NAMES" by (simp add: SYSTEM_TOOL_NAMES_def)
  with assms show ?thesis by (auto simp: policy_admits_def)
qed

theorem deny_all_others_exact_witness:
  "policy_admits \<lparr>tp_allow = [''x''], tp_deny = [], tp_allow_all = False, tp_deny_all_others = True,
      tp_groups = tool_groups_default\<rparr> False ''x''"
  using deny_all_others_exact [of "\<lparr>tp_allow = [''x''], tp_deny = [], tp_allow_all = False,
      tp_deny_all_others = True, tp_groups = tool_groups_default\<rparr>" False "''x''"] by simp

lemma fire_append:
  "fire (hs @ hs') ev = (case fire hs ev of Continue \<Rightarrow> fire hs' ev | a \<Rightarrow> a)"
  by (induction hs ev rule: fire.induct) (auto split: hook_action.splits)

text \<open>The answer of a hook registry is the first answer other than \<open>Continue\<close>: an event is
  blocked exactly when some handler blocks it, and registering more hooks never unblocks it.\<close>

theorem fire_first_block_wins:
  "fire hs ev = (case filter (\<lambda>a. a \<noteq> Continue) (map (\<lambda>h. snd h ev) hs) of [] \<Rightarrow> Continue | a # _ \<Rightarrow> a)
   \<and> (fire hs ev \<noteq> Continue \<longrightarrow> fire (register hs n g) ev = fire hs ev)
   \<and> (fire (register hs n (block_tools_hook blocked)) (BeforeToolCall agent tool) = Continue
        \<longrightarrow> tool \<notin> set blocked)"
proof -
  have "fire hs ev = (case filter (\<lambda>a. a \<noteq> Continue) (map (\<lambda>h. snd h ev) hs) of [] \<Rightarrow> Continue | a # _ \<Rightarrow> a)"
    by (induction hs ev rule: fire.induct) (auto split: hook_action.splits)
  then show ?thesis
    by (auto simp: register_def fire_append block_tools_hook_def split: hook_action.splits if_splits)
qed

theorem fire_first_block_wins_witness:
  "fire (register [(''b'', block_tools_hook [''x''])] ''l'' logging_hook) (BeforeToolCall ''a'' ''x'')
   = fire [(''b'', block_tools_hook [''x''])] (BeforeToolCall ''a'' ''x'')"
  using fire_first_block_wins [of "[(''b'', block_tools_hook [''x''])]" "BeforeToolCall ''a'' ''x''" "''l''" logging_hook]
  by (simp add: block_tools_hook_def)

text \<open>The built-in tool \<open>git\<close> is not in the category of the former \<open>git_*\<close> tools: requiring
  approval for system and destructive tools lets it through without one.\<close>

theorem git_escapes_system_category:
  "''git'' \<in> set SYSTEM_TOOL_NAMES \<and>
   \<not> needs_approval (Some \<lparr>ap_enabled = True, ap_require_for = [],
        ap_require_for_categories = [''system'', ''destructive''], ap_timeout_seconds = t\<rparr>) ''git''"
  by (simp add: SYSTEM_TOOL_NAMES_def needs_approval_def classify_tool_def starts_with_def category_as_str_def)

end
