(* ===== verification/Approvals.thy ===== *)
theory Approvals
  imports Hyde_Types
begin

text \<open>
  The approval of a tool call by a human: the rows of \<open>hydeclaw-db/src/approvals.rs\<close>, the waiting
  side of \<open>agent/approval_manager.rs\<close> and the resolving side of \<open>agent/pipeline/approval.rs\<close>.

  The table is a map from ids to rows. A transaction that locks its row is one step. The two sides
  run in different tasks and meet in the waiter map and in a oneshot channel, so the whole is a
  step relation: between the database update of a resolver and its look into the waiter map, and
  between the creation of the row and the registration of the waiter, other steps may happen.
  Notifications, audit records and SSE events do not feed back into the protocol and are left out.
\<close>

section \<open>The table\<close>

type_synonym approval_id = nat

record pending_approval =
  pa_agent_id :: bytes
  pa_session_id :: "bytes option"
  pa_tool_name :: bytes
  pa_tool_args :: json
  pa_status :: bytes
  pa_resolved_by :: "bytes option"
  pa_context :: "json option"

type_synonym approvals_db = "approval_id \<rightharpoonup> pending_approval"

datatype approval_error = NotFound approval_id | AlreadyResolved approval_id bytes

definition create_approval ::
  "approvals_db \<Rightarrow> approval_id \<Rightarrow> bytes \<Rightarrow> bytes option \<Rightarrow> bytes \<Rightarrow> json \<Rightarrow> json \<Rightarrow> approvals_db" where
  "create_approval db new_id agent_id session_id tool_name tool_args ctx =
     db(new_id \<mapsto> \<lparr>pa_agent_id = agent_id, pa_session_id = session_id, pa_tool_name = tool_name,
                   pa_tool_args = tool_args, pa_status = ''pending'', pa_resolved_by = None,
                   pa_context = Some ctx\<rparr>)"

definition resolve_approval_strict ::
  "approvals_db \<Rightarrow> approval_id \<Rightarrow> bytes \<Rightarrow> bytes \<Rightarrow> approvals_db \<times> (approval_error, unit) result" where
  "resolve_approval_strict db i status resolved_by = (case db i of
       None \<Rightarrow> (db, Inl (NotFound i))
     | Some row \<Rightarrow>
         if pa_status row \<noteq> ''pending'' then (db, Inl (AlreadyResolved i (pa_status row)))
         else (db(i \<mapsto> row\<lparr>pa_status := status, pa_resolved_by := Some resolved_by\<rparr>), Inr ()))"

definition get_approval :: "approvals_db \<Rightarrow> approval_id \<Rightarrow> pending_approval option" where
  "get_approval db i = db i"

section \<open>The protocol\<close>

datatype approval_result = RApproved | RApprovedWithModifiedArgs json | RRejected bytes

datatype approval_outcome =
    Approved
  | ApprovedWithModifiedArgs json
  | Rejected bytes
  | Cancelled
  | TimedOut nat

text \<open>The receiving end of a oneshot channel.\<close>

datatype mailbox = Silent | Delivered approval_result | SenderDropped

text \<open>Where \<open>request_approval\<close> is: the row exists and the channel is being notified; the waiter is
  registered; returned.\<close>

datatype phase = Announcing | Waiting | Returned approval_outcome

record approval_sys =
  rows :: approvals_db
  waiters :: "approval_id \<rightharpoonup> instant"
  mail :: "approval_id \<Rightarrow> mailbox"
  phase_of :: "approval_id \<rightharpoonup> phase"
  notices :: "(approval_id \<times> approval_result) list"
  clock :: instant

text \<open>Dropping an entry of the waiter map drops its sender.\<close>

definition retain_waiters :: "(instant \<Rightarrow> bool) \<Rightarrow> approval_sys \<Rightarrow> approval_sys" where
  "retain_waiters keep s =
     s\<lparr>waiters := map_retain (\<lambda>_. keep) (waiters s),
       mail := (\<lambda>i. case waiters s i of
                  Some created \<Rightarrow> if keep created \<or> mail s i \<noteq> Silent then mail s i else SenderDropped
                | None \<Rightarrow> mail s i)\<rparr>"

definition register_waiter :: "approval_sys \<Rightarrow> approval_id \<Rightarrow> approval_sys" where
  "register_waiter s i =
     (let s1 = retain_waiters (\<lambda>created. clock s < created + from_secs 300) s
      in s1\<lparr>waiters := (waiters s1)(i \<mapsto> clock s), mail := (mail s1)(i := Silent),
           phase_of := (phase_of s1)(i \<mapsto> Waiting)\<rparr>)"

definition resolution_result :: "bool \<Rightarrow> bytes \<Rightarrow> json option \<Rightarrow> approval_result" where
  "resolution_result approved resolved_by modified_input =
     (if approved
      then (case modified_input of Some args \<Rightarrow> RApprovedWithModifiedArgs args | None \<Rightarrow> RApproved)
      else RRejected (''rejected by '' @ resolved_by))"

text \<open>The database part of \<open>resolve_approval\<close>; on success the notice is under way.\<close>

definition resolve_begin ::
  "approval_sys \<Rightarrow> approval_id \<Rightarrow> bool \<Rightarrow> bytes \<Rightarrow> json option \<Rightarrow> approval_sys \<times> (approval_error, unit) result" where
  "resolve_begin s i approved resolved_by modified_input =
     (let status = (if approved then ''approved'' else ''rejected'')
      in case resolve_approval_strict (rows s) i status resolved_by of
           (db, Inr _) \<Rightarrow>
             (s\<lparr>rows := db, notices := notices s @ [(i, resolution_result approved resolved_by modified_input)]\<rparr>, Inr ())
         | (db, Inl e) \<Rightarrow> (s, Inl e))"

text \<open>The rest of it: wake the waiter if there is one, then drop stale waiters.\<close>

definition resolve_finish :: "approval_sys \<Rightarrow> approval_id \<Rightarrow> approval_result \<Rightarrow> approval_sys" where
  "resolve_finish s i res =
     (let s1 = (case waiters s i of
                  None \<Rightarrow> s
                | Some _ \<Rightarrow> s\<lparr>waiters := (waiters s)(i := None), mail := (mail s)(i := Delivered res)\<rparr>)
      in retain_waiters (\<lambda>created. clock s - created \<le> from_secs 300) s1)"

definition received_outcome :: "bytes \<Rightarrow> approval_result \<Rightarrow> approval_outcome" where
  "received_outcome tool_name res = (case res of
       RApproved \<Rightarrow> Approved
     | RApprovedWithModifiedArgs args \<Rightarrow> ApprovedWithModifiedArgs args
     | RRejected reason \<Rightarrow> Rejected (''Tool `'' @ tool_name @ ''` was rejected: '' @ reason))"

text \<open>The sender was dropped. \<open>update_ok\<close> is false when the update of the row fails, which only logs.\<close>

definition wait_cancelled :: "approval_sys \<Rightarrow> approval_id \<Rightarrow> bool \<Rightarrow> approval_sys" where
  "wait_cancelled s i update_ok =
     s\<lparr>waiters := (waiters s)(i := None),
       rows := (if update_ok then fst (resolve_approval_strict (rows s) i ''cancelled'' ''system'') else rows s),
       phase_of := (phase_of s)(i \<mapsto> Returned Cancelled)\<rparr>"

text \<open>The timeout branch. \<open>update_ok\<close> and \<open>read_ok\<close> are false when the update of the row and the second
  look at it fail. After an update that did not fail the row is resolved and cannot change any more; before one
  that fails another resolution may come just as well. So the branch is one step.\<close>

definition wait_timeout :: "approval_sys \<Rightarrow> approval_id \<Rightarrow> nat \<Rightarrow> bool \<Rightarrow> bool \<Rightarrow> approval_sys" where
  "wait_timeout s i timeout_secs update_ok read_ok =
     (let (db, r) = (if update_ok then resolve_approval_strict (rows s) i ''timeout'' ''system''
                     else (rows s, Inl (NotFound i)));
          was_pending = (r = Inr ());
          honoured = (\<not> was_pending \<and> read_ok
                      \<and> (case get_approval db i of Some row \<Rightarrow> pa_status row = ''approved'' | None \<Rightarrow> False))
      in s\<lparr>rows := db, waiters := (waiters s)(i := None),
           phase_of := (phase_of s)(i \<mapsto> Returned (if honoured then Approved else TimedOut timeout_secs))\<rparr>)"

definition prune_stale :: "approval_sys \<Rightarrow> approval_sys" where
  "prune_stale s = retain_waiters (\<lambda>created. clock s - created \<le> from_secs 600) s"

inductive appr_step :: "approval_sys \<Rightarrow> approval_sys \<Rightarrow> bool" where
  as_create: "rows s i = None \<Longrightarrow> phase_of s i = None \<Longrightarrow>
     appr_step s (s\<lparr>rows := create_approval (rows s) i agent sid tool args ctx,
                    phase_of := (phase_of s)(i \<mapsto> Announcing)\<rparr>)"
| as_register: "phase_of s i = Some Announcing \<Longrightarrow> appr_step s (register_waiter s i)"
| as_resolve: "resolve_begin s i approved by_user modified = (s', r) \<Longrightarrow> appr_step s s'"
| as_notify: "notices s = pre @ (i, res) # post \<Longrightarrow>
     appr_step s (resolve_finish (s\<lparr>notices := pre @ post\<rparr>) i res)"
| as_receive: "phase_of s i = Some Waiting \<Longrightarrow> mail s i = Delivered res \<Longrightarrow> rows s i = Some row \<Longrightarrow>
     appr_step s (s\<lparr>phase_of := (phase_of s)(i \<mapsto> Returned (received_outcome (pa_tool_name row) res))\<rparr>)"
| as_dropped: "phase_of s i = Some Waiting \<Longrightarrow> mail s i = SenderDropped \<Longrightarrow> appr_step s (wait_cancelled s i update_ok)"
| as_timeout: "phase_of s i = Some Waiting \<Longrightarrow> mail s i = Silent \<Longrightarrow> appr_step s (wait_timeout s i secs update_ok read_ok)"
| as_prune: "appr_step s (prune_stale s)"
| as_tick: "clock s \<le> t \<Longrightarrow> appr_step s (s\<lparr>clock := t\<rparr>)"

definition appr_init :: approval_sys where
  "appr_init = \<lparr>rows = Map.empty, waiters = Map.empty, mail = (\<lambda>_. Silent), phase_of = Map.empty,
                notices = [], clock = 0\<rparr>"

section \<open>One winner\<close>

text \<open>A series of resolvers of one row, each with its status and name.\<close>

fun resolve_all :: "approvals_db \<Rightarrow> approval_id \<Rightarrow> (bytes \<times> bytes) list \<Rightarrow> approvals_db \<times> (approval_error, unit) result list" where
  "resolve_all db i [] = (db, [])"
| "resolve_all db i ((status, who) # rs) =
     (let (db1, r) = resolve_approval_strict db i status who;
          (db2, r') = resolve_all db1 i rs
      in (db2, r # r'))"

lemma resolve_all_resolved:
  assumes "db i = Some row" and "pa_status row \<noteq> ''pending''"
  shows "resolve_all db i rs = (db, replicate (length rs) (Inl (AlreadyResolved i (pa_status row))))"
  using assms by (induction rs) (auto simp: resolve_approval_strict_def)

text \<open>Of any number of competing resolvers of a pending approval exactly the first wins: the
  row keeps its status and its name, and every other resolver is told that status.\<close>

theorem first_resolver_wins:
  assumes "db i = Some row" and "pa_status row = ''pending''" and "status \<noteq> ''pending''"
  shows "resolve_all db i ((status, who) # rs) =
     (db(i \<mapsto> row\<lparr>pa_status := status, pa_resolved_by := Some who\<rparr>),
      Inr () # replicate (length rs) (Inl (AlreadyResolved i status)))"
  using assms resolve_all_resolved [of "db(i \<mapsto> row\<lparr>pa_status := status, pa_resolved_by := Some who\<rparr>)" i
      "row\<lparr>pa_status := status, pa_resolved_by := Some who\<rparr>" rs]
  by (simp add: resolve_approval_strict_def)

theorem first_resolver_wins_witness:
  "snd (resolve_all (create_approval Map.empty 1 ''a'' None ''t'' JNull JNull) 1
      [(''approved'', ''u''), (''rejected'', ''v'')]) = [Inr (), Inl (AlreadyResolved 1 ''approved'')]"
  using first_resolver_wins [of "create_approval Map.empty 1 ''a'' None ''t'' JNull JNull" 1
      "\<lparr>pa_agent_id = ''a'', pa_session_id = None, pa_tool_name = ''t'', pa_tool_args = JNull,
        pa_status = ''pending'', pa_resolved_by = None, pa_context = Some JNull\<rparr>" "''approved''" "''u''" "[(''rejected'', ''v'')]"]
  by (simp add: create_approval_def)

section \<open>Safety of the protocol\<close>

definition result_status :: "approval_result \<Rightarrow> bytes" where
  "result_status res = (case res of RRejected _ \<Rightarrow> ''rejected'' | _ \<Rightarrow> ''approved'')"

definition status_is :: "approval_sys \<Rightarrow> approval_id \<Rightarrow> bytes \<Rightarrow> bool" where
  "status_is s i st \<longleftrightarrow> (\<exists>row. rows s i = Some row \<and> pa_status row = st)"

definition phase_ok :: "approval_sys \<Rightarrow> approval_id \<Rightarrow> phase \<Rightarrow> bool" where
  "phase_ok s i p = (case p of
       Returned Approved \<Rightarrow> status_is s i ''approved''
     | Returned (ApprovedWithModifiedArgs _) \<Rightarrow> status_is s i ''approved''
     | Returned (Rejected _) \<Rightarrow> status_is s i ''rejected''
     | _ \<Rightarrow> rows s i \<noteq> None)"

text \<open>What is announced, delivered and returned agrees with the row.\<close>

definition appr_inv :: "approval_sys \<Rightarrow> bool" where
  "appr_inv s \<longleftrightarrow>
     (\<forall>(i, res) \<in> set (notices s). status_is s i (result_status res))
     \<and> (\<forall>i res. mail s i = Delivered res \<longrightarrow> status_is s i (result_status res))
     \<and> (\<forall>i p. phase_of s i = Some p \<longrightarrow> phase_ok s i p)"

text \<open>A status other than pending is final.\<close>

lemma status_stable:
  "appr_step s s' \<Longrightarrow> status_is s i st \<Longrightarrow> st \<noteq> ''pending'' \<Longrightarrow> status_is s' i st"
  by (induction rule: appr_step.induct)
    (auto simp: status_is_def create_approval_def register_waiter_def retain_waiters_def resolve_begin_def
      resolve_approval_strict_def resolve_finish_def wait_cancelled_def wait_timeout_def prune_stale_def Let_def
      split: option.splits if_splits prod.splits)

lemma rows_stable: "appr_step s s' \<Longrightarrow> rows s i \<noteq> None \<Longrightarrow> rows s' i \<noteq> None"
  by (induction rule: appr_step.induct)
    (auto simp: create_approval_def register_waiter_def retain_waiters_def resolve_begin_def
      resolve_approval_strict_def resolve_finish_def wait_cancelled_def wait_timeout_def prune_stale_def Let_def
      split: option.splits if_splits prod.splits)

lemma result_status_final [simp]: "result_status res \<noteq> ''pending''"
  by (simp add: result_status_def split: approval_result.splits)

lemma phase_ok_stable: "appr_step s s' \<Longrightarrow> phase_ok s i p \<Longrightarrow> phase_ok s' i p"
  using status_stable [of s s' i] rows_stable [of s s' i]
  by (auto simp: phase_ok_def split: phase.splits approval_outcome.splits)

text \<open>A step keeps the invariant if what it newly announces, delivers or returns agrees with the
  row afterwards.\<close>

lemma appr_inv_step_by:
  assumes "appr_step s s'" and "appr_inv s"
    and "\<And>i res. (i, res) \<in> set (notices s') \<Longrightarrow> (i, res) \<in> set (notices s) \<or> status_is s' i (result_status res)"
    and "\<And>i res. mail s' i = Delivered res \<Longrightarrow>
       mail s i = Delivered res \<or> (i, res) \<in> set (notices s) \<or> status_is s' i (result_status res)"
    and "\<And>i p. phase_of s' i = Some p \<Longrightarrow> phase_of s i = Some p \<or> phase_ok s' i p"
  shows "appr_inv s'"
  unfolding appr_inv_def
proof (intro conjI allI impI ballI)
  note old = assms(2) [unfolded appr_inv_def]
  have st: "status_is s i (result_status res) \<Longrightarrow> status_is s' i (result_status res)" for i res
    by (rule status_stable [OF assms(1)]) auto
  fix n assume "n \<in> set (notices s')"
  then show "case n of (i, res) \<Rightarrow> status_is s' i (result_status res)"
    using assms(3) [of "fst n" "snd n"] old st by fastforce
next
  note old = assms(2) [unfolded appr_inv_def]
  have st: "status_is s i (result_status res) \<Longrightarrow> status_is s' i (result_status res)" for i res
    by (rule status_stable [OF assms(1)]) auto
  fix i res assume "mail s' i = Delivered res"
  then show "status_is s' i (result_status res)" using assms(4) [of i res] old st by fastforce
next
  fix i p assume "phase_of s' i = Some p"
  then show "phase_ok s' i p"
    using assms(2) [unfolded appr_inv_def] phase_ok_stable [OF assms(1), of i p] assms(5) [of i p] by blast
qed

lemma appr_inv_row: "appr_inv s \<Longrightarrow> phase_of s i = Some p \<Longrightarrow> rows s i \<noteq> None"
proof -
  assume "appr_inv s" "phase_of s i = Some p"
  then have "phase_ok s i p" by (simp add: appr_inv_def)
  then show ?thesis by (auto simp: phase_ok_def status_is_def split: phase.splits approval_outcome.splits)
qed

lemma retain_waiters_mail [simp]: "mail (retain_waiters keep s) i = Delivered res \<longleftrightarrow> mail s i = Delivered res"
  by (auto simp: retain_waiters_def split: option.splits)

lemma retain_waiters_same [simp]:
  "rows (retain_waiters keep s) = rows s" "phase_of (retain_waiters keep s) = phase_of s"
  "notices (retain_waiters keep s) = notices s" "clock (retain_waiters keep s) = clock s"
  by (simp_all add: retain_waiters_def)

lemma resolution_result_status:
  "result_status (resolution_result approved who m) = (if approved then ''approved'' else ''rejected'')"
  by (simp add: result_status_def resolution_result_def split: option.splits)

lemma received_phase_ok:
  "status_is s i (result_status res) \<Longrightarrow> phase_ok s i (Returned (received_outcome tool res))"
  by (simp add: phase_ok_def received_outcome_def result_status_def split: approval_result.splits)

lemma appr_inv_step: "appr_step s s' \<Longrightarrow> appr_inv s \<Longrightarrow> appr_inv s'"
proof (induction rule: appr_step.induct)
  case (as_create s i agent sid tool args ctx)
  show ?case
    by (rule appr_inv_step_by [OF appr_step.as_create [OF as_create(1,2)] as_create(3)])
      (auto simp: phase_ok_def create_approval_def split: if_splits)
next
  case (as_register s i)
  have "rows s i \<noteq> None" using as_register appr_inv_row by blast
  then show ?case
    by (intro appr_inv_step_by [OF appr_step.as_register [OF as_register(1)] as_register(2)])
      (auto simp: register_waiter_def Let_def phase_ok_def split: if_splits)
next
  case (as_resolve s i approved by_user modified s' r)
  show ?case
    by (rule appr_inv_step_by [OF appr_step.as_resolve [OF as_resolve(1)] as_resolve(2)])
      (use as_resolve(1) in \<open>auto simp: resolve_begin_def resolve_approval_strict_def status_is_def
        resolution_result_status Let_def split: option.splits if_splits\<close>)
next
  case (as_notify s pre i res post)
  show ?case
    by (rule appr_inv_step_by [OF appr_step.as_notify [OF as_notify(1)] as_notify(2)])
      (use as_notify(1) in \<open>auto simp: resolve_finish_def Let_def split: option.splits if_splits\<close>)
next
  case (as_receive s i res row)
  have "status_is s i (result_status res)" using as_receive by (auto simp: appr_inv_def)
  then have "phase_ok (s\<lparr>phase_of := (phase_of s)(i \<mapsto> Returned (received_outcome (pa_tool_name row) res))\<rparr>) i
      (Returned (received_outcome (pa_tool_name row) res))"
    by (intro received_phase_ok) (simp add: status_is_def)
  then show ?case
    by (intro appr_inv_step_by [OF appr_step.as_receive [OF as_receive(1,2,3)] as_receive(4)])
      (auto split: if_splits)
next
  case (as_dropped s i update_ok)
  have "rows s i \<noteq> None" using as_dropped appr_inv_row by blast
  then show ?case
    by (intro appr_inv_step_by [OF appr_step.as_dropped [OF as_dropped(1,2)] as_dropped(3)])
      (auto simp: wait_cancelled_def phase_ok_def resolve_approval_strict_def split: if_splits option.splits)
next
  case (as_timeout s i secs update_ok read_ok)
  have "rows s i \<noteq> None" using as_timeout appr_inv_row by blast
  then show ?case
    by (intro appr_inv_step_by [OF appr_step.as_timeout [OF as_timeout(1,2)] as_timeout(3)])
      (auto simp: wait_timeout_def phase_ok_def resolve_approval_strict_def get_approval_def status_is_def
        Let_def split: if_splits option.splits)
next
  case (as_prune s)
  show ?case
    by (rule appr_inv_step_by [OF appr_step.as_prune as_prune]) (auto simp: prune_stale_def)
next
  case (as_tick s t)
  show ?case by (rule appr_inv_step_by [OF appr_step.as_tick [OF as_tick(1)] as_tick(2)]) auto
qed

lemma appr_reachable_inv: "appr_step\<^sup>*\<^sup>* appr_init s \<Longrightarrow> appr_inv s"
proof (induction rule: rtranclp_induct)
  case base
  show ?case by (simp add: appr_inv_def appr_init_def)
qed (rule appr_inv_step)

text \<open>C17: No interleaving of requesters, resolvers, pruning and timeouts lets a tool run without
  an approval: when a request returns approved, with or without changed arguments, its row says
  approved, and it says so for ever; when it returns rejected the row says rejected.\<close>

theorem approved_only_if_row_approved:
  assumes "appr_step\<^sup>*\<^sup>* appr_init s" and "phase_of s i = Some (Returned out)"
  shows "(out = Approved \<or> (\<exists>args. out = ApprovedWithModifiedArgs args) \<longrightarrow>
            (\<forall>s'. appr_step\<^sup>*\<^sup>* s s' \<longrightarrow> status_is s' i ''approved''))
    \<and> ((\<exists>why. out = Rejected why) \<longrightarrow> (\<forall>s'. appr_step\<^sup>*\<^sup>* s s' \<longrightarrow> status_is s' i ''rejected''))"
proof -
  have final: "appr_step\<^sup>*\<^sup>* s s' \<Longrightarrow> status_is s i st \<Longrightarrow> st \<noteq> ''pending'' \<Longrightarrow> status_is s' i st" for s' st
    by (induction rule: rtranclp_induct) (auto intro: status_stable)
  have "phase_ok s i (Returned out)"
    using appr_reachable_inv [OF assms(1)] assms(2) by (simp add: appr_inv_def)
  with final show ?thesis by (auto simp: phase_ok_def)
qed

text \<open>The run in which a resolver is faster than the registration of the waiter.\<close>

definition sample_row :: "bytes \<Rightarrow> bytes option \<Rightarrow> pending_approval" where
  "sample_row st who = \<lparr>pa_agent_id = ''a'', pa_session_id = None, pa_tool_name = ''t'', pa_tool_args = JNull,
     pa_status = st, pa_resolved_by = who, pa_context = Some JNull\<rparr>"

definition announced :: approval_sys where
  "announced = appr_init\<lparr>rows := [1 \<mapsto> sample_row ''pending'' None], phase_of := [1 \<mapsto> Announcing]\<rparr>"

definition resolved_early :: "json \<Rightarrow> approval_sys" where
  "resolved_early args = announced\<lparr>rows := [1 \<mapsto> sample_row ''approved'' (Some ''owner'')],
     notices := [(1, RApprovedWithModifiedArgs args)]\<rparr>"

definition plainly_approved :: approval_sys where
  "plainly_approved = appr_init\<lparr>rows := [1 \<mapsto> sample_row ''approved'' (Some ''owner'')],
     phase_of := [1 \<mapsto> Returned Approved]\<rparr>"

lemmas sample_defs = appr_init_def announced_def resolved_early_def plainly_approved_def sample_row_def

lemma announced_reachable: "appr_step appr_init announced"
  using as_create [of appr_init 1 "''a''" None "''t''" JNull JNull]
  by (simp add: sample_defs create_approval_def)

lemma resolve_early: "resolve_begin announced 1 True ''owner'' (Some args) = (resolved_early args, Inr ())"
  by (simp add: sample_defs resolve_begin_def resolve_approval_strict_def resolution_result_def)

lemma early_approval_run: "appr_step\<^sup>*\<^sup>* (resolved_early args) plainly_approved"
proof -
  let ?s3 = "(resolved_early args)\<lparr>notices := []\<rparr>"
  let ?s4 = "?s3\<lparr>waiters := [1 \<mapsto> 0], phase_of := [1 \<mapsto> Waiting]\<rparr>"
  have 3: "appr_step (resolved_early args) ?s3"
    using as_notify [of "resolved_early args" "[]" 1 "RApprovedWithModifiedArgs args" "[]"]
    by (simp add: sample_defs resolve_finish_def retain_waiters_def map_retain_def)
  have 4: "appr_step ?s3 ?s4"
    using as_register [of ?s3 1]
    by (simp add: sample_defs register_waiter_def retain_waiters_def map_retain_def fun_upd_idem)
  have 5: "appr_step ?s4 plainly_approved"
    using as_timeout [of ?s4 1 300 True True]
    by (simp add: sample_defs wait_timeout_def resolve_approval_strict_def get_approval_def fun_upd_idem)
  from 3 4 5 show ?thesis by (meson converse_rtranclp_into_rtranclp rtranclp.rtrancl_refl)
qed

lemma plainly_approved_reachable: "appr_step\<^sup>*\<^sup>* appr_init plainly_approved"
  using announced_reachable as_resolve [OF resolve_early] early_approval_run
  by (meson converse_rtranclp_into_rtranclp)

theorem approved_only_if_row_approved_witness:
  "\<exists>s. appr_step\<^sup>*\<^sup>* appr_init s \<and> phase_of s 1 = Some (Returned Approved) \<and> status_is s 1 ''approved''"
proof -
  have ph: "phase_of plainly_approved 1 = Some (Returned Approved)" by (simp add: sample_defs)
  from approved_only_if_row_approved [OF plainly_approved_reachable ph] plainly_approved_reachable ph
  show ?thesis by blast
qed

text \<open>Changed arguments can be lost: a resolver approves with modified arguments while the
  channel is still being notified, no waiter is registered yet, the request later times out, sees
  the approved row and returns a plain approval, so the tool runs with its original arguments.\<close>

theorem modified_args_lost:
  "\<exists>s1 s2 s3. appr_step\<^sup>*\<^sup>* appr_init s1 \<and> phase_of s1 1 = Some Announcing
     \<and> resolve_begin s1 1 True ''owner'' (Some args) = (s2, Inr ())
     \<and> appr_step\<^sup>*\<^sup>* s2 s3 \<and> phase_of s3 1 = Some (Returned Approved)"
proof (intro exI conjI)
  show "appr_step\<^sup>*\<^sup>* appr_init announced" using announced_reachable by blast
  show "appr_step\<^sup>*\<^sup>* (resolved_early args) plainly_approved" by (rule early_approval_run)
  show "resolve_begin announced 1 True ''owner'' (Some args) = (resolved_early args, Inr ())"
    by (rule resolve_early)
qed (simp_all add: sample_defs)

end
