(* ===== verification/Session_Run.thy ===== *)
theory Session_Run
  imports Tool_Policy Approvals Agent_Loop
begin

text \<open>
  One message from its arrival to the terminal status of its session: \<open>agent/agent_state.rs\<close> (requests in
  flight), \<open>agent/session_manager.rs\<close> (the guard that settles a session), \<open>hydeclaw-db/session_failures.rs\<close>,
  \<open>agent/pipeline/bootstrap.rs\<close>, \<open>agent/pipeline/finalize.rs\<close> and the entry points of \<open>agent/engine/run.rs\<close>.

  The \<open>n\<close>-th database call fails when \<open>re_fails n\<close> holds; the clock and the generated ids are functions of
  \<open>n\<close> too. Spawned work is a list of tasks that later run in any order; nothing
  assumes that a task has run when the handler returns. The context builder, the enrichment of the text,
  the slash commands and the history compaction are arguments.
\<close>

section \<open>Requests in flight\<close>

record agent_requests =
  active_requests :: "(64 word \<times> bool) list"
  next_request_id :: "64 word"

text \<open>A token is the flag that says whether it has been cancelled.\<close>

definition register_request :: "agent_requests \<Rightarrow> agent_requests \<times> 64 word" where
  "register_request st =
     (let i = next_request_id st
      in (st\<lparr>next_request_id := i + 1, active_requests := active_requests st @ [(i, False)]\<rparr>, i))"

definition unregister_request :: "64 word \<Rightarrow> agent_requests \<Rightarrow> agent_requests" where
  "unregister_request i st = st\<lparr>active_requests := filter (\<lambda>(j, _). j \<noteq> i) (active_requests st)\<rparr>"

definition cancel_all_requests :: "agent_requests \<Rightarrow> agent_requests" where
  "cancel_all_requests st = st\<lparr>active_requests := map (\<lambda>(j, _). (j, True)) (active_requests st)\<rparr>"

definition active_request_count :: "agent_requests \<Rightarrow> nat" where
  "active_request_count st = length (active_requests st)"

text \<open>The polls of \<open>wait_drain\<close> at 0, 50, 100, \dots milliseconds; \<open>obs k\<close> is the state at poll \<open>k\<close>. The
  result is the number of milliseconds waited.\<close>

function wait_polls :: "(nat \<Rightarrow> agent_requests) \<Rightarrow> nat \<Rightarrow> nat \<Rightarrow> nat" where
  "wait_polls obs timeout_ms k =
     (if active_requests (obs k) = [] then 50 * k
      else if timeout_ms \<le> 50 * k then 50 * k
      else wait_polls obs timeout_ms (Suc k))"
  by pat_completeness auto
termination
  by (relation "measure (\<lambda>(obs, t, k). t - 50 * k)") auto

declare wait_polls.simps [simp del]

definition wait_drain :: "(nat \<Rightarrow> agent_requests) \<Rightarrow> nat \<Rightarrow> nat" where
  "wait_drain obs timeout_ms = wait_polls obs timeout_ms 0"

section \<open>The failure log\<close>

record new_session_failure =
  nf_session_id :: uuid
  nf_agent_id :: bytes
  nf_failure_kind :: bytes
  nf_error_message :: bytes
  nf_last_tool_name :: "bytes option"
  nf_last_tool_output :: "bytes option"
  nf_llm_provider :: "bytes option"
  nf_llm_model :: "bytes option"
  nf_iteration_count :: "int option"
  nf_duration_secs :: "int option"
  nf_context_json :: "json option"

definition MAX_TOOL_OUTPUT_BYTES :: nat where
  "MAX_TOOL_OUTPUT_BYTES = 2048"

definition truncate_tool_output :: "bytes \<Rightarrow> bytes" where
  "truncate_tool_output s =
     (if length s \<le> MAX_TOOL_OUTPUT_BYTES then s else take (floor_char_boundary s MAX_TOOL_OUTPUT_BYTES) s)"

definition classify_failure_kind :: "bytes \<Rightarrow> bytes" where
  "classify_failure_kind reason =
     (let lower = ascii_lower reason; has = contains lower
      in if has ''guard dropped'' \<or> has ''early exit'' then ''guard_dropped''
         else if has ''did not complete within'' \<or> has ''timed out waiting'' then ''sub_agent_timeout''
         else if starts_with lower ''loop_detected'' \<or> has ''loop_detected'' \<or> has ''max loop nudges''
           \<or> has ''failed'' \<and> has ''times consecutively'' then ''tool_error''
         else if starts_with lower ''iteration_limit'' \<or> has ''max iterations'' \<or> has ''turn limit'' then ''max_iterations''
         else if has ''ollama request error'' \<or> has ''request error'' \<or> has ''connection refused''
           \<or> has ''connect timeout'' \<or> has ''dns error'' \<or> has ''tls handshake'' then ''provider_error''
         else if has ''llm call failed'' \<or> has ''provider returned'' \<or> has ''model returned an error'' \<or> has ''api error''
           \<or> has '' 4xx'' \<or> has '' 5xx'' \<or> has ''status'' \<and> (has '' 4'' \<or> has '' 5'') \<and> has ''error'' then ''llm_error''
         else ''other'')"

section \<open>World and environment\<close>

datatype processing_phase = ThinkingPhase | CallingTool bytes | Composing

definition to_wire :: "processing_phase \<Rightarrow> bytes \<times> bytes option" where
  "to_wire p = (case p of
       ThinkingPhase \<Rightarrow> (''thinking'', None) | CallingTool name \<Rightarrow> (''calling_tool'', Some name) | Composing \<Rightarrow> (''composing'', None))"

datatype pipeline_event = Stream stream_event | Phase processing_phase

datatype task =
    MarkFailed uuid "bytes option" bool
  | RecordFailure uuid bytes bytes bytes "bytes option" "bytes option"
  | Notify bytes bytes bytes json
  | ExtractKnowledge uuid bytes
  | PersistRow uuid row_write
  | RecordUsage uuid usage_write

text \<open>\<open>w_events\<close> lists the events handed to the sink, whether it took them or not.\<close>

record world =
  w_db :: database
  w_wal :: "wal_event list"
  w_failures :: "new_session_failure list"
  w_calls :: nat
  w_tasks :: "task list"
  w_requests :: agent_requests
  w_sse_tx :: bool
  w_approvals :: approval_sys
  w_events :: "pipeline_event list"
  w_processing :: "(bytes \<times> json) list"
  w_ui :: "json list"

record run_env =
  re_fails :: "nat \<Rightarrow> bool"
  re_error :: "nat \<Rightarrow> bytes"
  re_now :: "nat \<Rightarrow> instant"
  re_fresh :: "nat \<Rightarrow> uuid"
  re_uuid_str :: "uuid \<Rightarrow> bytes"
  re_agent :: bytes
  re_provider :: bytes
  re_model :: bytes
  re_ui :: bool
  re_tracker :: bool
  re_hooks :: hook_registry
  re_loop_config :: tool_loop_config
  re_max_messages :: "nat option"
  re_build_context :: "incoming_message \<Rightarrow> bool \<Rightarrow> uuid option \<Rightarrow> bool \<Rightarrow> database \<Rightarrow> database \<times> (bytes, uuid \<times> message list) result"
  re_enrich :: "bytes \<Rightarrow> media_attachment list \<Rightarrow> bytes"
  re_command :: "bytes \<Rightarrow> incoming_message \<Rightarrow> (bytes, bytes) result option"
  re_compact :: "message list \<Rightarrow> loop_detector \<Rightarrow> message list"
  re_calls_value :: "tool_call list \<Rightarrow> json option"
  re_thinking_value :: "thinking_block list \<Rightarrow> json option"
  re_msg_id :: bytes
  re_loop :: "uuid \<Rightarrow> loop_env"

text \<open>A database call: it takes the next number and may fail.\<close>

definition call_fails :: "run_env \<Rightarrow> world \<Rightarrow> bool" where
  "call_fails env w = re_fails env (w_calls w)"

definition next_call :: "world \<Rightarrow> world" where
  "next_call w = w\<lparr>w_calls := Suc (w_calls w)\<rparr>"

definition spawn :: "task \<Rightarrow> world \<Rightarrow> world" where
  "spawn t w = w\<lparr>w_tasks := w_tasks w @ [t]\<rparr>"

definition emit_event :: "pipeline_event \<Rightarrow> world \<Rightarrow> world" where
  "emit_event ev w = w\<lparr>w_events := w_events w @ [ev]\<rparr>"

text \<open>\<open>log_event\<close> of the log, with its success.\<close>

definition try_log :: "run_env \<Rightarrow> uuid \<Rightarrow> bytes \<Rightarrow> json option \<Rightarrow> world \<Rightarrow> world \<times> bool" where
  "try_log env sid event_type payload w =
     (let w1 = next_call w; n = w_calls w
      in if call_fails env w then (w1, False)
         else (w1\<lparr>w_wal := log_event (re_fresh env n) (re_now env n) sid event_type payload (w_wal w1)\<rparr>, True))"

definition record_session_failure :: "run_env \<Rightarrow> new_session_failure \<Rightarrow> world \<Rightarrow> world" where
  "record_session_failure env input w =
     (let w1 = next_call w
      in if call_fails env w \<or> nf_session_id input \<notin> set (session_ids (w_db w)) then w1
         else w1\<lparr>w_failures := w_failures w1 @
           [input\<lparr>nf_last_tool_output := map_option truncate_tool_output (nf_last_tool_output input)\<rparr>]\<rparr>)"

section \<open>The lifecycle guard\<close>

datatype session_outcome = ORunning | ODone | OFailed | OInterrupted

record lifecycle_guard =
  lg_session_id :: uuid
  lg_outcome :: session_outcome
  lg_agent_id :: "bytes option"
  lg_recorded :: bool

definition guard_new :: "uuid \<Rightarrow> lifecycle_guard" where
  "guard_new sid = \<lparr>lg_session_id = sid, lg_outcome = ORunning, lg_agent_id = None, lg_recorded = False\<rparr>"

definition with_agent :: "bytes \<Rightarrow> lifecycle_guard \<Rightarrow> lifecycle_guard" where
  "with_agent agent g = g\<lparr>lg_agent_id := Some agent\<rparr>"

text \<open>What \<open>done\<close>, \<open>fail\<close> and \<open>interrupt\<close> have in common.\<close>

definition settle ::
  "run_env \<Rightarrow> bytes \<Rightarrow> session_outcome \<Rightarrow> json option \<Rightarrow> lifecycle_guard \<Rightarrow> world \<Rightarrow> lifecycle_guard \<times> world" where
  "settle env status outcome payload g w =
     (let g1 = g\<lparr>lg_recorded := True\<rparr>; w1 = next_call w; sid = lg_session_id g
      in if call_fails env w then (g1, w1)
         else (g1\<lparr>lg_outcome := outcome\<rparr>,
               fst (try_log env sid status payload (w1\<lparr>w_db := set_session_run_status sid status (w_db w1)\<rparr>))))"

definition reason_payload :: "bytes \<Rightarrow> json" where
  "reason_payload reason = JObject [(''reason'', JString reason)]"

definition guard_done :: "run_env \<Rightarrow> lifecycle_guard \<Rightarrow> world \<Rightarrow> lifecycle_guard \<times> world" where
  "guard_done env g w = settle env ''done'' ODone None g w"

definition guard_fail :: "run_env \<Rightarrow> bytes \<Rightarrow> lifecycle_guard \<Rightarrow> world \<Rightarrow> lifecycle_guard \<times> world" where
  "guard_fail env reason g w = settle env ''failed'' OFailed (Some (reason_payload reason)) g w"

definition guard_interrupt :: "run_env \<Rightarrow> bytes \<Rightarrow> lifecycle_guard \<Rightarrow> world \<Rightarrow> lifecycle_guard \<times> world" where
  "guard_interrupt env reason g w = settle env ''interrupted'' OInterrupted (Some (reason_payload reason)) g w"

definition guard_drop :: "lifecycle_guard \<Rightarrow> world \<Rightarrow> world" where
  "guard_drop g w =
     (if lg_outcome g = ORunning then spawn (MarkFailed (lg_session_id g) (lg_agent_id g) (lg_recorded g)) w else w)"

text \<open>The future that \<open>Drop\<close> spawns.\<close>

definition mark_failed :: "run_env \<Rightarrow> uuid \<Rightarrow> bytes option \<Rightarrow> bool \<Rightarrow> world \<Rightarrow> world" where
  "mark_failed env sid agent_id already_recorded w =
     (let w1 = next_call w; reason = ''guard dropped (early exit)''
      in if call_fails env w then w1
         else case mark_session_run_status_if_running sid ''failed'' (w_db w1) of
           (db', n) \<Rightarrow>
             if n = 0 then w1
             else
               let w2 = fst (try_log env sid ''failed'' (Some (reason_payload reason)) (w1\<lparr>w_db := db'\<rparr>))
               in case agent_id of
                    Some agent \<Rightarrow>
                      if already_recorded then w2
                      else record_session_failure env
                        \<lparr>nf_session_id = sid, nf_agent_id = agent, nf_failure_kind = ''guard_dropped'', nf_error_message = reason,
                         nf_last_tool_name = None, nf_last_tool_output = None, nf_llm_provider = None, nf_llm_model = None,
                         nf_iteration_count = None, nf_duration_secs = None,
                         nf_context_json = Some (JObject [(''kind'', JString ''guard_dropped''),
                           (''source'', JString ''session_lifecycle_drop'')])\<rparr> w2
                  | None \<Rightarrow> w2)"

section \<open>Background tasks\<close>

definition query :: "run_env \<Rightarrow> (world \<Rightarrow> 'a option) \<Rightarrow> world \<Rightarrow> 'a option \<times> world" where
  "query env q w = (if call_fails env w then None else q w, next_call w)"

definition last_tool_row :: "uuid \<Rightarrow> world \<Rightarrow> (bytes option \<times> bytes) option" where
  "last_tool_row sid w =
     (case rev (by_time (filter (\<lambda>m. m_role m = ''tool'') (in_session sid (messages (w_db w))))) of
        [] \<Rightarrow> None | m # _ \<Rightarrow> Some (m_tool_call_id m, m_content m))"

definition i32_MAX :: int where
  "i32_MAX = 2 ^ 31 - 1"

definition tool_end_count :: "uuid \<Rightarrow> world \<Rightarrow> int option" where
  "tool_end_count sid w =
     Some (min i32_MAX (int (length (filter (\<lambda>e. ev_session_id e = sid \<and> ev_type e = ''tool_end'') (w_wal w)))))"

text \<open>Seconds since the start, rounded; the cast to \<open>i32\<close> saturates.\<close>

definition session_secs :: "run_env \<Rightarrow> uuid \<Rightarrow> world \<Rightarrow> int option" where
  "session_secs env sid w =
     map_option (\<lambda>s. min i32_MAX (max (- (2 ^ 31))
         ((2 * (int (re_now env (w_calls w)) - int (s_started_at s)) + 10 ^ 9) div (2 * 10 ^ 9))))
       (get_session sid (w_db w))"

text \<open>The query for the tool's name orders by a column \<open>ts\<close> that \<open>session_events\<close> does not have, so the call
  fails and the name stays empty.\<close>

definition gather_failure :: "run_env \<Rightarrow> uuid \<Rightarrow> bytes \<Rightarrow> bytes \<Rightarrow> bytes \<Rightarrow> bytes option \<Rightarrow> bytes option \<Rightarrow> world \<Rightarrow> world" where
  "gather_failure env sid agent_name kind reason llm_provider llm_model w =
     (let (last_tool, w1) = query env (last_tool_row sid) w;
          w2 = (case last_tool of Some (Some tcid, _) \<Rightarrow> next_call w1 | _ \<Rightarrow> w1);
          (iteration_count, w3) = query env (tool_end_count sid) w2;
          (duration_secs, w4) = query env (session_secs env sid) w3
      in record_session_failure env
           \<lparr>nf_session_id = sid, nf_agent_id = agent_name, nf_failure_kind = kind, nf_error_message = reason,
            nf_last_tool_name = None, nf_last_tool_output = map_option snd last_tool, nf_llm_provider = llm_provider,
            nf_llm_model = llm_model, nf_iteration_count = iteration_count, nf_duration_secs = duration_secs,
            nf_context_json = Some (JObject [(''kind'', JString kind)])\<rparr> w4)"

text \<open>A missing parent or session is a violated foreign key and retried.\<close>

fun persist_row :: "run_env \<Rightarrow> nat \<Rightarrow> uuid \<Rightarrow> row_write \<Rightarrow> world \<Rightarrow> world" where
  "persist_row env 0 sid row w = w"
| "persist_row env (Suc left) sid row w =
     (let w1 = next_call w; n = w_calls w
      in if call_fails env w then (if retryable (re_error env n) then persist_row env left sid row w1 else w1)
         else case save_message_ex_with_id (rw_id row) (re_now env n) sid (rw_role row) (rw_content row)
                (if rw_tool_calls row = [] then None else re_calls_value env (rw_tool_calls row)) (rw_tool_call_id row)
                (Some (rw_agent row)) (if rw_thinking row = [] then None else re_thinking_value env (rw_thinking row))
                (rw_parent row) (w_db w1) of
              Inr db' \<Rightarrow> w1\<lparr>w_db := db'\<rparr>
            | Inl _ \<Rightarrow> persist_row env left sid row w1)"

text \<open>Notifications, extracted knowledge and token usage go to tables of their own.\<close>

definition run_task :: "run_env \<Rightarrow> task \<Rightarrow> world \<Rightarrow> world" where
  "run_task env t w = (case t of
       MarkFailed sid agent recorded \<Rightarrow> mark_failed env sid agent recorded w
     | RecordFailure sid agent kind reason provider model \<Rightarrow> gather_failure env sid agent kind reason provider model w
     | PersistRow sid row \<Rightarrow> persist_row env 3 sid row w
     | Notify _ _ _ _ \<Rightarrow> w
     | ExtractKnowledge _ _ \<Rightarrow> w
     | RecordUsage _ _ \<Rightarrow> w)"

inductive task_step :: "run_env \<Rightarrow> world \<Rightarrow> world \<Rightarrow> bool" where
  run: "w_tasks w = before @ t # after \<Longrightarrow> task_step env w (run_task env t (w\<lparr>w_tasks := before @ after\<rparr>))"

section \<open>Finalize\<close>

definition notify_agent_error :: "run_env \<Rightarrow> bytes \<Rightarrow> world \<Rightarrow> world" where
  "notify_agent_error env reason w =
     (if re_ui env
      then spawn (Notify ''agent_error'' ''Agent Error'' (''Agent '' @ re_agent env @ '' run failed: '' @ reason)
             (JObject [(''agent'', JString (re_agent env)), (''reason'', JString reason)])) w
      else w)"

definition notify_iteration_limit :: "run_env \<Rightarrow> nat \<Rightarrow> world \<Rightarrow> world" where
  "notify_iteration_limit env max_its w =
     (if re_ui env
      then spawn (Notify ''iteration_limit'' (''Iteration limit: '' @ re_agent env)
             (''Agent '' @ re_agent env @ '' reached its iteration limit ('' @ show_nat max_its
                @ '' iterations). The task may be incomplete.'')
             (JObject [(''agent'', JString (re_agent env)), (''max_iterations'', JInt (int max_its))])) w
      else w)"

definition notify_loop_detected :: "run_env \<Rightarrow> uuid \<Rightarrow> world \<Rightarrow> world" where
  "notify_loop_detected env sid w =
     (if re_ui env
      then spawn (Notify ''agent_loop_detected'' (''Agent stuck in loop: '' @ re_agent env)
             (''Agent '' @ re_agent env @ '' was stopped after detecting a repeating pattern. Session: '' @ re_uuid_str env sid)
             (JObject [(''agent'', JString (re_agent env)), (''session_id'', JString (re_uuid_str env sid))])) w
      else w)"

datatype finalize_outcome =
    FDone bytes "json option"
  | FFailed bytes bytes
  | FInterrupted bytes bytes

definition save_reply :: "run_env \<Rightarrow> uuid \<Rightarrow> bytes \<Rightarrow> json option \<Rightarrow> uuid option \<Rightarrow> world \<Rightarrow> world" where
  "save_reply env sid reply thinking parent w =
     (let w1 = next_call w; n = w_calls w
      in if call_fails env w then w1
         else case save_message_ex (re_fresh env n) (re_now env n) sid ''assistant'' reply None None (Some (re_agent env))
                thinking parent (w_db w1) of
              Inr db' \<Rightarrow> w1\<lparr>w_db := db'\<rparr> | Inl _ \<Rightarrow> w1)"

definition spawn_knowledge_extraction :: "run_env \<Rightarrow> uuid \<Rightarrow> nat \<Rightarrow> world \<Rightarrow> world" where
  "spawn_knowledge_extraction env sid message_count w =
     (if 5 \<le> message_count then spawn (ExtractKnowledge sid (re_agent env)) w else w)"

definition spawn_record_failure :: "run_env \<Rightarrow> uuid \<Rightarrow> bytes \<Rightarrow> world \<Rightarrow> world" where
  "spawn_record_failure env sid reason w =
     spawn (RecordFailure sid (re_agent env) (classify_failure_kind reason) reason (Some (re_provider env)) (Some (re_model env))) w"

definition finalize ::
  "run_env \<Rightarrow> uuid \<Rightarrow> nat \<Rightarrow> uuid option \<Rightarrow> finalize_outcome \<Rightarrow> lifecycle_guard \<Rightarrow> world \<Rightarrow> lifecycle_guard \<times> world \<times> bytes" where
  "finalize env sid message_count parent outcome g w = (case outcome of
       FDone reply thinking \<Rightarrow>
         let (g1, w1) = guard_done env g w;
             w2 = save_reply env sid reply thinking parent w1
         in (g1, spawn_knowledge_extraction env sid message_count w2, reply)
     | FFailed partial reason \<Rightarrow>
         let w1 = (if partial = [] then w else save_reply env sid partial None parent w);
             (g1, w2) = guard_fail env reason g w1;
             w3 = emit_event (Stream (Error reason)) (spawn_record_failure env sid reason w2);
             lowered = ascii_lower reason;
             w4 = (if starts_with lowered ''loop_detected'' then notify_loop_detected env sid w3
                   else if starts_with lowered ''iteration_limit''
                   then notify_iteration_limit env (effective_max_iterations (re_loop_config env)) w3
                   else notify_agent_error env reason w3)
         in (g1, w4, partial)
     | FInterrupted partial reason \<Rightarrow>
         let w1 = (if partial = [] then w else save_reply env sid partial None parent w);
             (g1, w2) = guard_interrupt env reason g w1
         in (g1, w2, partial))"

definition execute_status_to_finalize :: "execute_status \<Rightarrow> bytes \<Rightarrow> json option \<Rightarrow> finalize_outcome" where
  "execute_status_to_finalize status final_text thinking = (case status of
       EDone \<Rightarrow> FDone final_text thinking
     | EFailed reason \<Rightarrow> FFailed final_text reason
     | EInterrupted reason \<Rightarrow> FInterrupted final_text reason)"

section \<open>Bootstrap\<close>

definition log_wal_running_with_retry :: "run_env \<Rightarrow> uuid \<Rightarrow> world \<Rightarrow> world" where
  "log_wal_running_with_retry env sid w =
     (case try_log env sid ''running'' None w of
        (w1, True) \<Rightarrow> w1
      | (w1, False) \<Rightarrow> fst (try_log env sid ''running'' None w1))"

definition extract_sender_agent_id :: "bytes \<Rightarrow> bytes option" where
  "extract_sender_agent_id user_id =
     (if starts_with user_id ''agent:'' then Some (trim_prefixes ''agent:'' (length user_id) user_id) else None)"

text \<open>The newest completed message without children.\<close>

definition latest_leaf_message_id :: "uuid \<Rightarrow> database \<Rightarrow> uuid option" where
  "latest_leaf_message_id sid db =
     (let own = in_session sid (messages db);
          leaves = filter (\<lambda>m. m_status m = ''complete'' \<and> (\<forall>c \<in> set own. m_parent c \<noteq> Some (m_id m))) own
      in case rev (by_time leaves) of [] \<Rightarrow> None | m # _ \<Rightarrow> Some (m_id m))"

record processing_guard =
  pg_key :: bytes
  pg_session :: "bytes option"

definition processing_guard_new :: "run_env \<Rightarrow> json \<Rightarrow> world \<Rightarrow> processing_guard \<times> world" where
  "processing_guard_new env start_event w =
     (let session_id = Option.bind (json_get start_event ''session_id'') json_as_str;
          key = unwrap_or session_id (re_agent env)
      in (\<lparr>pg_key = key, pg_session = session_id\<rparr>,
          if re_tracker env then w\<lparr>w_processing := al_insert key start_event (w_processing w)\<rparr> else w))"

definition processing_guard_drop :: "run_env \<Rightarrow> processing_guard \<Rightarrow> world \<Rightarrow> world" where
  "processing_guard_drop env g w =
     (let w1 = (if re_tracker env then w\<lparr>w_processing := al_remove (pg_key g) (w_processing w)\<rparr> else w);
          event = [(''type'', JString ''agent_processing''), (''agent'', JString (re_agent env)), (''status'', JString ''end'')];
          event' = (case pg_session g of Some sid \<Rightarrow> event @ [(''session_id'', JString sid)] | None \<Rightarrow> event)
      in if re_ui env then w1\<lparr>w_ui := w_ui w1 @ [JObject event']\<rparr> else w1)"

record bootstrap_context =
  bc_msg :: incoming_message
  bc_resume_session_id :: "uuid option"
  bc_force_new_session :: bool
  bc_use_history :: bool

record bootstrap_outcome =
  bo_session_id :: uuid
  bo_messages :: "message list"
  bo_detector :: loop_detector
  bo_processing_guard :: processing_guard
  bo_lifecycle_guard :: lifecycle_guard
  bo_command_output :: "bytes option"
  bo_user_message_id :: uuid

definition start_event :: "run_env \<Rightarrow> uuid \<Rightarrow> incoming_message \<Rightarrow> json" where
  "start_event env sid msg =
     JObject [(''type'', JString ''agent_processing''), (''agent'', JString (re_agent env)),
       (''session_id'', JString (re_uuid_str env sid)), (''status'', JString ''start''), (''channel'', JString (im_channel msg))]"

text \<open>Step 2: the claim; \<open>None\<close> when the session is gone.\<close>

definition claim :: "run_env \<Rightarrow> uuid \<Rightarrow> world \<Rightarrow> world option" where
  "claim env sid w =
     (let w1 = next_call w
      in if call_fails env w then Some w1
         else case claim_session_running sid (w_db w1) of
           (db', found) \<Rightarrow> if found then Some (w1\<lparr>w_db := db'\<rparr>) else None)"

definition cleanup_streaming :: "run_env \<Rightarrow> uuid \<Rightarrow> world \<Rightarrow> world" where
  "cleanup_streaming env sid w =
     (let w1 = next_call w
      in if call_fails env w then w1 else w1\<lparr>w_db := fst (cleanup_session_streaming_messages sid (w_db w1))\<rparr>)"

text \<open>Step 6: the row of the user's message.\<close>

definition save_user_message :: "run_env \<Rightarrow> uuid \<Rightarrow> incoming_message \<Rightarrow> bytes \<Rightarrow> world \<Rightarrow> world \<times> uuid option" where
  "save_user_message env sid msg enriched w =
     (case im_user_message_id msg of
        Some existing \<Rightarrow> (w, Some existing)
      | None \<Rightarrow>
          let (parent, w1) = (case im_leaf_message_id msg of
                 Some i \<Rightarrow> (Some i, w)
               | None \<Rightarrow> query env (\<lambda>w. latest_leaf_message_id sid (w_db w)) w);
              n = w_calls w1; w2 = next_call w1
          in if call_fails env w1 then (w2, None)
             else case save_message_ex (re_fresh env n) (re_now env n) sid ''user'' enriched None None
                    (extract_sender_agent_id (im_user_id msg)) None parent (w_db w2) of
                  Inr db' \<Rightarrow> (w2\<lparr>w_db := db'\<rparr>, Some (re_fresh env n)) | Inl _ \<Rightarrow> (w2, None))"

text \<open>Steps 2 to 5, once the session is known: claim, clean, log and create the guards.\<close>

definition begin_session :: "run_env \<Rightarrow> uuid \<Rightarrow> incoming_message \<Rightarrow> world \<Rightarrow> (lifecycle_guard \<times> processing_guard \<times> world) option" where
  "begin_session env sid msg w =
     map_option (\<lambda>w1.
       let w2 = log_wal_running_with_retry env sid (cleanup_streaming env sid w1);
           w3 = emit_event (Phase ThinkingPhase) w2;
           ev = start_event env sid msg;
           w4 = (if re_ui env then w3\<lparr>w_ui := w_ui w3 @ [ev]\<rparr> else w3);
           (pg, w5) = processing_guard_new env ev w4
       in (with_agent (re_agent env) (guard_new sid), pg, w5)) (claim env sid w)"

text \<open>An early return drops the processing guard and then the lifecycle guard.\<close>

definition drop_guards :: "run_env \<Rightarrow> processing_guard \<Rightarrow> lifecycle_guard \<Rightarrow> world \<Rightarrow> world" where
  "drop_guards env pg g w = guard_drop g (processing_guard_drop env pg w)"

definition bootstrap :: "run_env \<Rightarrow> bootstrap_context \<Rightarrow> world \<Rightarrow> world \<times> (bytes, bootstrap_outcome) result" where
  "bootstrap env ctx w =
     (let msg = bc_msg ctx;
          (db', r) = re_build_context env msg (bc_use_history ctx) (bc_resume_session_id ctx) (bc_force_new_session ctx) (w_db w);
          w0 = w\<lparr>w_db := db'\<rparr>
      in case r of
           Inl e \<Rightarrow> (w0, Inl e)
         | Inr (sid, history) \<Rightarrow> (case begin_session env sid msg w0 of
             None \<Rightarrow> (next_call w0, Inl (''session '' @ re_uuid_str env sid @ '' not found; bootstrap aborted''))
           | Some (g, pg, w1) \<Rightarrow>
               let user_text = unwrap_or (im_text msg) [];
                   enriched = re_enrich env user_text (im_attachments msg)
               in case save_user_message env sid msg enriched w1 of
                    (w2, None) \<Rightarrow> (drop_guards env pg g w2, Inl (re_error env (w_calls w2 - 1)))
                  | (w2, Some uid) \<Rightarrow>
                      let (events, w3) = query env (\<lambda>w. Some (load_tool_events sid (w_wal w))) w2;
                          det = warm_up_from_wal (re_loop_config env) (unwrap_or events [])
                      in (case re_command env user_text msg of
                            Some (Inl e) \<Rightarrow> (drop_guards env pg g w3, Inl e)
                          | cmd \<Rightarrow>
                              (w3, Inr \<lparr>bo_session_id = sid,
                                 bo_messages = re_compact env (history @ [plain_message User enriched]) det,
                                 bo_detector = det, bo_processing_guard = pg, bo_lifecycle_guard = g,
                                 bo_command_output = (case cmd of Some (Inr out) \<Rightarrow> Some out | _ \<Rightarrow> None),
                                 bo_user_message_id = uid\<rparr>))))"

section \<open>The entry points\<close>

datatype 'a run_exit = RunPanic | RunErr bytes | RunOk 'a

text \<open>What the loop has done: events offered to the sink, log entries, rows and usage whose insertion it started.\<close>

definition absorb_loop :: "run_env \<Rightarrow> uuid \<Rightarrow> loop_state \<Rightarrow> world \<Rightarrow> world" where
  "absorb_loop env sid st w =
     (let w1 = w\<lparr>w_events := w_events w @ map Stream (ls_offered st)\<rparr>;
          w2 = foldl (\<lambda>v (t, p). fst (try_log env sid t (Some p) v)) w1 (ls_wal st);
          w3 = foldl (\<lambda>v row. spawn (PersistRow sid row) v) w2 (ls_rows st)
      in foldl (\<lambda>v u. spawn (RecordUsage sid u) v) w3 (ls_usage st))"

definition maybe_trim_session :: "run_env \<Rightarrow> uuid \<Rightarrow> world \<Rightarrow> world" where
  "maybe_trim_session env sid w = (case re_max_messages env of
       Some n \<Rightarrow>
         if 0 < n
         then (let w1 = next_call w
               in if call_fails env w then w1 else w1\<lparr>w_db := fst (trim_session_messages sid n (w_db w1))\<rparr>)
         else w
     | None \<Rightarrow> w)"

text \<open>The common tail: execute, finalize and the drop of the guard. \<open>execute\<close> owns the processing guard; it
  never yields \<open>TNext\<close>.\<close>

definition run_pipeline :: "run_env \<Rightarrow> loop_env \<Rightarrow> bool \<Rightarrow> bootstrap_outcome \<Rightarrow> world \<Rightarrow> world \<times> bytes run_exit" where
  "run_pipeline env lenv trims b w =
     (let sid = bo_session_id b; g = bo_lifecycle_guard b; pg = bo_processing_guard b
      in case execute lenv (bo_messages b) (bo_detector b) (bo_user_message_id b) of
           TReturn oc st \<Rightarrow>
             let w1 = processing_guard_drop env pg (absorb_loop env sid st w);
                 (g1, w2, reply) = finalize env sid (eo_messages_len oc) (Some (eo_parent oc))
                   (execute_status_to_finalize (eo_status oc) (eo_final_text oc) (eo_thinking_json oc)) g w1;
                 w3 = (if trims then maybe_trim_session env sid w2 else w2)
             in (guard_drop g1 w3, RunOk reply)
         | TErr e st \<Rightarrow> (drop_guards env pg g (absorb_loop env sid st w), RunErr e)
         | TPanic st \<Rightarrow> (drop_guards env pg g (absorb_loop env sid st w), RunPanic)
         | TNext st \<Rightarrow> (drop_guards env pg g (absorb_loop env sid st w), RunPanic))"

text \<open>The slash-command exit; \<open>evs\<close> are the events the adapter shows it with.\<close>

definition run_command :: "run_env \<Rightarrow> stream_event list \<Rightarrow> bootstrap_outcome \<Rightarrow> bytes \<Rightarrow> world \<Rightarrow> world \<times> bytes run_exit" where
  "run_command env evs b out w =
     (let w1 = foldl (\<lambda>v ev. emit_event (Stream ev) v) w evs;
          (g1, w2, reply) = finalize env (bo_session_id b) (length (bo_messages b)) (Some (bo_user_message_id b))
            (FDone out None) (bo_lifecycle_guard b) w1
      in (drop_guards env (bo_processing_guard b) g1 w2, RunOk reply))"

definition handle_sse_inner ::
  "run_env \<Rightarrow> incoming_message \<Rightarrow> uuid option \<Rightarrow> bool \<Rightarrow> world \<Rightarrow> world \<times> uuid run_exit" where
  "handle_sse_inner env msg resume force w =
     (case bootstrap env \<lparr>bc_msg = msg, bc_resume_session_id = resume, bc_force_new_session = force, bc_use_history = True\<rparr> w of
        (w1, Inl e) \<Rightarrow> (w1, RunErr e)
      | (w1, Inr b) \<Rightarrow>
          let sid = bo_session_id b;
              w2 = emit_event (Stream (SessionId (re_uuid_str env sid))) w1;
              (w3, r) = (case bo_command_output b of
                  Some out \<Rightarrow> run_command env [MessageStart (re_msg_id env), TextDelta out, Finish ''command'' False] b out w2
                | None \<Rightarrow> run_pipeline env (re_loop env sid) True b w2)
          in (w3, case r of RunPanic \<Rightarrow> RunPanic | RunErr e \<Rightarrow> RunErr e | RunOk _ \<Rightarrow> RunOk sid))"

text \<open>\<open>_cancel_guard\<close> is a pair without a destructor: nothing unregisters the request. A panic of the inner
  call leaves the sender published.\<close>

definition handle_sse :: "run_env \<Rightarrow> incoming_message \<Rightarrow> uuid option \<Rightarrow> bool \<Rightarrow> world \<Rightarrow> world \<times> uuid run_exit" where
  "handle_sse env msg resume force w = (case fire (re_hooks env) BeforeMessage of
       Block reason \<Rightarrow> (w, RunErr (''blocked by hook: '' @ reason))
     | hook_action.Continue \<Rightarrow>
         let w1 = w\<lparr>w_requests := fst (register_request (w_requests w)), w_sse_tx := True\<rparr>;
             (w2, r) = handle_sse_inner env msg resume force w1
         in (if r = RunPanic then w2 else w2\<lparr>w_sse_tx := False\<rparr>, r))"

text \<open>The other adapters pass a token that nobody cancels.\<close>

definition uncancelled :: "loop_env \<Rightarrow> loop_env" where
  "uncancelled lenv = lenv\<lparr>le_cancelled_at_start := False, le_cancelled := \<lambda>_. False\<rparr>"

definition handle_plain :: "run_env \<Rightarrow> bool \<Rightarrow> bool \<Rightarrow> incoming_message \<Rightarrow> world \<Rightarrow> world \<times> bytes run_exit" where
  "handle_plain env use_history trims msg w =
     (case bootstrap env \<lparr>bc_msg = msg, bc_resume_session_id = None, bc_force_new_session = False, bc_use_history = use_history\<rparr> w of
        (w1, Inl e) \<Rightarrow> (w1, RunErr e)
      | (w1, Inr b) \<Rightarrow> (case bo_command_output b of
            Some out \<Rightarrow> run_command env [TextDelta out] b out w1
          | None \<Rightarrow> run_pipeline env (uncancelled (re_loop env (bo_session_id b))) trims b w1))"

definition handle_with_status :: "run_env \<Rightarrow> incoming_message \<Rightarrow> world \<Rightarrow> world \<times> bytes run_exit" where
  "handle_with_status env msg w =
     (let w0 = w\<lparr>w_approvals := prune_stale (w_approvals w)\<rparr>
      in case fire (re_hooks env) BeforeMessage of
           Block reason \<Rightarrow> (w0, RunErr (''blocked by hook: '' @ reason))
         | hook_action.Continue \<Rightarrow>
             handle_plain env True True msg (w0\<lparr>w_requests := fst (register_request (w_requests w0))\<rparr>))"

definition handle_streaming :: "run_env \<Rightarrow> incoming_message \<Rightarrow> world \<Rightarrow> world \<times> bytes run_exit" where
  "handle_streaming env msg w = handle_plain env False False msg w"

end
