(* ===== verification/Session_Facts.thy ===== *)
theory Session_Facts
  imports Session_Store
begin

text \<open>
  What the session tables guarantee: the status machine and the SQL guards on it, finding or creating
  a session, transcript repair after a crash, the start-up clean-up, the retention rules, the batched
  pruning of the event log and the message tree.
\<close>

section \<open>Frame facts of the table operations\<close>

lemma by_time_set [simp]: "set (by_time ms) = set ms"
  by (simp add: by_time_def)

lemma by_time_length [simp]: "length (by_time ms) = length ms"
  by (simp add: by_time_def)

lemma in_session_set [simp]: "m \<in> set (in_session sid ms) \<longleftrightarrow> m \<in> set ms \<and> m_session_id m = sid"
  by (auto simp: in_session_def)

lemma update_sessions_messages [simp]: "messages (fst (update_sessions P f db)) = messages db"
  by (simp add: update_sessions_def)

lemma update_messages_sessions [simp]: "sessions (fst (update_messages P f db)) = sessions db"
  by (simp add: update_messages_def)

lemma update_sessions_ids:
  assumes "\<And>s. s_id (f s) = s_id s"
  shows "session_ids (fst (update_sessions P f db)) = session_ids db"
  using assms by (simp add: update_sessions_def session_ids_def)

lemma get_session_update:
  assumes "\<And>s. s_id (f s) = s_id s"
  shows "get_session sid (fst (update_sessions P f db)) =
    map_option (\<lambda>s. if P s then f s else s) (get_session sid db)"
proof -
  have "find (\<lambda>s. s_id s = sid) (map (\<lambda>s. if P s then f s else s) ss)
      = map_option (\<lambda>s. if P s then f s else s) (find (\<lambda>s. s_id s = sid) ss)" for ss
    using assms by (induction ss) auto
  then show ?thesis by (simp add: get_session_def update_sessions_def)
qed

lemma get_session_id: "get_session sid db = Some s \<Longrightarrow> s_id s = sid \<and> s \<in> set (sessions db)"
  by (auto simp: get_session_def find_Some_iff)

lemma get_session_None: "get_session sid db = None \<longleftrightarrow> sid \<notin> set (session_ids db)"
  by (auto simp: get_session_def find_None_iff session_ids_def)

lemma insert_message_Inr:
  assumes "insert_message m db = Inr db'"
  shows "messages db' = messages db @ [m]" "session_ids db' = session_ids db"
    "m_session_id m \<in> set (session_ids db)" "m_id m \<notin> set (message_ids db)"
    "fk_ok db (m_parent m)" "fk_ok db (m_branch_from m)"
  using assms
  by (auto simp: insert_message_def session_ids_def update_sessions_def split: if_splits)

section \<open>The status machine\<close>

text \<open>the textual form of a status reads back, and only the six texts are read.\<close>

theorem status_round_trip:
  "status_parse s = Some st \<longleftrightarrow> s = status_as_str st"
  by (cases st) (auto simp: status_parse_def status_as_str_def)

text \<open>the guard of \<open>set_session_run_status\<close>: a session that is done never changes, and every other
  session takes the new status, whatever its own status is - a failed session can become done, which
  the FSM of \<open>session_status.rs\<close> and the comment on the function rule out.\<close>

theorem run_status_guard:
  "map_option s_run_status (get_session sid (set_session_run_status sid status db)) =
     map_option (\<lambda>s. if s_run_status s = Some ''done'' then Some ''done'' else Some status) (get_session sid db)
   \<and> (\<not> can_transition_to Failed Done)
   \<and> (other \<noteq> sid \<longrightarrow> get_session other (set_session_run_status sid status db) = get_session other db)"
  by (auto simp: set_session_run_status_def get_session_update can_transition_to_def option.map_comp comp_def
      intro!: option.map_cong0[THEN trans, OF _ option.map_ident] map_option_cong
      dest: get_session_id)

text \<open>A small database for the witnesses.\<close>

definition sample_session :: "uuid \<Rightarrow> bytes option \<Rightarrow> session_row" where
  "sample_session i status =
     \<lparr>s_id = i, s_agent_id = ''A'', s_user_id = ''u'', s_channel = ''ui'', s_started_at = 0, s_last_message_at = i,
      s_title = None, s_metadata = None, s_run_status = status, s_activity_at = None, s_participants = [''A''],
      s_retry_count = 0\<rparr>"

definition sample_db :: database where
  "sample_db = \<lparr>sessions = [sample_session 1 (Some ''failed''), sample_session 2 (Some ''running''),
       sample_session 3 (Some ''done'')],
     messages = [new_row 10 5 2 ''user'' ''hi'' None None None None None,
       new_row 11 6 2 ''assistant'' [] (Some (JArray [JObject [(''id'', JString ''c1'')], JObject [(''id'', JString ''c2'')]]))
         None None None (Some 10),
       new_row 12 7 2 ''tool'' ''ok'' None (Some ''c1'') None None (Some 11)]\<rparr>"

lemmas sample_simps = sample_db_def sample_session_def new_row_def

theorem run_status_guard_witness:
  "map_option s_run_status (get_session 1 (set_session_run_status 1 ''done'' sample_db)) = Some (Some ''done'')
   \<and> get_session 2 (set_session_run_status 1 ''done'' sample_db) = get_session 2 sample_db"
proof -
  have "map_option (\<lambda>s. if s_run_status s = Some ''done'' then Some ''done'' else Some ''done'') (get_session 1 sample_db)
      = Some (Some ''done'')"
    by (simp add: get_session_def sample_simps)
  then show ?thesis using run_status_guard [of 1 "''done''" sample_db 2] by simp
qed

text \<open>re-entry and the drop guard. Claiming works on every existing session; the conditional update
  of the guard then applies to the claimed session, whoever claimed it, and does nothing on a session
  in any other status.\<close>

theorem claim_then_guard:
  "snd (claim_session_running sid db) = (get_session sid db \<noteq> None)
   \<and> map_option s_run_status (get_session sid
        (fst (mark_session_run_status_if_running sid st (fst (claim_session_running sid db)))))
      = map_option (\<lambda>_. Some st) (get_session sid db)
   \<and> (map_option s_run_status (get_session sid db) \<noteq> Some (Some ''running'') \<longrightarrow>
        get_session sid (fst (mark_session_run_status_if_running sid st db)) = get_session sid db)"
proof -
  have n: "snd (claim_session_running sid db) = (get_session sid db \<noteq> None)"
    unfolding get_session_None
    by (auto simp: claim_session_running_def update_sessions_def session_ids_def filter_empty_conv)
  have "get_session sid (fst (claim_session_running sid db)) =
      map_option (\<lambda>s. s\<lparr>s_run_status := Some ''running''\<rparr>) (get_session sid db)"
    by (cases "get_session sid db")
      (auto simp: claim_session_running_def get_session_update split_beta Let_def dest: get_session_id)
  then show ?thesis
    using n by (cases "get_session sid db")
      (auto simp: mark_session_run_status_if_running_def get_session_update dest: get_session_id)
qed

theorem claim_then_guard_witness:
  "get_session 1 (fst (mark_session_run_status_if_running 1 ''failed'' sample_db)) = get_session 1 sample_db
   \<and> snd (claim_session_running 3 sample_db)"
proof -
  have "get_session 1 sample_db = Some (sample_session 1 (Some ''failed''))"
    "get_session 3 sample_db = Some (sample_session 3 (Some ''done''))"
    by (simp_all add: get_session_def sample_simps)
  then show ?thesis
    using claim_then_guard [of 1 sample_db "''failed''"] claim_then_guard [of 3 sample_db "''failed''"]
    by (simp add: sample_session_def)
qed

text \<open>two retries of the same stuck session both go ahead: the first one leaves the status
  \<open>running\<close>, which the guard of the second one accepts.\<close>

theorem retry_double_fire:
  assumes "get_session sid db = Some s" "s_run_status s \<in> {Some ''running'', Some ''done''}"
  shows "snd (increment_retry_count sid db) = Some (s_retry_count s + 1)
    \<and> snd (increment_retry_count sid (fst (increment_retry_count sid db))) = Some (s_retry_count s + 2)"
proof -
  let ?P = "\<lambda>s. s_id s = sid \<and> (s_run_status s = Some ''running'' \<or> s_run_status s = Some ''done'')"
  let ?f = "\<lambda>s. s\<lparr>s_retry_count := s_retry_count s + 1, s_run_status := Some ''running''\<rparr>"
  have step: "snd (increment_retry_count sid d) = Some (s_retry_count t + 1)
      \<and> get_session sid (fst (increment_retry_count sid d)) = Some (?f t)"
    if "get_session sid d = Some t" "s_run_status t \<in> {Some ''running'', Some ''done''}" for d t
  proof -
    have P: "?P t" "t \<in> set (sessions d)" using that get_session_id[OF that(1)] by auto
    then have "filter ?P (sessions d) \<noteq> []" unfolding filter_empty_conv by blast
    then have "snd (update_sessions ?P ?f d) \<noteq> 0" by (simp add: update_sessions_def)
    moreover have "get_session sid (fst (update_sessions ?P ?f d)) = Some (?f t)"
      using that P by (subst get_session_update) auto
    ultimately show ?thesis by (simp add: increment_retry_count_def split_beta Let_def)
  qed
  show ?thesis
    using step[OF assms] step[of "fst (increment_retry_count sid db)" "?f s"] by simp
qed

theorem retry_double_fire_witness:
  "snd (increment_retry_count 2 sample_db) = Some 1
    \<and> snd (increment_retry_count 2 (fst (increment_retry_count 2 sample_db))) = Some 2"
proof -
  have "get_session 2 sample_db = Some (sample_session 2 (Some ''running''))"
    by (simp add: get_session_def sample_simps)
  from retry_double_fire[OF this] show ?thesis by (simp add: sample_session_def)
qed

section \<open>Finding or creating a session\<close>

lemma latest_session_Some:
  "latest_session ss = Some s \<Longrightarrow> s \<in> set ss \<and> (\<forall>t \<in> set ss. s_last_message_at t \<le> s_last_message_at s)"
proof -
  assume "latest_session ss = Some s"
  then have r: "\<exists>r. sort_key s_last_message_at ss = r @ [s]"
    by (auto simp: latest_session_def split: list.splits)
  then obtain r where r: "sort_key s_last_message_at ss = r @ [s]" ..
  have "sorted (map s_last_message_at (r @ [s]))" using sorted_sort_key r by metis
  moreover have "set ss = set (r @ [s])" using r set_sort by metis
  ultimately show ?thesis by (auto simp: sorted_append)
qed

lemma latest_session_None: "latest_session ss = None \<longleftrightarrow> ss = []"
  by (auto simp: latest_session_def split: list.splits) (metis length_0_conv length_sort)

lemma hours_pos: "0 < h \<Longrightarrow> 0 < hours h"
  by (simp add: hours_def from_secs_def nanos_per_sec_def)

text \<open>\<open>get_or_create_session\<close> returns a session of the agent in the scope that \<open>dm_scope\<close> selects,
  active in the last four hours and the most recent such session; \<open>find_active_session\<close> then finds it,
  and a second call returns the same session and changes nothing.\<close>

theorem get_or_create_session_stable:
  assumes "get_or_create_session new_id now agent_id user_id channel dm_scope db = (db', i)"
  shows "(\<exists>s \<in> set (sessions db'). s_id s = i \<and> s_agent_id s = agent_id
      \<and> (s_user_id s, s_channel s) = effective_scope dm_scope user_id channel
      \<and> now < s_last_message_at s + hours 4
      \<and> (\<forall>t \<in> set (active_sessions now agent_id (s_user_id s) (s_channel s) db').
            s_last_message_at t \<le> s_last_message_at s))
    \<and> find_active_session now agent_id user_id channel dm_scope db' = Some i
    \<and> get_or_create_session other_id now agent_id user_id channel dm_scope db' = (db', i)"
proof -
  obtain u c where sc: "effective_scope dm_scope user_id channel = (u, c)" by fastforce
  have "\<exists>s. latest_session (active_sessions now agent_id u c db') = Some s \<and> s_id s = i"
  proof (cases "latest_session (active_sessions now agent_id u c db)")
    case (Some s)
    then show ?thesis using assms by (auto simp: get_or_create_session_def sc)
  next
    case None
    then have e: "active_sessions now agent_id u c db = []" by (simp add: latest_session_None)
    have "db' = insert_session new_id now agent_id u c db" "i = new_id"
      using assms by (auto simp: get_or_create_session_def sc None)
    moreover have "\<exists>s. active_sessions now agent_id u c (insert_session new_id now agent_id u c db) = [s] \<and> s_id s = new_id"
      using e hours_pos[of 4] by (simp add: active_sessions_def insert_session_def)
    ultimately show ?thesis by (auto simp: latest_session_def)
  qed
  then obtain s where s: "latest_session (active_sessions now agent_id u c db') = Some s" "s_id s = i" by blast
  have "s \<in> set (sessions db') \<and> s_agent_id s = agent_id \<and> s_user_id s = u \<and> s_channel s = c
      \<and> now < s_last_message_at s + hours 4
      \<and> (\<forall>t \<in> set (active_sessions now agent_id u c db'). s_last_message_at t \<le> s_last_message_at s)"
    using latest_session_Some[OF s(1)] by (simp add: active_sessions_def)
  then show ?thesis
    using s by (auto simp: find_active_session_def get_or_create_session_def sc)
qed

theorem get_or_create_session_stable_witness:
  "find_active_session 9 ''A'' ''u'' ''ui'' ''shared'' (insert_session 50 9 ''A'' ''u'' ''*'' sample_db) = Some 50"
proof -
  have "get_or_create_session 50 9 ''A'' ''u'' ''ui'' ''shared'' sample_db
      = (insert_session 50 9 ''A'' ''u'' ''*'' sample_db, 50)"
    by (simp add: get_or_create_session_def effective_scope_def active_sessions_def latest_session_def sample_simps)
  from get_or_create_session_stable[OF this] show ?thesis by blast
qed

section \<open>Transcript repair\<close>

lemma new_row_simps [simp]:
  "m_id (new_row i now sid role c tc tci a tb p) = i"
  "m_session_id (new_row i now sid role c tc tci a tb p) = sid"
  "m_role (new_row i now sid role c tc tci a tb p) = role"
  "m_tool_calls (new_row i now sid role c tc tci a tb p) = tc"
  "m_tool_call_id (new_row i now sid role c tc tci a tb p) = tci"
  "m_status (new_row i now sid role c tc tci a tb p) = ''complete''"
  "m_parent (new_row i now sid role c tc tci a tb p) = p"
  "m_branch_from (new_row i now sid role c tc tci a tb p) = None"
  by (simp_all add: new_row_def)

definition tool_rows :: "(nat \<Rightarrow> uuid) \<Rightarrow> instant \<Rightarrow> uuid \<Rightarrow> nat \<Rightarrow> bytes list \<Rightarrow> message_row list" where
  "tool_rows fresh now sid i cs =
     map (\<lambda>(j, c). new_row (fresh j) now sid ''tool'' interrupted_result None (Some c) None None None)
       (zip [i..<i + length cs] cs)"

lemma tool_rows_Cons:
  "tool_rows fresh now sid i (c # cs) =
     new_row (fresh i) now sid ''tool'' interrupted_result None (Some c) None None None # tool_rows fresh now sid (Suc i) cs"
  by (simp add: tool_rows_def upt_conv_Cons del: upt_Suc)

lemma insert_tool_rows_effect:
  "\<exists>n \<le> length cs. messages (fst (insert_tool_rows fresh now sid i cs db)) = messages db @ tool_rows fresh now sid i (take n cs)
     \<and> session_ids (fst (insert_tool_rows fresh now sid i cs db)) = session_ids db
     \<and> (snd (insert_tool_rows fresh now sid i cs db) = Inr () \<longrightarrow> n = length cs)"
proof (induction cs arbitrary: i db)
  case Nil
  then show ?case by (simp add: tool_rows_def)
next
  case (Cons c cs)
  let ?m = "new_row (fresh i) now sid ''tool'' interrupted_result None (Some c) None None None"
  show ?case
  proof (cases "insert_message ?m db")
    case (Inl e)
    then show ?thesis by (intro exI[of _ 0]) (simp add: tool_rows_def)
  next
    case (Inr d)
    from Cons.IH[of "Suc i" d] obtain n where "n \<le> length cs"
      "messages (fst (insert_tool_rows fresh now sid (Suc i) cs d)) = messages d @ tool_rows fresh now sid (Suc i) (take n cs)"
      "session_ids (fst (insert_tool_rows fresh now sid (Suc i) cs d)) = session_ids d"
      "snd (insert_tool_rows fresh now sid (Suc i) cs d) = Inr () \<longrightarrow> n = length cs" by blast
    then show ?thesis using Inr insert_message_Inr[OF Inr]
      by (intro exI[of _ "Suc n"]) (simp add: tool_rows_Cons)
  qed
qed

lemma insert_tool_rows_ok:
  assumes "sid \<in> set (session_ids db)" "inj fresh" "range fresh \<inter> set (message_ids db) \<subseteq> fresh ` {..<i}"
  shows "snd (insert_tool_rows fresh now sid i cs db) = Inr ()"
  using assms
proof (induction cs arbitrary: i db)
  case (Cons c cs)
  let ?m = "new_row (fresh i) now sid ''tool'' interrupted_result None (Some c) None None None"
  have "fresh i \<notin> set (message_ids db)"
    using Cons.prems(2,3) by (auto simp: inj_def dest!: subsetD)
  then obtain d where d: "insert_message ?m db = Inr d"
    using Cons.prems(1) by (simp add: insert_message_def fk_ok_def)
  have "message_ids d = message_ids db @ [fresh i]"
    using insert_message_Inr(1)[OF d] by (simp add: message_ids_def)
  then have "range fresh \<inter> set (message_ids d) \<subseteq> fresh ` {..<Suc i}"
    using Cons.prems(3) by (auto simp: lessThan_Suc)
  then show ?case
    using Cons.IH[of d "Suc i"] Cons.prems(1,2) d insert_message_Inr(2)[OF d] by simp
qed simp

lemma tool_rows_set:
  "m \<in> set (tool_rows fresh now sid i cs) \<Longrightarrow>
     m_session_id m = sid \<and> m_role m = ''tool'' \<and> m_status m = ''complete'' \<and> m_tool_calls m = None
     \<and> m_content m = interrupted_result"
  by (auto simp: tool_rows_def new_row_def)

lemma tool_rows_call_ids: "List.map_filter m_tool_call_id (tool_rows fresh now sid i cs) = cs"
proof (induction cs arbitrary: i)
  case Nil
  then show ?case by (simp add: tool_rows_def List.map_filter_def)
next
  case (Cons c cs)
  then show ?case by (simp add: tool_rows_Cons List.map_filter_def)
qed

lemma tool_rows_ids: "map m_tool_call_id (tool_rows fresh now sid i cs) = map Some cs"
  by (induction cs arbitrary: i) (simp add: tool_rows_def, simp add: tool_rows_Cons)

lemma answered_iff:
  "c \<in> answered_call_ids sid db \<longleftrightarrow>
     (\<exists>m \<in> set (messages db). m_session_id m = sid \<and> m_role m = ''tool'' \<and> m_tool_call_id m = Some c)"
  by (auto simp: answered_call_ids_def in_session_def List.map_filter_def image_iff)

lemma tool_rows_filters [simp]:
  "filter (\<lambda>m. m_role m = ''assistant'') (in_session s (tool_rows fresh now sid i cs)) = []"
  "filter (\<lambda>m. m_role m = ''tool'') (in_session sid (tool_rows fresh now sid i cs)) = tool_rows fresh now sid i cs"
  by (auto simp: filter_empty_conv in_session_def filter_id_conv dest!: tool_rows_set)

text \<open>C34: transcript repair. With fresh row ids, an existing session and call lists that are arrays,
  repair succeeds: it keeps every message and appends rows to the session that say that the call was
  interrupted, one for each call that had no result, in the order of the calls and none for a call that
  had one. Afterwards every call of the session is answered, and a second run inserts nothing.\<close>

theorem repair_answers_every_call:
  assumes "sid \<in> set (session_ids db)" "tool_calls_arrays sid db"
    and "inj fresh" "range fresh \<inter> set (message_ids db) = {}"
  shows "\<exists>db' rows. insert_synthetic_tool_results fresh now sid db = (db', Inr (length rows))
    \<and> messages db' = messages db @ rows
    \<and> map m_tool_call_id rows = map Some (filter (\<lambda>c. \<not> (\<exists>m \<in> set (messages db).
          m_session_id m = sid \<and> m_role m = ''tool'' \<and> m_tool_call_id m = Some c)) (all_call_ids sid db))
    \<and> (\<forall>m \<in> set rows. m_session_id m = sid \<and> m_role m = ''tool'' \<and> m_content m = interrupted_result)
    \<and> set (all_call_ids sid db') \<subseteq> answered_call_ids sid db'
    \<and> insert_synthetic_tool_results fresh' now' sid db' = (db', Inr 0)"
proof -
  define missing where "missing = filter (\<lambda>c. c \<notin> answered_call_ids sid db) (all_call_ids sid db)"
  let ?rows = "tool_rows fresh now sid 0 missing"
  let ?r = "insert_tool_rows fresh now sid 0 missing db"
  have ok: "snd ?r = Inr ()" using insert_tool_rows_ok[OF assms(1,3), of 0] assms(4) by simp
  then have ms: "messages (fst ?r) = messages db @ ?rows"
    using insert_tool_rows_effect[of missing fresh now sid 0 db] by auto
  have asst: "assistant_rows sid (fst ?r) = assistant_rows sid db"
    using tool_rows_filters(1)[of sid fresh now sid 0 missing]
    by (simp add: assistant_rows_def ms in_session_def del: tool_rows_filters(1))
  have same: "all_call_ids sid (fst ?r) = all_call_ids sid db" "tool_calls_arrays sid (fst ?r)"
    using assms(2) by (simp_all add: all_call_ids_def tool_calls_arrays_def asst)
  have mf: "List.map_filter f (xs @ ys) = List.map_filter f xs @ List.map_filter f ys"
    for f :: "message_row \<Rightarrow> bytes option" and xs ys
    by (simp add: List.map_filter_def)
  have "answered_call_ids sid (fst ?r) = answered_call_ids sid db \<union> set missing"
    using tool_rows_filters(2)[of sid fresh now 0 missing]
    by (simp add: answered_call_ids_def ms in_session_def mf tool_rows_call_ids del: tool_rows_filters(2))
  then have ans: "set (all_call_ids sid (fst ?r)) \<subseteq> answered_call_ids sid (fst ?r)"
    unfolding same(1) by (auto simp: missing_def)
  then have "filter (\<lambda>c. c \<notin> answered_call_ids sid (fst ?r)) (all_call_ids sid (fst ?r)) = []"
    by (auto simp: filter_empty_conv)
  then have again: "insert_synthetic_tool_results fresh' now' sid (fst ?r) = (fst ?r, Inr 0)"
    using same by (simp add: insert_synthetic_tool_results_def)
  have "insert_synthetic_tool_results fresh now sid db = (fst ?r, Inr (length missing))"
    using ok assms(2) unfolding insert_synthetic_tool_results_def missing_def[symmetric] Let_def
    by (cases "missing = []"; cases ?r) auto
  moreover have "length ?rows = length missing" by (simp add: tool_rows_def)
  ultimately have run: "insert_synthetic_tool_results fresh now sid db = (fst ?r, Inr (length ?rows))" by (simp only:)
  have rows: "\<forall>m \<in> set ?rows. m_session_id m = sid \<and> m_role m = ''tool'' \<and> m_content m = interrupted_result"
    using tool_rows_set by blast
  have "map m_tool_call_id ?rows = map Some (filter (\<lambda>c. \<not> (\<exists>m \<in> set (messages db).
          m_session_id m = sid \<and> m_role m = ''tool'' \<and> m_tool_call_id m = Some c)) (all_call_ids sid db))"
    by (simp only: tool_rows_ids missing_def answered_iff)
  with run ms rows ans again show ?thesis by (intro exI[of _ "fst ?r"] exI[of _ ?rows] conjI)
qed

theorem repair_answers_every_call_witness:
  "\<exists>db' rows. insert_synthetic_tool_results (\<lambda>i. 100 + i) 9 2 sample_db = (db', Inr (length rows))
    \<and> messages db' = messages sample_db @ rows
    \<and> map m_tool_call_id rows = map Some (filter (\<lambda>c. c \<notin> answered_call_ids 2 sample_db) (all_call_ids 2 sample_db))"
proof -
  have "2 \<in> set (session_ids sample_db)" by (simp add: session_ids_def sample_simps)
  moreover have "tool_calls_arrays 2 sample_db"
    by (simp add: tool_calls_arrays_def assistant_rows_def in_session_def by_time_def sample_simps)
  moreover have "inj (\<lambda>i. 100 + i :: nat)" by (simp add: inj_def)
  moreover have "range (\<lambda>i. 100 + i) \<inter> set (message_ids sample_db) = {}"
    by (auto simp: message_ids_def sample_simps)
  ultimately obtain db' rows where
    "insert_synthetic_tool_results (\<lambda>i. 100 + i) 9 2 sample_db = (db', Inr (length rows))"
    "messages db' = messages sample_db @ rows"
    "map m_tool_call_id rows = map Some (filter (\<lambda>c. \<not> (\<exists>m \<in> set (messages sample_db).
          m_session_id m = 2 \<and> m_role m = ''tool'' \<and> m_tool_call_id m = Some c)) (all_call_ids 2 sample_db))"
    using repair_answers_every_call[of 2 sample_db "\<lambda>i. 100 + i" 9 "\<lambda>i. i" 0] by blast
  then show ?thesis unfolding answered_iff by blast
qed

section \<open>Start-up clean-up\<close>

definition streaming_in :: "database \<Rightarrow> uuid \<Rightarrow> bool" where
  "streaming_in db sid \<longleftrightarrow> (\<exists>m \<in> set (messages db). m_session_id m = sid \<and> m_status m = ''streaming'')"

definition running_in :: "database \<Rightarrow> uuid \<Rightarrow> bool" where
  "running_in db sid \<longleftrightarrow> (\<exists>s \<in> set (sessions db). s_id s = sid \<and> s_run_status s = Some ''running'')"

lemma cleanup_candidates_iff:
  "sid \<in> set (cleanup_candidates db) \<longleftrightarrow> running_in db sid \<or> (sid \<in> set (session_ids db) \<and> streaming_in db sid)"
  by (auto simp: cleanup_candidates_def needs_cleanup_def running_in_def streaming_in_def session_ids_def)

lemma running_in_messages [simp]: "running_in (db\<lparr>messages := ms\<rparr>) i = running_in db i"
  by (simp add: running_in_def)

lemma running_in_update:
  assumes "\<And>s. s_id (f s) = s_id s" "\<And>s. s_run_status (f s) = s_run_status s"
  shows "running_in (fst (update_sessions P f db)) i = running_in db i"
  using assms by (auto simp: running_in_def update_sessions_def Bex_def image_iff) metis+

lemma insert_message_running: "insert_message m db = Inr db' \<Longrightarrow> running_in db' i = running_in db i"
  by (auto simp: insert_message_def running_in_update split: if_splits)

lemma synthetic_cases:
  "\<exists>cs. fst (insert_synthetic_tool_results fresh now sid db) = fst (insert_tool_rows fresh now sid 0 cs db)"
proof -
  define missing where "missing = filter (\<lambda>c. c \<notin> answered_call_ids sid db) (all_call_ids sid db)"
  obtain d r where r: "insert_tool_rows fresh now sid 0 missing db = (d, r)" by fastforce
  have "fst (insert_synthetic_tool_results fresh now sid db) \<in> {db, d}"
    using r by (cases r) (simp_all add: insert_synthetic_tool_results_def missing_def[symmetric])
  moreover have "db = fst (insert_tool_rows fresh now sid 0 [] db)" by simp
  moreover have "d = fst (insert_tool_rows fresh now sid 0 missing db)" using r by simp
  ultimately show ?thesis by (metis insertE singletonD)
qed

lemma synthetic_frame:
  shows "running_in (fst (insert_synthetic_tool_results fresh now sid db)) i = running_in db i"
    and "streaming_in (fst (insert_synthetic_tool_results fresh now sid db)) i = streaming_in db i"
    and "session_ids (fst (insert_synthetic_tool_results fresh now sid db)) = session_ids db"
proof -
  obtain cs where cs: "fst (insert_synthetic_tool_results fresh now sid db) = fst (insert_tool_rows fresh now sid 0 cs db)"
    using synthetic_cases by blast
  have "running_in (fst (insert_tool_rows fresh now sid j cs d)) i = running_in d i" for j d
    by (induction cs arbitrary: j d) (auto simp: insert_message_running split: sum.splits)
  then show "running_in (fst (insert_synthetic_tool_results fresh now sid db)) i = running_in db i"
    by (simp add: cs)
  obtain n where n: "messages (fst (insert_tool_rows fresh now sid 0 cs db)) = messages db @ tool_rows fresh now sid 0 (take n cs)"
    "session_ids (fst (insert_tool_rows fresh now sid 0 cs db)) = session_ids db"
    using insert_tool_rows_effect by blast
  show "streaming_in (fst (insert_synthetic_tool_results fresh now sid db)) i = streaming_in db i"
    by (auto simp: cs streaming_in_def n dest: tool_rows_set)
  show "session_ids (fst (insert_synthetic_tool_results fresh now sid db)) = session_ids db"
    by (simp add: cs n)
qed

lemma cleanup_streaming_frame:
  shows "running_in (fst (cleanup_session_streaming_messages sid db)) i = running_in db i"
    and "streaming_in (fst (cleanup_session_streaming_messages sid db)) i \<longleftrightarrow> i \<noteq> sid \<and> streaming_in db i"
    and "session_ids (fst (cleanup_session_streaming_messages sid db)) = session_ids db"
  by (auto simp: cleanup_session_streaming_messages_def update_messages_def running_in_def streaming_in_def
      session_ids_def interrupt_streaming_def)

lemma set_status_frame:
  assumes "status \<noteq> ''running''"
  shows "running_in (set_session_run_status sid status db) i \<longleftrightarrow> i \<noteq> sid \<and> running_in db i"
    and "streaming_in (set_session_run_status sid status db) i = streaming_in db i"
    and "session_ids (set_session_run_status sid status db) = session_ids db"
  using assms
  by (auto simp: set_session_run_status_def update_sessions_def running_in_def streaming_in_def session_ids_def)

lemma cleanup_one_frame:
  "running_in (cleanup_one fails fresh now sid db) i \<longleftrightarrow> running_in db i \<and> (i = sid \<longrightarrow> fails (StatusCall sid))"
  "streaming_in (cleanup_one fails fresh now sid db) i \<longleftrightarrow> streaming_in db i \<and> (i = sid \<longrightarrow> fails (StreamingCall sid))"
  "session_ids (cleanup_one fails fresh now sid db) = session_ids db"
  by (auto simp: cleanup_one_def Let_def set_status_frame cleanup_streaming_frame synthetic_frame)

lemma cleanup_fold_frame:
  "running_in (foldl (\<lambda>d sid. cleanup_one fails fresh now sid d) db ids) i \<longleftrightarrow> running_in db i \<and> (i \<in> set ids \<longrightarrow> fails (StatusCall i))"
  "streaming_in (foldl (\<lambda>d sid. cleanup_one fails fresh now sid d) db ids) i \<longleftrightarrow> streaming_in db i \<and> (i \<in> set ids \<longrightarrow> fails (StreamingCall i))"
  "session_ids (foldl (\<lambda>d sid. cleanup_one fails fresh now sid d) db ids) = session_ids db"
  by (induction ids arbitrary: db) (auto simp: cleanup_one_frame)

lemma cleanup_fold_candidates:
  "set (cleanup_candidates (foldl (\<lambda>d sid. cleanup_one fails fresh now sid d) db ids)) \<subseteq> set (cleanup_candidates db)"
  "(\<And>i. \<not> fails (StatusCall i) \<and> \<not> fails (StreamingCall i)) \<Longrightarrow>
    set (cleanup_candidates (foldl (\<lambda>d sid. cleanup_one fails fresh now sid d) db ids)) = set (cleanup_candidates db) - set ids"
  unfolding set_eq_iff subset_iff Diff_iff cleanup_candidates_iff by (auto simp: cleanup_fold_frame)

lemma update_interrupted_candidates:
  "set (cleanup_candidates (fst (update_sessions P (\<lambda>s. s\<lparr>s_run_status := Some ''interrupted''\<rparr>) db)))
     \<subseteq> set (cleanup_candidates db)"
  by (auto simp: cleanup_candidates_def needs_cleanup_def update_sessions_def split: if_splits)

lemma update_metadata_candidates:
  "cleanup_candidates (fst (update_sessions P (\<lambda>s. s\<lparr>s_metadata := f s\<rparr>) db)) = cleanup_candidates db"
  unfolding cleanup_candidates_def update_sessions_def needs_cleanup_def
  by (induction "sessions db" arbitrary: db) (auto simp: filter_map comp_def)

lemma cleanup_batch_shrinks:
  "set (cleanup_candidates (fst (cleanup_interrupted_sessions fails fresh now db))) \<subseteq> set (cleanup_candidates db)"
  "session_ids (fst (cleanup_interrupted_sessions fails fresh now db)) = session_ids db"
  using cleanup_fold_candidates(1)[of fails fresh now db "take 100 (cleanup_candidates db)"] update_interrupted_candidates
  by (auto simp: cleanup_interrupted_sessions_def Let_def update_metadata_candidates update_sessions_ids cleanup_fold_frame
      dest!: subsetD)

lemma cleanup_batch_candidates:
  assumes "snd (cleanup_interrupted_sessions fails fresh now db) = Some n"
    and "\<And>i. \<not> fails (StatusCall i) \<and> \<not> fails (StreamingCall i)"
  shows "set (cleanup_candidates (fst (cleanup_interrupted_sessions fails fresh now db)))
     \<subseteq> set (cleanup_candidates db) - set (take 100 (cleanup_candidates db))"
  using assms update_interrupted_candidates
    cleanup_fold_candidates(2)[of fails fresh now db "take 100 (cleanup_candidates db)"]
  by (auto simp: cleanup_interrupted_sessions_def Let_def update_metadata_candidates split: if_splits) blast+

lemma cleanup_batch_count:
  "snd (cleanup_interrupted_sessions fails fresh now db)
     = (if fails SelectCall \<or> fails StaleCall then None else Some (min (length (cleanup_candidates db)) 100))"
  by (simp add: cleanup_interrupted_sessions_def Let_def)

lemma cleanup_batch_zero:
  assumes "snd (cleanup_interrupted_sessions fails fresh now db) = Some 0"
  shows "cleanup_candidates (fst (cleanup_interrupted_sessions fails fresh now db)) = []"
  using assms cleanup_batch_shrinks(1)[of fails fresh now db] by (auto simp: cleanup_batch_count min_def split: if_splits)

lemma startup_cleanup_mono:
  "startup_cleanup f fails fresh now j d = Some e \<Longrightarrow> f \<le> g \<Longrightarrow> startup_cleanup g fails fresh now j d = Some e"
proof (induction f arbitrary: g j d)
  case (Suc f)
  from Suc.prems(2) obtain g' where [simp]: "g = Suc g'" by (cases g) auto
  show ?case using Suc.prems Suc.IH by (auto split: if_splits prod.splits option.splits)
qed simp

text \<open>C35: start-up clean-up. If from batch \<open>K\<close> on the two updates of a single session succeed, the loop
  ends, after at most \<open>K\<close> batches, one per candidate session and one more; which other calls fail does not
  matter, the repair of a transcript among them. It deletes no session and makes none a candidate. If the
  selection and the final update never fail, no session is left running and no message streaming. (If they
  do, the loop breaks off with what it has done, and if an update keeps failing it need not end: see
  \<open>failing_update_spins\<close>.)\<close>

theorem startup_cleanup_terminates:
  assumes "\<forall>j \<ge> K. \<forall>i. \<not> fails j (StatusCall i) \<and> \<not> fails j (StreamingCall i)"
  shows "\<exists>db'. startup_cleanup (Suc (K - k + card (set (cleanup_candidates db)))) fails fresh now k db = Some db'
     \<and> session_ids db' = session_ids db \<and> set (cleanup_candidates db') \<subseteq> set (cleanup_candidates db)
     \<and> ((\<forall>j. \<not> fails j SelectCall \<and> \<not> fails j StaleCall) \<longrightarrow> cleanup_candidates db' = [])"
proof (induction "K - k + card (set (cleanup_candidates db))" arbitrary: db k rule: less_induct)
  case less
  obtain db1 r where b: "cleanup_interrupted_sessions (fails k) (fresh k) (now k) db = (db1, r)" by fastforce
  have sub: "set (cleanup_candidates db1) \<subseteq> set (cleanup_candidates db)" and ids: "session_ids db1 = session_ids db"
    using cleanup_batch_shrinks[of "fails k" "fresh k" "now k" db] b by simp_all
  have le: "card (set (cleanup_candidates db1)) \<le> card (set (cleanup_candidates db))" using sub by (simp add: card_mono)
  consider "r = None" | "r = Some 0" | n where "r = Some (Suc n)" by (cases r; cases "the r") auto
  then show ?case
  proof cases
    case 1
    then have "fails k SelectCall \<or> fails k StaleCall"
      using cleanup_batch_count[of "fails k" "fresh k" "now k" db] b by (auto split: if_splits)
    then show ?thesis using b 1 sub ids by auto
  next
    case 2
    then show ?thesis using b sub ids cleanup_batch_zero[of "fails k" "fresh k" "now k" db] by simp
  next
    case (3 n)
    have ne: "cleanup_candidates db \<noteq> []" using cleanup_batch_count[of "fails k" "fresh k" "now k" db] b 3 by (auto split: if_splits)
    have lt: "K - Suc k + card (set (cleanup_candidates db1)) < K - k + card (set (cleanup_candidates db))"
    proof (cases "k < K")
      case False
      have "hd (cleanup_candidates db) \<in> set (take 100 (cleanup_candidates db))"
        using ne by (cases "cleanup_candidates db") auto
      moreover have "hd (cleanup_candidates db) \<in> set (cleanup_candidates db)" using ne by simp
      ultimately have "set (cleanup_candidates db1) \<subset> set (cleanup_candidates db)"
        using cleanup_batch_candidates[of "fails k" "fresh k" "now k" db] b 3 assms False by auto
      then have "card (set (cleanup_candidates db1)) < card (set (cleanup_candidates db))" by (simp add: psubset_card_mono)
      then show ?thesis using False by simp
    qed (use le in simp)
    from less[OF lt] obtain db' where db':
      "startup_cleanup (Suc (K - Suc k + card (set (cleanup_candidates db1)))) fails fresh now (Suc k) db1 = Some db'"
      "session_ids db' = session_ids db" "set (cleanup_candidates db') \<subseteq> set (cleanup_candidates db)"
      "(\<forall>j. \<not> fails j SelectCall \<and> \<not> fails j StaleCall) \<longrightarrow> cleanup_candidates db' = []"
      using sub by (auto simp: ids)
    have "startup_cleanup (K - k + card (set (cleanup_candidates db))) fails fresh now (Suc k) db1 = Some db'"
      by (rule startup_cleanup_mono[OF db'(1)]) (use lt in simp)
    then show ?thesis using db'(2-4) b 3 by simp
  qed
qed

text \<open>The updates of session 2 fail in the first two batches, and no transcript can be repaired.\<close>

theorem startup_cleanup_terminates_witness:
  "\<exists>db'. startup_cleanup (Suc (2 - 0 + card (set (cleanup_candidates sample_db))))
       (\<lambda>j c. j < 2 \<and> (c = StatusCall 2 \<or> c = StreamingCall 2) \<or> c = RepairCall 2) (\<lambda>k sid i. 100 + i) (\<lambda>k. k) 0 sample_db = Some db'
     \<and> session_ids db' = session_ids sample_db \<and> cleanup_candidates db' = []"
  using startup_cleanup_terminates[of 2 "\<lambda>j c. j < 2 \<and> (c = StatusCall 2 \<or> c = StreamingCall 2) \<or> c = RepairCall 2" 0 sample_db
      "\<lambda>k sid i. 100 + i" "\<lambda>k. k"]
  by auto

text \<open>A session with a streaming message whose update keeps failing is found again by every batch, without
  a pause: the start-up never gets past the clean-up.\<close>

lemma batch_keeps_streaming:
  assumes "sid \<in> set (session_ids db)" "streaming_in db sid" "fails (StreamingCall sid)"
    and "cleanup_interrupted_sessions fails fresh now db = (db', r)"
  shows "sid \<in> set (session_ids db') \<and> streaming_in db' sid"
proof -
  have msgs: "streaming_in (fst (update_sessions P f d)) i = streaming_in d i" for P f d i
    by (simp add: streaming_in_def update_sessions_def)
  show ?thesis
    using assms cleanup_batch_shrinks(2)[of fails fresh now db]
    by (auto simp: cleanup_interrupted_sessions_def Let_def msgs cleanup_fold_frame split: if_splits)
qed

theorem failing_update_spins:
  assumes "sid \<in> set (session_ids db)" "streaming_in db sid" "\<forall>j. fails j (StreamingCall sid)"
    and "\<forall>j. \<not> fails j SelectCall \<and> \<not> fails j StaleCall"
  shows "startup_cleanup fuel fails fresh now k db = None"
  using assms(1,2)
proof (induction fuel arbitrary: db k)
  case (Suc fuel)
  obtain db1 r where b: "cleanup_interrupted_sessions (fails k) (fresh k) (now k) db = (db1, r)" by fastforce
  have "sid \<in> set (cleanup_candidates db)" using Suc.prems by (simp add: cleanup_candidates_iff)
  then have "cleanup_candidates db \<noteq> []" by auto
  then have "\<exists>n. r = Some (Suc n)"
    using cleanup_batch_count[of "fails k" "fresh k" "now k" db] b assms(4) by (cases "cleanup_candidates db") auto
  moreover have "startup_cleanup fuel fails fresh now (Suc k) db1 = None"
    using Suc.IH batch_keeps_streaming[OF Suc.prems _ b] assms(3) by blast
  ultimately show ?case using b by auto
qed simp

section \<open>Retention\<close>

lemma idle_sessions_set:
  "set (idle_sessions a db) = {s \<in> set (sessions db). s_agent_id s = a \<and> s_run_status s \<noteq> Some ''running''}"
  by (auto simp: idle_sessions_def)

lemma idle_sessions_distinct: "distinct (session_ids db) \<Longrightarrow> distinct (map s_id (idle_sessions a db))"
  by (simp add: idle_sessions_def session_ids_def rev_map[symmetric] distinct_map inj_on_def)

lemma idle_sessions_sorted: "sorted_wrt (\<lambda>s t. s_last_message_at t \<le> s_last_message_at s) (idle_sessions a db)"
proof -
  have "sorted_wrt (\<lambda>s t. s_last_message_at s \<le> s_last_message_at t) (sort_key s_last_message_at ss)" for ss
    using sorted_sort_key[of s_last_message_at ss] unfolding sorted_map .
  then show ?thesis by (simp add: idle_sessions_def sorted_wrt_rev)
qed

lemma excess_deletes_iff:
  assumes "distinct (session_ids db)" "s \<in> set (sessions db)"
  shows "s_id s \<in> set (map s_id (drop n (idle_sessions (s_agent_id s) db))) \<longleftrightarrow> s \<in> set (drop n (idle_sessions (s_agent_id s) db))"
proof -
  have "inj_on s_id (set (sessions db))" using assms(1) by (simp add: session_ids_def distinct_map)
  moreover have "set (drop n (idle_sessions (s_agent_id s) db)) \<subseteq> set (sessions db)"
    using set_drop_subset[of n "idle_sessions (s_agent_id s) db"] by (auto simp: idle_sessions_set)
  ultimately show ?thesis using assms(2) by (auto dest: inj_onD)
qed

text \<open>the per-agent cap. With unique ids and a positive cap, every running session survives, at most
  the cap many idle sessions of an agent survive, and a surviving idle session is at least as recent as
  every deleted session of its agent.\<close>

theorem excess_cleanup_keeps_recent:
  assumes "distinct (session_ids db)" "0 < cap"
    and "cleanup_excess_sessions_per_agent cap db = (db', n)"
  shows "(\<forall>s \<in> set (sessions db). s_run_status s = Some ''running'' \<longrightarrow> s \<in> set (sessions db'))
    \<and> length (filter (\<lambda>s. s_agent_id s = a \<and> s_run_status s \<noteq> Some ''running'') (sessions db')) \<le> cap
    \<and> (\<forall>s \<in> set (sessions db) - set (sessions db'). \<forall>t \<in> set (sessions db').
          s_agent_id t = s_agent_id s \<and> s_run_status t \<noteq> Some ''running'' \<longrightarrow> s_last_message_at s \<le> s_last_message_at t)"
proof -
  have db': "sessions db' = filter (\<lambda>s. s \<notin> set (drop cap (idle_sessions (s_agent_id s) db))) (sessions db)"
  proof -
    have "filter (\<lambda>s. s_id s \<notin> set (map s_id (drop cap (idle_sessions (s_agent_id s) db)))) (sessions db)
        = filter (\<lambda>s. s \<notin> set (drop cap (idle_sessions (s_agent_id s) db))) (sessions db)"
      by (rule filter_cong) (simp_all only: excess_deletes_iff[OF assms(1)])
    then show ?thesis using assms(2,3)
      by (auto simp: cleanup_excess_sessions_per_agent_def delete_sessions_def Let_def)
  qed
  have dis: "distinct (sessions db)" using assms(1) by (simp add: session_ids_def distinct_map)
  have idle: "t \<in> set (idle_sessions (s_agent_id t) db)" if "t \<in> set (sessions db)" "s_run_status t \<noteq> Some ''running''" for t
    using that by (simp add: idle_sessions_set)
  have split: "set (idle_sessions b db) = set (take cap (idle_sessions b db)) \<union> set (drop cap (idle_sessions b db))" for b
    by (metis append_take_drop_id set_append)
  have running: "s \<in> set (sessions db')" if "s \<in> set (sessions db)" "s_run_status s = Some ''running''" for s
    using that by (auto simp: db' idle_sessions_set dest!: in_set_dropD)
  have "set (filter (\<lambda>s. s_agent_id s = a \<and> s_run_status s \<noteq> Some ''running'') (sessions db')) \<subseteq> set (take cap (idle_sessions a db))"
    using idle split[of a] by (auto simp: db')
  then have "card (set (filter (\<lambda>s. s_agent_id s = a \<and> s_run_status s \<noteq> Some ''running'') (sessions db'))) \<le> cap"
  proof (rule order_trans[OF card_mono[OF List.finite_set]])
    show "card (set (take cap (idle_sessions a db))) \<le> cap"
      using card_length[of "take cap (idle_sessions a db)"] by simp
  qed
  then have cap: "length (filter (\<lambda>s. s_agent_id s = a \<and> s_run_status s \<noteq> Some ''running'') (sessions db')) \<le> cap"
    using dis by (subst distinct_card[symmetric]) (simp_all add: db')
  have "s_last_message_at s \<le> s_last_message_at t"
    if "s \<in> set (drop cap (idle_sessions b db))" "t \<in> set (take cap (idle_sessions b db))" for s t b
  proof -
    have "sorted_wrt (\<lambda>s t. s_last_message_at t \<le> s_last_message_at s) (take cap (idle_sessions b db) @ drop cap (idle_sessions b db))"
      using idle_sessions_sorted[of b db] by (simp only: append_take_drop_id)
    then show ?thesis using that by (simp only: sorted_wrt_append)
  qed
  then have "s_last_message_at s \<le> s_last_message_at t"
    if "s \<in> set (sessions db) - set (sessions db')" "t \<in> set (sessions db')" "s_agent_id t = s_agent_id s"
      "s_run_status t \<noteq> Some ''running''" for s t
    using that idle[of t] split[of "s_agent_id s"] by (auto simp: db')
  with running cap show ?thesis by blast
qed

theorem excess_cleanup_keeps_recent_witness:
  "\<exists>db' n. cleanup_excess_sessions_per_agent 1 sample_db = (db', n) \<and> n = 1
    \<and> length (filter (\<lambda>s. s_agent_id s = ''A'' \<and> s_run_status s \<noteq> Some ''running'') (sessions db')) \<le> 1"
proof -
  have "distinct (session_ids sample_db)" by (simp add: session_ids_def sample_simps)
  moreover obtain db' n where r: "cleanup_excess_sessions_per_agent 1 sample_db = (db', n)" by fastforce
  moreover have "n = 1" using r
    by (auto simp: cleanup_excess_sessions_per_agent_def delete_sessions_def idle_sessions_def sample_simps)
  ultimately show ?thesis using excess_cleanup_keeps_recent[of sample_db 1 db' n "''A''"] by auto
qed

section \<open>Pruning the event log\<close>

definition expired :: "instant \<Rightarrow> nat \<Rightarrow> wal_event \<Rightarrow> bool" where
  "expired now days e \<longleftrightarrow> ev_created_at e + hours (24 * days) < now"

lemma prune_batch_effect:
  assumes "distinct (map ev_id wal)"
  obtains G where "set G \<subseteq> set (filter (expired now days) wal)" "distinct G"
    "length G = min batch (length (filter (expired now days) wal))"
    "prune_batch now days batch wal = (filter (\<lambda>e. e \<notin> set G) wal, length G)"
proof
  let ?O = "filter (expired now days) wal"
  let ?G = "take batch (sort_key ev_id ?O)"
  have dis: "distinct wal" "inj_on ev_id (set wal)" using assms by (simp_all add: distinct_map)
  show sub: "set ?G \<subseteq> set ?O" by (auto dest: in_set_takeD)
  show dG: "distinct ?G" using dis by simp
  show "length ?G = min batch (length ?O)" by simp
  have mem: "ev_id e \<in> ev_id ` set ?G \<longleftrightarrow> e \<in> set ?G" if "e \<in> set wal" for e
  proof
    assume "ev_id e \<in> ev_id ` set ?G"
    then obtain g where g: "g \<in> set ?G" "ev_id e = ev_id g" by blast
    then have "g \<in> set wal" using sub by auto
    with g show "e \<in> set ?G" using that inj_onD[OF dis(2)] by metis
  qed blast
  have f: "filter (\<lambda>e. ev_id e \<notin> ev_id ` set ?G) wal = filter (\<lambda>e. e \<notin> set ?G) wal"
    "filter (\<lambda>e. ev_id e \<in> ev_id ` set ?G) wal = filter (\<lambda>e. e \<in> set ?G) wal"
    by (rule filter_cong; simp only: mem)+
  have "set (filter (\<lambda>e. e \<in> set ?G) wal) = set ?G" using sub by auto
  then have "length (filter (\<lambda>e. e \<in> set ?G) wal) = length ?G"
    using dis(1) dG by (metis distinct_card distinct_filter)
  then show "prune_batch now days batch wal = (filter (\<lambda>e. e \<notin> set ?G) wal, length ?G)"
    unfolding prune_batch_def Let_def expired_def[symmetric] set_map f by simp
qed

lemma prune_loop_result:
  assumes "distinct (map ev_id wal)" "0 < batch" "length (filter (expired now days) wal) < fuel"
  shows "prune_loop fuel now days batch deleted wal =
    Some (filter (\<lambda>e. \<not> expired now days e) wal, deleted + length (filter (expired now days) wal))"
  using assms
proof (induction fuel arbitrary: deleted wal)
  case (Suc fuel)
  let ?O = "filter (expired now days) wal"
  obtain G where G: "set G \<subseteq> set ?O" "distinct G" "length G = min batch (length ?O)"
    "prune_batch now days batch wal = (filter (\<lambda>e. e \<notin> set G) wal, length G)"
    using prune_batch_effect[OF Suc.prems(1)] by blast
  let ?w = "filter (\<lambda>e. e \<notin> set G) wal"
  have dis: "distinct wal" using Suc.prems(1) by (simp add: distinct_map)
  have keep: "filter (\<lambda>e. \<not> expired now days e) ?w = filter (\<lambda>e. \<not> expired now days e) wal"
    using G(1) by (auto intro: filter_cong)
  have "set (filter (expired now days) ?w) = set ?O - set G" by auto
  then have "length (filter (expired now days) ?w) = card (set ?O - set G)"
    using dis by (metis distinct_card distinct_filter)
  then have len: "length (filter (expired now days) ?w) = length ?O - length G"
    using card_Diff_subset[OF _ G(1)] distinct_card[OF G(2)] distinct_card[of ?O] dis by simp
  show ?case
  proof (cases "length G < batch")
    case True
    then have "length G = length ?O" using G(3) by simp
    then have "filter (\<lambda>e. \<not> expired now days e) ?w = ?w"
      using len unfolding filter_id_conv by (fastforce simp: filter_empty_conv)
    then show ?thesis using True G(4) keep \<open>length G = length ?O\<close> by simp
  next
    case False
    then have b: "length G = batch" "batch \<le> length ?O" using G(3) by auto
    have "distinct (map ev_id ?w)" using Suc.prems(1) by (simp add: distinct_map inj_on_def)
    moreover have "length (filter (expired now days) ?w) < fuel" using len b Suc.prems(2,3) by linarith
    ultimately show ?thesis using Suc.IH[of ?w "deleted + length G"] Suc.prems(2) G(4) False keep len b
      by simp
  qed
qed simp

text \<open>batched pruning ends and removes exactly the expired events, whatever the batch size; the count
  it returns is their number. With \<open>days = 0\<close> it does nothing and a batch size that is not positive is
  refused.\<close>

theorem prune_removes_exactly_expired:
  assumes "distinct (map ev_id wal)" "length wal < fuel"
  shows "prune_old_events_batched fuel now days batch_size wal =
    Some (if days = 0 then Inr (wal, 0)
          else if batch_size \<le> 0 then Inl ''batch_size must be > 0''
          else Inr (filter (\<lambda>e. \<not> expired now days e) wal, length (filter (expired now days) wal)))"
proof -
  have "length (filter (expired now days) wal) < fuel"
    using assms(2) length_filter_le[of "expired now days" wal] by linarith
  then show ?thesis
    using prune_loop_result[OF assms(1), of "nat batch_size" now days fuel 0]
    by (simp add: prune_old_events_batched_def)
qed

theorem prune_removes_exactly_expired_witness:
  "prune_old_events_batched 3 200000 1 1 (log_event 8 150000 1 ''done'' None (log_event 7 0 1 ''running'' None [])) =
     Some (Inr (filter (\<lambda>e. \<not> expired 200000 1 e) (log_event 8 150000 1 ''done'' None (log_event 7 0 1 ''running'' None [])),
       length (filter (expired 200000 1) (log_event 8 150000 1 ''done'' None (log_event 7 0 1 ''running'' None [])))))"
  by (subst prune_removes_exactly_expired) (simp_all add: log_event_def)

section \<open>The message tree\<close>

text \<open>Row ids are unique and a parent is an earlier row: the order in which the rows were written is an
  order of the tree.\<close>

fun parents_ok :: "uuid set \<Rightarrow> message_row list \<Rightarrow> bool" where
  "parents_ok seen [] = True"
| "parents_ok seen (m # ms) \<longleftrightarrow>
     m_id m \<notin> seen \<and> (case m_parent m of None \<Rightarrow> True | Some p \<Rightarrow> p \<in> seen)
     \<and> parents_ok (insert (m_id m) seen) ms"

definition tree_ok :: "database \<Rightarrow> bool" where
  "tree_ok db \<longleftrightarrow> parents_ok {} (messages db)"

lemma parents_ok_append:
  "parents_ok seen (ms @ ns) \<longleftrightarrow> parents_ok seen ms \<and> parents_ok (seen \<union> m_id ` set ms) ns"
  by (induction ms arbitrary: seen) (auto simp: insert_commute)

lemma parents_ok_map:
  assumes "\<And>m. m_id (f m) = m_id m" "\<And>m. m_parent (f m) = m_parent m"
  shows "parents_ok seen (map f ms) = parents_ok seen ms"
  using assms by (induction ms arbitrary: seen) auto

lemma parents_ok_disjoint: "parents_ok seen ms \<Longrightarrow> seen \<inter> m_id ` set ms = {}"
  by (induction ms arbitrary: seen) auto

lemma parents_ok_distinct: "parents_ok seen ms \<Longrightarrow> distinct (map m_id ms)"
  by (induction ms arbitrary: seen) (auto dest: parents_ok_disjoint)

lemma null_refs_simps:
  "m_id (null_refs gone m) = m_id m"
  "m_parent (null_refs gone m) = (case m_parent m of None \<Rightarrow> None | Some p \<Rightarrow> if p \<in> gone then None else Some p)"
  by (auto simp: null_refs_def split: option.splits)

lemma parents_ok_delete:
  assumes "parents_ok seen ms" "m_id ` {m \<in> set ms. P m} \<subseteq> gone" "gone \<inter> m_id ` {m \<in> set ms. \<not> P m} = {}"
  shows "parents_ok (seen - gone) (map (null_refs gone) (filter (\<lambda>m. \<not> P m) ms))"
  using assms
proof (induction ms arbitrary: seen)
  case (Cons m ms)
  have IH: "parents_ok (insert (m_id m) seen - gone) (map (null_refs gone) (filter (\<lambda>m. \<not> P m) ms))"
    using Cons.prems by (intro Cons.IH) auto
  show ?case
  proof (cases "P m")
    case True
    then have "insert (m_id m) seen - gone = seen - gone" using Cons.prems(2) by auto
    then show ?thesis using True IH by simp
  next
    case False
    then have "insert (m_id m) seen - gone = insert (m_id m) (seen - gone)" using Cons.prems(3) by auto
    moreover have "m_id m \<notin> seen" "\<forall>p. m_parent m = Some p \<longrightarrow> p \<in> seen" using Cons.prems(1) by (auto split: option.splits)
    ultimately show ?thesis using False IH by (cases "m_parent m") (simp_all add: null_refs_simps)
  qed
qed simp

lemma delete_messages_tree:
  assumes "tree_ok db"
  shows "tree_ok (fst (delete_messages P db))"
proof -
  have "inj_on m_id (set (messages db))"
    using assms parents_ok_distinct unfolding tree_ok_def distinct_map by blast
  then have "m_id ` {m \<in> set (messages db). P m} \<inter> m_id ` {m \<in> set (messages db). \<not> P m} = {}"
    by (auto dest: inj_onD)
  then show ?thesis
    using assms parents_ok_delete[of "{}" "messages db" P "m_id ` {m \<in> set (messages db). P m}"]
    by (simp add: tree_ok_def delete_messages_def Let_def)
qed

lemma insert_message_tree: "tree_ok db \<Longrightarrow> insert_message m db = Inr db' \<Longrightarrow> tree_ok db'"
  using insert_message_Inr[of m db db']
  by (auto simp: tree_ok_def parents_ok_append message_ids_def fk_ok_def split: option.splits)

lemma update_sessions_tree [simp]: "tree_ok (fst (update_sessions P f db)) = tree_ok db"
  by (simp add: tree_ok_def)

lemma update_messages_tree:
  assumes "\<And>m. m_id (f m) = m_id m" "\<And>m. m_parent (f m) = m_parent m"
  shows "tree_ok (fst (update_messages P f db)) = tree_ok db"
  using assms by (simp add: tree_ok_def update_messages_def parents_ok_map)

lemma insert_tool_rows_tree: "tree_ok db \<Longrightarrow> tree_ok (fst (insert_tool_rows fresh now sid i cs db))"
  by (induction cs arbitrary: i db) (auto split: sum.splits dest: insert_message_tree)

lemma synthetic_tree: "tree_ok db \<Longrightarrow> tree_ok (fst (insert_synthetic_tool_results fresh now sid db))"
  using synthetic_cases[of fresh now sid db] insert_tool_rows_tree by auto

lemma cleanup_one_tree: "tree_ok db \<Longrightarrow> tree_ok (cleanup_one fails fresh now sid db)"
  by (simp add: cleanup_one_def Let_def set_session_run_status_def cleanup_session_streaming_messages_def
      update_messages_tree interrupt_streaming_def synthetic_tree)

lemma delete_sessions_tree: "tree_ok db \<Longrightarrow> tree_ok (fst (delete_sessions P db))"
  using delete_messages_tree[of db] by (simp add: delete_sessions_def Let_def tree_ok_def)

text \<open>The operations of \<open>sessions.rs\<close> that write messages or delete sessions.\<close>

inductive db_step :: "database \<Rightarrow> database \<Rightarrow> bool" where
  save: "save_message_ex i t sid role c tc tci a tb p db = Inr db' \<Longrightarrow> db_step db db'"
| save_id: "save_message_ex_with_id i t sid role c tc tci a tb p db = Inr db' \<Longrightarrow> db_step db db'"
| branch: "save_message_branched i t sid role c tc tci a tb p b db = Inr db' \<Longrightarrow> db_step db db'"
| partial: "insert_assistant_partial i t sid a' c r p db = Inr db' \<Longrightarrow> db_step db db'"
| upsert: "upsert_streaming_message i t sid ag c tc db = Inr db' \<Longrightarrow> db_step db db'"
| finalize: "db_step db (finalize_streaming_message i db)"
| delete_empty: "db_step db (fst (delete_empty_assistant_messages sid db))"
| trim: "db_step db (fst (trim_session_messages sid n db))"
| missing: "db_step db (fst (insert_missing_tool_results fresh t sid ids db))"
| synthetic: "db_step db (fst (insert_synthetic_tool_results fresh t sid db))"
| interrupt: "db_step db (fst (cleanup_session_streaming_messages sid db))"
| cleanup: "db_step db (fst (cleanup_interrupted_sessions fails fresh' t db))"
| old: "db_step db (fst (cleanup_old_sessions t n db))"
| excess: "db_step db (fst (cleanup_excess_sessions_per_agent n db))"
| delete: "db_step db (delete_session sid db)"
| create: "db_step db (fst (get_or_create_session i t ag u ch scope db))"

inductive_cases db_stepE: "db_step db db'"

lemma db_step_tree: "db_step db db' \<Longrightarrow> tree_ok db \<Longrightarrow> tree_ok db'"
proof (induction rule: db_step.induct)
  case (upsert i t sid ag c tc db db')
  then show ?case
    by (auto simp: upsert_streaming_message_def touch_session_activity_def update_messages_tree Let_def
        split: if_splits sum.splits dest: insert_message_tree)
next
  case (cleanup db fails fresh' t)
  have "tree_ok (foldl (\<lambda>d sid. cleanup_one fails fresh' t sid d) db ids)" for ids
    using cleanup by (induction ids arbitrary: db) (simp_all add: cleanup_one_tree)
  then show ?case using cleanup by (simp add: cleanup_interrupted_sessions_def Let_def)
next
  case (create db i t ag u ch scope)
  then show ?case
    by (auto simp: get_or_create_session_def insert_session_def tree_ok_def split: prod.splits option.splits)
qed (auto simp: save_message_ex_def save_message_ex_with_id_def save_message_branched_def
    insert_assistant_partial_def finalize_streaming_message_def delete_messages_tree
    delete_empty_assistant_messages_def trim_session_messages_def Let_def insert_missing_tool_results_def
    insert_tool_rows_tree synthetic_tree cleanup_session_streaming_messages_def update_messages_tree
    interrupt_streaming_def cleanup_old_sessions_def cleanup_excess_sessions_per_agent_def delete_session_def
    delete_sessions_tree split: if_splits dest: insert_message_tree)

text \<open>A chain of rows from a start reference up to a row without a parent in the session.\<close>

fun linked :: "uuid \<Rightarrow> database \<Rightarrow> uuid option \<Rightarrow> message_row list \<Rightarrow> bool" where
  "linked sid db r [] \<longleftrightarrow> (case r of None \<Rightarrow> True | Some i \<Rightarrow> find_message sid i db = None)"
| "linked sid db r (m # ms) \<longleftrightarrow> Option.bind r (\<lambda>i. find_message sid i db) = Some m \<and> linked sid db (m_parent m) ms"

lemma parent_chain_linked: "parent_chain fuel sid r db = Some c \<Longrightarrow> linked sid db r c"
  by (induction fuel sid r db arbitrary: c rule: parent_chain.induct) (auto split: option.splits)

lemma linked_unique: "linked sid db r c \<Longrightarrow> linked sid db r c' \<Longrightarrow> c = c'"
proof (induction c arbitrary: r c')
  case Nil
  then show ?case by (cases c'; cases r) auto
next
  case (Cons m c)
  then show ?case by (cases c'; cases r) auto
qed

lemma linked_append: "linked sid db r (a @ m # s) \<Longrightarrow> linked sid db (m_parent m) s"
  by (induction a arbitrary: r) auto

lemma linked_no_siblings:
  assumes "linked sid db r c" "m \<in> set c" "m' \<in> set c" "m_parent m = m_parent m'"
  shows "m = m'"
proof -
  obtain a s a' s' where s: "c = a @ m # s" "c = a' @ m' # s'" using assms(2,3) by (meson split_list)
  have "s = s'" using linked_append linked_unique assms(1,4) s by metis
  then have "a @ [m] = a' @ [m']" using s by simp
  then show ?thesis by simp
qed

lemma linked_in_session: "linked sid db r c \<Longrightarrow> set c \<subseteq> set (in_session sid (messages db))"
  by (induction c arbitrary: r) (auto simp: find_message_def find_Some_iff bind_eq_Some_conv)

lemma linked_closed:
  "linked sid db r c \<Longrightarrow> m \<in> set c \<Longrightarrow> m_parent m = Some p \<Longrightarrow> find_message sid p db = Some q \<Longrightarrow> q \<in> set c"
proof (induction c arbitrary: r)
  case (Cons x c)
  then show ?case by (cases c) auto
qed simp

definition row_pos :: "database \<Rightarrow> uuid \<Rightarrow> nat" where
  "row_pos db i = length (takeWhile (\<lambda>m. m_id m \<noteq> i) (messages db))"

lemma parents_ok_pos:
  assumes "parents_ok seen ms" "m \<in> set ms" "m_parent m = Some p" "p \<notin> seen"
  shows "length (takeWhile (\<lambda>x. m_id x \<noteq> p) ms) < length (takeWhile (\<lambda>x. m_id x \<noteq> m_id m) ms)"
  using assms
proof (induction ms arbitrary: seen)
  case (Cons x xs)
  have "m_id m \<notin> insert (m_id x) seen" if "m \<in> set xs"
    using that Cons.prems(1) parents_ok_disjoint[of "insert (m_id x) seen" xs] by (auto simp: image_iff)
  then show ?case using Cons by (cases "p = m_id x") auto
qed simp

lemma parent_chain_total:
  assumes "tree_ok db" "row_pos db i < fuel"
  shows "\<exists>c. parent_chain fuel sid (Some i) db = Some c"
  using assms(2)
proof (induction fuel arbitrary: i)
  case (Suc fuel)
  show ?case
  proof (cases "find_message sid i db")
    case (Some m)
    then have m: "m \<in> set (messages db)" "m_id m = i" by (auto simp: find_message_def find_Some_iff)
    show ?thesis
    proof (cases "m_parent m")
      case None
      then show ?thesis using Some by simp
    next
      case p: (Some p)
      have "row_pos db p < row_pos db i"
        using parents_ok_pos[of "{}" "messages db" m p] assms(1) m p by (simp add: row_pos_def tree_ok_def)
      then show ?thesis using Suc.IH[of p] Suc.prems Some p by auto
    qed
  qed simp
qed simp

text \<open>C33: loading a branch. In every database the operations reach from one with a well-founded message
  tree, the recursive query ends; the branch is in the session, contains the leaf, is closed under
  parents, and no two of its rows share a parent - of several children of one message, such as the
  results of parallel tool calls, a branch holds one.\<close>

theorem branch_load_total:
  assumes "db_step\<^sup>*\<^sup>* db0 db" "tree_ok db0"
  shows "\<exists>ms. load_branch_messages sid leaf db = Some ms
    \<and> set ms \<subseteq> set (in_session sid (messages db))
    \<and> (\<forall>m. find_message sid leaf db = Some m \<longrightarrow> m \<in> set ms)
    \<and> (\<forall>m \<in> set ms. \<forall>p q. m_parent m = Some p \<and> find_message sid p db = Some q \<longrightarrow> q \<in> set ms)
    \<and> (\<forall>m \<in> set ms. \<forall>m' \<in> set ms. m_parent m = m_parent m' \<longrightarrow> m = m')"
proof -
  have "tree_ok db" using assms by (induction rule: rtranclp_induct) (auto intro: db_step_tree)
  moreover have "row_pos db leaf < Suc (length (messages db))"
    by (simp add: row_pos_def length_takeWhile_le le_imp_less_Suc)
  ultimately obtain c where c: "parent_chain (Suc (length (messages db))) sid (Some leaf) db = Some c"
    using parent_chain_total by blast
  then have l: "linked sid db (Some leaf) c" by (rule parent_chain_linked)
  have "m \<in> set c" if "find_message sid leaf db = Some m" for m using l that by (cases c) auto
  moreover have "load_branch_messages sid leaf db = Some (by_time c)" by (simp only: load_branch_messages_def c) simp
  moreover have "q \<in> set c" if "m \<in> set c" "m_parent m = Some p" "find_message sid p db = Some q" for m p q
    using linked_closed[OF l that] .
  moreover have "m = m'" if "m \<in> set c" "m' \<in> set c" "m_parent m = m_parent m'" for m m'
    using linked_no_siblings[OF l that] .
  ultimately show ?thesis using linked_in_session[OF l] by (intro exI[of _ "by_time c"]) (simp only: by_time_set, blast)
qed

theorem branch_load_total_witness:
  "\<exists>ms. load_branch_messages 2 12 sample_db = Some ms \<and> set ms \<subseteq> set (in_session 2 (messages sample_db))"
proof -
  have "tree_ok sample_db" by (simp add: tree_ok_def sample_simps)
  from branch_load_total[OF rtranclp.rtrancl_refl this, of 2 12] show ?thesis by blast
qed

end
