(* ===== verification/Run_Facts.thy ===== *)
theory Run_Facts
  imports Session_Run Session_Facts
begin

text \<open>
  What handling a message does to its session, proved on the definitions of theory \<open>Session_Run\<close>: how many
  failure rows it leaves, which status the session ends with under every order of the background tasks,
  and that a handled request stays registered.
\<close>

section \<open>Frames\<close>

lemma next_call_simps [simp]:
  "w_db (next_call w) = w_db w" "w_wal (next_call w) = w_wal w" "w_failures (next_call w) = w_failures w"
  "w_tasks (next_call w) = w_tasks w" "w_requests (next_call w) = w_requests w" "w_calls (next_call w) = Suc (w_calls w)"
  "w_sse_tx (next_call w) = w_sse_tx w" "w_processing (next_call w) = w_processing w"
  by (simp_all add: next_call_def)

lemma spawn_simps [simp]:
  "w_db (spawn t w) = w_db w" "w_wal (spawn t w) = w_wal w" "w_failures (spawn t w) = w_failures w"
  "w_tasks (spawn t w) = w_tasks w @ [t]" "w_requests (spawn t w) = w_requests w" "w_calls (spawn t w) = w_calls w"
  "w_sse_tx (spawn t w) = w_sse_tx w" "w_processing (spawn t w) = w_processing w"
  by (simp_all add: spawn_def)

lemma emit_event_simps [simp]:
  "w_db (emit_event ev w) = w_db w" "w_wal (emit_event ev w) = w_wal w" "w_failures (emit_event ev w) = w_failures w"
  "w_tasks (emit_event ev w) = w_tasks w" "w_requests (emit_event ev w) = w_requests w"
  "w_processing (emit_event ev w) = w_processing w"
  by (simp_all add: emit_event_def)

lemma try_log_simps [simp]:
  "w_db (fst (try_log env sid t p w)) = w_db w" "w_failures (fst (try_log env sid t p w)) = w_failures w"
  "w_tasks (fst (try_log env sid t p w)) = w_tasks w" "w_requests (fst (try_log env sid t p w)) = w_requests w"
  "w_processing (fst (try_log env sid t p w)) = w_processing w"
  by (simp_all add: try_log_def Let_def)

lemma query_simps [simp]:
  "w_db (snd (query env q w)) = w_db w" "w_failures (snd (query env q w)) = w_failures w"
  "w_tasks (snd (query env q w)) = w_tasks w" "w_requests (snd (query env q w)) = w_requests w"
  by (simp_all add: query_def)

lemma record_session_failure_simps [simp]:
  "w_db (record_session_failure env i w) = w_db w" "w_tasks (record_session_failure env i w) = w_tasks w"
  "w_requests (record_session_failure env i w) = w_requests w"
  by (simp_all add: record_session_failure_def Let_def)

lemma processing_guard_drop_simps [simp]:
  "w_db (processing_guard_drop env pg w) = w_db w" "w_failures (processing_guard_drop env pg w) = w_failures w"
  "w_tasks (processing_guard_drop env pg w) = w_tasks w" "w_requests (processing_guard_drop env pg w) = w_requests w"
  by (simp_all add: processing_guard_drop_def Let_def)

section \<open>Failure rows\<close>

text \<open>The tasks that may still write a failure row.\<close>

definition may_record :: "task \<Rightarrow> bool" where
  "may_record t = (case t of
       MarkFailed _ agent recorded \<Rightarrow> agent \<noteq> None \<and> \<not> recorded
     | RecordFailure _ _ _ _ _ _ \<Rightarrow> True
     | _ \<Rightarrow> False)"

definition potential :: "world \<Rightarrow> nat" where
  "potential w = length (w_failures w) + length (filter may_record (w_tasks w))"

lemma may_record_simps [simp]:
  "may_record (RecordFailure s b c d e f)" "\<not> may_record (Notify a b c p)" "\<not> may_record (ExtractKnowledge s b)"
  "\<not> may_record (PersistRow s r)" "\<not> may_record (RecordUsage s u)"
  "may_record (MarkFailed s ag rec) \<longleftrightarrow> ag \<noteq> None \<and> \<not> rec"
  by (simp_all add: may_record_def)

lemma record_session_failure_le: "length (w_failures (record_session_failure env i w)) \<le> Suc (length (w_failures w))"
  by (simp add: record_session_failure_def Let_def)

lemma persist_row_frame:
  "w_failures (persist_row env k sid row w) = w_failures w \<and> w_tasks (persist_row env k sid row w) = w_tasks w"
  by (induction k arbitrary: w) (auto simp: Let_def split: sum.splits)

lemma mark_failed_frame:
  "w_tasks (mark_failed env sid ag rec w) = w_tasks w
   \<and> length (w_failures (mark_failed env sid ag rec w)) \<le> length (w_failures w) + (if ag \<noteq> None \<and> \<not> rec then 1 else 0)"
  using record_session_failure_le
  by (auto simp: mark_failed_def Let_def split: prod.splits option.splits intro: le_trans[OF record_session_failure_le])

lemma gather_failure_frame:
  "w_tasks (gather_failure env sid ag k r p m w) = w_tasks w
   \<and> length (w_failures (gather_failure env sid ag k r p m w)) \<le> Suc (length (w_failures w))"
proof -
  define r1 where "r1 = query env (last_tool_row sid) w"
  have r1: "w_tasks (snd r1) = w_tasks w" "w_failures (snd r1) = w_failures w" by (simp_all add: r1_def)
  show ?thesis
    unfolding gather_failure_def r1_def[symmetric]
    using r1 by (auto simp: Let_def split_beta split: option.splits intro!: le_trans[OF record_session_failure_le])
qed

lemma run_task_frame:
  "w_tasks (run_task env t w) = w_tasks w
   \<and> length (w_failures (run_task env t w)) \<le> length (w_failures w) + (if may_record t then 1 else 0)"
  using mark_failed_frame gather_failure_frame persist_row_frame
  by (cases t) (simp_all add: run_task_def)

lemma task_steps_potential: "(task_step env)\<^sup>*\<^sup>* w w' \<Longrightarrow> potential w' \<le> potential w"
proof (induction rule: rtranclp_induct)
  case (step v u)
  from step(2) obtain before t after where v: "w_tasks v = before @ t # after"
    "u = run_task env t (v\<lparr>w_tasks := before @ after\<rparr>)" by (auto elim: task_step.cases)
  have "potential u \<le> potential v"
    using run_task_frame[of env t "v\<lparr>w_tasks := before @ after\<rparr>"] by (auto simp: v potential_def split: if_splits)
  with step(3) show ?case by simp
qed simp

lemma settle_frame [simp]:
  "w_failures (snd (settle env st oc p g w)) = w_failures w" "w_tasks (snd (settle env st oc p g w)) = w_tasks w"
  "w_requests (snd (settle env st oc p g w)) = w_requests w"
  "lg_recorded (fst (settle env st oc p g w))"
  "lg_session_id (fst (settle env st oc p g w)) = lg_session_id g"
  by (simp_all add: settle_def Let_def)

lemma save_reply_frame [simp]:
  "w_failures (save_reply env sid t th p w) = w_failures w" "w_tasks (save_reply env sid t th p w) = w_tasks w"
  "w_requests (save_reply env sid t th p w) = w_requests w"
  by (simp_all add: save_reply_def Let_def split: sum.splits)

lemma maybe_trim_frame [simp]:
  "w_failures (maybe_trim_session env sid w) = w_failures w" "w_tasks (maybe_trim_session env sid w) = w_tasks w"
  "w_requests (maybe_trim_session env sid w) = w_requests w"
  by (simp_all add: maybe_trim_session_def Let_def split: option.splits)

definition failed_outcome :: "finalize_outcome \<Rightarrow> bool" where
  "failed_outcome oc = (case oc of FFailed _ _ \<Rightarrow> True | _ \<Rightarrow> False)"

lemma notify_frame [simp]:
  "w_db (notify_loop_detected env sid w) = w_db w" "w_db (notify_iteration_limit env k w) = w_db w" "w_db (notify_agent_error env r w) = w_db w"
  "w_requests (notify_loop_detected env sid w) = w_requests w" "w_requests (notify_iteration_limit env k w) = w_requests w"
  "w_requests (notify_agent_error env r w) = w_requests w"
  "potential (notify_loop_detected env sid w) = potential w" "potential (notify_iteration_limit env k w) = potential w"
  "potential (notify_agent_error env r w) = potential w"
  by (simp_all add: notify_loop_detected_def notify_iteration_limit_def notify_agent_error_def potential_def)

lemma settle_potential [simp]:
  "potential (snd (settle env st oc p g w)) = potential w" "potential (save_reply env sid t th q w) = potential w"
  "potential (emit_event ev w) = potential w" "potential (spawn_record_failure env sid r w) = Suc (potential w)"
  "potential (spawn_knowledge_extraction env sid n w) = potential w"
  "w_db (spawn_record_failure env sid r w) = w_db w" "w_db (spawn_knowledge_extraction env sid n w) = w_db w"
  "w_requests (spawn_record_failure env sid r w) = w_requests w" "w_requests (spawn_knowledge_extraction env sid n w) = w_requests w"
  by (simp_all add: potential_def spawn_record_failure_def spawn_knowledge_extraction_def)

lemmas finalize_defs = finalize_def guard_done_def guard_fail_def guard_interrupt_def Let_def split_beta

lemma finalize_potential:
  assumes "finalize env sid n p oc g w = (g1, w1, t)"
  shows "lg_recorded g1" "potential w1 = potential w + (if failed_outcome oc then 1 else 0)" "w_requests w1 = w_requests w"
  using assms by (cases oc; auto simp: finalize_defs failed_outcome_def)+

lemma guard_drop_potential:
  "potential (guard_drop g w) \<le> Suc (potential w)" "lg_recorded g \<Longrightarrow> potential (guard_drop g w) = potential w"
  "w_requests (guard_drop g w) = w_requests w"
  by (simp_all add: guard_drop_def potential_def)

lemma drop_guards_potential:
  "potential (drop_guards env pg g w) \<le> Suc (potential w)" "lg_recorded g \<Longrightarrow> potential (drop_guards env pg g w) = potential w"
  "w_requests (drop_guards env pg g w) = w_requests w"
  using guard_drop_potential[of g "processing_guard_drop env pg w"] by (simp_all add: drop_guards_def potential_def)

lemma absorb_loop_frame [simp]:
  "potential (absorb_loop env sid st w) = potential w" "w_requests (absorb_loop env sid st w) = w_requests w"
proof -
  have l: "w_failures (foldl (\<lambda>v (t, p). fst (try_log env sid t (Some p) v)) v xs) = w_failures v
      \<and> w_tasks (foldl (\<lambda>v (t, p). fst (try_log env sid t (Some p) v)) v xs) = w_tasks v
      \<and> w_requests (foldl (\<lambda>v (t, p). fst (try_log env sid t (Some p) v)) v xs) = w_requests v" for v xs
    by (induction xs arbitrary: v) (simp_all add: split_beta)
  have r: "potential (foldl (\<lambda>v x. spawn (f x) v) v xs) = potential v
      \<and> w_requests (foldl (\<lambda>v x. spawn (f x) v) v xs) = w_requests v" if "\<And>x. \<not> may_record (f x)" for f v and xs :: "'x list"
    by (induction xs arbitrary: v) (simp_all add: potential_def that)
  show "potential (absorb_loop env sid st w) = potential w" "w_requests (absorb_loop env sid st w) = w_requests w"
    unfolding absorb_loop_def Let_def
    using r[of "RecordUsage sid"] r[of "PersistRow sid"] l
    by (simp_all add: potential_def)
qed

lemma emit_events_frame:
  "potential (foldl (\<lambda>v ev. emit_event (Stream ev) v) w evs) = potential w
   \<and> w_requests (foldl (\<lambda>v ev. emit_event (Stream ev) v) w evs) = w_requests w"
  by (induction evs arbitrary: w) (simp_all add: potential_def)

lemma run_pipeline_potential:
  assumes "run_pipeline env lenv trims b w = (w', r)"
  shows "potential w' \<le> Suc (potential w) \<and> w_requests w' = w_requests w"
proof (cases "execute lenv (bo_messages b) (bo_detector b) (bo_user_message_id b)")
  case (TReturn oc st)
  obtain g1 w2 t where f: "finalize env (bo_session_id b) (eo_messages_len oc) (Some (eo_parent oc))
      (execute_status_to_finalize (eo_status oc) (eo_final_text oc) (eo_thinking_json oc)) (bo_lifecycle_guard b)
      (processing_guard_drop env (bo_processing_guard b) (absorb_loop env (bo_session_id b) st w)) = (g1, w2, t)"
    using prod_cases3 by blast
  note fp = finalize_potential[OF f]
  have w': "w' = guard_drop g1 (if trims then maybe_trim_session env (bo_session_id b) w2 else w2)"
    using assms TReturn f by (simp add: run_pipeline_def Let_def)
  have "potential (if trims then maybe_trim_session env (bo_session_id b) w2 else w2) = potential w2" by (simp add: potential_def)
  moreover have "potential (processing_guard_drop env pg v) = potential v" for pg v by (simp add: potential_def)
  ultimately show ?thesis using fp guard_drop_potential(2,3)[of g1] by (simp add: w')
qed (use assms drop_guards_potential absorb_loop_frame in \<open>auto simp: run_pipeline_def Let_def intro: le_trans[OF drop_guards_potential(1)]\<close>)

lemma run_command_potential:
  assumes "run_command env evs b out w = (w', r)"
  shows "potential w' = potential w \<and> w_requests w' = w_requests w"
proof -
  let ?w1 = "foldl (\<lambda>v ev. emit_event (Stream ev) v) w evs"
  obtain g1 w2 t where f: "finalize env (bo_session_id b) (length (bo_messages b)) (Some (bo_user_message_id b))
      (FDone out None) (bo_lifecycle_guard b) ?w1 = (g1, w2, t)" using prod_cases3 by blast
  have "w' = drop_guards env (bo_processing_guard b) g1 w2" using assms f by (simp add: run_command_def Let_def)
  then show ?thesis
    using finalize_potential[OF f] drop_guards_potential(2,3)[where g = g1] emit_events_frame[of w evs] by (simp add: failed_outcome_def)
qed

lemma begin_session_frame:
  assumes "begin_session env sid msg w = Some (g, pg, w')"
  shows "potential w' = potential w \<and> w_requests w' = w_requests w \<and> g = with_agent (re_agent env) (guard_new sid)"
proof -
  have l: "w_failures (log_wal_running_with_retry env sid v) = w_failures v \<and> w_tasks (log_wal_running_with_retry env sid v) = w_tasks v
      \<and> w_requests (log_wal_running_with_retry env sid v) = w_requests v" for v
    using try_log_simps[of env sid "''running''" None v]
    by (cases "try_log env sid ''running'' None v") (auto simp: log_wal_running_with_retry_def split: bool.splits)
  have c: "w_failures v' = w_failures v \<and> w_tasks v' = w_tasks v \<and> w_requests v' = w_requests v" if "claim env sid v = Some v'" for v v'
    using that by (auto simp: claim_def Let_def split: if_splits prod.splits)
  have u: "w_failures (cleanup_streaming env sid v) = w_failures v \<and> w_tasks (cleanup_streaming env sid v) = w_tasks v
      \<and> w_requests (cleanup_streaming env sid v) = w_requests v" for v
    by (simp add: cleanup_streaming_def Let_def)
  obtain w1 where w1: "claim env sid w = Some w1" using assms by (auto simp: begin_session_def)
  have g: "g = with_agent (re_agent env) (guard_new sid)" "w_failures w' = w_failures w1" "w_tasks w' = w_tasks w1" "w_requests w' = w_requests w1"
    using assms w1 l u by (auto simp: begin_session_def Let_def processing_guard_new_def)
  then show ?thesis using c[OF w1] by (simp add: potential_def)
qed

lemma save_user_message_frame:
  "save_user_message env sid msg t w = (w', r) \<Longrightarrow> potential w' = potential w \<and> w_requests w' = w_requests w"
  by (auto simp: save_user_message_def query_def potential_def Let_def split: option.splits if_splits sum.splits)

lemma bootstrap_potential:
  assumes "bootstrap env ctx w = (w', r)"
  shows "potential w' \<le> (case r of Inl _ \<Rightarrow> Suc (potential w) | Inr _ \<Rightarrow> potential w) \<and> w_requests w' = w_requests w"
proof -
  obtain db1 q where b: "re_build_context env (bc_msg ctx) (bc_use_history ctx) (bc_resume_session_id ctx) (bc_force_new_session ctx) (w_db w)
      = (db1, q)" by fastforce
  let ?w0 = "w\<lparr>w_db := db1\<rparr>"
  have w0: "potential ?w0 = potential w" by (simp add: potential_def)
  show ?thesis
  proof (cases q)
    case (Inl e)
    then show ?thesis using assms b w0 by (auto simp: bootstrap_def)
  next
    case (Inr sh)
    obtain sid h where sh: "sh = (sid, h)" by fastforce
    show ?thesis
    proof (cases "begin_session env sid (bc_msg ctx) ?w0")
      case None
      then show ?thesis using assms b w0 Inr sh by (auto simp: bootstrap_def potential_def)
    next
      case (Some gp)
      obtain g pg w1 where gp: "gp = (g, pg, w1)" using prod_cases3 by blast
      let ?enr = "re_enrich env (unwrap_or (im_text (bc_msg ctx)) []) (im_attachments (bc_msg ctx))"
      obtain w2 u where u: "save_user_message env sid (bc_msg ctx) ?enr w1 = (w2, u)" by fastforce
      define w3 where "w3 = snd (query env (\<lambda>w. Some (load_tool_events sid (w_wal w))) w2)"
      have e: "potential w1 = potential w" "potential w2 = potential w" "potential w3 = potential w"
        "w_requests w1 = w_requests w" "w_requests w2 = w_requests w" "w_requests w3 = w_requests w"
        using begin_session_frame[OF Some[unfolded gp]] save_user_message_frame[OF u] w0 by (simp_all add: w3_def potential_def)
      show ?thesis
      proof (cases u)
        case None
        then show ?thesis using assms b Inr sh Some gp u e drop_guards_potential[where env = env and pg = pg and g = g and w = w2] by (auto simp: bootstrap_def)
      next
        case (Some uid)
        then show ?thesis
          using assms b Inr sh \<open>begin_session _ _ _ _ = Some gp\<close> gp u e drop_guards_potential[where env = env and pg = pg and g = g and w = w3]
          by (auto simp: bootstrap_def split_beta w3_def[symmetric] Let_def split: option.splits sum.splits)
      qed
    qed
  qed
qed

lemma handle_plain_potential:
  assumes "handle_plain env h t msg w = (w', r)"
  shows "potential w' \<le> Suc (potential w) \<and> w_requests w' = w_requests w"
proof -
  let ?ctx = "\<lparr>bc_msg = msg, bc_resume_session_id = None, bc_force_new_session = False, bc_use_history = h\<rparr>"
  obtain w1 q where b: "bootstrap env ?ctx w = (w1, q)" by fastforce
  note bp = bootstrap_potential[OF b]
  show ?thesis
  proof (cases q)
    case (Inl e)
    then show ?thesis using assms b bp by (simp add: handle_plain_def)
  next
    case (Inr o1)
    then show ?thesis
      using assms b bp run_pipeline_potential[of env _ t o1 w1 w' r] run_command_potential[of env _ o1 _ w1 w' r]
      by (fastforce simp: handle_plain_def split: option.splits)
  qed
qed

lemma handle_sse_inner_potential:
  assumes "handle_sse_inner env msg resume force w = (w', r)"
  shows "potential w' \<le> Suc (potential w) \<and> w_requests w' = w_requests w"
proof -
  let ?ctx = "\<lparr>bc_msg = msg, bc_resume_session_id = resume, bc_force_new_session = force, bc_use_history = True\<rparr>"
  obtain w1 q where b: "bootstrap env ?ctx w = (w1, q)" by fastforce
  note bp = bootstrap_potential[OF b]
  show ?thesis
  proof (cases q)
    case (Inl e)
    then show ?thesis using assms b bp by (simp add: handle_sse_inner_def)
  next
    case (Inr o1)
    let ?w2 = "emit_event (Stream (SessionId (re_uuid_str env (bo_session_id o1)))) w1"
    have "potential ?w2 = potential w1" "w_requests ?w2 = w_requests w1" by (simp_all add: potential_def)
    then show ?thesis
      using assms b bp Inr run_pipeline_potential[of env _ True o1 ?w2 w'] run_command_potential[of env _ o1 _ ?w2 w']
      by (fastforce simp: handle_sse_inner_def Let_def split: option.splits prod.splits)
  qed
qed

text \<open>The three entry points.\<close>

definition handled :: "run_env \<Rightarrow> incoming_message \<Rightarrow> world \<Rightarrow> world \<Rightarrow> bool" where
  "handled env msg w w' \<longleftrightarrow>
     (\<exists>resume force. w' = fst (handle_sse env msg resume force w)) \<or> w' = fst (handle_with_status env msg w)
     \<or> w' = fst (handle_streaming env msg w)"

lemma handled_potential:
  assumes "handled env msg w w'"
  shows "potential w' \<le> Suc (potential w)"
proof -
  have reg: "potential (v\<lparr>w_requests := r, w_sse_tx := b\<rparr>) = potential v" "potential (v\<lparr>w_sse_tx := b\<rparr>) = potential v"
    "potential (v\<lparr>w_requests := r\<rparr>) = potential v" "potential (v\<lparr>w_approvals := a\<rparr>) = potential v"
    "potential (v\<lparr>w_approvals := a, w_requests := r\<rparr>) = potential v" for v r b a
    by (simp_all add: potential_def)
  have p: "potential (fst (handle_plain env h t msg v)) \<le> Suc (potential v)" for h t v
    using handle_plain_potential[of env h t msg v] by (metis fst_conv surj_pair)
  have i: "potential (fst (handle_sse_inner env msg resume force v)) \<le> Suc (potential v)" for resume force v
    using handle_sse_inner_potential[of env msg resume force v] by (metis fst_conv surj_pair)
  consider (sse) resume force where "w' = fst (handle_sse env msg resume force w)"
    | (status) "w' = fst (handle_with_status env msg w)" | (streaming) "w' = fst (handle_streaming env msg w)"
    using assms by (auto simp: handled_def)
  then show ?thesis
  proof cases
    case sse
    then show ?thesis
      using i[of resume force "w\<lparr>w_requests := fst (register_request (w_requests w)), w_sse_tx := True\<rparr>"]
      by (auto simp: handle_sse_def Let_def split_beta reg split: hook_action.splits if_splits)
  next
    case status
    then show ?thesis
      using p[of True True "w\<lparr>w_approvals := prune_stale (w_approvals w), w_requests := fst (register_request (w_requests w))\<rparr>"]
      by (auto simp: handle_with_status_def Let_def reg split: hook_action.splits)
  next
    case streaming
    then show ?thesis using p by (simp add: handle_streaming_def)
  qed
qed

text \<open>C4: a handled message leaves at most one failure row, through whichever entry point it came, whatever
  database calls fail and in whatever order the background tasks run: the guard's fallback and the
  explicit failure path never both record.\<close>

theorem at_most_one_failure_row:
  assumes "handled env msg w w'" "(task_step env)\<^sup>*\<^sup>* w' w''" "w_tasks w = []"
  shows "length (w_failures w'') \<le> length (w_failures w) + 1"
  using handled_potential[OF assms(1)] task_steps_potential[OF assms(2)] assms(3) by (simp add: potential_def)

section \<open>Requests are never unregistered\<close>

lemma wait_polls_busy: "\<forall>j. active_requests (obs j) \<noteq> [] \<Longrightarrow> t \<le> wait_polls obs t k"
proof (induction obs t k rule: wait_polls.induct)
  case (1 obs t k)
  then show ?case by (subst wait_polls.simps) auto
qed

text \<open>every message that passes the hooks of \<open>handle_sse\<close> stays registered as in flight after it has been
  handled, whatever its outcome. From then on \<open>wait_drain\<close> waits for its whole timeout, although nothing is
  running any more.\<close>

theorem requests_never_drained:
  assumes "fire (re_hooks env) BeforeMessage = hook_action.Continue" "handle_sse env msg resume force w = (w', r)"
  shows "active_request_count (w_requests w') = Suc (active_request_count (w_requests w))
    \<and> t \<le> wait_drain (\<lambda>_. w_requests w') t"
proof -
  let ?w1 = "w\<lparr>w_requests := fst (register_request (w_requests w)), w_sse_tx := True\<rparr>"
  obtain w2 q where i: "handle_sse_inner env msg resume force ?w1 = (w2, q)" by fastforce
  have "w_requests w' = w_requests w2" using assms i by (auto simp: handle_sse_def Let_def split: if_splits)
  also have "\<dots> = fst (register_request (w_requests w))" using handle_sse_inner_potential[OF i] by simp
  finally have r: "w_requests w' = fst (register_request (w_requests w))" .
  have "active_requests (w_requests w') \<noteq> []" by (simp add: r register_request_def Let_def)
  then show ?thesis
    using wait_polls_busy[of "\<lambda>_. w_requests w'" t 0]
    by (simp add: wait_drain_def active_request_count_def r register_request_def Let_def)
qed

section \<open>The terminal status\<close>

definition status_of :: "uuid \<Rightarrow> database \<Rightarrow> bytes option option" where
  "status_of sid db = map_option s_run_status (get_session sid db)"

lemma get_session_known: "sid \<in> set (session_ids db) \<Longrightarrow> \<exists>s. get_session sid db = Some s"
proof -
  have "find (\<lambda>s. s_id s = sid) ss \<noteq> None" if "sid \<in> s_id ` set ss" for ss using that by (auto simp: find_None_iff)
  then show "sid \<in> set (session_ids db) \<Longrightarrow> ?thesis" by (auto simp: get_session_def session_ids_def)
qed

lemma status_of_messages [simp]: "status_of sid (db\<lparr>messages := ms\<rparr>) = status_of sid db"
  by (simp add: status_of_def get_session_def)

lemma status_of_update:
  assumes "\<And>s. s_id (f s) = s_id s" "\<And>s. s_run_status (f s) = s_run_status s"
  shows "status_of sid (fst (update_sessions P f db)) = status_of sid db"
  by (cases "get_session sid db") (simp_all add: status_of_def get_session_update assms)

lemma status_of_insert_message: "insert_message m db = Inr db' \<Longrightarrow> status_of sid db' = status_of sid db"
  by (auto simp: insert_message_def status_of_update split: if_splits)

lemma status_of_update_messages [simp]: "status_of sid (fst (update_messages P f db)) = status_of sid db"
  by (simp add: update_messages_def)

lemma status_of_delete_messages [simp]: "status_of sid (fst (delete_messages P db)) = status_of sid db"
  by (simp add: delete_messages_def Let_def)

lemma status_of_claim:
  assumes "sid \<in> set (session_ids db)"
  shows "status_of sid (fst (claim_session_running sid db)) = Some (Some ''running'') \<and> snd (claim_session_running sid db)"
proof -
  obtain s where s: "get_session sid db = Some s" using get_session_known[OF assms] by blast
  have n: "0 < snd (update_sessions (\<lambda>s. s_id s = sid) f db)" for f
    using get_session_id[OF s] by (auto simp: update_sessions_def filter_empty_conv)
  show ?thesis
    using s n get_session_id[OF s] by (simp add: claim_session_running_def status_of_def get_session_update Let_def split_beta)
qed

lemma status_of_set:
  assumes "status_of sid db = Some (Some ''running'')"
  shows "status_of sid (set_session_run_status sid st db) = Some (Some st)"
proof -
  obtain s where s: "get_session sid db = Some s" "s_run_status s = Some ''running''" using assms by (auto simp: status_of_def)
  then show ?thesis using get_session_id[OF s(1)] by (simp add: set_session_run_status_def status_of_def get_session_update)
qed

lemma status_of_mark: "status_of sid db = Some (Some ''running'') \<Longrightarrow> \<exists>db' n.
    mark_session_run_status_if_running sid ''failed'' db = (db', Suc n) \<and> status_of sid db' = Some (Some ''failed'')"
proof -
  assume a: "status_of sid db = Some (Some ''running'')"
  then obtain s where s: "get_session sid db = Some s" "s_run_status s = Some ''running''" by (auto simp: status_of_def)
  let ?r = "mark_session_run_status_if_running sid ''failed'' db"
  have "status_of sid (fst ?r) = Some (Some ''failed'')"
    using s get_session_id[OF s(1)] by (simp add: mark_session_run_status_if_running_def status_of_def get_session_update)
  moreover have "snd ?r \<noteq> 0"
    using s get_session_id[OF s(1)] by (auto simp: mark_session_run_status_if_running_def update_sessions_def filter_empty_conv)
  ultimately show ?thesis by (cases ?r; cases "snd ?r") auto
qed

lemma status_of_mark_other:
  assumes "status_of sid db = Some (Some st)" "st \<noteq> ''running'' \<or> sid' \<noteq> sid"
  shows "status_of sid (fst (mark_session_run_status_if_running sid' new db)) = Some (Some st)"
proof -
  obtain s where s: "get_session sid db = Some s" "s_run_status s = Some st" using assms(1) by (auto simp: status_of_def)
  then show ?thesis
    using get_session_id[OF s(1)] assms(2) by (auto simp: mark_session_run_status_if_running_def status_of_def get_session_update)
qed

definition reliable :: "run_env \<Rightarrow> bool" where
  "reliable env \<longleftrightarrow> (\<forall>n. \<not> re_fails env n)"

lemma reliable_calls [simp]: "reliable env \<Longrightarrow> \<not> call_fails env w"
  by (simp add: reliable_def call_fails_def)

lemma mark_none: "snd (mark_session_run_status_if_running sid st db) = 0 \<Longrightarrow> fst (mark_session_run_status_if_running sid st db) = db"
proof -
  have "map (\<lambda>s. if P s then f s else s) ss = ss" if "filter P ss = []" for P f and ss :: "session_row list"
    using that by (induction ss) (auto split: if_splits)
  then show "snd (mark_session_run_status_if_running sid st db) = 0 \<Longrightarrow> ?thesis"
    by (simp add: mark_session_run_status_if_running_def update_sessions_def)
qed

lemma mark_failed_db: "reliable env \<Longrightarrow>
    w_db (mark_failed env sid ag rec w) = fst (mark_session_run_status_if_running sid ''failed'' (w_db w))"
  using mark_none[of sid "''failed''" "w_db w"] by (simp add: mark_failed_def Let_def split_beta split: option.splits)

lemma persist_row_status: "status_of sid (w_db (persist_row env k s row w)) = status_of sid (w_db w)"
  by (induction k arbitrary: w)
    (auto simp: Let_def save_message_ex_with_id_def dest: status_of_insert_message split: sum.splits if_splits)

lemma gather_failure_db: "w_db (gather_failure env sid ag k r p m w) = w_db w"
  by (simp add: gather_failure_def Let_def split_beta split: option.splits)

text \<open>The session has a status of \<open>S\<close>, or it is running and the fallback that marks it failed is pending.\<close>

definition settled :: "bytes set \<Rightarrow> uuid \<Rightarrow> world \<Rightarrow> bool" where
  "settled S sid w \<longleftrightarrow> (\<exists>st. status_of sid (w_db w) = Some (Some st) \<and>
     (st \<in> S \<or> st = ''running'' \<and> ''failed'' \<in> S \<and> (\<exists>ag rc. MarkFailed sid ag rc \<in> set (w_tasks w))))"

lemma run_task_status:
  assumes "reliable env" "\<And>ag rc. t \<noteq> MarkFailed sid ag rc"
  shows "status_of sid (w_db (run_task env t w)) = status_of sid (w_db w)"
proof (cases t)
  case (MarkFailed sid' ag rc)
  then have n: "sid' \<noteq> sid" using assms(2) by blast
  have "get_session sid (fst (mark_session_run_status_if_running sid' st db)) = get_session sid db" for st db
    using n get_session_id[of sid db]
    by (cases "get_session sid db") (simp_all add: mark_session_run_status_if_running_def get_session_update)
  then show ?thesis using MarkFailed assms(1) by (simp add: run_task_def mark_failed_db status_of_def)
qed (simp_all add: run_task_def persist_row_status gather_failure_db)

lemma task_step_settled:
  assumes "reliable env" "''running'' \<notin> S" "task_step env w w'" "settled S sid w"
  shows "settled S sid w'"
proof -
  obtain before t after where t: "w_tasks w = before @ t # after" "w' = run_task env t (w\<lparr>w_tasks := before @ after\<rparr>)"
    using assms(3) by (auto elim: task_step.cases)
  let ?v = "w\<lparr>w_tasks := before @ after\<rparr>"
  from assms(4) obtain st where st: "status_of sid (w_db w) = Some (Some st)"
    "st \<in> S \<or> st = ''running'' \<and> ''failed'' \<in> S \<and> (\<exists>ag rc. MarkFailed sid ag rc \<in> set (w_tasks w))" by (auto simp: settled_def)
  show ?thesis
  proof (cases "\<exists>ag rc. t = MarkFailed sid ag rc")
    case True
    then obtain ag rc where "t = MarkFailed sid ag rc" by blast
    then have db: "w_db w' = fst (mark_session_run_status_if_running sid ''failed'' (w_db w))"
      using assms(1) by (simp add: t(2) run_task_def mark_failed_db)
    show ?thesis
    proof (cases "st = ''running''")
      case True
      obtain db' n where "mark_session_run_status_if_running sid ''failed'' (w_db w) = (db', Suc n)" "status_of sid db' = Some (Some ''failed'')"
        using status_of_mark st(1) True by blast
      then have "status_of sid (w_db w') = Some (Some ''failed'')" using db by simp
      moreover have "''failed'' \<in> S" using st(2) True assms(2) by blast
      ultimately show ?thesis unfolding settled_def by blast
    next
      case False
      have "status_of sid (w_db w') = Some (Some st)" using status_of_mark_other[OF st(1) disjI1[OF False]] db by simp
      moreover have "st \<in> S" using st(2) False by blast
      ultimately show ?thesis unfolding settled_def by blast
    qed
  next
    case False
    then have "status_of sid (w_db w') = status_of sid (w_db w)" using run_task_status[OF assms(1), of t sid ?v] by (simp add: t(2))
    moreover have "MarkFailed sid ag rc \<in> set (w_tasks w')" if "MarkFailed sid ag rc \<in> set (w_tasks w)" for ag rc
    proof -
      have "MarkFailed sid ag rc \<noteq> t" using False by metis
      then have "MarkFailed sid ag rc \<in> set (before @ after)" using that t(1) by simp
      then show ?thesis using run_task_frame[of env t ?v] by (simp add: t(2))
    qed
    ultimately show ?thesis using st unfolding settled_def by metis
  qed
qed

lemma task_steps_settled:
  assumes "reliable env" "''running'' \<notin> S" "settled S sid w" "(task_step env)\<^sup>*\<^sup>* w w'"
  shows "settled S sid w'"
  using assms(4,3) by (induction rule: rtranclp_induct) (auto intro: task_step_settled[OF assms(1,2)])

definition running :: "uuid \<Rightarrow> world \<Rightarrow> bool" where
  "running sid w \<longleftrightarrow> status_of sid (w_db w) = Some (Some ''running'')"

definition exit_statuses :: "'a run_exit \<Rightarrow> bytes set" where
  "exit_statuses r = (case r of RunOk _ \<Rightarrow> {''done'', ''failed'', ''interrupted''} | _ \<Rightarrow> {''failed''})"

lemma save_reply_status: "status_of sid (w_db (save_reply env s t th p w)) = status_of sid (w_db w)"
  by (auto simp: save_reply_def save_message_ex_def Let_def dest: status_of_insert_message split: sum.splits)

lemma settle_status:
  assumes "reliable env" "running (lg_session_id g) w"
  shows "status_of (lg_session_id g) (w_db (snd (settle env st oc p g w))) = Some (Some st)"
    "lg_outcome (fst (settle env st oc p g w)) = oc"
  using assms status_of_set[of "lg_session_id g" "w_db w" st] by (simp_all add: settle_def Let_def running_def)

definition final_status :: "finalize_outcome \<Rightarrow> bytes" where
  "final_status oc = (case oc of FDone _ _ \<Rightarrow> ''done'' | FFailed _ _ \<Rightarrow> ''failed'' | FInterrupted _ _ \<Rightarrow> ''interrupted'')"

lemma finalize_status:
  assumes "reliable env" "running (lg_session_id g) w" "finalize env sid n p oc g w = (g1, w1, t)"
  shows "status_of (lg_session_id g) (w_db w1) = Some (Some (final_status oc))" "lg_outcome g1 \<noteq> ORunning"
proof -
  have r: "running (lg_session_id g) (if x = [] then w else save_reply env s x th q w)" for s x th q
    using assms(2) by (simp add: running_def save_reply_status)
  have "status_of (lg_session_id g) (w_db w1) = Some (Some (final_status oc)) \<and> lg_outcome g1 \<noteq> ORunning"
    using assms(3) settle_status[OF assms(1,2)] settle_status[OF assms(1) r]
    by (cases oc; auto simp: finalize_defs final_status_def save_reply_status)
  then show "status_of (lg_session_id g) (w_db w1) = Some (Some (final_status oc))" "lg_outcome g1 \<noteq> ORunning" by simp_all
qed

lemma spawn_all_db [simp]: "w_db (foldl (\<lambda>v x. spawn (f x) v) v xs) = w_db v"
  by (induction xs arbitrary: v) simp_all

lemma absorb_loop_db [simp]: "w_db (absorb_loop env sid st w) = w_db w"
proof -
  have "w_db (foldl (\<lambda>v (t, p). fst (try_log env sid t (Some p) v)) v xs) = w_db v" for v xs
    by (induction xs arbitrary: v) (simp_all add: split_beta)
  then show ?thesis by (simp add: absorb_loop_def Let_def)
qed

lemma maybe_trim_status: "status_of sid (w_db (maybe_trim_session env s w)) = status_of sid (w_db w)"
  by (simp add: maybe_trim_session_def trim_session_messages_def Let_def split: option.splits)

lemma drop_guards_settled:
  "running sid w \<Longrightarrow> lg_outcome g = ORunning \<Longrightarrow> lg_session_id g = sid \<Longrightarrow> settled {''failed''} sid (drop_guards env pg g w)"
  by (auto simp: settled_def running_def drop_guards_def guard_drop_def)

lemma guard_drop_done [simp]: "lg_outcome g \<noteq> ORunning \<Longrightarrow> guard_drop g w = w"
  by (simp add: guard_drop_def)

lemma run_pipeline_settled:
  assumes "reliable env" "running sid w" "bo_session_id b = sid" "lg_session_id (bo_lifecycle_guard b) = sid"
    and "lg_outcome (bo_lifecycle_guard b) = ORunning" "run_pipeline env lenv trims b w = (w', r)"
  shows "settled (exit_statuses r) sid w'"
proof (cases "execute lenv (bo_messages b) (bo_detector b) (bo_user_message_id b)")
  case (TReturn oc st)
  let ?oc = "execute_status_to_finalize (eo_status oc) (eo_final_text oc) (eo_thinking_json oc)"
  let ?w1 = "processing_guard_drop env (bo_processing_guard b) (absorb_loop env sid st w)"
  obtain g1 w2 t where f: "finalize env sid (eo_messages_len oc) (Some (eo_parent oc)) ?oc (bo_lifecycle_guard b) ?w1 = (g1, w2, t)"
    using prod_cases3 by blast
  have "running (lg_session_id (bo_lifecycle_guard b)) ?w1" using assms(2,4) by (simp add: running_def)
  note fs = finalize_status[OF assms(1) this f]
  have w': "w' = (if trims then maybe_trim_session env sid w2 else w2)" "r = RunOk t"
    using assms TReturn f fs(2) by (simp_all add: run_pipeline_def Let_def)
  have "status_of sid (w_db w') = Some (Some (final_status ?oc))" using fs(1) assms(4) by (simp add: w'(1) maybe_trim_status)
  moreover have "final_status ?oc \<in> exit_statuses r" by (simp add: w'(2) exit_statuses_def final_status_def split: finalize_outcome.splits)
  ultimately show ?thesis unfolding settled_def by blast
qed (use assms drop_guards_settled in \<open>auto simp: run_pipeline_def Let_def exit_statuses_def running_def\<close>)

lemma run_command_settled:
  assumes "reliable env" "running sid w" "lg_session_id (bo_lifecycle_guard b) = sid" "run_command env evs b out w = (w', r)"
  shows "settled (exit_statuses r) sid w'"
proof -
  let ?w1 = "foldl (\<lambda>v ev. emit_event (Stream ev) v) w evs"
  have db: "w_db (foldl (\<lambda>v ev. emit_event (Stream ev) v) v xs) = w_db v" for v xs by (induction xs arbitrary: v) simp_all
  obtain g1 w2 t where f: "finalize env (bo_session_id b) (length (bo_messages b)) (Some (bo_user_message_id b))
      (FDone out None) (bo_lifecycle_guard b) ?w1 = (g1, w2, t)" using prod_cases3 by blast
  have "running (lg_session_id (bo_lifecycle_guard b)) ?w1" using assms(2,3) db by (simp add: running_def)
  note fs = finalize_status[OF assms(1) this f]
  have "w_db w' = w_db w2" "r = RunOk t" using assms(4) f fs(2) by (auto simp: run_command_def Let_def drop_guards_def)
  then show ?thesis using fs(1) assms(3) by (simp add: settled_def exit_statuses_def final_status_def)
qed

lemma begin_session_running:
  assumes "reliable env" "sid \<in> set (session_ids (w_db w))"
  obtains g pg w' where "begin_session env sid msg w = Some (g, pg, w')" "running sid w'"
    "lg_session_id g = sid" "lg_outcome g = ORunning"
proof -
  obtain db' where c: "claim_session_running sid (w_db w) = (db', True)" "status_of sid db' = Some (Some ''running'')"
    using status_of_claim[OF assms(2)] by (cases "claim_session_running sid (w_db w)") auto
  then have cl: "claim env sid w = Some ((next_call w)\<lparr>w_db := db'\<rparr>)" using assms(1) by (simp add: claim_def Let_def)
  have l: "w_db (log_wal_running_with_retry env sid v) = w_db v" for v
    using try_log_simps[of env sid "''running''" None v]
    by (cases "try_log env sid ''running'' None v") (auto simp: log_wal_running_with_retry_def split: bool.splits)
  have "status_of sid (w_db (cleanup_streaming env sid v)) = status_of sid (w_db v)" for v
    by (simp add: cleanup_streaming_def cleanup_session_streaming_messages_def Let_def)
  then show thesis
    using that c(2) cl l by (auto simp: begin_session_def Let_def processing_guard_new_def running_def with_agent_def guard_new_def)
qed

lemma save_user_message_status:
  "save_user_message env s msg t w = (w', r) \<Longrightarrow> status_of sid (w_db w') = status_of sid (w_db w)"
  by (auto simp: save_user_message_def save_message_ex_def query_def Let_def dest: status_of_insert_message
      split: option.splits if_splits sum.splits)

lemma bootstrap_running:
  assumes "reliable env" "bootstrap env ctx w = (w', r)"
    and "re_build_context env (bc_msg ctx) (bc_use_history ctx) (bc_resume_session_id ctx) (bc_force_new_session ctx) (w_db w) = (db1, Inr (sid, h))"
    and "sid \<in> set (session_ids db1)"
  shows "case r of Inl _ \<Rightarrow> settled {''failed''} sid w'
    | Inr b \<Rightarrow> running sid w' \<and> bo_session_id b = sid \<and> lg_session_id (bo_lifecycle_guard b) = sid \<and> lg_outcome (bo_lifecycle_guard b) = ORunning"
proof -
  let ?w0 = "w\<lparr>w_db := db1\<rparr>"
  have "sid \<in> set (session_ids (w_db ?w0))" using assms(4) by simp
  from begin_session_running[OF assms(1) this, of "bc_msg ctx"] obtain g pg w1 where
    b: "begin_session env sid (bc_msg ctx) ?w0 = Some (g, pg, w1)" "running sid w1" and g: "lg_session_id g = sid" "lg_outcome g = ORunning"
    by blast
  let ?enr = "re_enrich env (unwrap_or (im_text (bc_msg ctx)) []) (im_attachments (bc_msg ctx))"
  obtain w2 u where u: "save_user_message env sid (bc_msg ctx) ?enr w1 = (w2, u)" by fastforce
  define w3 where "w3 = snd (query env (\<lambda>w. Some (load_tool_events sid (w_wal w))) w2)"
  have e: "running sid w2" "running sid w3" using save_user_message_status[OF u] b(2) by (simp_all add: w3_def running_def)
  show ?thesis
  proof (cases u)
    case None
    then show ?thesis using assms(2,3) b(1) u drop_guards_settled[OF e(1) g(2,1)] by (auto simp: bootstrap_def)
  next
    case (Some uid)
    then show ?thesis
      using assms(2,3) b(1) u e g drop_guards_settled[OF e(2) g(2,1)]
      by (auto simp: bootstrap_def split_beta w3_def[symmetric] Let_def split: option.splits sum.splits)
  qed
qed

text \<open>C1: every handled message ends its session. If no database call fails, then once the background tasks
  have run, in any order, the session that \<open>handle_sse\<close> claimed is no longer running: its status is \<open>done\<close>,
  \<open>failed\<close> or \<open>interrupted\<close> when the handler returned a result, and \<open>failed\<close> when it returned an error or
  panicked - also on the early returns that never reach \<open>finalize\<close>.\<close>

theorem handled_session_settles:
  assumes "\<forall>n. \<not> re_fails env n" "fire (re_hooks env) BeforeMessage = hook_action.Continue"
    and "re_build_context env msg True resume force (w_db w) = (db1, Inr (sid, h))" "sid \<in> set (session_ids db1)"
    and "handle_sse env msg resume force w = (w', r)" "(task_step env)\<^sup>*\<^sup>* w' w''" "w_tasks w'' = []"
  shows "\<exists>st. status_of sid (w_db w'') = Some (Some st)
    \<and> st \<in> (case r of RunOk _ \<Rightarrow> {''done'', ''failed'', ''interrupted''} | _ \<Rightarrow> {''failed''})"
proof -
  have rel: "reliable env" using assms(1) by (simp add: reliable_def)
  let ?w1 = "w\<lparr>w_requests := fst (register_request (w_requests w)), w_sse_tx := True\<rparr>"
  let ?ctx = "\<lparr>bc_msg = msg, bc_resume_session_id = resume, bc_force_new_session = force, bc_use_history = True\<rparr>"
  obtain w2 q where i: "handle_sse_inner env msg resume force ?w1 = (w2, q)" by fastforce
  obtain w3 b where b: "bootstrap env ?ctx ?w1 = (w3, b)" by fastforce
  note br = bootstrap_running[OF rel b, of db1 sid h]
  have "settled (exit_statuses q) sid w2"
  proof (cases b)
    case (Inl e)
    then show ?thesis using br assms(3,4) i b by (auto simp: handle_sse_inner_def exit_statuses_def)
  next
    case (Inr o1)
    let ?w4 = "emit_event (Stream (SessionId (re_uuid_str env (bo_session_id o1)))) w3"
    have o1: "running sid ?w4" "bo_session_id o1 = sid" "lg_session_id (bo_lifecycle_guard o1) = sid"
      "lg_outcome (bo_lifecycle_guard o1) = ORunning" using br assms(3,4) Inr by (simp_all add: running_def)
    obtain w5 q5 where q5: "(case bo_command_output o1 of
          Some out \<Rightarrow> run_command env [MessageStart (re_msg_id env), TextDelta out, Finish ''command'' False] o1 out ?w4
        | None \<Rightarrow> run_pipeline env (re_loop env sid) True o1 ?w4) = (w5, q5)" by fastforce
    have "settled (exit_statuses q5) sid w5"
      using q5 run_command_settled[OF rel o1(1,3)] run_pipeline_settled[OF rel o1] by (auto split: option.splits)
    moreover have "w2 = w5" "exit_statuses q = exit_statuses q5"
      using i b Inr q5 o1(2) by (auto simp: handle_sse_inner_def exit_statuses_def Let_def split: run_exit.splits)
    ultimately show ?thesis by simp
  qed
  moreover have "w_db w' = w_db w2" "w_tasks w' = w_tasks w2" "r = q" using assms(2,5) i by (auto simp: handle_sse_def Let_def split: if_splits)
  ultimately have "settled (exit_statuses r) sid w'" by (simp add: settled_def)
  then have "settled (exit_statuses r) sid w''"
    by (rule task_steps_settled[OF rel _ _ assms(6), rotated]) (simp add: exit_statuses_def split: run_exit.splits)
  then show ?thesis using assms(7) by (simp add: settled_def exit_statuses_def)
qed

text \<open>the fallback of a dropped guard never overwrites a terminal status: on a session that is not running
  it changes neither the tables nor the log nor the failure rows.\<close>

theorem drop_fallback_respects_terminal:
  assumes "\<forall>s \<in> set (sessions (w_db w)). s_id s = sid \<longrightarrow> s_run_status s \<noteq> Some ''running''"
  shows "w_db (mark_failed env sid ag rc w) = w_db w \<and> w_wal (mark_failed env sid ag rc w) = w_wal w
    \<and> w_failures (mark_failed env sid ag rc w) = w_failures w"
proof -
  have "snd (mark_session_run_status_if_running sid ''failed'' (w_db w)) = 0"
    using assms by (auto simp: mark_session_run_status_if_running_def update_sessions_def filter_empty_conv)
  then show ?thesis by (simp add: mark_failed_def Let_def split_beta)
qed

section \<open>A sample message\<close>

lemma tasks_drain: "\<exists>w'. (task_step env)\<^sup>*\<^sup>* w w' \<and> w_tasks w' = []"
proof (induction "length (w_tasks w)" arbitrary: w)
  case (Suc n)
  then obtain t ts where t: "w_tasks w = t # ts" by (cases "w_tasks w") auto
  let ?w1 = "run_task env t (w\<lparr>w_tasks := ts\<rparr>)"
  have "task_step env w ?w1" using task_step.run[of w "[]" t ts env] t by simp
  moreover have "n = length (w_tasks ?w1)" using run_task_frame[of env t "w\<lparr>w_tasks := ts\<rparr>"] Suc(2) t by simp
  ultimately show ?case using Suc(1)[of ?w1] by (meson converse_rtranclp_into_rtranclp)
qed auto

definition run_session_row :: "bytes \<Rightarrow> session_row" where
  "run_session_row status = \<lparr>s_id = 7, s_agent_id = ''A'', s_user_id = ''u'', s_channel = ''ui'', s_started_at = 0, s_last_message_at = 0,
     s_title = None, s_metadata = None, s_run_status = Some status, s_activity_at = None, s_participants = [], s_retry_count = 0\<rparr>"

definition sample_world :: "bytes \<Rightarrow> world" where
  "sample_world status = \<lparr>w_db = \<lparr>sessions = [run_session_row status], messages = []\<rparr>, w_wal = [], w_failures = [], w_calls = 0,
     w_tasks = [], w_requests = \<lparr>active_requests = [], next_request_id = 0\<rparr>, w_sse_tx = False,
     w_approvals = \<lparr>rows = Map.empty, waiters = Map.empty, mail = (\<lambda>_. Silent), phase_of = Map.empty, notices = [], clock = 0\<rparr>,
     w_events = [], w_processing = [], w_ui = []\<rparr>"

definition sample_run :: run_env where
  "sample_run = \<lparr>re_fails = (\<lambda>_. False), re_error = (\<lambda>_. []), re_now = (\<lambda>n. n), re_fresh = (\<lambda>n. 1000 + n), re_uuid_str = (\<lambda>_. ''id''),
     re_agent = ''A'', re_provider = ''p'', re_model = ''m'', re_ui = True, re_tracker = True, re_hooks = [],
     re_loop_config = tool_loop_config_default, re_max_messages = None, re_build_context = (\<lambda>_ _ _ _ db. (db, Inr (7, []))),
     re_enrich = (\<lambda>t _. t), re_command = (\<lambda>_ _. None), re_compact = (\<lambda>ms _. ms), re_calls_value = (\<lambda>_. None),
     re_thinking_value = (\<lambda>_. None), re_msg_id = ''m1'', re_loop = (\<lambda>_. sample_loop)\<rparr>"

definition sample_msg :: incoming_message where
  "sample_msg = \<lparr>im_user_id = ''u'', im_context = JNull, im_text = Some ''hello'', im_attachments = [], im_agent_id = ''A'', im_channel = ''ui'',
     im_timestamp = [], im_formatting_prompt = None, im_tool_policy_override = None, im_leaf_message_id = None, im_user_message_id = None\<rparr>"

lemma sample_facts:
  "\<forall>n. \<not> re_fails sample_run n" "fire (re_hooks sample_run) BeforeMessage = hook_action.Continue"
  "re_build_context sample_run msg h rs fr (w_db w) = (w_db w, Inr (7, []))" "7 \<in> set (session_ids (w_db (sample_world st)))"
  "w_tasks (sample_world st) = []" "w_failures (sample_world st) = []"
  by (simp_all add: sample_run_def sample_world_def session_ids_def run_session_row_def)

theorem handled_session_settles_witness:
  "\<exists>w' r w'' st. handle_sse sample_run sample_msg None False (sample_world ''done'') = (w', r)
    \<and> (task_step sample_run)\<^sup>*\<^sup>* w' w'' \<and> status_of 7 (w_db w'') = Some (Some st) \<and> st \<noteq> ''running''"
proof -
  obtain w' r where h: "handle_sse sample_run sample_msg None False (sample_world ''done'') = (w', r)" by fastforce
  obtain w'' where d: "(task_step sample_run)\<^sup>*\<^sup>* w' w''" "w_tasks w'' = []" using tasks_drain by blast
  obtain st where st: "status_of 7 (w_db w'') = Some (Some st)"
    "st \<in> (case r of RunOk _ \<Rightarrow> {''done'', ''failed'', ''interrupted''} | _ \<Rightarrow> {''failed''})"
    using handled_session_settles[OF sample_facts(1-4) h d] by blast
  have "st \<noteq> ''running''" using st(2) by (cases r) auto
  then show ?thesis using h d(1) st(1) by (intro exI conjI)
qed

theorem at_most_one_failure_row_witness:
  "\<exists>w' w''. handled sample_run sample_msg (sample_world ''done'') w' \<and> (task_step sample_run)\<^sup>*\<^sup>* w' w'' \<and> length (w_failures w'') \<le> 1"
proof -
  let ?w' = "fst (handle_with_status sample_run sample_msg (sample_world ''done''))"
  have h: "handled sample_run sample_msg (sample_world ''done'') ?w'" by (simp add: handled_def)
  obtain w'' where d: "(task_step sample_run)\<^sup>*\<^sup>* ?w' w''" using tasks_drain by blast
  show ?thesis using at_most_one_failure_row[OF h d] sample_facts(5,6) h d by auto
qed

theorem requests_never_drained_witness:
  "\<exists>w' r. handle_sse sample_run sample_msg None False (sample_world ''done'') = (w', r) \<and> active_request_count (w_requests w') = 1"
proof -
  obtain w' r where h: "handle_sse sample_run sample_msg None False (sample_world ''done'') = (w', r)" by fastforce
  show ?thesis using requests_never_drained[OF sample_facts(2) h] h by (simp add: sample_world_def active_request_count_def)
qed

theorem drop_fallback_respects_terminal_witness:
  "w_db (mark_failed sample_run 7 (Some ''A'') False (sample_world ''interrupted'')) = w_db (sample_world ''interrupted'')"
proof -
  have "\<forall>s \<in> set (sessions (w_db (sample_world ''interrupted''))). s_id s = 7 \<longrightarrow> s_run_status s \<noteq> Some ''running''"
    by (simp add: sample_world_def run_session_row_def)
  then show ?thesis using drop_fallback_respects_terminal by blast
qed

end
