(* ===== verification/Ssrf.thy ===== *)
theory Ssrf
  imports Hyde_Prelude "HOL-Library.Word"
begin

text \<open>
  \<open>net/ssrf.rs\<close>: the guard against server-side request forgery. An IPv4 address is its four
  octets, an IPv6 address its eight 16-bit segments. The URL parser and the DNS lookup are code
  outside the repository: \<open>parse_url\<close> and \<open>lookup\<close> are arguments, as is the parser of literal
  addresses \<open>parse_ip\<close>. The guard is compared with the CIDR blocks its documentation lists.
\<close>

unbundle bit_operations_syntax

section \<open>Addresses\<close>

datatype ip_addr =
    V4 "8 word" "8 word" "8 word" "8 word"
  | V6 "16 word" "16 word" "16 word" "16 word" "16 word" "16 word" "16 word" "16 word"

definition private_v4 :: "8 word \<Rightarrow> 8 word \<Rightarrow> 8 word \<Rightarrow> 8 word \<Rightarrow> bool" where
  "private_v4 a b c d \<longleftrightarrow>
     a = 127
     \<or> (a = 10 \<or> (a = 172 \<and> 16 \<le> b \<and> b \<le> 31) \<or> (a = 192 \<and> b = 168))
     \<or> (a = 169 \<and> b = 254)
     \<or> (a = 255 \<and> b = 255 \<and> c = 255 \<and> d = 255)
     \<or> (224 \<le> a \<and> a \<le> 239)
     \<or> (a = 0 \<and> b = 0 \<and> c = 0 \<and> d = 0)
     \<or> (a = 100 \<and> b AND 0xC0 = 64)"

text \<open>\<open>Ipv6Addr::to_ipv4_mapped\<close>: the address \<open>::ffff:a.b.c.d\<close>.\<close>

definition to_ipv4_mapped :: "ip_addr \<Rightarrow> ip_addr option" where
  "to_ipv4_mapped ip = (case ip of
       V6 s0 s1 s2 s3 s4 s5 s6 s7 \<Rightarrow>
         if s0 = 0 \<and> s1 = 0 \<and> s2 = 0 \<and> s3 = 0 \<and> s4 = 0 \<and> s5 = 0xFFFF
         then Some (V4 (ucast (drop_bit 8 s6)) (ucast s6) (ucast (drop_bit 8 s7)) (ucast s7))
         else None
     | V4 _ _ _ _ \<Rightarrow> None)"

definition private_v6 :: "ip_addr \<Rightarrow> bool" where
  "private_v6 ip = (case ip of
       V6 s0 s1 s2 s3 s4 s5 s6 s7 \<Rightarrow>
         (s0 = 0 \<and> s1 = 0 \<and> s2 = 0 \<and> s3 = 0 \<and> s4 = 0 \<and> s5 = 0 \<and> s6 = 0 \<and> s7 = 1)
         \<or> (s0 = 0 \<and> s1 = 0 \<and> s2 = 0 \<and> s3 = 0 \<and> s4 = 0 \<and> s5 = 0 \<and> s6 = 0 \<and> s7 = 0)
         \<or> s0 AND 0xFF00 = 0xFF00
         \<or> s0 AND 0xFE00 = 0xFC00
         \<or> s0 AND 0xFFC0 = 0xFE80
         \<or> (s0 = 0x2001 \<and> s1 = 0)
         \<or> s0 = 0x2002
     | V4 _ _ _ _ \<Rightarrow> False)"

definition is_private_ip :: "ip_addr \<Rightarrow> bool" where
  "is_private_ip ip \<longleftrightarrow> (case ip of
       V4 a b c d \<Rightarrow> private_v4 a b c d
     | V6 _ _ _ _ _ _ _ _ \<Rightarrow>
         (case to_ipv4_mapped ip of
            Some (V4 a b c d) \<Rightarrow> private_v4 a b c d
          | _ \<Rightarrow> private_v6 ip))"

section \<open>URL checks\<close>

datatype url_host = Domain bytes | HostV4 ip_addr | HostV6 ip_addr

text \<open>What the code reads of a parsed URL.\<close>

record parsed_url =
  url_scheme :: bytes
  url_host_str :: "bytes option"
  url_host_of :: "url_host option"
  url_port_or_known_default :: "nat option"

datatype ssrf_error =
    InvalidUrl bytes
  | BlockedScheme bytes
  | InternalBlocked bytes
  | PrivateIpResolved

definition INTERNAL_BLOCKLIST :: "bytes list" where
  "INTERNAL_BLOCKLIST =
     [''localhost:9011'', ''toolgate:9011'', ''localhost:9020'', ''browser-renderer:9020'',
      ''localhost:8080'', ''searxng:8080'', ''localhost:18789'', ''localhost:5432'',
      ''postgres:5432'', ''localhost:2375'']"

type_synonym url_parser = "bytes \<Rightarrow> (bytes, parsed_url) result"

definition url_authority :: "bytes \<Rightarrow> parsed_url \<Rightarrow> bytes" where
  "url_authority host parsed = host @ '':'' @ show_nat (unwrap_or (url_port_or_known_default parsed) 80)"

definition is_internal_endpoint :: "url_parser \<Rightarrow> bytes \<Rightarrow> bool" where
  "is_internal_endpoint parse_url url = (case parse_url url of
       Inl _ \<Rightarrow> False
     | Inr parsed \<Rightarrow>
         url_authority (unwrap_or (url_host_str parsed) []) parsed \<in> set INTERNAL_BLOCKLIST)"

definition url_literal_ip :: "parsed_url \<Rightarrow> ip_addr option" where
  "url_literal_ip parsed = (case url_host_of parsed of
       Some (HostV4 v4) \<Rightarrow> Some v4
     | Some (HostV6 v6) \<Rightarrow> Some v6
     | _ \<Rightarrow> None)"

definition validate_url_scheme :: "url_parser \<Rightarrow> bytes \<Rightarrow> (ssrf_error, unit) result" where
  "validate_url_scheme parse_url url = (case parse_url url of
       Inl e \<Rightarrow> Inl (InvalidUrl e)
     | Inr parsed \<Rightarrow>
         if url_scheme parsed \<noteq> ''http'' \<and> url_scheme parsed \<noteq> ''https''
         then Inl (BlockedScheme (url_scheme parsed))
         else case url_host_str parsed of
           None \<Rightarrow> Inl (InvalidUrl ''URL has no host'')
         | Some host \<Rightarrow>
             let authority = url_authority host parsed
             in if authority \<in> set INTERNAL_BLOCKLIST then Inl (InternalBlocked authority)
                else case url_literal_ip parsed of
                  Some ip \<Rightarrow>
                    if is_private_ip ip
                    then Inl (InternalBlocked (''URL targets private IP address ('' @ host @ '')''))
                    else Inr ()
                | None \<Rightarrow> Inr ())"

section \<open>DNS\<close>

text \<open>A lookup gives an error text or the list of addresses.\<close>

type_synonym dns = "bytes \<Rightarrow> (bytes, ip_addr list) result"

definition resolve :: "dns \<Rightarrow> bytes \<Rightarrow> (bytes, ip_addr list) result" where
  "resolve lookup name = (case lookup (name @ '':0'') of
       Inl e \<Rightarrow> Inl e
     | Inr answers \<Rightarrow>
         let addrs = filter (\<lambda>a. \<not> is_private_ip a) answers
         in if addrs = []
            then Inl (''SSRF blocked: '' @ tick @ name @ tick @ '' resolves only to private/internal IPs'')
            else Inr addrs)"

fun preflight_scan :: "bool \<Rightarrow> ip_addr list \<Rightarrow> (ssrf_error, unit) result" where
  "preflight_scan saw_any [] = (if saw_any then Inr () else Inl PrivateIpResolved)"
| "preflight_scan saw_any (a # addrs) =
     (if is_private_ip a then Inl PrivateIpResolved else preflight_scan True addrs)"

definition preflight_resolve ::
  "(bytes \<Rightarrow> ip_addr option) \<Rightarrow> dns \<Rightarrow> bytes \<Rightarrow> (ssrf_error, unit) result" where
  "preflight_resolve parse_ip lookup host = (case parse_ip host of
       Some ip \<Rightarrow> if is_private_ip ip then Inl PrivateIpResolved else Inr ()
     | None \<Rightarrow> (case lookup (host @ '':0'') of
           Inr addrs \<Rightarrow> preflight_scan False addrs
         | Inl _ \<Rightarrow> Inl PrivateIpResolved))"

section \<open>The documented blocks\<close>

text \<open>An address as a number, and the CIDR blocks listed in the documentation of the module:
  network number and prefix length.\<close>

definition v4_number :: "8 word \<Rightarrow> 8 word \<Rightarrow> 8 word \<Rightarrow> 8 word \<Rightarrow> nat" where
  "v4_number a b c d = ((unat a * 256 + unat b) * 256 + unat c) * 256 + unat d"

definition in_cidr :: "nat \<Rightarrow> nat \<Rightarrow> nat \<times> nat \<Rightarrow> bool" where
  "in_cidr width n block \<longleftrightarrow>
     n div 2 ^ (width - snd block) = fst block div 2 ^ (width - snd block)"

definition documented_v4_blocks :: "(nat \<times> nat) list" where
  "documented_v4_blocks =
     [(0x0A000000, 8), (0xAC100000, 12), (0xC0A80000, 16), (0x7F000000, 8), (0xA9FE0000, 16),
      (0x64400000, 10), (0xE0000000, 4), (0xFFFFFFFF, 32), (0, 32)]"

text \<open>The blocks of IPv6 as prefixes of the first two segments, with the two single addresses.\<close>

definition documented_v6_blocks :: "(nat \<times> nat) list" where
  "documented_v6_blocks = [(0xFC000000, 7), (0xFE800000, 10), (0x20010000, 32), (0x20020000, 16), (0xFF000000, 8)]"

definition v6_head :: "16 word \<Rightarrow> 16 word \<Rightarrow> nat" where
  "v6_head s0 s1 = unat s0 * 65536 + unat s1"

text \<open>The private set as documented: membership in a block, recursing into mapped addresses.\<close>

definition documented_private :: "ip_addr \<Rightarrow> bool" where
  "documented_private ip \<longleftrightarrow> (case ip of
       V4 a b c d \<Rightarrow> \<exists>blk \<in> set documented_v4_blocks. in_cidr 32 (v4_number a b c d) blk
     | V6 s0 s1 s2 s3 s4 s5 s6 s7 \<Rightarrow>
         (case to_ipv4_mapped ip of
            Some (V4 a b c d) \<Rightarrow> \<exists>blk \<in> set documented_v4_blocks. in_cidr 32 (v4_number a b c d) blk
          | _ \<Rightarrow> ip \<in> {V6 0 0 0 0 0 0 0 1, V6 0 0 0 0 0 0 0 0}
               \<or> (\<exists>blk \<in> set documented_v6_blocks. in_cidr 32 (v6_head s0 s1) blk)))"

section \<open>Correctness\<close>

lemma and_high_bits:
  fixes w :: "'a::len word"
  shows "w AND NOT (mask n) = push_bit n (drop_bit n w)"
  by (rule bit_word_eqI) (auto simp: bit_simps)

lemma and_high_bits_eq_iff:
  fixes w :: "'a::len word"
  shows "w AND NOT (mask n) = push_bit n v \<and> drop_bit n (push_bit n v) = v \<longleftrightarrow>
         drop_bit n w = v \<and> drop_bit n (push_bit n v) = v"
proof -
  have "drop_bit n (push_bit n (drop_bit n w)) = drop_bit n w"
    by (rule bit_word_eqI) (auto simp: bit_simps dest: bit_imp_le_length)
  then show ?thesis by (metis and_high_bits)
qed

lemma and_mask_iffs:
  "(b :: 8 word) AND 0xC0 = 64 \<longleftrightarrow> unat b div 64 = 1"
  "(s :: 16 word) AND 0xFF00 = 0xFF00 \<longleftrightarrow> unat s div 256 = 0xFF"
  "s AND 0xFE00 = 0xFC00 \<longleftrightarrow> unat s div 512 = 0x7E"
  "s AND 0xFFC0 = 0xFE80 \<longleftrightarrow> unat s div 64 = 0x3FA"
proof -
  have *: "unat (drop_bit n w) = unat w div 2 ^ n" for n and w :: "'a::len word"
    by (simp only: unat_drop_bit_eq drop_bit_nat_def)
  have m: "NOT (mask 6) = (0xC0 :: 8 word)" "NOT (mask 8) = (0xFF00 :: 16 word)"
    "NOT (mask 9) = (0xFE00 :: 16 word)" "NOT (mask 6) = (0xFFC0 :: 16 word)"
    by code_simp+
  show "(b :: 8 word) AND 0xC0 = 64 \<longleftrightarrow> unat b div 64 = 1"
    using and_high_bits_eq_iff [of b 6 1, unfolded m] * [of 6 b]
    by (simp add: word_unat_eq_iff)
  show "(s :: 16 word) AND 0xFF00 = 0xFF00 \<longleftrightarrow> unat s div 256 = 0xFF"
    using and_high_bits_eq_iff [of s 8 255, unfolded m] * [of 8 s]
    by (simp add: word_unat_eq_iff)
  show "s AND 0xFE00 = 0xFC00 \<longleftrightarrow> unat s div 512 = 0x7E"
    using and_high_bits_eq_iff [of s 9 126, unfolded m] * [of 9 s]
    by (simp add: word_unat_eq_iff)
  show "s AND 0xFFC0 = 0xFE80 \<longleftrightarrow> unat s div 64 = 0x3FA"
    using and_high_bits_eq_iff [of s 6 1018, unfolded m] * [of 6 s]
    by (simp add: word_unat_eq_iff)
qed

lemma unat_octet [simp]: "unat (a :: 8 word) < 256"
  using unsigned_less [of a] by simp

lemma unat_segment [simp]: "unat (s :: 16 word) < 65536"
  using unsigned_less [of s] by simp

text \<open>Prefixes of a number written in two digits of base \<open>m\<close>.\<close>

lemma div_high_digit: "(b :: nat) < m \<Longrightarrow> (a * m + b) div m = a"
  by simp

lemma in_cidr_v4:
  fixes a b c d :: "8 word"
  defines "n \<equiv> v4_number a b c d"
  shows "n div 2 ^ 24 = unat a" and "n div 2 ^ 16 = unat a * 256 + unat b"
    and "n div 2 ^ 20 = unat a * 16 + unat b div 16"
    and "n div 2 ^ 22 = unat a * 4 + unat b div 64"
    and "n div 2 ^ 28 = unat a div 16"
proof -
  have bounds: "unat a < 256" "unat b < 256" "unat c < 256" "unat d < 256" by simp_all
  have "n = (unat a * 256 + unat b) * 65536 + (unat c * 256 + unat d)"
    by (simp add: n_def v4_number_def)
  moreover have "unat c * 256 + unat d < 65536" using bounds by linarith
  ultimately have n16: "n div 65536 = unat a * 256 + unat b" by (simp only: div_high_digit)
  then show "n div 2 ^ 16 = unat a * 256 + unat b" by simp
  have "n div 2 ^ 24 = n div 65536 div 256" by (simp flip: div_mult2_eq)
  with n16 bounds show n24: "n div 2 ^ 24 = unat a" by simp
  have "n div 2 ^ 20 = n div 65536 div 16" by (simp flip: div_mult2_eq)
  with n16 show "n div 2 ^ 20 = unat a * 16 + unat b div 16" by linarith
  have "n div 2 ^ 22 = n div 65536 div 64" by (simp flip: div_mult2_eq)
  with n16 show "n div 2 ^ 22 = unat a * 4 + unat b div 64" by linarith
  have "n div 2 ^ 28 = n div 2 ^ 24 div 16" by (simp flip: div_mult2_eq)
  with n24 show "n div 2 ^ 28 = unat a div 16" by simp
qed

text \<open>Two-digit comparisons of a prefix.\<close>

lemma two_digits:
  "(b :: nat) < m \<Longrightarrow> b' < m \<Longrightarrow> a * m + b = a' * m + b' \<longleftrightarrow> a = a' \<and> b = b'"
  by (metis div_high_digit add_left_cancel)

lemma v4_number_extremes:
  "v4_number a b c d = 0 \<longleftrightarrow> a = 0 \<and> b = 0 \<and> c = 0 \<and> d = 0"
  "v4_number a b c d = 0xFFFFFFFF \<longleftrightarrow> a = 255 \<and> b = 255 \<and> c = 255 \<and> d = 255"
proof -
  have bounds: "unat a < 256" "unat b < 256" "unat c < 256" "unat d < 256" by simp_all
  show "v4_number a b c d = 0 \<longleftrightarrow> a = 0 \<and> b = 0 \<and> c = 0 \<and> d = 0"
    by (simp add: v4_number_def word_unat_eq_iff)
  have "v4_number a b c d = 0xFFFFFFFF \<longleftrightarrow> unat a = 255 \<and> unat b = 255 \<and> unat c = 255 \<and> unat d = 255"
    using two_digits [of "unat d" 256 255 "(unat a * 256 + unat b) * 256 + unat c" 16777215]
      two_digits [of "unat c" 256 255 "unat a * 256 + unat b" 65535]
      two_digits [of "unat b" 256 255 "unat a" 255] bounds
    by (simp add: v4_number_def)
  then show "v4_number a b c d = 0xFFFFFFFF \<longleftrightarrow> a = 255 \<and> b = 255 \<and> c = 255 \<and> d = 255"
    by (simp add: word_unat_eq_iff)
qed

lemma private_v4_iff:
  "private_v4 a b c d \<longleftrightarrow> (\<exists>blk \<in> set documented_v4_blocks. in_cidr 32 (v4_number a b c d) blk)"
proof -
  note cidr = in_cidr_v4 [of a b c d]
  have b16: "16 \<le> b \<and> b \<le> 31 \<longleftrightarrow> unat b div 16 = 1"
    using unat_octet [of b] by (auto simp: word_le_nat_alt)
  have a224: "224 \<le> a \<and> a \<le> 239 \<longleftrightarrow> unat a div 16 = 14"
    using unat_octet [of a] by (auto simp: word_le_nat_alt)
  have div_lt: "unat b div 16 < 16" "unat b div 64 < 4" using unat_octet [of b] by linarith+
  have p12: "unat a * 16 + unat b div 16 = 2753 \<longleftrightarrow> a = 172 \<and> 16 \<le> b \<and> b \<le> 31"
    using two_digits [of "unat b div 16" 16 1 "unat a" 172] div_lt b16 by (simp add: word_unat_eq_iff)
  have p10: "unat a * 4 + unat b div 64 = 401 \<longleftrightarrow> a = 100 \<and> b AND 0xC0 = 64"
    using two_digits [of "unat b div 64" 4 1 "unat a" 100] div_lt and_mask_iffs(1) [of b]
    by (simp add: word_unat_eq_iff)
  have p16: "unat a * 256 + unat b = x * 256 + y \<longleftrightarrow> unat a = x \<and> unat b = y" if "y < 256" for x y
    using two_digits [of "unat b" 256 y "unat a" x] that by simp
  have p16': "unat a * 256 + unat b = 49320 \<longleftrightarrow> a = 192 \<and> b = 168"
    "unat a * 256 + unat b = 43518 \<longleftrightarrow> a = 169 \<and> b = 254"
    using p16 [of 168 192] p16 [of 254 169] by (simp_all add: word_unat_eq_iff)
  have block_exps: "32 - 8 = (24::nat)" "32 - 12 = (20::nat)" "32 - 16 = (16::nat)" "32 - 10 = (22::nat)"
    "32 - 4 = (28::nat)" "32 - 32 = (0::nat)" by simp_all
  let ?in = "in_cidr 32 (v4_number a b c d)"
  have blocks: "?in (0x0A000000, 8) \<longleftrightarrow> a = 10" "?in (0x7F000000, 8) \<longleftrightarrow> a = 127"
    "?in (0xAC100000, 12) \<longleftrightarrow> a = 172 \<and> 16 \<le> b \<and> b \<le> 31"
    "?in (0xC0A80000, 16) \<longleftrightarrow> a = 192 \<and> b = 168"
    "?in (0xA9FE0000, 16) \<longleftrightarrow> a = 169 \<and> b = 254"
    "?in (0x64400000, 10) \<longleftrightarrow> a = 100 \<and> b AND 0xC0 = 64"
    "?in (0xE0000000, 4) \<longleftrightarrow> 224 \<le> a \<and> a \<le> 239"
    "?in (0xFFFFFFFF, 32) \<longleftrightarrow> a = 255 \<and> b = 255 \<and> c = 255 \<and> d = 255"
    "?in (0, 32) \<longleftrightarrow> a = 0 \<and> b = 0 \<and> c = 0 \<and> d = 0"
    using v4_number_extremes [of a b c d]
    by (simp_all only: in_cidr_def fst_conv snd_conv block_exps cidr p12 p10 p16' a224
        word_unat_eq_iff [of a 10] word_unat_eq_iff [of a 127] unat_numeral div_by_1)
      (simp_all add: p12 p10 p16')
  show ?thesis
    unfolding documented_v4_blocks_def list.set bex_simps blocks private_v4_def
    by (simp only: disj_ac simp_thms)
qed

lemma in_cidr_v6:
  fixes s0 s1 :: "16 word"
  defines "n \<equiv> v6_head s0 s1"
  shows "n div 2 ^ 16 = unat s0" and "n div 2 ^ 24 = unat s0 div 256"
    and "n div 2 ^ 25 = unat s0 div 512" and "n div 2 ^ 22 = unat s0 div 64"
proof -
  have n16: "n div 65536 = unat s0"
    unfolding n_def v6_head_def using unat_segment [of s1] by (simp only: div_high_digit)
  then show "n div 2 ^ 16 = unat s0" by simp
  have "n div 2 ^ 24 = n div 65536 div 256" by (simp flip: div_mult2_eq)
  with n16 show "n div 2 ^ 24 = unat s0 div 256" by simp
  have "n div 2 ^ 25 = n div 65536 div 512" by (simp flip: div_mult2_eq)
  with n16 show "n div 2 ^ 25 = unat s0 div 512" by simp
  have "n div 2 ^ 22 = n div 65536 div 64" by (simp flip: div_mult2_eq)
  with n16 show "n div 2 ^ 22 = unat s0 div 64" by simp
qed

lemma private_v6_iff:
  "private_v6 (V6 s0 s1 s2 s3 s4 s5 s6 s7) \<longleftrightarrow>
     V6 s0 s1 s2 s3 s4 s5 s6 s7 \<in> {V6 0 0 0 0 0 0 0 1, V6 0 0 0 0 0 0 0 0}
     \<or> (\<exists>blk \<in> set documented_v6_blocks. in_cidr 32 (v6_head s0 s1) blk)"
proof -
  have p32: "v6_head s0 s1 = 536936448 \<longleftrightarrow> s0 = 0x2001 \<and> s1 = 0"
    using two_digits [of "unat s1" 65536 0 "unat s0" 8193] by (simp add: v6_head_def word_unat_eq_iff)
  let ?in = "in_cidr 32 (v6_head s0 s1)"
  have blocks: "?in (0xFC000000, 7) \<longleftrightarrow> s0 AND 0xFE00 = 0xFC00"
    "?in (0xFE800000, 10) \<longleftrightarrow> s0 AND 0xFFC0 = 0xFE80"
    "?in (0x20010000, 32) \<longleftrightarrow> s0 = 0x2001 \<and> s1 = 0"
    "?in (0x20020000, 16) \<longleftrightarrow> s0 = 0x2002"
    "?in (0xFF000000, 8) \<longleftrightarrow> s0 AND 0xFF00 = 0xFF00"
    using in_cidr_v6 [of s0 s1] and_mask_iffs(2-4) [of s0] p32
    by (simp_all add: in_cidr_def word_unat_eq_iff [of s0 "0x2002"])
  show ?thesis
    unfolding documented_v6_blocks_def list.set bex_simps blocks private_v6_def by auto
qed

text \<open>The private-address test decides exactly the documented set: the CIDR blocks of the
  module documentation for IPv4 and IPv6, with IPv4-mapped IPv6 addresses judged by the address
  they embed.\<close>

theorem is_private_ip_documented: "is_private_ip ip \<longleftrightarrow> documented_private ip"
proof (cases ip)
  case (V4 a b c d)
  then show ?thesis by (simp add: is_private_ip_def documented_private_def private_v4_iff)
next
  case (V6 s0 s1 s2 s3 s4 s5 s6 s7)
  show ?thesis
  proof (cases "to_ipv4_mapped ip")
    case None
    with V6 show ?thesis by (simp add: is_private_ip_def documented_private_def private_v6_iff)
  next
    case (Some v4)
    with V6 obtain a b c d where "v4 = V4 a b c d" by (auto simp: to_ipv4_mapped_def split: if_splits)
    with V6 Some show ?thesis by (simp add: is_private_ip_def documented_private_def private_v4_iff)
  qed
qed

lemma preflight_scan_iff:
  "preflight_scan saw addrs = Inr () \<longleftrightarrow> (saw \<or> addrs \<noteq> []) \<and> (\<forall>a\<in>set addrs. \<not> is_private_ip a)"
  by (induction addrs arbitrary: saw) auto

lemma preflight_scan_Inl: "preflight_scan saw addrs \<noteq> Inr () \<Longrightarrow> preflight_scan saw addrs = Inl PrivateIpResolved"
  by (induction addrs arbitrary: saw) (auto split: if_splits)

text \<open>The resolver plugged into every outbound client never hands out a private address:
  it returns exactly the public part of the answer, and fails exactly when the lookup fails or
  that part is empty.\<close>

theorem resolve_only_public:
  "resolve lookup name = Inr addrs \<longleftrightarrow>
     (\<exists>answers. lookup (name @ '':0'') = Inr answers \<and> addrs = filter (\<lambda>a. \<not> is_private_ip a) answers
        \<and> (\<exists>a \<in> set answers. \<not> is_private_ip a))"
  by (auto simp: resolve_def Let_def filter_empty_conv split: sum.splits if_splits)

text \<open>The preflight fails closed: it accepts a host exactly when the host is a public literal
  address, or the lookup succeeds with at least one address and all of them public; every refusal
  is the same typed error. In the accepted non-literal case the resolver returns the full answer.\<close>

theorem preflight_fails_closed:
  "(preflight_resolve parse_ip lookup host = Inr () \<longleftrightarrow>
      (case parse_ip host of
         Some ip \<Rightarrow> \<not> is_private_ip ip
       | None \<Rightarrow> \<exists>answers. lookup (host @ '':0'') = Inr answers \<and> answers \<noteq> []
                  \<and> resolve lookup host = Inr answers))
   \<and> preflight_resolve parse_ip lookup host \<in> {Inr (), Inl PrivateIpResolved}"
proof -
  have "preflight_resolve parse_ip lookup host \<in> {Inr (), Inl PrivateIpResolved}"
    using preflight_scan_Inl
    by (auto simp: preflight_resolve_def split: option.splits sum.splits)
  then show ?thesis
    by (auto simp: preflight_resolve_def resolve_def Let_def preflight_scan_iff filter_id_conv
        split: option.splits sum.splits)
qed

text \<open>A URL passes the synchronous check exactly when it parses, has scheme http or https,
  names a host, is no internal endpoint and is no literal private address.\<close>

theorem validate_url_scheme_iff:
  "validate_url_scheme parse_url url = Inr () \<longleftrightarrow>
     (\<exists>parsed host. parse_url url = Inr parsed \<and> url_scheme parsed \<in> {''http'', ''https''}
        \<and> url_host_str parsed = Some host
        \<and> \<not> is_internal_endpoint parse_url url
        \<and> (case url_literal_ip parsed of Some ip \<Rightarrow> \<not> is_private_ip ip | None \<Rightarrow> True))"
  by (auto simp: validate_url_scheme_def is_internal_endpoint_def Let_def unwrap_or_def
      split: sum.splits option.splits if_splits)

end
