(* ===== verification/Rate_Limiter.thy ===== *)
theory Rate_Limiter
  imports Hyde_Prelude "HOL-Library.Word"
begin

text \<open>
  \<open>hydeclaw-gateway-util/src/rate_limiter.rs\<close>: the per-IP limiters of the gateway. Counters are
  32-bit words and wrap; the tables behind the mutex are maps from IP text to the tuple the code
  stores. Every operation takes the mutex for its whole body, so a concurrent execution is a
  sequence of operations with non-decreasing clock readings.
\<close>

section \<open>Failed logins\<close>

type_synonym auth_entry = "32 word \<times> instant \<times> instant option"

record auth_rate_limiter =
  max_attempts :: "32 word"
  lockout_secs :: nat
  auth_state :: "bytes \<rightharpoonup> auth_entry"

definition auth_new :: "32 word \<Rightarrow> nat \<Rightarrow> auth_rate_limiter" where
  "auth_new attempts secs = \<lparr>max_attempts = attempts, lockout_secs = secs, auth_state = Map.empty\<rparr>"

definition is_locked :: "auth_rate_limiter \<Rightarrow> bytes \<Rightarrow> instant \<Rightarrow> bool" where
  "is_locked self ip now = (case auth_state self ip of
       Some (_, _, Some locked_until) \<Rightarrow> now < locked_until
     | _ \<Rightarrow> False)"

text \<open>The new entry of \<open>record_failure\<close>: create it, reset it when the window expired without a
  lockout, count, lock.\<close>

definition failure_entry :: "32 word \<Rightarrow> nat \<Rightarrow> auth_entry option \<Rightarrow> instant \<Rightarrow> auth_entry" where
  "failure_entry attempts secs old now =
     (let (count, first_fail, locked) = unwrap_or old (0, now, None);
          (count, first_fail, locked) =
            (if locked = None \<and> secs < as_secs (duration_since now first_fail)
             then (0, now, None) else (count, first_fail, locked));
          count = count + 1
      in if attempts \<le> count then (count, first_fail, Some (now + from_secs secs))
         else (count, first_fail, locked))"

definition record_failure :: "auth_rate_limiter \<Rightarrow> bytes \<Rightarrow> instant \<Rightarrow> auth_rate_limiter" where
  "record_failure self ip now =
     self\<lparr>auth_state := (auth_state self)
       (ip \<mapsto> failure_entry (max_attempts self) (lockout_secs self) (auth_state self ip) now)\<rparr>"

definition record_success :: "auth_rate_limiter \<Rightarrow> bytes \<Rightarrow> auth_rate_limiter" where
  "record_success self ip = self\<lparr>auth_state := (auth_state self)(ip := None)\<rparr>"

definition auth_keep :: "nat \<Rightarrow> instant \<Rightarrow> auth_entry \<Rightarrow> bool" where
  "auth_keep secs now e = (case e of
       (_, _, Some until) \<Rightarrow> now < until
     | (_, first_fail, None) \<Rightarrow> duration_since now first_fail < from_secs secs)"

definition auth_sweep :: "auth_rate_limiter \<Rightarrow> instant \<Rightarrow> auth_rate_limiter" where
  "auth_sweep self now =
     self\<lparr>auth_state := map_retain (\<lambda>_. auth_keep (lockout_secs self) now) (auth_state self)\<rparr>"

definition auth_snapshot_size :: "auth_rate_limiter \<Rightarrow> nat" where
  "auth_snapshot_size self = card (dom (auth_state self))"

section \<open>Requests\<close>

type_synonym request_entry = "32 word \<times> instant"

record request_rate_limiter =
  max_per_minute :: "32 word"
  request_state :: "bytes \<rightharpoonup> request_entry"

definition request_new :: "32 word \<Rightarrow> request_rate_limiter" where
  "request_new m = \<lparr>max_per_minute = m, request_state = Map.empty\<rparr>"

definition check_entry ::
  "32 word \<Rightarrow> request_entry option \<Rightarrow> instant \<Rightarrow> request_entry \<times> (nat, unit) result" where
  "check_entry max_pm old now =
     (let (count, start) = unwrap_or old (0, now);
          (count, start) = (if from_secs 60 \<le> duration_since now start then (0, now) else (count, start));
          count = count + 1
      in ((count, start),
          if max_pm < count then Inl (60 - as_secs (duration_since now start)) else Inr ()))"

definition check ::
  "request_rate_limiter \<Rightarrow> bytes \<Rightarrow> instant \<Rightarrow> request_rate_limiter \<times> (nat, unit) result" where
  "check self ip now =
     (let (e, r) = check_entry (max_per_minute self) (request_state self ip) now
      in (self\<lparr>request_state := (request_state self)(ip \<mapsto> e)\<rparr>, r))"

definition request_sweep :: "request_rate_limiter \<Rightarrow> instant \<Rightarrow> request_rate_limiter" where
  "request_sweep self now =
     self\<lparr>request_state := map_retain (\<lambda>_ (_, start). duration_since now start < from_secs 60)
                                      (request_state self)\<rparr>"

definition request_snapshot_size :: "request_rate_limiter \<Rightarrow> nat" where
  "request_snapshot_size self = card (dom (request_state self))"

section \<open>Runs of the limiters\<close>

datatype auth_event = Failure instant | Success

definition auth_step :: "auth_rate_limiter \<Rightarrow> bytes \<times> auth_event \<Rightarrow> auth_rate_limiter" where
  "auth_step s e = (case snd e of
       Failure now \<Rightarrow> record_failure s (fst e) now
     | Success \<Rightarrow> record_success s (fst e))"

definition auth_entry_step ::
  "32 word \<Rightarrow> nat \<Rightarrow> auth_entry option \<Rightarrow> auth_event \<Rightarrow> auth_entry option" where
  "auth_entry_step attempts secs old e = (case e of
       Failure now \<Rightarrow> Some (failure_entry attempts secs old now)
     | Success \<Rightarrow> None)"

text \<open>A request run keeps the log of the answers with the state.\<close>

type_synonym request_run = "request_rate_limiter \<times> (bytes \<times> (nat, unit) result) list"

definition request_step :: "request_run \<Rightarrow> bytes \<times> instant \<Rightarrow> request_run" where
  "request_step s e =
     (let (rl, r) = check (fst s) (fst e) (snd e) in (rl, snd s @ [(fst e, r)]))"

definition answers :: "request_run \<Rightarrow> bytes \<Rightarrow> (nat, unit) result list" where
  "answers s ip = map snd (filter (\<lambda>a. fst a = ip) (snd s))"

definition request_view :: "request_run \<Rightarrow> bytes \<Rightarrow> 32 word \<times> request_entry option \<times> (nat, unit) result list" where
  "request_view s ip = (max_per_minute (fst s), request_state (fst s) ip, answers s ip)"

definition request_view_step ::
  "32 word \<times> request_entry option \<times> (nat, unit) result list \<Rightarrow> instant
     \<Rightarrow> 32 word \<times> request_entry option \<times> (nat, unit) result list" where
  "request_view_step v now = (case v of (m, old, log) \<Rightarrow>
     (let (e, r) = check_entry m old now in (m, Some e, log @ [r])))"

definition auth_view :: "auth_rate_limiter \<Rightarrow> bytes \<Rightarrow> 32 word \<times> nat \<times> auth_entry option" where
  "auth_view s ip = (max_attempts s, lockout_secs s, auth_state s ip)"

definition auth_view_step :: "32 word \<times> nat \<times> auth_entry option \<Rightarrow> auth_event \<Rightarrow> 32 word \<times> nat \<times> auth_entry option" where
  "auth_view_step v e = (case v of (m, l, old) \<Rightarrow> (m, l, auth_entry_step m l old e))"

lemmas limiter_defs = auth_step_def record_failure_def record_success_def auth_view_def
  auth_view_step_def auth_entry_step_def request_step_def check_def request_view_def
  request_view_step_def answers_def

interpretation auth_table: keyed_step auth_step auth_view auth_view_step
  by unfold_locales (auto simp: limiter_defs split: auth_event.splits)

interpretation request_table: keyed_step request_step request_view request_view_step
  by unfold_locales (auto simp: limiter_defs Let_def split: prod.splits)

section \<open>Lockout properties\<close>

lemma word_Suc_unat:
  "n + 1 < 2 ^ 32 \<Longrightarrow> unat (c :: 32 word) = n \<Longrightarrow> unat (c + 1) = n + 1"
  by (simp add: unat_word_ariths)

text \<open>The entry after a series of failures inside one window.\<close>

lemma failures_in_window:
  assumes "ts \<noteq> []" and "length ts < 2 ^ 32" and "\<forall>t \<in> set ts. as_secs (t - hd ts) \<le> secs"
  shows "\<exists>c. foldl (auth_entry_step m secs) None (map Failure ts) =
           Some (c, hd ts, if unat m \<le> length ts then Some (last ts + from_secs secs) else None)
         \<and> unat c = length ts"
  using assms
proof (induction ts rule: rev_induct)
  case (snoc t ts)
  show ?case
  proof (cases "ts = []")
    case True
    then show ?thesis
      by (auto simp: auth_entry_step_def failure_entry_def Let_def duration_since_def as_secs_def
          word_le_nat_alt)
  next
    case False
    with snoc obtain c where c: "unat c = length ts"
      "foldl (auth_entry_step m secs) None (map Failure ts) =
         Some (c, hd ts, if unat m \<le> length ts then Some (last ts + from_secs secs) else None)"
      by (auto simp: hd_append)
    have c1: "unat (c + 1) = length ts + 1" using snoc.prems(2) c(1) by (intro word_Suc_unat) auto
    have w: "\<not> secs < as_secs (duration_since t (hd ts))"
      using snoc.prems(3) False by (simp add: duration_since_def hd_append not_less)
    have "auth_entry_step m secs (Some (c, hd ts, l)) (Failure t) =
        Some (c + 1, hd ts, if unat m \<le> length ts + 1 then Some (t + from_secs secs) else l)" for l
      using c1 w by (simp add: auth_entry_step_def failure_entry_def Let_def word_le_nat_alt)
    with c c1 False show ?thesis by (auto simp: hd_append)
  qed
qed simp

text \<open>An address that was clean and fails \<open>ts\<close> times inside one window is locked exactly
  when it reached the configured number of attempts, and until the lockout time after the last
  failure, whatever other addresses do in between.\<close>

theorem auth_locks_after_max_attempts:
  assumes "auth_state s ip = None"
    and "map snd (filter (\<lambda>e. fst e = ip) es) = map Failure ts"
    and "ts \<noteq> []" and "length ts < 2 ^ 32"
    and "\<forall>t \<in> set ts. as_secs (t - hd ts) \<le> lockout_secs s"
  shows "is_locked (foldl auth_step s es) ip now \<longleftrightarrow>
           unat (max_attempts s) \<le> length ts \<and> now < last ts + from_secs (lockout_secs s)"
proof -
  have v: "foldl auth_view_step (m, l, old) evs = (m, l, foldl (auth_entry_step m l) old evs)" for m l old evs
    by (induction evs arbitrary: old) (simp_all add: auth_view_step_def)
  from failures_in_window [OF assms(3,4,5), of "max_attempts s"] obtain c where
    "foldl (auth_entry_step (max_attempts s) (lockout_secs s)) None (map Failure ts) =
       Some (c, hd ts, if unat (max_attempts s) \<le> length ts then Some (last ts + from_secs (lockout_secs s)) else None)"
    by auto
  with auth_table.entry_run [of s es ip] assms(1,2)
  have "auth_state (foldl auth_step s es) ip =
      Some (c, hd ts, if unat (max_attempts s) \<le> length ts then Some (last ts + from_secs (lockout_secs s)) else None)"
    by (simp add: auth_view_def v)
  then show ?thesis by (simp add: is_locked_def)
qed

theorem auth_locks_after_max_attempts_witness:
  "is_locked (foldl auth_step (auth_new 2 300) [(''a'', Failure 0), (''b'', Failure 1), (''a'', Failure 2)]) ''a'' 3"
  using auth_locks_after_max_attempts [of "auth_new 2 300" "''a''"
      "[(''a'', Failure 0), (''b'', Failure 1), (''a'', Failure 2)]" "[0, 2]" 3]
  by (simp add: auth_new_def as_secs_def nanos_per_sec_def from_secs_def)

lemma unat_plus_one_le: "unat ((c :: 32 word) + 1) \<le> unat c + 1"
  by (metis unat_1 unat_word_ariths(1) mod_less_eq_dividend)

text \<open>Failures since the last success.\<close>

definition recent_failures :: "auth_event list \<Rightarrow> nat" where
  "recent_failures evs = length (takeWhile (\<lambda>e. e \<noteq> Success) (rev evs))"

lemma auth_entry_step_simps [simp]:
  "auth_entry_step m secs old (Failure t) = Some (failure_entry m secs old t)"
  "auth_entry_step m secs old Success = None"
  by (simp_all add: auth_entry_step_def)

lemma entry_counts_failures:
  assumes "foldl (auth_entry_step m secs) None evs = Some (c, f, l)"
  shows "unat c \<le> recent_failures evs \<and> (l \<noteq> None \<longrightarrow> unat m \<le> recent_failures evs)"
  using assms
proof (induction evs arbitrary: c f l rule: rev_induct)
  case (snoc e evs)
  let ?n = "recent_failures evs"
  from snoc.prems obtain t where e: "e = Failure t" by (cases e) auto
  define old where "old = unwrap_or (foldl (auth_entry_step m secs) None evs) (0, t, None)"
  obtain c0 f0 l0 where old: "old = (c0, f0, l0)" by (cases old)
  have IH: "unat c0 \<le> ?n" "l0 \<noteq> None \<longrightarrow> unat m \<le> ?n"
    using snoc.IH old old_def by (cases "foldl (auth_entry_step m secs) None evs"; auto)+
  have "unat (c0 + 1) \<le> ?n + 1" using unat_plus_one_le [of c0] IH by simp
  with snoc.prems IH show ?case
    by (auto simp: e failure_entry_def Let_def old_def [symmetric] old recent_failures_def
        word_le_nat_alt split: if_splits)
qed simp

text \<open>An address is locked only after at least the configured number of failures since its
  last successful login.\<close>

theorem locked_needs_max_failures:
  assumes "is_locked (foldl auth_step (auth_new m secs) es) ip now"
  shows "unat m \<le> recent_failures (map snd (filter (\<lambda>e. fst e = ip) es))"
proof -
  let ?evs = "map snd (filter (\<lambda>e. fst e = ip) es)"
  have v: "foldl auth_view_step (m, l, old) evs = (m, l, foldl (auth_entry_step m l) old evs)" for m l old evs
    by (induction evs arbitrary: old) (simp_all add: auth_view_step_def)
  have "auth_state (foldl auth_step (auth_new m secs) es) ip = foldl (auth_entry_step m secs) None ?evs"
    using auth_table.entry_run [of "auth_new m secs" es ip] by (simp add: auth_view_def v auth_new_def)
  with assms entry_counts_failures [of m secs ?evs] show ?thesis
    by (auto simp: is_locked_def split: option.splits)
qed

theorem locked_needs_max_failures_witness:
  "is_locked (foldl auth_step (auth_new 1 300) [(''a'', Failure 0)]) ''a'' 3
   \<and> unat (1 :: 32 word) \<le> recent_failures [Failure 0]"
proof -
  have l: "is_locked (foldl auth_step (auth_new 1 300) [(''a'', Failure 0)]) ''a'' 3"
    by (simp add: is_locked_def auth_step_def record_failure_def failure_entry_def auth_new_def
        duration_since_def as_secs_def from_secs_def nanos_per_sec_def)
  from locked_needs_max_failures [OF l] l show ?thesis by simp
qed

text \<open>The lockout of an expired entry is not forgotten until the sweeper runs: one single
  failure after the lockout has ended locks the address again at once.\<close>

theorem single_failure_relocks:
  assumes "auth_state s ip = Some (c, first, Some until)" and "until \<le> now"
    and "max_attempts s \<le> c" and "unat c + 1 < 2 ^ 32" and "0 < lockout_secs s"
  shows "\<not> is_locked s ip now \<and> is_locked (record_failure s ip now) ip now"
proof -
  have "unat (c + 1) = unat c + 1" using assms(4) by (rule word_Suc_unat) simp
  with assms(3) have "max_attempts s \<le> c + 1" by (simp add: word_le_nat_alt)
  with assms show ?thesis
    by (simp add: is_locked_def record_failure_def failure_entry_def from_secs_def nanos_per_sec_def)
qed

theorem single_failure_relocks_witness:
  "\<exists>s ip now. \<not> is_locked s ip now \<and> is_locked (record_failure s ip now) ip now"
  using single_failure_relocks [of "(auth_new 3 300)\<lparr>auth_state := [''a'' \<mapsto> (3, 0, Some 5)]\<rparr>" "''a''" 3 0 5 7]
  by (auto simp: auth_new_def)

text \<open>The sweeper is invisible to the lockout test.\<close>

theorem auth_sweep_keeps_lockouts:
  assumes "now \<le> later"
  shows "is_locked (auth_sweep s now) ip later \<longleftrightarrow> is_locked s ip later"
  using assms
  by (auto simp: is_locked_def auth_sweep_def auth_keep_def map_retain_def split: option.splits)

theorem auth_sweep_keeps_lockouts_witness:
  "is_locked (auth_sweep (record_failure (auth_new 1 300) ''a'' 0) 5) ''a'' 6 \<longleftrightarrow>
   is_locked (record_failure (auth_new 1 300) ''a'' 0) ''a'' 6"
  by (rule auth_sweep_keeps_lockouts) simp

section \<open>Request window properties\<close>

text \<open>The answers to the requests of one address.\<close>

fun entry_answers :: "32 word \<Rightarrow> request_entry option \<Rightarrow> instant list \<Rightarrow> (nat, unit) result list" where
  "entry_answers m old [] = []"
| "entry_answers m old (now # ts) =
     (let (e, r) = check_entry m old now in r # entry_answers m (Some e) ts)"

definition allowed :: "(nat, unit) result list \<Rightarrow> nat" where
  "allowed rs = length (filter (\<lambda>r. r = Inr ()) rs)"

lemma request_view_run:
  "snd (snd (foldl request_view_step (m, old, log) ts)) = log @ entry_answers m old ts"
  by (induction ts arbitrary: old log) (auto simp: request_view_step_def split: prod.splits)

lemma answers_run:
  "answers (foldl request_step (rl, []) es) ip =
     entry_answers (max_per_minute rl) (request_state rl ip) (map snd (filter (\<lambda>e. fst e = ip) es))"
  using request_table.entry_run [of "(rl, [])" es ip]
    request_view_run [of "max_per_minute rl" "request_state rl ip" "[]" "map snd (filter (\<lambda>e. fst e = ip) es)"]
  by (simp add: request_view_def answers_def) (metis snd_conv)

lemma allowed_in_window:
  assumes "\<forall>t \<in> set ts. duration_since t start < from_secs 60" and "unat c + length ts < 2 ^ 32"
  shows "allowed (entry_answers m (Some (c, start)) ts) \<le> unat m - unat c"
  using assms
proof (induction ts arbitrary: c)
  case (Cons t ts)
  have c1: "unat (c + 1) = unat c + 1" using Cons.prems(2) by (intro word_Suc_unat) auto
  have e: "check_entry m (Some (c, start)) t =
      ((c + 1, start), if m < c + 1 then Inl (60 - as_secs (duration_since t start)) else Inr ())"
    using Cons.prems(1) by (simp add: check_entry_def Let_def)
  have "allowed (entry_answers m (Some (c + 1, start)) ts) \<le> unat m - unat (c + 1)"
    using Cons.IH [of "c + 1"] Cons.prems c1 by simp
  then show ?case using c1 by (auto simp: allowed_def e word_less_nat_alt)
qed (simp add: allowed_def)

definition window_expired :: "request_entry option \<Rightarrow> instant \<Rightarrow> bool" where
  "window_expired old now = (case old of None \<Rightarrow> True | Some (_, start) \<Rightarrow> from_secs 60 \<le> duration_since now start)"

lemma check_entry_expired:
  "window_expired old now \<Longrightarrow>
     check_entry m old now = ((1, now), if m < 1 then Inl 60 else Inr ())"
  by (auto simp: window_expired_def check_entry_def Let_def duration_since_def as_secs_def split: option.splits)

lemma check_entry_active:
  "\<not> window_expired (Some (c, start)) now \<Longrightarrow>
     check_entry m (Some (c, start)) now =
       ((c + 1, start), if m < c + 1 then Inl (60 - as_secs (duration_since now start)) else Inr ())"
  by (auto simp: window_expired_def check_entry_def Let_def)

lemma allowed_fresh_window:
  assumes "window_expired old t" and "\<forall>t' \<in> set ts. duration_since t' t < from_secs 60"
    and "1 + length ts < 2 ^ 32"
  shows "allowed (entry_answers m old (t # ts)) \<le> unat m"
proof -
  have "allowed (entry_answers m (Some (1, t)) ts) \<le> unat m - 1"
    using allowed_in_window [OF assms(2), of 1 m] assms(3) by simp
  then show ?thesis using check_entry_expired [OF assms(1), of m]
    by (auto simp: allowed_def word_less_nat_alt)
qed

lemma allowed_two_windows:
  assumes "sorted ts" and "\<forall>t \<in> set ts. t0 \<le> t \<and> t < t0 + from_secs 60"
    and "unat c + length ts + 1 < 2 ^ 32"
  shows "allowed (entry_answers m (Some (c, start)) ts) \<le> (unat m - unat c) + unat m"
  using assms
proof (induction ts arbitrary: c)
  case (Cons t ts)
  have rest: "\<forall>t' \<in> set ts. duration_since t' t < from_secs 60"
    using Cons.prems(1,2) by (auto simp: duration_since_def from_secs_def nanos_per_sec_def)
  show ?case
  proof (cases "window_expired (Some (c, start)) t")
    case True
    with allowed_fresh_window [OF True rest, of m] Cons.prems(3) show ?thesis by simp
  next
    case False
    have c1: "unat (c + 1) = unat c + 1" using Cons.prems(3) by (intro word_Suc_unat) auto
    have "allowed (entry_answers m (Some (c + 1, start)) ts) \<le> (unat m - unat (c + 1)) + unat m"
      using Cons.IH [of "c + 1"] Cons.prems c1 by simp
    then show ?thesis using c1 check_entry_active [OF False, of m]
      by (auto simp: allowed_def word_less_nat_alt)
  qed
qed (simp add: allowed_def)

text \<open>Whatever other addresses do, an address never gets more than twice the configured
  number of requests through in any span shorter than a minute, and no more than the configured
  number when its window starts in that span.\<close>

theorem request_limit_bound:
  assumes "map snd (filter (\<lambda>e. fst e = ip) es) = ts" and "sorted ts"
    and "\<forall>t \<in> set ts. t0 \<le> t \<and> t < t0 + from_secs 60"
    and "unat (fst (unwrap_or (request_state rl ip) (0, 0))) + length ts + 1 < 2 ^ 32"
  shows "allowed (answers (foldl request_step (rl, []) es) ip) \<le> 2 * unat (max_per_minute rl)
    \<and> (window_expired (request_state rl ip) t0 \<longrightarrow>
         allowed (answers (foldl request_step (rl, []) es) ip) \<le> unat (max_per_minute rl))"
proof (cases "window_expired (request_state rl ip) t0")
  case True
  show ?thesis
  proof (cases ts)
    case Nil
    then show ?thesis by (simp add: answers_run assms(1) allowed_def)
  next
    case (Cons t ts')
    have "window_expired (request_state rl ip) t"
      using True assms(3) Cons by (auto simp: window_expired_def duration_since_def split: option.splits)
    moreover have "\<forall>t' \<in> set ts'. duration_since t' t < from_secs 60"
      using assms(2,3) Cons by (auto simp: duration_since_def from_secs_def nanos_per_sec_def)
    ultimately have "allowed (entry_answers (max_per_minute rl) (request_state rl ip) ts) \<le> unat (max_per_minute rl)"
      using allowed_fresh_window [of "request_state rl ip" t ts'] assms(4) Cons by simp
    then show ?thesis by (simp add: answers_run assms(1))
  qed
next
  case False
  then obtain c start where e: "request_state rl ip = Some (c, start)"
    by (cases "request_state rl ip") (auto simp: window_expired_def)
  from allowed_two_windows [OF assms(2,3), of c "max_per_minute rl" start] assms(4) False e
  show ?thesis by (simp add: answers_run assms(1))
qed

theorem request_limit_bound_witness:
  "allowed (answers (foldl request_step (request_new 1, []) [(''a'', 0), (''b'', 1), (''a'', 2)]) ''a'') \<le> 1"
  using request_limit_bound [of "''a''" "[(''a'', 0), (''b'', 1), (''a'', 2)]" "[0, 2]" 0 "request_new 1"]
  by (simp add: request_new_def window_expired_def from_secs_def nanos_per_sec_def)

subsection \<open>Refinement of fixed windows\<close>

text \<open>The specification of a limiter for one address, without a table and without a counter: the first request
  opens a window of a minute; the requests up to the first one outside the window belong to it, the first
  \<open>limit\<close> of them pass and the others are told the time left; the next request opens a new window.\<close>

definition window_answer :: "nat \<Rightarrow> instant \<Rightarrow> nat \<Rightarrow> instant \<Rightarrow> (nat, unit) result" where
  "window_answer limit start k t = (if k < limit then Inr () else Inl (60 - as_secs (duration_since t start)))"

fun window_answers :: "nat \<Rightarrow> instant \<Rightarrow> nat \<Rightarrow> instant list \<Rightarrow> (nat, unit) result list" where
  "window_answers limit start k [] = []"
| "window_answers limit start k (t # ts) = window_answer limit start k t # window_answers limit start (Suc k) ts"

definition in_window :: "instant \<Rightarrow> instant \<Rightarrow> bool" where
  "in_window start t \<longleftrightarrow> duration_since t start < from_secs 60"

function window_spec :: "nat \<Rightarrow> instant list \<Rightarrow> (nat, unit) result list" where
  "window_spec limit [] = []"
| "window_spec limit (t # ts) =
     window_answers limit t 0 (t # takeWhile (in_window t) ts) @ window_spec limit (dropWhile (in_window t) ts)"
  by pat_completeness auto
termination
  by (relation "measure (\<lambda>(limit, ts). length ts)") (auto simp: le_imp_less_Suc length_dropWhile_le)

lemma entry_answers_window:
  assumes "\<forall>u \<in> set us. in_window start u" "unat c + length us < 2 ^ 32"
  shows "entry_answers m (Some (c, start)) (us @ rest) =
    window_answers (unat m) start (unat c) us @ entry_answers m (Some (c + of_nat (length us), start)) rest"
  using assms
proof (induction us arbitrary: c)
  case (Cons u us)
  have c1: "unat (c + 1) = Suc (unat c)" using Cons.prems(2) word_Suc_unat[of "unat c" c] by simp
  have "\<not> window_expired (Some (c, start)) u" using Cons.prems(1) by (simp add: window_expired_def in_window_def)
  note e = check_entry_active[OF this, of m]
  have "entry_answers m (Some (c + 1, start)) (us @ rest) =
      window_answers (unat m) start (Suc (unat c)) us @ entry_answers m (Some (c + 1 + of_nat (length us), start)) rest"
    using Cons.IH[of "c + 1"] Cons.prems c1 by simp
  moreover have "m < c + 1 \<longleftrightarrow> \<not> unat c < unat m" using c1 by (auto simp: word_less_nat_alt)
  ultimately show ?case by (simp add: e window_answer_def add.assoc)
qed simp

lemma entry_answers_expired:
  "window_expired old t \<Longrightarrow> entry_answers m old (t # ts) = entry_answers m None (t # ts)"
  using check_entry_expired[of old t m] check_entry_expired[of None t m] by (simp add: window_expired_def)

lemma entry_answers_spec: "length ts < 2 ^ 32 \<Longrightarrow> entry_answers m None ts = window_spec (unat m) ts"
proof (induction "unat m" ts rule: window_spec.induct)
  case (2 t ts)
  let ?in = "takeWhile (in_window t) ts" and ?out = "dropWhile (in_window t) ts"
  have len: "length ?in + length ?out = length ts" by (metis length_append takeWhile_dropWhile_id)
  have c: "check_entry m None t = ((1, t), if m < 1 then Inl 60 else Inr ())"
    by (rule check_entry_expired) (simp add: window_expired_def)
  have "as_secs 0 = 0" by (simp add: as_secs_def)
  then have h: "(if m < 1 then Inl 60 else Inr ()) = window_answer (unat m) t 0 t"
    by (simp add: window_answer_def duration_since_def word_less_nat_alt)
  have "entry_answers m (Some (1, t)) (?in @ ?out) = window_answers (unat m) t 1 ?in
      @ entry_answers m (Some (1 + of_nat (length ?in), t)) ?out"
  proof -
    have "\<forall>u \<in> set ?in. in_window t u" by (auto dest: set_takeWhileD)
    moreover have "unat (1 :: 32 word) + length ?in < 2 ^ 32" using len 2(2) by simp
    ultimately show ?thesis using entry_answers_window[of ?in t 1 m ?out] by simp
  qed
  moreover have "entry_answers m (Some (e, t)) ?out = entry_answers m None ?out" for e
  proof (cases ?out)
    case Nil
    show ?thesis unfolding Nil by simp
  next
    case (Cons u us)
    then have "\<not> in_window t u" by (metis hd_dropWhile list.sel(1) list.simps(3))
    then show ?thesis unfolding Cons by (intro entry_answers_expired) (simp add: window_expired_def in_window_def not_less)
  qed
  moreover have "entry_answers m None ?out = window_spec (unat m) ?out" using 2 len by simp
  ultimately show ?case using c h by (simp add: takeWhile_dropWhile_id)
qed simp

text \<open>C39: the request limiter implements fixed windows: the answers an address gets from the shared table,
  whatever requests of other addresses are interleaved, are those of the window specification on the
  arrival times of that address.\<close>

theorem request_limiter_refines_windows:
  assumes "request_state rl ip = None" "length (filter (\<lambda>e. fst e = ip) es) < 2 ^ 32"
  shows "answers (foldl request_step (rl, []) es) ip =
    window_spec (unat (max_per_minute rl)) (map snd (filter (\<lambda>e. fst e = ip) es))"
  using assms by (simp add: answers_run entry_answers_spec)

theorem request_limiter_refines_windows_witness:
  "answers (foldl request_step (request_new 1, []) [(''a'', 0), (''b'', 1), (''a'', 2)]) ''a'' = [Inr (), Inl 60]"
proof -
  have "answers (foldl request_step (request_new 1, []) [(''a'', 0), (''b'', 1), (''a'', 2)]) ''a'' = window_spec 1 [0, 2]"
    using request_limiter_refines_windows[of "request_new 1" "''a''" "[(''a'', 0), (''b'', 1), (''a'', 2)]"]
    by (simp add: request_new_def)
  also have "\<dots> = [Inr (), Inl 60]"
    by (simp add: window_answer_def in_window_def duration_since_def from_secs_def as_secs_def nanos_per_sec_def)
  finally show ?thesis .
qed

text \<open>The number of seconds in a refusal is honest: it is between 1 and 60, and a request of
  the same address made that much later is let through when the limit is positive and the clock does
  not run backwards.\<close>

theorem retry_after_honest:
  assumes "check rl ip now = (rl', Inl secs)" and "0 < max_per_minute rl"
    and "\<forall>c start. request_state rl ip = Some (c, start) \<longrightarrow> start \<le> now"
  shows "1 \<le> secs \<and> secs \<le> 60 \<and> snd (check rl' ip (now + from_secs secs)) = Inr ()"
proof (cases "window_expired (request_state rl ip) now")
  case True
  with assms check_entry_expired [OF True, of "max_per_minute rl"] show ?thesis
    by (auto simp: check_def word_less_nat_alt split: if_splits)
next
  case False
  then obtain c start where e: "request_state rl ip = Some (c, start)"
    by (cases "request_state rl ip") (auto simp: window_expired_def)
  let ?el = "duration_since now start"
  from assms(1) check_entry_active [OF False [unfolded e], of "max_per_minute rl"] e
  have s: "secs = 60 - as_secs ?el" and e': "request_state rl' ip = Some (c + 1, start)"
    and m: "max_per_minute rl' = max_per_minute rl"
    by (auto simp: check_def split: if_splits)
  from False e have el: "?el < from_secs 60" by (simp add: window_expired_def)
  then have el': "as_secs ?el < 60" by (simp add: as_secs_less_iff)
  have "as_secs ?el * nanos_per_sec \<le> ?el" by (simp add: as_secs_def)
  moreover have "from_secs secs = from_secs 60 - as_secs ?el * nanos_per_sec"
    by (simp add: s from_secs_def diff_mult_distrib)
  moreover have "start \<le> now" using assms(3) e by blast
  ultimately have "from_secs 60 \<le> duration_since (now + from_secs secs) start"
    unfolding duration_since_def by linarith
  then have "window_expired (request_state rl' ip) (now + from_secs secs)" by (simp add: e' window_expired_def)
  from check_entry_expired [OF this, of "max_per_minute rl"] assms(2) m el' s
  show ?thesis by (auto simp: check_def word_less_nat_alt)
qed

theorem retry_after_honest_witness:
  "\<exists>rl' secs. check ((request_new 1)\<lparr>request_state := [''a'' \<mapsto> (1, 0)]\<rparr>) ''a'' 7 = (rl', Inl secs)
     \<and> 1 \<le> secs \<and> secs \<le> 60 \<and> snd (check rl' ''a'' (7 + from_secs secs)) = Inr ()"
proof -
  let ?rl = "(request_new 1)\<lparr>request_state := [''a'' \<mapsto> (1, 0)]\<rparr>"
  have "\<exists>rl' secs. check ?rl ''a'' 7 = (rl', Inl secs)"
    by (simp add: check_def check_entry_def request_new_def duration_since_def from_secs_def
        nanos_per_sec_def Let_def)
  then obtain rl' secs where "check ?rl ''a'' 7 = (rl', Inl secs)" by blast
  with retry_after_honest [OF this] show ?thesis by (auto simp: request_new_def)
qed

section \<open>The sweeper is unobservable\<close>

datatype limiter_event = Request bytes | Sweep

fun limiter_run :: "request_rate_limiter \<Rightarrow> (instant \<times> limiter_event) list \<Rightarrow> (nat, unit) result list" where
  "limiter_run rl [] = []"
| "limiter_run rl ((now, Request ip) # es) = (let (rl', r) = check rl ip now in r # limiter_run rl' es)"
| "limiter_run rl ((now, Sweep) # es) = limiter_run (request_sweep rl now) es"

text \<open>The simulation: a swept table misses only entries whose window has expired.\<close>

definition swept_of :: "instant \<Rightarrow> request_rate_limiter \<Rightarrow> request_rate_limiter \<Rightarrow> bool" where
  "swept_of t rl sw \<longleftrightarrow> max_per_minute sw = max_per_minute rl \<and>
     (\<forall>ip. request_state sw ip = request_state rl ip
           \<or> request_state sw ip = None \<and> window_expired (request_state rl ip) t)"

lemma window_expired_mono: "window_expired old t \<Longrightarrow> t \<le> t' \<Longrightarrow> window_expired old t'"
  by (auto simp: window_expired_def duration_since_def split: option.splits)

lemma swept_of_mono: "swept_of t rl sw \<Longrightarrow> t \<le> t' \<Longrightarrow> swept_of t' rl sw"
  by (auto simp: swept_of_def intro: window_expired_mono)

lemma swept_of_refl: "swept_of t rl rl"
  by (simp add: swept_of_def)

lemma request_sweep_max [simp]: "max_per_minute (request_sweep rl t) = max_per_minute rl"
  by (simp add: request_sweep_def)

lemma swept_of_sweep: "swept_of t rl sw \<Longrightarrow> swept_of t rl (request_sweep sw t)"
proof -
  assume sw: "swept_of t rl sw"
  have "request_state (request_sweep sw t) ip = request_state sw ip
      \<or> request_state (request_sweep sw t) ip = None \<and> window_expired (request_state sw ip) t" for ip
    by (cases "request_state sw ip") (auto simp: request_sweep_def map_retain_def window_expired_def)
  with sw show ?thesis unfolding swept_of_def by (metis request_sweep_max)
qed

lemma swept_of_check:
  assumes "swept_of t rl sw"
  shows "snd (check sw ip t) = snd (check rl ip t) \<and> swept_of t (fst (check rl ip t)) (fst (check sw ip t))"
proof -
  have "check_entry (max_per_minute sw) (request_state sw ip) t = check_entry (max_per_minute rl) (request_state rl ip) t"
  proof (cases "request_state sw ip = request_state rl ip")
    case False
    with assms have "request_state sw ip = None" "window_expired (request_state rl ip) t"
      by (auto simp: swept_of_def)
    with assms show ?thesis
      using check_entry_expired [of None t] check_entry_expired [of "request_state rl ip" t]
      by (simp add: swept_of_def window_expired_def)
  qed (use assms in \<open>simp add: swept_of_def\<close>)
  with assms show ?thesis by (auto simp: check_def swept_of_def split: prod.splits)
qed

lemma limiter_run_swept:
  assumes "swept_of t rl sw" and "sorted (t # map fst es)"
  shows "limiter_run sw es = limiter_run rl (filter (\<lambda>e. snd e \<noteq> Sweep) es)"
  using assms
proof (induction es arbitrary: t rl sw)
  case (Cons e es)
  obtain now ev where e: "e = (now, ev)" by (cases e)
  from Cons.prems e have sw: "swept_of now rl sw" and so: "sorted (now # map fst es)"
    by (auto intro: swept_of_mono)
  show ?case
  proof (cases ev)
    case (Request ip)
    obtain rl' r where rl': "check rl ip now = (rl', r)" by fastforce
    obtain sw' r' where sw': "check sw ip now = (sw', r')" by fastforce
    from swept_of_check [OF sw, of ip] rl' sw' have "r' = r" "swept_of now rl' sw'" by auto
    with Cons.IH [OF _ so, of rl' sw'] show ?thesis by (simp add: e Request rl' sw')
  next
    case Sweep
    with Cons.IH [OF swept_of_sweep [OF sw] so] show ?thesis by (simp add: e)
  qed
qed simp

text \<open>The background sweeper of the request limiter never changes an answer: with a
  monotonic clock every run gives the same answers as the run without its sweeps.\<close>

theorem request_sweep_unobservable:
  assumes "sorted (map fst es)"
  shows "limiter_run rl es = limiter_run rl (filter (\<lambda>e. snd e \<noteq> Sweep) es)"
  by (rule limiter_run_swept [OF swept_of_refl [of 0]]) (use assms in simp)

theorem request_sweep_unobservable_witness:
  "limiter_run (request_new 1) [(0, Request ''a''), (5, Sweep), (6, Request ''a'')] =
   limiter_run (request_new 1) [(0, Request ''a''), (6, Request ''a'')]"
  using request_sweep_unobservable [of "[(0, Request ''a''), (5, Sweep), (6, Request ''a'')]" "request_new 1"]
  by simp

end
