(* ===== verification/Event_Stream.thy ===== *)
theory Event_Stream
  imports Hyde_Types
begin

text \<open>
  The path of a stream event from the engine to the SSE converter:
  \<open>agent/engine_event_sender.rs\<close> puts it into a bounded channel, the task of
  \<open>gateway/sse/coalescer.rs\<close> merges text deltas within a 16 ms window and writes to an unbounded
  channel. The two tasks and the timer interleave freely, so the pipeline is a step relation.
\<close>

section \<open>The sender\<close>

text \<open>A bounded channel: its buffer, its capacity and whether the receiver is alive.\<close>

record mpsc_channel =
  capacity :: nat
  queue :: "stream_event list"
  rx_alive :: bool

datatype try_send_error = TS_Closed stream_event | TS_Full stream_event

definition try_send :: "mpsc_channel \<Rightarrow> stream_event \<Rightarrow> mpsc_channel \<times> (try_send_error, unit) result" where
  "try_send ch ev =
     (if \<not> rx_alive ch then (ch, Inl (TS_Closed ev))
      else if capacity ch \<le> length (queue ch) then (ch, Inl (TS_Full ev))
      else (ch\<lparr>queue := queue ch @ [ev]\<rparr>, Inr ()))"

datatype engine_send_error = Closed stream_event | DroppedTextDelta | FullNonText stream_event

definition send :: "mpsc_channel \<Rightarrow> stream_event \<Rightarrow> mpsc_channel \<times> (engine_send_error, unit) result" where
  "send ch ev = (case try_send ch ev of
       (ch', Inr _) \<Rightarrow> (ch', Inr ())
     | (ch', Inl (TS_Closed ev')) \<Rightarrow> (ch', Inl (Closed ev'))
     | (ch', Inl (TS_Full ev')) \<Rightarrow>
         (ch', Inl (if is_text_delta ev' then DroppedTextDelta else FullNonText ev')))"

text \<open>\<open>None\<close> means that the task waits for a free slot.\<close>

definition send_async ::
  "mpsc_channel \<Rightarrow> stream_event \<Rightarrow> (mpsc_channel \<times> (engine_send_error, unit) result) option" where
  "send_async ch ev =
     (if is_text_delta ev then
        (case try_send ch ev of
           (ch', Inr _) \<Rightarrow> Some (ch', Inr ())
         | (ch', Inl (TS_Closed ev')) \<Rightarrow> Some (ch', Inl (Closed ev'))
         | (ch', Inl (TS_Full _)) \<Rightarrow> Some (ch', Inl DroppedTextDelta))
      else if \<not> rx_alive ch then Some (ch, Inl (Closed ev))
      else if length (queue ch) < capacity ch then Some (ch\<lparr>queue := queue ch @ [ev]\<rparr>, Inr ())
      else None)"

section \<open>The coalescer\<close>

definition event_type_label :: "stream_event \<Rightarrow> bytes" where
  "event_type_label ev = (case ev of
       SessionId _ \<Rightarrow> ''session-id''
     | MessageStart _ \<Rightarrow> ''message-start''
     | StepStart _ \<Rightarrow> ''step-start''
     | TextDelta _ \<Rightarrow> ''text-delta''
     | ToolCallStart _ _ \<Rightarrow> ''tool-call-start''
     | ToolCallArgs _ _ \<Rightarrow> ''tool-call-args''
     | ToolResult _ _ \<Rightarrow> ''tool-result''
     | StepFinish _ _ \<Rightarrow> ''step-finish''
     | RichCard _ _ \<Rightarrow> ''rich-card''
     | File _ _ \<Rightarrow> ''file''
     | AgentSwitch _ \<Rightarrow> ''agent-switch''
     | ApprovalNeeded _ _ _ _ \<Rightarrow> ''approval-needed''
     | ApprovalResolved _ _ _ \<Rightarrow> ''approval-resolved''
     | Finish _ _ \<Rightarrow> ''finish''
     | Error _ \<Rightarrow> ''error''
     | Reconnecting _ _ \<Rightarrow> ''reconnecting'')"

text \<open>The coalescer's text buffer, what it has sent, whether the outer receiver is alive and the
  labels passed to \<open>record_sse_drop\<close>.\<close>

record coalescer =
  pending_text :: bytes
  outer_sent :: "stream_event list"
  outer_alive :: bool
  sse_drops :: "bytes list"

definition coalescer_new :: coalescer where
  "coalescer_new = \<lparr>pending_text = [], outer_sent = [], outer_alive = True, sse_drops = []\<rparr>"

definition outer_send :: "coalescer \<Rightarrow> stream_event \<Rightarrow> bytes \<Rightarrow> coalescer" where
  "outer_send c ev label =
     (if outer_alive c then c\<lparr>outer_sent := outer_sent c @ [ev]\<rparr>
      else c\<lparr>sse_drops := sse_drops c @ [label]\<rparr>)"

definition flush_pending :: "coalescer \<Rightarrow> coalescer" where
  "flush_pending c =
     (if pending_text c \<noteq> []
      then outer_send (c\<lparr>pending_text := []\<rparr>) (TextDelta (pending_text c)) ''text-delta''
      else c)"

definition on_event :: "coalescer \<Rightarrow> stream_event \<Rightarrow> coalescer" where
  "on_event c ev = (case ev of
       TextDelta s \<Rightarrow> c\<lparr>pending_text := pending_text c @ s\<rparr>
     | other \<Rightarrow> outer_send (flush_pending c) other (event_type_label other))"

section \<open>The pipeline\<close>

text \<open>Besides the two tasks the state records what the engine was told: the events accepted by
  the channel and those refused.\<close>

record pipeline =
  chan :: mpsc_channel
  coal :: coalescer
  senders_open :: bool
  finished :: bool
  accepted :: "stream_event list"
  refused :: "stream_event list"

definition pipeline_new :: "nat \<Rightarrow> pipeline" where
  "pipeline_new cap =
     \<lparr>chan = \<lparr>capacity = cap, queue = [], rx_alive = True\<rparr>, coal = coalescer_new,
      senders_open = True, finished = False, accepted = [], refused = []\<rparr>"

inductive pipe_step :: "pipeline \<Rightarrow> pipeline \<Rightarrow> bool" where
  ps_send: "senders_open p \<Longrightarrow> send_async (chan p) ev = Some (ch, r) \<Longrightarrow>
     pipe_step p (p\<lparr>chan := ch,
       accepted := accepted p @ (if r = Inr () then [ev] else []),
       refused := refused p @ (if r = Inr () then [] else [ev])\<rparr>)"
| ps_close: "pipe_step p (p\<lparr>senders_open := False\<rparr>)"
| ps_recv: "\<not> finished p \<Longrightarrow> queue (chan p) = ev # q \<Longrightarrow>
     pipe_step p (p\<lparr>chan := (chan p)\<lparr>queue := q\<rparr>, coal := on_event (coal p) ev\<rparr>)"
| ps_tick: "\<not> finished p \<Longrightarrow> pipe_step p (p\<lparr>coal := flush_pending (coal p)\<rparr>)"
| ps_drain: "\<not> finished p \<Longrightarrow> queue (chan p) = [] \<Longrightarrow> \<not> senders_open p \<Longrightarrow>
     pipe_step p (p\<lparr>coal := flush_pending (coal p), finished := True, chan := (chan p)\<lparr>rx_alive := False\<rparr>\<rparr>)"
| ps_outer_drop: "pipe_step p (p\<lparr>coal := (coal p)\<lparr>outer_alive := False\<rparr>\<rparr>)"

inductive pipe_reachable :: "nat \<Rightarrow> pipeline \<Rightarrow> bool" for cap :: nat where
  pr_start: "pipe_reachable cap (pipeline_new cap)"
| pr_step: "pipe_reachable cap p \<Longrightarrow> pipe_step p q \<Longrightarrow> pipe_reachable cap q"

inductive_cases pipe_stepE: "pipe_step p q"

section \<open>Text normal form\<close>

text \<open>What a client can see of a stream: adjacent text deltas joined, empty ones gone.\<close>

fun join_text :: "bytes \<Rightarrow> stream_event list \<Rightarrow> stream_event list" where
  "join_text s (TextDelta t # es) = TextDelta (s @ t) # es"
| "join_text s es = (if s = [] then es else TextDelta s # es)"

fun visible :: "stream_event list \<Rightarrow> stream_event list" where
  "visible [] = []"
| "visible (TextDelta s # es) = join_text s (visible es)"
| "visible (e # es) = e # visible es"

lemma visible_nontext: "\<not> is_text_delta e \<Longrightarrow> visible (e # es) = e # visible es"
  by (cases e) (simp_all add: is_text_delta_def)

lemma join_text_nontext:
  "\<not> is_text_delta e \<Longrightarrow> join_text s (e # es) = (if s = [] then e # es else TextDelta s # e # es)"
  by (cases e) (simp_all add: is_text_delta_def)

lemma visible_append_right: "visible ys = visible zs \<Longrightarrow> visible (xs @ ys) = visible (xs @ zs)"
proof (induction xs)
  case (Cons x xs)
  then show ?case by (cases x) simp_all
qed simp

lemma join_text_join: "join_text s (join_text t es) = join_text (s @ t) es"
  by (cases "(t, es)" rule: join_text.cases) auto

lemma visible_text_split: "visible (TextDelta s # TextDelta t # es) = visible (TextDelta (s @ t) # es)"
  by (simp add: join_text_join)

lemma visible_head_nonempty: "visible es = TextDelta t # r \<Longrightarrow> t \<noteq> []"
proof (induction es arbitrary: t r rule: visible.induct)
  case (2 s es)
  then show ?case by (cases "(s, visible es)" rule: join_text.cases) (auto split: if_splits)
qed auto

lemma visible_empty_text [simp]: "join_text [] (visible es) = visible es"
  using visible_head_nonempty [of es] by (cases "([] :: bytes, visible es)" rule: join_text.cases) auto

section \<open>Order and content\<close>

text \<open>What has been sent, what is buffered and what is still queued, in this order.\<close>

definition in_flight :: "coalescer \<Rightarrow> stream_event list \<Rightarrow> stream_event list" where
  "in_flight c q = outer_sent c @ TextDelta (pending_text c) # q"

lemma flush_pending_visible:
  "outer_alive c \<Longrightarrow> visible (in_flight (flush_pending c) q) = visible (in_flight c q)"
  by (auto simp: in_flight_def flush_pending_def outer_send_def intro: visible_append_right)

lemma flush_pending_alive [simp]: "outer_alive (flush_pending c) = outer_alive c"
  by (simp add: flush_pending_def outer_send_def)

lemma flush_pending_empty [simp]: "pending_text (flush_pending c) = []"
  by (simp add: flush_pending_def outer_send_def)

lemma flush_pending_drops [simp]: "outer_alive c \<Longrightarrow> sse_drops (flush_pending c) = sse_drops c"
  by (simp add: flush_pending_def outer_send_def)

lemma on_event_nontext:
  "\<not> is_text_delta ev \<Longrightarrow> on_event c ev = outer_send (flush_pending c) ev (event_type_label ev)"
  by (cases ev) (simp_all add: on_event_def is_text_delta_def)

lemma on_event_alive [simp]: "outer_alive (on_event c ev) = outer_alive c"
  by (cases "is_text_delta ev")
    (auto simp: on_event_nontext outer_send_def, auto simp: on_event_def is_text_delta_def split: stream_event.splits)

lemma on_event_drops [simp]: "outer_alive c \<Longrightarrow> sse_drops (on_event c ev) = sse_drops c"
  by (cases "is_text_delta ev")
    (auto simp: on_event_nontext outer_send_def, auto simp: on_event_def is_text_delta_def split: stream_event.splits)

lemma on_event_visible:
  assumes "outer_alive c"
  shows "visible (in_flight (on_event c ev) q) = visible (in_flight c (ev # q))"
proof (cases "is_text_delta ev")
  case True
  then obtain s where "ev = TextDelta s" by (auto simp: is_text_delta_def split: stream_event.splits)
  then show ?thesis
    by (simp add: on_event_def in_flight_def) (rule visible_append_right, simp add: join_text_join)
next
  case False
  have "visible (in_flight (on_event c ev) q) = visible (in_flight (flush_pending c) (ev # q))"
    using assms False
    by (simp add: on_event_nontext in_flight_def outer_send_def)
      (rule visible_append_right, simp add: visible_nontext join_text_nontext)
  with flush_pending_visible [OF assms] show ?thesis by simp
qed

lemma visible_join_text: "visible (join_text s es @ ys) = join_text s (visible (es @ ys))"
  by (cases "(s, es)" rule: join_text.cases) (simp_all add: join_text_join)

lemma visible_append_left: "visible (visible xs @ ys) = visible (xs @ ys)"
  by (induction xs rule: visible.induct) (simp_all add: visible_join_text)

lemma visible_snoc_cong: "visible xs = visible ys \<Longrightarrow> visible (xs @ [e]) = visible (ys @ [e])"
  by (metis visible_append_left)

text \<open>The invariant of the pipeline.\<close>

definition pipe_inv :: "nat \<Rightarrow> pipeline \<Rightarrow> bool" where
  "pipe_inv cap p \<longleftrightarrow>
     (outer_alive (coal p) \<longrightarrow>
        sse_drops (coal p) = [] \<and> visible (in_flight (coal p) (queue (chan p))) = visible (accepted p))
     \<and> (\<forall>ev \<in> set (refused p). is_text_delta ev)
     \<and> capacity (chan p) = cap \<and> length (queue (chan p)) \<le> cap
     \<and> rx_alive (chan p) = (\<not> finished p)
     \<and> (finished p \<longrightarrow> pending_text (coal p) = [] \<and> queue (chan p) = [] \<and> \<not> senders_open p)"

lemma send_async_cases:
  assumes "send_async ch ev = Some (ch', r)" and "rx_alive ch"
  shows "(r = Inr () \<and> length (queue ch) < capacity ch \<and> ch' = ch\<lparr>queue := queue ch @ [ev]\<rparr>)
    \<or> (r = Inl DroppedTextDelta \<and> is_text_delta ev \<and> capacity ch \<le> length (queue ch) \<and> ch' = ch)"
  using assms by (auto simp: send_async_def try_send_def split: if_splits)

lemma pipe_inv_step: "pipe_step p q \<Longrightarrow> pipe_inv cap p \<Longrightarrow> pipe_inv cap q"
proof (induction rule: pipe_step.induct)
  case (ps_send p ev ch r)
  then have rx: "rx_alive (chan p)" by (auto simp: pipe_inv_def)
  show ?case
  proof (cases "r = Inr ()")
    case True
    with send_async_cases [OF ps_send(2) rx] have "length (queue (chan p)) < capacity (chan p)"
      "ch = (chan p)\<lparr>queue := queue (chan p) @ [ev]\<rparr>" by auto
    with ps_send True show ?thesis
      using visible_snoc_cong [of "in_flight (coal p) (queue (chan p))" "accepted p" ev]
      by (auto simp: pipe_inv_def in_flight_def)
  next
    case False
    with send_async_cases [OF ps_send(2) rx] have "is_text_delta ev" "ch = chan p" by auto
    with ps_send False show ?thesis by (auto simp: pipe_inv_def)
  qed
next
  case (ps_recv p ev q)
  then show ?case using on_event_visible [of "coal p" ev q] by (auto simp: pipe_inv_def)
next
  case (ps_tick p)
  then show ?case using flush_pending_visible [of "coal p"] by (auto simp: pipe_inv_def)
next
  case (ps_drain p)
  then show ?case using flush_pending_visible [of "coal p"] by (auto simp: pipe_inv_def)
qed (auto simp: pipe_inv_def)

lemma pipe_reachable_inv: "pipe_reachable cap p \<Longrightarrow> pipe_inv cap p"
proof (induction rule: pipe_reachable.induct)
  case pr_start
  show ?case by (simp add: pipe_inv_def pipeline_new_def coalescer_new_def in_flight_def)
qed (rule pipe_inv_step)

lemma pipe_inv_star: "pipe_step\<^sup>*\<^sup>* p q \<Longrightarrow> pipe_inv cap p \<Longrightarrow> pipe_inv cap q"
  by (induction rule: rtranclp_induct) (auto intro: pipe_inv_step)

lemma inv_visible_sent:
  assumes "pipe_inv cap p" and "outer_alive (coal p)"
  shows "finished p \<longrightarrow> visible (outer_sent (coal p)) = visible (accepted p)"
proof -
  have "visible (outer_sent (coal p) @ [TextDelta []]) = visible (outer_sent (coal p) @ [])"
    by (rule visible_append_right) simp
  with assms show ?thesis by (auto simp: pipe_inv_def in_flight_def)
qed

text \<open>C24: As long as the SSE receiver is alive, no interleaving of engine, coalescer and timer
  loses, reorders or duplicates anything the channel accepted: what was sent, buffered and queued
  is the accepted stream up to the cutting of text, nothing is counted as dropped, and once the
  coalescer has finished everything accepted was sent.\<close>

theorem stream_preserved:
  assumes "pipe_reachable cap p" and "outer_alive (coal p)"
  shows "visible (in_flight (coal p) (queue (chan p))) = visible (accepted p)
    \<and> sse_drops (coal p) = []
    \<and> (finished p \<longrightarrow> visible (outer_sent (coal p)) = visible (accepted p))"
proof -
  have inv: "pipe_inv cap p" using assms(1) by (rule pipe_reachable_inv)
  with inv_visible_sent [OF inv assms(2)] assms(2) show ?thesis by (simp add: pipe_inv_def)
qed

lemma sample_run:
  "\<exists>p. pipe_reachable 2 p \<and> outer_alive (coal p) \<and> accepted p = [TextDelta ''a'', Finish ''stop'' False]
     \<and> refused p = [TextDelta ''b'']"
proof -
  have 1: "pipe_reachable 2 ((pipeline_new 2)\<lparr>chan := (chan (pipeline_new 2))\<lparr>queue := [TextDelta ''a'']\<rparr>,
      accepted := [TextDelta ''a'']\<rparr>)" (is "pipe_reachable 2 ?p1")
    using pr_step [OF pr_start ps_send [of "pipeline_new 2" "TextDelta ''a''"]]
    by (simp add: pipeline_new_def send_async_def try_send_def)
  have 2: "pipe_reachable 2 (?p1\<lparr>chan := (chan (pipeline_new 2))\<lparr>queue := [TextDelta ''a'', Finish ''stop'' False]\<rparr>,
      accepted := [TextDelta ''a'', Finish ''stop'' False]\<rparr>)" (is "pipe_reachable 2 ?p2")
    using pr_step [OF 1 ps_send [of ?p1 "Finish ''stop'' False"]]
    by (simp add: pipeline_new_def send_async_def try_send_def is_text_delta_def)
  have "pipe_reachable 2 (?p2\<lparr>refused := [TextDelta ''b'']\<rparr>)"
    using pr_step [OF 2 ps_send [of ?p2 "TextDelta ''b''"]]
    by (simp add: pipeline_new_def send_async_def try_send_def)
  then show ?thesis by (intro exI conjI) (auto simp: pipeline_new_def coalescer_new_def)
qed

theorem stream_preserved_witness:
  "\<exists>p. pipe_reachable 2 p \<and> visible (in_flight (coal p) (queue (chan p))) = [TextDelta ''a'', Finish ''stop'' False]"
proof -
  from sample_run obtain p where p: "pipe_reachable 2 p" "outer_alive (coal p)"
    "accepted p = [TextDelta ''a'', Finish ''stop'' False]" by auto
  from stream_preserved [OF p(1,2)] p show ?thesis by (intro exI [of _ p]) simp
qed

text \<open>The sender never refuses an event other than a text delta, and the buffer never
  exceeds its capacity.\<close>

theorem only_text_refused:
  assumes "pipe_reachable cap p"
  shows "(\<forall>ev \<in> set (refused p). is_text_delta ev) \<and> length (queue (chan p)) \<le> cap"
  using pipe_reachable_inv [OF assms] by (simp add: pipe_inv_def)

theorem only_text_refused_witness:
  "\<exists>p. pipe_reachable 2 p \<and> refused p = [TextDelta ''b''] \<and> length (queue (chan p)) \<le> 2"
proof -
  from sample_run obtain p where p: "pipe_reachable 2 p" "refused p = [TextDelta ''b'']" by auto
  from only_text_refused [OF p(1)] p show ?thesis by auto
qed

text \<open>From any state the coalescer can work off its queue.\<close>

lemma drain_queue:
  "\<not> finished p \<Longrightarrow> \<exists>q. pipe_step\<^sup>*\<^sup>* p q \<and> queue (chan q) = [] \<and> \<not> finished q
     \<and> senders_open q = senders_open p \<and> accepted q = accepted p \<and> outer_alive (coal q) = outer_alive (coal p)"
proof (induction "queue (chan p)" arbitrary: p)
  case Nil
  then show ?case by (intro exI [of _ p]) simp
next
  case (Cons ev qs)
  let ?p = "p\<lparr>chan := (chan p)\<lparr>queue := qs\<rparr>, coal := on_event (coal p) ev\<rparr>"
  have step: "pipe_step p ?p" using Cons by (intro ps_recv) auto
  from Cons.hyps(1) [of ?p] Cons.prems obtain q where "pipe_step\<^sup>*\<^sup>* ?p q \<and> queue (chan q) = []
     \<and> \<not> finished q \<and> senders_open q = senders_open p \<and> accepted q = accepted p
     \<and> outer_alive (coal q) = outer_alive (coal p)" by auto
  with step show ?case by (meson converse_rtranclp_into_rtranclp)
qed

text \<open>Once the engine has dropped its sender, the coalescer can always run to its end, and
  if the SSE receiver stays alive everything accepted has then been sent.\<close>

theorem coalescer_can_finish:
  assumes "pipe_reachable cap p" and "\<not> senders_open p" and "outer_alive (coal p)"
  shows "\<exists>q. pipe_step\<^sup>*\<^sup>* p q \<and> finished q \<and> visible (outer_sent (coal q)) = visible (accepted p)"
proof (cases "finished p")
  case True
  with inv_visible_sent [OF pipe_reachable_inv [OF assms(1)] assms(3)] show ?thesis by blast
next
  case False
  from drain_queue [OF this] obtain q where q: "pipe_step\<^sup>*\<^sup>* p q" "queue (chan q) = []" "\<not> finished q"
    "\<not> senders_open q" "accepted q = accepted p" "outer_alive (coal q)" using assms by auto
  let ?q = "q\<lparr>coal := flush_pending (coal q), finished := True, chan := (chan q)\<lparr>rx_alive := False\<rparr>\<rparr>"
  have "pipe_step q ?q" using q by (intro ps_drain) auto
  with q(1) have star: "pipe_step\<^sup>*\<^sup>* p ?q" by (rule rtranclp.rtrancl_into_rtrancl)
  have "pipe_inv cap ?q" using pipe_inv_star [OF star] pipe_reachable_inv [OF assms(1)] .
  from inv_visible_sent [OF this] q(5,6) have "visible (outer_sent (coal ?q)) = visible (accepted p)" by simp
  with star show ?thesis by (intro exI [of _ ?q]) simp
qed

theorem coalescer_can_finish_witness:
  "\<exists>q. pipe_step\<^sup>*\<^sup>* ((pipeline_new 2)\<lparr>senders_open := False\<rparr>) q \<and> finished q \<and> visible (outer_sent (coal q)) = []"
proof -
  have "pipe_reachable 2 ((pipeline_new 2)\<lparr>senders_open := False\<rparr>)" by (intro pr_step [OF pr_start] ps_close)
  from coalescer_can_finish [OF this] show ?thesis by (simp add: pipeline_new_def coalescer_new_def)
qed

end
