(* ===== verification/Stream_Registry.thy ===== *)
theory Stream_Registry
  imports Session_Store
begin

text \<open>
  \<open>gateway/stream_jobs.rs\<close>, \<open>gateway/stream_registry.rs\<close> and the resume endpoint of
  \<open>gateway/handlers/chat.rs\<close>: the running SSE streams, their replay buffers and the jobs that record them.
  The streams are a list of entries with distinct keys; a stream keeps all events it has broadcast, and a
  receiver is a position in that list, which gives the lag of a bounded broadcast channel. The \<open>n\<close>-th
  database call fails when \<open>ge_fails n\<close> holds. Cancellation tokens are numbers.
\<close>

section \<open>Jobs\<close>

record stream_job =
  j_id :: uuid
  j_session_id :: uuid
  j_agent_id :: bytes
  j_status :: bytes
  j_text :: bytes
  j_tool_calls :: json
  j_error_text :: "bytes option"
  j_created_at :: instant
  j_finished_at :: "instant option"

definition create_job :: "uuid \<Rightarrow> instant \<Rightarrow> uuid \<Rightarrow> bytes \<Rightarrow> stream_job list \<Rightarrow> stream_job list" where
  "create_job new_id now sid agent_id jobs =
     jobs @ [\<lparr>j_id = new_id, j_session_id = sid, j_agent_id = agent_id, j_status = ''running'', j_text = [],
       j_tool_calls = JArray [], j_error_text = None, j_created_at = now, j_finished_at = None\<rparr>]"

definition update_job :: "uuid \<Rightarrow> (stream_job \<Rightarrow> stream_job) \<Rightarrow> stream_job list \<Rightarrow> stream_job list" where
  "update_job i f jobs = map (\<lambda>j. if j_id j = i then f j else j) jobs"

definition set_content :: "uuid \<Rightarrow> bytes \<Rightarrow> json list \<Rightarrow> stream_job list \<Rightarrow> stream_job list" where
  "set_content i content tools jobs = update_job i (\<lambda>j. j\<lparr>j_text := content, j_tool_calls := JArray tools\<rparr>) jobs"

definition finish_job :: "uuid \<Rightarrow> instant \<Rightarrow> stream_job list \<Rightarrow> stream_job list" where
  "finish_job i now jobs = update_job i (\<lambda>j. j\<lparr>j_status := ''finished'', j_finished_at := Some now\<rparr>) jobs"

definition error_job :: "uuid \<Rightarrow> instant \<Rightarrow> bytes \<Rightarrow> stream_job list \<Rightarrow> stream_job list" where
  "error_job i now e jobs =
     update_job i (\<lambda>j. j\<lparr>j_status := ''error'', j_finished_at := Some now, j_error_text := Some e\<rparr>) jobs"

definition get_active_job :: "instant \<Rightarrow> uuid \<Rightarrow> stream_job list \<Rightarrow> stream_job option" where
  "get_active_job now sid jobs =
     (case rev (sort_key j_created_at (filter (\<lambda>j. j_session_id j = sid \<and> now < j_created_at j + from_secs 120) jobs)) of
        [] \<Rightarrow> None | j # _ \<Rightarrow> Some j)"

definition cleanup_old_jobs :: "instant \<Rightarrow> stream_job list \<Rightarrow> stream_job list \<times> nat" where
  "cleanup_old_jobs now jobs =
     (let old = (\<lambda>j. case j_finished_at j of Some t \<Rightarrow> t + from_secs 3600 < now | None \<Rightarrow> False)
      in (filter (\<lambda>j. \<not> old j) jobs, length (filter old jobs)))"

section \<open>The registry\<close>

definition BROADCAST_CAPACITY :: nat where
  "BROADCAST_CAPACITY = 1024"

definition MAX_BUFFER_SIZE :: nat where
  "MAX_BUFFER_SIZE = 1000"

definition MAX_ACTIVE_STREAMS :: nat where
  "MAX_ACTIVE_STREAMS = 50"

record active_stream =
  st_events :: "(64 word \<times> bytes) list"
  st_finished_at :: "instant option"
  st_next_event_id :: "64 word"
  st_sent :: "(64 word \<times> bytes) list"
  st_token :: nat
  st_finished :: bool
  st_session_id :: uuid
  st_job_id :: uuid

record registry_env =
  ge_fails :: "nat \<Rightarrow> bool"
  ge_now :: "nat \<Rightarrow> instant"
  ge_fresh :: "nat \<Rightarrow> uuid"
  ge_uuid_str :: "uuid \<Rightarrow> bytes"

record registry =
  rg_streams :: "(bytes \<times> active_stream) list"
  rg_jobs :: "stream_job list"
  rg_cancelled :: "nat list"
  rg_calls :: nat

definition jobs_call :: "registry_env \<Rightarrow> (instant \<Rightarrow> stream_job list \<Rightarrow> stream_job list) \<Rightarrow> registry \<Rightarrow> registry" where
  "jobs_call env f r =
     (let n = rg_calls r; r1 = r\<lparr>rg_calls := Suc n\<rparr>
      in if ge_fails env n then r1 else r1\<lparr>rg_jobs := f (ge_now env n) (rg_jobs r1)\<rparr>)"

definition new_stream :: "nat \<Rightarrow> uuid \<Rightarrow> uuid \<Rightarrow> active_stream" where
  "new_stream token sid job =
     \<lparr>st_events = [], st_finished_at = None, st_next_event_id = 0, st_sent = [], st_token = token, st_finished = False,
      st_session_id = sid, st_job_id = job\<rparr>"

definition update_stream :: "bytes \<Rightarrow> (active_stream \<Rightarrow> active_stream) \<Rightarrow> registry \<Rightarrow> registry" where
  "update_stream key f r = r\<lparr>rg_streams := map (\<lambda>(k, s). (k, if k = key then f s else s)) (rg_streams r)\<rparr>"

text \<open>The stream that a new registration replaces is cancelled, finished and its job is marked.\<close>

definition supersede :: "registry_env \<Rightarrow> bytes \<Rightarrow> registry \<Rightarrow> registry" where
  "supersede env key r = (case map_of (rg_streams r) key of
       None \<Rightarrow> r
     | Some old \<Rightarrow>
         jobs_call env (\<lambda>now. error_job (st_job_id old) now ''superseded by new stream'')
           (update_stream key (\<lambda>s. s\<lparr>st_finished := True, st_finished_at := Some (ge_now env (rg_calls r))\<rparr>)
              (r\<lparr>rg_cancelled := st_token old # rg_cancelled r\<rparr>)))"

text \<open>Registration creates the row of the job before it takes the lock of the map: other operations run between
  the two parts.\<close>

definition register_create :: "registry_env \<Rightarrow> uuid \<Rightarrow> bytes \<Rightarrow> registry \<Rightarrow> registry \<times> uuid option" where
  "register_create env sid agent_id r =
     (let n = rg_calls r
      in (jobs_call env (\<lambda>now. create_job (ge_fresh env n) now sid agent_id) r,
          if ge_fails env n then None else Some (ge_fresh env n)))"

definition register_insert :: "registry_env \<Rightarrow> uuid \<Rightarrow> nat \<Rightarrow> uuid \<Rightarrow> registry \<Rightarrow> registry \<times> uuid option" where
  "register_insert env sid token job_id r1 =
     (let key = ge_uuid_str env sid;
          r2 = (if MAX_ACTIVE_STREAMS \<le> length (rg_streams r1)
                then r1\<lparr>rg_streams := filter (\<lambda>(_, s). \<not> st_finished s) (rg_streams r1)\<rparr> else r1)
      in if MAX_ACTIVE_STREAMS \<le> length (rg_streams r2) then (r2, None)
         else
           let r3 = supersede env key r2
           in (r3\<lparr>rg_streams := al_insert key (new_stream token sid job_id) (rg_streams r3)\<rparr>, Some job_id))"

definition register_with_token :: "registry_env \<Rightarrow> uuid \<Rightarrow> bytes \<Rightarrow> nat \<Rightarrow> registry \<Rightarrow> registry \<times> uuid option" where
  "register_with_token env sid agent_id token r =
     (case register_create env sid agent_id r of
        (r1, None) \<Rightarrow> (r1, None)
      | (r1, Some job_id) \<Rightarrow> register_insert env sid token job_id r1)"

definition cancel_stream :: "bytes \<Rightarrow> registry \<Rightarrow> registry \<times> bool" where
  "cancel_stream key r = (case map_of (rg_streams r) key of
       Some s \<Rightarrow> (r\<lparr>rg_cancelled := st_token s # rg_cancelled r\<rparr>, True)
     | None \<Rightarrow> (r, False))"

definition push_to :: "bytes \<Rightarrow> active_stream \<Rightarrow> active_stream" where
  "push_to ev s =
     (let i = st_next_event_id s
      in s\<lparr>st_next_event_id := i + 1,
           st_events := (if length (st_events s) < MAX_BUFFER_SIZE then st_events s @ [(i, ev)] else st_events s),
           st_sent := st_sent s @ [(i, ev)]\<rparr>)"

definition push_event :: "bytes \<Rightarrow> bytes \<Rightarrow> registry \<Rightarrow> registry \<times> 64 word" where
  "push_event key ev r = (case map_of (rg_streams r) key of
       Some s \<Rightarrow> (update_stream key (push_to ev) r, st_next_event_id s)
     | None \<Rightarrow> (r, 0))"

definition set_finished_state :: "instant \<Rightarrow> bytes \<Rightarrow> registry \<Rightarrow> registry \<times> uuid option" where
  "set_finished_state now key r = (case map_of (rg_streams r) key of
       None \<Rightarrow> (r, None)
     | Some s \<Rightarrow> (update_stream key (\<lambda>s. s\<lparr>st_finished := True, st_finished_at := Some now\<rparr>) r, Some (st_job_id s)))"

definition mark_finished :: "registry_env \<Rightarrow> bytes \<Rightarrow> registry \<Rightarrow> registry" where
  "mark_finished env key r = (case set_finished_state (ge_now env (rg_calls r)) key r of
       (r1, Some job) \<Rightarrow> jobs_call env (finish_job job) r1
     | (r1, None) \<Rightarrow> r1)"

definition mark_error :: "registry_env \<Rightarrow> bytes \<Rightarrow> bytes \<Rightarrow> registry \<Rightarrow> registry" where
  "mark_error env key e r = (case set_finished_state (ge_now env (rg_calls r)) key r of
       (r1, Some job) \<Rightarrow> jobs_call env (\<lambda>now. error_job job now e) r1
     | (r1, None) \<Rightarrow> r1)"

definition snapshot_size :: "registry \<Rightarrow> 64 word" where
  "snapshot_size r = of_nat (length (rg_streams r))"

text \<open>A receiver starts behind the last event sent.\<close>

definition subscribe :: "bytes \<Rightarrow> registry \<Rightarrow> ((64 word \<times> bytes) list \<times> nat \<times> bool) option" where
  "subscribe key r = map_option (\<lambda>s. (st_events s, length (st_sent s), st_finished s)) (map_of (rg_streams r) key)"

text \<open>The two phases of \<open>cleanup\<close> run under different locks.\<close>

definition stream_cleanup_candidates :: "instant \<Rightarrow> duration \<Rightarrow> registry \<Rightarrow> bytes list" where
  "stream_cleanup_candidates now max_age r =
     map fst (filter (\<lambda>(_, s). st_finished s
       \<and> (case st_finished_at s of Some t \<Rightarrow> max_age \<le> duration_since now t | None \<Rightarrow> False)) (rg_streams r))"

definition stream_cleanup_remove :: "bytes list \<Rightarrow> registry \<Rightarrow> registry" where
  "stream_cleanup_remove keys r = r\<lparr>rg_streams := foldl (\<lambda>ss k. al_remove k ss) (rg_streams r) keys\<rparr>"

section \<open>Resuming a stream\<close>

datatype recv_result = ROk "64 word \<times> bytes" | Lagged nat | RClosed

text \<open>\<open>Receiver::recv\<close> on a channel that has sent \<open>sent\<close>; \<open>None\<close> when it has to wait.\<close>

definition recv :: "bool \<Rightarrow> (64 word \<times> bytes) list \<Rightarrow> nat \<Rightarrow> (recv_result \<times> nat) option" where
  "recv chan_closed sent pos =
     (if pos + BROADCAST_CAPACITY < length sent
      then Some (Lagged (length sent - BROADCAST_CAPACITY - pos), length sent - BROADCAST_CAPACITY)
      else if pos < length sent then Some (ROk (sent ! pos), Suc pos)
      else if chan_closed then Some (RClosed, pos)
      else None)"

text \<open>What a receiver reads until it has caught up.\<close>

function recv_all :: "bool \<Rightarrow> (64 word \<times> bytes) list \<Rightarrow> nat \<Rightarrow> recv_result list" where
  "recv_all chan_closed sent pos =
     (case recv chan_closed sent pos of
        None \<Rightarrow> []
      | Some (x, pos') \<Rightarrow> if x = RClosed then [x] else x # recv_all chan_closed sent pos')"
  by pat_completeness auto
termination
  by (relation "measure (\<lambda>(_, sent, pos). length sent - pos)")
     (auto simp: recv_def split: if_splits)

declare recv_all.simps [simp del]

definition DONE_FRAME :: bytes where
  "DONE_FRAME = ''[DONE]''"

definition is_terminal_frame :: "bytes \<Rightarrow> bool" where
  "is_terminal_frame ev \<longleftrightarrow>
     contains ev (dquote @ ''type'' @ dquote @ '':'' @ dquote @ ''finish'' @ dquote)
     \<or> contains ev (dquote @ ''type'' @ dquote @ '':'' @ dquote @ ''error'' @ dquote)"

text \<open>Phase 2: the frames sent for the results of \<open>recv\<close>, with the events still to be skipped.\<close>

fun live_frames :: "nat \<Rightarrow> recv_result list \<Rightarrow> bytes list" where
  "live_frames skip [] = []"
| "live_frames skip (RClosed # rs) = []"
| "live_frames skip (Lagged n # rs) = live_frames (skip - n) rs"
| "live_frames skip (ROk (seq, ev) # rs) =
     (if 0 < skip then live_frames (skip - 1) rs
      else if is_terminal_frame ev then [ev, DONE_FRAME]
      else ev # live_frames skip rs)"

definition resume_frames :: "(64 word \<times> bytes) list \<Rightarrow> bool \<Rightarrow> recv_result list \<Rightarrow> bytes list" where
  "resume_frames buffered already_finished rs =
     map snd buffered @ (if already_finished then [DONE_FRAME] else live_frames (length buffered) rs)"

text \<open>Without a stream in memory: the state of the recent job. A running job is marked lost.\<close>

definition sync_status :: "bytes \<Rightarrow> bytes" where
  "sync_status status =
     (if status = ''finished'' then ''finished'' else if status = ''error'' then ''error''
      else if status = ''running'' then ''interrupted'' else ''error'')"

definition resume_from_job :: "registry_env \<Rightarrow> uuid \<Rightarrow> registry \<Rightarrow> registry \<times> json option" where
  "resume_from_job env sid r =
     (let n = rg_calls r; r1 = r\<lparr>rg_calls := Suc n\<rparr>
      in if ge_fails env n then (r1, None)
         else case get_active_job (ge_now env n) sid (rg_jobs r1) of
           None \<Rightarrow> (r1, None)
         | Some job \<Rightarrow>
             (if j_status job = ''running''
              then jobs_call env (\<lambda>now. error_job (j_id job) now ''stream lost: core restarted'') r1 else r1,
              Some (JObject [(''type'', JString ''sync''), (''content'', JString (j_text job)), (''toolCalls'', j_tool_calls job),
                (''status'', JString (sync_status (j_status job))),
                (''error'', case j_error_text job of Some e \<Rightarrow> JString e | None \<Rightarrow> JNull)])))"

text \<open>The endpoint: \<open>parse\<close> is the parser of session ids, \<open>ser\<close> prints JSON, and \<open>rs\<close> are the results the
  receiver gives until the client has seen a terminal event or the channel is closed.\<close>

datatype resume_reply = NoContent | SseFrames "bytes list"

definition resume_stream ::
  "registry_env \<Rightarrow> (bytes \<Rightarrow> uuid option) \<Rightarrow> (json \<Rightarrow> bytes) \<Rightarrow> bytes \<Rightarrow> recv_result list \<Rightarrow> registry \<Rightarrow> registry \<times> resume_reply" where
  "resume_stream env parse ser i rs r =
     (case subscribe i r of
        Some (buffered, _, already_finished) \<Rightarrow> (r, SseFrames (resume_frames buffered already_finished rs))
      | None \<Rightarrow>
          (case parse i of
             None \<Rightarrow> (r, NoContent)
           | Some sid \<Rightarrow>
               (case resume_from_job env sid r of
                  (r1, Some sync) \<Rightarrow> (r1, SseFrames [ser sync, DONE_FRAME])
                | (r1, None) \<Rightarrow> (r1, NoContent))))"

section \<open>Steps of the registry\<close>

datatype registry_event =
    EvCreate uuid bytes
  | EvInsert uuid nat uuid
  | EvCancel bytes
  | EvPush bytes bytes
  | EvFinished bytes
  | EvError bytes bytes
  | EvRemove "bytes list"
  | EvResume uuid
  | EvContent uuid bytes "json list"
  | EvPurge

fun registry_step :: "registry_env \<Rightarrow> registry \<Rightarrow> registry_event \<Rightarrow> registry" where
  "registry_step env r (EvCreate sid agent) = fst (register_create env sid agent r)"
| "registry_step env r (EvInsert sid token job) = fst (register_insert env sid token job r)"
| "registry_step env r (EvCancel key) = fst (cancel_stream key r)"
| "registry_step env r (EvPush key ev) = fst (push_event key ev r)"
| "registry_step env r (EvFinished key) = mark_finished env key r"
| "registry_step env r (EvError key e) = mark_error env key e r"
| "registry_step env r (EvRemove ks) = stream_cleanup_remove ks r"
| "registry_step env r (EvResume sid) = fst (resume_from_job env sid r)"
| "registry_step env r (EvContent job content tools) = jobs_call env (\<lambda>_. set_content job content tools) r"
| "registry_step env r EvPurge = jobs_call env (\<lambda>now jobs. fst (cleanup_old_jobs now jobs)) r"

definition stream_wf :: "active_stream \<Rightarrow> bool" where
  "stream_wf s \<longleftrightarrow>
     st_events s = take MAX_BUFFER_SIZE (st_sent s)
     \<and> map fst (st_sent s) = map of_nat [0..<length (st_sent s)]
     \<and> st_next_event_id s = of_nat (length (st_sent s))
     \<and> st_finished s = (st_finished_at s \<noteq> None)"

definition registry_wf :: "registry \<Rightarrow> bool" where
  "registry_wf r \<longleftrightarrow>
     length (rg_streams r) \<le> MAX_ACTIVE_STREAMS
     \<and> distinct (map fst (rg_streams r))
     \<and> (\<forall>(k, s) \<in> set (rg_streams r). stream_wf s)"

definition empty_registry :: registry where
  "empty_registry = \<lparr>rg_streams = [], rg_jobs = [], rg_cancelled = [], rg_calls = 0\<rparr>"

lemma stream_wf_new [simp]: "stream_wf (new_stream token sid job)"
  by (simp add: stream_wf_def new_stream_def)

lemma stream_wf_push: "stream_wf s \<Longrightarrow> stream_wf (push_to ev s)"
  by (auto simp: stream_wf_def push_to_def Let_def min_def add.commute)

lemma stream_wf_finish: "stream_wf s \<Longrightarrow> stream_wf (s\<lparr>st_finished := True, st_finished_at := Some t\<rparr>)"
  by (simp add: stream_wf_def)

lemma keys_update_stream [simp]: "map fst (rg_streams (update_stream key f r)) = map fst (rg_streams r)"
  by (simp add: update_stream_def comp_def case_prod_unfold)

lemma length_update_stream [simp]: "length (rg_streams (update_stream key f r)) = length (rg_streams r)"
  by (simp add: update_stream_def)

lemma map_of_update_stream [simp]:
  "map_of (rg_streams (update_stream key f r)) k =
     (if k = key then map_option f (map_of (rg_streams r) k) else map_of (rg_streams r) k)"
proof -
  have "map_of (map (\<lambda>(k, s). (k, if k = key then f s else s)) xs) k =
      (if k = key then map_option f (map_of xs k) else map_of xs k)" for xs
    by (induction xs) auto
  then show ?thesis by (simp add: update_stream_def)
qed

lemma registry_wf_update:
  "registry_wf r \<Longrightarrow> (\<And>s. stream_wf s \<Longrightarrow> stream_wf (f s)) \<Longrightarrow> registry_wf (update_stream key f r)"
  unfolding registry_wf_def by (auto simp: update_stream_def comp_def case_prod_unfold)

lemma streams_jobs_call [simp]: "rg_streams (jobs_call env f r) = rg_streams r"
  by (simp add: jobs_call_def Let_def)

lemma registry_wf_cong: "rg_streams r' = rg_streams r \<Longrightarrow> registry_wf r' = registry_wf r"
  by (simp add: registry_wf_def)

lemma registry_wf_jobs_call [simp]: "registry_wf (jobs_call env f r) = registry_wf r"
  by (rule registry_wf_cong) simp

lemma registry_wf_cancelled [simp]: "registry_wf (r\<lparr>rg_cancelled := c\<rparr>) = registry_wf r"
  by (rule registry_wf_cong) simp

lemma registry_wf_calls [simp]: "registry_wf (r\<lparr>rg_calls := c\<rparr>) = registry_wf r"
  by (rule registry_wf_cong) simp

lemma registry_wf_filter:
  assumes "registry_wf r" and "rg_streams r' = filter P (rg_streams r)"
  shows "registry_wf r'"
  using assms le_trans [OF length_filter_le [of P "rg_streams r"]] by (auto simp: registry_wf_def distinct_map_filter)

lemma registry_wf_supersede: "registry_wf r \<Longrightarrow> registry_wf (supersede env key r)"
  by (auto simp: supersede_def stream_wf_finish intro!: registry_wf_update split: option.splits)

lemma length_supersede [simp]: "length (rg_streams (supersede env key r)) = length (rg_streams r)"
  by (simp add: supersede_def split: option.splits)

lemma registry_wf_insert:
  assumes "registry_wf r" and "length (rg_streams r) < MAX_ACTIVE_STREAMS" and "stream_wf s"
  shows "registry_wf (r\<lparr>rg_streams := al_insert key s (rg_streams r)\<rparr>)"
  using assms by (auto simp: registry_wf_def length_al_insert dest!: set_al_insert)

lemma registry_wf_register: "registry_wf r \<Longrightarrow> registry_wf (fst (register_insert env sid token job r))"
  unfolding register_insert_def Let_def
  by (auto intro!: registry_wf_insert registry_wf_supersede intro: registry_wf_filter)

lemma registry_wf_finished_state:
  "registry_wf r \<Longrightarrow> registry_wf (fst (set_finished_state now key r))"
  by (auto simp: set_finished_state_def stream_wf_finish intro!: registry_wf_update split: option.splits)

lemma al_remove_wf: "registry_wf r \<Longrightarrow> registry_wf (r\<lparr>rg_streams := al_remove k (rg_streams r)\<rparr>)"
  by (erule registry_wf_filter) (simp add: al_remove_def)

lemma registry_wf_remove: "registry_wf r \<Longrightarrow> registry_wf (stream_cleanup_remove ks r)"
proof (induction ks arbitrary: r)
  case (Cons k ks)
  from Cons.IH [OF al_remove_wf [OF Cons.prems, of k]] show ?case by (simp add: stream_cleanup_remove_def)
qed (simp add: stream_cleanup_remove_def)

lemma registry_step_wf: "registry_wf r \<Longrightarrow> registry_wf (registry_step env r e)"
proof (cases e)
  case (EvFinished key)
  then show "registry_wf r \<Longrightarrow> ?thesis"
    using registry_wf_finished_state [of r "ge_now env (rg_calls r)" key]
    by (auto simp: mark_finished_def split: prod.splits option.splits)
next
  case (EvError key err)
  then show "registry_wf r \<Longrightarrow> ?thesis"
    using registry_wf_finished_state [of r "ge_now env (rg_calls r)" key]
    by (auto simp: mark_error_def split: prod.splits option.splits)
qed (auto simp: register_create_def cancel_stream_def push_event_def resume_from_job_def Let_def registry_wf_register registry_wf_remove
      stream_wf_push intro!: registry_wf_update split: option.splits)

interpretation registry_inv: step_invariant "registry_step env" registry_wf for env
  by unfold_locales (rule registry_step_wf)

lemma registry_wf_empty [simp]: "registry_wf empty_registry"
  by (simp add: registry_wf_def empty_registry_def)

definition job_state_wf :: "bytes \<Rightarrow> instant option \<Rightarrow> bytes option \<Rightarrow> bool" where
  "job_state_wf status finished err \<longleftrightarrow>
     status \<in> {''running'', ''finished'', ''error''}
     \<and> (status = ''running'' \<longleftrightarrow> finished = None)
     \<and> (status = ''error'' \<longrightarrow> err \<noteq> None)"

lemma job_state_wf_simps [simp]:
  "job_state_wf ''running'' None e" "job_state_wf ''finished'' (Some t) e" "job_state_wf ''error'' (Some t) (Some x)"
  by (simp_all add: job_state_wf_def)

definition job_wf :: "stream_job \<Rightarrow> bool" where
  "job_wf j \<longleftrightarrow>
     job_state_wf (j_status j) (j_finished_at j) (j_error_text j) \<and> (\<exists>tools. j_tool_calls j = JArray tools)"

definition jobs_wf :: "registry \<Rightarrow> bool" where
  "jobs_wf r \<longleftrightarrow> (\<forall>j \<in> set (rg_jobs r). job_wf j)"

lemma jobs_wf_cong: "rg_jobs r' = rg_jobs r \<Longrightarrow> jobs_wf r' = jobs_wf r"
  by (simp add: jobs_wf_def)

lemma jobs_update_stream [simp]: "rg_jobs (update_stream key f r) = rg_jobs r"
  by (simp add: update_stream_def)

lemma jobs_wf_update_stream [simp]: "jobs_wf (update_stream key f r) = jobs_wf r"
  by (rule jobs_wf_cong) simp

lemma jobs_wf_update_job:
  "\<forall>j \<in> set jobs. job_wf j \<Longrightarrow> (\<And>j. job_wf j \<Longrightarrow> job_wf (f j)) \<Longrightarrow> \<forall>j \<in> set (update_job i f jobs). job_wf j"
  by (auto simp: update_job_def)

lemma jobs_wf_call:
  "jobs_wf r \<Longrightarrow> (\<And>now jobs. \<forall>j \<in> set jobs. job_wf j \<Longrightarrow> \<forall>j \<in> set (f now jobs). job_wf j) \<Longrightarrow> jobs_wf (jobs_call env f r)"
  by (auto simp: jobs_wf_def jobs_call_def Let_def)

lemma job_wf_upd [simp]:
  "job_wf j \<Longrightarrow> job_wf (j\<lparr>j_text := content, j_tool_calls := JArray tools\<rparr>)"
  "job_wf j \<Longrightarrow> job_wf (j\<lparr>j_status := ''finished'', j_finished_at := Some now\<rparr>)"
  "job_wf j \<Longrightarrow> job_wf (j\<lparr>j_status := ''error'', j_finished_at := Some now, j_error_text := Some e\<rparr>)"
  by (simp_all add: job_wf_def)

lemma create_job_wf: "\<forall>j \<in> set jobs. job_wf j \<Longrightarrow> \<forall>j \<in> set (create_job i now sid agent jobs). job_wf j"
  by (simp add: create_job_def job_wf_def)

lemma set_content_wf: "\<forall>j \<in> set jobs. job_wf j \<Longrightarrow> \<forall>j \<in> set (set_content i content tools jobs). job_wf j"
  unfolding set_content_def by (erule jobs_wf_update_job) simp

lemma finish_job_wf: "\<forall>j \<in> set jobs. job_wf j \<Longrightarrow> \<forall>j \<in> set (finish_job i now jobs). job_wf j"
  unfolding finish_job_def by (erule jobs_wf_update_job) simp

lemma error_job_wf: "\<forall>j \<in> set jobs. job_wf j \<Longrightarrow> \<forall>j \<in> set (error_job i now e jobs). job_wf j"
  unfolding error_job_def by (erule jobs_wf_update_job) simp

lemma cleanup_old_jobs_wf: "\<forall>j \<in> set jobs. job_wf j \<Longrightarrow> \<forall>j \<in> set (fst (cleanup_old_jobs now jobs)). job_wf j"
  by (simp add: cleanup_old_jobs_def Let_def)

lemmas job_ops_wf = create_job_wf set_content_wf finish_job_wf error_job_wf cleanup_old_jobs_wf

lemma jobs_wf_streams [simp]: "jobs_wf (r\<lparr>rg_streams := xs\<rparr>) = jobs_wf r"
  by (rule jobs_wf_cong) simp

lemma jobs_wf_cancelled [simp]: "jobs_wf (r\<lparr>rg_cancelled := xs\<rparr>) = jobs_wf r"
  by (rule jobs_wf_cong) simp

lemma jobs_wf_calls [simp]: "jobs_wf (r\<lparr>rg_calls := n\<rparr>) = jobs_wf r"
  by (rule jobs_wf_cong) simp

lemma jobs_wf_supersede: "jobs_wf r \<Longrightarrow> jobs_wf (supersede env key r)"
  by (auto simp: supersede_def intro!: jobs_wf_call job_ops_wf split: option.splits)

lemma registry_step_jobs_wf: "jobs_wf r \<Longrightarrow> jobs_wf (registry_step env r e)"
  by (cases e)
     (auto simp: register_create_def register_insert_def Let_def cancel_stream_def push_event_def mark_finished_def
       mark_error_def set_finished_state_def stream_cleanup_remove_def resume_from_job_def jobs_wf_supersede
       intro!: jobs_wf_call job_ops_wf split: option.splits prod.splits if_splits)

interpretation jobs_inv: step_invariant "registry_step env" jobs_wf for env
  by unfold_locales (rule registry_step_jobs_wf)

text \<open>C25: However the operations of the registry and the resume endpoint are interleaved and whichever database calls
  fail, there are never more than 50 streams and never two with one key; every stream's replay buffer is the
  prefix of 1000 events of what it broadcast, and the event ids count from 0.
\<close>

theorem registry_reachable_wf:
  assumes "r = foldl (registry_step env) empty_registry es"
  shows "length (rg_streams r) \<le> 50 \<and> distinct (map fst (rg_streams r))
    \<and> (\<forall>(key, s) \<in> set (rg_streams r). st_events s = take 1000 (st_sent s)
        \<and> map fst (st_sent s) = map of_nat [0..<length (st_sent s)]
        \<and> (st_finished s \<longleftrightarrow> st_finished_at s \<noteq> None))"
proof -
  have "registry_wf r" unfolding assms by (rule registry_inv.run_inv) simp
  then show ?thesis by (auto simp: registry_wf_def stream_wf_def MAX_ACTIVE_STREAMS_def MAX_BUFFER_SIZE_def)
qed

definition demo_registry_env :: registry_env where
  "demo_registry_env = \<lparr>ge_fails = (\<lambda>n. n = 7), ge_now = (\<lambda>n. n), ge_fresh = (\<lambda>n. n), ge_uuid_str = (\<lambda>u. replicate u CHR ''s'')\<rparr>"

lemma registry_reachable_wf_witness:
  "length (rg_streams (foldl (registry_step demo_registry_env) empty_registry [EvInsert 1 5 0, EvPush ''s'' ''a'', EvPush ''s'' ''b'']))
     \<le> 50
   \<and> map_option st_events (map_of (rg_streams (foldl (registry_step demo_registry_env) empty_registry
        [EvInsert 1 5 0, EvPush ''s'' ''a'', EvPush ''s'' ''b''])) ''s'') = Some [(0, ''a''), (1, ''b'')]"
  using registry_reachable_wf [of _ demo_registry_env "[EvInsert 1 5 0, EvPush ''s'' ''a'', EvPush ''s'' ''b'']", OF refl]
  by (simp add: empty_registry_def demo_registry_env_def register_insert_def Let_def MAX_ACTIVE_STREAMS_def supersede_def
      push_event_def push_to_def update_stream_def new_stream_def MAX_BUFFER_SIZE_def)

text \<open>C26: Every row of \<open>stream_jobs\<close> that the registry, the converter and the resume endpoint write has one of the
  three statuses, a finish time exactly when it is no longer running, an error text when its status is error,
  and an array of tool calls.
\<close>

theorem stream_jobs_well_typed:
  assumes "r = foldl (registry_step env) empty_registry es" and "j \<in> set (rg_jobs r)"
  shows "j_status j \<in> {''running'', ''finished'', ''error''}
    \<and> (j_status j = ''running'' \<longleftrightarrow> j_finished_at j = None)
    \<and> (j_status j = ''error'' \<longrightarrow> j_error_text j \<noteq> None)
    \<and> (\<exists>tools. j_tool_calls j = JArray tools)"
proof -
  have "jobs_wf r" unfolding assms(1) by (rule jobs_inv.run_inv) (simp add: jobs_wf_def empty_registry_def)
  from bspec [OF this [unfolded jobs_wf_def] assms(2)] show ?thesis unfolding job_wf_def job_state_wf_def conj_assoc .
qed

lemma stream_jobs_well_typed_witness:
  "\<exists>j \<in> set (rg_jobs (foldl (registry_step demo_registry_env) empty_registry [EvCreate 1 ''A'', EvInsert 1 5 0, EvFinished ''s''])).
     j_status j = ''finished'' \<and> (\<exists>tools. j_tool_calls j = JArray tools)"
proof -
  let ?j = "\<lparr>j_id = 0, j_session_id = 1, j_agent_id = ''A'', j_status = ''finished'', j_text = [], j_tool_calls = JArray [],
     j_error_text = None, j_created_at = 0, j_finished_at = Some 1\<rparr>"
  have "?j \<in> set (rg_jobs (foldl (registry_step demo_registry_env) empty_registry
      [EvCreate 1 ''A'', EvInsert 1 5 0, EvFinished ''s'']))"
    by (simp add: empty_registry_def demo_registry_env_def register_create_def register_insert_def Let_def MAX_ACTIVE_STREAMS_def
        supersede_def mark_finished_def set_finished_state_def update_stream_def new_stream_def jobs_call_def create_job_def
        finish_job_def update_job_def)
  from stream_jobs_well_typed [OF refl this] this show ?thesis by (intro bexI [of _ ?j]) auto
qed

section \<open>Resuming against a live stream\<close>

lemma recv_all_caught_up:
  assumes "pos \<le> length sent" and "length sent \<le> pos + BROADCAST_CAPACITY"
  shows "recv_all False sent pos = map ROk (drop pos sent)"
  using assms
proof (induction "length sent - pos" arbitrary: pos)
  case 0
  then show ?case by (simp add: recv_all.simps [of _ sent pos] recv_def)
next
  case (Suc n)
  then have "recv_all False sent (Suc pos) = map ROk (drop (Suc pos) sent)" and "pos < length sent" by simp_all
  with Suc.prems show ?case
    by (simp add: recv_all.simps [of _ sent pos] recv_def Cons_nth_drop_Suc [symmetric])
qed

text \<open>What a client is to see of a list of events: all of them up to the first terminal one, and the end marker
  after that.\<close>

fun until_terminal :: "bytes list \<Rightarrow> bytes list" where
  "until_terminal [] = []"
| "until_terminal (ev # evs) = (if is_terminal_frame ev then [ev, DONE_FRAME] else ev # until_terminal evs)"

lemma live_frames_ROk: "live_frames k (map ROk xs) = until_terminal (drop k (map snd xs))"
proof (induction xs arbitrary: k)
  case (Cons x xs)
  then show ?case by (cases x; cases k) auto
qed simp

lemma stream_after_pushes:
  "map_of (rg_streams r) key = Some s \<Longrightarrow>
   map_of (rg_streams (foldl (\<lambda>r ev. fst (push_event key ev r)) r evs)) key = Some (foldl (\<lambda>s ev. push_to ev s) s evs)"
  by (induction evs arbitrary: r s) (auto simp: push_event_def)

lemma sent_after_pushes: "map snd (st_sent (foldl (\<lambda>s ev. push_to ev s) s evs)) = map snd (st_sent s) @ evs"
  by (induction evs arbitrary: s) (auto simp: push_to_def Let_def)

lemma sent_after_pushes_prefix: "\<exists>xs. st_sent (foldl (\<lambda>s ev. push_to ev s) s evs) = st_sent s @ xs \<and> map snd xs = evs"
proof (induction evs arbitrary: s)
  case (Cons ev evs)
  obtain xs where "st_sent (foldl (\<lambda>s ev. push_to ev s) (push_to ev s) evs) = st_sent (push_to ev s) @ xs" and "map snd xs = evs"
    using Cons.IH by metis
  then show ?case by (intro exI [of _ "(st_next_event_id s, ev) # xs"]) (simp add: push_to_def Let_def)
qed simp

text \<open>C29: Subscribing takes the snapshot and the position of the receiver at the same instant, so the snapshot and the
  events read from the receiver together are the whole stream, with nothing twice. The resume endpoint
  nevertheless drops as many live events as it replayed: the client misses the first events pushed after it
  subscribed, up to and including the terminal one if fewer than that follow. This is for a stream of at most
  1000 events when the client subscribes (beyond that the buffer has lost its oldest ones) and at most 1024
  events after that before the client reads (beyond that the receiver lags).
\<close>

theorem resume_skips_live_events:
  assumes "registry_wf r" and "map_of (rg_streams r) key = Some s" and "length (st_sent s) \<le> 1000"
    and "length evs \<le> 1024" and "subscribe key r = Some (buffered, pos, False)"
    and "r' = foldl (\<lambda>r ev. fst (push_event key ev r)) r evs"
    and "map_of (rg_streams r') key = Some s'"
  shows "map snd (st_sent s') = map snd buffered @ evs
    \<and> resume_frames buffered False (recv_all False (st_sent s') pos)
        = map snd buffered @ until_terminal (drop (length buffered) evs)"
proof -
  from assms(2,5) have b: "buffered = st_events s" "pos = length (st_sent s)" by (auto simp: subscribe_def)
  from assms(1,2) have "stream_wf s" by (auto simp: registry_wf_def dest!: map_of_SomeD)
  with assms(3) have e: "st_events s = st_sent s" by (simp add: stream_wf_def MAX_BUFFER_SIZE_def)
  from stream_after_pushes [OF assms(2), of evs] assms(6,7) have s': "s' = foldl (\<lambda>s ev. push_to ev s) s evs" by simp
  obtain xs where xs: "st_sent s' = st_sent s @ xs" "map snd xs = evs"
    using sent_after_pushes_prefix [of s evs] unfolding s' by blast
  then have "length xs = length evs" by auto
  with assms(4) have "recv_all False (st_sent s') pos = map ROk xs"
    by (simp add: recv_all_caught_up b(2) xs(1) BROADCAST_CAPACITY_def)
  then show ?thesis by (simp add: resume_frames_def live_frames_ROk b e xs)
qed

lemma resume_skips_live_events_witness:
  "let r = foldl (registry_step demo_registry_env) empty_registry [EvInsert 1 5 0, EvPush ''s'' ''a''];
       s' = foldl (\<lambda>s ev. push_to ev s) (push_to ''a'' (new_stream 5 1 0)) [''b'', ''c'']
   in resume_frames [(0, ''a'')] False (recv_all False (st_sent s') 1) = [''a'', ''c'']"
proof -
  let ?r = "foldl (registry_step demo_registry_env) empty_registry [EvInsert 1 5 0, EvPush ''s'' ''a'']"
  let ?s = "push_to ''a'' (new_stream 5 1 0)"
  have s: "map_of (rg_streams ?r) ''s'' = Some ?s"
    by (simp add: empty_registry_def demo_registry_env_def register_insert_def Let_def MAX_ACTIVE_STREAMS_def supersede_def
        push_event_def update_stream_def)
  have ev: "st_events ?s = [(0, ''a'')]" "length (st_sent ?s) = 1" "st_finished ?s = False"
    by (simp_all add: push_to_def new_stream_def Let_def MAX_BUFFER_SIZE_def)
  have "subscribe ''s'' ?r = Some ([(0, ''a'')], 1, False)" by (simp only: subscribe_def s ev option.map)
  from resume_skips_live_events [OF registry_inv.run_inv [OF registry_wf_empty] s _ _ this refl
      stream_after_pushes [OF s, of "[''b'', ''c'']"]] ev(2)
  have "resume_frames [(0, ''a'')] False (recv_all False (st_sent (foldl (\<lambda>s ev. push_to ev s) ?s [''b'', ''c''])) 1)
      = ''a'' # until_terminal [''c'']" by (simp del: foldl.simps until_terminal.simps)
  moreover have "\<not> is_terminal_frame ''c''" by code_simp
  ultimately show ?thesis by (simp add: Let_def del: foldl.simps)
qed

lemma register_insertD:
  "register_insert env sid token j r = (r1, Some job) \<Longrightarrow>
   job = j \<and> map_of (rg_streams r1) (ge_uuid_str env sid) = Some (new_stream token sid j)"
  by (auto simp: register_insert_def Let_def split: if_splits)

lemma registered_stream:
  "register_with_token env sid agent token r = (r1, Some job) \<Longrightarrow>
   map_of (rg_streams r1) (ge_uuid_str env sid) = Some (new_stream token sid job)"
  by (auto simp: register_with_token_def dest!: register_insertD split: prod.splits option.splits)

lemma finish_job_status: "j \<in> set (finish_job i now jobs) \<Longrightarrow> j_id j = i \<Longrightarrow> j_status j = ''finished''"
  unfolding finish_job_def update_job_def set_map by (erule imageE) (simp split: if_splits)

text \<open>The converter of a superseded stream addresses its stream by the session only: when it ends after a second
  request of the session has registered, it marks the stream of the second request finished, and that
  request's job too.
\<close>

theorem stale_finish_hits_new_stream:
  assumes "register_with_token env sid agent token r = (r1, Some job)" and "\<not> ge_fails env (rg_calls r1)"
  shows "\<exists>s. map_of (rg_streams (mark_finished env (ge_uuid_str env sid) r1)) (ge_uuid_str env sid) = Some s
      \<and> st_token s = token \<and> st_finished s
      \<and> (\<forall>j \<in> set (rg_jobs (mark_finished env (ge_uuid_str env sid) r1)). j_id j = job \<longrightarrow> j_status j = ''finished'')"
proof -
  let ?key = "ge_uuid_str env sid"
  have j: "st_job_id (new_stream token sid job) = job" "st_token (new_stream token sid job) = token"
    by (simp_all add: new_stream_def)
  have m: "mark_finished env ?key r1 = jobs_call env (finish_job job)
      (update_stream ?key (\<lambda>s. s\<lparr>st_finished := True, st_finished_at := Some (ge_now env (rg_calls r1))\<rparr>) r1)"
    by (simp add: mark_finished_def set_finished_state_def registered_stream [OF assms(1)] j)
  have "rg_jobs (mark_finished env ?key r1) = finish_job job (ge_now env (rg_calls r1)) (rg_jobs r1)"
    using assms(2) by (simp add: m jobs_call_def Let_def update_stream_def)
  then show ?thesis by (auto simp: m registered_stream [OF assms(1)] j intro: finish_job_status)
qed

lemma stale_finish_hits_new_stream_witness:
  "let r = fst (register_with_token demo_registry_env 1 ''A'' 5 empty_registry);
       r1 = fst (register_with_token demo_registry_env 1 ''A'' 6 r)
   in snd (register_with_token demo_registry_env 1 ''A'' 6 r) = Some 1
     \<and> rg_cancelled r1 = [5]
     \<and> (\<exists>s. map_of (rg_streams (mark_finished demo_registry_env ''s'' r1)) ''s'' = Some s \<and> st_token s = 6 \<and> st_finished s)"
proof -
  let ?r = "fst (register_with_token demo_registry_env 1 ''A'' 5 empty_registry)"
  let ?r1 = "fst (register_with_token demo_registry_env 1 ''A'' 6 ?r)"
  have reg: "snd (register_with_token demo_registry_env 1 ''A'' 6 ?r) = Some 1 \<and> rg_cancelled ?r1 = [5] \<and> rg_calls ?r1 = 3
      \<and> ge_uuid_str demo_registry_env 1 = ''s''"
    by (simp add: register_with_token_def register_create_def register_insert_def Let_def empty_registry_def demo_registry_env_def
        MAX_ACTIVE_STREAMS_def supersede_def jobs_call_def update_stream_def new_stream_def)
  then have "register_with_token demo_registry_env 1 ''A'' 6 ?r = (?r1, Some 1)" by (simp add: prod_eq_iff)
  from stale_finish_hits_new_stream [OF this] reg show ?thesis by (auto simp: Let_def demo_registry_env_def)
qed

lemma insort_key_snoc: "f y \<le> f x \<Longrightarrow> insort_key f y (zs @ [x]) = insort_key f y zs @ [x]" for f :: "'a \<Rightarrow> 'b::linorder"
  by (induction zs) auto

lemma sort_key_snoc: "\<forall>y \<in> set xs. f y \<le> f x \<Longrightarrow> sort_key f (xs @ [x]) = sort_key f xs @ [x]" for f :: "'a \<Rightarrow> 'b::linorder"
  by (induction xs) (auto simp: insort_key_snoc)

lemma get_active_job_created:
  assumes "\<forall>j \<in> set jobs. j_created_at j \<le> t" and "now < t + from_secs 120"
  shows "map_option j_id (get_active_job now sid (create_job i t sid agent jobs)) = Some i
    \<and> map_option j_status (get_active_job now sid (create_job i t sid agent jobs)) = Some ''running''"
  using assms by (simp add: get_active_job_def create_job_def sort_key_snoc)

lemma error_job_status: "j \<in> set (error_job i now e jobs) \<Longrightarrow> j_id j = i \<Longrightarrow> j_status j = ''error''"
  unfolding error_job_def update_job_def set_map by (erule imageE) (simp split: if_splits)

text \<open>A resume request that arrives between the two parts of a registration finds the new job without its stream:
  it reports the stream as interrupted and marks the job of the stream that is just starting as lost.
\<close>

theorem resume_during_registration_reports_lost:
  assumes "register_create env sid agent r = (r1, Some job)"
    and "\<forall>j \<in> set (rg_jobs r). j_created_at j \<le> ge_now env (rg_calls r)"
    and "ge_now env (Suc (rg_calls r)) < ge_now env (rg_calls r) + from_secs 120"
    and "\<not> ge_fails env (Suc (rg_calls r))" and "\<not> ge_fails env (Suc (Suc (rg_calls r)))"
    and "resume_from_job env sid r1 = (r2, reply)"
  shows "(\<exists>fields. reply = Some (JObject fields) \<and> map_of fields ''status'' = Some (JString ''interrupted''))
    \<and> (\<forall>j \<in> set (rg_jobs r2). j_id j = job \<longrightarrow> j_status j = ''error'')"
proof -
  let ?n = "rg_calls r"
  let ?jobs = "create_job job (ge_now env ?n) sid agent (rg_jobs r)"
  from assms(1) have r1: "r1 = r\<lparr>rg_calls := Suc ?n, rg_jobs := ?jobs\<rparr>"
    by (auto simp: register_create_def jobs_call_def Let_def split: if_splits)
  obtain j where j: "get_active_job (ge_now env (Suc ?n)) sid ?jobs = Some j" "j_id j = job" "j_status j = ''running''"
    using get_active_job_created [OF assms(2,3), of sid job agent] by auto
  from assms(4-6) have "r2 = r1\<lparr>rg_calls := Suc (Suc (Suc ?n)), rg_jobs := error_job job (ge_now env (Suc (Suc ?n))) ''stream lost: core restarted'' ?jobs\<rparr>"
    and "reply = Some (JObject [(''type'', JString ''sync''), (''content'', JString (j_text j)), (''toolCalls'', j_tool_calls j),
      (''status'', JString ''interrupted''), (''error'', case j_error_text j of Some e \<Rightarrow> JString e | None \<Rightarrow> JNull)])"
    by (auto simp: resume_from_job_def Let_def r1 j jobs_call_def sync_status_def)
  then show ?thesis by (auto intro: error_job_status)
qed

lemma resume_during_registration_reports_lost_witness:
  "let r1 = fst (register_create demo_registry_env 1 ''A'' empty_registry); r2 = fst (resume_from_job demo_registry_env 1 r1)
   in map j_id (rg_jobs r2) = [0] \<and> (\<forall>j \<in> set (rg_jobs r2). j_id j = 0 \<longrightarrow> j_status j = ''error'')
     \<and> snd (register_insert demo_registry_env 1 5 0 r2) = Some 0"
proof -
  let ?r1 = "fst (register_create demo_registry_env 1 ''A'' empty_registry)"
  let ?r2 = "fst (resume_from_job demo_registry_env 1 ?r1)"
  have "register_create demo_registry_env 1 ''A'' empty_registry = (?r1, Some 0)"
    by (simp add: register_create_def Let_def empty_registry_def demo_registry_env_def)
  moreover have "rg_calls empty_registry = 0" "rg_jobs empty_registry = []" "\<not> ge_fails demo_registry_env 1"
      "\<not> ge_fails demo_registry_env 2" "ge_now demo_registry_env 1 < ge_now demo_registry_env 0 + from_secs 120"
    by (simp_all add: empty_registry_def demo_registry_env_def from_secs_def nanos_per_sec_def)
  ultimately have "\<forall>j \<in> set (rg_jobs ?r2). j_id j = 0 \<longrightarrow> j_status j = ''error''"
    using resume_during_registration_reports_lost [OF _ _ _ _ _ surjective_pairing] by (simp add: numeral_2_eq_2)
  moreover have "map j_id (rg_jobs ?r2) = [0]" and "rg_streams ?r2 = []"
    by (simp_all add: register_create_def resume_from_job_def jobs_call_def Let_def empty_registry_def demo_registry_env_def
        create_job_def get_active_job_def from_secs_def nanos_per_sec_def error_job_def update_job_def)
  ultimately show ?thesis by (simp add: Let_def register_insert_def MAX_ACTIVE_STREAMS_def)
qed

end
