(* ===== verification/Sse_Converter.thy ===== *)
theory Sse_Converter
  imports Stream_Registry Mention_Parser
begin

text \<open>
  The SSE chat endpoint of \<open>gateway/handlers/chat.rs\<close>: the routing of a request, the helpers, and the converter
  task that turns the engine's events into frames for the client and for the stream registry, keeps the streaming
  message row and the stream job, and ends a cancelled or abandoned run; with the poll helper of
  \<open>gateway/handlers/cancel_grace.rs\<close>. Printing and parsing of JSON and of UUIDs are arguments. The \<open>n\<close>-th call
  of the task reads the clock \<open>ce_now n\<close>, finds the client's channel in the state \<open>ce_sse n\<close> and fails, if it is
  a database call, when \<open>ce_fails n\<close> holds. Events of the engine arrive at given instants; other tasks write
  other rows.
\<close>

section \<open>The request\<close>

record message_part =
  mp_type :: bytes
  mp_text :: "bytes option"

record openai_message =
  om_role :: bytes
  om_content :: "bytes option"
  om_parts :: "message_part list option"

record chat_sse_request =
  cr_messages :: "openai_message list"
  cr_agent :: "bytes option"
  cr_session_id :: "bytes option"
  cr_id :: "bytes option"
  cr_force_new_session :: bool
  cr_leaf_message_id :: "uuid option"
  cr_user_message_id :: "uuid option"

definition part_text :: "message_part \<Rightarrow> bytes option" where
  "part_text p = (if mp_type p = ''text'' then (case mp_text p of Some t \<Rightarrow> if t \<noteq> [] then Some t else None | None \<Rightarrow> None) else None)"

definition parts_text :: "message_part list option \<Rightarrow> bytes option" where
  "parts_text parts =
     (case parts of
        None \<Rightarrow> None
      | Some ps \<Rightarrow> (case List.map_filter part_text (rev ps) of [] \<Rightarrow> None | t # _ \<Rightarrow> Some t))"

definition message_text :: "openai_message \<Rightarrow> bytes option" where
  "message_text m =
     (case om_content m of
        Some c \<Rightarrow> if c \<noteq> [] then Some c else parts_text (om_parts m)
      | None \<Rightarrow> parts_text (om_parts m))"

definition last_user_text :: "openai_message list \<Rightarrow> bytes" where
  "last_user_text ms =
     (case List.find (\<lambda>m. om_role m = ''user'') (rev ms) of
        Some m \<Rightarrow> unwrap_or (message_text m) []
      | None \<Rightarrow> [])"

datatype chat_refusal = NoAgent | NoMessages | RoutePanicked

text \<open>The routing up to the message for the engine: \<open>engines\<close> are the names of the running agents, \<open>keys\<close> those of
  the later lookup. A refused request gets the status 400.\<close>

record chat_route =
  ct_agent :: bytes
  ct_text :: bytes
  ct_mentioned :: "bytes option"
  ct_session_id :: "uuid option"
  ct_force_new :: bool

definition route_chat ::
  "(bytes \<Rightarrow> bytes) \<Rightarrow> (bytes \<Rightarrow> uuid option) \<Rightarrow> bytes list \<Rightarrow> bytes list \<Rightarrow> chat_sse_request \<Rightarrow> (chat_refusal, chat_route) result" where
  "route_chat lower parse engines keys req =
     (let name = unwrap_or (cr_agent req) [];
          engine = (if name = [] then (case engines of e # _ \<Rightarrow> Some e | [] \<Rightarrow> None)
                    else if name \<in> set engines then Some name else None);
          user_text = last_user_text (cr_messages req);
          session_id = Option.bind (case cr_session_id req of Some s \<Rightarrow> Some s | None \<Rightarrow> cr_id req) parse
      in case engine of
           None \<Rightarrow> Inl NoAgent
         | Some eng \<Rightarrow>
             if cr_messages req = [] then Inl NoMessages
             else
               let route = (\<lambda>a t m. Inr \<lparr>ct_agent = a, ct_text = t, ct_mentioned = m, ct_session_id = session_id,
                     ct_force_new = (cr_force_new_session req \<and> session_id = None)\<rparr>)
               in case parse_first_mention lower user_text keys of
                    None \<Rightarrow> Inl RoutePanicked
                  | Some None \<Rightarrow> route eng user_text None
                  | Some (Some target) \<Rightarrow>
                      if target \<in> set engines
                      then (case strip_mention lower user_text target of
                              None \<Rightarrow> Inl RoutePanicked
                            | Some cleaned \<Rightarrow> route target cleaned (Some target))
                      else route eng user_text None)"

definition api_chat_abort :: "bytes \<Rightarrow> registry \<Rightarrow> registry \<times> nat" where
  "api_chat_abort sid r = (let (r', cancelled) = cancel_stream sid r in (r', if cancelled then 200 else 404))"

section \<open>The guard of the streaming row\<close>

record streaming_guard =
  sg_msg_id :: uuid
  sg_session_id :: "uuid option"
  sg_finalized :: bool

definition streaming_guard_new :: "uuid \<Rightarrow> streaming_guard" where
  "streaming_guard_new i = \<lparr>sg_msg_id = i, sg_session_id = None, sg_finalized = False\<rparr>"

datatype sse_task = FinalizeTask uuid | InviteTask uuid bytes | TitleTask uuid bytes

definition streaming_guard_drop :: "streaming_guard \<Rightarrow> sse_task list" where
  "streaming_guard_drop g = (if \<not> sg_finalized g \<and> sg_session_id g \<noteq> None then [FinalizeTask (sg_msg_id g)] else [])"

definition run_sse_task :: "sse_task \<Rightarrow> database \<Rightarrow> database" where
  "run_sse_task t db = (case t of
       FinalizeTask i \<Rightarrow> finalize_streaming_message i db
     | InviteTask sid agent \<Rightarrow> fst (add_participant sid agent db)
     | TitleTask sid txt \<Rightarrow> auto_title_session sid txt db)"

section \<open>Polling with a deadline\<close>

datatype 'e grace_poll = GraceEvent 'e | GraceClosed | GraceExceeded

text \<open>The next arrival on the channel: an event or its closing, at an instant; \<open>[]\<close> when nothing ever comes. A
  value that is ready wins against a deadline that has passed. \<open>None\<close>: the call does not return.\<close>

fun poll_event_with_cancel_grace :: "instant \<Rightarrow> instant option \<Rightarrow> (instant \<times> 'e option) list \<Rightarrow> 'e grace_poll option" where
  "poll_event_with_cancel_grace now None [] = None"
| "poll_event_with_cancel_grace now (Some dl) [] = Some GraceExceeded"
| "poll_event_with_cancel_grace now deadline ((t, ev) # _) =
     (if (case deadline of Some dl \<Rightarrow> max dl now < t | None \<Rightarrow> False) then Some GraceExceeded
      else Some (case ev of Some e \<Rightarrow> GraceEvent e | None \<Rightarrow> GraceClosed))"

section \<open>The converter\<close>

datatype sse_chan = ChanOpen | ChanFull | ChanClosed

record converter_env =
  ce_registry :: registry_env
  ce_ser :: "json \<Rightarrow> bytes"
  ce_parse_json :: "bytes \<Rightarrow> json option"
  ce_parse_uuid :: "bytes \<Rightarrow> uuid option"
  ce_agent_name :: bytes
  ce_token :: nat
  ce_mentioned :: "bytes option"
  ce_user_text :: bytes
  ce_fails :: "nat \<Rightarrow> bool"
  ce_now :: "nat \<Rightarrow> instant"
  ce_sse :: "nat \<Rightarrow> sse_chan"
  ce_fresh_id :: "nat \<Rightarrow> uuid"
  ce_cancelled :: "nat \<Rightarrow> bool"

text \<open>\<open>cv_frames\<close> lists every frame that was passed to \<open>send_and_buffer!\<close>, \<open>cv_client\<close> the text of those that
  entered the client's channel.\<close>

record converter =
  cv_registry :: registry
  cv_db :: database
  cv_calls :: nat
  cv_frames :: "json list"
  cv_client :: "bytes list"
  cv_text_id_counter :: nat
  cv_pending_text_end :: "bytes option"
  cv_tool_names :: "(bytes \<times> bytes) list"
  cv_session_id_str :: "bytes option"
  cv_agent :: bytes
  cv_client_gone_since :: "instant option"
  cv_finished_sent :: bool
  cv_cancel_token :: "nat option"
  cv_job_id :: "uuid option"
  cv_text :: bytes
  cv_tools :: "json list"
  cv_tools_flushed :: nat
  cv_tools_cache :: "json option"
  cv_msg_id :: uuid
  cv_guard :: streaming_guard
  cv_last_db_flush :: instant
  cv_session_uuid :: "uuid option"
  cv_logged_cancel :: bool
  cv_cancel_deadline :: "instant option"
  cv_spawned :: "sse_task list"
  cv_engine_aborted :: bool

definition converter_new :: "converter_env \<Rightarrow> registry \<Rightarrow> database \<Rightarrow> converter" where
  "converter_new env r db =
     \<lparr>cv_registry = r, cv_db = db, cv_calls = 2, cv_frames = [], cv_client = [], cv_text_id_counter = 0,
      cv_pending_text_end = None, cv_tool_names = [], cv_session_id_str = None, cv_agent = ce_agent_name env,
      cv_client_gone_since = None, cv_finished_sent = False, cv_cancel_token = None, cv_job_id = None, cv_text = [],
      cv_tools = [], cv_tools_flushed = 0, cv_tools_cache = None, cv_msg_id = ce_fresh_id env 0,
      cv_guard = streaming_guard_new (ce_fresh_id env 0), cv_last_db_flush = ce_now env 1, cv_session_uuid = None,
      cv_logged_cancel = False, cv_cancel_deadline = None, cv_spawned = [], cv_engine_aborted = False\<rparr>"

text \<open>A database call of the task: the result is lost when the call fails.\<close>

definition db_call :: "converter_env \<Rightarrow> (instant \<Rightarrow> database \<Rightarrow> (db_error, database) result) \<Rightarrow> converter \<Rightarrow> converter \<times> bool" where
  "db_call env f st =
     (let n = cv_calls st; st1 = st\<lparr>cv_calls := Suc n\<rparr>
      in if ce_fails env n then (st1, False)
         else case f (ce_now env n) (cv_db st1) of
                Inl _ \<Rightarrow> (st1, False)
              | Inr db \<Rightarrow> (st1\<lparr>cv_db := db\<rparr>, True))"

definition build_tools_json :: "json list \<Rightarrow> nat \<Rightarrow> json option \<Rightarrow> json option \<times> nat \<times> json option" where
  "build_tools_json tools flushed_count cache =
     (if tools = [] then (None, flushed_count, cache)
      else if cache = None \<or> length tools \<noteq> flushed_count
           then (Some (JArray tools), length tools, Some (JArray tools))
           else (cache, flushed_count, cache))"

definition append_streaming_row ::
  "uuid \<Rightarrow> instant \<Rightarrow> uuid \<Rightarrow> bytes \<Rightarrow> bytes \<Rightarrow> json option \<Rightarrow> database \<Rightarrow> (db_error, database) result" where
  "append_streaming_row msg_id now sid agent_id text_delta tool_calls db =
     (if msg_id \<in> set (message_ids db)
      then Inr (fst (update_messages (\<lambda>m. m_id m = msg_id)
                      (\<lambda>m. m\<lparr>m_content := m_content m @ text_delta, m_tool_calls := tool_calls\<rparr>) db))
      else insert_message ((new_row msg_id now sid ''assistant'' text_delta tool_calls None (Some agent_id) None
                             (map_option m_id (last_user_row sid db)))\<lparr>m_status := ''streaming''\<rparr>) db)"

definition upsert_streaming_append ::
  "converter_env \<Rightarrow> uuid \<Rightarrow> uuid \<Rightarrow> bytes \<Rightarrow> bytes \<Rightarrow> json option \<Rightarrow> converter \<Rightarrow> converter \<times> bool" where
  "upsert_streaming_append env msg_id sid agent_id text_delta tool_calls st =
     (case db_call env (\<lambda>now. append_streaming_row msg_id now sid agent_id text_delta tool_calls) st of
        (st1, True) \<Rightarrow> (fst (db_call env (\<lambda>now db. Inr (touch_session_activity sid now db)) st1), True)
      | (st1, False) \<Rightarrow> (st1, False))"

definition read_streaming_content :: "converter_env \<Rightarrow> uuid \<Rightarrow> converter \<Rightarrow> converter \<times> bytes" where
  "read_streaming_content env msg_id st =
     (let n = cv_calls st; st1 = st\<lparr>cv_calls := Suc n\<rparr>
      in if ce_fails env n then (st1, [])
         else (st1, case List.find (\<lambda>m. m_id m = msg_id) (messages (cv_db st)) of Some m \<Rightarrow> m_content m | None \<Rightarrow> []))"

text \<open>The macro \<open>send_and_buffer!\<close>.\<close>

definition send_and_buffer :: "converter_env \<Rightarrow> json \<Rightarrow> converter \<Rightarrow> converter" where
  "send_and_buffer env frame st =
     (let txt = ce_ser env frame;
          st1 = (case cv_session_id_str st of
                   Some sid \<Rightarrow> st\<lparr>cv_registry := fst (push_event sid txt (cv_registry st))\<rparr>
                 | None \<Rightarrow> st);
          n = cv_calls st1;
          st2 = st1\<lparr>cv_calls := Suc n, cv_frames := cv_frames st1 @ [frame]\<rparr>
      in case ce_sse env n of
           ChanOpen \<Rightarrow> st2\<lparr>cv_client_gone_since := None, cv_client := cv_client st2 @ [txt]\<rparr>
         | ChanFull \<Rightarrow> st2\<lparr>cv_client_gone_since := None\<rparr>
         | ChanClosed \<Rightarrow>
             st2\<lparr>cv_client_gone_since := (case cv_client_gone_since st2 of None \<Rightarrow> Some (ce_now env n) | Some t \<Rightarrow> Some t)\<rparr>)"

definition text_start_frame :: "bytes \<Rightarrow> bytes \<Rightarrow> json" where
  "text_start_frame i agent = JObject [(''type'', JString ''text-start''), (''id'', JString i), (''agentName'', JString agent)]"

definition text_delta_frame :: "bytes \<Rightarrow> bytes \<Rightarrow> json" where
  "text_delta_frame i delta = JObject [(''type'', JString ''text-delta''), (''id'', JString i), (''delta'', JString delta)]"

definition text_end_frame :: "bytes \<Rightarrow> json" where
  "text_end_frame i = JObject [(''type'', JString ''text-end''), (''id'', JString i)]"

definition flush_text_end :: "converter_env \<Rightarrow> converter \<Rightarrow> converter" where
  "flush_text_end env st = (case cv_pending_text_end st of
       Some i \<Rightarrow> send_and_buffer env (text_end_frame i) (st\<lparr>cv_pending_text_end := None\<rparr>)
     | None \<Rightarrow> st)"

definition take_tools_json :: "converter \<Rightarrow> converter \<times> json option" where
  "take_tools_json st =
     (let (j, n, c) = build_tools_json (cv_tools st) (cv_tools_flushed st) (cv_tools_cache st)
      in (st\<lparr>cv_tools_flushed := n, cv_tools_cache := c\<rparr>, j))"

text \<open>The four steps that end a streaming message, the same at \<open>Finish\<close>, at \<open>Error\<close> and at the exit: append the rest
  of the text, read the whole text back, store it in the job, delete the row.\<close>

definition finalize_streaming :: "converter_env \<Rightarrow> converter \<Rightarrow> converter" where
  "finalize_streaming env st = (case cv_session_uuid st of
       None \<Rightarrow> st
     | Some sid \<Rightarrow>
         let (st1, tools_json) = take_tools_json st;
             (st2, _) = upsert_streaming_append env (cv_msg_id st1) sid (ce_agent_name env) (cv_text st1) tools_json st1;
             (st3, full_text) = read_streaming_content env (cv_msg_id st2) st2;
             st4 = (case cv_job_id st3 of
                      Some jid \<Rightarrow> st3\<lparr>cv_registry :=
                        jobs_call (ce_registry env) (\<lambda>_. set_content jid full_text (cv_tools st3)) (cv_registry st3)\<rparr>
                    | None \<Rightarrow> st3)
         in fst (db_call env (\<lambda>_ db. Inr (finalize_streaming_message (cv_msg_id st4) db)) st4))"

definition mark_guard_finalized :: "converter \<Rightarrow> converter" where
  "mark_guard_finalized st = st\<lparr>cv_guard := (cv_guard st)\<lparr>sg_finalized := True\<rparr>\<rparr>"

section \<open>One event\<close>

definition on_session_id :: "converter_env \<Rightarrow> bytes \<Rightarrow> converter \<Rightarrow> converter" where
  "on_session_id env sid st =
     (let parsed = ce_parse_uuid env sid;
          st1 = (case parsed of
                   None \<Rightarrow> st
                 | Some u \<Rightarrow>
                     (case register_with_token (ce_registry env) u (ce_agent_name env) (ce_token env) (cv_registry st) of
                        (r, Some jid) \<Rightarrow> st\<lparr>cv_registry := r, cv_cancel_token := Some (ce_token env), cv_job_id := Some jid\<rparr>
                      | (r, None) \<Rightarrow> st\<lparr>cv_registry := r\<rparr>));
          st2 = st1\<lparr>cv_session_id_str := Some sid, cv_session_uuid := parsed\<rparr>;
          st3 = (case parsed of
                   None \<Rightarrow> st2
                 | Some u \<Rightarrow>
                     let g = st2\<lparr>cv_guard := (cv_guard st2)\<lparr>sg_session_id := Some u\<rparr>\<rparr>;
                         i = (case ce_mentioned env of
                                Some agent \<Rightarrow> g\<lparr>cv_spawned := cv_spawned g @ [InviteTask u agent]\<rparr>
                              | None \<Rightarrow> g)
                     in fst (db_call env (\<lambda>now. upsert_streaming_message (cv_msg_id i) now u (ce_agent_name env) [] None) i))
      in send_and_buffer env
           (JObject [(''type'', JString ''data-session-id''), (''data'', JObject [(''sessionId'', JString sid)]),
              (''transient'', JBool True)]) st3)"

definition flush_interval :: duration where
  "flush_interval = from_secs 2"

definition periodic_flush :: "converter_env \<Rightarrow> converter \<Rightarrow> converter" where
  "periodic_flush env st0 =
     (let n = cv_calls st0; st = st0\<lparr>cv_calls := Suc n\<rparr>
      in if flush_interval \<le> duration_since (ce_now env n) (cv_last_db_flush st) then
           (case cv_session_uuid st of
              None \<Rightarrow> st
            | Some sid \<Rightarrow>
                let (st1, tools_json) = take_tools_json st;
                    (st2, ok) = upsert_streaming_append env (cv_msg_id st1) sid (ce_agent_name env) (cv_text st1) tools_json st1;
                    st3 = (if ok then st2\<lparr>cv_text := []\<rparr> else st2);
                    k = cv_calls st3
                in st3\<lparr>cv_calls := Suc k, cv_last_db_flush := ce_now env k\<rparr>)
         else st)"

definition on_text_delta :: "converter_env \<Rightarrow> bytes \<Rightarrow> converter \<Rightarrow> converter" where
  "on_text_delta env txt st =
     (let c = Suc (cv_text_id_counter st);
          i = ''text-'' @ show_nat c;
          st1 = st\<lparr>cv_text_id_counter := c\<rparr>;
          st2 = send_and_buffer env (text_start_frame i (cv_agent st1)) st1;
          st3 = send_and_buffer env (text_delta_frame i txt) st2
      in periodic_flush env (st3\<lparr>cv_pending_text_end := Some i, cv_text := cv_text st3 @ txt\<rparr>))"

definition on_finish :: "converter_env \<Rightarrow> converter \<Rightarrow> converter" where
  "on_finish env st =
     (let st1 = flush_text_end env st;
          st2 = send_and_buffer env (JObject [(''type'', JString ''finish''), (''agentName'', JString (cv_agent st1))]) st1;
          st3 = mark_guard_finalized (finalize_streaming env st2);
          n = cv_calls st3;
          i = ce_fresh_id env n
      in st3\<lparr>cv_calls := Suc n, cv_text := [], cv_tools := [], cv_tools_flushed := 0, cv_tools_cache := None, cv_msg_id := i,
             cv_text_id_counter := 0, cv_spawned := cv_spawned st3 @ streaming_guard_drop (cv_guard st3),
             cv_guard := (streaming_guard_new i)\<lparr>sg_session_id := cv_session_uuid st3\<rparr>\<rparr>)"

definition on_error :: "converter_env \<Rightarrow> bytes \<Rightarrow> converter \<Rightarrow> converter" where
  "on_error env txt st =
     (let st1 = send_and_buffer env (JObject [(''type'', JString ''error''), (''errorText'', JString txt)]) st;
          st2 = (case cv_session_id_str st1 of
                   Some sid \<Rightarrow> st1\<lparr>cv_registry := mark_error (ce_registry env) sid txt (cv_registry st1)\<rparr>
                 | None \<Rightarrow> st1)
      in (mark_guard_finalized (finalize_streaming env st2))\<lparr>cv_finished_sent := True\<rparr>)"

definition tool_name_of :: "bytes \<Rightarrow> converter \<Rightarrow> bytes" where
  "tool_name_of i st = unwrap_or (map_of (cv_tool_names st) i) []"

definition json_opt :: "json option \<Rightarrow> json" where
  "json_opt v = (case v of Some j \<Rightarrow> j | None \<Rightarrow> JNull)"

text \<open>The result says whether the loop is left.\<close>

fun handle_event :: "converter_env \<Rightarrow> stream_event \<Rightarrow> converter \<Rightarrow> converter \<times> bool" where
  "handle_event env (SessionId sid) st = (on_session_id env sid st, False)"
| "handle_event env (MessageStart i) st =
     (send_and_buffer env (JObject [(''type'', JString ''start''), (''messageId'', JString i), (''agentName'', JString (cv_agent st))]) st,
      False)"
| "handle_event env (StepStart _) st = (st, False)"
| "handle_event env (TextDelta txt) st = (on_text_delta env txt st, False)"
| "handle_event env (ToolCallStart i name) st =
     (let st1 = st\<lparr>cv_tool_names := al_insert i name (cv_tool_names st)\<rparr>
      in (send_and_buffer env (JObject [(''type'', JString ''tool-input-start''), (''toolCallId'', JString i),
            (''toolName'', JString name), (''agentName'', JString (cv_agent st1))]) st1, False))"
| "handle_event env (ToolCallArgs i args) st =
     (let st1 = send_and_buffer env (JObject [(''type'', JString ''tool-input-delta''), (''toolCallId'', JString i),
            (''inputTextDelta'', JString args)]) st
      in (send_and_buffer env (JObject [(''type'', JString ''tool-input-available''), (''toolCallId'', JString i),
            (''toolName'', JString (tool_name_of i st1)), (''input'', unwrap_or (ce_parse_json env args) (JObject []))]) st1, False))"
| "handle_event env (ToolResult i res) st =
     (let st1 = st\<lparr>cv_tools := cv_tools st @ [JObject [(''toolCallId'', JString i), (''toolName'', JString (tool_name_of i st)),
            (''output'', JString res)]], cv_tools_cache := None\<rparr>
      in (send_and_buffer env (JObject [(''type'', JString ''tool-output-available''), (''toolCallId'', JString i),
            (''output'', JString res)]) st1, False))"
| "handle_event env (StepFinish _ _) st = (st, False)"
| "handle_event env (RichCard card_type card_data) st =
     (send_and_buffer env (JObject [(''type'', JString ''rich-card''), (''cardType'', JString card_type), (''data'', card_data)]) st, False)"
| "handle_event env (File url mt) st =
     (send_and_buffer env (JObject [(''type'', JString ''file''), (''url'', JString url), (''mediaType'', JString mt)]) st, False)"
| "handle_event env (AgentSwitch new_agent) st = (st\<lparr>cv_agent := new_agent\<rparr>, False)"
| "handle_event env (ApprovalNeeded i name input timeout_ms) st =
     (send_and_buffer env (JObject [(''type'', JString ''tool-approval-needed''), (''approvalId'', JString i), (''toolName'', JString name),
        (''toolInput'', input), (''timeoutMs'', JInt (uint timeout_ms))]) st, False)"
| "handle_event env (ApprovalResolved i action modified) st =
     (send_and_buffer env (JObject [(''type'', JString ''tool-approval-resolved''), (''approvalId'', JString i),
        (''action'', JString action), (''modifiedInput'', json_opt modified)]) st, False)"
| "handle_event env (Finish _ _) st = (on_finish env st, False)"
| "handle_event env (Reconnecting attempt delay_ms) st =
     (send_and_buffer env (JObject [(''type'', JString ''reconnecting''), (''attempt'', JInt (uint attempt)),
        (''delay_ms'', JInt (uint delay_ms))]) st, False)"
| "handle_event env (Error txt) st = (on_error env txt st, True)"

section \<open>The loop and the exit\<close>

definition CANCEL_GRACE :: duration where
  "CANCEL_GRACE = from_secs 30"

definition observe_cancel :: "converter_env \<Rightarrow> converter \<Rightarrow> converter" where
  "observe_cancel env st =
     (let n = cv_calls st; st1 = st\<lparr>cv_calls := Suc n\<rparr>
      in if cv_cancel_token st1 \<noteq> None \<and> ce_cancelled env n \<and> \<not> cv_logged_cancel st1
         then st1\<lparr>cv_logged_cancel := True, cv_cancel_deadline := Some (ce_now env n + CANCEL_GRACE)\<rparr> else st1)"

definition hard_abort :: "converter_env \<Rightarrow> converter \<Rightarrow> converter" where
  "hard_abort env st =
     (let st1 = (case cv_session_uuid st of
                   Some sid \<Rightarrow> fst (db_call env (\<lambda>_ db. Inr (fst (mark_session_run_status_if_running sid ''interrupted'' db))) st)
                 | None \<Rightarrow> st)
      in st1\<lparr>cv_engine_aborted := True\<rparr>)"

text \<open>What an iteration does with the event it received: a pending text block is closed first.\<close>

definition on_converter_event :: "converter_env \<Rightarrow> stream_event \<Rightarrow> converter \<Rightarrow> converter \<times> bool" where
  "on_converter_event env ev st = handle_event env ev (flush_text_end env st)"

definition loop_iteration :: "converter_env \<Rightarrow> stream_event \<Rightarrow> converter \<Rightarrow> converter \<times> bool" where
  "loop_iteration env ev st0 =
     (let st = observe_cancel env st0 in on_converter_event env ev (st\<lparr>cv_calls := Suc (cv_calls st)\<rparr>))"

definition client_gone_too_long :: "converter_env \<Rightarrow> converter \<Rightarrow> bool" where
  "client_gone_too_long env st = (case cv_client_gone_since st of
       Some t \<Rightarrow> 600 < as_secs (duration_since (ce_now env (cv_calls st)) t) | None \<Rightarrow> False)"

text \<open>\<open>None\<close>: the task waits for ever.\<close>

fun converter_loop :: "converter_env \<Rightarrow> (instant \<times> stream_event option) list \<Rightarrow> converter \<Rightarrow> converter option" where
  "converter_loop env [] st0 =
     (let st = observe_cancel env st0
      in case poll_event_with_cancel_grace (ce_now env (cv_calls st)) (cv_cancel_deadline st) ([] :: (instant \<times> stream_event option) list) of
           None \<Rightarrow> None
         | Some _ \<Rightarrow> Some (hard_abort env st))"
| "converter_loop env (a # arrivals) st0 =
     (let st = observe_cancel env st0
      in case poll_event_with_cancel_grace (ce_now env (cv_calls st)) (cv_cancel_deadline st) [a] of
           None \<Rightarrow> None
         | Some GraceClosed \<Rightarrow> Some st
         | Some GraceExceeded \<Rightarrow> Some (hard_abort env st)
         | Some (GraceEvent ev) \<Rightarrow>
             if client_gone_too_long env st then Some (st\<lparr>cv_calls := Suc (cv_calls st), cv_engine_aborted := True\<rparr>)
             else (case loop_iteration env ev st0 of
                     (st1, True) \<Rightarrow> Some st1
                   | (st1, False) \<Rightarrow> converter_loop env arrivals st1))"

text \<open>The frames of the exit go to the client only, with a timeout: they are lost unless the channel is open.\<close>

definition send_last :: "converter_env \<Rightarrow> bytes \<Rightarrow> converter \<Rightarrow> converter" where
  "send_last env txt st =
     (let n = cv_calls st; st1 = st\<lparr>cv_calls := Suc n\<rparr>
      in if ce_sse env n = ChanOpen then st1\<lparr>cv_client := cv_client st1 @ [txt]\<rparr> else st1)"

definition converter_exit :: "converter_env \<Rightarrow> converter \<Rightarrow> converter" where
  "converter_exit env st =
     (let st1 = (if cv_finished_sent st then st
                 else
                   let f = mark_guard_finalized (finalize_streaming env st);
                       m = (case cv_session_id_str f of
                              Some sid \<Rightarrow> f\<lparr>cv_registry := mark_finished (ce_registry env) sid (cv_registry f)\<rparr>
                            | None \<Rightarrow> f);
                       e = (case cv_pending_text_end m of
                              Some i \<Rightarrow> send_last env (ce_ser env (text_end_frame i)) (m\<lparr>cv_pending_text_end := None\<rparr>)
                            | None \<Rightarrow> m)
                   in send_last env DONE_FRAME e);
          st2 = (case cv_session_uuid st1 of
                   Some sid \<Rightarrow> st1\<lparr>cv_spawned := cv_spawned st1 @ [TitleTask sid (ce_user_text env)]\<rparr>
                 | None \<Rightarrow> st1)
      in st2\<lparr>cv_spawned := cv_spawned st2 @ streaming_guard_drop (cv_guard st2)\<rparr>)"

definition converter_task :: "converter_env \<Rightarrow> (instant \<times> stream_event option) list \<Rightarrow> registry \<Rightarrow> database \<Rightarrow> converter option" where
  "converter_task env arrivals r db = map_option (converter_exit env) (converter_loop env arrivals (converter_new env r db))"

end
