(* ===== verification/Sse_Facts.thy ===== *)
theory Sse_Facts
  imports Sse_Converter
begin

text \<open>
  What the converter of \<open>Sse_Converter\<close> promises: the frames are well bracketed, the registry gets every frame and
  the client a part of them in order, the job gets the whole text of an answer, and what happens to it when the
  task ends; how cancellation ends a run.
\<close>

section \<open>Fields a step leaves alone\<close>

lemma db_call_fields [simp]:
  "cv_registry (fst (db_call env f st)) = cv_registry st"
  "cv_frames (fst (db_call env f st)) = cv_frames st"
  "cv_client (fst (db_call env f st)) = cv_client st"
  "cv_text_id_counter (fst (db_call env f st)) = cv_text_id_counter st"
  "cv_pending_text_end (fst (db_call env f st)) = cv_pending_text_end st"
  "cv_tool_names (fst (db_call env f st)) = cv_tool_names st"
  "cv_session_id_str (fst (db_call env f st)) = cv_session_id_str st"
  "cv_agent (fst (db_call env f st)) = cv_agent st"
  "cv_client_gone_since (fst (db_call env f st)) = cv_client_gone_since st"
  "cv_finished_sent (fst (db_call env f st)) = cv_finished_sent st"
  "cv_cancel_token (fst (db_call env f st)) = cv_cancel_token st"
  "cv_job_id (fst (db_call env f st)) = cv_job_id st"
  "cv_text (fst (db_call env f st)) = cv_text st"
  "cv_tools (fst (db_call env f st)) = cv_tools st"
  "cv_tools_flushed (fst (db_call env f st)) = cv_tools_flushed st"
  "cv_tools_cache (fst (db_call env f st)) = cv_tools_cache st"
  "cv_msg_id (fst (db_call env f st)) = cv_msg_id st"
  "cv_guard (fst (db_call env f st)) = cv_guard st"
  "cv_last_db_flush (fst (db_call env f st)) = cv_last_db_flush st"
  "cv_session_uuid (fst (db_call env f st)) = cv_session_uuid st"
  "cv_logged_cancel (fst (db_call env f st)) = cv_logged_cancel st"
  "cv_cancel_deadline (fst (db_call env f st)) = cv_cancel_deadline st"
  "cv_spawned (fst (db_call env f st)) = cv_spawned st"
  "cv_engine_aborted (fst (db_call env f st)) = cv_engine_aborted st"
  by (simp_all add: db_call_def Let_def split: sum.splits)

lemma upsert_streaming_append_fields [simp]:
  "cv_registry (fst (upsert_streaming_append env i sid a d tc st)) = cv_registry st"
  "cv_frames (fst (upsert_streaming_append env i sid a d tc st)) = cv_frames st"
  "cv_client (fst (upsert_streaming_append env i sid a d tc st)) = cv_client st"
  "cv_text_id_counter (fst (upsert_streaming_append env i sid a d tc st)) = cv_text_id_counter st"
  "cv_pending_text_end (fst (upsert_streaming_append env i sid a d tc st)) = cv_pending_text_end st"
  "cv_tool_names (fst (upsert_streaming_append env i sid a d tc st)) = cv_tool_names st"
  "cv_session_id_str (fst (upsert_streaming_append env i sid a d tc st)) = cv_session_id_str st"
  "cv_agent (fst (upsert_streaming_append env i sid a d tc st)) = cv_agent st"
  "cv_client_gone_since (fst (upsert_streaming_append env i sid a d tc st)) = cv_client_gone_since st"
  "cv_finished_sent (fst (upsert_streaming_append env i sid a d tc st)) = cv_finished_sent st"
  "cv_cancel_token (fst (upsert_streaming_append env i sid a d tc st)) = cv_cancel_token st"
  "cv_job_id (fst (upsert_streaming_append env i sid a d tc st)) = cv_job_id st"
  "cv_text (fst (upsert_streaming_append env i sid a d tc st)) = cv_text st"
  "cv_tools (fst (upsert_streaming_append env i sid a d tc st)) = cv_tools st"
  "cv_tools_flushed (fst (upsert_streaming_append env i sid a d tc st)) = cv_tools_flushed st"
  "cv_tools_cache (fst (upsert_streaming_append env i sid a d tc st)) = cv_tools_cache st"
  "cv_msg_id (fst (upsert_streaming_append env i sid a d tc st)) = cv_msg_id st"
  "cv_guard (fst (upsert_streaming_append env i sid a d tc st)) = cv_guard st"
  "cv_last_db_flush (fst (upsert_streaming_append env i sid a d tc st)) = cv_last_db_flush st"
  "cv_session_uuid (fst (upsert_streaming_append env i sid a d tc st)) = cv_session_uuid st"
  "cv_logged_cancel (fst (upsert_streaming_append env i sid a d tc st)) = cv_logged_cancel st"
  "cv_cancel_deadline (fst (upsert_streaming_append env i sid a d tc st)) = cv_cancel_deadline st"
  "cv_spawned (fst (upsert_streaming_append env i sid a d tc st)) = cv_spawned st"
  "cv_engine_aborted (fst (upsert_streaming_append env i sid a d tc st)) = cv_engine_aborted st"
  by (simp_all add: upsert_streaming_append_def case_prod_unfold split: bool.splits)

lemma read_streaming_content_fields [simp]:
  "cv_registry (fst (read_streaming_content env i st)) = cv_registry st"
  "cv_db (fst (read_streaming_content env i st)) = cv_db st"
  "cv_frames (fst (read_streaming_content env i st)) = cv_frames st"
  "cv_client (fst (read_streaming_content env i st)) = cv_client st"
  "cv_text_id_counter (fst (read_streaming_content env i st)) = cv_text_id_counter st"
  "cv_pending_text_end (fst (read_streaming_content env i st)) = cv_pending_text_end st"
  "cv_tool_names (fst (read_streaming_content env i st)) = cv_tool_names st"
  "cv_session_id_str (fst (read_streaming_content env i st)) = cv_session_id_str st"
  "cv_agent (fst (read_streaming_content env i st)) = cv_agent st"
  "cv_client_gone_since (fst (read_streaming_content env i st)) = cv_client_gone_since st"
  "cv_finished_sent (fst (read_streaming_content env i st)) = cv_finished_sent st"
  "cv_cancel_token (fst (read_streaming_content env i st)) = cv_cancel_token st"
  "cv_job_id (fst (read_streaming_content env i st)) = cv_job_id st"
  "cv_text (fst (read_streaming_content env i st)) = cv_text st"
  "cv_tools (fst (read_streaming_content env i st)) = cv_tools st"
  "cv_tools_flushed (fst (read_streaming_content env i st)) = cv_tools_flushed st"
  "cv_tools_cache (fst (read_streaming_content env i st)) = cv_tools_cache st"
  "cv_msg_id (fst (read_streaming_content env i st)) = cv_msg_id st"
  "cv_guard (fst (read_streaming_content env i st)) = cv_guard st"
  "cv_last_db_flush (fst (read_streaming_content env i st)) = cv_last_db_flush st"
  "cv_session_uuid (fst (read_streaming_content env i st)) = cv_session_uuid st"
  "cv_logged_cancel (fst (read_streaming_content env i st)) = cv_logged_cancel st"
  "cv_cancel_deadline (fst (read_streaming_content env i st)) = cv_cancel_deadline st"
  "cv_spawned (fst (read_streaming_content env i st)) = cv_spawned st"
  "cv_engine_aborted (fst (read_streaming_content env i st)) = cv_engine_aborted st"
  by (simp_all add: read_streaming_content_def Let_def)

lemma take_tools_json_fields [simp]:
  "cv_registry (fst (take_tools_json st)) = cv_registry st"
  "cv_db (fst (take_tools_json st)) = cv_db st"
  "cv_frames (fst (take_tools_json st)) = cv_frames st"
  "cv_client (fst (take_tools_json st)) = cv_client st"
  "cv_text_id_counter (fst (take_tools_json st)) = cv_text_id_counter st"
  "cv_pending_text_end (fst (take_tools_json st)) = cv_pending_text_end st"
  "cv_tool_names (fst (take_tools_json st)) = cv_tool_names st"
  "cv_session_id_str (fst (take_tools_json st)) = cv_session_id_str st"
  "cv_agent (fst (take_tools_json st)) = cv_agent st"
  "cv_client_gone_since (fst (take_tools_json st)) = cv_client_gone_since st"
  "cv_finished_sent (fst (take_tools_json st)) = cv_finished_sent st"
  "cv_cancel_token (fst (take_tools_json st)) = cv_cancel_token st"
  "cv_job_id (fst (take_tools_json st)) = cv_job_id st"
  "cv_text (fst (take_tools_json st)) = cv_text st"
  "cv_tools (fst (take_tools_json st)) = cv_tools st"
  "cv_msg_id (fst (take_tools_json st)) = cv_msg_id st"
  "cv_guard (fst (take_tools_json st)) = cv_guard st"
  "cv_last_db_flush (fst (take_tools_json st)) = cv_last_db_flush st"
  "cv_session_uuid (fst (take_tools_json st)) = cv_session_uuid st"
  "cv_logged_cancel (fst (take_tools_json st)) = cv_logged_cancel st"
  "cv_cancel_deadline (fst (take_tools_json st)) = cv_cancel_deadline st"
  "cv_spawned (fst (take_tools_json st)) = cv_spawned st"
  "cv_engine_aborted (fst (take_tools_json st)) = cv_engine_aborted st"
  by (simp_all add: take_tools_json_def split: prod.splits)

lemma send_and_buffer_fields [simp]:
  "cv_db (send_and_buffer env fr st) = cv_db st"
  "cv_text_id_counter (send_and_buffer env fr st) = cv_text_id_counter st"
  "cv_pending_text_end (send_and_buffer env fr st) = cv_pending_text_end st"
  "cv_tool_names (send_and_buffer env fr st) = cv_tool_names st"
  "cv_session_id_str (send_and_buffer env fr st) = cv_session_id_str st"
  "cv_agent (send_and_buffer env fr st) = cv_agent st"
  "cv_finished_sent (send_and_buffer env fr st) = cv_finished_sent st"
  "cv_cancel_token (send_and_buffer env fr st) = cv_cancel_token st"
  "cv_job_id (send_and_buffer env fr st) = cv_job_id st"
  "cv_text (send_and_buffer env fr st) = cv_text st"
  "cv_tools (send_and_buffer env fr st) = cv_tools st"
  "cv_tools_flushed (send_and_buffer env fr st) = cv_tools_flushed st"
  "cv_tools_cache (send_and_buffer env fr st) = cv_tools_cache st"
  "cv_msg_id (send_and_buffer env fr st) = cv_msg_id st"
  "cv_guard (send_and_buffer env fr st) = cv_guard st"
  "cv_last_db_flush (send_and_buffer env fr st) = cv_last_db_flush st"
  "cv_session_uuid (send_and_buffer env fr st) = cv_session_uuid st"
  "cv_logged_cancel (send_and_buffer env fr st) = cv_logged_cancel st"
  "cv_cancel_deadline (send_and_buffer env fr st) = cv_cancel_deadline st"
  "cv_spawned (send_and_buffer env fr st) = cv_spawned st"
  "cv_engine_aborted (send_and_buffer env fr st) = cv_engine_aborted st"
  by (simp_all add: send_and_buffer_def Let_def split: option.splits sse_chan.splits)

lemma observe_cancel_fields [simp]:
  "cv_registry (observe_cancel env st) = cv_registry st"
  "cv_db (observe_cancel env st) = cv_db st"
  "cv_frames (observe_cancel env st) = cv_frames st"
  "cv_client (observe_cancel env st) = cv_client st"
  "cv_text_id_counter (observe_cancel env st) = cv_text_id_counter st"
  "cv_pending_text_end (observe_cancel env st) = cv_pending_text_end st"
  "cv_tool_names (observe_cancel env st) = cv_tool_names st"
  "cv_session_id_str (observe_cancel env st) = cv_session_id_str st"
  "cv_agent (observe_cancel env st) = cv_agent st"
  "cv_client_gone_since (observe_cancel env st) = cv_client_gone_since st"
  "cv_finished_sent (observe_cancel env st) = cv_finished_sent st"
  "cv_cancel_token (observe_cancel env st) = cv_cancel_token st"
  "cv_job_id (observe_cancel env st) = cv_job_id st"
  "cv_text (observe_cancel env st) = cv_text st"
  "cv_tools (observe_cancel env st) = cv_tools st"
  "cv_tools_flushed (observe_cancel env st) = cv_tools_flushed st"
  "cv_tools_cache (observe_cancel env st) = cv_tools_cache st"
  "cv_msg_id (observe_cancel env st) = cv_msg_id st"
  "cv_guard (observe_cancel env st) = cv_guard st"
  "cv_last_db_flush (observe_cancel env st) = cv_last_db_flush st"
  "cv_session_uuid (observe_cancel env st) = cv_session_uuid st"
  "cv_spawned (observe_cancel env st) = cv_spawned st"
  "cv_engine_aborted (observe_cancel env st) = cv_engine_aborted st"
  by (simp_all add: observe_cancel_def Let_def)

lemma hard_abort_fields [simp]:
  "cv_registry (hard_abort env st) = cv_registry st"
  "cv_frames (hard_abort env st) = cv_frames st"
  "cv_client (hard_abort env st) = cv_client st"
  "cv_text_id_counter (hard_abort env st) = cv_text_id_counter st"
  "cv_pending_text_end (hard_abort env st) = cv_pending_text_end st"
  "cv_tool_names (hard_abort env st) = cv_tool_names st"
  "cv_session_id_str (hard_abort env st) = cv_session_id_str st"
  "cv_agent (hard_abort env st) = cv_agent st"
  "cv_client_gone_since (hard_abort env st) = cv_client_gone_since st"
  "cv_finished_sent (hard_abort env st) = cv_finished_sent st"
  "cv_cancel_token (hard_abort env st) = cv_cancel_token st"
  "cv_job_id (hard_abort env st) = cv_job_id st"
  "cv_text (hard_abort env st) = cv_text st"
  "cv_tools (hard_abort env st) = cv_tools st"
  "cv_tools_flushed (hard_abort env st) = cv_tools_flushed st"
  "cv_tools_cache (hard_abort env st) = cv_tools_cache st"
  "cv_msg_id (hard_abort env st) = cv_msg_id st"
  "cv_guard (hard_abort env st) = cv_guard st"
  "cv_last_db_flush (hard_abort env st) = cv_last_db_flush st"
  "cv_session_uuid (hard_abort env st) = cv_session_uuid st"
  "cv_logged_cancel (hard_abort env st) = cv_logged_cancel st"
  "cv_cancel_deadline (hard_abort env st) = cv_cancel_deadline st"
  "cv_spawned (hard_abort env st) = cv_spawned st"
  by (simp_all add: hard_abort_def Let_def split: option.splits)

lemma finalize_streaming_fields [simp]:
  "cv_frames (finalize_streaming env st) = cv_frames st"
  "cv_client (finalize_streaming env st) = cv_client st"
  "cv_text_id_counter (finalize_streaming env st) = cv_text_id_counter st"
  "cv_pending_text_end (finalize_streaming env st) = cv_pending_text_end st"
  "cv_tool_names (finalize_streaming env st) = cv_tool_names st"
  "cv_session_id_str (finalize_streaming env st) = cv_session_id_str st"
  "cv_agent (finalize_streaming env st) = cv_agent st"
  "cv_client_gone_since (finalize_streaming env st) = cv_client_gone_since st"
  "cv_finished_sent (finalize_streaming env st) = cv_finished_sent st"
  "cv_cancel_token (finalize_streaming env st) = cv_cancel_token st"
  "cv_job_id (finalize_streaming env st) = cv_job_id st"
  "cv_text (finalize_streaming env st) = cv_text st"
  "cv_tools (finalize_streaming env st) = cv_tools st"
  "cv_msg_id (finalize_streaming env st) = cv_msg_id st"
  "cv_guard (finalize_streaming env st) = cv_guard st"
  "cv_last_db_flush (finalize_streaming env st) = cv_last_db_flush st"
  "cv_session_uuid (finalize_streaming env st) = cv_session_uuid st"
  "cv_logged_cancel (finalize_streaming env st) = cv_logged_cancel st"
  "cv_cancel_deadline (finalize_streaming env st) = cv_cancel_deadline st"
  "cv_spawned (finalize_streaming env st) = cv_spawned st"
  "cv_engine_aborted (finalize_streaming env st) = cv_engine_aborted st"
  by (simp_all add: finalize_streaming_def periodic_flush_def Let_def case_prod_unfold split: option.splits)

lemma periodic_flush_fields [simp]:
  "cv_registry (periodic_flush env st) = cv_registry st"
  "cv_frames (periodic_flush env st) = cv_frames st"
  "cv_client (periodic_flush env st) = cv_client st"
  "cv_text_id_counter (periodic_flush env st) = cv_text_id_counter st"
  "cv_pending_text_end (periodic_flush env st) = cv_pending_text_end st"
  "cv_tool_names (periodic_flush env st) = cv_tool_names st"
  "cv_session_id_str (periodic_flush env st) = cv_session_id_str st"
  "cv_agent (periodic_flush env st) = cv_agent st"
  "cv_client_gone_since (periodic_flush env st) = cv_client_gone_since st"
  "cv_finished_sent (periodic_flush env st) = cv_finished_sent st"
  "cv_cancel_token (periodic_flush env st) = cv_cancel_token st"
  "cv_job_id (periodic_flush env st) = cv_job_id st"
  "cv_tools (periodic_flush env st) = cv_tools st"
  "cv_msg_id (periodic_flush env st) = cv_msg_id st"
  "cv_guard (periodic_flush env st) = cv_guard st"
  "cv_session_uuid (periodic_flush env st) = cv_session_uuid st"
  "cv_logged_cancel (periodic_flush env st) = cv_logged_cancel st"
  "cv_cancel_deadline (periodic_flush env st) = cv_cancel_deadline st"
  "cv_spawned (periodic_flush env st) = cv_spawned st"
  "cv_engine_aborted (periodic_flush env st) = cv_engine_aborted st"
  by (simp_all add: finalize_streaming_def periodic_flush_def Let_def case_prod_unfold split: option.splits)
section \<open>Invariants of the loop\<close>

text \<open>An invariant of the loop is one of the allowed events and of the silent steps.\<close>

locale converter_invariant =
  fixes env :: converter_env
    and allowed :: "stream_event \<Rightarrow> bool"
    and inv :: "converter \<Rightarrow> bool"
  assumes inv_calls: "inv st \<Longrightarrow> inv (st\<lparr>cv_calls := n\<rparr>)"
    and inv_cancel: "inv st \<Longrightarrow> inv (observe_cancel env st)"
    and inv_abort: "inv st \<Longrightarrow> inv (hard_abort env st) \<and> inv (st\<lparr>cv_engine_aborted := True\<rparr>)"
    and inv_event: "allowed ev \<Longrightarrow> inv st \<Longrightarrow> inv (fst (on_converter_event env ev st))"
begin

lemma loop_inv:
  "inv st \<Longrightarrow> \<forall>(_, ev) \<in> set arrivals. pred_option allowed ev \<Longrightarrow> converter_loop env arrivals st = Some st' \<Longrightarrow> inv st'"
proof (induction arrivals arbitrary: st)
  case Nil
  then show ?case using inv_abort [OF inv_cancel [OF Nil(1)]] by (auto simp: Let_def split: option.splits)
next
  case (Cons a arrivals)
  let ?st = "observe_cancel env st"
  have i: "inv ?st" "inv (hard_abort env ?st)" "inv (?st\<lparr>cv_calls := n\<rparr>)" "inv (?st\<lparr>cv_calls := n, cv_engine_aborted := True\<rparr>)" for n
    using inv_cancel [OF Cons.prems(1)] inv_calls [OF inv_cancel [OF Cons.prems(1)]] inv_abort by auto
  have rest: "\<forall>(_, ev) \<in> set arrivals. pred_option allowed ev" using Cons.prems(2) by simp
  let ?p = "poll_event_with_cancel_grace (ce_now env (cv_calls ?st)) (cv_cancel_deadline ?st) [a]"
  show ?case
  proof (cases ?p)
    case (Some g)
    show ?thesis
    proof (cases g)
      case (GraceEvent ev)
      with Some Cons.prems(2) have "allowed ev"
        by (cases a; cases "snd a") (auto split: if_splits option.splits)
      obtain st2 b where e: "loop_iteration env ev st = (st2, b)" by (cases "loop_iteration env ev st")
      from inv_event [OF \<open>allowed ev\<close> i(3), of "Suc (cv_calls ?st)"] have st2: "inv st2"
        using e by (simp add: loop_iteration_def Let_def)
      show ?thesis
      proof (cases "client_gone_too_long env ?st \<or> b")
        case True
        with GraceEvent Some Cons.prems(3) i(4) st2 show ?thesis by (auto simp: Let_def e split: if_splits)
      next
        case False
        with GraceEvent Some Cons.prems(3) have "converter_loop env arrivals st2 = Some st'" by (simp add: Let_def e)
        with Cons.IH [OF st2 rest] show ?thesis .
      qed
    qed (use Some Cons.prems(3) i in \<open>simp_all add: Let_def\<close>)
  qed (use Cons.prems(3) in \<open>simp add: Let_def\<close>)
qed

end

section \<open>Text blocks\<close>

datatype text_phase = TextIdle | TextStarted bytes | TextOpen bytes

definition frame_type :: "json \<Rightarrow> bytes" where
  "frame_type j = (case json_get j ''type'' of Some (JString s) \<Rightarrow> s | _ \<Rightarrow> [])"

definition frame_text_id :: "json \<Rightarrow> bytes" where
  "frame_text_id j = (case json_get j ''id'' of Some (JString s) \<Rightarrow> s | _ \<Rightarrow> [])"

text \<open>A client that reads the frames one by one: a text block is \<open>text-start\<close>, one \<open>text-delta\<close> and
  \<open>text-end\<close> with one id and nothing in between. \<open>None\<close>: the order is violated.\<close>

fun text_phase_step :: "text_phase \<Rightarrow> json \<Rightarrow> text_phase option" where
  "text_phase_step TextIdle f =
     (if frame_type f = ''text-start'' then Some (TextStarted (frame_text_id f))
      else if frame_type f = ''text-delta'' \<or> frame_type f = ''text-end'' then None else Some TextIdle)"
| "text_phase_step (TextStarted i) f =
     (if frame_type f = ''text-delta'' \<and> frame_text_id f = i then Some (TextOpen i) else None)"
| "text_phase_step (TextOpen i) f =
     (if frame_type f = ''text-end'' \<and> frame_text_id f = i then Some TextIdle else None)"

fun text_phases :: "text_phase \<Rightarrow> json list \<Rightarrow> text_phase option" where
  "text_phases p [] = Some p"
| "text_phases p (f # fs) = (case text_phase_step p f of None \<Rightarrow> None | Some q \<Rightarrow> text_phases q fs)"

lemma text_phases_append:
  "text_phases p (xs @ ys) = (case text_phases p xs of None \<Rightarrow> None | Some q \<Rightarrow> text_phases q ys)"
  by (induction xs arbitrary: p) (auto split: option.splits)

definition pending_phase :: "bytes option \<Rightarrow> text_phase" where
  "pending_phase pending = (case pending of None \<Rightarrow> TextIdle | Some i \<Rightarrow> TextOpen i)"

definition frames_bracketed :: "converter \<Rightarrow> bool" where
  "frames_bracketed st \<longleftrightarrow> text_phases TextIdle (cv_frames st) = Some (pending_phase (cv_pending_text_end st))"

lemma frame_fields [simp]:
  "frame_type (JObject ((''type'', JString t) # kvs)) = t"
  "frame_text_id (JObject ((''type'', JString t) # (''id'', JString i) # kvs)) = i"
  by (simp_all add: frame_type_def frame_text_id_def json_get_def)

lemma frames_send [simp]: "cv_frames (send_and_buffer env f st) = cv_frames st @ [f]"
  by (simp add: send_and_buffer_def Let_def split: option.splits sse_chan.splits)

lemma frames_bracketed_cong:
  "cv_frames st' = cv_frames st \<Longrightarrow> cv_pending_text_end st' = cv_pending_text_end st \<Longrightarrow> frames_bracketed st' = frames_bracketed st"
  by (simp add: frames_bracketed_def)

lemma frames_bracketed_fields [simp]:
  "frames_bracketed (observe_cancel env st) = frames_bracketed st"
  "frames_bracketed (hard_abort env st) = frames_bracketed st"
  "frames_bracketed (st\<lparr>cv_calls := n\<rparr>) = frames_bracketed st"
  "frames_bracketed (st\<lparr>cv_engine_aborted := b\<rparr>) = frames_bracketed st"
  by (rule frames_bracketed_cong; simp)+

lemma flush_text_end_bracketed:
  "frames_bracketed st \<Longrightarrow> text_phases TextIdle (cv_frames (flush_text_end env st)) = Some TextIdle
     \<and> cv_pending_text_end (flush_text_end env st) = None"
  by (auto simp: frames_bracketed_def flush_text_end_def text_phases_append pending_phase_def text_end_frame_def split: option.splits)

lemma on_session_id_pending [simp]: "cv_pending_text_end (on_session_id env sid st) = cv_pending_text_end st"
  by (simp add: on_session_id_def Let_def case_prod_unfold split: option.splits)

lemma on_session_id_frames: "\<exists>fs. cv_frames (on_session_id env sid st) = cv_frames st @ [JObject ((''type'', JString ''data-session-id'') # fs)]"
  by (auto simp: on_session_id_def Let_def case_prod_unfold split: option.splits)

lemma on_text_delta_frames [simp]:
  "cv_frames (on_text_delta env txt st) = cv_frames st @
     [text_start_frame (''text-'' @ show_nat (Suc (cv_text_id_counter st))) (cv_agent st),
      text_delta_frame (''text-'' @ show_nat (Suc (cv_text_id_counter st))) txt]"
  "cv_pending_text_end (on_text_delta env txt st) = Some (''text-'' @ show_nat (Suc (cv_text_id_counter st)))"
  by (simp_all add: on_text_delta_def Let_def)

lemma mark_guard_fields [simp]:
  "cv_frames (mark_guard_finalized st) = cv_frames st"
  "cv_pending_text_end (mark_guard_finalized st) = cv_pending_text_end st"
  by (simp_all add: mark_guard_finalized_def)

lemma on_finish_frames:
  "cv_pending_text_end st = None \<Longrightarrow>
   cv_frames (on_finish env st) = cv_frames st @ [JObject [(''type'', JString ''finish''), (''agentName'', JString (cv_agent st))]]
   \<and> cv_pending_text_end (on_finish env st) = None"
  by (simp add: on_finish_def Let_def flush_text_end_def)

lemma on_error_frames [simp]:
  "cv_frames (on_error env txt st) = cv_frames st @ [JObject [(''type'', JString ''error''), (''errorText'', JString txt)]]"
  "cv_pending_text_end (on_error env txt st) = cv_pending_text_end st"
  by (simp_all add: on_error_def Let_def split: option.splits)

lemma handle_event_bracketed:
  assumes "text_phases TextIdle (cv_frames st) = Some TextIdle" and "cv_pending_text_end st = None"
  shows "frames_bracketed (fst (handle_event env ev st))"
proof (cases ev)
  case (SessionId sid)
  with assms on_session_id_frames [of env sid st] show ?thesis
    by (auto simp: frames_bracketed_def text_phases_append pending_phase_def)
next
  case (Finish r c)
  with assms on_finish_frames [of st env] show ?thesis
    by (simp add: frames_bracketed_def text_phases_append pending_phase_def)
qed (use assms in \<open>simp_all add: frames_bracketed_def text_phases_append pending_phase_def text_start_frame_def text_delta_frame_def Let_def\<close>)

lemma converter_event_bracketed: "frames_bracketed st \<Longrightarrow> frames_bracketed (fst (on_converter_event env ev st))"
  unfolding on_converter_event_def using flush_text_end_bracketed [of st env] by (intro handle_event_bracketed) auto

interpretation bracketed: converter_invariant env "\<lambda>_. True" frames_bracketed for env
  by unfold_locales (simp_all add: converter_event_bracketed)

text \<open>C3: Whatever events arrive and whenever the run is cancelled, aborted or abandoned, the frames of the converter
  are well bracketed: each text block is one start, one delta and one end with the same id and no frame in
  between; at the end of the loop at most the last block is open, and it is the one whose end the exit sends.
\<close>

theorem text_blocks_bracketed:
  assumes "converter_loop env arrivals (converter_new env r db) = Some st"
  shows "text_phases TextIdle (cv_frames st)
    = Some (case cv_pending_text_end st of None \<Rightarrow> TextIdle | Some i \<Rightarrow> TextOpen i)"
proof -
  have "frames_bracketed (converter_new env r db)"
    by (simp add: frames_bracketed_def converter_new_def pending_phase_def)
  from bracketed.loop_inv [OF this _ assms] show ?thesis
    by (simp add: frames_bracketed_def pending_phase_def pred_option_def case_prod_unfold)
qed

section \<open>The client and the registry\<close>

text \<open>The texts of the events a stream has broadcast.\<close>

definition stream_sent :: "bytes \<Rightarrow> registry \<Rightarrow> bytes list option" where
  "stream_sent key r = map_option (\<lambda>s. map snd (st_sent s)) (map_of (rg_streams r) key)"

lemma stream_sent_push [simp]: "stream_sent key (fst (push_event key ev r)) = map_option (\<lambda>evs. evs @ [ev]) (stream_sent key r)"
  by (simp add: stream_sent_def push_event_def push_to_def Let_def split: option.splits)

lemma stream_sent_jobs_call [simp]: "stream_sent key (jobs_call env f r) = stream_sent key r"
  by (simp add: stream_sent_def)

lemma stream_sent_finished_state: "stream_sent key (fst (set_finished_state now k r)) = stream_sent key r"
  by (auto simp: stream_sent_def set_finished_state_def option.map_comp comp_def split: option.splits)

lemma stream_sent_marked [simp]:
  "stream_sent key (mark_finished env k r) = stream_sent key r"
  "stream_sent key (mark_error env k e r) = stream_sent key r"
  using stream_sent_finished_state [of key "ge_now env (rg_calls r)" k r]
  by (auto simp: mark_finished_def mark_error_def split: prod.splits option.splits)

text \<open>The registry has every frame of the session, the client's channel a part of them in order.\<close>

definition delivery_inv :: "converter_env \<Rightarrow> bytes \<Rightarrow> converter \<Rightarrow> bool" where
  "delivery_inv env sid st \<longleftrightarrow>
     cv_session_id_str st = Some sid
     \<and> stream_sent sid (cv_registry st) = Some (map (ce_ser env) (cv_frames st))
     \<and> subseq (cv_client st) (map (ce_ser env) (cv_frames st))"

lemma delivery_inv_cong:
  "cv_session_id_str st' = cv_session_id_str st \<Longrightarrow> stream_sent sid (cv_registry st') = stream_sent sid (cv_registry st) \<Longrightarrow>
   cv_frames st' = cv_frames st \<Longrightarrow> cv_client st' = cv_client st \<Longrightarrow> delivery_inv env sid st' = delivery_inv env sid st"
  by (simp add: delivery_inv_def)

lemma delivery_inv_send:
  assumes "delivery_inv env sid st"
  shows "delivery_inv env sid (send_and_buffer env f st)"
proof -
  have sid: "cv_session_id_str st = Some sid" and sub: "subseq (cv_client st) (map (ce_ser env) (cv_frames st))"
    and sent: "stream_sent sid (cv_registry st) = Some (map (ce_ser env) (cv_frames st))"
    using assms by (simp_all add: delivery_inv_def)
  have part: "subseq (cv_client st) (map (ce_ser env) (cv_frames st) @ [ce_ser env f])"
    using sub by (rule subseq_order.order_trans) (rule prefix_imp_subseq, simp)
  have all: "subseq (cv_client st @ [ce_ser env f]) (map (ce_ser env) (cv_frames st) @ [ce_ser env f])"
    using sub by simp
  show ?thesis
    by (cases "ce_sse env (cv_calls st)") (simp_all add: delivery_inv_def send_and_buffer_def Let_def sid sent sub part all)
qed

lemma stream_sent_finalize [simp]: "stream_sent key (cv_registry (finalize_streaming env st)) = stream_sent key (cv_registry st)"
  by (simp add: finalize_streaming_def Let_def case_prod_unfold split: option.splits)

lemma delivery_inv_simps [simp]:
  "delivery_inv env sid (observe_cancel env' st) = delivery_inv env sid st"
  "delivery_inv env sid (hard_abort env' st) = delivery_inv env sid st"
  "delivery_inv env sid (finalize_streaming env' st) = delivery_inv env sid st"
  "delivery_inv env sid (periodic_flush env' st) = delivery_inv env sid st"
  "delivery_inv env sid (mark_guard_finalized st) = delivery_inv env sid st"
  "delivery_inv env sid (st\<lparr>cv_calls := n\<rparr>) = delivery_inv env sid st"
  "delivery_inv env sid (st\<lparr>cv_engine_aborted := b\<rparr>) = delivery_inv env sid st"
  "delivery_inv env sid (st\<lparr>cv_pending_text_end := p\<rparr>) = delivery_inv env sid st"
  "delivery_inv env sid (st\<lparr>cv_text_id_counter := c\<rparr>) = delivery_inv env sid st"
  "delivery_inv env sid (st\<lparr>cv_text := txt\<rparr>) = delivery_inv env sid st"
  "delivery_inv env sid (st\<lparr>cv_tool_names := tn\<rparr>) = delivery_inv env sid st"
  "delivery_inv env sid (st\<lparr>cv_tools := ts\<rparr>) = delivery_inv env sid st"
  "delivery_inv env sid (st\<lparr>cv_tools_flushed := tf\<rparr>) = delivery_inv env sid st"
  "delivery_inv env sid (st\<lparr>cv_tools_cache := tc\<rparr>) = delivery_inv env sid st"
  "delivery_inv env sid (st\<lparr>cv_msg_id := i\<rparr>) = delivery_inv env sid st"
  "delivery_inv env sid (st\<lparr>cv_guard := g\<rparr>) = delivery_inv env sid st"
  "delivery_inv env sid (st\<lparr>cv_spawned := sp\<rparr>) = delivery_inv env sid st"
  "delivery_inv env sid (st\<lparr>cv_agent := a\<rparr>) = delivery_inv env sid st"
  "delivery_inv env sid (st\<lparr>cv_finished_sent := fs\<rparr>) = delivery_inv env sid st"
  "delivery_inv env sid (st\<lparr>cv_registry := mark_error renv key e (cv_registry st)\<rparr>) = delivery_inv env sid st"
  by (rule delivery_inv_cong; simp add: mark_guard_finalized_def)+

lemma delivery_inv_flush: "delivery_inv env sid st \<Longrightarrow> delivery_inv env sid (flush_text_end env st)"
  by (simp add: flush_text_end_def delivery_inv_send split: option.splits)

definition no_session_id :: "stream_event \<Rightarrow> bool" where
  "no_session_id ev \<longleftrightarrow> (\<forall>sid. ev \<noteq> SessionId sid)"

lemma delivery_inv_event:
  assumes "no_session_id ev" and "delivery_inv env sid st"
  shows "delivery_inv env sid (fst (on_converter_event env ev st))"
proof -
  have "delivery_inv env sid (flush_text_end env st)" by (rule delivery_inv_flush [OF assms(2)])
  then show ?thesis using assms(1) unfolding on_converter_event_def
    by (cases ev) (simp_all add: no_session_id_def Let_def delivery_inv_send delivery_inv_flush on_text_delta_def on_finish_def on_error_def
        split: option.splits)
qed

interpretation delivery: converter_invariant env no_session_id "delivery_inv env sid" for env sid
  by unfold_locales (simp_all add: delivery_inv_event)

lemma on_session_id_delivery:
  assumes "ce_parse_uuid env sid = Some u"
    and "register_with_token (ce_registry env) u (ce_agent_name env) (ce_token env) (cv_registry st) = (r1, Some job)"
    and "stream_sent sid r1 = Some []" and "cv_frames st = []" and "cv_client st = []"
  shows "delivery_inv env sid (on_session_id env sid st)"
  unfolding on_session_id_def Let_def assms(1,2) option.case prod.case
  by (rule delivery_inv_send) (simp add: delivery_inv_def assms(3-5) split: option.splits)

text \<open>Every frame that the converter produces for a registered session is broadcast and buffered by the stream
  registry, in order, and the client gets a part of the same frames in the same order, whatever the state of its
  connection.
\<close>

theorem registry_sees_every_frame:
  assumes "converter_loop env ((t, Some (SessionId sid)) # arrivals) (converter_new env r db) = Some st"
    and "ce_parse_uuid env sid = Some u" and "ge_uuid_str (ce_registry env) u = sid"
    and "snd (register_with_token (ce_registry env) u (ce_agent_name env) (ce_token env) r) \<noteq> None"
    and "\<forall>(_, ev) \<in> set arrivals. pred_option no_session_id ev"
  shows "(\<exists>s. map_of (rg_streams (cv_registry st)) sid = Some s \<and> map snd (st_sent s) = map (ce_ser env) (cv_frames st))
    \<and> subseq (cv_client st) (map (ce_ser env) (cv_frames st))"
proof -
  obtain r1 job where reg: "register_with_token (ce_registry env) u (ce_agent_name env) (ce_token env) r = (r1, Some job)"
    using assms(4) by (cases "register_with_token (ce_registry env) u (ce_agent_name env) (ce_token env) r") auto
  from registered_stream [OF reg] have sent: "stream_sent sid r1 = Some []"
    by (simp add: stream_sent_def assms(3) new_stream_def)
  have new: "cv_registry (converter_new env r db) = r" "cv_frames (converter_new env r db) = []"
    "cv_client (converter_new env r db) = []" "cv_cancel_token (converter_new env r db) = None"
    "cv_cancel_deadline (converter_new env r db) = None" "cv_client_gone_since (converter_new env r db) = None"
    "cv_pending_text_end (converter_new env r db) = None"
    by (simp_all add: converter_new_def)
  let ?st = "fst (loop_iteration env (SessionId sid) (converter_new env r db))"
  have "delivery_inv env sid ?st"
    unfolding loop_iteration_def on_converter_event_def
    using on_session_id_delivery [OF assms(2)] reg sent
    by (simp add: flush_text_end_def new observe_cancel_def Let_def)
  moreover have "converter_loop env arrivals ?st = Some st"
    using assms(1) by (simp add: new Let_def observe_cancel_def client_gone_too_long_def loop_iteration_def on_converter_event_def)
  ultimately have "delivery_inv env sid st" using delivery.loop_inv assms(5) by blast
  then show ?thesis by (auto simp: delivery_inv_def stream_sent_def)
qed

section \<open>The text of the job\<close>

definition row_content :: "uuid \<Rightarrow> database \<Rightarrow> bytes" where
  "row_content i db = (case List.find (\<lambda>m. m_id m = i) (messages db) of Some m \<Rightarrow> m_content m | None \<Rightarrow> [])"

lemma message_ids_find: "i \<in> set (message_ids db) \<longleftrightarrow> (\<exists>m. List.find (\<lambda>m. m_id m = i) (messages db) = Some m)"
proof -
  have "List.find (\<lambda>m. m_id m = i) (messages db) = None \<longleftrightarrow> i \<notin> set (message_ids db)"
    by (auto simp: find_None_iff message_ids_def)
  then show ?thesis by (cases "List.find (\<lambda>m. m_id m = i) (messages db)") auto
qed

lemma row_content_absent: "i \<notin> set (message_ids db) \<Longrightarrow> row_content i db = []"
  by (auto simp: row_content_def message_ids_find split: option.splits)

lemma find_map_update:
  "(\<And>m. P (f m) = P m) \<Longrightarrow> List.find P (map (\<lambda>m. if P m then f m else m) ms) = map_option f (List.find P ms)"
  by (induction ms) auto

lemma find_snoc: "List.find P (xs @ [x]) = (case List.find P xs of None \<Rightarrow> if P x then Some x else None | Some y \<Rightarrow> Some y)"
  by (induction xs) auto

lemma session_ids_update [simp]:
  "session_ids (fst (update_messages P f db)) = session_ids db"
  "(\<And>s. s_id (g s) = s_id s) \<Longrightarrow> session_ids (fst (update_sessions Q g db)) = session_ids db"
  by (auto simp: session_ids_def update_messages_def update_sessions_def)

lemma messages_update_sessions [simp]: "messages (fst (update_sessions P f db)) = messages db"
  by (simp add: update_sessions_def)

lemma last_user_row_in: "last_user_row sid db = Some m \<Longrightarrow> m \<in> set (messages db)"
proof -
  assume "last_user_row sid db = Some m"
  then have "m \<in> set (rev (by_time (filter (\<lambda>m. m_role m = ''user'') (in_session sid (messages db)))))"
    by (auto simp: last_user_row_def split: list.splits)
  then show ?thesis by (simp add: by_time_def in_session_def)
qed

lemma last_user_row_fk: "fk_ok db (map_option m_id (last_user_row sid db))"
  by (auto simp: fk_ok_def message_ids_def dest!: last_user_row_in split: option.splits)

lemma fk_ok_None [simp]: "fk_ok db None"
  by (simp add: fk_ok_def)

lemma append_streaming_row_ok:
  assumes "sid \<in> set (session_ids db)"
  shows "\<exists>db'. append_streaming_row i now sid a d tc db = Inr db'"
  using assms by (cases "i \<in> set (message_ids db)") (simp_all add: append_streaming_row_def insert_message_def new_row_def last_user_row_fk)

lemma append_streaming_row_effect:
  assumes "append_streaming_row i now sid a d tc db = Inr db'"
  shows "row_content i db' = row_content i db @ d" and "set (message_ids db') \<subseteq> insert i (set (message_ids db))"
    and "i \<in> set (message_ids db')" and "session_ids db' = session_ids db"
proof -
  have "row_content i db' = row_content i db @ d \<and> set (message_ids db') \<subseteq> insert i (set (message_ids db))
      \<and> i \<in> set (message_ids db') \<and> session_ids db' = session_ids db"
  proof (cases "i \<in> set (message_ids db)")
    case True
    then obtain m where m: "List.find (\<lambda>m. m_id m = i) (messages db) = Some m" using message_ids_find by blast
    have db': "db' = fst (update_messages (\<lambda>m. m_id m = i) (\<lambda>m. m\<lparr>m_content := m_content m @ d, m_tool_calls := tc\<rparr>) db)"
      using assms True by (simp add: append_streaming_row_def)
    have "map m_id (messages db') = map m_id (messages db)" by (auto simp: db' update_messages_def)
    moreover have "row_content i db' = row_content i db @ d"
      by (simp add: db' row_content_def update_messages_def m
          find_map_update [where f = "\<lambda>m. m\<lparr>m_content := m_content m @ d, m_tool_calls := tc\<rparr>"])
    ultimately show ?thesis using True by (auto simp: db' message_ids_def)
  next
    case False
    then have none: "List.find (\<lambda>m. m_id m = i) (messages db) = None" using message_ids_find [of i db] by auto
    define row where "row = (new_row i now sid ''assistant'' d tc None (Some a) None
      (map_option m_id (last_user_row sid db)))\<lparr>m_status := ''streaming''\<rparr>"
    have row: "m_id row = i" "m_content row = d" by (simp_all add: row_def new_row_def)
    from assms False have "messages db' = messages db @ [row]" and "session_ids db' = session_ids db"
      by (auto simp: append_streaming_row_def row_def [symmetric] insert_message_def session_ids_def update_sessions_def split: if_splits)
    then show ?thesis using none by (auto simp: row_content_def find_snoc row message_ids_def)
  qed
  then show "row_content i db' = row_content i db @ d" "set (message_ids db') \<subseteq> insert i (set (message_ids db))"
    "i \<in> set (message_ids db')" "session_ids db' = session_ids db" by simp_all
qed

lemma touch_effect [simp]:
  "row_content i (touch_session_activity sid now db) = row_content i db"
  "message_ids (touch_session_activity sid now db) = message_ids db"
  "session_ids (touch_session_activity sid now db) = session_ids db"
  by (simp_all add: touch_session_activity_def row_content_def message_ids_def)

lemma upsert_append_effect:
  assumes "upsert_streaming_append env i sid a d tc st = (st', ok)"
  shows "row_content i (cv_db st') = row_content i (cv_db st) @ (if ok then d else [])"
    and "set (message_ids (cv_db st')) \<subseteq> insert i (set (message_ids (cv_db st)))"
    and "session_ids (cv_db st') = session_ids (cv_db st)"
    and "ok \<Longrightarrow> i \<in> set (message_ids (cv_db st'))"
  using assms append_streaming_row_effect
  by (auto simp: upsert_streaming_append_def db_call_def Let_def split: if_splits sum.splits prod.splits bool.splits
      dest: append_streaming_row_effect(2) [THEN subsetD])

text \<open>The text of the current answer is in the streaming row and in the part that is not flushed yet.\<close>

definition text_inv :: "database \<Rightarrow> uuid \<Rightarrow> uuid \<Rightarrow> bytes \<Rightarrow> converter \<Rightarrow> bool" where
  "text_inv db0 u job txt st \<longleftrightarrow>
     row_content (cv_msg_id st) (cv_db st) @ cv_text st = txt
     \<and> set (message_ids (cv_db st)) \<subseteq> insert (cv_msg_id st) (set (message_ids db0))
     \<and> session_ids (cv_db st) = session_ids db0
     \<and> cv_session_uuid st = Some u \<and> cv_job_id st = Some job
     \<and> job \<in> j_id ` set (rg_jobs (cv_registry st))"

lemma text_inv_cong:
  "cv_msg_id st' = cv_msg_id st \<Longrightarrow> cv_db st' = cv_db st \<Longrightarrow> cv_text st' = cv_text st \<Longrightarrow> cv_session_uuid st' = cv_session_uuid st \<Longrightarrow>
   cv_job_id st' = cv_job_id st \<Longrightarrow> rg_jobs (cv_registry st') = rg_jobs (cv_registry st) \<Longrightarrow>
   text_inv db0 u job txt st' = text_inv db0 u job txt st"
  by (simp add: text_inv_def)

lemma jobs_push [simp]: "rg_jobs (fst (push_event k e r)) = rg_jobs r"
  by (simp add: push_event_def split: option.splits)

lemma db_send [simp]: "cv_db (send_and_buffer env f st) = cv_db st" "rg_jobs (cv_registry (send_and_buffer env f st)) = rg_jobs (cv_registry st)"
  by (simp_all add: send_and_buffer_def Let_def split: option.splits sse_chan.splits)

lemma db_observe [simp]: "cv_db (observe_cancel env st) = cv_db st"
  by simp

lemma text_inv_simps [simp]:
  "text_inv db0 u job txt (send_and_buffer env f st) = text_inv db0 u job txt st"
  "text_inv db0 u job txt (observe_cancel env st) = text_inv db0 u job txt st"
  "text_inv db0 u job txt (st\<lparr>cv_calls := n\<rparr>) = text_inv db0 u job txt st"
  "text_inv db0 u job txt (st\<lparr>cv_pending_text_end := p\<rparr>) = text_inv db0 u job txt st"
  "text_inv db0 u job txt (st\<lparr>cv_text_id_counter := c\<rparr>) = text_inv db0 u job txt st"
  "text_inv db0 u job txt (st\<lparr>cv_tool_names := tn\<rparr>) = text_inv db0 u job txt st"
  "text_inv db0 u job txt (st\<lparr>cv_tools := ts\<rparr>) = text_inv db0 u job txt st"
  "text_inv db0 u job txt (st\<lparr>cv_tools_cache := tc\<rparr>) = text_inv db0 u job txt st"
  "text_inv db0 u job txt (st\<lparr>cv_agent := a\<rparr>) = text_inv db0 u job txt st"
  "text_inv db0 u job txt (flush_text_end env st) = text_inv db0 u job txt st"
  by (rule text_inv_cong; simp add: flush_text_end_def split: option.splits)+

lemma take_tools_db [simp]: "cv_db (fst (take_tools_json st)) = cv_db st" "cv_registry (fst (take_tools_json st)) = cv_registry st"
  by simp_all

lemma text_inv_periodic: "text_inv db0 u job txt st \<Longrightarrow> text_inv db0 u job txt (periodic_flush env st)"
proof -
  assume inv: "text_inv db0 u job txt st"
  let ?st = "st\<lparr>cv_calls := Suc (cv_calls st)\<rparr>"
  obtain st1 tj where t: "take_tools_json ?st = (st1, tj)" by (cases "take_tools_json ?st")
  have f1: "cv_db st1 = cv_db st" "cv_text st1 = cv_text st" "cv_msg_id st1 = cv_msg_id st"
    "cv_session_uuid st1 = cv_session_uuid st" "cv_job_id st1 = cv_job_id st" "cv_registry st1 = cv_registry st"
    using take_tools_json_fields [of ?st] take_tools_db [of ?st] by (simp_all add: t)
  obtain st2 ok where up: "upsert_streaming_append env (cv_msg_id st) u (ce_agent_name env) (cv_text st) tj st1 = (st2, ok)"
    by (cases "upsert_streaming_append env (cv_msg_id st) u (ce_agent_name env) (cv_text st) tj st1")
  have f2: "cv_text st2 = cv_text st" "cv_msg_id st2 = cv_msg_id st"
    "cv_session_uuid st2 = cv_session_uuid st" "cv_job_id st2 = cv_job_id st" "cv_registry st2 = cv_registry st"
    using upsert_streaming_append_fields [of env "cv_msg_id st" u "ce_agent_name env" "cv_text st" tj st1] by (simp_all add: up f1)
  from upsert_append_effect [OF up] inv show ?thesis
    by (auto simp: periodic_flush_def Let_def text_inv_def t up f1 f2)
qed

definition event_text :: "stream_event \<Rightarrow> bytes" where
  "event_text ev = (case ev of TextDelta d \<Rightarrow> d | _ \<Rightarrow> [])"

text \<open>The events of a run between its session id and its end.\<close>

definition running_event :: "stream_event \<Rightarrow> bool" where
  "running_event ev \<longleftrightarrow> (case ev of SessionId _ \<Rightarrow> False | Finish _ _ \<Rightarrow> False | Error _ \<Rightarrow> False | _ \<Rightarrow> True)"

lemma text_inv_iteration:
  assumes "running_event ev" and "text_inv db0 u job txt st"
  shows "text_inv db0 u job (txt @ event_text ev) (fst (loop_iteration env ev st))"
proof -
  let ?st = "flush_text_end env ((observe_cancel env st)\<lparr>cv_calls := Suc (cv_calls (observe_cancel env st))\<rparr>)"
  have inv: "text_inv db0 u job txt ?st" using assms(2) by simp
  show ?thesis
  proof (cases "\<exists>d. ev = TextDelta d")
    case True
    then obtain d where ev: "ev = TextDelta d" by blast
    have app: "text_inv db0 u job (txt @ d) (st'\<lparr>cv_pending_text_end := p, cv_text := t'\<rparr>)"
      if "text_inv db0 u job txt st'" and "t' = cv_text st' @ d" for st' p t'
      using that by (auto simp: text_inv_def)
    have "text_inv db0 u job (txt @ d) (on_text_delta env d ?st)"
      unfolding on_text_delta_def Let_def by (rule text_inv_periodic, rule app [OF _ refl]) (use inv in simp)
    then show ?thesis by (simp add: loop_iteration_def Let_def on_converter_event_def ev event_text_def)
  next
    case False
    then have "event_text ev = []" by (cases ev) (auto simp: event_text_def)
    with False inv assms(1) show ?thesis
      by (cases ev) (simp_all add: loop_iteration_def Let_def on_converter_event_def running_event_def)
  qed
qed

definition events_run :: "converter_env \<Rightarrow> stream_event list \<Rightarrow> converter \<Rightarrow> converter" where
  "events_run env evs st = foldl (\<lambda>st ev. fst (loop_iteration env ev st)) st evs"

definition streamed_text :: "stream_event list \<Rightarrow> bytes" where
  "streamed_text evs = concat (map event_text evs)"

lemma text_inv_run:
  "\<forall>ev \<in> set evs. running_event ev \<Longrightarrow> text_inv db0 u job acc st \<Longrightarrow>
   text_inv db0 u job (acc @ streamed_text evs) (events_run env evs st)"
proof (induction evs arbitrary: st acc)
  case (Cons ev evs)
  have "text_inv db0 u job (acc @ event_text ev) (fst (loop_iteration env ev st))"
    by (rule text_inv_iteration) (simp_all add: Cons.prems)
  from Cons.IH [OF _ this] Cons.prems show ?case by (simp add: events_run_def streamed_text_def)
qed (simp add: events_run_def streamed_text_def)

lemma read_content:
  "\<not> ce_fails env (cv_calls st) \<Longrightarrow>
   read_streaming_content env i st = (st\<lparr>cv_calls := Suc (cv_calls st)\<rparr>, row_content i (cv_db st))"
  by (simp add: read_streaming_content_def row_content_def Let_def)

text \<open>The texts that the rows of a job hold.\<close>

definition job_texts :: "uuid \<Rightarrow> registry \<Rightarrow> bytes set" where
  "job_texts job r = {j_text j |j. j \<in> set (rg_jobs r) \<and> j_id j = job}"

lemma job_texts_set_content:
  assumes "\<not> ge_fails renv (rg_calls r)" and "job \<in> j_id ` set (rg_jobs r)"
  shows "job_texts job (jobs_call renv (\<lambda>_. set_content job d tools) r) = {d}"
    and "job \<in> j_id ` set (rg_jobs (jobs_call renv (\<lambda>_. set_content job d tools) r))"
proof -
  let ?f = "\<lambda>j. if j_id j = job then j\<lparr>j_text := d, j_tool_calls := JArray tools\<rparr> else j"
  have js: "rg_jobs (jobs_call renv (\<lambda>_. set_content job d tools) r) = map ?f (rg_jobs r)"
    using assms(1) by (simp add: jobs_call_def Let_def set_content_def update_job_def)
  have "map j_id (map ?f (rg_jobs r)) = map j_id (rg_jobs r)" by simp
  from arg_cong [OF this, of set] have "j_id ` set (map ?f (rg_jobs r)) = j_id ` set (rg_jobs r)" by (simp only: set_map)
  with assms(2) show "job \<in> j_id ` set (rg_jobs (jobs_call renv (\<lambda>_. set_content job d tools) r))" by (simp only: js)
  obtain j where j: "j \<in> set (rg_jobs r)" "j_id j = job" using assms(2) by auto
  then have "?f j \<in> set (map ?f (rg_jobs r))" unfolding set_map by (rule_tac imageI)
  with j have "d \<in> job_texts job (jobs_call renv (\<lambda>_. set_content job d tools) r)"
    unfolding job_texts_def js by (intro CollectI exI [of _ "?f j"]) simp
  moreover have "job_texts job (jobs_call renv (\<lambda>_. set_content job d tools) r) \<subseteq> {d}"
  proof
    fix x
    assume "x \<in> job_texts job (jobs_call renv (\<lambda>_. set_content job d tools) r)"
    then obtain y where y: "y \<in> set (map ?f (rg_jobs r))" "j_id y = job" "x = j_text y" unfolding job_texts_def js by blast
    from y(1) obtain j' where "y = ?f j'" unfolding set_map by (rule imageE)
    with y(2) have "j_text y = d" by (simp split: if_splits)
    with y(3) show "x \<in> {d}" by simp
  qed
  ultimately show "job_texts job (jobs_call renv (\<lambda>_. set_content job d tools) r) = {d}" by blast
qed

lemma job_texts_finish: "job_texts job (jobs_call renv (finish_job i) r) = job_texts job r"
proof (cases "ge_fails renv (rg_calls r)")
  case False
  let ?now = "ge_now renv (rg_calls r)"
  let ?f = "\<lambda>j. if j_id j = i then j\<lparr>j_status := ''finished'', j_finished_at := Some ?now\<rparr> else j"
  have js: "rg_jobs (jobs_call renv (finish_job i) r) = map ?f (rg_jobs r)"
    using False by (simp add: jobs_call_def Let_def finish_job_def update_job_def)
  have same: "j_id (?f j) = j_id j" "j_text (?f j) = j_text j" for j by simp_all
  have set_form: "job_texts job r' = j_text ` {j \<in> set (rg_jobs r'). j_id j = job}" for r'
    by (auto simp: job_texts_def)
  have "map j_text (filter (\<lambda>j. j_id j = job) (map ?f (rg_jobs r))) = map j_text (filter (\<lambda>j. j_id j = job) (rg_jobs r))"
    by (simp only: filter_map comp_def same map_map)
  from arg_cong [OF this, of set] show ?thesis unfolding set_form js by simp
qed (simp add: job_texts_def jobs_call_def Let_def)

lemma calls_mono [simp]:
  "cv_calls st \<le> cv_calls (fst (db_call env f st))"
  "cv_calls st \<le> cv_calls (fst (upsert_streaming_append env i sid a d tc st))"
  "cv_calls st \<le> cv_calls (fst (read_streaming_content env i st))"
  "cv_calls st \<le> cv_calls (send_and_buffer env fr st)"
  "cv_calls st \<le> cv_calls (flush_text_end env st)"
  "cv_calls st \<le> cv_calls (observe_cancel env st)"
  "cv_calls (fst (take_tools_json st)) = cv_calls st"
  by (auto simp: db_call_def upsert_streaming_append_def read_streaming_content_def send_and_buffer_def flush_text_end_def observe_cancel_def
      take_tools_json_def Let_def split: option.splits sse_chan.splits sum.splits bool.splits prod.splits)

lemma calls_send: "cv_calls (send_and_buffer env fr st) = Suc (cv_calls st)"
  by (simp add: send_and_buffer_def Let_def split: option.splits sse_chan.splits)

lemma finalize_message_effect [simp]:
  "set (message_ids (finalize_streaming_message i db)) \<subseteq> set (message_ids db)"
  "session_ids (finalize_streaming_message i db) = session_ids db"
  by (auto simp: finalize_streaming_message_def delete_messages_def Let_def message_ids_def session_ids_def null_refs_def)

lemma upsert_append_succeeds:
  assumes "\<not> ce_fails env (cv_calls st)" and "sid \<in> set (session_ids (cv_db st))"
  shows "snd (upsert_streaming_append env i sid a d tc st)"
  using assms(1) append_streaming_row_ok [OF assms(2), of i "ce_now env (cv_calls st)" a d tc]
  by (auto simp: upsert_streaming_append_def db_call_def Let_def)

text \<open>If none of its calls fails, the end of a message stores the whole text in the job.\<close>

lemma finalize_stores_text:
  assumes inv: "text_inv db0 u job acc st" and sid: "u \<in> set (session_ids db0)"
    and ok: "\<forall>n \<ge> cv_calls st. \<not> ce_fails env n" and jok: "\<not> ge_fails (ce_registry env) (rg_calls (cv_registry st))"
  shows "job_texts job (cv_registry (finalize_streaming env st)) = {acc}"
    and "job \<in> j_id ` set (rg_jobs (cv_registry (finalize_streaming env st)))"
    and "set (message_ids (cv_db (finalize_streaming env st))) \<subseteq> insert (cv_msg_id st) (set (message_ids db0))"
    and "session_ids (cv_db (finalize_streaming env st)) = session_ids db0"
proof -
  obtain st1 tj where t: "take_tools_json st = (st1, tj)" by (cases "take_tools_json st")
  have f1: "cv_db st1 = cv_db st" "cv_text st1 = cv_text st" "cv_msg_id st1 = cv_msg_id st" "cv_job_id st1 = cv_job_id st"
    "cv_registry st1 = cv_registry st" "cv_calls st1 = cv_calls st"
    using take_tools_json_fields [of st] take_tools_db [of st] calls_mono(7) [of st] by (simp_all add: t)
  obtain st2 ok where up: "upsert_streaming_append env (cv_msg_id st) u (ce_agent_name env) (cv_text st) tj st1 = (st2, ok)"
    by (cases "upsert_streaming_append env (cv_msg_id st) u (ce_agent_name env) (cv_text st) tj st1")
  have f2: "cv_msg_id st2 = cv_msg_id st" "cv_job_id st2 = cv_job_id st" "cv_registry st2 = cv_registry st" "cv_calls st \<le> cv_calls st2"
    using upsert_streaming_append_fields [of env "cv_msg_id st" u "ce_agent_name env" "cv_text st" tj st1]
      calls_mono(2) [of st1 env "cv_msg_id st" u "ce_agent_name env" "cv_text st" tj] by (simp_all add: up f1)
  have "ok" using upsert_append_succeeds [of env st1 u "cv_msg_id st" "ce_agent_name env" "cv_text st" tj] inv sid assms(3)
    by (simp add: up f1 text_inv_def)
  with upsert_append_effect [OF up] inv have c: "row_content (cv_msg_id st) (cv_db st2) = acc"
    and ids: "set (message_ids (cv_db st2)) \<subseteq> insert (cv_msg_id st) (set (message_ids db0))"
    and ses: "session_ids (cv_db st2) = session_ids db0"
    by (auto simp: text_inv_def f1)
  have rd: "read_streaming_content env (cv_msg_id st) st2 = (st2\<lparr>cv_calls := Suc (cv_calls st2)\<rparr>, acc)"
    using read_content [of env st2] assms(3) f2 by (simp add: c)
  let ?r = "jobs_call (ce_registry env) (\<lambda>_. set_content job acc (cv_tools st2)) (cv_registry st)"
  have fin: "finalize_streaming env st = fst (db_call env (\<lambda>_ db. Inr (finalize_streaming_message (cv_msg_id st) db))
      (st2\<lparr>cv_calls := Suc (cv_calls st2), cv_registry := ?r\<rparr>))"
    using inv by (simp add: finalize_streaming_def text_inv_def t Let_def up f1 f2 rd)
  have jid: "job \<in> j_id ` set (rg_jobs (cv_registry st))" using inv by (simp add: text_inv_def)
  show "job_texts job (cv_registry (finalize_streaming env st)) = {acc}"
    and "job \<in> j_id ` set (rg_jobs (cv_registry (finalize_streaming env st)))"
    using job_texts_set_content [OF jok jid] by (simp_all add: fin)
  have "cv_db (finalize_streaming env st) = finalize_streaming_message (cv_msg_id st) (cv_db st2)"
    using assms(3) f2 by (simp add: fin db_call_def Let_def)
  then show "set (message_ids (cv_db (finalize_streaming env st))) \<subseteq> insert (cv_msg_id st) (set (message_ids db0))"
    and "session_ids (cv_db (finalize_streaming env st)) = session_ids db0"
    using order_trans [OF finalize_message_effect(1) ids] ses by simp_all
qed

lemma upsert_message_effect:
  assumes "upsert_streaming_message i now sid a [] tc db = Inr db'" and "i \<notin> set (message_ids db)"
  shows "row_content i db' = []" and "set (message_ids db') \<subseteq> insert i (set (message_ids db))" and "session_ids db' = session_ids db"
proof -
  have none: "List.find (\<lambda>m. m_id m = i) (messages db) = None" using assms(2) message_ids_find [of i db] by auto
  define row where "row = (new_row i now sid ''assistant'' [] tc None (Some a) None
    (map_option m_id (last_user_row sid db)))\<lparr>m_status := ''streaming''\<rparr>"
  have row: "m_id row = i" "m_content row = []" by (simp_all add: row_def new_row_def)
  have "messages db' = messages db @ [row] \<and> session_ids db' = session_ids db"
    using assms by (auto simp: upsert_streaming_message_def row_def [symmetric] insert_message_def touch_session_activity_def
        Let_def session_ids_def update_sessions_def split: if_splits sum.splits)
  then show "row_content i db' = []" "set (message_ids db') \<subseteq> insert i (set (message_ids db))" "session_ids db' = session_ids db"
    using none by (auto simp: row_content_def find_snoc row message_ids_def)
qed

lemma update_job_ids [simp]: "(\<And>j. j_id (f j) = j_id j) \<Longrightarrow> j_id ` set (update_job i f jobs) = j_id ` set jobs"
proof -
  assume "\<And>j. j_id (f j) = j_id j"
  then have "map j_id (update_job i f jobs) = map j_id jobs" by (simp add: update_job_def)
  from arg_cong [OF this, of set] show ?thesis by (simp only: set_map)
qed

lemma registered_job:
  assumes "register_with_token env sid agent token r = (r1, Some job)"
  shows "job \<in> j_id ` set (rg_jobs r1)"
proof -
  obtain r0 where c: "register_create env sid agent r = (r0, Some job)" and i: "register_insert env sid token job r0 = (r1, Some job)"
    using assms by (auto simp: register_with_token_def dest: register_insertD split: prod.splits option.splits)
  from c have "job \<in> j_id ` set (rg_jobs r0)"
    by (auto simp: register_create_def jobs_call_def create_job_def Let_def split: if_splits)
  moreover have "j_id ` set (rg_jobs (supersede env key r)) = j_id ` set (rg_jobs r)" for key r
    by (simp add: supersede_def jobs_call_def Let_def error_job_def split: option.splits)
  moreover have "rg_jobs r1 = rg_jobs (supersede env (ge_uuid_str env sid) (r0\<lparr>rg_streams := rg_streams r0\<rparr>))
      \<or> rg_jobs r1 = rg_jobs (supersede env (ge_uuid_str env sid) (r0\<lparr>rg_streams := filter (\<lambda>(_, s). \<not> st_finished s) (rg_streams r0)\<rparr>))"
    using i by (auto simp: register_insert_def Let_def split: if_splits)
  ultimately show ?thesis by auto
qed

lemma session_id_text_inv:
  assumes "ce_parse_uuid env sid = Some u" and "cv_db st = db" and "cv_text st = []" and "cv_msg_id st \<notin> set (message_ids db)"
    and "register_with_token (ce_registry env) u (ce_agent_name env) (ce_token env) (cv_registry st) = (r1, Some job)"
  shows "text_inv db u job [] (on_session_id env sid st)"
proof -
  let ?g = "\<lambda>sp. st\<lparr>cv_registry := r1, cv_cancel_token := Some (ce_token env), cv_job_id := Some job, cv_session_id_str := Some sid,
      cv_session_uuid := Some u, cv_guard := (cv_guard st)\<lparr>sg_session_id := Some u\<rparr>, cv_spawned := sp\<rparr>"
  have "text_inv db u job [] (fst (db_call env (\<lambda>now. upsert_streaming_message (cv_msg_id st) now u (ce_agent_name env) [] None) (?g sp)))" for sp
    using upsert_message_effect [OF _ assms(4)] row_content_absent [OF assms(4)] registered_job [OF assms(5)] assms(2,3)
    by (auto simp: text_inv_def db_call_def Let_def split: sum.splits)
  from this [of "cv_spawned st"] this [of "cv_spawned st @ [InviteTask u (the (ce_mentioned env))]"] show ?thesis
    by (auto simp: on_session_id_def Let_def assms(1,5) split: option.splits)
qed

lemma jobs_calls_mono [simp]: "rg_calls r \<le> rg_calls (jobs_call renv f r)"
  by (simp add: jobs_call_def Let_def)

lemma registry_calls_finalize: "rg_calls (cv_registry st) \<le> rg_calls (cv_registry (finalize_streaming env st))"
proof -
  have "cv_registry (fst (take_tools_json st)) = cv_registry st" by simp
  then show ?thesis by (simp add: finalize_streaming_def Let_def case_prod_unfold split: option.splits)
qed

lemma registry_calls_send [simp]: "rg_calls (cv_registry (send_and_buffer env f st)) = rg_calls (cv_registry st)"
  by (auto simp: send_and_buffer_def Let_def push_event_def update_stream_def split: option.splits sse_chan.splits)

lemma calls_finalize: "cv_calls st \<le> cv_calls (finalize_streaming env st)"
proof (cases "cv_session_uuid st")
  case (Some sid)
  obtain st1 tj where t: "take_tools_json st = (st1, tj)" by (cases "take_tools_json st")
  obtain st2 ok where up: "upsert_streaming_append env (cv_msg_id st1) sid (ce_agent_name env) (cv_text st1) tj st1 = (st2, ok)"
    by (cases "upsert_streaming_append env (cv_msg_id st1) sid (ce_agent_name env) (cv_text st1) tj st1")
  obtain st3 full where rd: "read_streaming_content env (cv_msg_id st2) st2 = (st3, full)"
    by (cases "read_streaming_content env (cv_msg_id st2) st2")
  have "cv_calls st \<le> cv_calls st3"
    using calls_mono(7) [of st] calls_mono(2) [of st1 env "cv_msg_id st1" sid "ce_agent_name env" "cv_text st1" tj]
      calls_mono(3) [of st2 env "cv_msg_id st2"] by (simp add: t up rd)
  then show ?thesis
    by (auto simp: finalize_streaming_def Some t up rd Let_def intro: order_trans [OF _ calls_mono(1)] split: option.splits)
qed (simp add: finalize_streaming_def)

text \<open>The state in which the end of an answer leaves the converter.\<close>

lemma on_finish_text:
  assumes inv: "text_inv db0 u job acc st" and sid: "u \<in> set (session_ids db0)" and ok: "\<forall>n \<ge> cv_calls st. \<not> ce_fails env n"
    and jok: "\<forall>n \<ge> rg_calls (cv_registry st). \<not> ge_fails (ce_registry env) n"
    and fresh: "\<forall>n. n \<noteq> 0 \<longrightarrow> ce_fresh_id env n \<notin> insert (cv_msg_id st) (set (message_ids db0))"
  defines "f \<equiv> on_finish env st"
  shows "job_texts job (cv_registry f) = {acc}"
    and "text_inv (cv_db f) u job [] f" and "session_ids (cv_db f) = session_ids db0"
    and "cv_calls st \<le> cv_calls f" and "rg_calls (cv_registry st) \<le> rg_calls (cv_registry f)"
    and "cv_finished_sent f = cv_finished_sent st"
proof -
  define s2 where "s2 = send_and_buffer env (JObject [(''type'', JString ''finish''), (''agentName'', JString (cv_agent (flush_text_end env st)))])
    (flush_text_end env st)"
  have inv2: "text_inv db0 u job acc s2" and m2: "cv_msg_id s2 = cv_msg_id st"
    and r2: "rg_calls (cv_registry s2) = rg_calls (cv_registry st)" and u2: "cv_session_uuid s2 = Some u" "cv_job_id s2 = Some job"
    and fs: "cv_finished_sent s2 = cv_finished_sent st"
    using inv by (auto simp: s2_def flush_text_end_def text_inv_def split: option.splits)
  have c2: "cv_calls st < cv_calls s2"
    unfolding s2_def calls_send by (rule le_imp_less_Suc) (rule calls_mono)
  define s3 where "s3 = finalize_streaming env s2"
  have ok2: "\<forall>n \<ge> cv_calls s2. \<not> ce_fails env n" "\<not> ge_fails (ce_registry env) (rg_calls (cv_registry s2))"
    using ok jok c2 r2 by auto
  note fin = finalize_stores_text [OF inv2 sid ok2, folded s3_def]
  have c3: "cv_calls st < cv_calls s3" using calls_finalize [of s2 env] c2 by (simp add: s3_def)
  let ?i = "ce_fresh_id env (cv_calls s3)"
  have f: "cv_registry f = cv_registry s3" "cv_db f = cv_db s3" "cv_text f = []" "cv_msg_id f = ?i" "cv_session_uuid f = Some u"
    "cv_job_id f = Some job" "cv_calls f = Suc (cv_calls s3)" "cv_finished_sent f = cv_finished_sent st"
    using finalize_streaming_fields [of env s2] u2 fs
    by (simp_all add: f_def on_finish_def Let_def s2_def [symmetric] s3_def mark_guard_finalized_def)
  have "?i \<notin> set (message_ids (cv_db s3))" using fresh c3 fin(3) by (auto simp: m2)
  then show "text_inv (cv_db f) u job [] f"
    using fin by (auto simp: text_inv_def f row_content_absent)
  show "job_texts job (cv_registry f) = {acc}" "session_ids (cv_db f) = session_ids db0"
    "cv_calls st \<le> cv_calls f" "cv_finished_sent f = cv_finished_sent st"
    using fin c3 by (simp_all add: f)
  show "rg_calls (cv_registry st) \<le> rg_calls (cv_registry f)"
    using registry_calls_finalize [of s2 env] r2 by (simp add: f s3_def)
qed

text \<open>A run from its session id to the state in which the finish event is handled.\<close>

definition run_to_finish :: "converter_env \<Rightarrow> bytes \<Rightarrow> stream_event list \<Rightarrow> registry \<Rightarrow> database \<Rightarrow> converter" where
  "run_to_finish env sid evs r db = events_run env (SessionId sid # evs) (converter_new env r db)"

definition finish_step :: "converter_env \<Rightarrow> bytes \<Rightarrow> bool \<Rightarrow> converter \<Rightarrow> converter" where
  "finish_step env reason cont st = fst (loop_iteration env (Finish reason cont) st)"

definition step_start :: "converter_env \<Rightarrow> converter \<Rightarrow> converter" where
  "step_start env st = flush_text_end env ((observe_cancel env st)\<lparr>cv_calls := Suc (cv_calls (observe_cancel env st))\<rparr>)"

lemma step_start_simps:
  "text_inv db0 u job acc (step_start env st) = text_inv db0 u job acc st"
  "cv_msg_id (step_start env st) = cv_msg_id st" "cv_calls st \<le> cv_calls (step_start env st)"
  "rg_calls (cv_registry (step_start env st)) = rg_calls (cv_registry st)"
  "cv_finished_sent (step_start env st) = cv_finished_sent st"
proof -
  show "cv_calls st \<le> cv_calls (step_start env st)"
    unfolding step_start_def by (rule order_trans [OF _ calls_mono(5)]) (simp add: le_SucI)
qed (simp_all add: step_start_def flush_text_end_def split: option.splits)

lemma finish_step_eq: "finish_step env reason cont st = on_finish env (step_start env st)"
  by (simp add: finish_step_def loop_iteration_def Let_def on_converter_event_def step_start_def)

lemma msg_id_periodic [simp]: "cv_msg_id (on_text_delta env d st) = cv_msg_id st" "cv_finished_sent (on_text_delta env d st) = cv_finished_sent st"
  by (simp_all add: on_text_delta_def Let_def)

lemma running_event_fields:
  assumes "running_event ev"
  shows "cv_msg_id (fst (loop_iteration env ev st)) = cv_msg_id st"
    and "cv_finished_sent (fst (loop_iteration env ev st)) = cv_finished_sent st"
  using assms step_start_simps(2,5) [of env st] unfolding step_start_def loop_iteration_def on_converter_event_def Let_def
  by (cases ev; simp add: running_event_def Let_def)+

lemma events_run_fields:
  "\<forall>ev \<in> set evs. running_event ev \<Longrightarrow>
   cv_msg_id (events_run env evs st) = cv_msg_id st \<and> cv_finished_sent (events_run env evs st) = cv_finished_sent st"
  by (induction evs arbitrary: st) (simp_all add: events_run_def running_event_fields)

lemma on_session_id_fields [simp]:
  "cv_msg_id (on_session_id env sid st) = cv_msg_id st" "cv_finished_sent (on_session_id env sid st) = cv_finished_sent st"
  by (simp_all add: on_session_id_def Let_def split: option.splits prod.splits)

lemma run_to_finish_text:
  assumes "ce_parse_uuid env sid = Some u" and "ce_fresh_id env 0 \<notin> set (message_ids db)"
    and "register_with_token (ce_registry env) u (ce_agent_name env) (ce_token env) r = (r1, Some job)"
    and "\<forall>ev \<in> set evs. running_event ev"
  shows "text_inv db u job (streamed_text evs) (run_to_finish env sid evs r db)"
    and "cv_msg_id (run_to_finish env sid evs r db) = ce_fresh_id env 0"
    and "\<not> cv_finished_sent (run_to_finish env sid evs r db)"
proof -
  let ?st = "fst (loop_iteration env (SessionId sid) (converter_new env r db))"
  let ?s = "step_start env (converter_new env r db)"
  have new: "cv_db ?s = db" "cv_text ?s = []" "cv_msg_id ?s = ce_fresh_id env 0" "cv_registry ?s = r" "\<not> cv_finished_sent ?s"
    by (simp_all add: step_start_def flush_text_end_def converter_new_def)
  have st: "?st = on_session_id env sid ?s"
    by (simp add: loop_iteration_def Let_def on_converter_event_def step_start_def)
  have "text_inv db u job [] ?st"
    unfolding st by (rule session_id_text_inv [OF assms(1) new(1,2)]) (use assms(2,3) in \<open>simp_all add: new\<close>)
  from text_inv_run [OF assms(4) this] show "text_inv db u job (streamed_text evs) (run_to_finish env sid evs r db)"
    by (simp add: run_to_finish_def events_run_def)
  show "cv_msg_id (run_to_finish env sid evs r db) = ce_fresh_id env 0" "\<not> cv_finished_sent (run_to_finish env sid evs r db)"
    using events_run_fields [OF assms(4), of env ?st] by (simp_all add: run_to_finish_def events_run_def st new)
qed

text \<open>C2: Whatever periodic flushes of the row succeed or fail in between, the job of a finished answer gets the
  concatenation of all text that was streamed, if the calls of the end itself succeed.
\<close>

theorem finish_stores_streamed_text:
  assumes "ce_parse_uuid env sid = Some u" and "u \<in> set (session_ids db)"
    and "\<forall>n. ce_fresh_id env n \<notin> set (message_ids db)" and "inj (ce_fresh_id env)"
    and "register_with_token (ce_registry env) u (ce_agent_name env) (ce_token env) r = (r1, Some job)"
    and "\<forall>ev \<in> set evs. running_event ev" and "st = run_to_finish env sid evs r db"
    and "\<forall>n \<ge> cv_calls st. \<not> ce_fails env n" and "\<forall>n \<ge> rg_calls (cv_registry st). \<not> ge_fails (ce_registry env) n"
  shows "job_texts job (cv_registry (finish_step env reason cont st)) = {streamed_text evs}"
proof -
  note run = run_to_finish_text [OF assms(1) spec [OF assms(3), of 0] assms(5,6), folded assms(7)]
  have "text_inv db u job (streamed_text evs) (step_start env st)" using run(1) by (simp add: step_start_simps)
  then show ?thesis unfolding finish_step_eq
  proof (rule on_finish_text(1) [OF _ assms(2)])
    show "\<forall>n. n \<noteq> 0 \<longrightarrow> ce_fresh_id env n \<notin> insert (cv_msg_id (step_start env st)) (set (message_ids db))"
      using assms(3,4) by (simp add: step_start_simps run inj_eq)
    show "\<forall>n\<ge>cv_calls (step_start env st). \<not> ce_fails env n" using assms(8) step_start_simps(3) order_trans by blast
    show "\<forall>n\<ge>rg_calls (cv_registry (step_start env st)). \<not> ge_fails (ce_registry env) n" using assms(9) by (simp add: step_start_simps)
  qed
qed

lemma registry_send_last [simp]: "cv_registry (send_last env x st) = cv_registry st"
  by (simp add: send_last_def Let_def)

lemma exit_registry:
  assumes "\<not> cv_finished_sent st" and "P (cv_registry (finalize_streaming env st))"
    and "\<And>key. P (mark_finished (ce_registry env) key (cv_registry (finalize_streaming env st)))"
  shows "P (cv_registry (converter_exit env st))"
proof -
  define f where "f = mark_guard_finalized (finalize_streaming env st)"
  have f: "cv_registry f = cv_registry (finalize_streaming env st)" by (simp add: f_def mark_guard_finalized_def)
  define m where "m = (case cv_session_id_str f of
      Some sid \<Rightarrow> f\<lparr>cv_registry := mark_finished (ce_registry env) sid (cv_registry f)\<rparr> | None \<Rightarrow> f)"
  have m: "P (cv_registry m)" by (cases "cv_session_id_str f") (simp_all add: m_def f assms)
  define e where "e = (case cv_pending_text_end m of
      Some i \<Rightarrow> send_last env (ce_ser env (text_end_frame i)) (m\<lparr>cv_pending_text_end := None\<rparr>) | None \<Rightarrow> m)"
  have e: "cv_registry (send_last env DONE_FRAME e) = cv_registry m" by (cases "cv_pending_text_end m") (simp_all add: e_def)
  define d where "d = send_last env DONE_FRAME e"
  have "converter_exit env st = (let st2 = (case cv_session_uuid d of
          Some sid \<Rightarrow> d\<lparr>cv_spawned := cv_spawned d @ [TitleTask sid (ce_user_text env)]\<rparr> | None \<Rightarrow> d)
      in st2\<lparr>cv_spawned := cv_spawned st2 @ streaming_guard_drop (cv_guard st2)\<rparr>)"
    unfolding converter_exit_def d_def e_def m_def f_def Let_def using assms(1) by (simp only: if_False)
  then have "cv_registry (converter_exit env st) = cv_registry d" by (cases "cv_session_uuid d") (simp_all add: Let_def)
  with m e show ?thesis by (simp add: d_def)
qed

lemma job_texts_mark_finished: "job_texts job (mark_finished renv key r) = job_texts job r"
proof -
  obtain r2 jo where s: "set_finished_state (ge_now renv (rg_calls r)) key r = (r2, jo)"
    by (cases "set_finished_state (ge_now renv (rg_calls r)) key r")
  have "rg_jobs (fst (set_finished_state (ge_now renv (rg_calls r)) key r)) = rg_jobs r"
    by (simp add: set_finished_state_def split: option.splits)
  then have t: "job_texts job r2 = job_texts job r" by (simp only: s fst_conv job_texts_def)
  show ?thesis by (cases jo) (simp_all only: mark_finished_def s t job_texts_finish prod.case option.case)
qed

text \<open>C27: When the engine has finished and its channel is closed, the converter ends by running the steps of an
  unexpected end once more, on the empty row of the next answer: the text of the finished job is overwritten
  with the empty text, so that a later resume reports an empty answer.
\<close>

theorem exit_clears_finished_job:
  assumes "ce_parse_uuid env sid = Some u" and "u \<in> set (session_ids db)"
    and "\<forall>n. ce_fresh_id env n \<notin> set (message_ids db)" and "inj (ce_fresh_id env)"
    and "register_with_token (ce_registry env) u (ce_agent_name env) (ce_token env) r = (r1, Some job)"
    and "\<forall>ev \<in> set evs. running_event ev" and "st = run_to_finish env sid evs r db"
    and "\<forall>n \<ge> cv_calls st. \<not> ce_fails env n" and "\<forall>n \<ge> rg_calls (cv_registry st). \<not> ge_fails (ce_registry env) n"
  shows "job_texts job (cv_registry (converter_exit env (finish_step env reason cont st))) = {[]}"
proof -
  let ?f = "finish_step env reason cont st"
  note run = run_to_finish_text [OF assms(1) spec [OF assms(3), of 0] assms(5,6), folded assms(7)]
  have inv: "text_inv db u job (streamed_text evs) (step_start env st)" using run(1) by (simp add: step_start_simps)
  have fresh: "\<forall>n. n \<noteq> 0 \<longrightarrow> ce_fresh_id env n \<notin> insert (cv_msg_id (step_start env st)) (set (message_ids db))"
    using assms(3,4) by (simp add: step_start_simps run inj_eq)
  have ok: "\<forall>n\<ge>cv_calls (step_start env st). \<not> ce_fails env n" using assms(8) step_start_simps(3) order_trans by blast
  have jok: "\<forall>n\<ge>rg_calls (cv_registry (step_start env st)). \<not> ge_fails (ce_registry env) n" using assms(9) by (simp add: step_start_simps)
  note fin = on_finish_text [OF inv assms(2) ok jok fresh, folded finish_step_eq [of env reason cont]]
  have u: "u \<in> set (session_ids (cv_db ?f))" using fin(3) assms(2) by simp
  have ok2: "\<forall>n\<ge>cv_calls ?f. \<not> ce_fails env n" using ok fin(4) order_trans by blast
  have jok2: "\<not> ge_fails (ce_registry env) (rg_calls (cv_registry ?f))" using jok fin(5) by blast
  have "job_texts job (cv_registry (finalize_streaming env ?f)) = {[]}"
    by (rule finalize_stores_text(1) [OF fin(2) u ok2 jok2])
  moreover have "\<not> cv_finished_sent ?f" using fin(6) run(3) by (simp add: step_start_simps)
  ultimately show ?thesis
    using exit_registry [of ?f "\<lambda>r. job_texts job r = {[]}" env] by (simp add: job_texts_mark_finished)
qed

section \<open>Cancellation\<close>

text \<open>C28: The converter looks at the cancel token only before it waits for the next event. An engine that falls silent
  is aborted when the cancel came before that look. Then the session of the request becomes interrupted if it
  was running, and no session changes otherwise. A cancel that comes while the converter waits is never
  noticed, and the task waits for ever.
\<close>

theorem silent_engine_aborted_iff_cancel_seen:
  assumes "cv_cancel_token st = Some tok" and "cv_cancel_deadline st = None" and "\<not> cv_logged_cancel st"
    and "cv_session_uuid st = Some u" and "\<not> ce_fails env (Suc (cv_calls st))"
  shows "if ce_cancelled env (cv_calls st)
    then \<exists>st'. converter_loop env [] st = Some st' \<and> cv_engine_aborted st'
           \<and> sessions (cv_db st') = map (\<lambda>s. if s_id s = u \<and> s_run_status s = Some ''running''
               then s\<lparr>s_run_status := Some ''interrupted''\<rparr> else s) (sessions (cv_db st))
    else converter_loop env [] st = None"
proof (cases "ce_cancelled env (cv_calls st)")
  case True
  let ?st = "st\<lparr>cv_calls := Suc (cv_calls st), cv_logged_cancel := True,
      cv_cancel_deadline := Some (ce_now env (cv_calls st) + CANCEL_GRACE)\<rparr>"
  have "observe_cancel env st = ?st" using assms True by (simp add: observe_cancel_def Let_def)
  then have loop: "converter_loop env [] st = Some (hard_abort env ?st)" by (simp add: Let_def)
  have "sessions (cv_db (hard_abort env ?st))
      = map (\<lambda>s. if s_id s = u \<and> s_run_status s = Some ''running'' then s\<lparr>s_run_status := Some ''interrupted''\<rparr> else s)
          (sessions (cv_db st))"
    using assms by (simp add: hard_abort_def db_call_def Let_def mark_session_run_status_if_running_def update_sessions_def)
  with loop True show ?thesis by (simp add: hard_abort_def Let_def)
qed (use assms in \<open>simp add: observe_cancel_def Let_def\<close>)

section \<open>A concrete run\<close>

definition demo_converter_env :: "(nat \<Rightarrow> bool) \<Rightarrow> converter_env" where
  "demo_converter_env cancelled =
     \<lparr>ce_registry = demo_registry_env\<lparr>ge_fails := (\<lambda>_. False)\<rparr>, ce_ser = frame_type, ce_parse_json = (\<lambda>_. None),
      ce_parse_uuid = (\<lambda>s. Some (size s)), ce_agent_name = ''A'', ce_token = 5, ce_mentioned = None, ce_user_text = ''hi'',
      ce_fails = (\<lambda>_. False), ce_now = (\<lambda>n. n), ce_sse = (\<lambda>n. if n = 8 then ChanFull else ChanOpen), ce_fresh_id = (\<lambda>n. n + 10),
      ce_cancelled = cancelled\<rparr>"

definition demo_sse_db :: database where
  "demo_sse_db = insert_session 1 0 ''A'' ''u'' ''ui'' \<lparr>sessions = [], messages = []\<rparr>"

text \<open>Without cancellation and with a connected client every event is handled.\<close>

lemma quiet_loop:
  assumes "ce_cancelled env = (\<lambda>_. False)" and "cv_cancel_deadline st = None" and "cv_client_gone_since st = None"
  shows "converter_loop env ((t, Some ev) # arrivals) st = (case loop_iteration env ev st of
      (st1, True) \<Rightarrow> Some st1 | (st1, False) \<Rightarrow> converter_loop env arrivals st1)"
    and "converter_loop env ((t, None) # arrivals) st = Some (observe_cancel env st)"
  using assms by (simp_all add: observe_cancel_def Let_def client_gone_too_long_def)

lemma client_gone_send: "ce_sse env (cv_calls st) \<noteq> ChanClosed \<Longrightarrow> cv_client_gone_since (send_and_buffer env f st) = None" if "cv_client_gone_since st = None"
  using that by (simp add: send_and_buffer_def Let_def split: option.splits sse_chan.splits)

lemma text_blocks_bracketed_witness:
  "\<exists>st. converter_loop (demo_converter_env (\<lambda>_. False)) [(0, Some (TextDelta ''a'')), (1, Some (MessageStart ''m'')), (2, None)]
          (converter_new (demo_converter_env (\<lambda>_. False)) empty_registry demo_sse_db) = Some st
     \<and> text_phases TextIdle (cv_frames st) = Some TextIdle"
proof -
  let ?env = "demo_converter_env (\<lambda>_. False)"
  let ?st0 = "converter_new ?env empty_registry demo_sse_db"
  have env: "ce_cancelled ?env = (\<lambda>_. False)" "ce_sse ?env n \<noteq> ChanClosed" for n by (simp_all add: demo_converter_env_def)
  let ?quiet = "\<lambda>st. cv_cancel_deadline st = None \<and> cv_client_gone_since st = None"
  have step: "cv_cancel_deadline (step_start ?env st) = None" "cv_client_gone_since (step_start ?env st) = None"
      "cv_pending_text_end (step_start ?env st) = None" if "?quiet st" for st
    using that by (simp_all add: step_start_def flush_text_end_def observe_cancel_def Let_def env client_gone_send split: option.splits)
  have it: "loop_iteration ?env ev st = handle_event ?env ev (step_start ?env st)" for ev st
    by (simp add: loop_iteration_def step_start_def on_converter_event_def Let_def)
  have q0: "?quiet ?st0" by (simp add: converter_new_def)
  let ?st1 = "on_text_delta ?env ''a'' (step_start ?env ?st0)"
  have q1: "?quiet ?st1" using step [OF q0] by (simp add: on_text_delta_def Let_def client_gone_send env)
  let ?st2 = "fst (handle_event ?env (MessageStart ''m'') (step_start ?env ?st1))"
  have q2: "?quiet ?st2 \<and> cv_pending_text_end ?st2 = None" using step [OF q1] by (simp add: client_gone_send env)
  obtain st where st: "converter_loop ?env [(0, Some (TextDelta ''a'')), (1, Some (MessageStart ''m'')), (2, None)] ?st0 = Some st"
      "cv_pending_text_end st = None"
    using q0 q1 q2 by (simp add: quiet_loop env(1) it del: converter_loop.simps)
  from text_blocks_bracketed [OF st(1)] st show ?thesis by (intro exI [of _ st]) simp
qed

lemma demo_register:
  "register_with_token (ce_registry (demo_converter_env c)) 1 (ce_agent_name (demo_converter_env c)) (ce_token (demo_converter_env c)) empty_registry
     = (fst (register_with_token (ce_registry (demo_converter_env c)) 1 ''A'' 5 empty_registry), Some 0)"
  by (simp add: demo_converter_env_def demo_registry_env_def empty_registry_def register_with_token_def register_create_def
      register_insert_def MAX_ACTIVE_STREAMS_def jobs_call_def Let_def supersede_def)

lemma demo_env_simps [simp]:
  "ce_parse_uuid (demo_converter_env c) = (\<lambda>s. Some (size s))" "ge_uuid_str (ce_registry (demo_converter_env c)) = (\<lambda>u. replicate u CHR ''s'')"
  "ce_fresh_id (demo_converter_env c) = (\<lambda>n. n + 10)" "ce_fails (demo_converter_env c) = (\<lambda>_. False)"
  "ge_fails (ce_registry (demo_converter_env c)) = (\<lambda>_. False)" "message_ids demo_sse_db = []" "session_ids demo_sse_db = [1]"
  by (simp_all add: demo_converter_env_def demo_registry_env_def demo_sse_db_def insert_session_def message_ids_def session_ids_def)

lemma registry_sees_every_frame_witness:
  "\<exists>st. converter_loop (demo_converter_env (\<lambda>_. False)) [(0, Some (SessionId ''s'')), (1, Some (Reconnecting 1 2)), (2, None)]
          (converter_new (demo_converter_env (\<lambda>_. False)) empty_registry demo_sse_db) = Some st
     \<and> (\<exists>s. map_of (rg_streams (cv_registry st)) ''s'' = Some s
           \<and> map snd (st_sent s) = map (ce_ser (demo_converter_env (\<lambda>_. False))) (cv_frames st))"
proof -
  let ?env = "demo_converter_env (\<lambda>_. False)"
  let ?arr = "[(1, Some (Reconnecting 1 2)), (2, None)]"
  have "map_option cv_finished_sent (converter_loop ?env ((0, Some (SessionId ''s'')) # ?arr) (converter_new ?env empty_registry demo_sse_db))
      = Some False" by code_simp
  then obtain st where st: "converter_loop ?env ((0, Some (SessionId ''s'')) # ?arr) (converter_new ?env empty_registry demo_sse_db) = Some st"
    by (auto simp del: converter_loop.simps)
  from registry_sees_every_frame [OF st, of 1] st show ?thesis by (simp add: demo_register [simplified] no_session_id_def del: converter_loop.simps)
qed

lemma finish_stores_streamed_text_witness:
  "job_texts 0 (cv_registry (finish_step (demo_converter_env (\<lambda>_. False)) ''stop'' False
      (run_to_finish (demo_converter_env (\<lambda>_. False)) ''s'' [TextDelta ''a'', ToolCallStart ''i'' ''t'', TextDelta ''b''] empty_registry demo_sse_db)))
     = {''ab''}"
  using finish_stores_streamed_text [OF _ _ _ _ demo_register, of "\<lambda>_. False" "''s''" demo_sse_db "[TextDelta ''a'', ToolCallStart ''i'' ''t'', TextDelta ''b'']"]
  by (simp add: running_event_def streamed_text_def event_text_def inj_def)

lemma exit_clears_finished_job_witness:
  "job_texts 0 (cv_registry (converter_exit (demo_converter_env (\<lambda>_. False)) (finish_step (demo_converter_env (\<lambda>_. False)) ''stop'' False
      (run_to_finish (demo_converter_env (\<lambda>_. False)) ''s'' [TextDelta ''a''] empty_registry demo_sse_db))))
     = {[]}"
  using exit_clears_finished_job [OF _ _ _ _ demo_register, of "\<lambda>_. False" "''s''" demo_sse_db "[TextDelta ''a'']"]
  by (simp add: running_event_def inj_def)

lemma silent_engine_aborted_iff_cancel_seen_witness:
  "let st = (converter_new (demo_converter_env (\<lambda>n. 9 < n)) empty_registry demo_sse_db)
         \<lparr>cv_cancel_token := Some 5, cv_session_uuid := Some 1,
          cv_db := demo_sse_db\<lparr>sessions := map (\<lambda>s. s\<lparr>s_run_status := Some ''running''\<rparr>) (sessions demo_sse_db)\<rparr>\<rparr>
   in converter_loop (demo_converter_env (\<lambda>n. 9 < n)) [] st = None
     \<and> (\<exists>st'. converter_loop (demo_converter_env (\<lambda>n. 9 < n)) [] (st\<lparr>cv_calls := 10\<rparr>) = Some st' \<and> cv_engine_aborted st'
           \<and> map s_run_status (sessions (cv_db st')) = [Some ''interrupted''])"
proof -
  let ?env = "demo_converter_env (\<lambda>n. 9 < n)"
  let ?st = "(converter_new ?env empty_registry demo_sse_db)\<lparr>cv_cancel_token := Some 5, cv_session_uuid := Some 1,
    cv_db := demo_sse_db\<lparr>sessions := map (\<lambda>s. s\<lparr>s_run_status := Some ''running''\<rparr>) (sessions demo_sse_db)\<rparr>\<rparr>"
  have f: "cv_cancel_deadline ?st = None" "\<not> cv_logged_cancel ?st" "cv_calls ?st = 2" "ce_cancelled ?env = (\<lambda>n. 9 < n)"
    by (simp_all add: converter_new_def demo_converter_env_def)
  have "map s_run_status (map (\<lambda>s. if s_id s = 1 \<and> s_run_status s = Some ''running'' then s\<lparr>s_run_status := Some ''interrupted''\<rparr> else s)
      (sessions (cv_db ?st))) = [Some ''interrupted'']"
    by (simp add: demo_sse_db_def insert_session_def)
  with silent_engine_aborted_iff_cancel_seen [of ?st 5 1 ?env] silent_engine_aborted_iff_cancel_seen [of "?st\<lparr>cv_calls := 10\<rparr>" 5 1 ?env] f
  show ?thesis by (auto simp: Let_def simp del: converter_loop.simps)
qed

end
