(* ===== verification/Cli_Backend.thy ===== *)
theory Cli_Backend
  imports Llm_Errors Text_Codec
begin

text \<open>
  \<open>agent/cli_backend.rs\<close> and \<open>agent/providers_claude_cli.rs\<close>: LLM providers that are command
  line programs. Presets and their overrides from the database, the circuit breaker, the argument
  vector, the run on the host or in the sandbox, the parsing of the output, the sessions kept for
  the next run.

  The child process, the sandbox container, the clock, the file system and the JSON parser are
  the environment. A child process is described by what its pipes and its exit deliver and when;
  the code's two timeouts are applied to it here. Runs are taken one after the other, as the
  semaphore of a serializing configuration does.
\<close>

section \<open>Configuration\<close>

datatype cli_output_format = OutJson | OutText | OutJsonl
datatype cli_input_mode = InArg | InStdin
datatype cli_session_mode = SessAlways | SessExisting | SessNone
datatype system_prompt_when = PromptFirst | PromptAlways | PromptNever

record cli_config =
  cc_command :: bytes
  cc_args :: "bytes list"
  cc_resume_args :: "bytes list"
  cc_output :: cli_output_format
  cc_input :: cli_input_mode
  cc_model_arg :: "bytes option"
  cc_model_aliases :: "(bytes \<times> bytes) list"
  cc_session_arg :: "bytes option"
  cc_session_mode :: cli_session_mode
  cc_system_prompt_arg :: "bytes option"
  cc_prompt_arg :: "bytes option"
  cc_timeout_secs :: nat
  cc_serialize :: bool
  cc_env :: "(bytes \<times> bytes) list"
  cc_env_key :: "bytes option"
  cc_clear_env :: "bytes list"
  cc_system_prompt_when :: system_prompt_when
  cc_max_prompt_arg_chars :: nat
  cc_no_output_timeout_secs :: nat

record cli_preset =
  cp_id :: bytes
  cp_command :: bytes
  cp_args :: "bytes list"
  cp_resume_args :: "bytes list"
  cp_output :: cli_output_format
  cp_prompt_arg :: "bytes option"
  cp_model_arg :: "bytes option"
  cp_system_prompt_arg :: "bytes option"
  cp_session_mode :: cli_session_mode
  cp_session_arg :: "bytes option"
  cp_env_key :: bytes
  cp_system_prompt_when :: system_prompt_when
  cp_clear_env :: "bytes list"
  cp_max_prompt_arg_chars :: nat
  cp_no_output_timeout_secs :: nat

definition GEMINI_CLI :: cli_preset where
  "GEMINI_CLI =
     \<lparr>cp_id = ''gemini-cli'', cp_command = ''gemini'', cp_args = [''--output-format'', ''json''],
      cp_resume_args = [], cp_output = OutJson, cp_prompt_arg = Some ''-p'',
      cp_model_arg = Some ''--model'', cp_system_prompt_arg = None, cp_session_mode = SessNone,
      cp_session_arg = None, cp_env_key = ''GEMINI_API_KEY'', cp_system_prompt_when = PromptFirst,
      cp_clear_env = [], cp_max_prompt_arg_chars = 100000, cp_no_output_timeout_secs = 60\<rparr>"

definition CLAUDE_CLI :: cli_preset where
  "CLAUDE_CLI =
     \<lparr>cp_id = ''claude-cli'', cp_command = ''claude'',
      cp_args = [''-p'', ''--output-format'', ''json'', ''--permission-mode'', ''bypassPermissions''],
      cp_resume_args = [''-p'', ''--output-format'', ''json'', ''--permission-mode'',
        ''bypassPermissions'', ''--resume'', ''{session_id}''],
      cp_output = OutJson, cp_prompt_arg = None, cp_model_arg = Some ''--model'',
      cp_system_prompt_arg = Some ''--append-system-prompt'', cp_session_mode = SessAlways,
      cp_session_arg = Some ''--session-id'', cp_env_key = ''ANTHROPIC_API_KEY'',
      cp_system_prompt_when = PromptFirst, cp_clear_env = [''CLAUDE_CODE_OAUTH_TOKEN''],
      cp_max_prompt_arg_chars = 100000, cp_no_output_timeout_secs = 60\<rparr>"

definition CODEX_CLI :: cli_preset where
  "CODEX_CLI =
     \<lparr>cp_id = ''codex-cli'', cp_command = ''codex'', cp_args = [''--output-format'', ''json''],
      cp_resume_args = [], cp_output = OutJson, cp_prompt_arg = None,
      cp_model_arg = Some ''--model'', cp_system_prompt_arg = None, cp_session_mode = SessNone,
      cp_session_arg = None, cp_env_key = ''OPENAI_API_KEY'', cp_system_prompt_when = PromptFirst,
      cp_clear_env = [], cp_max_prompt_arg_chars = 100000, cp_no_output_timeout_secs = 60\<rparr>"

definition CLI_PRESETS :: "cli_preset list" where
  "CLI_PRESETS = [GEMINI_CLI, CLAUDE_CLI, CODEX_CLI]"

definition find_preset :: "bytes \<Rightarrow> cli_preset option" where
  "find_preset i = find (\<lambda>p. cp_id p = i) CLI_PRESETS"

definition preset_to_config :: "cli_preset \<Rightarrow> cli_config" where
  "preset_to_config p =
     \<lparr>cc_command = cp_command p, cc_args = cp_args p, cc_resume_args = cp_resume_args p,
      cc_output = cp_output p, cc_input = InArg, cc_model_arg = cp_model_arg p,
      cc_model_aliases = [], cc_session_arg = cp_session_arg p,
      cc_session_mode = cp_session_mode p, cc_system_prompt_arg = cp_system_prompt_arg p,
      cc_prompt_arg = cp_prompt_arg p, cc_timeout_secs = 300, cc_serialize = True, cc_env = [],
      cc_env_key = Some (cp_env_key p), cc_clear_env = cp_clear_env p,
      cc_system_prompt_when = cp_system_prompt_when p,
      cc_max_prompt_arg_chars = cp_max_prompt_arg_chars p,
      cc_no_output_timeout_secs = cp_no_output_timeout_secs p\<rparr>"

text \<open>The overrides of \<open>merge_db_overrides\<close>, one per key. A value of the wrong type is ignored,
  except for the four argument names, which it clears.\<close>

definition override :: "json_object \<Rightarrow> bytes \<Rightarrow> (json \<Rightarrow> 'a option) \<Rightarrow> ('a \<Rightarrow> 'c \<Rightarrow> 'c) \<Rightarrow> 'c \<Rightarrow> 'c" where
  "override obj k as set_field c =
     (case Option.bind (map_of obj k) as of None \<Rightarrow> c | Some v \<Rightarrow> set_field v c)"

definition json_strings :: "json \<Rightarrow> bytes list option" where
  "json_strings v = map_option (List.map_filter json_as_str) (json_as_array v)"

definition system_prompt_when_from_value :: "json \<Rightarrow> system_prompt_when option" where
  "system_prompt_when_from_value v =
     (if v = JString ''first'' then Some PromptFirst
      else if v = JString ''always'' then Some PromptAlways
      else if v = JString ''never'' then Some PromptNever
      else None)"

definition json_as_object :: "json \<Rightarrow> json_object option" where
  "json_as_object v = (case v of JObject kvs \<Rightarrow> Some kvs | _ \<Rightarrow> None)"

definition insert_env :: "json_object \<Rightarrow> (bytes \<times> bytes) list \<Rightarrow> (bytes \<times> bytes) list" where
  "insert_env vs env =
     fold (\<lambda>(k, v). case json_as_str v of None \<Rightarrow> id | Some s \<Rightarrow> al_insert k s) vs env"

definition merge_db_overrides :: "cli_config \<Rightarrow> json \<Rightarrow> cli_config" where
  "merge_db_overrides config options = (case json_as_object options of
       None \<Rightarrow> config
     | Some obj \<Rightarrow>
         (override obj ''env'' json_as_object (\<lambda>v. cc_env_update (insert_env v))
          (override obj ''no_output_timeout_secs'' json_as_u64 (\<lambda>v. cc_no_output_timeout_secs_update (\<lambda>_. v))
          (override obj ''max_prompt_arg_chars'' json_as_u64 (\<lambda>v. cc_max_prompt_arg_chars_update (\<lambda>_. v))
          (override obj ''system_prompt_when'' system_prompt_when_from_value
            (\<lambda>v. cc_system_prompt_when_update (\<lambda>_. v))
          (override obj ''clear_env'' json_strings (\<lambda>v. cc_clear_env_update (\<lambda>_. v))
          (override obj ''timeout_secs'' json_as_u64 (\<lambda>v. cc_timeout_secs_update (\<lambda>_. v))
          (override obj ''env_key'' json_as_str (\<lambda>v. cc_env_key_update (\<lambda>_. Some v))
          (override obj ''session_arg'' (\<lambda>v. Some (json_as_str v)) (\<lambda>v. cc_session_arg_update (\<lambda>_. v))
          (override obj ''system_prompt_arg'' (\<lambda>v. Some (json_as_str v))
            (\<lambda>v. cc_system_prompt_arg_update (\<lambda>_. v))
          (override obj ''model_arg'' (\<lambda>v. Some (json_as_str v)) (\<lambda>v. cc_model_arg_update (\<lambda>_. v))
          (override obj ''prompt_arg'' (\<lambda>v. Some (json_as_str v)) (\<lambda>v. cc_prompt_arg_update (\<lambda>_. v))
          (override obj ''resume_args'' json_strings (\<lambda>v. cc_resume_args_update (\<lambda>_. v))
          (override obj ''args'' json_strings (\<lambda>v. cc_args_update (\<lambda>_. v))
          (override obj ''command'' json_as_str (\<lambda>v. cc_command_update (\<lambda>_. v))
           config)))))))))))))))"

definition resolve_cli_config :: "bytes \<Rightarrow> json \<Rightarrow> cli_config option" where
  "resolve_cli_config preset_id db_options =
     map_option (\<lambda>p. merge_db_overrides (preset_to_config p) db_options) (find_preset preset_id)"

section \<open>Circuit breaker\<close>

datatype cli_error_reason =
    CliRateLimit | CliAuth | CliBilling | CliOverloaded | CliTimeout | CliUnknown

definition cooldown_ms :: "cli_error_reason \<Rightarrow> nat \<Rightarrow> nat" where
  "cooldown_ms r error_count =
     (let n = min error_count 4
      in case r of
           CliRateLimit \<Rightarrow> min (60000 * 5 ^ (n - 1)) 3600000
         | CliOverloaded \<Rightarrow> min (60000 * 5 ^ (n - 1)) 3600000
         | CliAuth \<Rightarrow> min (5 * 3600000 * 2 ^ (n - 1)) (24 * 3600000)
         | CliBilling \<Rightarrow> min (5 * 3600000 * 2 ^ (n - 1)) (24 * 3600000)
         | CliTimeout \<Rightarrow> min (30000 * 5 ^ min (n - 1) 3) (30 * 60000)
         | CliUnknown \<Rightarrow> min (30000 * 5 ^ min (n - 1) 3) (30 * 60000))"

definition classify_cli_error :: "regex_engine \<Rightarrow> bytes \<Rightarrow> bytes \<Rightarrow> cli_error_reason" where
  "classify_cli_error is_match stderr stdout =
     (case classify_str is_match (stderr @ '' '' @ stdout) of
        RateLimit \<Rightarrow> CliRateLimit
      | AuthPermanent \<Rightarrow> CliAuth
      | Billing \<Rightarrow> CliBilling
      | Overloaded \<Rightarrow> CliOverloaded
      | TransientHttp \<Rightarrow> CliOverloaded
      | _ \<Rightarrow> CliUnknown)"

record cooldown_state =
  cs_error_count :: "32 word"
  cs_cooldown_until :: "instant option"
  cs_last_reason :: "cli_error_reason option"

definition cooldown_new :: cooldown_state where
  "cooldown_new = \<lparr>cs_error_count = 0, cs_cooldown_until = None, cs_last_reason = None\<rparr>"

definition is_in_cooldown :: "instant \<Rightarrow> cooldown_state \<Rightarrow> cooldown_state \<times> duration option" where
  "is_in_cooldown now s = (case cs_cooldown_until s of
       None \<Rightarrow> (s, None)
     | Some t \<Rightarrow> if now < t then (s, Some (t - now)) else (cooldown_new, None))"

text \<open>\<open>now1\<close> and \<open>now2\<close>: the two readings of the clock.\<close>

definition cooldown_record_failure ::
  "cli_error_reason \<Rightarrow> instant \<Rightarrow> instant \<Rightarrow> cooldown_state \<Rightarrow> cooldown_state" where
  "cooldown_record_failure reason now1 now2 s =
     (if (case cs_cooldown_until s of None \<Rightarrow> False | Some t \<Rightarrow> now1 < t) then s
      else let n = cs_error_count s + 1
           in \<lparr>cs_error_count = n,
               cs_cooldown_until = Some (now2 + from_millis (cooldown_ms reason (unat n))),
               cs_last_reason = Some reason\<rparr>)"

definition cooldown_record_success :: "cooldown_state \<Rightarrow> cooldown_state" where
  "cooldown_record_success s = cooldown_new"

lemmas cooldown_defs =
  is_in_cooldown_def cooldown_record_failure_def cooldown_record_success_def cooldown_new_def

section \<open>Argument vector and shell command\<close>

definition build_argv ::
  "cli_config \<Rightarrow> bytes \<Rightarrow> bytes \<Rightarrow> bytes option \<Rightarrow> bytes option \<Rightarrow> bool \<Rightarrow> bytes list \<times> bool" where
  "build_argv config model prompt system_prompt session_id use_resume =
     (let sid = unwrap_or session_id [];
          args =
            (if use_resume then map (str_replace ''{session_id}'' sid) (cc_resume_args config)
             else cc_args config
                  @ (case cc_model_arg config of
                       None \<Rightarrow> []
                     | Some a \<Rightarrow> if model = [] then [] else [a, model])
                  @ (if (case cc_system_prompt_when config of
                           PromptNever \<Rightarrow> False
                         | PromptFirst \<Rightarrow> session_id = None
                         | PromptAlways \<Rightarrow> True)
                     then (case (cc_system_prompt_arg config, system_prompt) of
                             (Some a, Some sp) \<Rightarrow> if sp = [] then [] else [a, sp]
                           | _ \<Rightarrow> [])
                     else [])
                  @ (if cc_session_mode config = SessNone then []
                     else (case cc_session_arg config of
                             None \<Rightarrow> []
                           | Some a \<Rightarrow> if sid = [] then [] else [a, sid])));
          base = cc_command config # args
      in if cc_input config = InArg \<and> length prompt \<le> cc_max_prompt_arg_chars config
         then (base @ (case cc_prompt_arg config of None \<Rightarrow> [] | Some a \<Rightarrow> [a]) @ [prompt], False)
         else (base, True))"

abbreviation quote_char :: char where
  "quote_char \<equiv> CHR 0x27"

abbreviation backslash :: char where
  "backslash \<equiv> CHR 0x5C"

definition shell_escape :: "bytes \<Rightarrow> bytes" where
  "shell_escape s =
     [quote_char] @ replace_char quote_char [quote_char, backslash, quote_char, quote_char] s @ [quote_char]"

definition shell_command :: "bytes list \<Rightarrow> bytes option \<Rightarrow> bytes" where
  "shell_command argv stdin_input =
     (let base_cmd = join '' '' (map shell_escape argv)
      in case stdin_input of
           None \<Rightarrow> base_cmd
         | Some input \<Rightarrow> ''echo '' @ shell_escape input @ '' | '' @ base_cmd)"

section \<open>Running on the host\<close>

record exec_result =
  er_stdout :: bytes
  er_stderr :: bytes
  er_exit_code :: int

record host_request =
  hr_argv :: "bytes list"
  hr_env :: "bytes \<rightharpoonup> bytes"
  hr_cwd :: bytes
  hr_stdin :: "bytes option"

text \<open>What a child process does: its spawning may fail, its standard input may refuse the text,
  each read from its standard output takes some time and yields an error, the end (the empty text)
  or some bytes. When the list is used up it stays silent. \<open>ch_wait\<close>: how long after the end of
  its output it exits, with its exit code unless a signal ended it; \<open>ch_stderr\<close>: its error output.\<close>

record child =
  ch_spawn_error :: "bytes option"
  ch_stdin_error :: "bytes option"
  ch_reads :: "(duration \<times> (bytes, bytes) result) list"
  ch_wait :: "duration \<times> (bytes, int option) result"
  ch_stderr :: bytes

datatype child_state = NotSpawned | Exited | Killed | LeftRunning

datatype read_end = ReadAll bytes duration | ReadFailed bytes | NoOutput | OverallTimeout

text \<open>The read loop under the two timeouts. \<open>elapsed\<close>: the time since the loop began. A read
  that is ready when its timer fires still counts, and an inner timer that fires together with the
  outer one wins, because the outer one is polled after the future it guards.\<close>

fun read_loop ::
  "duration \<Rightarrow> duration \<Rightarrow> duration \<Rightarrow> bytes \<Rightarrow> (duration \<times> (bytes, bytes) result) list \<Rightarrow> read_end" where
  "read_loop overall no_output elapsed buf [] =
     (if overall < elapsed + no_output then OverallTimeout else NoOutput)"
| "read_loop overall no_output elapsed buf ((d, r) # rs) =
     (if no_output < d then (if overall < elapsed + no_output then OverallTimeout else NoOutput)
      else if overall < elapsed + d then OverallTimeout
      else case r of
             Inl e \<Rightarrow> ReadFailed e
           | Inr [] \<Rightarrow> ReadAll buf (elapsed + d)
           | Inr bs \<Rightarrow> read_loop overall no_output (elapsed + d) (buf @ bs) rs)"

text \<open>The kinds of failure, each the text of an \<open>anyhow\<close> error. A child that is dropped while it
  runs is not killed: tokio does that only for a command with \<open>kill_on_drop\<close>.\<close>

definition execute_on_host ::
  "(host_request \<Rightarrow> child) \<Rightarrow> host_request \<Rightarrow> nat \<Rightarrow> nat \<Rightarrow> (bytes, exec_result) result \<times> child_state" where
  "execute_on_host spawn_child req timeout_secs no_output_secs =
     (let c = spawn_child req;
          overall = from_secs timeout_secs
      in case ch_spawn_error c of
           Some e \<Rightarrow> (Inl (''failed to spawn CLI '' @ [quote_char] @ hd (hr_argv req) @ [quote_char] @ '': '' @ e), NotSpawned)
         | None \<Rightarrow>
             (case (if hr_stdin req = None then None else ch_stdin_error c) of
                Some e \<Rightarrow> (Inl (''failed to write to CLI stdin: '' @ e), LeftRunning)
              | None \<Rightarrow>
                  (case read_loop overall (from_secs no_output_secs) 0 [] (ch_reads c) of
                     ReadFailed e \<Rightarrow> (Inl (''stdout read error: '' @ e), LeftRunning)
                   | NoOutput \<Rightarrow>
                       (Inl (''CLI killed: no stdout output for '' @ show_nat no_output_secs @ ''s''), Killed)
                   | OverallTimeout \<Rightarrow>
                       (Inl (''CLI timed out after '' @ show_nat timeout_secs @ ''s''), LeftRunning)
                   | ReadAll buf t \<Rightarrow>
                       if overall < t + fst (ch_wait c)
                       then (Inl (''CLI timed out after '' @ show_nat timeout_secs @ ''s''), LeftRunning)
                       else (case snd (ch_wait c) of
                               Inl e \<Rightarrow> (Inl (''CLI process error: '' @ e), Exited)
                             | Inr code \<Rightarrow>
                                 (Inr \<lparr>er_stdout = from_utf8_lossy buf,
                                       er_stderr = from_utf8_lossy (ch_stderr c),
                                       er_exit_code = unwrap_or code (-1)\<rparr>, Exited)))))"

text \<open>The environment of the child: the variables of the parent, overlaid with the configured
  ones, without those of \<open>clear_env\<close>.\<close>

definition child_environment ::
  "(bytes \<rightharpoonup> bytes) \<Rightarrow> (bytes \<times> bytes) list \<Rightarrow> bytes list \<Rightarrow> (bytes \<rightharpoonup> bytes)" where
  "child_environment parent env clear_env =
     (\<lambda>k. if k \<in> set clear_env then None
           else case map_of env k of Some v \<Rightarrow> Some v | None \<Rightarrow> parent k)"

section \<open>Output\<close>

record cli_output =
  co_text :: bytes
  co_session_id :: "bytes option"
  co_usage :: "token_usage option"

datatype json_out_field = FText | FSession | FCost | FIn | FOut | FUsage

definition json_out_field_of :: "bytes \<Rightarrow> json_out_field option" where
  "json_out_field_of k =
     (if k \<in> set [''text'', ''result'', ''response'', ''content''] then Some FText
      else if k \<in> set [''session_id'', ''sessionId'', ''conversation_id''] then Some FSession
      else if k = ''cost_usd'' then Some FCost
      else if k = ''input_tokens'' then Some FIn
      else if k = ''output_tokens'' then Some FOut
      else if k = ''usage'' then Some FUsage
      else None)"

text \<open>The derived deserializer of \<open>JsonOut\<close>: a field given twice, under whatever alias, is an error,
  a missing one is \<open>null\<close>, an array gives the fields in order, of which the first two are required.\<close>

definition json_out_value :: "json \<Rightarrow> json_out_field \<Rightarrow> json option" where
  "json_out_value v f = (case v of
       JObject kvs \<Rightarrow>
         (case filter (\<lambda>(k, _). json_out_field_of k = Some f) kvs of
            [] \<Rightarrow> Some JNull
          | [(_, x)] \<Rightarrow> Some x
          | _ \<Rightarrow> None)
     | JArray xs \<Rightarrow>
         if length xs < 2 \<or> 6 < length xs then None
         else let i = (case f of FText \<Rightarrow> 0 | FSession \<Rightarrow> 1 | FCost \<Rightarrow> 2 | FIn \<Rightarrow> 3 | FOut \<Rightarrow> 4 | FUsage \<Rightarrow> 5)
              in Some (if i < length xs then xs ! i else JNull)
     | _ \<Rightarrow> None)"

definition opt_string :: "json \<Rightarrow> bytes option option" where
  "opt_string v = (case v of JNull \<Rightarrow> Some None | JString s \<Rightarrow> Some (Some s) | _ \<Rightarrow> None)"

definition opt_u32 :: "json \<Rightarrow> 32 word option option" where
  "opt_u32 v = (case v of
       JNull \<Rightarrow> Some None
     | JInt i \<Rightarrow> if 0 \<le> i \<and> i < 2 ^ 32 then Some (Some (word_of_int i)) else None
     | _ \<Rightarrow> None)"

definition is_opt_number :: "json \<Rightarrow> bool" where
  "is_opt_number v = (case v of JNull \<Rightarrow> True | JInt _ \<Rightarrow> True | JFloat _ \<Rightarrow> True | _ \<Rightarrow> False)"

definition nested_usage :: "json \<Rightarrow> token_usage option" where
  "nested_usage u =
     (let inp = (of_nat (unwrap_or (Option.bind (json_get u ''input_tokens'') json_as_u64) 0) :: 32 word);
          out = (of_nat (unwrap_or (Option.bind (json_get u ''output_tokens'') json_as_u64) 0) :: 32 word)
      in if 0 < inp \<or> 0 < out then Some \<lparr>input_tokens = inp, output_tokens = out\<rparr> else None)"

definition json_out :: "json \<Rightarrow> cli_output option" where
  "json_out v =
     Option.bind (Option.bind (json_out_value v FText) opt_string) (\<lambda>t.
     Option.bind (Option.bind (json_out_value v FSession) opt_string) (\<lambda>sid.
     Option.bind (json_out_value v FCost) (\<lambda>cost.
     Option.bind (Option.bind (json_out_value v FIn) opt_u32) (\<lambda>inp.
     Option.bind (Option.bind (json_out_value v FOut) opt_u32) (\<lambda>out.
     Option.bind (json_out_value v FUsage) (\<lambda>u.
       if \<not> is_opt_number cost then None
       else Some
         \<lparr>co_text = unwrap_or t [],
          co_session_id = sid,
          co_usage = (case (inp, out) of
              (Some i, Some o') \<Rightarrow> Some \<lparr>input_tokens = i, output_tokens = o'\<rparr>
            | _ \<Rightarrow> nested_usage u)\<rparr>))))))"

definition parse_cli_json :: "(bytes \<Rightarrow> json option) \<Rightarrow> bytes \<Rightarrow> cli_output" where
  "parse_cli_json parse raw = (case Option.bind (parse (trim raw)) json_out of
       Some out \<Rightarrow> out
     | None \<Rightarrow> \<lparr>co_text = trim raw, co_session_id = None, co_usage = None\<rparr>)"

definition or_else :: "'a option \<Rightarrow> 'a option \<Rightarrow> 'a option" where
  "or_else a b = (case a of None \<Rightarrow> b | Some _ \<Rightarrow> a)"

record jsonl_state =
  js_texts :: "bytes list"
  js_session_id :: "bytes option"
  js_usage :: "token_usage option"

definition jsonl_value :: "jsonl_state \<Rightarrow> json \<Rightarrow> jsonl_state" where
  "jsonl_value st v =
     \<lparr>js_texts = js_texts st
        @ (case Option.bind (or_else (json_get v ''text'') (json_get v ''result'')) json_as_str of
             None \<Rightarrow> [] | Some t \<Rightarrow> [t])
        @ (case Option.bind (Option.bind (json_get v ''item'') (\<lambda>i. json_get i ''text'')) json_as_str of
             None \<Rightarrow> [] | Some t \<Rightarrow> [t]),
      js_session_id = (if js_session_id st = None
        then Option.bind (or_else (json_get v ''session_id'') (json_get v ''thread_id'')) json_as_str
        else js_session_id st),
      js_usage = (case Option.bind (json_get v ''usage'') nested_usage of
          None \<Rightarrow> js_usage st | Some u \<Rightarrow> Some u)\<rparr>"

definition parse_cli_jsonl :: "(bytes \<Rightarrow> json option) \<Rightarrow> bytes \<Rightarrow> cli_output" where
  "parse_cli_jsonl parse raw =
     (let st = foldl jsonl_value \<lparr>js_texts = [], js_session_id = None, js_usage = None\<rparr>
                 (List.map_filter parse (filter (\<lambda>l. l \<noteq> []) (map trim (lines raw))))
      in \<lparr>co_text = join [newline] (js_texts st), co_session_id = js_session_id st,
          co_usage = js_usage st\<rparr>)"

section \<open>Runner\<close>

record cli_runner =
  cr_config :: cli_config
  cr_sessions :: "(bytes \<times> bytes) list"
  cr_session_hashes :: "(bytes \<times> nat) list"
  cr_cooldown :: cooldown_state

definition runner_new :: "cli_config \<Rightarrow> cli_runner" where
  "runner_new config =
     \<lparr>cr_config = config, cr_sessions = [], cr_session_hashes = [], cr_cooldown = cooldown_new\<rparr>"

definition check_and_invalidate_session :: "cli_runner \<Rightarrow> bytes \<Rightarrow> nat \<Rightarrow> cli_runner \<times> bool" where
  "check_and_invalidate_session self agent_name context_hash =
     (let self1 = self\<lparr>cr_session_hashes := al_insert agent_name context_hash (cr_session_hashes self)\<rparr>
      in case map_of (cr_session_hashes self) agent_name of
           None \<Rightarrow> (self1, False)
         | Some prev \<Rightarrow>
             if prev \<noteq> context_hash
             then (self1\<lparr>cr_sessions := al_remove agent_name (cr_sessions self1)\<rparr>, True)
             else (self1, False))"

text \<open>The environment of a run: the readings of the clock (at the gate and the two of a recorded
  failure), the variables of the parent process, the child processes, the sandbox if there is one,
  the canonical form of a path, the JSON parser, Unicode lower case and the regular expressions.\<close>

record cli_env =
  ce_gate_now :: instant
  ce_fail_now :: instant
  ce_until_now :: instant
  ce_parent_env :: "bytes \<rightharpoonup> bytes"
  ce_child :: "host_request \<Rightarrow> child"
  ce_sandbox :: "(bytes \<Rightarrow> bytes \<Rightarrow> bytes \<Rightarrow> (bytes, exec_result) result) option"
  ce_canonicalize :: "bytes \<Rightarrow> bytes"
  ce_parse :: "bytes \<Rightarrow> json option"
  ce_lower :: "bytes \<Rightarrow> bytes"
  ce_is_match :: regex_engine

datatype cli_error =
    InCooldown duration "cli_error_reason option" nat
  | NoHostNoSandbox
  | ExecError bytes
  | ExitStatus int cli_error_reason bytes

record run_request =
  rr_agent_name :: bytes
  rr_prompt :: bytes
  rr_system_prompt :: "bytes option"
  rr_model :: bytes
  rr_workspace_dir :: bytes
  rr_base :: bool
  rr_extra_env :: "(bytes \<times> bytes) list"

text \<open>What a run asks for: a process on the host, or a command in the sandbox.\<close>

datatype execution = OnHost host_request | InSandbox bytes | NoExecution

definition resolve_model :: "cli_config \<Rightarrow> bytes \<Rightarrow> bytes" where
  "resolve_model config model = unwrap_or (map_of (cc_model_aliases config) model) model"

definition merged_env :: "cli_config \<Rightarrow> (bytes \<times> bytes) list \<Rightarrow> (bytes \<times> bytes) list" where
  "merged_env config extra_env = fold (\<lambda>(k, v). al_insert k v) extra_env (cc_env config)"

definition plan_execution :: "cli_env \<Rightarrow> cli_runner \<Rightarrow> run_request \<Rightarrow> execution" where
  "plan_execution env self q =
     (let config = cr_config self;
          existing_session = map_of (cr_sessions self) (rr_agent_name q);
          use_resume = (existing_session \<noteq> None \<and> cc_resume_args config \<noteq> []);
          (argv, use_stdin) = build_argv config (resolve_model config (rr_model q)) (rr_prompt q)
            (rr_system_prompt q) existing_session use_resume;
          stdin_input = (if use_stdin then Some (rr_prompt q) else None)
      in if rr_base q
         then OnHost \<lparr>hr_argv = argv,
                hr_env = child_environment (ce_parent_env env) (merged_env config (rr_extra_env q))
                  (cc_clear_env config),
                hr_cwd = rr_workspace_dir q, hr_stdin = stdin_input\<rparr>
         else if ce_sandbox env \<noteq> None then InSandbox (shell_command argv stdin_input)
         else NoExecution)"

definition perform ::
  "cli_env \<Rightarrow> cli_config \<Rightarrow> run_request \<Rightarrow> execution \<Rightarrow> (bytes, exec_result) result option \<times> child_state" where
  "perform env config q x = (case x of
       OnHost req \<Rightarrow>
         (let (r, st) = execute_on_host (ce_child env) req (cc_timeout_secs config) (cc_no_output_timeout_secs config)
          in (Some r, st))
     | InSandbox cmd \<Rightarrow>
         (map_option (\<lambda>sb. sb (rr_agent_name q) cmd (ce_canonicalize env (rr_workspace_dir q)))
            (ce_sandbox env), NotSpawned)
     | NoExecution \<Rightarrow> (None, NotSpawned))"

definition exec_error_reason :: "(bytes \<Rightarrow> bytes) \<Rightarrow> bytes \<Rightarrow> cli_error_reason" where
  "exec_error_reason lower e =
     (let msg = lower e
      in if contains msg ''timed out'' \<or> contains msg ''timeout'' then CliTimeout else CliUnknown)"

definition parse_output :: "cli_env \<Rightarrow> cli_config \<Rightarrow> bytes \<Rightarrow> cli_output" where
  "parse_output env config stdout = (case cc_output config of
       OutJson \<Rightarrow> parse_cli_json (ce_parse env) stdout
     | OutJsonl \<Rightarrow> parse_cli_jsonl (ce_parse env) stdout
     | OutText \<Rightarrow> \<lparr>co_text = trim stdout, co_session_id = None, co_usage = None\<rparr>)"

definition record_run_failure :: "cli_env \<Rightarrow> cli_error_reason \<Rightarrow> cli_runner \<Rightarrow> cli_runner" where
  "record_run_failure env reason self =
     self\<lparr>cr_cooldown := cooldown_record_failure reason (ce_fail_now env) (ce_until_now env) (cr_cooldown self)\<rparr>"

definition finish_run ::
  "cli_env \<Rightarrow> run_request \<Rightarrow> cli_runner \<Rightarrow> (bytes, exec_result) result \<Rightarrow> cli_runner \<times> (cli_error, cli_output) result" where
  "finish_run env q self res = (case res of
       Inl e \<Rightarrow> (record_run_failure env (exec_error_reason (ce_lower env) e) self, Inl (ExecError e))
     | Inr r \<Rightarrow>
         if er_exit_code r \<noteq> 0
         then (let reason = classify_cli_error (ce_is_match env) (er_stderr r) (er_stdout r)
               in (record_run_failure env reason self,
                   Inl (ExitStatus (er_exit_code r) reason (take_chars 500 (er_stderr r)))))
         else (let out = parse_output env (cr_config self) (er_stdout r);
                   self1 = self\<lparr>cr_cooldown := cooldown_record_success (cr_cooldown self)\<rparr>
               in (case co_session_id out of
                     None \<Rightarrow> self1
                   | Some sid \<Rightarrow> self1\<lparr>cr_sessions := al_insert (rr_agent_name q) sid (cr_sessions self1)\<rparr>,
                   Inr out)))"

text \<open>The part of \<open>run\<close> behind the gate, and \<open>run\<close> itself.\<close>

definition run_admitted ::
  "cli_env \<Rightarrow> run_request \<Rightarrow> cli_runner \<Rightarrow> cli_runner \<times> (cli_error, cli_output) result \<times> child_state" where
  "run_admitted env q self =
     (case perform env (cr_config self) q (plan_execution env self q) of
        (None, st) \<Rightarrow> (self, Inl NoHostNoSandbox, st)
      | (Some res, st) \<Rightarrow> (let (self1, r) = finish_run env q self res in (self1, r, st)))"

definition cli_gate :: "cli_env \<Rightarrow> cli_runner \<Rightarrow> cli_runner \<times> cli_error option" where
  "cli_gate env self =
     (let (cd, remaining) = is_in_cooldown (ce_gate_now env) (cr_cooldown self)
      in (self\<lparr>cr_cooldown := cd\<rparr>,
          map_option (\<lambda>d. InCooldown d (cs_last_reason cd) (unat (cs_error_count cd))) remaining))"

definition cli_run ::
  "cli_env \<Rightarrow> run_request \<Rightarrow> cli_runner \<Rightarrow> cli_runner \<times> (cli_error, cli_output) result \<times> child_state" where
  "cli_run env q self =
     (case cli_gate env self of
        (self1, Some e) \<Rightarrow> (self1, Inl e, NotSpawned)
      | (self1, None) \<Rightarrow> run_admitted env q self1)"

text \<open>Several runs of one runner. A run passes the gate first and waits for one of the permits then, so a run
  that waits is not looked at again when a cooldown begins. What it asks for is fixed when it gets the
  permit, what it records when its process has ended.\<close>

record cli_world =
  cw_runner :: cli_runner
  cw_queued :: "(cli_env \<times> run_request) list"
  cw_running :: "(cli_env \<times> run_request \<times> (bytes, exec_result) result) list"
  cw_ended :: "(cli_env \<times> run_request \<times> (cli_error, cli_output) result) list"

definition cli_world_new :: "cli_config \<Rightarrow> cli_world" where
  "cli_world_new config = \<lparr>cw_runner = runner_new config, cw_queued = [], cw_running = [], cw_ended = []\<rparr>"

definition cli_permits :: "cli_config \<Rightarrow> nat" where
  "cli_permits config = (if cc_serialize config then 1 else 64)"

datatype cli_event = GateRun cli_env run_request | StartRun | FinishRun nat

fun cli_event_step :: "cli_world \<Rightarrow> cli_event \<Rightarrow> cli_world" where
  "cli_event_step w (GateRun env q) =
     (case cli_gate env (cw_runner w) of
        (self, Some e) \<Rightarrow> w\<lparr>cw_runner := self, cw_ended := cw_ended w @ [(env, q, Inl e)]\<rparr>
      | (self, None) \<Rightarrow> w\<lparr>cw_runner := self, cw_queued := cw_queued w @ [(env, q)]\<rparr>)"
| "cli_event_step w StartRun =
     (case cw_queued w of
        [] \<Rightarrow> w
      | (env, q) # rest \<Rightarrow>
          if cli_permits (cr_config (cw_runner w)) \<le> length (cw_running w) then w
          else (case fst (perform env (cr_config (cw_runner w)) q (plan_execution env (cw_runner w) q)) of
                  None \<Rightarrow> w\<lparr>cw_queued := rest, cw_ended := cw_ended w @ [(env, q, Inl NoHostNoSandbox)]\<rparr>
                | Some res \<Rightarrow> w\<lparr>cw_queued := rest, cw_running := cw_running w @ [(env, q, res)]\<rparr>))"
| "cli_event_step w (FinishRun i) =
     (if i < length (cw_running w)
      then (let (env, q, res) = cw_running w ! i;
                (self, r) = finish_run env q (cw_runner w) res
            in w\<lparr>cw_runner := self, cw_running := take i (cw_running w) @ drop (Suc i) (cw_running w),
                 cw_ended := cw_ended w @ [(env, q, r)]\<rparr>)
      else w)"

section \<open>Provider\<close>

definition format_messages_for_cli :: "message list \<Rightarrow> bytes \<times> bytes option" where
  "format_messages_for_cli ms =
     (let sep = [newline, newline];
          system_parts = map msg_content (filter (\<lambda>m. msg_role m = System) ms);
          prompt_parts = map (\<lambda>m. case msg_role m of
                Assistant \<Rightarrow> ''[Assistant]'' @ [newline] @ msg_content m
              | Tool \<Rightarrow> ''[Tool result]'' @ [newline] @ msg_content m
              | _ \<Rightarrow> msg_content m) (filter (\<lambda>m. msg_role m \<noteq> System) ms)
      in (join sep prompt_parts, if system_parts = [] then None else Some (join sep system_parts)))"

record cli_provider =
  lp_runner :: cli_runner
  lp_provider_name :: bytes
  lp_model :: bytes
  lp_agent_name :: bytes
  lp_workspace_dir :: bytes
  lp_base :: bool
  lp_env_key :: "bytes option"
  lp_api_key :: "bytes option"

definition cli_provider_new ::
  "bytes \<Rightarrow> cli_config \<Rightarrow> bytes \<Rightarrow> bytes \<Rightarrow> bytes \<Rightarrow> bool \<Rightarrow> bytes option \<Rightarrow> cli_provider" where
  "cli_provider_new provider_name config model agent_name workspace_dir base api_key =
     \<lparr>lp_runner = runner_new config, lp_provider_name = provider_name, lp_model = model,
      lp_agent_name = agent_name, lp_workspace_dir = workspace_dir, lp_base = base,
      lp_env_key = cc_env_key config, lp_api_key = api_key\<rparr>"

text \<open>\<open>secrets\<close>: the vault; \<open>hash_context\<close>: the hash of the system prompt and the key.\<close>

definition cli_extra_env :: "(bytes \<Rightarrow> bytes option) \<Rightarrow> cli_provider \<Rightarrow> (bytes \<times> bytes) list" where
  "cli_extra_env secrets p = (case lp_env_key p of
       None \<Rightarrow> []
     | Some k \<Rightarrow>
         (case (case lp_api_key p of Some v \<Rightarrow> Some v | None \<Rightarrow> secrets k) of
            None \<Rightarrow> []
          | Some v \<Rightarrow> [(k, v)]))"

definition cli_request :: "(bytes \<Rightarrow> bytes option) \<Rightarrow> cli_provider \<Rightarrow> message list \<Rightarrow> run_request" where
  "cli_request secrets p ms =
     (let (prompt, system) = format_messages_for_cli ms
      in \<lparr>rr_agent_name = lp_agent_name p, rr_prompt = prompt, rr_system_prompt = system,
          rr_model = lp_model p, rr_workspace_dir = lp_workspace_dir p, rr_base = lp_base p,
          rr_extra_env = cli_extra_env secrets p\<rparr>)"

definition cli_chat ::
  "cli_env \<Rightarrow> (bytes \<Rightarrow> bytes option) \<Rightarrow> (bytes option \<Rightarrow> bytes option \<Rightarrow> nat) \<Rightarrow> cli_provider
     \<Rightarrow> message list \<Rightarrow> cli_provider \<times> (cli_error, llm_response) result" where
  "cli_chat env secrets hash_context p ms =
     (let q = cli_request secrets p ms;
          key = Option.bind (lp_env_key p) (map_of (rr_extra_env q));
          context_hash = hash_context (rr_system_prompt q) key;
          (runner1, _) = check_and_invalidate_session (lp_runner p) (lp_agent_name p) context_hash;
          (runner2, r, _) = cli_run env q runner1
      in (p\<lparr>lp_runner := runner2\<rparr>,
          case r of
            Inl e \<Rightarrow> Inl e
          | Inr out \<Rightarrow> Inr
              \<lparr>lr_content = co_text out, lr_tool_calls = [], lr_usage = co_usage out,
               lr_finish_reason = None,
               lr_model = Some (lp_provider_name p @ ''/'' @ lp_model p),
               lr_provider = Some (lp_provider_name p), lr_fallback_notice = None,
               lr_tools_used = [], lr_iterations = 0, lr_thinking_blocks = []\<rparr>))"

end
