(* ===== verification/Cli_Facts.thy ===== *)
theory Cli_Facts
  imports Cli_Backend
begin

text \<open>
  Facts about the command line providers: the shell reads the sandbox command back as the argument
  vector, the circuit breaker counts no more errors than runs overlap, a session survives
  the failures of its runs, the credentials do not reach the sandbox, and a talkative process
  outlives the overall timeout.
\<close>

section \<open>Quoting\<close>

text \<open>The words of a POSIX shell command that uses only blanks, single quotes and backslashes: any
  other unquoted character that is not a letter or a digit gives no words here.\<close>

datatype sh_mode = Between | InWord | InQuote | Escaped

fun sh_read :: "sh_mode \<Rightarrow> bytes \<Rightarrow> bytes \<Rightarrow> bytes list option" where
  "sh_read Between acc [] = Some []"
| "sh_read InWord acc [] = Some [acc]"
| "sh_read InQuote acc [] = None"
| "sh_read Escaped acc [] = None"
| "sh_read InQuote acc (c # s) =
     (if c = quote_char then sh_read InWord acc s else sh_read InQuote (acc @ [c]) s)"
| "sh_read Escaped acc (c # s) =
     (if c = newline then sh_read InWord acc s else sh_read InWord (acc @ [c]) s)"
| "sh_read m acc (c # s) =
     (if c = CHR '' '' then
        (if m = Between then sh_read Between [] s else map_option ((#) acc) (sh_read Between [] s))
      else if c = quote_char then sh_read InQuote acc s
      else if c = backslash then sh_read Escaped acc s
      else if is_ascii_alphanumeric c then sh_read InWord (acc @ [c]) s
      else None)"

definition sh_words :: "bytes \<Rightarrow> bytes list option" where
  "sh_words s = sh_read Between [] s"

lemma newline_not_quote [simp]: "newline \<noteq> quote_char" "quote_char \<noteq> newline" "newline \<noteq> backslash"
  by (simp_all add: newline_def)

lemma sh_read_quoted:
  "sh_read InQuote acc (replace_char quote_char [quote_char, backslash, quote_char, quote_char] x @ quote_char # t)
     = sh_read InWord (acc @ x) t"
  by (induction x arbitrary: acc) auto

lemma sh_read_escape: "sh_read Between [] (shell_escape x @ t) = sh_read InWord x t"
  using sh_read_quoted [of "[]" x t] by (simp add: shell_escape_def)

lemma sh_words_join: "sh_words (join '' '' (map shell_escape argv)) = Some argv"
  unfolding sh_words_def
proof (induction argv rule: induct_list012)
  case (2 x)
  then show ?case using sh_read_escape [of x "[]"] by simp
next
  case (3 x y zs)
  then show ?case by (simp add: sh_read_escape)
qed simp

section \<open>Circuit breaker\<close>

text \<open>The runs past the gate, and the most of them there have been at once.\<close>

definition past_gate :: "cli_world \<Rightarrow> nat" where
  "past_gate w = length (cw_queued w) + length (cw_running w)"

fun peak :: "cli_world \<Rightarrow> cli_event list \<Rightarrow> nat" where
  "peak w [] = past_gate w"
| "peak w (ev # evs) = max (past_gate w) (peak (cli_event_step w ev) evs)"

lemma peak_start: "past_gate w \<le> peak w evs"
  by (cases evs) simp_all

definition failure_reason :: "cli_env \<Rightarrow> cli_error \<Rightarrow> cli_error_reason option" where
  "failure_reason env e = (case e of
       ExecError m \<Rightarrow> Some (exec_error_reason (ce_lower env) m) | ExitStatus _ r _ \<Rightarrow> Some r | _ \<Rightarrow> None)"

text \<open>An open breaker has the length of the stage of its count, from the time its failure was recorded.\<close>

definition breaker_inv :: "cli_world \<Rightarrow> bool" where
  "breaker_inv w \<longleftrightarrow>
     (let cd = cr_cooldown (cw_runner w)
      in case cs_cooldown_until cd of
           None \<Rightarrow> cd = cooldown_new
         | Some t \<Rightarrow> \<exists>env q e r. (env, q, Inl e) \<in> set (cw_ended w) \<and> failure_reason env e = Some r
             \<and> t = ce_until_now env + from_millis (cooldown_ms r (unat (cs_error_count cd))))"

text \<open>What the three kinds of events do to the breaker.\<close>

lemma gate_breaker:
  assumes "cli_gate env self = (self', r)"
  shows "r \<noteq> None \<Longrightarrow> self' = self"
    and "r = None \<Longrightarrow> cs_cooldown_until (cr_cooldown self) = None \<and> self' = self \<or> cr_cooldown self' = cooldown_new"
  using assms by (auto simp: cli_gate_def is_in_cooldown_def split: option.splits if_splits)

lemma finish_breaker:
  assumes "finish_run env q self res = (self', r)"
  shows "cr_cooldown self' = cr_cooldown self \<or> cr_cooldown self' = cooldown_new
    \<or> (\<exists>e x. r = Inl e \<and> failure_reason env e = Some x
         \<and> cs_error_count (cr_cooldown self') = cs_error_count (cr_cooldown self) + 1
         \<and> cs_cooldown_until (cr_cooldown self')
             = Some (ce_until_now env + from_millis (cooldown_ms x (unat (cs_error_count (cr_cooldown self'))))))"
  using assms
  by (auto simp: finish_run_def record_run_failure_def cooldown_record_failure_def cooldown_record_success_def
      failure_reason_def Let_def split: sum.splits option.splits if_splits)

lemma breaker_inv_step: "breaker_inv w \<Longrightarrow> breaker_inv (cli_event_step w ev)"
proof (cases ev)
  case (GateRun env q)
  assume inv: "breaker_inv w"
  obtain self r where g: "cli_gate env (cw_runner w) = (self, r)" by fastforce
  show ?thesis
  proof (cases r)
    case None
    then consider "self = cw_runner w" | "cr_cooldown self = cooldown_new" using gate_breaker(2) [OF g] by blast
    then show ?thesis
    proof cases
      case 1
      then show ?thesis using inv GateRun g None by (fastforce simp: breaker_inv_def Let_def split: option.splits)
    qed (use GateRun g None in \<open>simp add: breaker_inv_def cooldown_new_def\<close>)
  next
    case (Some e)
    then have "self = cw_runner w" using gate_breaker(1) [OF g] by simp
    then show ?thesis using inv GateRun g Some by (fastforce simp: breaker_inv_def Let_def split: option.splits)
  qed
next
  case StartRun
  assume "breaker_inv w"
  then show ?thesis using StartRun by (fastforce simp: breaker_inv_def Let_def split: list.splits option.splits prod.splits)
next
  case (FinishRun i)
  assume inv: "breaker_inv w"
  show ?thesis
  proof (cases "i < length (cw_running w)")
    case True
    obtain env q res where run: "cw_running w ! i = (env, q, res)" using prod_cases3 by blast
    obtain self r where f: "finish_run env q (cw_runner w) res = (self, r)" by fastforce
    show ?thesis using finish_breaker [OF f] inv FinishRun True run f
      by (fastforce simp: breaker_inv_def Let_def cooldown_new_def split: option.splits)
  qed (use inv FinishRun in simp)
qed

interpretation breaker: step_invariant cli_event_step breaker_inv
  by unfold_locales (rule breaker_inv_step)

lemma unat_inc_le: "unat (x + 1) \<le> Suc (unat x)" for x :: "32 word"
  by (simp add: unat_word_ariths)

lemma breaker_count_step:
  assumes "breaker_inv w" and "unat (cs_error_count (cr_cooldown (cw_runner w))) + past_gate w \<le> m"
    and "past_gate (cli_event_step w ev) \<le> m"
  shows "unat (cs_error_count (cr_cooldown (cw_runner (cli_event_step w ev)))) + past_gate (cli_event_step w ev) \<le> m"
proof (cases ev)
  case (GateRun env q)
  obtain self r where g: "cli_gate env (cw_runner w) = (self, r)" by fastforce
  show ?thesis
  proof (cases r)
    case None
    then have "cr_cooldown self = cooldown_new"
      using gate_breaker(2) [OF g] assms(1) by (auto simp: breaker_inv_def Let_def split: option.splits)
    then show ?thesis using assms(3) GateRun g None by (simp add: cooldown_new_def)
  next
    case (Some e)
    then show ?thesis using gate_breaker(1) [OF g] assms(2) GateRun g by (simp add: past_gate_def)
  qed
next
  case StartRun
  then show ?thesis using assms(2) by (auto simp: past_gate_def split: list.splits option.splits prod.splits)
next
  case (FinishRun i)
  show ?thesis
  proof (cases "i < length (cw_running w)")
    case True
    obtain env q res where run: "cw_running w ! i = (env, q, res)" using prod_cases3 by blast
    obtain self r where f: "finish_run env q (cw_runner w) res = (self, r)" by fastforce
    have "unat (cs_error_count (cr_cooldown self)) \<le> Suc (unat (cs_error_count (cr_cooldown (cw_runner w))))"
      using finish_breaker [OF f] unat_inc_le by (auto simp: cooldown_new_def)
    then show ?thesis using assms(2) FinishRun True run f by (simp add: past_gate_def)
  qed (use assms(2) FinishRun in simp)
qed

lemma breaker_count:
  "breaker_inv w \<Longrightarrow> unat (cs_error_count (cr_cooldown (cw_runner w))) + past_gate w \<le> m \<Longrightarrow> peak w evs \<le> m
    \<Longrightarrow> unat (cs_error_count (cr_cooldown (cw_runner (foldl cli_event_step w evs)))) \<le> m"
proof (induction evs arbitrary: w)
  case (Cons ev evs)
  have "past_gate (cli_event_step w ev) \<le> m" using Cons.prems(3) peak_start [of "cli_event_step w ev" evs] by simp
  then show ?case
    using Cons.IH [OF breaker_inv_step [OF Cons.prems(1)] breaker_count_step [OF Cons.prems(1,2)]] Cons.prems(3) by simp
qed simp

text \<open>C38: The circuit breaker counts at most as many errors as runs have been past the gate at the same time,
  however many runs fail one after the other: the gate that the next run passes has reset the count. And
  whenever the breaker is open, it is open until exactly the time at which a failed run was recorded and
  the cooldown of its reason at the stage of this count. So in runs that do not overlap every cooldown
  has the length of the first stage; a longer one takes runs that had passed the gate before.\<close>

theorem breaker_counts_overlapping_runs:
  "unat (cs_error_count (cr_cooldown (cw_runner (foldl cli_event_step (cli_world_new config) evs)))) \<le> peak (cli_world_new config) evs
   \<and> (case cs_cooldown_until (cr_cooldown (cw_runner (foldl cli_event_step (cli_world_new config) evs))) of
        None \<Rightarrow> cr_cooldown (cw_runner (foldl cli_event_step (cli_world_new config) evs)) = cooldown_new
      | Some t \<Rightarrow> \<exists>env q e r. (env, q, Inl e) \<in> set (cw_ended (foldl cli_event_step (cli_world_new config) evs))
          \<and> failure_reason env e = Some r
          \<and> t = ce_until_now env + from_millis (cooldown_ms r
              (unat (cs_error_count (cr_cooldown (cw_runner (foldl cli_event_step (cli_world_new config) evs)))))))"
proof -
  have new: "breaker_inv (cli_world_new config)"
    by (simp add: breaker_inv_def cli_world_new_def runner_new_def cooldown_new_def)
  have "unat (cs_error_count (cr_cooldown (cw_runner (cli_world_new config)))) + past_gate (cli_world_new config) \<le> peak (cli_world_new config) evs"
    using peak_start by (simp add: cli_world_new_def runner_new_def cooldown_new_def)
  from breaker_count [OF new this order_refl] show ?thesis
    using breaker.run_inv [OF new, of evs] by (simp add: breaker_inv_def Let_def)
qed

section \<open>Runs that follow each other\<close>

text \<open>Runs that do not overlap, each in its own environment.\<close>

definition run_step :: "cli_runner \<Rightarrow> cli_env \<times> run_request \<Rightarrow> cli_runner" where
  "run_step self r = fst (cli_run (fst r) (snd r) self)"

definition run_result :: "cli_runner \<Rightarrow> cli_env \<times> run_request \<Rightarrow> (cli_error, cli_output) result" where
  "run_result self r = fst (snd (cli_run (fst r) (snd r) self))"

fun run_results :: "cli_runner \<Rightarrow> (cli_env \<times> run_request) list \<Rightarrow> (cli_error, cli_output) result list" where
  "run_results self [] = []"
| "run_results self (r # rs) = run_result self r # run_results (run_step self r) rs"

text \<open>Such a run is its three events in turn.\<close>

lemma cli_run_events:
  assumes "cw_queued w = []" and "cw_running w = []"
  shows "foldl cli_event_step w [GateRun env q, StartRun, FinishRun 0]
    = w\<lparr>cw_runner := fst (cli_run env q (cw_runner w)), cw_ended := cw_ended w @ [(env, q, fst (snd (cli_run env q (cw_runner w))))]\<rparr>"
proof -
  have permits: "(cli_permits c = 0) = False" for c by (simp add: cli_permits_def)
  show ?thesis
    using assms
    by (cases w, cases "cli_gate env (cw_runner w)")
      (auto simp: permits cli_run_def run_admitted_def not_le split: option.split prod.split)
qed

section \<open>Sessions\<close>

lemma finish_run_fails:
  "finish_run env q self res = (self', Inl e) \<Longrightarrow> cr_sessions self' = cr_sessions self"
  by (auto simp: finish_run_def record_run_failure_def Let_def split: sum.splits if_splits)

lemma finish_run_config [simp]: "cr_config (fst (finish_run env q self res)) = cr_config self"
  by (auto simp: finish_run_def record_run_failure_def Let_def split: sum.splits option.splits)

lemma run_admitted_config [simp]: "cr_config (fst (run_admitted env q self)) = cr_config self"
  by (auto simp: run_admitted_def Let_def split: option.splits prod.splits)
    (metis finish_run_config fst_conv)

lemma cli_run_config [simp]: "cr_config (fst (cli_run env q self)) = cr_config self"
  by (auto simp: cli_run_def cli_gate_def Let_def split: option.splits prod.splits)

lemma run_admitted_fails:
  "run_admitted env q self = (self', Inl e, st) \<Longrightarrow> cr_sessions self' = cr_sessions self"
  by (auto simp: run_admitted_def Let_def split: option.splits prod.splits dest: finish_run_fails)

lemma cli_run_fails:
  "cli_run env q self = (self', Inl e, st) \<Longrightarrow> cr_sessions self' = cr_sessions self"
  by (auto simp: cli_run_def cli_gate_def Let_def split: option.splits prod.splits dest: run_admitted_fails)

lemma run_step_fails:
  assumes "run_result self r = Inl e"
  shows "cr_sessions (run_step self r) = cr_sessions self"
  using assms cli_run_fails [of "fst r" "snd r" self]
  by (cases "cli_run (fst r) (snd r) self") (auto simp: run_step_def run_result_def)

lemma run_step_config [simp]: "cr_config (run_step self r) = cr_config self"
  by (simp add: run_step_def)

lemma failing_runs_sessions:
  "list_all isl (run_results self rs)
     \<Longrightarrow> cr_sessions (foldl run_step self rs) = cr_sessions self \<and> cr_config (foldl run_step self rs) = cr_config self"
proof (induction rs arbitrary: self)
  case (Cons r rs)
  then obtain e where "run_result self r = Inl e" by (auto simp: isl_def)
  then show ?case using Cons run_step_fails [of self r e] by auto
qed simp

lemma plan_execution_cong:
  "cr_sessions self' = cr_sessions self \<Longrightarrow> cr_config self' = cr_config self
     \<Longrightarrow> plan_execution env self' q = plan_execution env self q"
  by (simp add: plan_execution_def)

text \<open>A session survives the failures of its runs. As long as the runs fail, each of them asks for
  exactly the same execution as the first: one that resumes a session the program no longer knows
  resumes it again and again, and no later run starts afresh.\<close>

theorem failed_runs_repeat_execution:
  assumes "list_all isl (run_results self rs)"
  shows "plan_execution env (foldl run_step self rs) q = plan_execution env self q"
  using failing_runs_sessions [OF assms] by (intro plan_execution_cong) auto

definition demo_child :: "(duration \<times> (bytes, bytes) result) list \<Rightarrow> int \<Rightarrow> child" where
  "demo_child reads code =
     \<lparr>ch_spawn_error = None, ch_stdin_error = None, ch_reads = reads, ch_wait = (0, Inr (Some code)), ch_stderr = []\<rparr>"

definition demo_cli_env :: "child \<Rightarrow> cli_env" where
  "demo_cli_env c =
     \<lparr>ce_gate_now = 0, ce_fail_now = 1, ce_until_now = 1, ce_parent_env = Map.empty, ce_child = (\<lambda>_. c),
      ce_sandbox = None, ce_canonicalize = id, ce_parse = (\<lambda>_. None), ce_lower = id, ce_is_match = (\<lambda>_ _. False)\<rparr>"

definition demo_cli_request :: run_request where
  "demo_cli_request =
     \<lparr>rr_agent_name = ''bot'', rr_prompt = ''hi'', rr_system_prompt = Some ''be kind'', rr_model = ''m'',
      rr_workspace_dir = ''/w'', rr_base = True, rr_extra_env = []\<rparr>"

definition demo_cli_runner :: cli_runner where
  "demo_cli_runner =
     (runner_new (preset_to_config CLAUDE_CLI))\<lparr>cr_sessions := [(''bot'', ''s1'')]\<rparr>"

lemmas demo_cli_defs = demo_child_def demo_cli_env_def demo_cli_request_def demo_cli_runner_def

lemma demo_run_fails:
  "run_results demo_cli_runner [(demo_cli_env (demo_child [(0, Inr [])] 1), demo_cli_request)]
     = [Inl (ExitStatus 1 CliUnknown [])]"
  by (simp add: demo_cli_defs run_result_def cli_run_def cli_gate_def run_admitted_def perform_def plan_execution_def
      execute_on_host_def finish_run_def runner_new_def cooldown_new_def is_in_cooldown_def Let_def
      classify_cli_error_def classify_str_def split_beta)

theorem failed_runs_repeat_execution_witness:
  "\<forall>env q. plan_execution env
       (foldl run_step demo_cli_runner [(demo_cli_env (demo_child [(0, Inr [])] 1), demo_cli_request)]) q
     = plan_execution env demo_cli_runner q"
proof (intro allI)
  fix env q
  have "list_all isl (run_results demo_cli_runner [(demo_cli_env (demo_child [(0, Inr [])] 1), demo_cli_request)])"
    by (simp only: demo_run_fails list.pred_inject sum.disc)
  then show "plan_execution env
       (foldl run_step demo_cli_runner [(demo_cli_env (demo_child [(0, Inr [])] 1), demo_cli_request)]) q
     = plan_execution env demo_cli_runner q"
    by (rule failed_runs_repeat_execution)
qed

text \<open>What a resumed run is given: the resume arguments and the prompt, but neither the model nor the
  system prompt.\<close>

lemma resume_argv:
  assumes "map_of (cr_sessions self) (rr_agent_name q) = Some sid" and "cc_resume_args (cr_config self) \<noteq> []"
    and "rr_base q"
  shows "plan_execution env self q = plan_execution env self (q\<lparr>rr_system_prompt := sp, rr_model := m\<rparr>)"
  using assms by (simp add: plan_execution_def build_argv_def Let_def)

lemma cli_run_stores:
  assumes "cli_run env q self = (self', Inr out, st)" and "co_session_id out = Some sid"
  shows "map_of (cr_sessions self') (rr_agent_name q) = Some sid"
  using assms
  by (auto simp: cli_run_def cli_gate_def run_admitted_def finish_run_def Let_def split: option.splits prod.splits sum.splits if_splits)

text \<open>The session a run reports belongs to the agent's name and to nothing else. The next run for the
  agent resumes it, whatever conversation its messages come from, and passes neither its own system
  prompt nor its model to the program.\<close>

theorem session_resumed_by_agent_name:
  assumes "cli_run env q self = (self', Inr out, st)" and "co_session_id out = Some sid"
    and "cc_resume_args (cr_config self) \<noteq> []" and "cc_input (cr_config self) = InArg"
    and "cc_prompt_arg (cr_config self) = None"
    and "rr_agent_name q' = rr_agent_name q" and "rr_base q'"
    and "length (rr_prompt q') \<le> cc_max_prompt_arg_chars (cr_config self)"
  shows "\<exists>req. plan_execution env' self' q' = OnHost req
     \<and> hr_argv req = cc_command (cr_config self)
         # map (str_replace ''{session_id}'' sid) (cc_resume_args (cr_config self)) @ [rr_prompt q']"
  using cli_run_stores [OF assms(1,2)] assms cli_run_config [of env q self]
  by (simp add: plan_execution_def build_argv_def Let_def)

definition demo_reply :: json where
  "demo_reply = JObject [(''result'', JString ''hello''), (''session_id'', JString ''s7'')]"

definition demo_ok_env :: cli_env where
  "demo_ok_env = (demo_cli_env (demo_child [(0, Inr ''x''), (0, Inr [])] 0))\<lparr>ce_parse := (\<lambda>_. Some demo_reply)\<rparr>"

definition demo_other_chat :: run_request where
  "demo_other_chat = demo_cli_request\<lparr>rr_prompt := ''mine'', rr_system_prompt := Some ''other'', rr_model := ''n''\<rparr>"

lemma demo_exec:
  "execute_on_host (\<lambda>_. demo_child [(0, Inr ''x''), (0, Inr [])] 0) req 300 60
     = (Inr \<lparr>er_stdout = from_utf8_lossy ''x'', er_stderr = from_utf8_lossy [], er_exit_code = 0\<rparr>, Exited)"
  by (simp add: execute_on_host_def demo_child_def Let_def)

lemma demo_parse:
  "parse_cli_json (\<lambda>_. Some demo_reply) s = \<lparr>co_text = ''hello'', co_session_id = Some ''s7'', co_usage = None\<rparr>"
  by (simp add: parse_cli_json_def demo_reply_def json_out_def json_out_value_def json_out_field_of_def
      opt_string_def opt_u32_def is_opt_number_def nested_usage_def json_get_def)

lemma demo_run_ok:
  "cli_run demo_ok_env demo_cli_request (runner_new (preset_to_config CLAUDE_CLI))
     = ((runner_new (preset_to_config CLAUDE_CLI))\<lparr>cr_sessions := [(''bot'', ''s7'')]\<rparr>,
        Inr \<lparr>co_text = ''hello'', co_session_id = Some ''s7'', co_usage = None\<rparr>, Exited)"
  by (simp add: demo_ok_env_def demo_cli_env_def demo_cli_request_def cli_run_def cli_gate_def run_admitted_def perform_def
      plan_execution_def demo_exec finish_run_def runner_new_def cooldown_defs Let_def demo_parse
      parse_output_def preset_to_config_def CLAUDE_CLI_def split_beta)

theorem session_resumed_by_agent_name_witness:
  "\<exists>req. plan_execution demo_ok_env
       ((runner_new (preset_to_config CLAUDE_CLI))\<lparr>cr_sessions := [(''bot'', ''s7'')]\<rparr>) demo_other_chat = OnHost req
     \<and> hr_argv req = ''claude'' # map (str_replace ''{session_id}'' ''s7'') (cp_resume_args CLAUDE_CLI) @ [''mine'']"
  using session_resumed_by_agent_name [OF demo_run_ok, of "''s7''" demo_other_chat demo_ok_env]
  by (simp add: runner_new_def preset_to_config_def CLAUDE_CLI_def demo_other_chat_def demo_cli_request_def)

section \<open>Credentials\<close>

text \<open>A run in the sandbox does not depend on the key that was resolved for it: state and result are
  the same for every environment handed to \<open>run\<close>. Only runs on the host see it.\<close>

theorem sandbox_ignores_credentials:
  assumes "\<not> rr_base q"
  shows "cli_run env (q\<lparr>rr_extra_env := e\<rparr>) self = cli_run env q self"
  using assms
  by (simp add: cli_run_def cli_gate_def run_admitted_def plan_execution_def perform_def finish_run_def record_run_failure_def
      Let_def split: option.splits prod.splits sum.splits)

theorem sandbox_ignores_credentials_witness:
  "\<forall>env self. cli_run env (demo_cli_request\<lparr>rr_base := False, rr_extra_env := [(''ANTHROPIC_API_KEY'', ''k'')]\<rparr>) self
     = cli_run env (demo_cli_request\<lparr>rr_base := False\<rparr>) self"
  using sandbox_ignores_credentials
    [of "demo_cli_request\<lparr>rr_base := False\<rparr>" _ "[(''ANTHROPIC_API_KEY'', ''k'')]"]
  by simp

section \<open>Timeouts\<close>

text \<open>A child that never pauses longer than the watchdog allows and never closes its output.\<close>

definition talkative :: "duration \<Rightarrow> (duration \<times> (bytes, bytes) result) list \<Rightarrow> bool" where
  "talkative no_output = list_all (\<lambda>(d, r). d \<le> no_output \<and> (\<exists>b bs. r = Inr (b # bs)))"

lemma read_loop_talkative:
  "talkative no_output rs \<Longrightarrow> elapsed \<le> overall \<Longrightarrow> overall < elapsed + sum_list (map fst rs)
     \<Longrightarrow> read_loop overall no_output elapsed buf rs = OverallTimeout"
proof (induction rs arbitrary: elapsed buf)
  case (Cons x rs)
  then show ?case by (cases x) (auto simp: talkative_def add.assoc)
qed simp

text \<open>A process that keeps writing beyond the overall timeout is reported as timed out and left
  running; only a process that is silent for the watchdog's time is killed.\<close>

theorem timed_out_process_left_running:
  assumes "ch_spawn_error (spawn_child req) = None" and "ch_stdin_error (spawn_child req) = None"
    and "talkative (from_secs no_output_secs) (ch_reads (spawn_child req))"
    and "from_secs timeout_secs < sum_list (map fst (ch_reads (spawn_child req)))"
  shows "execute_on_host spawn_child req timeout_secs no_output_secs
     = (Inl (''CLI timed out after '' @ show_nat timeout_secs @ ''s''), LeftRunning)"
  using assms read_loop_talkative [of "from_secs no_output_secs" "ch_reads (spawn_child req)" 0 "from_secs timeout_secs" "[]"]
  by (simp add: execute_on_host_def Let_def)

theorem timed_out_process_left_running_witness:
  "\<forall>req. execute_on_host (\<lambda>_. demo_child (replicate 3 (from_secs 2, Inr ''.'')) 0) req 5 2
     = (Inl (''CLI timed out after '' @ show_nat 5 @ ''s''), LeftRunning)"
proof
  fix req
  let ?c = "demo_child (replicate 3 (from_secs 2, Inr ''.'')) 0"
  have "sum_list (map fst (ch_reads ?c)) = 3 * from_secs 2"
    by (simp add: demo_child_def sum_list_replicate)
  then have "from_secs 5 < sum_list (map fst (ch_reads ?c))"
    by (simp add: from_secs_def nanos_per_sec_def)
  moreover have "talkative (from_secs 2) (ch_reads ?c)"
    by (auto simp: talkative_def demo_child_def list_all_iff)
  ultimately show "execute_on_host (\<lambda>_. ?c) req 5 2 = (Inl (''CLI timed out after '' @ show_nat 5 @ ''s''), LeftRunning)"
    by (intro timed_out_process_left_running) (simp_all add: demo_child_def)
qed

section \<open>The sandbox command\<close>

text \<open>The commands of a pipeline: the text is cut at each \<open>|\<close> outside of quotes, and what is between is read
  into words.\<close>

fun sh_pipes :: "sh_mode \<Rightarrow> bytes \<Rightarrow> bytes list" where
  "sh_pipes m [] = [[]]"
| "sh_pipes m (c # s) =
     (if c = CHR ''|'' \<and> (m = Between \<or> m = InWord) then [] # sh_pipes Between s
      else (case sh_pipes
              (case m of
                 Escaped \<Rightarrow> InWord
               | InQuote \<Rightarrow> if c = quote_char then InWord else InQuote
               | _ \<Rightarrow> if c = CHR '' '' then Between else if c = quote_char then InQuote
                     else if c = backslash then Escaped else InWord) s of
              p # ps \<Rightarrow> (c # p) # ps | [] \<Rightarrow> [[c]]))"

definition sh_pipeline :: "bytes \<Rightarrow> bytes list option list" where
  "sh_pipeline s = map sh_words (sh_pipes Between s)"

text \<open>\<open>sh_pipes\<close> passes over a text without an unquoted bar.\<close>

definition passes :: "sh_mode \<Rightarrow> bytes \<Rightarrow> sh_mode \<Rightarrow> bool" where
  "passes m s m' \<longleftrightarrow> (\<forall>t. sh_pipes m (s @ t) = (case sh_pipes m' t of p # ps \<Rightarrow> (s @ p) # ps | [] \<Rightarrow> [s]))"

lemma sh_pipes_nonempty: "sh_pipes m s \<noteq> []"
  by (induction m s rule: sh_pipes.induct) (auto split: list.split)

lemma passes_Nil: "passes m [] m"
  using sh_pipes_nonempty by (auto simp: passes_def split: list.split)

lemma passes_append: "passes m s m' \<Longrightarrow> passes m' t m'' \<Longrightarrow> passes m (s @ t) m''"
  using sh_pipes_nonempty by (fastforce simp: passes_def split: list.splits)

lemma passes_char:
  assumes "\<not> (c = CHR ''|'' \<and> (m = Between \<or> m = InWord))"
    and "m' = (case m of
                 Escaped \<Rightarrow> InWord
               | InQuote \<Rightarrow> if c = quote_char then InWord else InQuote
               | _ \<Rightarrow> if c = CHR '' '' then Between else if c = quote_char then InQuote
                     else if c = backslash then Escaped else InWord)"
  shows "passes m [c] m'"
  using assms sh_pipes_nonempty by (auto simp: passes_def split: list.split)

lemma passes_quoted: "passes InQuote (replace_char quote_char [quote_char, backslash, quote_char, quote_char] x) InQuote"
proof (induction x)
  case (Cons c x)
  have "passes InQuote [quote_char, backslash, quote_char, quote_char] InQuote"
    using sh_pipes_nonempty by (auto simp: passes_def split: list.split)
  moreover have "c \<noteq> quote_char \<Longrightarrow> passes InQuote [c] InQuote" by (rule passes_char) simp_all
  ultimately show ?case using passes_append [OF _ Cons] by (cases "c = quote_char") fastforce+
qed (simp add: passes_Nil)

lemma passes_escape: "m = Between \<or> m = InWord \<Longrightarrow> passes m (shell_escape x) InWord"
proof -
  assume m: "m = Between \<or> m = InWord"
  then have "passes m [quote_char] InQuote" by (intro passes_char) auto
  moreover have "passes InQuote [quote_char] InWord" by (rule passes_char) simp_all
  ultimately have "passes m ([quote_char] @ replace_char quote_char [quote_char, backslash, quote_char, quote_char] x @ [quote_char]) InWord"
    by (intro passes_append [OF _ passes_append [OF passes_quoted]])
  then show ?thesis by (simp add: shell_escape_def)
qed

lemma passes_join: "m = Between \<Longrightarrow> \<exists>m'. passes m (join '' '' (map shell_escape argv)) m'"
proof (induction argv rule: induct_list012)
  case (2 x)
  then show ?case using passes_escape [of m x] by auto
next
  case (3 x y zs)
  then obtain m' where "passes Between (join '' '' (map shell_escape (y # zs))) m'" by blast
  moreover have "passes InWord '' '' Between" by (rule passes_char) simp_all
  ultimately have "passes m ((shell_escape x @ '' '') @ join '' '' (map shell_escape (y # zs))) m'"
    using passes_append [OF passes_append [OF passes_escape]] 3 by blast
  then show ?case by auto
qed (auto intro: passes_Nil)

lemma passes_end: "passes m s m' \<Longrightarrow> sh_pipes m s = [s]"
  unfolding passes_def by (drule spec [of _ "[]"]) simp

lemma sh_pipes_join: "sh_pipes Between (join '' '' (map shell_escape argv)) = [join '' '' (map shell_escape argv)]"
  using passes_join [of Between argv] passes_end by blast

text \<open>C31: The command a run gives to the sandbox's shell is read back by it as exactly what it is made of,
  whatever characters the prompt and the arguments contain: no word is split, no quote is closed early
  and nothing is left unquoted. Without standard input it is one command with the given words; with a text
  for the standard input it is a pipeline of \<open>echo\<close> with this text as its one argument and the command. (The
  newline that \<open>echo\<close> adds, and what an \<open>echo\<close> makes of backslashes, are not part of this.)\<close>

theorem sandbox_command_words:
  "sh_pipeline (shell_command argv None) = [Some argv]
   \<and> sh_pipeline (shell_command argv (Some input)) = [Some [''echo'', input], Some argv]"
proof -
  let ?base = "join '' '' (map shell_escape argv)"
  have words: "sh_words ?base = Some argv" by (rule sh_words_join)
  have blank: "sh_words ('' '' @ ?base) = Some argv" using words by (simp add: sh_words_def)
  have e: "passes Between ''e'' InWord" "passes InWord ''c'' InWord" "passes InWord ''h'' InWord" "passes InWord ''o'' InWord"
      "passes InWord '' '' Between" "passes Between '' '' Between"
    by (rule passes_char; simp)+
  have echo: "passes Between (''echo '' @ shell_escape input @ '' '') Between"
    using passes_append [OF passes_append [OF passes_append [OF passes_append [OF passes_append [OF e(1-2)] e(3)] e(4)] e(5)]
        passes_append [OF passes_escape [of Between input] e(5)]] by simp
  have cut: "sh_pipes Between (''echo '' @ shell_escape input @ '' | '' @ ?base)
      = [''echo '' @ shell_escape input @ '' '', '' '' @ ?base]"
  proof -
    have "sh_pipes Between ('' '' @ ?base) = ['' '' @ ?base]"
      using passes_join [of Between argv] passes_append [OF e(6)] passes_end by blast
    then have "sh_pipes Between (CHR ''|'' # '' '' @ ?base) = [[], '' '' @ ?base]" by simp
    then have "sh_pipes Between ((''echo '' @ shell_escape input @ '' '') @ (CHR ''|'' # '' '' @ ?base))
        = [''echo '' @ shell_escape input @ '' '', '' '' @ ?base]"
      using echo unfolding passes_def by (simp only: list.case append_Nil2)
    then show ?thesis by simp
  qed
  have "sh_read Between [] (''echo '' @ shell_escape input @ '' '') = Some [''echo'', input]"
    by (simp add: is_ascii_alphanumeric_def is_ascii_alphabetic_def is_ascii_digit_def sh_read_escape)
  then show ?thesis using words blank cut
    by (simp add: shell_command_def sh_pipeline_def sh_pipes_join sh_words_def)
qed

end
