(* ===== verification/Provider_Config.thy ===== *)
theory Provider_Config
  imports Cli_Backend
begin

text \<open>
  The construction of LLM providers (\<open>agent/providers.rs\<close> up to the routing provider,
  \<open>agent/providers/timeouts.rs\<close> and the constructors of the three HTTP providers): options and
  their validation, the table of provider types, credentials, URLs, the model override and the
  dispatch from a database row to a provider, with the sentinel for an unusable configuration.

  The vault, the provider table, the text of an UUID and the deserializer of the options column
  are arguments. Temperatures are rationals.
\<close>

section \<open>Timeouts and options\<close>

record timeouts_config =
  connect_secs :: nat
  request_secs :: nat
  stream_inactivity_secs :: nat
  stream_max_duration_secs :: nat
  run_max_duration_secs :: nat

definition timeouts_default :: timeouts_config where
  "timeouts_default =
     \<lparr>connect_secs = 10, request_secs = 120, stream_inactivity_secs = 60,
      stream_max_duration_secs = 600, run_max_duration_secs = 0\<rparr>"

definition out_of_range :: "bytes \<Rightarrow> nat \<Rightarrow> bytes" where
  "out_of_range what n = what @ '' (got '' @ show_nat n @ '')''"

definition timeouts_validate :: "timeouts_config \<Rightarrow> (bytes, unit) result" where
  "timeouts_validate t =
     (if connect_secs t < 1 \<or> 120 < connect_secs t
      then Inl (out_of_range ''connect_secs must be in 1..=120'' (connect_secs t))
      else if 3600 < request_secs t
      then Inl (out_of_range ''request_secs must be in 0..=3600'' (request_secs t))
      else if 3600 < stream_inactivity_secs t
      then Inl (out_of_range ''stream_inactivity_secs must be in 0..=3600'' (stream_inactivity_secs t))
      else if 7200 < stream_max_duration_secs t
      then Inl (out_of_range ''stream_max_duration_secs must be in 0..=7200'' (stream_max_duration_secs t))
      else if 86400 < run_max_duration_secs t
      then Inl (out_of_range ''run_max_duration_secs must be in 0..=86400'' (run_max_duration_secs t))
      else Inr ())"

record provider_options =
  po_timeouts :: timeouts_config
  po_api_key_envs :: "bytes list"
  po_prompt_cache :: bool
  po_max_retries :: nat
  po_extra :: "(bytes \<times> json) list"

definition options_default :: provider_options where
  "options_default =
     \<lparr>po_timeouts = timeouts_default, po_api_key_envs = [], po_prompt_cache = False,
      po_max_retries = 3, po_extra = []\<rparr>"

definition options_validate :: "provider_options \<Rightarrow> (bytes, unit) result" where
  "options_validate o' = (case timeouts_validate (po_timeouts o') of
       Inl e \<Rightarrow> Inl e
     | Inr _ \<Rightarrow>
         if po_max_retries o' < 1 \<or> 10 < po_max_retries o'
         then Inl (out_of_range ''max_retries must be in 1..=10'' (po_max_retries o'))
         else Inr ())"

section \<open>Provider types\<close>

record provider_type_meta =
  pt_id :: bytes
  pt_name :: bytes
  pt_chat_path :: bytes
  pt_default_base_url :: bytes
  pt_default_secret_name :: bytes
  pt_requires_api_key :: bool
  pt_supports_model_listing :: bool
  pt_models_provider :: "bytes option"
  pt_default_models :: "bytes list"

definition provider_type ::
  "bytes \<Rightarrow> bytes \<Rightarrow> bytes \<Rightarrow> bytes \<Rightarrow> bytes \<Rightarrow> bool \<Rightarrow> bool \<Rightarrow> bytes option \<Rightarrow> bytes list \<Rightarrow> provider_type_meta" where
  "provider_type i n path url secret req listing models_of models =
     \<lparr>pt_id = i, pt_name = n, pt_chat_path = path, pt_default_base_url = url,
      pt_default_secret_name = secret, pt_requires_api_key = req,
      pt_supports_model_listing = listing, pt_models_provider = models_of, pt_default_models = models\<rparr>"

definition PROVIDER_TYPES :: "provider_type_meta list" where
  "PROVIDER_TYPES =
    [
     provider_type ''minimax'' ''MiniMax'' ''/v1/chat/completions''
       ''https://api.minimax.io'' ''MINIMAX_API_KEY'' True False None
       [],
     provider_type ''openai'' ''OpenAI'' ''/v1/chat/completions''
       ''https://api.openai.com'' ''OPENAI_API_KEY'' True True None
       [],
     provider_type ''anthropic'' ''Anthropic'' ''''
       ''https://api.anthropic.com'' ''ANTHROPIC_API_KEY'' True True None
       [],
     provider_type ''google'' ''Google Gemini'' ''''
       ''https://generativelanguage.googleapis.com'' ''GOOGLE_API_KEY'' True True None
       [],
     provider_type ''deepseek'' ''DeepSeek'' ''/v1/chat/completions''
       ''https://api.deepseek.com'' ''DEEPSEEK_API_KEY'' True True None
       [],
     provider_type ''groq'' ''Groq'' ''/v1/chat/completions''
       ''https://api.groq.com/openai'' ''GROQ_API_KEY'' True True None
       [],
     provider_type ''openrouter'' ''OpenRouter'' ''/v1/chat/completions''
       ''https://openrouter.ai/api'' ''OPENROUTER_API_KEY'' True True None
       [],
     provider_type ''mistral'' ''Mistral'' ''/v1/chat/completions''
       ''https://api.mistral.ai'' ''MISTRAL_API_KEY'' True True None
       [],
     provider_type ''xai'' ''xAI'' ''/v1/chat/completions''
       ''https://api.x.ai'' ''XAI_API_KEY'' True True None
       [],
     provider_type ''perplexity'' ''Perplexity'' ''/chat/completions''
       ''https://api.perplexity.ai'' ''PERPLEXITY_API_KEY'' True True None
       [],
     provider_type ''together'' ''Together AI'' ''/v1/chat/completions''
       ''https://api.together.xyz'' ''TOGETHER_API_KEY'' True True None
       [],
     provider_type ''ollama'' ''Ollama'' ''/v1/chat/completions''
       ''http://localhost:11434'' '''' False True None
       [],
     provider_type ''openai_compat'' ''OpenAI Compatible'' ''/v1/chat/completions''
       '''' ''API_KEY'' True True None
       [],
     provider_type ''claude-cli'' ''Claude CLI'' ''''
       '''' ''ANTHROPIC_API_KEY'' True True (Some ''anthropic'')
       [''claude-sonnet-4-6'', ''claude-opus-4-6'', ''claude-haiku-4-5''],
     provider_type ''gemini-cli'' ''Gemini CLI'' ''''
       '''' ''GEMINI_API_KEY'' True True (Some ''google'')
       [''gemini-3.1-pro-preview'', ''gemini-3-flash-preview'', ''gemini-2.5-flash'', ''gemini-2.5-pro''],
     provider_type ''codex-cli'' ''Codex CLI'' ''''
       '''' ''OPENAI_API_KEY'' True True (Some ''openai'')
       [''codex-mini'', ''gpt-4.1'', ''o4-mini''],
     provider_type ''huggingface'' ''Hugging Face'' ''/v1/chat/completions''
       ''https://api-inference.huggingface.co'' ''HF_API_KEY'' True False None
       [],
     provider_type ''moonshot'' ''Moonshot AI (Kimi)'' ''/v1/chat/completions''
       ''https://api.moonshot.cn'' ''MOONSHOT_API_KEY'' True True None
       [],
     provider_type ''nvidia'' ''NVIDIA'' ''/v1/chat/completions''
       ''https://integrate.api.nvidia.com'' ''NVIDIA_API_KEY'' True True None
       [],
     provider_type ''venice'' ''Venice AI'' ''/v1/chat/completions''
       ''https://api.venice.ai'' ''VENICE_API_KEY'' True True None
       [],
     provider_type ''cloudflare'' ''Cloudflare AI Gateway'' ''/v1/chat/completions''
       '''' ''CF_AI_API_KEY'' True False None
       [],
     provider_type ''litellm'' ''LiteLLM'' ''/v1/chat/completions''
       ''http://localhost:4000'' ''LITELLM_API_KEY'' False True None
       [],
     provider_type ''volcengine'' ''Volcengine (Doubao)'' ''/v1/chat/completions''
       ''https://ark.cn-beijing.volces.com/api'' ''VOLCENGINE_API_KEY'' True False None
       [],
     provider_type ''qwen'' ''Qwen (Alibaba)'' ''/v1/chat/completions''
       ''https://dashscope.aliyuncs.com/compatible-mode'' ''DASHSCOPE_API_KEY'' True True None
       [],
     provider_type ''glm'' ''GLM (Zhipu AI)'' ''/v1/chat/completions''
       ''https://open.bigmodel.cn/api/paas'' ''GLM_API_KEY'' True True None
       [],
     provider_type ''sglang'' ''SGLang'' ''/v1/chat/completions''
       ''http://localhost:30000'' '''' False True None
       [],
     provider_type ''vllm'' ''vLLM'' ''/v1/chat/completions''
       ''http://localhost:8000'' '''' False True None
       [],
     provider_type ''qianfan'' ''Qianfan (Baidu)'' ''/v1/chat/completions''
       ''https://qianfan.baidubce.com'' ''QIANFAN_API_KEY'' True False None
       [],
     provider_type ''xiaomi'' ''Xiaomi MiLM'' ''/v1/chat/completions''
       ''https://api.ai.xiaomi.com'' ''XIAOMI_API_KEY'' True False None
       []]"

definition type_meta :: "bytes \<Rightarrow> provider_type_meta option" where
  "type_meta t = find (\<lambda>pt. pt_id pt = t) PROVIDER_TYPES"

definition trim_end_slashes :: "bytes \<Rightarrow> bytes" where
  "trim_end_slashes s = rev (dropWhile (\<lambda>c. c = CHR ''/'') (rev s))"

definition resolve_chat_url :: "bytes \<Rightarrow> bytes \<Rightarrow> bytes" where
  "resolve_chat_url t base_url =
     (let chat_path = (case type_meta t of None \<Rightarrow> ''/v1/chat/completions'' | Some pt \<Rightarrow> pt_chat_path pt)
      in if chat_path = [] then base_url else trim_end_slashes base_url @ chat_path)"

definition default_base_url_for_type :: "bytes \<Rightarrow> bytes" where
  "default_base_url_for_type t = (case type_meta t of None \<Rightarrow> [] | Some pt \<Rightarrow> pt_default_base_url pt)"

section \<open>Credentials, clients and the model override\<close>

record provider_env =
  pe_get_scoped :: "bytes \<Rightarrow> bytes \<Rightarrow> bytes option"
  pe_get :: "bytes \<Rightarrow> bytes option"
  pe_var :: "bytes \<Rightarrow> bytes option"
  pe_show_uuid :: "uuid \<Rightarrow> bytes"
  pe_from_options :: "json \<Rightarrow> provider_options option"

definition PROVIDER_CREDENTIALS :: bytes where
  "PROVIDER_CREDENTIALS = ''PROVIDER_CREDENTIALS''"

definition resolve_credential :: "provider_env \<Rightarrow> bytes option \<Rightarrow> bytes \<Rightarrow> bytes option" where
  "resolve_credential env credential_scope fallback_name =
     (case Option.bind credential_scope (pe_get_scoped env PROVIDER_CREDENTIALS) of
        Some v \<Rightarrow> Some v
      | None \<Rightarrow> if fallback_name \<noteq> [] then pe_get env fallback_name else None)"

record http_client =
  hc_connect_timeout :: duration
  hc_timeout :: "duration option"

definition build_provider_clients :: "timeouts_config \<Rightarrow> http_client \<times> http_client" where
  "build_provider_clients t =
     (let connect = from_secs (connect_secs t);
          request_timeout = (if request_secs t = 0 then from_secs ((2 ^ 64 - 1) div 1000)
                             else from_secs (request_secs t))
      in (\<lparr>hc_connect_timeout = connect, hc_timeout = Some request_timeout\<rparr>,
          \<lparr>hc_connect_timeout = connect, hc_timeout = None\<rparr>))"

record model_override =
  mo_default :: bytes
  mo_current :: "bytes option"

definition model_override_new :: "bytes \<Rightarrow> model_override" where
  "model_override_new d = \<lparr>mo_default = d, mo_current = None\<rparr>"

definition effective :: "model_override \<Rightarrow> bytes" where
  "effective m = unwrap_or (mo_current m) (mo_default m)"

definition model_override_set :: "bytes option \<Rightarrow> model_override \<Rightarrow> model_override" where
  "model_override_set v m = m\<lparr>mo_current := v\<rparr>"

section \<open>Providers\<close>

record openai_provider =
  oa_provider_name :: bytes
  oa_client :: http_client
  oa_streaming_client :: http_client
  oa_url :: bytes
  oa_base_url_env :: "bytes option"
  oa_url_suffix :: bytes
  oa_api_key_name :: bytes
  oa_api_key_names :: "bytes list"
  oa_key_counter :: "64 word"
  oa_credential_scope :: "bytes option"
  oa_model :: model_override
  oa_temperature :: rat
  oa_max_tokens :: "nat option"
  oa_timeouts :: timeouts_config
  oa_max_retries :: nat

record anthropic_provider =
  an_client :: http_client
  an_streaming_client :: http_client
  an_base_url :: bytes
  an_api_key_name :: bytes
  an_credential_scope :: "bytes option"
  an_model :: model_override
  an_temperature :: rat
  an_max_tokens :: "nat option"
  an_prompt_cache :: bool
  an_timeouts :: timeouts_config
  an_max_retries :: nat

record google_provider =
  go_client :: http_client
  go_streaming_client :: http_client
  go_base_url :: bytes
  go_api_key_name :: bytes
  go_credential_scope :: "bytes option"
  go_model :: model_override
  go_temperature :: rat
  go_max_tokens :: "nat option"
  go_timeouts :: timeouts_config
  go_max_retries :: nat

datatype llm_provider =
    OpenAiCompatible openai_provider
  | Anthropic anthropic_provider
  | Google google_provider
  | CliProvider cli_provider
  | Unconfigured bytes

record provider_row =
  pr_id :: uuid
  pr_name :: bytes
  pr_category :: bytes
  pr_provider_type :: bytes
  pr_base_url :: "bytes option"
  pr_default_model :: "bytes option"
  pr_enabled :: bool
  pr_options :: json

record provider_overrides =
  ov_model :: "bytes option"
  ov_temperature :: "rat option"
  ov_max_tokens :: "nat option"
  ov_prompt_cache :: "bool option"

definition row_model :: "provider_row \<Rightarrow> provider_overrides \<Rightarrow> bytes" where
  "row_model row ov = unwrap_or (ov_model ov) (unwrap_or (pr_default_model row) [])"

definition secret_name :: "provider_row \<Rightarrow> bytes \<Rightarrow> bytes" where
  "secret_name row fallback =
     (case type_meta (pr_provider_type row) of None \<Rightarrow> fallback | Some pt \<Rightarrow> pt_default_secret_name pt)"

definition openai_from_row ::
  "provider_env \<Rightarrow> provider_row \<Rightarrow> timeouts_config \<Rightarrow> provider_options \<Rightarrow> provider_overrides \<Rightarrow> openai_provider" where
  "openai_from_row env row t opts ov =
     (let base = (case pr_base_url row of
            Some u \<Rightarrow> if u = [] then default_base_url_for_type (pr_provider_type row) else u
          | None \<Rightarrow> default_base_url_for_type (pr_provider_type row));
          (client, streaming_client) = build_provider_clients t
      in \<lparr>oa_provider_name = pr_provider_type row, oa_client = client,
          oa_streaming_client = streaming_client,
          oa_url = resolve_chat_url (pr_provider_type row) base,
          oa_base_url_env = None, oa_url_suffix = [],
          oa_api_key_name = secret_name row ''API_KEY'',
          oa_api_key_names = po_api_key_envs opts, oa_key_counter = 0,
          oa_credential_scope = Some (pe_show_uuid env (pr_id row)),
          oa_model = model_override_new (row_model row ov),
          oa_temperature = unwrap_or (ov_temperature ov) (7 / 10),
          oa_max_tokens = ov_max_tokens ov, oa_timeouts = t, oa_max_retries = po_max_retries opts\<rparr>)"

definition anthropic_from_row ::
  "provider_env \<Rightarrow> provider_row \<Rightarrow> timeouts_config \<Rightarrow> provider_options \<Rightarrow> provider_overrides \<Rightarrow> anthropic_provider" where
  "anthropic_from_row env row t opts ov =
     (let (client, streaming_client) = build_provider_clients t
      in \<lparr>an_client = client, an_streaming_client = streaming_client,
          an_base_url = unwrap_or (pr_base_url row) ''https://api.anthropic.com'',
          an_api_key_name = secret_name row ''ANTHROPIC_API_KEY'',
          an_credential_scope = Some (pe_show_uuid env (pr_id row)),
          an_model = model_override_new (row_model row ov),
          an_temperature = unwrap_or (ov_temperature ov) (7 / 10),
          an_max_tokens = ov_max_tokens ov,
          an_prompt_cache = unwrap_or (ov_prompt_cache ov) (po_prompt_cache opts),
          an_timeouts = t, an_max_retries = po_max_retries opts\<rparr>)"

definition google_from_row ::
  "provider_env \<Rightarrow> provider_row \<Rightarrow> timeouts_config \<Rightarrow> provider_options \<Rightarrow> provider_overrides \<Rightarrow> google_provider" where
  "google_from_row env row t opts ov =
     (let (client, streaming_client) = build_provider_clients t
      in \<lparr>go_client = client, go_streaming_client = streaming_client,
          go_base_url = unwrap_or (pr_base_url row) ''https://generativelanguage.googleapis.com'',
          go_api_key_name = secret_name row ''GOOGLE_API_KEY'',
          go_credential_scope = Some (pe_show_uuid env (pr_id row)),
          go_model = model_override_new (row_model row ov),
          go_temperature = unwrap_or (ov_temperature ov) (7 / 10),
          go_max_tokens = ov_max_tokens ov, go_timeouts = t, go_max_retries = po_max_retries opts\<rparr>)"

definition cli_types :: "bytes list" where
  "cli_types = [''claude-cli'', ''gemini-cli'', ''codex-cli'']"

definition build_provider ::
  "provider_env \<Rightarrow> provider_row \<Rightarrow> timeouts_config \<Rightarrow> provider_overrides \<Rightarrow> (bytes, llm_provider) result" where
  "build_provider env row t ov =
     (let opts = unwrap_or (pe_from_options env (pr_options row)) options_default
      in case options_validate opts of
           Inl msg \<Rightarrow> Inl (''provider `'' @ pr_name row @ ''` has invalid options: '' @ msg)
         | Inr _ \<Rightarrow>
             if pr_provider_type row = ''anthropic'' then Inr (Anthropic (anthropic_from_row env row t opts ov))
             else if pr_provider_type row = ''google'' \<or> pr_provider_type row = ''gemini''
             then Inr (Google (google_from_row env row t opts ov))
             else if pr_provider_type row \<in> set cli_types
             then Inl (''build_provider: CLI provider_type `'' @ pr_provider_type row
                       @ ''` requires a CliContext; use build_cli_provider instead'')
             else Inr (OpenAiCompatible (openai_from_row env row t opts ov)))"

definition provider_name :: "llm_provider \<Rightarrow> bytes" where
  "provider_name p = (case p of
       OpenAiCompatible q \<Rightarrow> oa_provider_name q
     | Anthropic _ \<Rightarrow> ''anthropic''
     | Google _ \<Rightarrow> ''google''
     | CliProvider q \<Rightarrow> lp_provider_name q
     | Unconfigured _ \<Rightarrow> ''unconfigured'')"

definition set_model_override :: "bytes option \<Rightarrow> llm_provider \<Rightarrow> llm_provider" where
  "set_model_override m p = (case p of
       OpenAiCompatible q \<Rightarrow> OpenAiCompatible (q\<lparr>oa_model := model_override_set m (oa_model q)\<rparr>)
     | Anthropic q \<Rightarrow> Anthropic (q\<lparr>an_model := model_override_set m (an_model q)\<rparr>)
     | Google q \<Rightarrow> Google (q\<lparr>go_model := model_override_set m (go_model q)\<rparr>)
     | CliProvider q \<Rightarrow> CliProvider q
     | Unconfigured r \<Rightarrow> Unconfigured r)"

definition current_model :: "llm_provider \<Rightarrow> bytes" where
  "current_model p = (case p of
       OpenAiCompatible q \<Rightarrow> effective (oa_model q)
     | Anthropic q \<Rightarrow> effective (an_model q)
     | Google q \<Rightarrow> effective (go_model q)
     | CliProvider q \<Rightarrow> lp_model q
     | Unconfigured _ \<Rightarrow> ''unconfigured'')"

definition provider_run_max_duration_secs :: "llm_provider \<Rightarrow> nat" where
  "provider_run_max_duration_secs p = (case p of
       OpenAiCompatible q \<Rightarrow> run_max_duration_secs (oa_timeouts q)
     | Anthropic q \<Rightarrow> run_max_duration_secs (an_timeouts q)
     | Google q \<Rightarrow> run_max_duration_secs (go_timeouts q)
     | CliProvider _ \<Rightarrow> 0
     | Unconfigured _ \<Rightarrow> 0)"

definition supports_prefill :: "llm_provider \<Rightarrow> bool" where
  "supports_prefill p = (case p of Anthropic _ \<Rightarrow> True | _ \<Rightarrow> False)"

section \<open>The provider of an agent\<close>

record cli_context =
  cx_agent_name :: bytes
  cx_workspace_dir :: bytes
  cx_base :: bool

definition build_cli_provider ::
  "provider_env \<Rightarrow> provider_row \<Rightarrow> bytes option \<Rightarrow> cli_context \<Rightarrow> (bytes, llm_provider) result" where
  "build_cli_provider env row model_override ctx =
     (case resolve_cli_config (pr_provider_type row) (pr_options row) of
        None \<Rightarrow> Inl (''unknown CLI preset: '' @ pr_provider_type row)
      | Some config \<Rightarrow>
          (let model = unwrap_or (or_else model_override (pr_default_model row)) [];
               api_key = Option.bind (cc_env_key config)
                 (\<lambda>k. pe_get_scoped env k (pe_show_uuid env (pr_id row)))
           in Inr (CliProvider (cli_provider_new (pr_provider_type row) config model
                (cx_agent_name ctx) (cx_workspace_dir ctx) (cx_base ctx) api_key))))"

definition resolve_provider_from_row ::
  "provider_env \<Rightarrow> provider_row \<Rightarrow> bytes option \<Rightarrow> rat \<Rightarrow> nat option \<Rightarrow> cli_context \<Rightarrow> llm_provider" where
  "resolve_provider_from_row env row model_override temperature max_tokens ctx =
     (let opts = unwrap_or (pe_from_options env (pr_options row)) options_default;
          provider =
            (if pr_provider_type row \<in> set cli_types
             then (case build_cli_provider env row model_override ctx of
                     Inr p \<Rightarrow> p
                   | Inl e \<Rightarrow> Unconfigured (''CLI provider build failed: '' @ e))
             else (case build_provider env row (po_timeouts opts)
                       \<lparr>ov_model = model_override, ov_temperature = Some temperature,
                        ov_max_tokens = max_tokens, ov_prompt_cache = None\<rparr> of
                     Inr p \<Rightarrow> p
                   | Inl e \<Rightarrow> Unconfigured (''HTTP provider build failed: '' @ e)))
      in case model_override of
           Some m \<Rightarrow> if m \<noteq> [] then set_model_override (Some m) provider else provider
         | None \<Rightarrow> provider)"

text \<open>\<open>lookup\<close>: \<open>get_provider_by_name\<close>, which may fail.\<close>

definition resolve_provider_for_agent ::
  "provider_env \<Rightarrow> (bytes \<Rightarrow> (bytes, provider_row option) result) \<Rightarrow> bytes option \<Rightarrow> bytes \<Rightarrow> rat \<Rightarrow> nat option
     \<Rightarrow> cli_context \<Rightarrow> llm_provider" where
  "resolve_provider_for_agent env lookup provider_connection agent_model temperature max_tokens ctx =
     (let none = Unconfigured ''no usable LLM provider configured for agent''
      in case provider_connection of
           None \<Rightarrow> none
         | Some conn \<Rightarrow>
             if conn = [] then none
             else (case lookup conn of
                     Inr (Some row) \<Rightarrow>
                       if pr_category row = ''text'' \<or> pr_category row = ''llm''
                       then resolve_provider_from_row env row
                              (if agent_model = [] then None else Some agent_model) temperature max_tokens ctx
                       else none
                   | _ \<Rightarrow> none))"

lemma build_provider_ok_iff:
  "(\<exists>p. build_provider env row t ov = Inr p)
     \<longleftrightarrow> options_validate (unwrap_or (pe_from_options env (pr_options row)) options_default) = Inr ()
        \<and> pr_provider_type row \<notin> set cli_types"
  by (auto simp: build_provider_def Let_def cli_types_def split: sum.splits)

lemma build_provider_kind:
  "build_provider env row t ov = Inr p \<Longrightarrow> (\<forall>q. p \<noteq> CliProvider q) \<and> (\<forall>r. p \<noteq> Unconfigured r)"
  by (auto simp: build_provider_def Let_def split: sum.splits if_splits)

end
