(* ===== verification/Provider_Routing.thy ===== *)
theory Provider_Routing
  imports Provider_Config Thinking
begin

text \<open>
  The routing provider (\<open>agent/providers.rs\<close>): the routes of an agent, the choice of the primary
  route from the message, the cooldown of failed routes, and the failover of calls and of streams.

  What a provider answers to the \<open>n\<close>-th call of the router, the clock at its \<open>n\<close>-th reading,
  Unicode lower case, the regular expressions of the error classes and the presence of a metrics
  registry are the environment. The world records the calls, the cooldown table, the two metrics
  and the chunks put on the client's channel. The task that forwards the chunks of a streaming
  primary is taken to the end of its work before the call returns.
\<close>

section \<open>Keywords and conditions\<close>

definition FINANCIAL_KEYWORDS :: "bytes list" where
  "FINANCIAL_KEYWORDS =
     [utf8 [0xD0, 0xBF, 0xD0, 0xBE, 0xD1, 0x80, 0xD1, 0x82, 0xD1, 0x84, 0xD0, 0xB5, 0xD0, 0xBB, 0xD1, 0x8C],
      utf8 [0xD0, 0xB0, 0xD0, 0xBA, 0xD1, 0x86, 0xD0, 0xB8, 0xD0, 0xB8],
      utf8 [0xD0, 0xB1, 0xD1, 0x83, 0xD0, 0xBC, 0xD0, 0xB0, 0xD0, 0xB3, 0xD0, 0xB8],
      utf8 [0xD0, 0xB4, 0xD0, 0xB8, 0xD0, 0xB2, 0xD0, 0xB8, 0xD0, 0xB4, 0xD0, 0xB5, 0xD0, 0xBD, 0xD0, 0xB4, 0xD1, 0x8B],
      utf8 [0xD0, 0xB4, 0xD0, 0xBE, 0xD1, 0x85, 0xD0, 0xBE, 0xD0, 0xB4, 0xD0, 0xBD, 0xD0, 0xBE, 0xD1, 0x81, 0xD1, 0x82, 0xD1, 0x8C],
      utf8 [0xD0, 0xBF, 0xD1, 0x80, 0xD0, 0xB8, 0xD0, 0xB1, 0xD1, 0x8B, 0xD0, 0xBB, 0xD1, 0x8C],
      utf8 [0xD1, 0x83, 0xD0, 0xB1, 0xD1, 0x8B, 0xD1, 0x82, 0xD0, 0xBE, 0xD0, 0xBA],
      ''imoex'',
      utf8 [0xD1, 0x80, 0xD1, 0x82, 0xD1, 0x81],
      utf8 [0xD0, 0xBC, 0xD0, 0xBE, 0xD1, 0x81, 0xD0, 0xB1, 0xD0, 0xB8, 0xD1, 0x80, 0xD0, 0xB6, 0xD0, 0xB0],
      ''moex'',
      utf8 [0xD0, 0xBE, 0xD0, 0xB1, 0xD0, 0xBB, 0xD0, 0xB8, 0xD0, 0xB3, 0xD0, 0xB0, 0xD1, 0x86, 0xD0, 0xB8, 0xD0, 0xB8],
      utf8 [0xD1, 0x84, 0xD0, 0xBE, 0xD0, 0xBD, 0xD0, 0xB4],
      ''etf'',
      utf8 [0xD0, 0xBF, 0xD0, 0xB0, 0xD0, 0xB8],
      utf8 [0xD0, 0xBA, 0xD0, 0xBE, 0xD1, 0x82, 0xD0, 0xB8, 0xD1, 0x80, 0xD0, 0xBE, 0xD0, 0xB2, 0xD0, 0xBA, 0xD0, 0xB8],
      utf8 [0xD0, 0xB8, 0xD0, 0xBD, 0xD0, 0xB2, 0xD0, 0xB5, 0xD1, 0x81, 0xD1, 0x82, 0xD0, 0xB8, 0xD1, 0x86],
      utf8 [0xD0, 0xB1, 0xD1, 0x80, 0xD0, 0xBE, 0xD0, 0xBA, 0xD0, 0xB5, 0xD1, 0x80],
      utf8 [0xD0, 0xBF, 0xD0, 0xBE, 0xD0, 0xB7, 0xD0, 0xB8, 0xD1, 0x86, 0xD0, 0xB8, 0xD0, 0xB8],
      utf8 [0xD0, 0xB0, 0xD0, 0xBA, 0xD1, 0x82, 0xD0, 0xB8, 0xD0, 0xB2, 0xD1, 0x8B],
      utf8 [0xD1, 0x82, 0xD0, 0xB8, 0xD0, 0xBA, 0xD0, 0xB5, 0xD1, 0x80],
      ''portfolio'',
      ''shares'',
      ''dividend'',
      ''yield'',
      ''return'',
      ''profit'',
      ''loss'',
      ''stock'',
      ''bond'',
      ''equity'',
      ''ticker'',
      ''market'']"

definition ANALYTICAL_KEYWORDS :: "bytes list" where
  "ANALYTICAL_KEYWORDS =
     [utf8 [0xD0, 0xB0, 0xD0, 0xBD, 0xD0, 0xB0, 0xD0, 0xBB, 0xD0, 0xB8, 0xD0, 0xB7, 0xD0, 0xB8, 0xD1, 0x80, 0xD1, 0x83, 0xD0, 0xB9],
      utf8 [0xD0, 0xBF, 0xD0, 0xBE, 0xD0, 0xB4, 0xD1, 0x81, 0xD1, 0x87, 0xD0, 0xB8, 0xD1, 0x82, 0xD0, 0xB0, 0xD0, 0xB9],
      utf8 [0xD0, 0xBF, 0xD0, 0xBE, 0xD1, 0x81, 0xD1, 0x87, 0xD0, 0xB8, 0xD1, 0x82, 0xD0, 0xB0, 0xD0, 0xB9],
      utf8 [0xD0, 0xB2, 0xD1, 0x8B, 0xD1, 0x87, 0xD0, 0xB8, 0xD1, 0x81, 0xD0, 0xBB, 0xD0, 0xB8],
      utf8 [0xD1, 0x80, 0xD0, 0xB0, 0xD1, 0x81, 0xD1, 0x81, 0xD1, 0x87, 0xD0, 0xB8, 0xD1, 0x82, 0xD0, 0xB0, 0xD0, 0xB9],
      utf8 [0xD1, 0x81, 0xD1, 0x80, 0xD0, 0xB0, 0xD0, 0xB2, 0xD0, 0xBD, 0xD0, 0xB8],
      utf8 [0xD0, 0xBA, 0xD0, 0xBE, 0xD1, 0x80, 0xD1, 0x80, 0xD0, 0xB5, 0xD0, 0xBB, 0xD1, 0x8F, 0xD1, 0x86, 0xD0, 0xB8, 0xD1, 0x8F],
      utf8 [0xD1, 0x81, 0xD1, 0x80, 0xD0, 0xB5, 0xD0, 0xB4, 0xD0, 0xBD, 0xD0, 0xB5, 0xD0, 0xB5],
      utf8 [0xD0, 0xBC, 0xD0, 0xB5, 0xD0, 0xB4, 0xD0, 0xB8, 0xD0, 0xB0, 0xD0, 0xBD, 0xD0, 0xB0],
      utf8 [0xD1, 0x81, 0xD1, 0x82, 0xD0, 0xB0, 0xD1, 0x82, 0xD0, 0xB8, 0xD1, 0x81, 0xD1, 0x82, 0xD0, 0xB8, 0xD0, 0xBA, 0xD0, 0xB0],
      utf8 [0xD0, 0xB4, 0xD0, 0xB8, 0xD0, 0xBD, 0xD0, 0xB0, 0xD0, 0xBC, 0xD0, 0xB8, 0xD0, 0xBA, 0xD0, 0xB0],
      utf8 [0xD1, 0x82, 0xD1, 0x80, 0xD0, 0xB5, 0xD0, 0xBD, 0xD0, 0xB4],
      utf8 [0xD0, 0xBF, 0xD1, 0x80, 0xD0, 0xBE, 0xD1, 0x86, 0xD0, 0xB5, 0xD0, 0xBD, 0xD1, 0x82],
      utf8 [0xD0, 0xBF, 0xD1, 0x80, 0xD0, 0xBE, 0xD0, 0xB3, 0xD0, 0xBD, 0xD0, 0xBE, 0xD0, 0xB7],
      utf8 [0xD0, 0xB0, 0xD0, 0xB3, 0xD1, 0x80, 0xD0, 0xB5, 0xD0, 0xB3, 0xD0, 0xB8, 0xD1, 0x80, 0xD1, 0x83, 0xD0, 0xB9],
      utf8 [0xD1, 0x81, 0xD0, 0xB3, 0xD1, 0x80, 0xD1, 0x83, 0xD0, 0xBF, 0xD0, 0xBF, 0xD0, 0xB8, 0xD1, 0x80, 0xD1, 0x83, 0xD0, 0xB9],
      ''analyze'',
      ''calculate'',
      ''compute'',
      ''correlation'',
      ''average'',
      ''median'',
      ''statistics'',
      ''trend'',
      ''forecast'',
      ''aggregate'']"

definition CODE_KEYWORDS :: "bytes list" where
  "CODE_KEYWORDS =
     [utf8 [0xD1, 0x81, 0xD0, 0xBA, 0xD1, 0x80, 0xD0, 0xB8, 0xD0, 0xBF, 0xD1, 0x82],
      utf8 [0xD0, 0xBA, 0xD0, 0xBE, 0xD0, 0xB4],
      utf8 [0xD0, 0xB7, 0xD0, 0xB0, 0xD0, 0xBF, 0xD1, 0x83, 0xD1, 0x81, 0xD1, 0x82, 0xD0, 0xB8],
      utf8 [0xD0, 0xB2, 0xD1, 0x8B, 0xD0, 0xBF, 0xD0, 0xBE, 0xD0, 0xBB, 0xD0, 0xBD, 0xD0, 0xB8],
      ''python'',
      ''bash'',
      utf8 [0xD0, 0xBD, 0xD0, 0xB0, 0xD0, 0xBF, 0xD0, 0xB8, 0xD1, 0x88, 0xD0, 0xB8] @ '' '' @ utf8 [0xD1, 0x81, 0xD0, 0xBA, 0xD1, 0x80, 0xD0, 0xB8, 0xD0, 0xBF, 0xD1, 0x82],
      utf8 [0xD0, 0xBD, 0xD0, 0xB0, 0xD0, 0xBF, 0xD0, 0xB8, 0xD1, 0x88, 0xD0, 0xB8] @ '' '' @ utf8 [0xD0, 0xBA, 0xD0, 0xBE, 0xD0, 0xB4],
      ''script'',
      ''code'',
      ''execute'',
      ''run script'',
      ''run code'']"

definition contains_any :: "bytes \<Rightarrow> bytes list \<Rightarrow> bool" where
  "contains_any s keywords \<longleftrightarrow> (\<exists>k \<in> set keywords. contains s k)"

definition forced_skill_tool :: "message list \<Rightarrow> tool_definition list \<Rightarrow> bytes option" where
  "forced_skill_tool ms tools =
     (if (\<exists>m \<in> set ms. msg_role m = System \<and> contains (msg_content m) ''## Relevant Skill Detected'')
         \<and> (\<exists>t \<in> set tools. td_name t = ''skill_use'')
      then Some ''skill_use'' else None)"

section \<open>Routes and world\<close>

record route_config =
  rc_condition :: bytes
  rc_connection :: "bytes option"
  rc_model :: "bytes option"
  rc_temperature :: "rat option"
  rc_cooldown_secs :: nat

record route_entry =
  re_condition :: bytes
  re_key :: bytes
  re_provider :: llm_provider
  re_cooldown_duration :: duration

record routing_provider =
  rp_routes :: "route_entry list"
  rp_max_failover_attempts :: "32 word"

type_synonym answer = "(anyhow_error, llm_response) result"

record route_world =
  rt_reads :: nat
  rt_called :: "route_entry list"
  rt_cooldowns :: "(bytes \<times> instant) list"
  rt_timeouts :: "(bytes \<times> bytes) list"
  rt_failovers :: "(bytes \<times> bytes \<times> bytes) list"
  rt_sent :: "bytes list"

record route_env =
  rv_clock :: "nat \<Rightarrow> instant"
  rv_chat :: "nat \<Rightarrow> llm_provider \<Rightarrow> message list \<Rightarrow> tool_definition list \<Rightarrow> answer"
  rv_stream :: "nat \<Rightarrow> llm_provider \<Rightarrow> message list \<Rightarrow> tool_definition list \<Rightarrow> bytes list \<times> answer"
  rv_lower :: "bytes \<Rightarrow> bytes"
  rv_is_match :: regex_engine
  rv_metrics :: bool

section \<open>Construction\<close>

definition route_of ::
  "provider_env \<Rightarrow> (bytes \<Rightarrow> (bytes, provider_row option) result) \<Rightarrow> rat \<Rightarrow> nat option \<Rightarrow> route_config
     \<Rightarrow> route_entry option" where
  "route_of env lookup agent_temperature agent_max_tokens r =
     (case rc_connection r of
        None \<Rightarrow> None
      | Some conn \<Rightarrow>
          if conn = [] then None
          else (case lookup conn of
                  Inr (Some row) \<Rightarrow>
                    (let opts = unwrap_or (pe_from_options env (pr_options row)) options_default;
                         ov = \<lparr>ov_model = (case rc_model r of Some m \<Rightarrow> if m = [] then None else Some m | None \<Rightarrow> None),
                               ov_temperature = Some (unwrap_or (rc_temperature r) agent_temperature),
                               ov_max_tokens = agent_max_tokens, ov_prompt_cache = None\<rparr>
                     in case build_provider env row (po_timeouts opts) ov of
                          Inl _ \<Rightarrow> None
                        | Inr p \<Rightarrow> Some
                            \<lparr>re_condition = rc_condition r,
                             re_key = rc_condition r @ '':'' @ provider_name p,
                             re_provider = p,
                             re_cooldown_duration = from_secs (max (rc_cooldown_secs r) 1)\<rparr>)
                | _ \<Rightarrow> None))"

definition sentinel_route :: route_entry where
  "sentinel_route =
     \<lparr>re_condition = ''default'', re_key = ''unconfigured:sentinel'',
      re_provider = Unconfigured ''no usable routes'', re_cooldown_duration = from_secs 1\<rparr>"

definition create_routing_provider ::
  "provider_env \<Rightarrow> (bytes \<Rightarrow> (bytes, provider_row option) result) \<Rightarrow> route_config list \<Rightarrow> rat \<Rightarrow> nat option
     \<Rightarrow> 32 word \<Rightarrow> routing_provider" where
  "create_routing_provider env lookup routes agent_temperature agent_max_tokens cap =
     (let entries = List.map_filter (route_of env lookup agent_temperature agent_max_tokens) routes
      in \<lparr>rp_routes = (if entries = [] then [sentinel_route] else entries),
          rp_max_failover_attempts = cap\<rparr>)"

section \<open>Choice of the primary route\<close>

definition last_user_message :: "message list \<Rightarrow> bytes" where
  "last_user_message ms =
     (case find (\<lambda>m. msg_role m = User) (rev ms) of None \<Rightarrow> [] | Some m \<Rightarrow> msg_content m)"

definition route_matches ::
  "(bytes \<Rightarrow> bytes) \<Rightarrow> message list \<Rightarrow> tool_definition list \<Rightarrow> route_entry \<Rightarrow> bool" where
  "route_matches lower ms tools entry =
     (let last_user_msg = last_user_message ms;
          c = re_condition entry
      in if c = ''short'' then length last_user_msg < 300
         else if c = ''long'' then 2000 < length last_user_msg
         else if c = ''with_tools'' then tools \<noteq> []
         else if c = ''financial'' then contains_any (lower last_user_msg) FINANCIAL_KEYWORDS
         else if c = ''analytical'' then contains_any (lower last_user_msg) ANALYTICAL_KEYWORDS
         else if c = ''code'' then contains_any (lower last_user_msg) CODE_KEYWORDS
         else c = ''default'' \<or> c = ''always'')"

definition no_routes_error :: anyhow_error where
  "no_routes_error = Untyped
     (''RoutingProvider has no routes '' @ utf8 [0xE2, 0x80, 0x94] @ '' this indicates a bug in ''
      @ ''create_routing_provider (sentinel was not installed)'')"

definition select_route ::
  "(bytes \<Rightarrow> bytes) \<Rightarrow> routing_provider \<Rightarrow> message list \<Rightarrow> tool_definition list
     \<Rightarrow> (anyhow_error, route_entry) result" where
  "select_route lower self ms tools =
     (case find (route_matches lower ms tools) (rp_routes self) of
        Some e \<Rightarrow> Inr e
      | None \<Rightarrow> if rp_routes self = [] then Inl no_routes_error else Inr (last (rp_routes self)))"

section \<open>Cooldowns and errors\<close>

definition read_clock :: "route_env \<Rightarrow> route_world \<Rightarrow> route_world \<times> instant" where
  "read_clock env w = (w\<lparr>rt_reads := Suc (rt_reads w)\<rparr>, rv_clock env (rt_reads w))"

definition is_on_cooldown :: "route_env \<Rightarrow> bytes \<Rightarrow> route_world \<Rightarrow> route_world \<times> bool" where
  "is_on_cooldown env k w = (case map_of (rt_cooldowns w) k of
       None \<Rightarrow> (w, False)
     | Some expiry \<Rightarrow> (let (w1, now) = read_clock env w in (w1, now < expiry)))"

definition set_cooldown :: "route_env \<Rightarrow> bytes \<Rightarrow> duration \<Rightarrow> route_world \<Rightarrow> route_world" where
  "set_cooldown env k d w =
     (let (w1, now) = read_clock env w
      in w1\<lparr>rt_cooldowns := al_insert k (now + d) (rt_cooldowns w1)\<rparr>)"

definition record_llm_timeout :: "route_env \<Rightarrow> llm_call_error \<Rightarrow> route_world \<Rightarrow> route_world" where
  "record_llm_timeout env e w =
     (if \<not> rv_metrics env then w
      else case e of
             ConnectTimeout p _ \<Rightarrow> w\<lparr>rt_timeouts := rt_timeouts w @ [(p, ''connect'')]\<rparr>
           | RequestTimeout p _ \<Rightarrow> w\<lparr>rt_timeouts := rt_timeouts w @ [(p, ''request'')]\<rparr>
           | InactivityTimeout p _ _ \<Rightarrow> w\<lparr>rt_timeouts := rt_timeouts w @ [(p, ''inactivity'')]\<rparr>
           | MaxDurationExceeded p _ _ \<Rightarrow> w\<lparr>rt_timeouts := rt_timeouts w @ [(p, ''max_duration'')]\<rparr>
           | _ \<Rightarrow> w)"

definition failover_reason :: "llm_call_error \<Rightarrow> bytes" where
  "failover_reason e = (case e of
       ConnectTimeout _ _ \<Rightarrow> ''connect_timeout''
     | RequestTimeout _ _ \<Rightarrow> ''request_timeout''
     | InactivityTimeout _ _ _ \<Rightarrow> ''inactivity''
     | Server5xx _ _ \<Rightarrow> ''5xx''
     | Network _ \<Rightarrow> ''network''
     | SchemaError _ _ _ \<Rightarrow> ''schema_pre_stream''
     | _ \<Rightarrow> ''typed_other'')"

definition is_auth_error :: "llm_call_error \<Rightarrow> bool" where
  "is_auth_error e \<longleftrightarrow> (case e of AuthError _ _ \<Rightarrow> True | _ \<Rightarrow> False)"

definition auth_cooldown :: "duration \<Rightarrow> duration" where
  "auth_cooldown route_cooldown = from_secs (max (as_secs route_cooldown) 300)"

definition handle_provider_error ::
  "route_env \<Rightarrow> anyhow_error \<Rightarrow> bytes \<Rightarrow> duration \<Rightarrow> route_world \<Rightarrow> route_world \<times> bytes option" where
  "handle_provider_error env e k route_cooldown w =
     (case downcast e of
        Some t \<Rightarrow>
          (let w1 = record_llm_timeout env t w
           in if \<not> is_failover_worthy t
              then (if is_auth_error t then set_cooldown env k (auth_cooldown route_cooldown) w1 else w1, None)
              else (set_cooldown env k
                      (if is_auth_error t then auth_cooldown route_cooldown else max route_cooldown (from_secs 1)) w1,
                    Some (failover_reason t)))
      | None \<Rightarrow>
          (let cd = min (cooldown_duration (classify (rv_is_match env) e)) route_cooldown
           in (if cd \<noteq> 0 then set_cooldown env k cd w else w, Some ''untyped'')))"

definition record_failover :: "route_env \<Rightarrow> bytes \<Rightarrow> bytes \<Rightarrow> bytes \<Rightarrow> route_world \<Rightarrow> route_world" where
  "record_failover env from_key to_key reason w =
     (if rv_metrics env then w\<lparr>rt_failovers := rt_failovers w @ [(from_key, to_key, reason)]\<rparr> else w)"

fun available_fallbacks ::
  "route_env \<Rightarrow> bytes \<Rightarrow> route_entry list \<Rightarrow> route_world \<Rightarrow> route_world \<times> route_entry list" where
  "available_fallbacks env exclude_key [] w = (w, [])"
| "available_fallbacks env exclude_key (e # es) w =
     (if re_key e = exclude_key then available_fallbacks env exclude_key es w
      else let (w1, cold) = is_on_cooldown env (re_key e) w;
               (w2, fbs) = available_fallbacks env exclude_key es w1
           in (w2, if cold then fbs else e # fbs))"

section \<open>Calls\<close>

definition unconfigured_error :: "bytes \<Rightarrow> anyhow_error" where
  "unconfigured_error reason = Typed (AuthError (''unconfigured ('' @ reason @ '')'') 503)"

definition provider_chat ::
  "route_env \<Rightarrow> message list \<Rightarrow> tool_definition list \<Rightarrow> route_world \<Rightarrow> route_entry \<Rightarrow> route_world \<times> answer" where
  "provider_chat env ms tools w e =
     (w\<lparr>rt_called := rt_called w @ [e]\<rparr>,
      case re_provider e of
        Unconfigured reason \<Rightarrow> Inl (unconfigured_error reason)
      | p \<Rightarrow> rv_chat env (length (rt_called w)) p ms tools)"

text \<open>The default \<open>chat_stream\<close> of the provider trait, which the command line providers use.\<close>

definition default_chunks :: "answer \<Rightarrow> bytes list" where
  "default_chunks r = (case r of
       Inr resp \<Rightarrow>
         if lr_tool_calls resp = [] \<and> strip_thinking (lr_content resp) \<noteq> []
         then [strip_thinking (lr_content resp)] else []
     | Inl _ \<Rightarrow> [])"

definition provider_stream_outcome ::
  "route_env \<Rightarrow> message list \<Rightarrow> tool_definition list \<Rightarrow> nat \<Rightarrow> llm_provider \<Rightarrow> bytes list \<times> answer" where
  "provider_stream_outcome env ms tools n p = (case p of
       Unconfigured reason \<Rightarrow> ([], Inl (unconfigured_error reason))
     | CliProvider _ \<Rightarrow> (let r = rv_chat env n p ms tools in (default_chunks r, r))
     | _ \<Rightarrow> rv_stream env n p ms tools)"

definition provider_chat_stream ::
  "route_env \<Rightarrow> message list \<Rightarrow> tool_definition list \<Rightarrow> route_world \<Rightarrow> route_entry
     \<Rightarrow> route_world \<times> bytes list \<times> answer" where
  "provider_chat_stream env ms tools w e =
     (let (chunks, r) = provider_stream_outcome env ms tools (length (rt_called w)) (re_provider e)
      in (w\<lparr>rt_called := rt_called w @ [e], rt_sent := rt_sent w @ chunks\<rparr>, chunks, r))"

definition fallback_notice :: "bytes \<Rightarrow> bytes \<Rightarrow> bool \<Rightarrow> bytes" where
  "fallback_notice primary fb skipped =
     utf8 [0xE2, 0x86, 0xAA, 0xEF, 0xB8, 0x8F] @ '' '' @ primary @ '' '' @ utf8 [0xE2, 0x86, 0x92] @ '' '' @ fb
     @ '' ('' @ (if skipped then ''cooldown'' else ''primary_failed'') @ '')''"

text \<open>The loop over the fallbacks; \<open>None\<close>: it ended without an answer.\<close>

fun fallback_loop ::
  "route_env \<Rightarrow> (route_world \<Rightarrow> route_entry \<Rightarrow> route_world \<times> answer) \<Rightarrow> 32 word \<Rightarrow> bytes \<Rightarrow> bool
     \<Rightarrow> nat \<Rightarrow> route_entry list \<Rightarrow> bytes \<Rightarrow> bytes option \<Rightarrow> route_world \<Rightarrow> route_world \<times> answer option" where
  "fallback_loop env call cap display skipped idx [] last_failed pending w = (w, None)"
| "fallback_loop env call cap display skipped idx (fb # fbs) last_failed pending w =
     (if cap \<le> of_nat idx then (w, None)
      else let w1 = (case pending of Some reason \<Rightarrow> record_failover env last_failed (re_key fb) reason w | None \<Rightarrow> w);
               (w2, r) = call w1 fb
           in case r of
                Inr resp \<Rightarrow>
                  (w2, Some (Inr (resp\<lparr>lr_fallback_notice :=
                     Some (fallback_notice display (provider_name (re_provider fb)) skipped)\<rparr>)))
              | Inl e \<Rightarrow>
                  (case handle_provider_error env e (re_key fb) (re_cooldown_duration fb) w2 of
                     (w3, None) \<Rightarrow> (w3, Some (Inl e))
                   | (w3, Some reason) \<Rightarrow>
                       fallback_loop env call cap display skipped (Suc idx) fbs (re_key fb) (Some reason) w3))"

definition try_fallbacks ::
  "route_env \<Rightarrow> (route_world \<Rightarrow> route_entry \<Rightarrow> route_world \<times> answer) \<Rightarrow> routing_provider \<Rightarrow> route_entry \<Rightarrow> bool
     \<Rightarrow> bytes \<Rightarrow> bytes \<Rightarrow> route_world \<Rightarrow> route_world \<times> answer" where
  "try_fallbacks env call self primary skipped reason failure w =
     (let (w1, fbs) = available_fallbacks env (re_key primary) (rp_routes self) w;
          (w2, r) = fallback_loop env call (rp_max_failover_attempts self)
                      (provider_name (re_provider primary)) skipped 0 fbs (re_key primary) (Some reason) w1
      in (w2, case r of Some a \<Rightarrow> a | None \<Rightarrow> Inl (Untyped failure)))"

definition routing_chat ::
  "route_env \<Rightarrow> routing_provider \<Rightarrow> message list \<Rightarrow> tool_definition list \<Rightarrow> route_world \<Rightarrow> route_world \<times> answer" where
  "routing_chat env self ms tools w =
     (case select_route (rv_lower env) self ms tools of
        Inl e \<Rightarrow> (w, Inl e)
      | Inr primary \<Rightarrow>
          (let (w1, primary_skipped) = is_on_cooldown env (re_key primary) w;
               failure = ''all providers failed (including fallbacks)''
           in if primary_skipped
              then try_fallbacks env (provider_chat env ms tools) self primary True ''cooldown'' failure w1
              else (case provider_chat env ms tools w1 primary of
                      (w2, Inr resp) \<Rightarrow> (w2, Inr resp)
                    | (w2, Inl e) \<Rightarrow>
                        (case handle_provider_error env e (re_key primary) (re_cooldown_duration primary) w2 of
                           (w3, None) \<Rightarrow> (w3, Inl e)
                         | (w3, Some reason) \<Rightarrow>
                             try_fallbacks env (provider_chat env ms tools) self primary False reason failure w3))))"

definition stream_answer ::
  "route_env \<Rightarrow> message list \<Rightarrow> tool_definition list \<Rightarrow> route_world \<Rightarrow> route_entry \<Rightarrow> route_world \<times> answer" where
  "stream_answer env ms tools w e = (let (w1, _, r) = provider_chat_stream env ms tools w e in (w1, r))"

definition routing_chat_stream ::
  "route_env \<Rightarrow> routing_provider \<Rightarrow> message list \<Rightarrow> tool_definition list \<Rightarrow> route_world \<Rightarrow> route_world \<times> answer" where
  "routing_chat_stream env self ms tools w =
     (case select_route (rv_lower env) self ms tools of
        Inl e \<Rightarrow> (w, Inl e)
      | Inr primary \<Rightarrow>
          (let (w1, primary_skipped) = is_on_cooldown env (re_key primary) w;
               failure = ''all streaming providers failed (including fallbacks)''
           in if primary_skipped
              then try_fallbacks env (stream_answer env ms tools) self primary True ''cooldown'' failure w1
              else (case provider_chat_stream env ms tools w1 primary of
                      (w2, _, Inr resp) \<Rightarrow> (w2, Inr resp)
                    | (w2, chunks, Inl e) \<Rightarrow>
                        (case handle_provider_error env e (re_key primary) (re_cooldown_duration primary) w2 of
                           (w3, reason) \<Rightarrow>
                             if chunks \<noteq> [] then (w3, Inl e)
                             else (case reason of
                                     None \<Rightarrow> (w3, Inl e)
                                   | Some reason \<Rightarrow>
                                       try_fallbacks env (stream_answer env ms tools) self primary False reason failure w3)))))"

definition routing_set_model_override :: "bytes option \<Rightarrow> routing_provider \<Rightarrow> routing_provider" where
  "routing_set_model_override m self =
     self\<lparr>rp_routes := map (\<lambda>e. e\<lparr>re_provider := set_model_override m (re_provider e)\<rparr>) (rp_routes self)\<rparr>"

definition routing_current_model :: "routing_provider \<Rightarrow> bytes" where
  "routing_current_model self =
     (case rp_routes self of [] \<Rightarrow> ''unknown'' | e # _ \<Rightarrow> current_model (re_provider e))"

text \<open>The router does not override the two queries of the trait: their defaults apply whatever its
  routes say.\<close>

definition routing_run_max_duration_secs :: "routing_provider \<Rightarrow> nat" where
  "routing_run_max_duration_secs self = 0"

definition routing_supports_prefill :: "routing_provider \<Rightarrow> bool" where
  "routing_supports_prefill self = False"

end
