(* ===== verification/Routing_Facts.thy ===== *)
theory Routing_Facts
  imports Provider_Routing
begin

text \<open>
  Facts about the routing provider. The loop over the fallbacks is the same for calls and for
  streams: its properties are proved once in the locale \<open>provider_call\<close>, which says what a call of
  one route does to the world, and hold for both through its two interpretations. The specification
  of failover is \<open>first_decisive\<close>: the first attempt whose answer is not an error to fail over.
\<close>

section \<open>Route choice\<close>

lemma select_route_cases:
  "select_route lower self ms tools = Inr e
     \<longleftrightarrow> find (route_matches lower ms tools) (rp_routes self) = Some e
       \<or> (find (route_matches lower ms tools) (rp_routes self) = None \<and> rp_routes self \<noteq> []
          \<and> e = last (rp_routes self))"
  by (auto simp: select_route_def split: option.splits)

lemma select_route_mem: "select_route lower self ms tools = Inr e \<Longrightarrow> e \<in> set (rp_routes self)"
  by (auto simp: select_route_cases find_Some_iff)

lemma created_nonempty: "rp_routes (create_routing_provider env lookup routes t m cap) \<noteq> []"
  by (simp add: create_routing_provider_def Let_def)

section \<open>Single steps\<close>

definition worthy :: "anyhow_error \<Rightarrow> bool" where
  "worthy e \<longleftrightarrow> (case downcast e of Some t \<Rightarrow> is_failover_worthy t | None \<Rightarrow> True)"

lemma read_clock_simps [simp]:
  "rt_called (fst (read_clock env w)) = rt_called w" "rt_sent (fst (read_clock env w)) = rt_sent w"
  "rt_cooldowns (fst (read_clock env w)) = rt_cooldowns w"
  by (simp_all add: read_clock_def)

lemma set_cooldown_simps [simp]:
  "rt_called (set_cooldown env k d w) = rt_called w" "rt_sent (set_cooldown env k d w) = rt_sent w"
  by (simp_all add: set_cooldown_def read_clock_def)

lemma is_on_cooldown_simps [simp]:
  "rt_called (fst (is_on_cooldown env k w)) = rt_called w"
  "rt_sent (fst (is_on_cooldown env k w)) = rt_sent w"
  "rt_cooldowns (fst (is_on_cooldown env k w)) = rt_cooldowns w"
  by (simp_all add: is_on_cooldown_def read_clock_def split: option.split)

lemma record_llm_timeout_simps [simp]:
  "rt_called (record_llm_timeout env e w) = rt_called w" "rt_sent (record_llm_timeout env e w) = rt_sent w"
  "rt_cooldowns (record_llm_timeout env e w) = rt_cooldowns w" "rt_reads (record_llm_timeout env e w) = rt_reads w"
  by (auto simp: record_llm_timeout_def split: llm_call_error.split)

lemma record_failover_simps [simp]:
  "rt_called (record_failover env f t r w) = rt_called w" "rt_sent (record_failover env f t r w) = rt_sent w"
  "rt_cooldowns (record_failover env f t r w) = rt_cooldowns w"
  by (simp_all add: record_failover_def)

lemma handle_provider_error_simps [simp]:
  "rt_called (fst (handle_provider_error env e k d w)) = rt_called w"
  "rt_sent (fst (handle_provider_error env e k d w)) = rt_sent w"
  by (simp_all add: handle_provider_error_def Let_def split: option.split)

lemma handle_provider_error_worthy:
  "snd (handle_provider_error env e k d w) = None \<longleftrightarrow> \<not> worthy e"
  by (simp add: handle_provider_error_def worthy_def Let_def split: option.split)

lemma handle_provider_error_cooldowns:
  "map_of (rt_cooldowns (fst (handle_provider_error env e k d w))) k' =
     (if k' = k then map_of (rt_cooldowns (fst (handle_provider_error env e k d w))) k
      else map_of (rt_cooldowns w) k')"
  by (auto simp: handle_provider_error_def set_cooldown_def read_clock_def Let_def split: option.split)

lemma available_fallbacks_simps [simp]:
  "rt_called (fst (available_fallbacks env k es w)) = rt_called w"
  "rt_sent (fst (available_fallbacks env k es w)) = rt_sent w"
  by (induction env k es w rule: available_fallbacks.induct)
    (auto simp: Let_def split: prod.splits, (metis fst_conv is_on_cooldown_simps)+)

lemma available_fallbacks_set:
  "set (snd (available_fallbacks env k es w)) \<subseteq> {e \<in> set es. re_key e \<noteq> k}"
proof (induction es arbitrary: w)
  case (Cons e es)
  obtain w1 cold where c: "is_on_cooldown env (re_key e) w = (w1, cold)"
    by (cases "is_on_cooldown env (re_key e) w")
  show ?case using Cons.IH [of w] Cons.IH [of w1] c by (auto split: prod.splits)
qed simp

lemma available_fallbacks_fresh:
  "(\<forall>e \<in> set es. re_key e \<noteq> k \<longrightarrow> map_of (rt_cooldowns w) (re_key e) = None)
     \<Longrightarrow> available_fallbacks env k es w = (w, filter (\<lambda>e. re_key e \<noteq> k) es)"
  by (induction es) (auto simp: is_on_cooldown_def)

text \<open>A route whose cooldown outlasts every reading of the clock is no fallback.\<close>

lemma available_fallbacks_cold:
  assumes "map_of (rt_cooldowns w) c = Some expiry" and "\<forall>n. rv_clock env n < expiry"
  shows "\<forall>e \<in> set (snd (available_fallbacks env k es w)). re_key e \<noteq> c"
  using assms(1)
proof (induction es arbitrary: w)
  case (Cons e es)
  obtain w1 cold where c: "is_on_cooldown env (re_key e) w = (w1, cold)"
    by (cases "is_on_cooldown env (re_key e) w")
  have w1: "map_of (rt_cooldowns w1) c = Some expiry"
    using Cons.prems c is_on_cooldown_simps(3) [of env "re_key e" w] by simp
  have "re_key e = c \<Longrightarrow> cold"
    using Cons.prems assms(2) c by (auto simp: is_on_cooldown_def read_clock_def)
  then show ?case using Cons.IH [OF w1] Cons.IH [OF Cons.prems] c
    by (auto split: prod.splits)
qed simp

section \<open>The fallback loop\<close>

text \<open>The specification: among attempts numbered from \<open>n\<close>, the first whose answer is not an error
  worth failing over.\<close>

fun first_decisive ::
  "(nat \<Rightarrow> route_entry \<Rightarrow> answer) \<Rightarrow> nat \<Rightarrow> route_entry list \<Rightarrow> (route_entry \<times> answer) option" where
  "first_decisive outcome n [] = None"
| "first_decisive outcome n (e # es) =
     (case outcome n e of
        Inl err \<Rightarrow> if worthy err then first_decisive outcome (Suc n) es else Some (e, Inl err)
      | Inr resp \<Rightarrow> Some (e, Inr resp))"

definition with_notice :: "bytes \<Rightarrow> bool \<Rightarrow> route_entry \<times> answer \<Rightarrow> answer" where
  "with_notice display skipped a = (case snd a of
       Inl e \<Rightarrow> Inl e
     | Inr resp \<Rightarrow> Inr (resp\<lparr>lr_fallback_notice :=
         Some (fallback_notice display (provider_name (re_provider (fst a))) skipped)\<rparr>))"

lemma cap_reached: "idx \<le> unat cap \<Longrightarrow> (cap :: 32 word) \<le> of_nat idx \<longleftrightarrow> idx = unat cap"
proof -
  assume le: "idx \<le> unat cap"
  have "unat cap < 2 ^ 32" using unsigned_less [of cap] by simp
  then have "unat (of_nat idx :: 32 word) = idx"
    using le by (simp add: unsigned_of_nat take_bit_nat_eq_self)
  then show ?thesis using le by (auto simp: word_le_nat_alt)
qed

locale provider_call =
  fixes call :: "route_world \<Rightarrow> route_entry \<Rightarrow> route_world \<times> answer"
    and outcome :: "nat \<Rightarrow> route_entry \<Rightarrow> answer"
  assumes call_called: "rt_called (fst (call w e)) = rt_called w @ [e]"
    and call_answer: "snd (call w e) = outcome (length (rt_called w)) e"
    and call_cooldowns: "rt_cooldowns (fst (call w e)) = rt_cooldowns w"
begin

text \<open>One round of the loop, with the world before the call abbreviated.\<close>

lemma loop_round:
  assumes "call (case pending of Some reason \<Rightarrow> record_failover env last_failed (re_key fb) reason w | None \<Rightarrow> w) fb = (w2, r)"
  shows "rt_called w2 = rt_called w @ [fb]" and "r = outcome (length (rt_called w)) fb"
  using assms call_called [of "case pending of Some reason \<Rightarrow> record_failover env last_failed (re_key fb) reason w | None \<Rightarrow> w" fb]
    call_answer [of "case pending of Some reason \<Rightarrow> record_failover env last_failed (re_key fb) reason w | None \<Rightarrow> w" fb]
  by (auto split: option.splits)

lemma loop_called:
  "idx \<le> unat cap
     \<Longrightarrow> \<exists>k \<le> unat cap - idx. rt_called (fst (fallback_loop env call cap display skipped idx fbs last_failed pending w))
           = rt_called w @ take k fbs"
proof (induction fbs arbitrary: idx last_failed pending w)
  case Nil
  then show ?case by (intro exI [of _ 0]) simp
next
  case (Cons fb fbs)
  show ?case
  proof (cases "idx = unat cap")
    case True
    then show ?thesis using cap_reached [OF Cons.prems] by (intro exI [of _ 0]) simp
  next
    case False
    then have idx: "Suc idx \<le> unat cap" and go: "\<not> cap \<le> of_nat idx"
      using Cons.prems cap_reached [OF Cons.prems] by auto
    obtain w2 r where c: "call (case pending of Some reason \<Rightarrow> record_failover env last_failed (re_key fb) reason w | None \<Rightarrow> w) fb = (w2, r)"
      by fastforce
    note w2 = loop_round(1) [OF c]
    show ?thesis
    proof (cases r)
      case (Inr resp)
      then show ?thesis using go c w2 idx by (intro exI [of _ 1]) simp
    next
      case (Inl e)
      obtain w3 reason where h: "handle_provider_error env e (re_key fb) (re_cooldown_duration fb) w2 = (w3, reason)"
        by fastforce
      have w3: "rt_called w3 = rt_called w @ [fb]"
        using handle_provider_error_simps(1) [of env e "re_key fb" "re_cooldown_duration fb" w2] h w2 by simp
      show ?thesis
      proof (cases reason)
        case None
        then show ?thesis using go c w3 idx Inl h by (intro exI [of _ 1]) simp
      next
        case (Some reason')
        obtain k where "k \<le> unat cap - Suc idx"
          "rt_called (fst (fallback_loop env call cap display skipped (Suc idx) fbs (re_key fb) (Some reason') w3))
             = rt_called w3 @ take k fbs"
          using Cons.IH [OF idx] by blast
        then show ?thesis using go c w3 idx Inl h Some by (intro exI [of _ "Suc k"]) simp
      qed
    qed
  qed
qed

lemma loop_answer:
  "idx \<le> unat cap
     \<Longrightarrow> snd (fallback_loop env call cap display skipped idx fbs last_failed pending w)
         = map_option (with_notice display skipped)
             (first_decisive outcome (length (rt_called w)) (take (unat cap - idx) fbs))"
proof (induction fbs arbitrary: idx last_failed pending w)
  case (Cons fb fbs)
  show ?case
  proof (cases "idx = unat cap")
    case True
    then show ?thesis using cap_reached [OF Cons.prems] by simp
  next
    case False
    then have idx: "Suc idx \<le> unat cap" and go: "\<not> cap \<le> of_nat idx"
      using Cons.prems cap_reached [OF Cons.prems] by auto
    have rest: "unat cap - idx = Suc (unat cap - Suc idx)" using idx by simp
    obtain w2 r where c: "call (case pending of Some reason \<Rightarrow> record_failover env last_failed (re_key fb) reason w | None \<Rightarrow> w) fb = (w2, r)"
      by fastforce
    note w2 = loop_round [OF c]
    show ?thesis
    proof (cases r)
      case (Inr resp)
      then have "outcome (length (rt_called w)) fb = Inr resp" using w2(2) by simp
      then show ?thesis using go c Inr rest by (simp add: with_notice_def)
    next
      case (Inl e)
      obtain w3 reason where h: "handle_provider_error env e (re_key fb) (re_cooldown_duration fb) w2 = (w3, reason)"
        by fastforce
      have w3: "length (rt_called w3) = Suc (length (rt_called w))"
        using handle_provider_error_simps(1) [of env e "re_key fb" "re_cooldown_duration fb" w2] h w2 by simp
      have out: "outcome (length (rt_called w)) fb = Inl e" using w2(2) Inl by simp
      have reason: "reason = None \<longleftrightarrow> \<not> worthy e"
        using handle_provider_error_worthy [of env e "re_key fb" "re_cooldown_duration fb" w2] h by simp
      show ?thesis
      proof (cases reason)
        case None
        then show ?thesis using go c out Inl h reason rest by (simp add: with_notice_def)
      next
        case (Some reason')
        then show ?thesis using go c out Inl h reason rest w3 Cons.IH [OF idx, of "re_key fb" "Some reason'" w3]
          by simp
      qed
    qed
  qed
qed simp

lemma try_fallbacks_called:
  "\<exists>cs. rt_called (fst (try_fallbacks env call self primary skipped reason failure w)) = rt_called w @ cs
     \<and> length cs \<le> unat (rp_max_failover_attempts self)
     \<and> set cs \<subseteq> set (snd (available_fallbacks env (re_key primary) (rp_routes self) w))"
proof -
  obtain w1 fbs where a: "available_fallbacks env (re_key primary) (rp_routes self) w = (w1, fbs)" by fastforce
  have w1: "rt_called w1 = rt_called w"
    using available_fallbacks_simps(1) [of env "re_key primary" "rp_routes self" w] a by simp
  obtain k where "k \<le> unat (rp_max_failover_attempts self)"
    "rt_called (fst (fallback_loop env call (rp_max_failover_attempts self) (provider_name (re_provider primary))
        skipped 0 fbs (re_key primary) (Some reason) w1)) = rt_called w1 @ take k fbs"
    using loop_called [of 0 "rp_max_failover_attempts self" env "provider_name (re_provider primary)" skipped fbs
        "re_key primary" "Some reason" w1] by auto
  then show ?thesis using a w1 by (intro exI [of _ "take k fbs"])
      (auto simp: try_fallbacks_def split: prod.splits dest: in_set_takeD)
qed

lemma try_fallbacks_answer:
  "snd (try_fallbacks env call self primary skipped reason failure w) =
     (case first_decisive outcome (length (rt_called w))
        (take (unat (rp_max_failover_attempts self))
          (snd (available_fallbacks env (re_key primary) (rp_routes self) w))) of
        Some a \<Rightarrow> with_notice (provider_name (re_provider primary)) skipped a
      | None \<Rightarrow> Inl (Untyped failure))"
proof -
  obtain w1 fbs where a: "available_fallbacks env (re_key primary) (rp_routes self) w = (w1, fbs)" by fastforce
  have w1: "rt_called w1 = rt_called w"
    using available_fallbacks_simps(1) [of env "re_key primary" "rp_routes self" w] a by simp
  show ?thesis
    using a w1 loop_answer [of 0 "rp_max_failover_attempts self" env "provider_name (re_provider primary)" skipped fbs
        "re_key primary" "Some reason" w1]
    by (auto simp: try_fallbacks_def split: prod.splits option.splits)
qed

end

text \<open>The two kinds of calls.\<close>

definition chat_outcome ::
  "route_env \<Rightarrow> message list \<Rightarrow> tool_definition list \<Rightarrow> nat \<Rightarrow> route_entry \<Rightarrow> answer" where
  "chat_outcome env ms tools n e = (case re_provider e of
       Unconfigured reason \<Rightarrow> Inl (unconfigured_error reason)
     | p \<Rightarrow> rv_chat env n p ms tools)"

definition stream_outcome ::
  "route_env \<Rightarrow> message list \<Rightarrow> tool_definition list \<Rightarrow> nat \<Rightarrow> route_entry \<Rightarrow> answer" where
  "stream_outcome env ms tools n e = snd (provider_stream_outcome env ms tools n (re_provider e))"

interpretation chat_call: provider_call "provider_chat env ms tools" "chat_outcome env ms tools" for env ms tools
  by unfold_locales (simp_all add: provider_chat_def chat_outcome_def)

interpretation stream_call: provider_call "stream_answer env ms tools" "stream_outcome env ms tools" for env ms tools
  by unfold_locales
    (simp_all add: stream_answer_def provider_chat_stream_def stream_outcome_def split: prod.splits)

section \<open>Failover of calls\<close>

lemma fresh_not_cold: "rt_cooldowns w = [] \<Longrightarrow> is_on_cooldown env k w = (w, False)"
  by (simp add: is_on_cooldown_def)

lemma handled_primary_fallbacks:
  assumes "rt_cooldowns w = []"
  shows "snd (available_fallbacks env k es (fst (handle_provider_error env e k d w))) = filter (\<lambda>e. re_key e \<noteq> k) es"
proof -
  have "\<forall>r \<in> set es. re_key r \<noteq> k \<longrightarrow> map_of (rt_cooldowns (fst (handle_provider_error env e k d w))) (re_key r) = None"
    using assms handle_provider_error_cooldowns [of env e k d w] by simp
  then show ?thesis by (simp add: available_fallbacks_fresh)
qed

lemma provider_chat_eq:
  "provider_chat env ms tools w e = (w\<lparr>rt_called := rt_called w @ [e]\<rparr>, chat_outcome env ms tools (length (rt_called w)) e)"
  by (simp add: provider_chat_def chat_outcome_def)

text \<open>C6: Failover without cooldowns is exactly this: the primary route is the first whose condition
  matches, or the last route; its answer or its error that is not worth failing over is the result;
  otherwise the fallbacks are all routes with another key, in the order of the configuration, of which
  the first \<open>max_failover_attempts\<close> are tried until one answers or fails with such an error; if none
  does, the call fails.\<close>

theorem routing_chat_first_decisive:
  assumes "rt_cooldowns w = []" and "select_route (rv_lower env) self ms tools = Inr primary"
  shows "snd (routing_chat env self ms tools w) =
    (case first_decisive (chat_outcome env ms tools) (length (rt_called w)) [primary] of
       Some a \<Rightarrow> snd a
     | None \<Rightarrow>
         (case first_decisive (chat_outcome env ms tools) (Suc (length (rt_called w)))
            (take (unat (rp_max_failover_attempts self))
              (filter (\<lambda>e. re_key e \<noteq> re_key primary) (rp_routes self))) of
            Some a \<Rightarrow> with_notice (provider_name (re_provider primary)) False a
          | None \<Rightarrow> Inl (Untyped ''all providers failed (including fallbacks)'')))"
proof (cases "chat_outcome env ms tools (length (rt_called w)) primary")
  case (Inr resp)
  then show ?thesis
    using assms by (simp add: routing_chat_def fresh_not_cold provider_chat_eq)
next
  case (Inl e)
  let ?w2 = "w\<lparr>rt_called := rt_called w @ [primary]\<rparr>"
  obtain w3 reason where h: "handle_provider_error env e (re_key primary) (re_cooldown_duration primary) ?w2 = (w3, reason)"
    by fastforce
  have reason: "reason = None \<longleftrightarrow> \<not> worthy e"
    using handle_provider_error_worthy [of env e "re_key primary" "re_cooldown_duration primary" ?w2] h by simp
  have w3: "length (rt_called w3) = Suc (length (rt_called w))"
    using handle_provider_error_simps(1) [of env e "re_key primary" "re_cooldown_duration primary" ?w2] h by simp
  have fbs: "snd (available_fallbacks env (re_key primary) (rp_routes self) w3)
      = filter (\<lambda>e. re_key e \<noteq> re_key primary) (rp_routes self)"
    using handled_primary_fallbacks [of ?w2 env "re_key primary" "rp_routes self" e "re_cooldown_duration primary"] h assms(1)
    by simp
  show ?thesis
  proof (cases reason)
    case None
    then show ?thesis
      using assms Inl h reason by (simp add: routing_chat_def fresh_not_cold provider_chat_eq)
  next
    case (Some r)
    then show ?thesis
      using assms Inl h reason w3 fbs
      by (simp add: routing_chat_def fresh_not_cold provider_chat_eq Let_def chat_call.try_fallbacks_answer)
  qed
qed

definition demo_http :: "bytes \<Rightarrow> llm_provider" where
  "demo_http n = OpenAiCompatible
     \<lparr>oa_provider_name = n, oa_client = \<lparr>hc_connect_timeout = 0, hc_timeout = None\<rparr>,
      oa_streaming_client = \<lparr>hc_connect_timeout = 0, hc_timeout = None\<rparr>, oa_url = [], oa_base_url_env = None,
      oa_url_suffix = [], oa_api_key_name = [], oa_api_key_names = [], oa_key_counter = 0,
      oa_credential_scope = None, oa_model = model_override_new n, oa_temperature = 0, oa_max_tokens = None,
      oa_timeouts = timeouts_default, oa_max_retries = 3\<rparr>"

definition demo_route :: "bytes \<Rightarrow> bytes \<Rightarrow> route_entry" where
  "demo_route c n =
     \<lparr>re_condition = c, re_key = c @ '':'' @ n, re_provider = demo_http n, re_cooldown_duration = from_secs 60\<rparr>"

definition demo_router :: routing_provider where
  "demo_router =
     \<lparr>rp_routes = [demo_route ''default'' ''p'', demo_route ''fallback'' ''q'', demo_route ''fallback'' ''r''],
      rp_max_failover_attempts = 3\<rparr>"

definition demo_resp :: "bytes \<Rightarrow> llm_response" where
  "demo_resp c =
     \<lparr>lr_content = c, lr_tool_calls = [], lr_usage = None, lr_finish_reason = None, lr_model = None,
      lr_provider = None, lr_fallback_notice = None, lr_tools_used = [], lr_iterations = 0, lr_thinking_blocks = []\<rparr>"

text \<open>Streams: the first call fails at once, the second after some text, the third answers.\<close>

definition demo_route_env :: route_env where
  "demo_route_env =
     \<lparr>rv_clock = (\<lambda>n. n),
      rv_chat = (\<lambda>n p ms tools. if n < 2 then Inl (Typed (Server5xx [] 500)) else Inr (demo_resp ''ok'')),
      rv_stream = (\<lambda>n p ms tools. if n = 0 then ([], Inl (Typed (Server5xx [] 500)))
         else if n = 1 then ([''Once''], Inl (Typed (Network ''cut''))) else ([''ok''], Inr (demo_resp ''ok''))),
      rv_lower = id, rv_is_match = (\<lambda>_ _. False), rv_metrics = False\<rparr>"

definition demo_route_world :: route_world where
  "demo_route_world =
     \<lparr>rt_reads = 0, rt_called = [], rt_cooldowns = [], rt_timeouts = [], rt_failovers = [], rt_sent = []\<rparr>"

lemma demo_select: "select_route (rv_lower demo_route_env) demo_router ms tools = Inr (demo_route ''default'' ''p'')"
  by (simp add: select_route_def demo_router_def demo_route_def route_matches_def Let_def)

theorem routing_chat_first_decisive_witness:
  "snd (routing_chat demo_route_env demo_router [] [] demo_route_world)
     = with_notice ''p'' False (demo_route ''fallback'' ''r'', Inr (demo_resp ''ok''))"
  using routing_chat_first_decisive [OF _ demo_select, of demo_route_world "[]" "[]"]
  by (simp add: demo_route_world_def demo_router_def demo_route_def demo_route_env_def chat_outcome_def demo_http_def
      worthy_def downcast_def is_failover_worthy_def provider_name_def)

section \<open>Bounds\<close>

definition routed_calls :: "routing_provider \<Rightarrow> route_entry \<Rightarrow> route_world \<Rightarrow> route_world \<Rightarrow> bool" where
  "routed_calls self primary w w' \<longleftrightarrow>
     (\<exists>cs. rt_called w' = rt_called w @ cs
        \<and> length cs \<le> Suc (unat (rp_max_failover_attempts self))
        \<and> set cs \<subseteq> set (rp_routes self)
        \<and> length (filter (\<lambda>e. re_key e = re_key primary) cs) \<le> 1)"

lemma routed_callsI:
  assumes "rt_called w' = rt_called w @ p @ cs" and "p = [] \<or> p = [primary]" and "primary \<in> set (rp_routes self)"
    and "length cs \<le> unat (rp_max_failover_attempts self)"
    and "set cs \<subseteq> {e \<in> set (rp_routes self). re_key e \<noteq> re_key primary}"
  shows "routed_calls self primary w w'"
proof -
  have "filter (\<lambda>e. re_key e = re_key primary) cs = []"
    using assms(5) by (auto simp: filter_empty_conv)
  then show ?thesis using assms by (auto simp: routed_calls_def intro!: exI [of _ "p @ cs"])
qed

context provider_call begin

lemma try_fallbacks_routed:
  assumes "rt_called w = rt_called w0 @ p" and "p = [] \<or> p = [primary]" and "primary \<in> set (rp_routes self)"
  shows "routed_calls self primary w0 (fst (try_fallbacks env call self primary skipped reason failure w))"
proof -
  obtain cs where "rt_called (fst (try_fallbacks env call self primary skipped reason failure w)) = rt_called w @ cs"
    "length cs \<le> unat (rp_max_failover_attempts self)"
    "set cs \<subseteq> set (snd (available_fallbacks env (re_key primary) (rp_routes self) w))"
    using try_fallbacks_called by blast
  then show ?thesis
    using assms available_fallbacks_set [of env "re_key primary" "rp_routes self" w]
    by (intro routed_callsI [of _ _ p cs]) auto
qed

end

lemma routed_only_primary:
  "primary \<in> set (rp_routes self) \<Longrightarrow> rt_called w' = rt_called w @ [primary] \<Longrightarrow> routed_calls self primary w w'"
  by (rule routed_callsI [of _ _ "[primary]" "[]"]) auto

lemma routing_chat_routed:
  assumes "select_route (rv_lower env) self ms tools = Inr primary"
  shows "routed_calls self primary w (fst (routing_chat env self ms tools w))"
proof -
  note mem = select_route_mem [OF assms]
  obtain w1 skipped where c: "is_on_cooldown env (re_key primary) w = (w1, skipped)" by fastforce
  have w1: "rt_called w1 = rt_called w" using is_on_cooldown_simps(1) [of env "re_key primary" w] c by simp
  show ?thesis
  proof (cases skipped)
    case True
    then show ?thesis
      using assms c chat_call.try_fallbacks_routed [of w1 w "[]" primary self] w1 mem
      by (simp add: routing_chat_def)
  next
    case False
    let ?w2 = "w1\<lparr>rt_called := rt_called w1 @ [primary]\<rparr>"
    show ?thesis
    proof (cases "chat_outcome env ms tools (length (rt_called w1)) primary")
      case (Inr resp)
      then show ?thesis using assms c False w1 mem
        by (auto simp: routing_chat_def provider_chat_eq intro: routed_only_primary)
    next
      case (Inl e)
      obtain w3 reason where h: "handle_provider_error env e (re_key primary) (re_cooldown_duration primary) ?w2 = (w3, reason)"
        by fastforce
      have w3: "rt_called w3 = rt_called w @ [primary]"
        using arg_cong [OF h, of "\<lambda>x. rt_called (fst x)"] w1 by simp
      show ?thesis
        using assms c False h Inl w3 mem routed_only_primary [OF mem w3]
          chat_call.try_fallbacks_routed [of w3 w "[primary]" primary self]
        by (cases reason) (simp_all add: routing_chat_def provider_chat_eq)
    qed
  qed
qed

lemma provider_chat_stream_eq:
  "provider_chat_stream env ms tools w e =
     (let (chunks, r) = provider_stream_outcome env ms tools (length (rt_called w)) (re_provider e)
      in (w\<lparr>rt_called := rt_called w @ [e], rt_sent := rt_sent w @ chunks\<rparr>, chunks, r))"
  by (simp add: provider_chat_stream_def)

lemma routing_chat_stream_routed:
  assumes "select_route (rv_lower env) self ms tools = Inr primary"
  shows "routed_calls self primary w (fst (routing_chat_stream env self ms tools w))"
proof -
  note mem = select_route_mem [OF assms]
  obtain w1 skipped where c: "is_on_cooldown env (re_key primary) w = (w1, skipped)" by fastforce
  have w1: "rt_called w1 = rt_called w" using is_on_cooldown_simps(1) [of env "re_key primary" w] c by simp
  show ?thesis
  proof (cases skipped)
    case True
    then show ?thesis
      using assms c stream_call.try_fallbacks_routed [of w1 w "[]" primary self] w1 mem
      by (simp add: routing_chat_stream_def)
  next
    case False
    obtain w2 chunks r where p: "provider_chat_stream env ms tools w1 primary = (w2, chunks, r)"
      using prod_cases3 by blast
    have w2: "rt_called w2 = rt_called w @ [primary]"
      using p w1 by (auto simp: provider_chat_stream_eq split: prod.splits)
    show ?thesis
    proof (cases r)
      case (Inr resp)
      then show ?thesis using assms c False p w2 mem
        by (auto simp: routing_chat_stream_def intro: routed_only_primary)
    next
      case (Inl e)
      obtain w3 reason where h: "handle_provider_error env e (re_key primary) (re_cooldown_duration primary) w2 = (w3, reason)"
        by fastforce
      have w3: "rt_called w3 = rt_called w @ [primary]"
        using handle_provider_error_simps(1) [of env e "re_key primary" "re_cooldown_duration primary" w2] h w2 by simp
      show ?thesis
        using assms c False p h Inl w3 mem routed_only_primary [OF mem w3]
          stream_call.try_fallbacks_routed [of w3 w "[primary]" primary self]
        by (cases reason) (auto simp: routing_chat_stream_def)
    qed
  qed
qed

text \<open>C8: A call or a stream of the router calls at most one provider more than the failover limit, each of
  them a configured route, and at most once a route that has the primary's key. In particular a second
  route with the primary's condition and provider type is never tried.\<close>

theorem routing_calls_bounded:
  assumes "select_route (rv_lower env) self ms tools = Inr primary"
  shows "routed_calls self primary w (fst (routing_chat env self ms tools w))
    \<and> routed_calls self primary w (fst (routing_chat_stream env self ms tools w))"
  using routing_chat_routed [OF assms] routing_chat_stream_routed [OF assms] by simp

theorem routing_calls_bounded_witness:
  "routed_calls demo_router (demo_route ''default'' ''p'') demo_route_world
     (fst (routing_chat demo_route_env demo_router [] [] demo_route_world))"
  by (rule conjunct1 [OF routing_calls_bounded [OF demo_select]])

section \<open>Failover of streams\<close>

text \<open>C7: A streamed call whose primary is not in a cooldown. Once the primary has sent anything its
  failure is final: the client gets its chunks and the error, unchanged, and no other provider is
  called, whatever cooldowns the other routes have. (A primary in a cooldown is not called at all; the
  fallbacks of such a call are the next theorem's.)\<close>

theorem stream_no_failover_after_output:
  assumes "select_route (rv_lower env) self ms tools = Inr primary"
    and "\<not> snd (is_on_cooldown env (re_key primary) w)"
    and "provider_stream_outcome env ms tools (length (rt_called w)) (re_provider primary) = (c # cs, Inl e)"
  shows "snd (routing_chat_stream env self ms tools w) = Inl e
    \<and> rt_called (fst (routing_chat_stream env self ms tools w)) = rt_called w @ [primary]
    \<and> rt_sent (fst (routing_chat_stream env self ms tools w)) = rt_sent w @ c # cs"
proof -
  obtain w1 where c: "is_on_cooldown env (re_key primary) w = (w1, False)"
    using assms(2) by (cases "is_on_cooldown env (re_key primary) w") simp
  have w1: "rt_called w1 = rt_called w" "rt_sent w1 = rt_sent w"
    using is_on_cooldown_simps [of env "re_key primary" w] c by simp_all
  let ?w2 = "w1\<lparr>rt_called := rt_called w1 @ [primary], rt_sent := rt_sent w1 @ c # cs\<rparr>"
  obtain w3 reason where h: "handle_provider_error env e (re_key primary) (re_cooldown_duration primary) ?w2 = (w3, reason)"
    by fastforce
  have "rt_called w3 = rt_called w1 @ [primary] \<and> rt_sent w3 = rt_sent w1 @ c # cs"
    using handle_provider_error_simps [of env e "re_key primary" "re_cooldown_duration primary" ?w2] h by simp
  then show ?thesis
    using assms(1,3) c w1 h by (simp add: routing_chat_stream_def provider_chat_stream_eq)
qed

theorem stream_no_failover_after_output_witness:
  "let env = demo_route_env\<lparr>rv_stream := (\<lambda>n p ms tools. ([''Once''], Inl (Typed (Network ''cut''))))\<rparr>;
       w = demo_route_world\<lparr>rt_cooldowns := [(''default:p'', 0), (''fallback:q'', 9)]\<rparr>
   in snd (routing_chat_stream env demo_router [] [] w) = Inl (Typed (Network ''cut''))
    \<and> rt_called (fst (routing_chat_stream env demo_router [] [] w)) = [demo_route ''default'' ''p'']
    \<and> rt_sent (fst (routing_chat_stream env demo_router [] [] w)) = [''Once'']"
  using stream_no_failover_after_output
    [of "demo_route_env\<lparr>rv_stream := (\<lambda>n p ms tools. ([''Once''], Inl (Typed (Network ''cut''))))\<rparr>" demo_router "[]" "[]"
      "demo_route ''default'' ''p''" "demo_route_world\<lparr>rt_cooldowns := [(''default:p'', 0), (''fallback:q'', 9)]\<rparr>"
      "''Once''" "[]" "Typed (Network ''cut'')"]
  by (simp add: Let_def demo_route_world_def provider_stream_outcome_def demo_route_def demo_http_def
      demo_router_def select_route_def route_matches_def is_on_cooldown_def read_clock_def demo_route_env_def)

lemma fallback_loop_stream_fails:
  assumes "\<not> cap \<le> (of_nat idx :: 32 word)" and "rv_metrics env = False"
    and "provider_stream_outcome env ms tools (length (rt_called w)) (re_provider fb) = (chunks, Inl e)" and "worthy e"
  shows "\<exists>w' reason. rt_called w' = rt_called w @ [fb] \<and> rt_sent w' = rt_sent w @ chunks
     \<and> fallback_loop env (stream_answer env ms tools) cap display skipped idx (fb # fbs) last_failed pending w
       = fallback_loop env (stream_answer env ms tools) cap display skipped (Suc idx) fbs (re_key fb) (Some reason) w'"
proof -
  let ?w2 = "w\<lparr>rt_called := rt_called w @ [fb], rt_sent := rt_sent w @ chunks\<rparr>"
  obtain w3 reason where h: "handle_provider_error env e (re_key fb) (re_cooldown_duration fb) ?w2 = (w3, reason)"
    by fastforce
  obtain r where r: "reason = Some r"
    using handle_provider_error_worthy [of env e "re_key fb" "re_cooldown_duration fb" ?w2] h assms(4) by (cases reason) auto
  have "(case pending of None \<Rightarrow> w | Some reason \<Rightarrow> record_failover env last_failed (re_key fb) reason w) = w"
    using assms(2) by (simp add: record_failover_def split: option.split)
  then show ?thesis
    using assms(1,3) h r handle_provider_error_simps [of env e "re_key fb" "re_cooldown_duration fb" ?w2]
    by (intro exI [of _ w3] exI [of _ r]) (simp add: stream_answer_def provider_chat_stream_eq)
qed

lemma fallback_loop_stream_answers:
  assumes "\<not> cap \<le> (of_nat idx :: 32 word)" and "rv_metrics env = False"
    and "provider_stream_outcome env ms tools (length (rt_called w)) (re_provider fb) = (chunks, Inr resp)"
  shows "rt_sent (fst (fallback_loop env (stream_answer env ms tools) cap display skipped idx (fb # fbs) last_failed pending w))
       = rt_sent w @ chunks
     \<and> snd (fallback_loop env (stream_answer env ms tools) cap display skipped idx (fb # fbs) last_failed pending w)
       = Some (with_notice display skipped (fb, Inr resp))"
proof -
  have "(case pending of None \<Rightarrow> w | Some reason \<Rightarrow> record_failover env last_failed (re_key fb) reason w) = w"
    using assms(2) by (simp add: record_failover_def split: option.split)
  then show ?thesis
    using assms(1,3) by (simp add: stream_answer_def provider_chat_stream_eq with_notice_def)
qed

lemma two_fallbacks:
  assumes cap: "2 \<le> unat (cap :: 32 word)" and m: "rv_metrics env = False"
    and f1: "provider_stream_outcome env ms tools (length (rt_called w)) (re_provider fb1) = (chunks1, Inl e)" and "worthy e"
    and f2: "provider_stream_outcome env ms tools (Suc (length (rt_called w))) (re_provider fb2) = (chunks2, Inr resp)"
  shows "rt_sent (fst (fallback_loop env (stream_answer env ms tools) cap display skipped 0 (fb1 # fb2 # fbs) last_failed pending w))
       = rt_sent w @ chunks1 @ chunks2
     \<and> snd (fallback_loop env (stream_answer env ms tools) cap display skipped 0 (fb1 # fb2 # fbs) last_failed pending w)
       = Some (with_notice display skipped (fb2, Inr resp))"
proof -
  have c0: "\<not> cap \<le> (of_nat 0 :: 32 word)" and c1: "\<not> cap \<le> (of_nat (Suc 0) :: 32 word)"
    using cap cap_reached [of 0 cap] cap_reached [of "Suc 0" cap] by auto
  obtain w' reason where w': "rt_called w' = rt_called w @ [fb1]" "rt_sent w' = rt_sent w @ chunks1"
    "fallback_loop env (stream_answer env ms tools) cap display skipped 0 (fb1 # fb2 # fbs) last_failed pending w
       = fallback_loop env (stream_answer env ms tools) cap display skipped (Suc 0) (fb2 # fbs) (re_key fb1) (Some reason) w'"
    using fallback_loop_stream_fails [OF c0 m f1 \<open>worthy e\<close>] by blast
  have "provider_stream_outcome env ms tools (length (rt_called w')) (re_provider fb2) = (chunks2, Inr resp)"
    using f2 w'(1) by simp
  from fallback_loop_stream_answers [OF c1 m this] show ?thesis
    using w'(2) by (simp only: w'(3)) simp
qed

text \<open>The guard that holds for the primary is missing for the fallbacks. When the primary fails before its
  first chunk and a fallback fails in the middle of its text, the next fallback starts again: the client
  receives the beginning of one answer followed by the whole of another, while the returned answer is the
  second alone.\<close>

theorem failed_fallback_output_stays:
  assumes "select_route (rv_lower env) self ms tools = Inr primary"
    and "rt_cooldowns w = []" and "rv_metrics env = False"
    and "2 \<le> unat (rp_max_failover_attempts self)"
    and "filter (\<lambda>e. re_key e \<noteq> re_key primary) (rp_routes self) = fb1 # fb2 # fbs"
    and "provider_stream_outcome env ms tools (length (rt_called w)) (re_provider primary) = ([], Inl e0)" and "worthy e0"
    and "provider_stream_outcome env ms tools (Suc (length (rt_called w))) (re_provider fb1) = (chunks1, Inl e1)" and "worthy e1"
    and "provider_stream_outcome env ms tools (Suc (Suc (length (rt_called w)))) (re_provider fb2) = (chunks2, Inr resp)"
  shows "rt_sent (fst (routing_chat_stream env self ms tools w)) = rt_sent w @ chunks1 @ chunks2
    \<and> snd (routing_chat_stream env self ms tools w)
      = with_notice (provider_name (re_provider primary)) False (fb2, Inr resp)"
proof -
  let ?w2 = "w\<lparr>rt_called := rt_called w @ [primary], rt_sent := rt_sent w @ []\<rparr>"
  obtain w3 reason where h: "handle_provider_error env e0 (re_key primary) (re_cooldown_duration primary) ?w2 = (w3, reason)"
    by fastforce
  obtain r where r: "reason = Some r"
    using handle_provider_error_worthy [of env e0 "re_key primary" "re_cooldown_duration primary" ?w2] h assms(7)
    by (cases reason) auto
  have w3: "rt_called w3 = rt_called w @ [primary]" "rt_sent w3 = rt_sent w"
    using arg_cong [OF h, of "\<lambda>x. rt_called (fst x)"] arg_cong [OF h, of "\<lambda>x. rt_sent (fst x)"] by simp_all
  have "\<forall>e \<in> set (rp_routes self). re_key e \<noteq> re_key primary \<longrightarrow> map_of (rt_cooldowns w3) (re_key e) = None"
    using handle_provider_error_cooldowns [of env e0 "re_key primary" "re_cooldown_duration primary" ?w2] h assms(2) by simp
  then have fbs: "available_fallbacks env (re_key primary) (rp_routes self) w3 = (w3, fb1 # fb2 # fbs)"
    using assms(5) by (simp add: available_fallbacks_fresh)
  have tf: "try_fallbacks env (stream_answer env ms tools) self primary False r failure w3
      = (let (w2, a) = fallback_loop env (stream_answer env ms tools) (rp_max_failover_attempts self)
           (provider_name (re_provider primary)) False 0 (fb1 # fb2 # fbs) (re_key primary) (Some r) w3
         in (w2, case a of Some a \<Rightarrow> a | None \<Rightarrow> Inl (Untyped failure)))" for failure
    by (simp only: try_fallbacks_def fbs Let_def prod.case)
  have call: "routing_chat_stream env self ms tools w
      = try_fallbacks env (stream_answer env ms tools) self primary False r
          ''all streaming providers failed (including fallbacks)'' w3"
    using assms(1,2,6) h r by (simp add: routing_chat_stream_def fresh_not_cold provider_chat_stream_eq Let_def)
  have "length (rt_called w3) = Suc (length (rt_called w))" using w3(1) by simp
  then show ?thesis
    using two_fallbacks [OF assms(4,3), of ms tools w3 fb1 chunks1 e1 fb2 chunks2 resp
        "provider_name (re_provider primary)" False fbs "re_key primary" "Some r"] assms(8,9,10) w3(2)
    by (simp only: call tf) (simp add: case_prod_beta Let_def)
qed

theorem failed_fallback_output_stays_witness:
  "rt_sent (fst (routing_chat_stream demo_route_env demo_router [] [] demo_route_world)) = [''Once'', ''ok'']
   \<and> snd (routing_chat_stream demo_route_env demo_router [] [] demo_route_world)
     = with_notice ''p'' False (demo_route ''fallback'' ''r'', Inr (demo_resp ''ok''))"
  using failed_fallback_output_stays [OF demo_select, of demo_route_world
      "demo_route ''fallback'' ''q''" "demo_route ''fallback'' ''r''" "[]" "[]" "[]" "Typed (Server5xx [] 500)"
      "[''Once'']" "Typed (Network ''cut'')" "[''ok'']" "demo_resp ''ok''"]
  by (simp add: demo_route_world_def demo_router_def demo_route_def demo_route_env_def provider_stream_outcome_def
      demo_http_def worthy_def downcast_def is_failover_worthy_def provider_name_def)

section \<open>Cooldowns\<close>

lemma auth_cooldown_floor: "from_secs 300 \<le> auth_cooldown d"
  by (simp add: auth_cooldown_def)

text \<open>An error of the primary that is not worth failing over, such as a cancellation with partial text,
  reaches the caller unchanged after exactly one call. The cooldown table changes only for an authentication
  error, whose route is then cold for at least 300 seconds from now.\<close>

theorem unworthy_error_bubbles:
  assumes "select_route (rv_lower env) self ms tools = Inr primary" and "rt_cooldowns w = []"
    and "chat_outcome env ms tools (length (rt_called w)) primary = Inl (Typed t)" and "\<not> is_failover_worthy t"
  shows "snd (routing_chat env self ms tools w) = Inl (Typed t)
    \<and> rt_called (fst (routing_chat env self ms tools w)) = rt_called w @ [primary]
    \<and> rt_cooldowns (fst (routing_chat env self ms tools w)) =
       (if is_auth_error t
        then [(re_key primary, rv_clock env (rt_reads w) + auth_cooldown (re_cooldown_duration primary))] else [])
    \<and> from_secs 300 \<le> auth_cooldown (re_cooldown_duration primary)"
  using assms auth_cooldown_floor
  by (simp add: routing_chat_def fresh_not_cold provider_chat_eq handle_provider_error_def downcast_def
      set_cooldown_def read_clock_def)

definition demo_auth_env :: route_env where
  "demo_auth_env = demo_route_env\<lparr>rv_chat := (\<lambda>n p ms tools. Inl (Typed (AuthError ''p'' 401)))\<rparr>"

theorem unworthy_error_bubbles_witness:
  "snd (routing_chat demo_auth_env demo_router [] [] demo_route_world) = Inl (Typed (AuthError ''p'' 401))
   \<and> rt_cooldowns (fst (routing_chat demo_auth_env demo_router [] [] demo_route_world))
     = [(''default:p'', auth_cooldown (from_secs 60))]"
  using unworthy_error_bubbles
    [of demo_auth_env demo_router "[]" "[]" "demo_route ''default'' ''p''" demo_route_world "AuthError ''p'' 401"]
  by (simp add: demo_auth_env_def demo_route_env_def demo_route_world_def chat_outcome_def demo_route_def demo_http_def
      demo_router_def select_route_def route_matches_def is_failover_worthy_def is_auth_error_def)

context provider_call begin

lemma try_fallbacks_cold:
  assumes "map_of (rt_cooldowns w) c = Some expiry" and "\<forall>n. rv_clock env n < expiry"
  shows "\<exists>cs. rt_called (fst (try_fallbacks env call self primary skipped reason failure w)) = rt_called w @ cs
     \<and> (\<forall>e \<in> set cs. re_key e \<noteq> c)"
proof -
  obtain cs where "rt_called (fst (try_fallbacks env call self primary skipped reason failure w)) = rt_called w @ cs"
    "set cs \<subseteq> set (snd (available_fallbacks env (re_key primary) (rp_routes self) w))"
    using try_fallbacks_called by blast
  then show ?thesis
    using available_fallbacks_cold [OF assms, of "re_key primary" "rp_routes self"] by blast
qed

end

text \<open>As long as its cooldown lasts no call of the router reaches a route, neither as the primary nor as a
  fallback.\<close>

theorem cold_route_not_called:
  assumes "map_of (rt_cooldowns w) c = Some expiry" and "\<forall>n. rv_clock env n < expiry"
  shows "\<exists>cs. rt_called (fst (routing_chat env self ms tools w)) = rt_called w @ cs \<and> (\<forall>e \<in> set cs. re_key e \<noteq> c)"
proof (cases "select_route (rv_lower env) self ms tools")
  case (Inl e)
  then show ?thesis by (simp add: routing_chat_def)
next
  case (Inr primary)
  obtain w1 skipped where c: "is_on_cooldown env (re_key primary) w = (w1, skipped)" by fastforce
  have w1: "rt_called w1 = rt_called w" "map_of (rt_cooldowns w1) c = Some expiry"
    using is_on_cooldown_simps [of env "re_key primary" w] c assms(1) by simp_all
  show ?thesis
  proof (cases skipped)
    case True
    then show ?thesis
      using Inr c w1 chat_call.try_fallbacks_cold [OF w1(2) assms(2)] by (simp add: routing_chat_def)
  next
    case False
    then have key: "re_key primary \<noteq> c"
      using c assms by (auto simp: is_on_cooldown_def read_clock_def)
    let ?w2 = "w1\<lparr>rt_called := rt_called w1 @ [primary]\<rparr>"
    show ?thesis
    proof (cases "chat_outcome env ms tools (length (rt_called w1)) primary")
      case (Inr resp)
      then show ?thesis using \<open>select_route _ _ _ _ = _\<close> c False w1 key
        by (intro exI [of _ "[primary]"]) (simp add: routing_chat_def provider_chat_eq)
    next
      case (Inl e)
      obtain w3 reason where h: "handle_provider_error env e (re_key primary) (re_cooldown_duration primary) ?w2 = (w3, reason)"
        by fastforce
      have w3: "rt_called w3 = rt_called w @ [primary]"
        using arg_cong [OF h, of "\<lambda>x. rt_called (fst x)"] w1(1) by simp
      have c3: "map_of (rt_cooldowns w3) c = Some expiry"
        using handle_provider_error_cooldowns [of env e "re_key primary" "re_cooldown_duration primary" ?w2 c] h key w1(2)
        by simp
      show ?thesis
      proof (cases reason)
        case None
        then show ?thesis using \<open>select_route _ _ _ _ = _\<close> c False w3 key h Inl
          by (intro exI [of _ "[primary]"]) (simp add: routing_chat_def provider_chat_eq)
      next
        case (Some r)
        let ?f = "''all providers failed (including fallbacks)''"
        obtain cs where "rt_called (fst (try_fallbacks env (provider_chat env ms tools) self primary False r ?f w3))
            = rt_called w3 @ cs" "\<forall>e \<in> set cs. re_key e \<noteq> c"
          using chat_call.try_fallbacks_cold [OF c3 assms(2)] by blast
        then show ?thesis using \<open>select_route _ _ _ _ = _\<close> c False w3 key h Inl Some
          by (intro exI [of _ "primary # cs"]) (simp add: routing_chat_def provider_chat_eq)
      qed
    qed
  qed
qed

theorem cold_route_not_called_witness:
  "\<exists>cs. rt_called (fst (routing_chat (demo_route_env\<lparr>rv_clock := (\<lambda>_. 0)\<rparr>) demo_router [] []
       (demo_route_world\<lparr>rt_cooldowns := [(''default:p'', 7)]\<rparr>))) = cs \<and> (\<forall>e \<in> set cs. re_key e \<noteq> ''default:p'')"
  using cold_route_not_called [of "demo_route_world\<lparr>rt_cooldowns := [(''default:p'', 7)]\<rparr>" "''default:p''" 7
      "demo_route_env\<lparr>rv_clock := (\<lambda>_. 0)\<rparr>" demo_router "[]" "[]"]
  by (simp add: demo_route_world_def)

section \<open>The sentinel\<close>

lemma sentinel_router:
  assumes "\<forall>r \<in> set routes. route_of env lookup t m r = None"
  shows "create_routing_provider env lookup routes t m cap
     = \<lparr>rp_routes = [sentinel_route], rp_max_failover_attempts = cap\<rparr>"
proof -
  have "List.map_filter (route_of env lookup t m) routes = []"
    using assms by (induction routes) (simp_all add: List.map_filter_def)
  then show ?thesis by (simp add: create_routing_provider_def Let_def)
qed

lemma sentinel_select:
  "select_route lower \<lparr>rp_routes = [sentinel_route], rp_max_failover_attempts = cap\<rparr> ms tools = Inr sentinel_route"
  by (simp add: select_route_def route_matches_def sentinel_route_def)

lemma sentinel_outcome: "chat_outcome env ms tools n sentinel_route = Inl (Typed (AuthError ''unconfigured (no usable routes)'' 503))"
  by (simp add: chat_outcome_def sentinel_route_def unconfigured_error_def)

text \<open>When no configured route is usable, the first call ends with the classified error of the sentinel,
  but the sentinel is then itself on cooldown: the next call within 300 seconds calls nothing and ends
  with the unclassified error that all providers failed.\<close>

theorem sentinel_classified_only_once:
  assumes "\<forall>r \<in> set routes. route_of penv lookup t m r = None"
    and "rt_cooldowns w = []"
    and "rv_clock env (Suc (rt_reads w)) < rv_clock env (rt_reads w) + from_secs 300"
  shows "let self = create_routing_provider penv lookup routes t m cap;
             (w1, r1) = routing_chat env self ms tools w;
             (w2, r2) = routing_chat env self ms tools w1
         in r1 = Inl (Typed (AuthError ''unconfigured (no usable routes)'' 503))
          \<and> r2 = Inl (Untyped ''all providers failed (including fallbacks)'')
          \<and> rt_called w2 = rt_called w @ [sentinel_route]"
proof -
  let ?self = "\<lparr>rp_routes = [sentinel_route], rp_max_failover_attempts = cap\<rparr>"
  let ?exp = "rv_clock env (rt_reads w) + auth_cooldown (re_cooldown_duration sentinel_route)"
  have late: "rv_clock env (Suc (rt_reads w)) < ?exp"
    using assms(3) auth_cooldown_floor [of "re_cooldown_duration sentinel_route"] by simp
  define w1 where "w1 = w\<lparr>rt_called := rt_called w @ [sentinel_route], rt_reads := Suc (rt_reads w),
      rt_cooldowns := [(re_key sentinel_route, ?exp)]\<rparr>"
  have first: "routing_chat env ?self ms tools w
      = (w1, Inl (Typed (AuthError ''unconfigured (no usable routes)'' 503)))"
    using assms(2)
    by (simp add: routing_chat_def sentinel_select fresh_not_cold provider_chat_eq sentinel_outcome handle_provider_error_def
        downcast_def record_llm_timeout_def is_failover_worthy_def is_auth_error_def set_cooldown_def read_clock_def w1_def)
  define w2 where "w2 = w1\<lparr>rt_reads := Suc (Suc (rt_reads w))\<rparr>"
  have second: "routing_chat env ?self ms tools w1
      = (w2, Inl (Untyped ''all providers failed (including fallbacks)''))"
    using late
    by (simp add: routing_chat_def sentinel_select is_on_cooldown_def read_clock_def w1_def w2_def try_fallbacks_def)
  show ?thesis
    by (simp add: sentinel_router [OF assms(1)] first second) (simp add: w1_def w2_def)
qed

theorem sentinel_classified_only_once_witness:
  "\<forall>penv. let self = create_routing_provider penv (\<lambda>_. Inr None) [] 0 None 3;
       (w1, r1) = routing_chat demo_route_env self [] [] demo_route_world;
       (w2, r2) = routing_chat demo_route_env self [] [] w1
   in r1 = Inl (Typed (AuthError ''unconfigured (no usable routes)'' 503))
    \<and> r2 = Inl (Untyped ''all providers failed (including fallbacks)'')
    \<and> rt_called w2 = rt_called demo_route_world @ [sentinel_route]"
proof
  fix penv
  have "rv_clock demo_route_env (Suc (rt_reads demo_route_world))
      < rv_clock demo_route_env (rt_reads demo_route_world) + from_secs 300"
    by (simp add: demo_route_env_def demo_route_world_def from_secs_def nanos_per_sec_def)
  moreover have "rt_cooldowns demo_route_world = []" by (simp add: demo_route_world_def)
  ultimately show "let self = create_routing_provider penv (\<lambda>_. Inr None) [] 0 None 3;
       (w1, r1) = routing_chat demo_route_env self [] [] demo_route_world;
       (w2, r2) = routing_chat demo_route_env self [] [] w1
   in r1 = Inl (Typed (AuthError ''unconfigured (no usable routes)'' 503))
    \<and> r2 = Inl (Untyped ''all providers failed (including fallbacks)'')
    \<and> rt_called w2 = rt_called demo_route_world @ [sentinel_route]"
    by (intro sentinel_classified_only_once) simp_all
qed

end
