(* ===== verification/Http_Retry.thy ===== *)
theory Http_Retry
  imports Provider_Config
begin

text \<open>
  \<open>agent/providers_http.rs\<close> and \<open>agent/providers/cancellable_stream.rs\<close>: the retry loop around an
  HTTP request with its backoff, and the wrapper of a response stream that applies the inactivity
  and duration limits and records why it ended early.

  The server is the environment: its reply to the \<open>n\<close>-th request of the process is an arbitrary
  function of \<open>n\<close>. The jitter is an arbitrary number of milliseconds below 500.
\<close>

section \<open>Backoff\<close>

definition backoff_delay :: "nat \<Rightarrow> nat \<Rightarrow> duration" where
  "backoff_delay jitter_ms attempt = from_millis (min (1000 * 3 ^ attempt) 30000 + jitter_ms)"

section \<open>Requests\<close>

text \<open>A response: its status, its retry-after header, what reading its whole body gives, and its body as a stream, each piece
  with the time that passes before it arrives.\<close>

type_synonym stream_item = "(reqwest_error, bytes) result"

record http_response =
  hs_status :: nat
  hs_retry_after :: "bytes option"
  hs_text :: "(bytes, bytes) result"
  hs_stream :: "(duration \<times> stream_item) list"

datatype send_error = HttpError nat bytes | NetworkError reqwest_error

record http_world =
  hw_requests :: nat
  hw_sleeps :: "duration list"

record http_env =
  hv_send :: "nat \<Rightarrow> (reqwest_error, http_response) result"
  hv_jitter :: "nat \<Rightarrow> nat"

definition is_success :: "nat \<Rightarrow> bool" where
  "is_success status \<longleftrightarrow> 200 \<le> status \<and> status < 300"

definition RETRYABLE_OPENAI :: "nat list" where
  "RETRYABLE_OPENAI = [429, 500, 502, 503]"

definition RETRYABLE_ANTHROPIC :: "nat list" where
  "RETRYABLE_ANTHROPIC = [429, 500, 502, 503, 529]"

definition send_request :: "http_env \<Rightarrow> http_world \<Rightarrow> http_world \<times> (reqwest_error, http_response) result" where
  "send_request env w = (w\<lparr>hw_requests := Suc (hw_requests w)\<rparr>, hv_send env (hw_requests w))"

definition pause :: "duration \<Rightarrow> http_world \<Rightarrow> http_world" where
  "pause d w = w\<lparr>hw_sleeps := hw_sleeps w @ [d]\<rparr>"

definition backoff :: "http_env \<Rightarrow> nat \<Rightarrow> http_world \<Rightarrow> http_world" where
  "backoff env attempt w = pause (backoff_delay (hv_jitter env (length (hw_sleeps w))) attempt) w"

text \<open>The attempts \<open>attempt, \<dots>, max_retries - 1\<close>; \<open>left\<close> counts them. \<open>None\<close>: the loop ended without
  returning, which panics.\<close>

fun send_loop ::
  "http_env \<Rightarrow> nat list \<Rightarrow> nat \<Rightarrow> nat \<Rightarrow> http_world \<Rightarrow> http_world \<times> (send_error, http_response) result option" where
  "send_loop env retryable attempt 0 w = (w, None)"
| "send_loop env retryable attempt (Suc left) w =
     (case send_request env w of
        (w1, Inr resp) \<Rightarrow>
          if is_success (hs_status resp) then (w1, Some (Inr resp))
          else let err_text = (case hs_text resp of Inr t \<Rightarrow> t | Inl _ \<Rightarrow> [])
               in if hs_status resp = 400 \<or> hs_status resp \<notin> set retryable \<or> left = 0
                  then (w1, Some (Inl (HttpError (hs_status resp) err_text)))
                  else send_loop env retryable (Suc attempt) left (backoff env attempt w1)
      | (w1, Inl e) \<Rightarrow>
          if left = 0 then (w1, Some (Inl (NetworkError e)))
          else send_loop env retryable (Suc attempt) left (backoff env attempt w1))"

definition send_with_retry ::
  "http_env \<Rightarrow> nat list \<Rightarrow> nat \<Rightarrow> http_world \<Rightarrow> http_world \<times> (send_error, http_response) result option" where
  "send_with_retry env retryable max_retries w = send_loop env retryable 0 max_retries w"

definition send_error_text :: "bytes \<Rightarrow> send_error \<Rightarrow> bytes" where
  "send_error_text name e = (case e of
       HttpError status b \<Rightarrow> name @ '' API error '' @ show_nat status @ '': '' @ b
     | NetworkError e \<Rightarrow> name @ '' request error: '' @ re_text e)"

definition retry_http_post_once ::
  "http_env \<Rightarrow> bytes \<Rightarrow> nat list \<Rightarrow> nat \<Rightarrow> http_world \<Rightarrow> http_world \<times> (bytes, (bytes, bytes) result) result option" where
  "retry_http_post_once env name retryable max_retries w =
     (case send_with_retry env retryable max_retries w of
        (w1, None) \<Rightarrow> (w1, None)
      | (w1, Some (Inl e)) \<Rightarrow> (w1, Some (Inl (send_error_text name e)))
      | (w1, Some (Inr resp)) \<Rightarrow> (w1, Some (Inr (hs_text resp))))"

definition retry_http_post_custom ::
  "http_env \<Rightarrow> bytes \<Rightarrow> nat list \<Rightarrow> nat \<Rightarrow> http_world \<Rightarrow> http_world \<times> (bytes, bytes) result option" where
  "retry_http_post_custom env name retryable max_retries w =
     (case retry_http_post_once env name retryable max_retries w of
        (w1, None) \<Rightarrow> (w1, None)
      | (w1, Some (Inl e)) \<Rightarrow> (w1, Some (Inl e))
      | (w1, Some (Inr (Inr t))) \<Rightarrow> (w1, Some (Inr t))
      | (w1, Some (Inr (Inl _))) \<Rightarrow>
          (case retry_http_post_once env name retryable max_retries (pause (from_secs 1) w1) of
             (w2, None) \<Rightarrow> (w2, None)
           | (w2, Some (Inl e)) \<Rightarrow> (w2, Some (Inl e))
           | (w2, Some (Inr (Inr t))) \<Rightarrow> (w2, Some (Inr t))
           | (w2, Some (Inr (Inl e))) \<Rightarrow>
               (w2, Some (Inl (name @ '' error reading response body: '' @ e)))))"

section \<open>Cancellable streams\<close>

text \<open>The producer: each item of the inner stream arrives some time after the previous one; after the
  last one the stream ends. \<open>now\<close>: the time since the start; \<open>cancel\<close>: when the token is
  cancelled, if ever. The three branches of the \<open>select!\<close> are tried in the order of the code; an
  inner item that is ready when its timer fires counts. The result: the items forwarded and the
  reason in the slot.\<close>

definition inactivity_fires :: "timeouts_config \<Rightarrow> duration \<Rightarrow> bool" where
  "inactivity_fires t gap \<longleftrightarrow> 0 < stream_inactivity_secs t \<and> from_secs (max (stream_inactivity_secs t) 1) < gap"

definition next_wake :: "timeouts_config \<Rightarrow> duration \<Rightarrow> duration" where
  "next_wake t gap = (if inactivity_fires t gap then from_secs (max (stream_inactivity_secs t) 1) else gap)"

definition past_max_duration :: "timeouts_config \<Rightarrow> instant \<Rightarrow> bool" where
  "past_max_duration t now \<longleftrightarrow> 0 < stream_max_duration_secs t \<and> from_secs (max (stream_max_duration_secs t) 1) \<le> now"

definition cancelled_by :: "instant option \<Rightarrow> instant \<Rightarrow> bool" where
  "cancelled_by cancel now \<longleftrightarrow> (case cancel of None \<Rightarrow> False | Some c \<Rightarrow> c \<le> now)"

definition max_duration_first :: "timeouts_config \<Rightarrow> instant option \<Rightarrow> bool" where
  "max_duration_first t cancel \<longleftrightarrow> (case cancel of
       None \<Rightarrow> True | Some c \<Rightarrow> from_secs (max (stream_max_duration_secs t) 1) < c)"

text \<open>How the select ends that begins at \<open>now\<close> and whose inner future wakes after \<open>gap\<close>.\<close>

definition early_stop :: "timeouts_config \<Rightarrow> instant option \<Rightarrow> instant \<Rightarrow> duration \<Rightarrow> cancel_reason option" where
  "early_stop t cancel now gap =
     (let wake = now + next_wake t gap
      in if past_max_duration t wake \<and> (max_duration_first t cancel \<or> \<not> cancelled_by cancel wake)
         then Some (CR_MaxDurationExceeded (stream_max_duration_secs t))
         else if cancelled_by cancel wake then Some CR_UserCancelled
         else if inactivity_fires t gap then Some (CR_InactivityTimeout (stream_inactivity_secs t))
         else None)"

fun producer ::
  "timeouts_config \<Rightarrow> instant option \<Rightarrow> instant \<Rightarrow> (duration \<times> stream_item) list
     \<Rightarrow> stream_item list \<times> cancel_reason option" where
  "producer t cancel now [] = ([], early_stop t cancel now 0)"
| "producer t cancel now ((gap, item) # items) =
     (case early_stop t cancel now gap of
        Some r \<Rightarrow> ([], Some r)
      | None \<Rightarrow>
          (case item of
             Inl e \<Rightarrow> ([Inl e], None)
           | Inr b \<Rightarrow> (let (rest, r) = producer t cancel (now + gap) items in (Inr b # rest, r))))"

definition stream_with_cancellation ::
  "timeouts_config \<Rightarrow> instant option \<Rightarrow> (duration \<times> stream_item) list \<Rightarrow> stream_item list \<times> cancel_reason option" where
  "stream_with_cancellation t cancel items = producer t cancel 0 items"

section \<open>Facts\<close>

lemma send_request_requests [simp]: "send_request env w = (w', r) \<Longrightarrow> hw_requests w' = Suc (hw_requests w)"
  by (auto simp: send_request_def)

lemma backoff_requests [simp]: "hw_requests (backoff env n w) = hw_requests w"
  by (simp add: backoff_def pause_def)

lemma pause_requests [simp]: "hw_requests (pause d w) = hw_requests w"
  by (simp add: pause_def)

lemma send_loop_requests:
  "hw_requests (fst (send_loop env codes n left w)) \<le> hw_requests w + left"
proof (induction left arbitrary: n w)
  case (Suc left)
  obtain w1 r where r: "send_request env w = (w1, r)" by fastforce
  show ?case
    using Suc.IH [of "Suc n" "backoff env n w1"] r send_request_requests [OF r]
    by (cases r; cases "left = 0") (auto simp: Let_def)
qed simp

lemma send_loop_returns: "0 < left \<Longrightarrow> snd (send_loop env codes n left w) \<noteq> None"
proof (induction left arbitrary: n w)
  case (Suc left)
  obtain w1 r where r: "send_request env w = (w1, r)" by fastforce
  show ?case
    using Suc.IH [of "Suc n" "backoff env n w1"] r by (cases r; cases "left = 0") (auto simp: Let_def)
qed simp

text \<open>C37: With at least one attempt configured a request returns a response or an error, after at most as many
  requests as attempts are configured, and it never reaches the panic behind the loop.\<close>

theorem send_with_retry_returns:
  assumes "0 < max_retries"
  shows "snd (send_with_retry env retryable max_retries w) \<noteq> None
     \<and> hw_requests (fst (send_with_retry env retryable max_retries w)) \<le> hw_requests w + max_retries"
  using send_loop_returns [OF assms] send_loop_requests by (simp add: send_with_retry_def)

theorem send_with_retry_returns_witness:
  "let env = \<lparr>hv_send = (\<lambda>_. Inl \<lparr>re_is_connect = True, re_is_timeout = False, re_status = None, re_text = []\<rparr>),
              hv_jitter = (\<lambda>_. 0)\<rparr>;
       w = \<lparr>hw_requests = 0, hw_sleeps = []\<rparr>
   in snd (send_with_retry env RETRYABLE_OPENAI 3 w) \<noteq> None
     \<and> hw_requests (fst (send_with_retry env RETRYABLE_OPENAI 3 w)) \<le> 3"
  using send_with_retry_returns [of 3
      "\<lparr>hv_send = (\<lambda>_. Inl \<lparr>re_is_connect = True, re_is_timeout = False, re_status = None, re_text = []\<rparr>),
        hv_jitter = (\<lambda>_. 0)\<rparr>" RETRYABLE_OPENAI "\<lparr>hw_requests = 0, hw_sleeps = []\<rparr>"]
  by (simp add: Let_def)

text \<open>What arrives before the duration limit and after no longer silence than the inactivity limit
  allows.\<close>

definition arrives_in_time :: "timeouts_config \<Rightarrow> instant \<Rightarrow> (duration \<times> stream_item) list \<Rightarrow> bool" where
  "arrives_in_time t now items \<longleftrightarrow>
     list_all (\<lambda>(gap, _). \<not> inactivity_fires t gap) items
     \<and> (items = [] \<or> stream_max_duration_secs t = 0
        \<or> now + sum_list (map fst items) < from_secs (stream_max_duration_secs t))"

definition ends_with_error :: "(duration \<times> stream_item) list \<Rightarrow> bool" where
  "ends_with_error items \<longleftrightarrow> items \<noteq> [] \<and> (\<exists>e. snd (last items) = Inl e)"

lemma early_stop_None:
  "early_stop t cancel now gap = None \<Longrightarrow> \<not> inactivity_fires t gap
     \<and> (stream_max_duration_secs t = 0 \<or> now + gap < from_secs (stream_max_duration_secs t))"
  by (cases "stream_max_duration_secs t")
    (auto simp: early_stop_def next_wake_def past_max_duration_def Let_def split: if_splits)

lemma producer_spec:
  "\<exists>k \<le> length items.
     fst (producer t cancel now items) = map snd (take k items)
     \<and> arrives_in_time t now (take k items)
     \<and> (case snd (producer t cancel now items) of
          None \<Rightarrow> k = length items \<or> ends_with_error (take k items) | Some _ \<Rightarrow> True)"
proof (induction items arbitrary: now)
  case Nil
  then show ?case by (simp add: arrives_in_time_def split: option.split)
next
  case (Cons x items)
  obtain gap item where x: "x = (gap, item)" by (cases x)
  show ?case
  proof (cases "early_stop t cancel now gap")
    case (Some r)
    then show ?thesis using x by (intro exI [of _ 0]) (simp add: arrives_in_time_def)
  next
    case None
    note ok = early_stop_None [OF None]
    show ?thesis
    proof (cases item)
      case (Inl e)
      then show ?thesis using None x ok
        by (intro exI [of _ 1]) (auto simp: arrives_in_time_def ends_with_error_def)
    next
      case (Inr b)
      obtain rest r where p: "producer t cancel (now + gap) items = (rest, r)" by fastforce
      obtain k where k: "k \<le> length items" "rest = map snd (take k items)"
        "arrives_in_time t (now + gap) (take k items)"
        "case r of None \<Rightarrow> k = length items \<or> ends_with_error (take k items) | Some _ \<Rightarrow> True"
        using Cons [of "now + gap"] p by auto
      have "arrives_in_time t now ((gap, item) # take k items)"
        using k(3) ok by (auto simp: arrives_in_time_def add.assoc)
      moreover have "ends_with_error (take k items) \<Longrightarrow> ends_with_error ((gap, item) # take k items)"
        by (simp add: ends_with_error_def)
      ultimately show ?thesis using None x Inr p k
        by (intro exI [of _ "Suc k"]) (auto split: option.splits)
    qed
  qed
qed

text \<open>What a provider reads from a response stream is a prefix of what the server sent, every piece of
  which arrived within the duration limit and after a silence within the inactivity limit. A stream that
  ends without a recorded reason forwarded everything, or everything up to the first error.\<close>

theorem cancellable_stream_prefix:
  "\<exists>k \<le> length items.
     fst (stream_with_cancellation t cancel items) = map snd (take k items)
     \<and> arrives_in_time t 0 (take k items)
     \<and> (case snd (stream_with_cancellation t cancel items) of
          None \<Rightarrow> k = length items \<or> ends_with_error (take k items) | Some _ \<Rightarrow> True)"
  unfolding stream_with_cancellation_def by (rule producer_spec)

end
