(* ===== verification/Tool_Call_Text.thy ===== *)
theory Tool_Call_Text
  imports Hyde_Types Text_Codec
begin

text \<open>
  Tool calls in the text of a model: \<open>agent/json_repair.rs\<close> and the MiniMax XML blocks of
  \<open>agent/providers_openai.rs\<close>. The JSON parser and the regular expression for code fences are
  arguments, as are the identifiers the code draws at random.
\<close>

section \<open>JSON repair\<close>

text \<open>The scan for the end of the object that begins at the start of the text: depth, inside a
  string, after a backslash. The result is the position behind the closing brace.\<close>

fun scan_object :: "nat \<Rightarrow> int \<Rightarrow> bool \<Rightarrow> bool \<Rightarrow> bytes \<Rightarrow> nat option" where
  "scan_object i depth in_string escape_next [] = None"
| "scan_object i depth in_string escape_next (c # cs) =
     (if escape_next then scan_object (Suc i) depth in_string False cs
      else if c = CHR 0x5C \<and> in_string then scan_object (Suc i) depth in_string True cs
      else if c = CHR 0x22 then scan_object (Suc i) depth (\<not> in_string) False cs
      else if c = CHR ''{'' \<and> \<not> in_string then scan_object (Suc i) (depth + 1) in_string False cs
      else if c = CHR ''}'' \<and> \<not> in_string then
        (if depth - 1 = 0 then Some (Suc i) else scan_object (Suc i) (depth - 1) in_string False cs)
      else scan_object (Suc i) depth in_string False cs)"

definition extract_json_object :: "bytes \<Rightarrow> bytes" where
  "extract_json_object s = (case find_char s CHR ''{'' of
       None \<Rightarrow> s
     | Some start \<Rightarrow>
         (case scan_object 0 0 False False (drop start s) of
            None \<Rightarrow> s
          | Some n \<Rightarrow> take n (drop start s)))"

text \<open>\<open>replace_all\<close> of a comma, white space and a closing bracket by the bracket.\<close>

function fix_trailing_commas :: "bytes \<Rightarrow> bytes" where
  "fix_trailing_commas [] = []"
| "fix_trailing_commas (c # cs) =
     (let rest = trim_start cs
      in if c = CHR '','' \<and> rest \<noteq> [] \<and> (hd rest = CHR ''}'' \<or> hd rest = CHR '']'')
         then hd rest # fix_trailing_commas (tl rest)
         else c # fix_trailing_commas cs)"
  by pat_completeness auto
termination
proof (relation "measure length")
  fix c :: char and cs rest
  assume "rest = trim_start cs"
  then have "length rest \<le> length cs" using suffix_length_le [OF trim_start_suffix [of cs]] by simp
  then show "(tl rest, c # cs) \<in> measure length" by simp
qed auto

declare fix_trailing_commas.simps(2) [simp del]

definition strip_markdown_fences :: "(bytes \<Rightarrow> bytes option) \<Rightarrow> bytes \<Rightarrow> bytes" where
  "strip_markdown_fences fence s = unwrap_or (fence s) s"

definition repair_json :: "(bytes \<Rightarrow> json option) \<Rightarrow> (bytes \<Rightarrow> bytes option) \<Rightarrow> bytes \<Rightarrow> json option" where
  "repair_json parse fence raw = (case parse raw of
       Some v \<Rightarrow> Some v
     | None \<Rightarrow> parse (fix_trailing_commas (extract_json_object (strip_markdown_fences fence raw))))"

section \<open>MiniMax XML\<close>

definition OPEN :: bytes where
  "OPEN = ''<minimax:tool_call>''"

definition CLOSE :: bytes where
  "CLOSE = ''</minimax:tool_call>''"

definition INV_OPEN :: bytes where
  "INV_OPEN = ''<invoke''"

definition INV_CLOSE :: bytes where
  "INV_CLOSE = ''</invoke>''"

definition PARAM_OPEN :: bytes where
  "PARAM_OPEN = ''<parameter''"

definition PARAM_CLOSE :: bytes where
  "PARAM_CLOSE = ''</parameter>''"

lemmas xml_tags = OPEN_def CLOSE_def INV_OPEN_def INV_CLOSE_def PARAM_OPEN_def PARAM_CLOSE_def

definition xml_extract_attr :: "bytes \<Rightarrow> bytes \<Rightarrow> bytes option" where
  "xml_extract_attr s attr =
     (case str_find s (attr @ [CHR ''='', CHR 0x22]) of
        None \<Rightarrow> None
      | Some p \<Rightarrow>
          (let v = drop (p + length attr + 2) s
           in map_option (\<lambda>end. take end v) (find_char v CHR 0x22)))"

definition digits_value :: "bytes \<Rightarrow> nat option" where
  "digits_value s =
     (if s \<noteq> [] \<and> list_all is_ascii_digit s
      then Some (foldl (\<lambda>n c. 10 * n + (of_char c - 48)) 0 s) else None)"

definition parse_i64 :: "bytes \<Rightarrow> int option" where
  "parse_i64 s =
     (let (neg, ds) = (case s of
            c # cs \<Rightarrow> if c = CHR ''-'' then (True, cs) else if c = CHR ''+'' then (False, cs) else (False, s)
          | [] \<Rightarrow> (False, []))
      in case digits_value ds of
           None \<Rightarrow> None
         | Some n \<Rightarrow>
             (let i = (if neg then - int n else int n)
              in if - (2 ^ 63) \<le> i \<and> i < 2 ^ 63 then Some i else None))"

definition xml_value :: "bytes \<Rightarrow> json" where
  "xml_value raw_val = (case parse_i64 raw_val of
       Some n \<Rightarrow> JInt n
     | None \<Rightarrow>
         if raw_val = ''true'' then JBool True
         else if raw_val = ''false'' then JBool False
         else JString raw_val)"

text \<open>One element \<open><tag name="...">body</tag>\<close>: its name, its body and the text behind it, from the text
  behind the tag's name.\<close>

definition xml_element :: "bytes \<Rightarrow> bytes \<Rightarrow> (bytes \<times> bytes \<times> bytes) option" where
  "xml_element close_tag after_tag =
     (case xml_extract_attr after_tag ''name'' of
        None \<Rightarrow> None
      | Some name \<Rightarrow>
          (case find_char after_tag CHR ''>'' of
             None \<Rightarrow> None
           | Some gt \<Rightarrow>
               (let body_and_rest = drop (gt + 1) after_tag
                in case str_find body_and_rest close_tag of
                     None \<Rightarrow> None
                   | Some p \<Rightarrow> Some (name, take p body_and_rest, drop (p + length close_tag) body_and_rest))))"

lemma xml_element_shorter: "xml_element close_tag s = Some (name, body, rest) \<Longrightarrow> length rest \<le> length s"
  by (auto simp: xml_element_def Let_def split: option.splits)

function parse_xml_parameters :: "bytes \<Rightarrow> json_object \<Rightarrow> json_object" where
  "parse_xml_parameters rest out =
     (case str_find rest PARAM_OPEN of
        None \<Rightarrow> out
      | Some start \<Rightarrow>
          (case xml_element PARAM_CLOSE (drop (start + length PARAM_OPEN) rest) of
             None \<Rightarrow> out
           | Some (name, body, rest') \<Rightarrow>
               parse_xml_parameters rest' (obj_insert name (xml_value (trim body)) out)))"
  by pat_completeness auto
termination
proof (relation "measure (\<lambda>(rest, out). length rest)")
  fix rest :: bytes and out :: json_object and start x name y body rest'
  assume f: "str_find rest PARAM_OPEN = Some start"
    and e: "xml_element PARAM_CLOSE (drop (start + length PARAM_OPEN) rest) = Some x" "(name, y) = x" "(body, rest') = y"
  have "length rest' \<le> length rest - (start + length PARAM_OPEN)"
    using xml_element_shorter [of PARAM_CLOSE "drop (start + length PARAM_OPEN) rest" name body rest'] e by simp
  moreover have "length PARAM_OPEN \<le> length rest"
    using str_find_Some [OF f] by simp
  ultimately show "((rest', obj_insert name (xml_value (trim body)) out), rest, out) \<in> measure (\<lambda>(rest, out). length rest)"
    by (simp add: PARAM_OPEN_def)
qed auto

declare parse_xml_parameters.simps [simp del]

text \<open>\<open>new_id n\<close>: the eight digits drawn for the \<open>n\<close>-th call.\<close>

function parse_xml_invoke_blocks :: "(nat \<Rightarrow> bytes) \<Rightarrow> bytes \<Rightarrow> tool_call list \<Rightarrow> tool_call list" where
  "parse_xml_invoke_blocks new_id rest out =
     (case str_find rest INV_OPEN of
        None \<Rightarrow> out
      | Some start \<Rightarrow>
          (case xml_element INV_CLOSE (drop (start + length INV_OPEN) rest) of
             None \<Rightarrow> out
           | Some (name, body, rest') \<Rightarrow>
               parse_xml_invoke_blocks new_id rest'
                 (out @ [\<lparr>tc_id = ''xml-'' @ new_id (length out), tc_name = name,
                          tc_arguments = JObject (parse_xml_parameters body [])\<rparr>])))"
  by pat_completeness auto
termination
proof (relation "measure (\<lambda>(new_id, rest, out). length rest)")
  fix new_id :: "nat \<Rightarrow> bytes" and rest :: bytes and out :: "tool_call list" and start x name y body rest'
  assume f: "str_find rest INV_OPEN = Some start"
    and e: "xml_element INV_CLOSE (drop (start + length INV_OPEN) rest) = Some x" "(name, y) = x" "(body, rest') = y"
  have "length rest' \<le> length rest - (start + length INV_OPEN)"
    using xml_element_shorter [of INV_CLOSE "drop (start + length INV_OPEN) rest" name body rest'] e by simp
  moreover have "length INV_OPEN \<le> length rest"
    using str_find_Some [OF f] by simp
  ultimately show "((new_id, rest', out @ [\<lparr>tc_id = ''xml-'' @ new_id (length out), tc_name = name,
      tc_arguments = JObject (parse_xml_parameters body [])\<rparr>]), new_id, rest, out)
      \<in> measure (\<lambda>(new_id, rest, out). length rest)"
    by (simp add: INV_OPEN_def)
qed auto

declare parse_xml_invoke_blocks.simps [simp del]

function extract_loop :: "(nat \<Rightarrow> bytes) \<Rightarrow> bytes \<Rightarrow> bytes \<Rightarrow> tool_call list \<Rightarrow> bytes \<times> tool_call list" where
  "extract_loop new_id rest cleaned calls =
     (case str_find rest OPEN of
        None \<Rightarrow> (cleaned @ rest, calls)
      | Some start \<Rightarrow>
          (let after_open = drop (start + length OPEN) rest
           in case str_find after_open CLOSE of
                None \<Rightarrow> (cleaned @ take start rest, calls)
              | Some p \<Rightarrow>
                  extract_loop new_id (drop (p + length CLOSE) after_open) (cleaned @ take start rest)
                    (parse_xml_invoke_blocks new_id (take p after_open) calls)))"
  by pat_completeness auto
termination
proof (relation "measure (\<lambda>(new_id, rest, cleaned, calls). length rest)")
  fix new_id :: "nat \<Rightarrow> bytes" and rest cleaned :: bytes and calls :: "tool_call list" and start after_open p
  assume f: "str_find rest OPEN = Some start" and a: "after_open = drop (start + length OPEN) rest"
  have "length OPEN \<le> length rest"
    using str_find_Some [OF f] by simp
  then show "((new_id, drop (p + length CLOSE) after_open, cleaned @ take start rest,
      parse_xml_invoke_blocks new_id (take p after_open) calls), new_id, rest, cleaned, calls)
      \<in> measure (\<lambda>(new_id, rest, cleaned, calls). length rest)"
    using a by (simp add: OPEN_def)
qed auto

declare extract_loop.simps [simp del]

definition extract_minimax_xml_tool_calls :: "(nat \<Rightarrow> bytes) \<Rightarrow> bytes \<Rightarrow> bytes \<times> tool_call list" where
  "extract_minimax_xml_tool_calls new_id content =
     (if \<not> contains content OPEN then (content, [])
      else let (cleaned, calls) = extract_loop new_id content [] [] in (trim cleaned, calls))"

end
