(* ===== verification/Tool_Call_Facts.thy ===== *)
theory Tool_Call_Facts
  imports Tool_Call_Text
begin

text \<open>
  Facts about tool calls in text: the XML form is read back as the calls it was written from, the
  text around it is kept, and the JSON repair finds an object in surrounding prose.
\<close>

section \<open>Search in structured text\<close>

lemma str_find_skip:
  assumes "\<And>j. j < length v \<Longrightarrow> take (length p) (drop j (v @ r)) \<noteq> p" and "p \<noteq> []"
  shows "str_find (v @ r) p = map_option (\<lambda>i. length v + i) (str_find r p)"
  using assms position_windows_skip [of v "\<lambda>w. w = p" "length p" r] by (simp add: str_find_def)

lemma str_find_free:
  assumes "hd p \<notin> set v" and "p \<noteq> []"
  shows "str_find (v @ r) p = map_option (\<lambda>i. length v + i) (str_find r p)"
proof (rule str_find_skip)
  fix j assume j: "j < length v"
  show "take (length p) (drop j (v @ r)) \<noteq> p"
  proof
    assume "take (length p) (drop j (v @ r)) = p"
    then have "hd (drop j (v @ r)) = hd p" using assms(2) j
      by (metis append_is_Nil_conv drop_eq_Nil hd_take length_greater_0_conv not_le drop_append)
    then have "v ! j = hd p" using j by (simp add: hd_drop_conv_nth)
    then show False using assms(1) j nth_mem by metis
  qed
qed (rule assms(2))

lemma str_find_here: "p \<noteq> [] \<Longrightarrow> str_find (p @ r) p = Some 0"
  by (cases p) (simp_all add: str_find_def)

text \<open>A piece that begins with the first character of the pattern but differs from it.\<close>

lemma str_find_piece:
  assumes "c \<notin> set w" and "take (length p) (c # w @ r) \<noteq> p" and "p = c # p'"
  shows "str_find (c # w @ r) p = map_option (\<lambda>i. Suc (length w) + i) (str_find r p)"
proof -
  have "str_find ((c # w) @ r) p = map_option (\<lambda>i. length (c # w) + i) (str_find r p)"
  proof (rule str_find_skip)
    fix j assume j: "j < length (c # w)"
    show "take (length p) (drop j ((c # w) @ r)) \<noteq> p"
    proof (cases j)
      case 0
      then show ?thesis using assms(2) by simp
    next
      case (Suc k)
      then have k: "k < length w" using j by simp
      have "hd (take (length p) (drop j ((c # w) @ r))) = w ! k"
        using Suc k assms(3) by (simp add: hd_drop_conv_nth nth_append)
      moreover have "w ! k \<noteq> c" using assms(1) k nth_mem by metis
      ultimately show ?thesis using assms(3) by (metis list.sel(1))
    qed
  qed (simp add: assms(3))
  then show ?thesis by simp
qed

text \<open>Text that a search passes over, whatever follows.\<close>

definition skips :: "bytes \<Rightarrow> bytes \<Rightarrow> bool" where
  "skips p s \<longleftrightarrow> p \<noteq> [] \<and> (\<forall>r. str_find (s @ r) p = map_option (\<lambda>i. length s + i) (str_find r p))"

lemma skips_append: "skips p s \<Longrightarrow> skips p t \<Longrightarrow> skips p (s @ t)"
  by (auto simp: skips_def option.map_comp comp_def add.assoc)

lemma skips_concat: "p \<noteq> [] \<Longrightarrow> \<forall>s \<in> set ss. skips p s \<Longrightarrow> skips p (concat ss)"
proof (induction ss)
  case Nil
  then show ?case by (auto simp: skips_def option.map_ident)
next
  case (Cons s ss)
  then show ?case using skips_append by simp
qed

lemma skips_free: "p \<noteq> [] \<Longrightarrow> hd p \<notin> set s \<Longrightarrow> skips p s"
  using str_find_free [of p s] by (simp add: skips_def)

lemma skips_piece:
  assumes "c \<notin> set w" and "\<And>r. take (length (c # p')) (c # w @ r) \<noteq> c # p'"
  shows "skips (c # p') (c # w)"
  using str_find_piece [OF assms(1) assms(2) refl] by (simp add: skips_def)

lemma skips_find: "skips p s \<Longrightarrow> str_find (s @ p @ r) p = Some (length s)"
  using str_find_here [of p r] by (simp add: skips_def)

lemma skips_None: "skips p s \<Longrightarrow> str_find s p = None"
  by (metis append_Nil2 length_0_conv length_greater_0_conv option.map(1) position_windows.simps(1) skips_def str_find_def)

lemma find_char_append: "c \<notin> set v \<Longrightarrow> find_char (v @ c # r) c = Some (length v)"
  by (induction v) auto

section \<open>Writing the XML form\<close>

text \<open>The values that a model writes between the tags of a parameter: a number in decimal, \<open>true\<close> or
  \<open>false\<close>, or a text, and the JSON each stands for. A text that is to be read as text has no form of a
  number or a truth value, no blanks at its ends and no \<open><\<close>.\<close>

datatype arg_value = ANumber int | ATruth bool | AText bytes

definition show_int :: "int \<Rightarrow> bytes" where
  "show_int i = (if i < 0 then CHR ''-'' # show_nat (nat (- i)) else show_nat (nat i))"

definition arg_text :: "arg_value \<Rightarrow> bytes" where
  "arg_text v = (case v of
       ANumber i \<Rightarrow> show_int i | ATruth b \<Rightarrow> if b then ''true'' else ''false'' | AText t \<Rightarrow> t)"

definition arg_json :: "arg_value \<Rightarrow> json" where
  "arg_json v = (case v of ANumber i \<Rightarrow> JInt i | ATruth b \<Rightarrow> JBool b | AText t \<Rightarrow> JString t)"

definition number_form :: "bytes \<Rightarrow> bool" where
  "number_form t \<longleftrightarrow> (\<exists>ds. ds \<noteq> [] \<and> list_all is_ascii_digit ds \<and> (t = ds \<or> t = CHR ''-'' # ds \<or> t = CHR ''+'' # ds))"

definition value_ok :: "arg_value \<Rightarrow> bool" where
  "value_ok v = (case v of
       ANumber i \<Rightarrow> - (2 ^ 63) \<le> i \<and> i < 2 ^ 63
     | ATruth _ \<Rightarrow> True
     | AText t \<Rightarrow> CHR ''<'' \<notin> set t \<and> trim t = t \<and> t \<noteq> ''true'' \<and> t \<noteq> ''false'' \<and> \<not> number_form t)"

lemma number_digits: "digits_value (show_nat n) = Some n"
  using show_nat_digits [of n] by (simp add: digits_value_def mult.commute add.commute)

lemma show_nat_first: "\<not> is_ascii_digit c \<Longrightarrow> show_nat n \<noteq> c # cs"
  using show_nat_without [of c n] by auto

lemma parse_show_int: "- (2 ^ 63) \<le> i \<Longrightarrow> i < 2 ^ 63 \<Longrightarrow> parse_i64 (show_int i) = Some i"
proof -
  assume i: "- (2 ^ 63) \<le> i" "i < 2 ^ 63"
  have "\<not> is_ascii_digit CHR ''-''" "\<not> is_ascii_digit CHR ''+''" by (simp_all add: is_ascii_digit_def)
  then have "(case show_nat n of c # cs \<Rightarrow> if c = CHR ''-'' then (True, cs) else if c = CHR ''+'' then (False, cs) else (False, show_nat n)
      | [] \<Rightarrow> (False, [])) = (False, show_nat n)" for n
    using show_nat_first by (cases "show_nat n") auto
  then show ?thesis using i by (simp add: parse_i64_def show_int_def number_digits)
qed

lemma parse_i64_number_form: "parse_i64 t = Some i \<Longrightarrow> number_form t"
  by (auto simp: parse_i64_def digits_value_def number_form_def split: list.splits if_splits)

lemma digit_graphic: "is_ascii_digit c \<Longrightarrow> is_ascii_graphic c"
  by (simp add: is_ascii_digit_def is_ascii_graphic_def Let_def)

lemma show_int_trim: "trim (show_int i) = show_int i"
proof -
  have ends: "is_ascii_digit (hd (show_nat n))" "is_ascii_digit (last (show_nat n))" for n
    using show_nat_digits [of n] by (auto simp: list_all_iff)
  show ?thesis
    by (rule trim_graphic) (use ends digit_graphic in \<open>auto simp: show_int_def is_ascii_graphic_def\<close>)
qed

text \<open>The program reads a value as what it stands for.\<close>

lemma xml_value_arg:
  assumes "value_ok v"
  shows "xml_value (arg_text v) = arg_json v" and "trim (arg_text v) = arg_text v" and "CHR ''<'' \<notin> set (arg_text v)"
proof -
  have bools: "parse_i64 ''true'' = None" "parse_i64 ''false'' = None" "trim ''true'' = ''true''" "trim ''false'' = ''false''"
    by (simp_all add: parse_i64_def digits_value_def is_ascii_digit_def trim_graphic is_ascii_graphic_def)
  show "xml_value (arg_text v) = arg_json v"
  proof (cases v)
    case (AText t)
    then have "parse_i64 t = None" using assms parse_i64_number_form [of t] by (auto simp: value_ok_def intro: ccontr)
    then show ?thesis using assms AText by (simp add: arg_text_def arg_json_def xml_value_def value_ok_def)
  qed (use assms bools parse_show_int in \<open>simp_all add: arg_text_def arg_json_def xml_value_def value_ok_def\<close>)
  show "trim (arg_text v) = arg_text v"
    using assms bools show_int_trim by (cases v) (simp_all add: arg_text_def value_ok_def)
  have "\<not> is_ascii_digit CHR ''<''" by (simp add: is_ascii_digit_def)
  then show "CHR ''<'' \<notin> set (arg_text v)"
    using assms show_nat_without [of "CHR ''<''"] by (cases v) (auto simp: arg_text_def value_ok_def show_int_def)
qed

definition render_attr :: "bytes \<Rightarrow> bytes" where
  "render_attr n = '' name='' @ [CHR 0x22] @ n @ [CHR 0x22] @ ''>''"

definition render_param :: "bytes \<Rightarrow> bytes \<times> arg_value \<Rightarrow> bytes" where
  "render_param sep p = sep @ PARAM_OPEN @ render_attr (fst p) @ arg_text (snd p) @ PARAM_CLOSE"

definition render_invoke :: "bytes \<Rightarrow> bytes \<times> (bytes \<times> arg_value) list \<Rightarrow> bytes" where
  "render_invoke sep c =
     sep @ INV_OPEN @ render_attr (fst c) @ concat (map (render_param sep) (snd c)) @ sep @ INV_CLOSE"

definition render_block :: "bytes \<Rightarrow> (bytes \<times> (bytes \<times> arg_value) list) list \<Rightarrow> bytes" where
  "render_block sep cs = OPEN @ concat (map (render_invoke sep) cs) @ sep @ CLOSE"

definition attr_ok :: "bytes \<Rightarrow> bool" where
  "attr_ok n \<longleftrightarrow> CHR 0x22 \<notin> set n \<and> CHR ''>'' \<notin> set n \<and> CHR ''<'' \<notin> set n"

definition call_ok :: "bytes \<times> (bytes \<times> arg_value) list \<Rightarrow> bool" where
  "call_ok c \<longleftrightarrow> attr_ok (fst c) \<and> (\<forall>p \<in> set (snd c). attr_ok (fst p) \<and> value_ok (snd p))"

definition args_of :: "(bytes \<times> arg_value) list \<Rightarrow> json_object \<Rightarrow> json_object" where
  "args_of ps out = fold (\<lambda>(n, v). obj_insert n (arg_json v)) ps out"

fun calls_of :: "(nat \<Rightarrow> bytes) \<Rightarrow> nat \<Rightarrow> (bytes \<times> (bytes \<times> arg_value) list) list \<Rightarrow> tool_call list" where
  "calls_of new_id k [] = []"
| "calls_of new_id k (c # cs) =
     \<lparr>tc_id = ''xml-'' @ new_id k, tc_name = fst c, tc_arguments = JObject (args_of (snd c) [])\<rparr>
       # calls_of new_id (Suc k) cs"

text \<open>A message: texts, each followed by a block of calls, and a last text.\<close>

definition render_message :: "bytes \<Rightarrow> (bytes \<times> (bytes \<times> (bytes \<times> arg_value) list) list) list \<Rightarrow> bytes \<Rightarrow> bytes" where
  "render_message sep segs post = concat (map (\<lambda>(pre, cs). pre @ render_block sep cs) segs) @ post"

definition segs_ok :: "(bytes \<times> (bytes \<times> (bytes \<times> arg_value) list) list) list \<Rightarrow> bool" where
  "segs_ok segs \<longleftrightarrow> (\<forall>(pre, cs) \<in> set segs. CHR ''<'' \<notin> set pre \<and> (\<forall>c \<in> set cs. call_ok c))"

section \<open>Reading it back\<close>

lemma xml_extract_attr_render:
  assumes "attr_ok n"
  shows "xml_extract_attr (render_attr n @ r) ''name'' = Some n"
proof -
  let ?needle = "''name'' @ [CHR ''='', CHR 0x22]"
  have "str_find ('' '' @ (?needle @ n @ [CHR 0x22] @ ''>'' @ r)) ?needle
      = map_option (\<lambda>i. length '' '' + i) (str_find (?needle @ n @ [CHR 0x22] @ ''>'' @ r) ?needle)"
    by (rule str_find_free) simp_all
  also have "str_find (?needle @ n @ [CHR 0x22] @ ''>'' @ r) ?needle = Some 0" by (rule str_find_here) simp
  finally have f: "str_find (render_attr n @ r) ?needle = Some 1" by (simp add: render_attr_def)
  have d: "drop (1 + length ''name'' + 2) (render_attr n @ r) = n @ CHR 0x22 # CHR ''>'' # r"
    by (simp add: render_attr_def)
  have q: "find_char (n @ CHR 0x22 # CHR ''>'' # r) (CHR 0x22) = Some (length n)"
    using assms by (intro find_char_append) (simp add: attr_ok_def)
  show ?thesis by (simp only: xml_extract_attr_def f option.case Let_def d q) simp
qed

lemma find_gt_render:
  assumes "attr_ok n"
  shows "find_char (render_attr n @ r) (CHR ''>'') = Some (length (render_attr n) - 1)"
proof -
  have "find_char (('' name='' @ [CHR 0x22] @ n @ [CHR 0x22]) @ CHR ''>'' # r) (CHR ''>'')
      = Some (length ('' name='' @ [CHR 0x22] @ n @ [CHR 0x22]))"
    using assms by (intro find_char_append) (simp add: attr_ok_def)
  then show ?thesis by (simp add: render_attr_def)
qed

lemma xml_element_render:
  assumes "attr_ok n" and "str_find (body @ close_tag @ r) close_tag = Some (length body)"
  shows "xml_element close_tag (render_attr n @ body @ close_tag @ r) = Some (n, body, r)"
proof -
  have "drop (Suc (length (render_attr n) - 1)) (render_attr n @ body @ close_tag @ r) = body @ close_tag @ r"
    by (simp add: render_attr_def)
  then show ?thesis
    using assms xml_extract_attr_render [of n "body @ close_tag @ r"] find_gt_render [of n "body @ close_tag @ r"]
    by (simp add: xml_element_def Let_def)
qed

lemma parse_params_render:
  assumes "CHR ''<'' \<notin> set sep" and "\<forall>p \<in> set ps. attr_ok (fst p) \<and> value_ok (snd p)"
  shows "parse_xml_parameters (concat (map (render_param sep) ps) @ sep) out = args_of ps out"
  using assms(2)
proof (induction ps arbitrary: out)
  case Nil
  have "str_find sep PARAM_OPEN = None"
    using assms(1) by (intro skips_None skips_free) (simp_all add: PARAM_OPEN_def)
  then show ?case by (subst parse_xml_parameters.simps) (simp add: args_of_def)
next
  case (Cons p ps)
  obtain n a where p: "p = (n, a)" by (cases p)
  let ?v = "arg_text a"
  let ?rest = "concat (map (render_param sep) ps) @ sep"
  let ?s = "sep @ PARAM_OPEN @ render_attr n @ ?v @ PARAM_CLOSE @ ?rest"
  have n: "attr_ok n" and v: "CHR ''<'' \<notin> set ?v" "trim ?v = ?v" "xml_value ?v = arg_json a"
    using Cons.prems p xml_value_arg [of a] by auto
  have s: "concat (map (render_param sep) (p # ps)) @ sep = ?s"
    by (simp add: p render_param_def)
  have f: "str_find ?s PARAM_OPEN = Some (length sep)"
    using assms(1) by (intro skips_find skips_free) (simp_all add: PARAM_OPEN_def)
  have "str_find (?v @ PARAM_CLOSE @ ?rest) PARAM_CLOSE = Some (length ?v)"
    using v(1) by (intro skips_find skips_free) (simp_all add: PARAM_CLOSE_def)
  then have e: "xml_element PARAM_CLOSE (render_attr n @ ?v @ PARAM_CLOSE @ ?rest) = Some (n, ?v, ?rest)"
    using n by (intro xml_element_render)
  have d: "drop (length sep + length PARAM_OPEN) ?s = render_attr n @ ?v @ PARAM_CLOSE @ ?rest" by simp
  have "parse_xml_parameters ?s out = parse_xml_parameters ?rest (obj_insert n (xml_value (trim ?v)) out)"
    by (subst parse_xml_parameters.simps) (simp only: f option.case d e prod.case)
  also have "\<dots> = args_of (p # ps) out" using Cons v(2,3) p by (simp add: args_of_def)
  finally show ?case by (simp only: s)
qed

text \<open>The closing tags are not found earlier than where they are written.\<close>

lemma attr_no_lt: "attr_ok n \<Longrightarrow> CHR ''<'' \<notin> set (render_attr n)"
  by (auto simp: render_attr_def attr_ok_def)

lemma skips_element:
  assumes "CHR ''<'' \<notin> set sep" and "CHR ''<'' \<notin> set w" and "CHR ''<'' \<notin> set u"
    and "p = CHR ''<'' # p'" and "tag_open = CHR ''<'' # t" and "tag_close = CHR ''<'' # t'"
    and "CHR ''<'' \<notin> set t" and "CHR ''<'' \<notin> set t'"
    and "\<And>r. take (length p) (tag_open @ r) \<noteq> p" and "\<And>r. take (length p) (tag_close @ r) \<noteq> p"
    and "skips p body"
  shows "skips p (sep @ tag_open @ w @ body @ u @ tag_close)"
proof -
  have "skips p ((sep @ (CHR ''<'' # (t @ w))) @ body @ u @ (CHR ''<'' # t'))"
  proof (intro skips_append)
    show "skips p sep" "skips p u" using assms by (auto intro: skips_free)
    have "take (length (CHR ''<'' # p')) (CHR ''<'' # (t @ w) @ r) \<noteq> CHR ''<'' # p'" for r
      using assms(9) [of "w @ r"] assms(4,5) by simp
    then show "skips p (CHR ''<'' # (t @ w))"
      using assms(2,7) unfolding assms(4) by (intro skips_piece) simp_all
    have "take (length (CHR ''<'' # p')) (CHR ''<'' # t' @ r) \<noteq> CHR ''<'' # p'" for r
      using assms(10) [of r] assms(4,6) by simp
    then show "skips p (CHR ''<'' # t')"
      using assms(8) unfolding assms(4) by (intro skips_piece) simp_all
    show "skips p body" by (rule assms(11))
  qed
  then show ?thesis by (simp add: assms(5,6))
qed

lemma skips_param:
  assumes "CHR ''<'' \<notin> set sep" and "attr_ok (fst q) \<and> value_ok (snd q)" and "p = INV_CLOSE \<or> p = CLOSE"
  shows "skips p (render_param sep q)"
proof -
  have "skips p (sep @ PARAM_OPEN @ (render_attr (fst q) @ arg_text (snd q)) @ [] @ [] @ PARAM_CLOSE)"
    using assms attr_no_lt [of "fst q"] xml_value_arg(3) [of "snd q"]
    by (intro skips_element [where p' = "tl p" and t = "''parameter''" and t' = "''/parameter>''"])
      (auto simp: xml_tags intro: skips_free)
  then show ?thesis by (simp add: render_param_def)
qed

lemma skips_params:
  assumes "CHR ''<'' \<notin> set sep" and "call_ok c" and "p = INV_CLOSE \<or> p = CLOSE"
  shows "skips p (concat (map (render_param sep) (snd c)) @ sep)"
proof (intro skips_append skips_concat)
  show "p \<noteq> []" using assms(3) by (auto simp: xml_tags)
  show "\<forall>s \<in> set (map (render_param sep) (snd c)). skips p s"
    using assms by (auto intro!: skips_param simp: call_ok_def)
  show "skips p sep" using assms by (intro skips_free) (auto simp: xml_tags)
qed

lemma skips_invoke:
  assumes "CHR ''<'' \<notin> set sep" and "call_ok c"
  shows "skips CLOSE (render_invoke sep c)"
proof -
  have "skips CLOSE (sep @ INV_OPEN @ render_attr (fst c) @ (concat (map (render_param sep) (snd c)) @ sep) @ [] @ INV_CLOSE)"
    using assms attr_no_lt [of "fst c"] skips_params [OF assms, of CLOSE]
    by (intro skips_element [where p' = "tl CLOSE" and t = "''invoke''" and t' = "''/invoke>''"])
      (auto simp: xml_tags call_ok_def)
  then show ?thesis by (simp add: render_invoke_def)
qed

lemma length_calls_of [simp]: "length (calls_of new_id k cs) = length cs"
  by (induction cs arbitrary: k) auto

lemma calls_of_append: "calls_of new_id k (cs @ ds) = calls_of new_id k cs @ calls_of new_id (k + length cs) ds"
  by (induction cs arbitrary: k) auto

lemma parse_invokes_render:
  assumes "CHR ''<'' \<notin> set sep" and "\<forall>c \<in> set cs. call_ok c"
  shows "parse_xml_invoke_blocks new_id (concat (map (render_invoke sep) cs) @ sep) out
     = out @ calls_of new_id (length out) cs"
  using assms(2)
proof (induction cs arbitrary: out)
  case Nil
  have "str_find sep INV_OPEN = None"
    using assms(1) by (intro skips_None skips_free) (simp_all add: INV_OPEN_def)
  then show ?case by (subst parse_xml_invoke_blocks.simps) simp
next
  case (Cons c cs)
  let ?rest = "concat (map (render_invoke sep) cs) @ sep"
  let ?body = "concat (map (render_param sep) (snd c)) @ sep"
  let ?s = "sep @ INV_OPEN @ render_attr (fst c) @ ?body @ INV_CLOSE @ ?rest"
  let ?call = "\<lparr>tc_id = ''xml-'' @ new_id (length out), tc_name = fst c,
                 tc_arguments = JObject (parse_xml_parameters ?body [])\<rparr>"
  have c: "call_ok c" using Cons.prems by simp
  have s: "concat (map (render_invoke sep) (c # cs)) @ sep = ?s" by (simp add: render_invoke_def)
  have f: "str_find ?s INV_OPEN = Some (length sep)"
    using assms(1) by (intro skips_find skips_free) (simp_all add: INV_OPEN_def)
  have "str_find (?body @ INV_CLOSE @ ?rest) INV_CLOSE = Some (length ?body)"
    by (rule skips_find [OF skips_params [OF assms(1) c]]) simp
  then have e: "xml_element INV_CLOSE (render_attr (fst c) @ ?body @ INV_CLOSE @ ?rest) = Some (fst c, ?body, ?rest)"
    using c by (intro xml_element_render) (simp_all add: call_ok_def)
  have d: "drop (length sep + length INV_OPEN) ?s = render_attr (fst c) @ ?body @ INV_CLOSE @ ?rest" by simp
  have "parse_xml_invoke_blocks new_id ?s out = parse_xml_invoke_blocks new_id ?rest (out @ [?call])"
    by (subst parse_xml_invoke_blocks.simps) (simp only: f option.case d e prod.case)
  also have "\<dots> = (out @ [?call]) @ calls_of new_id (length (out @ [?call])) cs" using Cons by simp
  also have "parse_xml_parameters ?body [] = args_of (snd c) []"
    using c by (intro parse_params_render assms(1)) (simp add: call_ok_def)
  finally show ?case by (simp only: s) simp
qed

lemma extract_loop_render:
  assumes "CHR ''<'' \<notin> set sep" and "CHR ''<'' \<notin> set post" and "segs_ok segs"
  shows "extract_loop new_id (render_message sep segs post) cleaned calls
     = (cleaned @ concat (map fst segs) @ post, calls @ calls_of new_id (length calls) (concat (map snd segs)))"
  using assms(3)
proof (induction segs arbitrary: cleaned calls)
  case Nil
  have "str_find post OPEN = None"
    using assms(2) by (intro skips_None skips_free) (simp_all add: OPEN_def)
  then show ?case by (subst extract_loop.simps) (simp add: render_message_def)
next
  case (Cons seg segs)
  obtain pre cs where seg: "seg = (pre, cs)" by (cases seg)
  have pre: "CHR ''<'' \<notin> set pre" and cs: "\<forall>c \<in> set cs. call_ok c" and segs: "segs_ok segs"
    using Cons.prems seg by (auto simp: segs_ok_def)
  let ?rest = "render_message sep segs post"
  let ?block = "concat (map (render_invoke sep) cs) @ sep"
  let ?s = "pre @ OPEN @ ?block @ CLOSE @ ?rest"
  have s: "render_message sep (seg # segs) post = ?s" by (simp add: render_message_def render_block_def seg)
  have f: "str_find ?s OPEN = Some (length pre)"
    using pre by (intro skips_find skips_free) (simp_all add: OPEN_def)
  have "skips CLOSE ?block"
    using cs assms(1)
    by (intro skips_append skips_concat skips_free) (auto simp: CLOSE_def [symmetric] intro: skips_invoke, auto simp: CLOSE_def)
  then have g: "str_find (?block @ CLOSE @ ?rest) CLOSE = Some (length ?block)" by (rule skips_find)
  have d: "drop (length pre + length OPEN) ?s = ?block @ CLOSE @ ?rest" by simp
  have t: "take (length pre) ?s = pre" by simp
  have u: "take (length ?block) (?block @ CLOSE @ ?rest) = ?block"
    "drop (length ?block + length CLOSE) (?block @ CLOSE @ ?rest) = ?rest"
    using append_eq_conv_conj [of ?block "CLOSE @ ?rest"] by (simp, simp)
  have "extract_loop new_id ?s cleaned calls
      = extract_loop new_id ?rest (cleaned @ pre) (parse_xml_invoke_blocks new_id ?block calls)"
    by (subst extract_loop.simps) (simp only: f option.case Let_def d g t u)
  also have "parse_xml_invoke_blocks new_id ?block calls = calls @ calls_of new_id (length calls) cs"
    by (rule parse_invokes_render [OF assms(1) cs])
  finally show ?case
    by (simp only: s Cons.IH [OF segs]) (simp add: seg calls_of_append)
qed

text \<open>C30: Tool calls that a model writes into its text in the MiniMax form are read back exactly: for every
  number of blocks, of calls in a block and of parameters, the extracted calls are the written ones in
  order, with numbers, truth values and texts as JSON numbers, truth values and strings, and what is left of
  the text is what stood around the blocks. The texts have no \<open><\<close> inside, and a text value has no blanks at
  its ends and not the form of a number or a truth value; numbers are of 64 bits.\<close>

theorem minimax_calls_round_trip:
  assumes "segs \<noteq> []" and "segs_ok segs" and "CHR ''<'' \<notin> set sep" and "CHR ''<'' \<notin> set post"
  shows "extract_minimax_xml_tool_calls new_id (render_message sep segs post)
     = (trim (concat (map fst segs) @ post), calls_of new_id 0 (concat (map snd segs)))"
proof -
  obtain pre cs segs' where segs: "segs = (pre, cs) # segs'" using assms(1) by (cases segs) auto
  have pre: "CHR ''<'' \<notin> set pre" using assms(2) segs by (simp add: segs_ok_def)
  have "str_find (pre @ OPEN @ concat (map (render_invoke sep) cs) @ sep @ CLOSE @ render_message sep segs' post) OPEN
      = Some (length pre)"
    using pre by (intro skips_find skips_free) (simp_all add: OPEN_def)
  then have "contains (render_message sep segs post) OPEN"
    by (simp add: contains_def render_message_def render_block_def segs)
  then show ?thesis
    using extract_loop_render [OF assms(3,4,2), of new_id "[]" "[]"]
    by (simp add: extract_minimax_xml_tool_calls_def)
qed

theorem minimax_calls_round_trip_witness:
  "let segs = [(''Let me look. '', [(''brave_search'', [(''q'', AText ''rust''), (''count'', ANumber (- 5)), (''safe'', ATruth True)]), (''now'', [])])]
   in extract_minimax_xml_tool_calls (\<lambda>_. ''00000000'') (render_message [newline] segs ''done'')
     = (trim (''Let me look. done''),
        [\<lparr>tc_id = ''xml-00000000'', tc_name = ''brave_search'',
           tc_arguments = JObject [(''q'', JString ''rust''), (''count'', JInt (- 5)), (''safe'', JBool True)]\<rparr>,
         \<lparr>tc_id = ''xml-00000000'', tc_name = ''now'', tc_arguments = JObject []\<rparr>])"
proof -
  let ?segs = "[(''Let me look. '', [(''brave_search'', [(''q'', AText ''rust''), (''count'', ANumber (- 5)), (''safe'', ATruth True)]), (''now'', [])])]"
  have "\<not> number_form ''rust''" by (auto simp: number_form_def is_ascii_digit_def)
  then have "value_ok (AText ''rust'')" "value_ok (ANumber (- 5))" "value_ok (ATruth True)"
    by (simp_all add: value_ok_def trim_graphic is_ascii_graphic_def)
  then have "segs_ok ?segs" by (simp add: segs_ok_def call_ok_def attr_ok_def)
  then show ?thesis
    using minimax_calls_round_trip [of ?segs "[newline]" "''done''" "\<lambda>_. ''00000000''"]
    by (simp add: newline_def args_of_def arg_json_def obj_insert_def)
qed

section \<open>JSON repair\<close>

lemma scan_object_append:
  "scan_object i d str esc s = Some n \<Longrightarrow> scan_object i d str esc (s @ t) = Some n"
  by (induction i d str esc s rule: scan_object.induct) (auto split: if_splits)

text \<open>Arguments that do not parse as they stand are repaired by cutting the first object out of the text
  around it: if prose without a brace precedes an object that closes at its own end, anything follows it
  and it holds no comma before a closing bracket, the result is the parse of the object itself.\<close>

theorem repair_json_finds_object:
  assumes "parse (prose @ obj @ rest) = None" and "fence (prose @ obj @ rest) = None"
    and "CHR ''{'' \<notin> set prose" and "obj = CHR ''{'' # obj'" and "scan_object 0 0 False False obj = Some (length obj)"
    and "fix_trailing_commas obj = obj"
  shows "repair_json parse fence (prose @ obj @ rest) = parse obj"
proof -
  have "find_char (prose @ obj @ rest) (CHR ''{'') = Some (length prose)"
    using find_char_append [OF assms(3), of "obj' @ rest"] assms(4) by simp
  moreover have "scan_object 0 0 False False (obj @ rest) = Some (length obj)"
    by (rule scan_object_append [OF assms(5)])
  ultimately have "extract_json_object (prose @ obj @ rest) = obj"
    by (simp add: extract_json_object_def)
  then show ?thesis using assms(1,2,6) by (simp add: repair_json_def strip_markdown_fences_def)
qed

definition demo_obj :: bytes where
  "demo_obj = ''{'' @ [CHR 0x22] @ ''a}'' @ [CHR 0x22] @ '':1}''"

lemma demo_obj_facts:
  "scan_object 0 0 False False demo_obj = Some (length demo_obj)" "fix_trailing_commas demo_obj = demo_obj"
  by (simp_all add: demo_obj_def fix_trailing_commas.simps(2))

theorem repair_json_finds_object_witness:
  "\<forall>v. repair_json (\<lambda>s. if s = demo_obj then Some v else None) (\<lambda>_. None) (''Sure: '' @ demo_obj @ '' ok'') = Some v"
  using repair_json_finds_object
    [of "\<lambda>s. if s = demo_obj then Some _ else None" "''Sure: ''" demo_obj "'' ok''" "\<lambda>_. None", OF _ _ _ _ demo_obj_facts]
  by (auto simp: demo_obj_def)

lemma fix_trailing_commas_free: "CHR '','' \<notin> set w \<Longrightarrow> fix_trailing_commas (w @ s) = w @ fix_trailing_commas s"
  by (induction w) (auto simp: fix_trailing_commas.simps(2))

text \<open>The removal of trailing commas does not look at strings: in a text that needs repair a comma before a
  bracket is dropped wherever it stands, also inside the value of an argument.\<close>

theorem repair_drops_comma_in_string:
  assumes "parse raw = None" and "fence raw = None" and "extract_json_object raw = pre @ '',]'' @ post"
    and "CHR '','' \<notin> set pre"
  shows "repair_json parse fence raw = parse (pre @ '']'' @ fix_trailing_commas post)"
proof -
  have "fix_trailing_commas ('',]'' @ post) = '']'' @ fix_trailing_commas post"
    by (simp add: fix_trailing_commas.simps(2) trim_start.simps [of "CHR '']'' # post"] leading_ws_graphic is_ascii_graphic_def)
  then show ?thesis
    using assms fix_trailing_commas_free [OF assms(4), of "'',]'' @ post"]
    by (simp add: repair_json_def strip_markdown_fences_def)
qed

definition demo_list_arg :: "bytes \<Rightarrow> bytes" where
  "demo_list_arg c = ''{'' @ [CHR 0x22] @ ''a'' @ [CHR 0x22, CHR '':'', CHR 0x22] @ ''[x'' @ c @ '']'' @ [CHR 0x22]"

lemma demo_list_arg_facts:
  "extract_json_object (demo_list_arg '','' @ '',}'') = (''{'' @ [CHR 0x22] @ ''a'' @ [CHR 0x22, CHR '':'', CHR 0x22] @ ''[x'') @ '',]'' @ ([CHR 0x22] @ '',}'')"
  "fix_trailing_commas ([CHR 0x22] @ '',}'') = [CHR 0x22] @ ''}''"
  by (simp_all add: demo_list_arg_def extract_json_object_def fix_trailing_commas.simps(2)
      trim_start.simps [of "''}''"] leading_ws_graphic is_ascii_graphic_def)

theorem repair_drops_comma_in_string_witness:
  "\<forall>v. repair_json (\<lambda>s. if s = demo_list_arg [] @ ''}'' then Some v else None) (\<lambda>_. None) (demo_list_arg '','' @ '',}'') = Some v"
  using repair_drops_comma_in_string
    [of "\<lambda>s. if s = demo_list_arg [] @ ''}'' then Some _ else None" "demo_list_arg '','' @ '',}''" "\<lambda>_. None",
      OF _ _ demo_list_arg_facts(1)]
  by (simp add: demo_list_arg_facts(2) [simplified]) (simp add: demo_list_arg_def)

end
