(* ===== verification/Openai_Provider.thy ===== *)
theory Openai_Provider
  imports Http_Retry Provider_Routing Tool_Call_Text
begin

text \<open>
  \<open>agent/providers_openai.rs\<close> with the wire format of \<open>agent/providers.rs\<close>: the provider for all
  OpenAI-compatible services. The request body, the choice of the key, the non-streaming call with
  its retries, and the streaming call, whose bytes are decoded, cut into lines and assembled into
  text, reasoning, tool calls and usage.

  JSON parsing and printing are arguments; the deserializers derived for the response types are
  written out on JSON values. Where the loop over the stream stops at the terminator, the slot of
  the cancellable stream counts as empty.
\<close>

section \<open>Wire format\<close>

definition message_call_ids :: "message \<Rightarrow> bytes list" where
  "message_call_ids m = map tc_id (unwrap_or (msg_tool_calls m) [])"

definition result_ids :: "message list \<Rightarrow> bytes list" where
  "result_ids ms = List.map_filter msg_tool_call_id (filter (\<lambda>m. msg_role m = Tool) ms)"

text \<open>The second pass: \<open>valid\<close> holds the identifiers of the calls kept so far.\<close>

fun strip_pass :: "bytes list \<Rightarrow> bytes list \<Rightarrow> message list \<Rightarrow> message list" where
  "strip_pass results valid [] = []"
| "strip_pass results valid (m # ms) =
     (case msg_role m of
        Assistant \<Rightarrow>
          if message_call_ids m \<noteq> [] \<and> \<not> set (message_call_ids m) \<subseteq> set results then strip_pass results valid ms
          else m # strip_pass results (message_call_ids m @ valid) ms
      | Tool \<Rightarrow>
          if unwrap_or (msg_tool_call_id m) [] \<in> set valid then m # strip_pass results valid ms
          else strip_pass results valid ms
      | _ \<Rightarrow> m # strip_pass results valid ms)"

definition strip_orphaned_tool_messages :: "message list \<Rightarrow> message list" where
  "strip_orphaned_tool_messages ms = strip_pass (result_ids ms) [] ms"

definition role_text :: "message_role \<Rightarrow> bytes" where
  "role_text r = (case r of
       System \<Rightarrow> ''system'' | User \<Rightarrow> ''user'' | Assistant \<Rightarrow> ''assistant'' | Tool \<Rightarrow> ''tool'')"

definition reasoning_text :: "message \<Rightarrow> bytes" where
  "reasoning_text m = join [newline] (map tb_thinking (msg_thinking_blocks m))"

definition call_json :: "(json \<Rightarrow> bytes) \<Rightarrow> tool_call \<Rightarrow> json" where
  "call_json print tc =
     JObject [(''id'', JString (tc_id tc)), (''type'', JString ''function''),
       (''function'', JObject [(''name'', JString (tc_name tc)), (''arguments'', JString (print (tc_arguments tc)))])]"

definition message_json :: "(json \<Rightarrow> bytes) \<Rightarrow> bool \<Rightarrow> message \<Rightarrow> json" where
  "message_json print include_reasoning m =
     (let calls = unwrap_or (msg_tool_calls m) []
      in if msg_role m = Assistant \<and> calls \<noteq> [] then
           JObject ([(''role'', JString ''assistant''),
              (''content'', if msg_content m = [] then JNull else JString (msg_content m)),
              (''tool_calls'', JArray (map (call_json print) calls))]
             @ (if include_reasoning then [(''reasoning_content'', JString (reasoning_text m))] else []))
         else
           JObject ([(''role'', JString (role_text (msg_role m))), (''content'', JString (msg_content m))]
             @ (case msg_tool_call_id m of None \<Rightarrow> [] | Some i \<Rightarrow> [(''tool_call_id'', JString i)])
             @ (if include_reasoning \<and> msg_role m = Assistant \<and> msg_thinking_blocks m \<noteq> []
                then [(''reasoning_content'', JString (reasoning_text m))] else [])))"

definition messages_to_openai_format :: "(json \<Rightarrow> bytes) \<Rightarrow> bool \<Rightarrow> message list \<Rightarrow> json list" where
  "messages_to_openai_format print include_reasoning ms =
     map (message_json print include_reasoning) (strip_orphaned_tool_messages ms)"

section \<open>Requests\<close>

record openai_env =
  ov_parse :: "bytes \<Rightarrow> json option"
  ov_detail :: "bytes \<Rightarrow> bytes"
  ov_print :: "json \<Rightarrow> bytes"
  ov_fence :: "bytes \<Rightarrow> bytes option"
  ov_new_id :: "nat \<Rightarrow> bytes"
  ov_lower :: "bytes \<Rightarrow> bytes"
  ov_secrets :: provider_env
  ov_http :: http_env
  ov_cancel :: "instant option"

definition resolve_url :: "openai_env \<Rightarrow> openai_provider \<Rightarrow> bytes" where
  "resolve_url env self =
     (case Option.bind (oa_base_url_env self) (\<lambda>n. pe_get_scoped (ov_secrets env) n []) of
        Some base \<Rightarrow> trim_end_slashes base @ oa_url_suffix self
      | None \<Rightarrow> oa_url self)"

definition supports_parallel_tools :: "openai_provider \<Rightarrow> bool" where
  "supports_parallel_tools self \<longleftrightarrow> oa_provider_name self = ''openai'' \<or> oa_provider_name self = ''ollama''"

definition uses_reasoning_content :: "openai_env \<Rightarrow> openai_provider \<Rightarrow> bool" where
  "uses_reasoning_content env self \<longleftrightarrow>
     oa_provider_name self = ''deepseek'' \<or> contains (ov_lower env (effective (oa_model self))) ''deepseek''"

definition supports_forced_tool_choice :: "openai_env \<Rightarrow> openai_provider \<Rightarrow> bool" where
  "supports_forced_tool_choice env self \<longleftrightarrow>
     (let m = ov_lower env (effective (oa_model self))
      in \<not> (contains m ''reasoner'' \<or> contains m ''v4-pro'' \<or> starts_with m ''deepseek-r1''
            \<or> contains m ''/r1'' \<or> ends_with m ''-r1''))"

definition resolve_api_key :: "openai_env \<Rightarrow> openai_provider \<Rightarrow> openai_provider \<times> bytes" where
  "resolve_api_key env self =
     (let secrets = ov_secrets env;
          named = (\<lambda>n. case pe_get secrets n of Some v \<Rightarrow> v | None \<Rightarrow> unwrap_or (pe_var secrets n) [])
      in case resolve_credential secrets (oa_credential_scope self) [] of
           Some v \<Rightarrow> (self, v)
         | None \<Rightarrow>
             if oa_api_key_names self \<noteq> []
             then (self\<lparr>oa_key_counter := oa_key_counter self + 1\<rparr>,
                   named (oa_api_key_names self ! (unat (oa_key_counter self) mod length (oa_api_key_names self))))
             else if oa_api_key_name self \<noteq> [] then (self, named (oa_api_key_name self))
             else (self, []))"

definition tool_json :: "tool_definition \<Rightarrow> json" where
  "tool_json t =
     JObject [(''type'', JString ''function''),
       (''function'', JObject [(''name'', JString (td_name t)), (''description'', JString (td_description t)),
          (''parameters'', td_input_schema t)])]"

definition tools_members :: "openai_env \<Rightarrow> openai_provider \<Rightarrow> message list \<Rightarrow> tool_definition list \<Rightarrow> json_object" where
  "tools_members env self ms tools =
     (if tools = [] then []
      else (''tools'', JArray (map tool_json tools))
        # (case forced_skill_tool ms tools of
             Some n \<Rightarrow>
               if supports_forced_tool_choice env self
               then [(''tool_choice'', JObject [(''type'', JString ''function''), (''function'', JObject [(''name'', JString n)])])]
               else []
           | None \<Rightarrow> if supports_parallel_tools self then [(''parallel_tool_calls'', JBool True)] else []))"

definition request_body :: "openai_env \<Rightarrow> openai_provider \<Rightarrow> bool \<Rightarrow> message list \<Rightarrow> tool_definition list \<Rightarrow> json" where
  "request_body env self streaming ms tools =
     JObject ([(''model'', JString (effective (oa_model self))),
         (''messages'', JArray (messages_to_openai_format (ov_print env) (uses_reasoning_content env self) ms)),
         (''temperature'', JFloat (oa_temperature self))]
       @ (if streaming
          then [(''stream'', JBool True), (''stream_options'', JObject [(''include_usage'', JBool True)])] else [])
       @ (case oa_max_tokens self of None \<Rightarrow> [] | Some mt \<Rightarrow> [(''max_tokens'', JInt (int mt))])
       @ tools_members env self ms tools)"

section \<open>Response types\<close>

text \<open>Parsed text keeps a member that is given twice. Read as a \<open>Value\<close> the last one stays.\<close>

fun keep_last :: "json_object \<Rightarrow> json_object" where
  "keep_last [] = []"
| "keep_last ((k, v) # kvs) = (if k \<in> fst ` set kvs then keep_last kvs else (k, v) # keep_last kvs)"

fun json_value :: "json \<Rightarrow> json" where
  "json_value (JArray xs) = JArray (map json_value xs)"
| "json_value (JObject kvs) = JObject (keep_last (map (\<lambda>(k, v). (k, json_value v)) kvs))"
| "json_value v = v"

text \<open>A field of a derived struct: \<open>None\<close> for a value that is no such struct or that gives the field
  twice, \<open>Some None\<close> for a missing field. A struct may also be written as an array of its fields in
  order, where only fields with a default may be missing.\<close>

definition struct_field :: "(bytes \<times> bool) list \<Rightarrow> json \<Rightarrow> bytes \<Rightarrow> json option option" where
  "struct_field fs v k = (case v of
       JObject kvs \<Rightarrow>
         (case filter (\<lambda>(k', _). k' = k) kvs of
            [] \<Rightarrow> Some None
          | [(_, x)] \<Rightarrow> Some (Some x)
          | _ \<Rightarrow> None)
     | JArray xs \<Rightarrow>
         if length fs < length xs \<or> \<not> list_all snd (drop (length xs) fs) then None
         else Some (map_of (zip (map fst fs) xs) k)
     | _ \<Rightarrow> None)"

definition required :: "(json \<Rightarrow> 'a option) \<Rightarrow> json option option \<Rightarrow> 'a option" where
  "required f v = (case v of Some (Some x) \<Rightarrow> f x | _ \<Rightarrow> None)"

definition optional :: "(json \<Rightarrow> 'a option) \<Rightarrow> json option option \<Rightarrow> 'a option option" where
  "optional f v = (case v of
       None \<Rightarrow> None
     | Some None \<Rightarrow> Some None
     | Some (Some x) \<Rightarrow> if x = JNull then Some None else map_option Some (f x))"

definition defaulted :: "(json \<Rightarrow> 'a option) \<Rightarrow> 'a \<Rightarrow> json option option \<Rightarrow> 'a option" where
  "defaulted f d v = (case v of None \<Rightarrow> None | Some None \<Rightarrow> Some d | Some (Some x) \<Rightarrow> f x)"

definition vec_of :: "(json \<Rightarrow> 'a option) \<Rightarrow> json \<Rightarrow> 'a list option" where
  "vec_of f v = (case v of JArray xs \<Rightarrow> those (map f xs) | _ \<Rightarrow> None)"

definition null_as_empty_vec :: "(json \<Rightarrow> 'a option) \<Rightarrow> json \<Rightarrow> 'a list option" where
  "null_as_empty_vec f v = (if v = JNull then Some [] else vec_of f v)"

definition as_u32 :: "json \<Rightarrow> 32 word option" where
  "as_u32 v = (case v of JInt i \<Rightarrow> if 0 \<le> i \<and> i < 2 ^ 32 then Some (word_of_int i) else None | _ \<Rightarrow> None)"

definition chat_usage :: "json \<Rightarrow> token_usage option" where
  "chat_usage v =
     (let fs = [(''prompt_tokens'', False), (''completion_tokens'', False)]
      in case (required as_u32 (struct_field fs v ''prompt_tokens''),
               required as_u32 (struct_field fs v ''completion_tokens'')) of
           (Some p, Some c) \<Rightarrow> Some \<lparr>input_tokens = p, output_tokens = c\<rparr>
         | _ \<Rightarrow> None)"

record raw_call =
  rw_call_id :: bytes
  rw_call_name :: bytes
  rw_call_arguments :: bytes

definition chat_tool_call :: "json \<Rightarrow> raw_call option" where
  "chat_tool_call v =
     (let fs = [(''id'', False), (''function'', False)]; gs = [(''name'', False), (''arguments'', False)]
      in Option.bind (required json_as_str (struct_field fs v ''id'')) (\<lambda>i.
         Option.bind (required Some (struct_field fs v ''function'')) (\<lambda>f.
         Option.bind (required json_as_str (struct_field gs f ''name'')) (\<lambda>n.
         Option.bind (required json_as_str (struct_field gs f ''arguments'')) (\<lambda>a.
           Some \<lparr>rw_call_id = i, rw_call_name = n, rw_call_arguments = a\<rparr>)))))"

record chat_choice =
  ch_content :: "bytes option"
  ch_tool_calls :: "raw_call list option"
  ch_finish_reason :: "bytes option"

definition chat_choice_of :: "json \<Rightarrow> chat_choice option" where
  "chat_choice_of v =
     (let fs = [(''message'', False), (''finish_reason'', False)]; gs = [(''content'', False), (''tool_calls'', False)]
      in Option.bind (required Some (struct_field fs v ''message'')) (\<lambda>m.
         Option.bind (optional json_as_str (struct_field gs m ''content'')) (\<lambda>c.
         Option.bind (optional (vec_of chat_tool_call) (struct_field gs m ''tool_calls'')) (\<lambda>tcs.
         Option.bind (optional json_as_str (struct_field fs v ''finish_reason'')) (\<lambda>fr.
           Some \<lparr>ch_content = c, ch_tool_calls = tcs, ch_finish_reason = fr\<rparr>)))))"

definition chat_completion_response :: "json \<Rightarrow> (chat_choice list \<times> token_usage option) option" where
  "chat_completion_response v =
     (let fs = [(''choices'', True), (''usage'', False)]
      in Option.bind (defaulted (null_as_empty_vec chat_choice_of) [] (struct_field fs v ''choices'')) (\<lambda>cs.
         Option.bind (optional chat_usage (struct_field fs v ''usage'')) (\<lambda>u. Some (cs, u))))"

record stream_tool_delta =
  sd_index :: nat
  sd_id :: "bytes option"
  sd_name :: "bytes option"
  sd_arguments :: "bytes option"

definition stream_tool_delta_of :: "json \<Rightarrow> stream_tool_delta option" where
  "stream_tool_delta_of v =
     (let fs = [(''index'', False), (''id'', False), (''function'', False)]; gs = [(''name'', False), (''arguments'', False)]
      in Option.bind (required json_as_u64 (struct_field fs v ''index'')) (\<lambda>i.
         Option.bind (optional json_as_str (struct_field fs v ''id'')) (\<lambda>k.
         Option.bind (optional Some (struct_field fs v ''function'')) (\<lambda>f.
           case f of
             None \<Rightarrow> Some \<lparr>sd_index = i, sd_id = k, sd_name = None, sd_arguments = None\<rparr>
           | Some g \<Rightarrow>
               Option.bind (optional json_as_str (struct_field gs g ''name'')) (\<lambda>n.
               Option.bind (optional json_as_str (struct_field gs g ''arguments'')) (\<lambda>a.
                 Some \<lparr>sd_index = i, sd_id = k, sd_name = n, sd_arguments = a\<rparr>))))))"

record stream_choice =
  sc_content :: "bytes option"
  sc_reasoning :: "bytes option"
  sc_tool_calls :: "stream_tool_delta list"
  sc_finish_reason :: "bytes option"

definition stream_choice_of :: "json \<Rightarrow> stream_choice option" where
  "stream_choice_of v =
     (let fs = [(''delta'', False), (''finish_reason'', False)];
          gs = [(''content'', False), (''reasoning_content'', False), (''tool_calls'', True)]
      in Option.bind (required Some (struct_field fs v ''delta'')) (\<lambda>d.
         Option.bind (optional json_as_str (struct_field gs d ''content'')) (\<lambda>c.
         Option.bind (optional json_as_str (struct_field gs d ''reasoning_content'')) (\<lambda>r.
         Option.bind (defaulted (vec_of stream_tool_delta_of) [] (struct_field gs d ''tool_calls'')) (\<lambda>tcs.
         Option.bind (optional json_as_str (struct_field fs v ''finish_reason'')) (\<lambda>fr.
           Some \<lparr>sc_content = c, sc_reasoning = r, sc_tool_calls = tcs, sc_finish_reason = fr\<rparr>))))))"

definition stream_chunk :: "json \<Rightarrow> (stream_choice list \<times> token_usage option) option" where
  "stream_chunk v =
     (let fs = [(''choices'', True), (''usage'', False)]
      in Option.bind (defaulted (vec_of stream_choice_of) [] (struct_field fs v ''choices'')) (\<lambda>cs.
         Option.bind (optional chat_usage (struct_field fs v ''usage'')) (\<lambda>u. Some (cs, u))))"

section \<open>Streaming\<close>

record sse_state =
  st_content :: bytes
  st_reasoning :: bytes
  st_filter :: thinking_filter
  st_parts :: "(bytes \<times> bytes \<times> bytes) list"
  st_usage :: "token_usage option"
  st_finish_reason :: "bytes option"
  st_sent :: "bytes list"

definition sse_init :: sse_state where
  "sse_init =
     \<lparr>st_content = [], st_reasoning = [], st_filter = filter_new, st_parts = [], st_usage = None,
      st_finish_reason = None, st_sent = []\<rparr>"

definition apply_delta :: "(bytes \<times> bytes \<times> bytes) list \<Rightarrow> stream_tool_delta \<Rightarrow> (bytes \<times> bytes \<times> bytes) list" where
  "apply_delta parts d =
     (let idx = sd_index d;
          parts1 = parts @ replicate (Suc idx - length parts) ([], [], []);
          (i, n, a) = parts1 ! idx
      in parts1[idx := (unwrap_or (sd_id d) i, unwrap_or (sd_name d) n, a @ unwrap_or (sd_arguments d) [])])"

definition stream_content :: "bytes \<Rightarrow> sse_state \<Rightarrow> sse_state" where
  "stream_content c st =
     (let (f, filtered) = process (st_filter st) c
      in st\<lparr>st_content := st_content st @ c, st_filter := f,
            st_sent := st_sent st @ (if filtered \<noteq> [] then [filtered] else [])\<rparr>)"

definition apply_choice :: "stream_choice \<Rightarrow> sse_state \<Rightarrow> sse_state" where
  "apply_choice ch st =
     (let st1 = (case sc_finish_reason ch of None \<Rightarrow> st | Some fr \<Rightarrow> st\<lparr>st_finish_reason := Some fr\<rparr>);
          st2 = (case sc_content ch of None \<Rightarrow> st1 | Some c \<Rightarrow> stream_content c st1);
          st3 = st2\<lparr>st_reasoning := st_reasoning st2 @ unwrap_or (sc_reasoning ch) []\<rparr>
      in st3\<lparr>st_parts := foldl apply_delta (st_parts st3) (sc_tool_calls ch)\<rparr>)"

definition apply_chunk :: "stream_choice list \<times> token_usage option \<Rightarrow> sse_state \<Rightarrow> sse_state" where
  "apply_chunk ch st =
     (let st1 = (case snd ch of None \<Rightarrow> st | Some u \<Rightarrow> st\<lparr>st_usage := Some u\<rparr>)
      in case fst ch of [] \<Rightarrow> st1 | c # _ \<Rightarrow> apply_choice c st1)"

datatype line_end = Continue | Done | Failed llm_call_error

definition handle_line :: "openai_env \<Rightarrow> bytes \<Rightarrow> sse_state \<Rightarrow> bytes \<Rightarrow> sse_state \<times> line_end" where
  "handle_line env name st line =
     (if line = [] \<or> hd line = CHR '':'' then (st, Continue)
      else if starts_with line ''data: '' then
        (let data = drop 6 line
         in if trim data = ''[DONE]'' then (st, Done)
            else case Option.bind (ov_parse env data) stream_chunk of
                   Some ch \<Rightarrow> (apply_chunk ch st, Continue)
                 | None \<Rightarrow>
                     if st_content st = [] then (st, Failed (SchemaError name (ov_detail env data) 0))
                     else (st, Continue))
      else (st, Continue))"

text \<open>The complete lines of the buffer; what remains of it is returned.\<close>

function process_buffer :: "openai_env \<Rightarrow> bytes \<Rightarrow> bytes \<Rightarrow> sse_state \<Rightarrow> bytes \<times> sse_state \<times> line_end" where
  "process_buffer env name buf st =
     (case find_char buf newline of
        None \<Rightarrow> (buf, st, Continue)
      | Some i \<Rightarrow>
          (case handle_line env name st (trim (take i buf)) of
             (st1, Continue) \<Rightarrow> process_buffer env name (drop (i + 1) buf) st1
           | (st1, r) \<Rightarrow> (drop (i + 1) buf, st1, r)))"
  by pat_completeness auto
termination
  by (relation "measure (\<lambda>(env, name, buf, st). length buf)") (auto dest: find_char_Some)

declare process_buffer.simps [simp del]

text \<open>The loop over the byte stream: the state at its end, whether it read the stream to its end, and the
  error that ended it.\<close>

fun read_stream ::
  "openai_env \<Rightarrow> bytes \<Rightarrow> stream_item list \<Rightarrow> bytes \<Rightarrow> sse_state \<Rightarrow> sse_state \<times> bool \<times> llm_call_error option" where
  "read_stream env name [] buf st = (st, True, None)"
| "read_stream env name (Inl e # items) buf st = (st, False, Some (Network (re_text e)))"
| "read_stream env name (Inr b # items) buf st =
     (case process_buffer env name (buf @ from_utf8_lossy b) st of
        (buf1, st1, Continue) \<Rightarrow> read_stream env name items buf1 st1
      | (buf1, st1, Done) \<Rightarrow> (st1, False, None)
      | (buf1, st1, Failed e) \<Rightarrow> (st1, False, Some e))"

definition partial_state_of :: "sse_state \<Rightarrow> partial_state" where
  "partial_state_of st =
     (if st_parts st \<noteq> [] then ToolUse
      else if st_content st \<noteq> [] then Text (st_content st)
      else Empty)"

definition cancel_error :: "bytes \<Rightarrow> cancel_reason \<Rightarrow> partial_state \<Rightarrow> llm_call_error" where
  "cancel_error name r p = (case r of
       CR_InactivityTimeout n \<Rightarrow> InactivityTimeout name n p
     | CR_MaxDurationExceeded n \<Rightarrow> MaxDurationExceeded name n p
     | CR_UserCancelled \<Rightarrow> UserCancelled p
     | CR_ShutdownDrain \<Rightarrow> ShutdownDrain p)"

definition parse_arguments :: "openai_env \<Rightarrow> bytes \<Rightarrow> json" where
  "parse_arguments env raw = json_value (unwrap_or (repair_json (ov_parse env) (ov_fence env) raw) (JObject []))"

definition assemble_calls :: "openai_env \<Rightarrow> (bytes \<times> bytes \<times> bytes) list \<Rightarrow> tool_call list" where
  "assemble_calls env parts =
     map (\<lambda>(i, n, a). \<lparr>tc_id = i, tc_name = n, tc_arguments = parse_arguments env a\<rparr>)
       (filter (\<lambda>(_, n, _). n \<noteq> []) parts)"

definition stream_response :: "openai_env \<Rightarrow> openai_provider \<Rightarrow> bytes \<Rightarrow> sse_state \<Rightarrow> llm_response" where
  "stream_response env self model st =
     (let (content, xml_calls) = extract_minimax_xml_tool_calls (ov_new_id env) (st_content st)
      in \<lparr>lr_content = content, lr_tool_calls = assemble_calls env (st_parts st) @ xml_calls,
          lr_usage = st_usage st, lr_finish_reason = st_finish_reason st, lr_model = Some model,
          lr_provider = Some (oa_provider_name self), lr_fallback_notice = None, lr_tools_used = [],
          lr_iterations = 0,
          lr_thinking_blocks = (if st_reasoning st = [] then []
            else [\<lparr>tb_thinking = st_reasoning st, tb_signature = []\<rparr>])\<rparr>)"

definition stream_send_error :: "openai_provider \<Rightarrow> send_error \<Rightarrow> anyhow_error" where
  "stream_send_error self e = (case e of
       HttpError status b \<Rightarrow>
         if status = 401 \<or> status = 403 then Typed (AuthError (oa_provider_name self) status)
         else if 500 \<le> status then Typed (Server5xx (oa_provider_name self) status)
         else Untyped (oa_provider_name self @ '' API error '' @ show_nat status @ '': '' @ b)
     | NetworkError e \<Rightarrow>
         Typed (classify_reqwest_err e (oa_provider_name self) (connect_secs (oa_timeouts self))
           (request_secs (oa_timeouts self))))"

text \<open>What the provider makes of the items it reads and of the slot: the chunks it sent and its answer.\<close>

definition read_response ::
  "openai_env \<Rightarrow> openai_provider \<Rightarrow> stream_item list \<Rightarrow> cancel_reason option \<Rightarrow> bytes list \<times> answer" where
  "read_response env self items slot =
     (let (st, at_end, err) = read_stream env (oa_provider_name self) items [] sse_init
      in (st_sent st,
          case err of
            Some e \<Rightarrow> Inl (Typed e)
          | None \<Rightarrow>
              (case (if at_end then slot else None) of
                 Some r \<Rightarrow> Inl (Typed (cancel_error (oa_provider_name self) r (partial_state_of st)))
               | None \<Rightarrow> Inr (stream_response env self (effective (oa_model self)) st))))"

definition openai_chat_stream ::
  "openai_env \<Rightarrow> openai_provider \<Rightarrow> http_world \<Rightarrow> openai_provider \<times> http_world \<times> (bytes list \<times> answer) option" where
  "openai_chat_stream env self w =
     (let (self1, api_key) = resolve_api_key env self
      in case send_with_retry (ov_http env) RETRYABLE_OPENAI (oa_max_retries self) w of
           (w1, None) \<Rightarrow> (self1, w1, None)
         | (w1, Some (Inl e)) \<Rightarrow> (self1, w1, Some ([], Inl (stream_send_error self e)))
         | (w1, Some (Inr resp)) \<Rightarrow>
             (let (items, slot) = stream_with_cancellation (oa_timeouts self) (ov_cancel env) (hs_stream resp)
              in (self1, w1, Some (read_response env self items slot))))"

section \<open>Without streaming\<close>

definition first_choice :: "openai_env \<Rightarrow> bytes \<Rightarrow> chat_choice option" where
  "first_choice env t =
     (case Option.bind (ov_parse env t) chat_completion_response of
        Some (c # _, _) \<Rightarrow> Some c
      | _ \<Rightarrow> None)"

text \<open>The three further requests after an answer without choices; the last error is kept.\<close>

fun retry_choices ::
  "openai_env \<Rightarrow> nat list \<Rightarrow> nat \<Rightarrow> bytes \<Rightarrow> http_world \<Rightarrow> http_world \<times> (bytes, chat_choice) result" where
  "retry_choices env [] attempt last_err w = (w, Inl last_err)"
| "retry_choices env (d # ds) attempt last_err w =
     (case send_request (ov_http env) (pause (from_secs d) w) of
        (w1, Inr resp) \<Rightarrow>
          (case hs_text resp of
             Inr t \<Rightarrow>
               (case first_choice env t of
                  Some c \<Rightarrow> (w1, Inr c)
                | None \<Rightarrow> retry_choices env ds (Suc attempt) (''empty choices (attempt '' @ show_nat (Suc attempt) @ '')'') w1)
           | Inl _ \<Rightarrow> retry_choices env ds (Suc attempt) last_err w1)
      | (w1, Inl e) \<Rightarrow> retry_choices env ds (Suc attempt) (re_text e) w1)"

definition chat_response :: "openai_env \<Rightarrow> openai_provider \<Rightarrow> token_usage option \<Rightarrow> chat_choice \<Rightarrow> llm_response" where
  "chat_response env self usage ch =
     (let calls = map (\<lambda>c. \<lparr>tc_id = rw_call_id c, tc_name = rw_call_name c,
                            tc_arguments = parse_arguments env (rw_call_arguments c)\<rparr>)
                    (unwrap_or (ch_tool_calls ch) []);
          (content, xml_calls) = extract_minimax_xml_tool_calls (ov_new_id env) (unwrap_or (ch_content ch) [])
      in \<lparr>lr_content = content, lr_tool_calls = calls @ xml_calls, lr_usage = usage,
          lr_finish_reason = ch_finish_reason ch, lr_model = Some (effective (oa_model self)),
          lr_provider = Some (oa_provider_name self), lr_fallback_notice = None, lr_tools_used = [],
          lr_iterations = 0, lr_thinking_blocks = []\<rparr>)"

definition openai_chat ::
  "openai_env \<Rightarrow> openai_provider \<Rightarrow> http_world \<Rightarrow> openai_provider \<times> http_world \<times> answer option" where
  "openai_chat env self w =
     (let (self1, api_key) = resolve_api_key env self;
          name = oa_provider_name self
      in case retry_http_post_custom (ov_http env) name RETRYABLE_OPENAI (oa_max_retries self) w of
           (w1, None) \<Rightarrow> (self1, w1, None)
         | (w1, Some (Inl e)) \<Rightarrow> (self1, w1, Some (Inl (Untyped e)))
         | (w1, Some (Inr body_text)) \<Rightarrow>
             (case Option.bind (ov_parse env body_text) chat_completion_response of
                None \<Rightarrow> (self1, w1, Some (Inl (Untyped (name @ '' response parse error: '' @ ov_detail env body_text))))
              | Some (c # _, usage) \<Rightarrow> (self1, w1, Some (Inr (chat_response env self usage c)))
              | Some ([], usage) \<Rightarrow>
                  (let (self2, retry_key) = resolve_api_key env self1
                   in case retry_choices env [1, 3, 9] 0 [] w1 of
                        (w2, Inl last_err) \<Rightarrow>
                          (self2, w2, Some (Inl (Untyped (name @ '' returned no choices after 3 retries: '' @ last_err))))
                      | (w2, Inr c) \<Rightarrow> (self2, w2, Some (Inr (chat_response env self usage c))))))"

end
