(* ===== verification/Openai_Facts.thy ===== *)
theory Openai_Facts
  imports Openai_Provider "HOL-Library.Sublist"
begin

text \<open>
  Facts about the OpenAI-compatible provider: which tool messages a request keeps, how the stream
  depends on the way the network cuts it, and how the parts of a tool call are put together.
\<close>

section \<open>Tool messages of a request\<close>

lemma strip_pass_subseq: "subseq (strip_pass results valid ms) ms"
  by (induction ms arbitrary: valid) (auto split: message_role.splits)

text \<open>The calls that the assistant messages of a list make, and the condition that each tool message
  answers one of the calls before it.\<close>

definition calls_made :: "message list \<Rightarrow> bytes list" where
  "calls_made ms = concat (map message_call_ids (filter (\<lambda>m. msg_role m = Assistant) ms))"

definition answered_id :: "message \<Rightarrow> bytes" where
  "answered_id m = unwrap_or (msg_tool_call_id m) []"

fun results_follow :: "bytes set \<Rightarrow> message list \<Rightarrow> bool" where
  "results_follow valid [] = True"
| "results_follow valid (m # ms) =
     ((msg_role m = Tool \<longrightarrow> answered_id m \<in> valid) \<and> results_follow (valid \<union> set (calls_made [m])) ms)"

fun calls_answered :: "message list \<Rightarrow> bool" where
  "calls_answered [] = True"
| "calls_answered (m # ms) = (set (calls_made [m]) \<subseteq> set (result_ids ms) \<and> calls_answered ms)"

lemma calls_made_simps [simp]:
  "calls_made [] = []"
  "msg_role m = Assistant \<Longrightarrow> calls_made (m # ms) = message_call_ids m @ calls_made ms"
  "msg_role m \<noteq> Assistant \<Longrightarrow> calls_made (m # ms) = calls_made ms"
  by (simp_all add: calls_made_def)

lemma result_ids_simps [simp]:
  "result_ids [] = []"
  "msg_role m \<noteq> Tool \<Longrightarrow> result_ids (m # ms) = result_ids ms"
  "msg_role m = Tool \<Longrightarrow> result_ids (m # ms) = (case msg_tool_call_id m of Some i \<Rightarrow> i # result_ids ms | None \<Rightarrow> result_ids ms)"
  by (simp_all add: result_ids_def List.map_filter_simps split: option.splits)

lemma strip_pass_follow: "results_follow (set valid) (strip_pass results valid ms)"
proof (induction ms arbitrary: valid)
  case (Cons m ms)
  have "results_follow (set (message_call_ids m) \<union> set valid) (strip_pass results (message_call_ids m @ valid) ms)"
    using Cons.IH [of "message_call_ids m @ valid"] by (simp add: Un_commute)
  then show ?case
    using Cons.IH [of valid] by (cases "msg_role m") (auto simp: answered_id_def Un_commute)
qed simp

lemma strip_pass_all:
  "results_follow (set valid) ms \<Longrightarrow> set (calls_made ms) \<subseteq> set results \<Longrightarrow> strip_pass results valid ms = ms"
proof (induction ms arbitrary: valid)
  case (Cons m ms)
  then show ?case
    using Cons.IH [of valid] Cons.IH [of "message_call_ids m @ valid"]
    by (cases "msg_role m") (auto simp: answered_id_def Un_commute)
qed simp

text \<open>If no identifier is used twice, a kept call has its result in what follows, and the result is
  kept too: the only call it can belong to is the kept one.\<close>

lemma strip_pass_result_kept:
  assumes "i \<in> set (result_ids ms)" and "i \<in> set valid"
  shows "i \<in> set (result_ids (strip_pass results valid ms))"
  using assms
proof (induction ms arbitrary: valid)
  case (Cons m ms)
  show ?case
  proof (cases "msg_role m")
    case Tool
    show ?thesis
    proof (cases "msg_tool_call_id m = Some i")
      case True
      then show ?thesis using Tool Cons.prems by simp
    next
      case False
      then have "i \<in> set (result_ids ms)" using Tool Cons.prems(1) by (auto split: option.splits)
      then show ?thesis using Tool Cons.IH [OF _ Cons.prems(2)] by (auto split: option.splits)
    qed
  qed (use Cons.IH [of valid] Cons.IH [of "message_call_ids m @ valid"] Cons.prems in auto)
qed simp

text \<open>No result stands before a call with its identifier.\<close>

fun no_early_results :: "message list \<Rightarrow> bool" where
  "no_early_results [] = True"
| "no_early_results (m # ms) = (set (result_ids [m]) \<inter> set (calls_made ms) = {} \<and> no_early_results ms)"

lemma result_ids_Cons: "set (result_ids (m # ms)) = set (result_ids [m]) \<union> set (result_ids ms)"
  by (cases "msg_role m") (auto split: option.splits)

lemma strip_pass_answered:
  assumes "no_early_results ms" and "set results \<inter> set (calls_made ms) \<subseteq> set (result_ids ms)"
  shows "calls_answered (strip_pass results valid ms)"
  using assms
proof (induction ms arbitrary: valid)
  case (Cons m ms)
  have later: "set results \<inter> set (calls_made (m # ms)) \<subseteq> set (result_ids ms)"
    using Cons.prems result_ids_Cons [of m ms] by (cases "msg_role m") auto
  moreover have "set (calls_made ms) \<subseteq> set (calls_made (m # ms))" by (cases "msg_role m") auto
  ultimately have ih: "calls_answered (strip_pass results v ms)" for v
    using Cons.IH [of v] Cons.prems(1) by auto
  have kept: "set (message_call_ids m) \<subseteq> set (result_ids (strip_pass results (message_call_ids m @ valid) ms))"
    if a: "msg_role m = Assistant" and s: "set (message_call_ids m) \<subseteq> set results"
  proof
    fix i assume i: "i \<in> set (message_call_ids m)"
    then have "i \<in> set (result_ids ms)" using later a s by auto
    then show "i \<in> set (result_ids (strip_pass results (message_call_ids m @ valid) ms))"
      by (rule strip_pass_result_kept) (use i in simp)
  qed
  show ?case using ih kept by (cases "msg_role m") auto
qed simp

lemma calls_answered_made: "calls_answered ms \<Longrightarrow> set (calls_made ms) \<subseteq> set (result_ids ms)"
proof (induction ms)
  case (Cons m ms)
  then show ?case using result_ids_Cons [of m ms] by (cases "msg_role m") auto
qed simp

text \<open>C10: The history of a request is well paired, wherever a crash or a truncation has cut the given
  one. For every history, orphaned results included, what is sent is a part of it in its order, every
  tool message in it follows the call it answers, and a history that was well paired already is sent
  unchanged. Every call that is sent is answered later in what is sent if in the given history no
  result stands before a call that uses its identifier.\<close>

theorem request_history_paired:
  "subseq (strip_orphaned_tool_messages ms) ms
    \<and> results_follow {} (strip_orphaned_tool_messages ms)
    \<and> (no_early_results ms \<longrightarrow> calls_answered (strip_orphaned_tool_messages ms))
    \<and> (results_follow {} ms \<and> calls_answered ms \<longrightarrow> strip_orphaned_tool_messages ms = ms)"
  using strip_pass_subseq [of "result_ids ms" "[]" ms] strip_pass_follow [of "[]" "result_ids ms" ms]
    strip_pass_answered [of ms "result_ids ms" "[]"] strip_pass_all [of "[]" ms "result_ids ms"]
    calls_answered_made [of ms]
  by (auto simp: strip_orphaned_tool_messages_def)

definition demo_call :: "bytes \<Rightarrow> tool_call" where
  "demo_call i = \<lparr>tc_id = i, tc_name = ''search'', tc_arguments = JObject []\<rparr>"

definition demo_calls :: "bytes list \<Rightarrow> message" where
  "demo_calls is = (plain_message Assistant [])\<lparr>msg_tool_calls := Some (map demo_call is)\<rparr>"

definition demo_result :: "bytes \<Rightarrow> message" where
  "demo_result i = (plain_message Tool ''found'')\<lparr>msg_tool_call_id := Some i\<rparr>"

lemma demo_message_simps:
  "msg_role (demo_calls is) = Assistant" "message_call_ids (demo_calls is) = is"
  "msg_role (demo_result i) = Tool" "msg_tool_call_id (demo_result i) = Some i" "answered_id (demo_result i) = i"
  by (simp_all add: demo_calls_def demo_result_def plain_message_def message_call_ids_def answered_id_def demo_call_def comp_def)

text \<open>A history that a truncation has cut at its front, so that it begins with the result of a call it
  no longer has, and that a crash has cut between two results.\<close>

theorem request_history_paired_witness:
  "let ms = [demo_result ''z'', plain_message User ''hi'', demo_calls [''a'', ''b''], demo_result ''a'',
             demo_calls [''c''], demo_result ''c''];
       kept = [plain_message User ''hi'', demo_calls [''c''], demo_result ''c'']
   in calls_answered (strip_orphaned_tool_messages ms)
    \<and> strip_orphaned_tool_messages ms = kept
    \<and> strip_orphaned_tool_messages kept = kept"
proof -
  let ?kept = "[plain_message User ''hi'', demo_calls [''c''], demo_result ''c'']"
  let ?ms = "[demo_result ''z'', plain_message User ''hi'', demo_calls [''a'', ''b''], demo_result ''a'',
    demo_calls [''c''], demo_result ''c'']"
  have u: "msg_role (plain_message User ''hi'') = User" by (simp add: plain_message_def)
  have "no_early_results ?ms" using u by (simp add: demo_message_simps)
  then have "calls_answered (strip_orphaned_tool_messages ?ms)" using request_history_paired [of ?ms] by blast
  moreover have "strip_orphaned_tool_messages ?ms = ?kept"
    using u by (simp add: strip_orphaned_tool_messages_def demo_message_simps)
  moreover have "results_follow {} ?kept" "calls_answered ?kept" using u by (simp_all add: demo_message_simps)
  then have "strip_orphaned_tool_messages ?kept = ?kept" using request_history_paired [of ?kept] by blast
  ultimately show ?thesis by (simp add: Let_def)
qed

lemma strip_pass_snoc_kept:
  "msg_role m = Assistant \<Longrightarrow> set (message_call_ids m) \<subseteq> set results
    \<Longrightarrow> strip_pass results valid (ms @ [m]) = strip_pass results valid ms @ [m]"
  by (induction ms arbitrary: valid) (auto split: message_role.splits)

text \<open>The check for complete calls goes by identifiers over the whole history. When a model uses its
  identifiers again in every turn, an assistant message whose results were lost in a crash is sent with its
  calls unanswered, because earlier calls with the same identifiers were answered.\<close>

theorem reused_call_ids_unanswered:
  assumes "msg_role m = Assistant" and "message_call_ids m \<noteq> []" and "set (message_call_ids m) \<subseteq> set (result_ids ms)"
  shows "strip_orphaned_tool_messages (ms @ [m]) = strip_orphaned_tool_messages ms @ [m]
    \<and> \<not> calls_answered (strip_orphaned_tool_messages (ms @ [m]))"
proof -
  have "result_ids (ms @ [m]) = result_ids ms" using assms(1) by (simp add: result_ids_def)
  then have eq: "strip_orphaned_tool_messages (ms @ [m]) = strip_orphaned_tool_messages ms @ [m]"
    using strip_pass_snoc_kept [OF assms(1,3)] by (simp add: strip_orphaned_tool_messages_def)
  have "\<not> calls_answered (xs @ [m])" for xs using assms(1,2) by (induction xs) auto
  then show ?thesis using eq by simp
qed

theorem reused_call_ids_unanswered_witness:
  "\<not> calls_answered (strip_orphaned_tool_messages [demo_calls [''call_0''], demo_result ''call_0'', demo_calls [''call_0'']])"
proof -
  have "set (message_call_ids (demo_calls [''call_0'']))
      \<subseteq> set (result_ids [demo_calls [''call_0''], demo_result ''call_0''])" by (simp add: demo_message_simps)
  then have "\<not> calls_answered (strip_orphaned_tool_messages ([demo_calls [''call_0''], demo_result ''call_0''] @ [demo_calls [''call_0'']]))"
    by (intro reused_call_ids_unanswered [THEN conjunct2]) (simp_all add: demo_message_simps)
  then show ?thesis by simp
qed

section \<open>How the network cuts the stream\<close>

lemma find_char_after: "find_char s c = Some i \<Longrightarrow> find_char (s @ t) c = Some i"
  by (induction s c arbitrary: i rule: find_char.induct) (auto split: if_splits)

lemma process_buffer_append:
  "process_buffer env name (buf @ t) st =
     (case process_buffer env name buf st of
        (buf1, st1, Continue) \<Rightarrow> process_buffer env name (buf1 @ t) st1
      | (buf1, st1, r) \<Rightarrow> (buf1 @ t, st1, r))"
proof (induction env name buf st rule: process_buffer.induct)
  case (1 env name buf st)
  show ?case
  proof (cases "find_char buf newline")
    case None
    then show ?thesis by (simp add: process_buffer.simps [of env name buf st])
  next
    case (Some i)
    then have i: "find_char (buf @ t) newline = Some i" "i < length buf"
      using find_char_Some [OF Some] find_char_after [OF Some] by auto
    obtain st1 r where h: "handle_line env name st (trim (take i buf)) = (st1, r)" by fastforce
    show ?thesis
      using Some i h "1.IH" [OF Some h [symmetric]]
      by (cases r) (simp_all add: process_buffer.simps [of env name buf st] process_buffer.simps [of env name "buf @ t" st])
  qed
qed

lemma process_buffer_rest:
  "process_buffer env name buf st = (buf1, st1, Continue) \<Longrightarrow> newline \<notin> set buf1"
proof (induction env name buf st rule: process_buffer.induct)
  case (1 env name buf st)
  show ?case
  proof (cases "find_char buf newline")
    case None
    then show ?thesis using "1.prems" by (simp add: process_buffer.simps [of env name buf st]) (simp add: find_char_None [symmetric])
  next
    case (Some i)
    obtain st2 r where h: "handle_line env name st (trim (take i buf)) = (st2, r)" by fastforce
    show ?thesis using Some h "1.prems" "1.IH" [OF Some h [symmetric]]
      by (cases r) (simp_all add: process_buffer.simps [of env name buf st])
  qed
qed

text \<open>Only the decoded text of a piece matters, and a piece may be replaced behind another.\<close>

lemma read_stream_decoded:
  "from_utf8_lossy b = from_utf8_lossy b' \<Longrightarrow>
    read_stream env name (Inr b # items) buf st = read_stream env name (Inr b' # items) buf st"
  by simp

lemma read_stream_behind:
  assumes "\<And>buf st. read_stream env name xs buf st = read_stream env name ys buf st"
  shows "read_stream env name (Inr b # xs) buf st = read_stream env name (Inr b # ys) buf st"
  using assms by (simp cong: line_end.case_cong prod.case_cong)

lemma read_stream_split:
  assumes "from_utf8_lossy (b @ c) = from_utf8_lossy b @ from_utf8_lossy c"
  shows "read_stream env name (Inr (b @ c) # items) buf st = read_stream env name (Inr b # Inr c # items) buf st"
proof -
  obtain buf1 st1 r where p: "process_buffer env name (buf @ from_utf8_lossy b) st = (buf1, st1, r)"
    by (cases "process_buffer env name (buf @ from_utf8_lossy b) st") auto
  show ?thesis
    using p assms process_buffer_append [of env name "buf @ from_utf8_lossy b" "from_utf8_lossy c" st]
    by (cases r) simp_all
qed

lemma read_stream_whole:
  assumes "\<forall>b \<in> set bs. wf_utf8 b" and "newline \<notin> set buf"
  shows "read_stream env name (map Inr bs @ items) buf st = read_stream env name (Inr (concat bs) # items) buf st"
  using assms
proof (induction bs arbitrary: buf st)
  case Nil
  then have "find_char buf newline = None" by (simp add: find_char_None)
  then show ?case by (simp add: process_buffer.simps [of env name buf st])
next
  case (Cons b bs)
  obtain buf1 st1 r where p: "process_buffer env name (buf @ from_utf8_lossy b) st = (buf1, st1, r)"
    by (cases "process_buffer env name (buf @ from_utf8_lossy b) st") auto
  have "from_utf8_lossy (b @ concat bs) = from_utf8_lossy b @ from_utf8_lossy (concat bs)"
    using Cons.prems(1) by (simp add: lossy_append lossy_id)
  then have split: "read_stream env name (Inr (concat (b # bs)) # items) buf st
      = read_stream env name (Inr b # Inr (concat bs) # items) buf st"
    using read_stream_split [of b "concat bs" env name items buf st] by simp
  have "read_stream env name (map Inr bs @ items) buf1 st1 = read_stream env name (Inr (concat bs) # items) buf1 st1"
    if "r = Continue"
  proof (rule Cons.IH)
    show "newline \<notin> set buf1" using process_buffer_rest p that by blast
  qed (use Cons.prems in simp)
  then show ?case unfolding split using p by (cases r) simp_all
qed

text \<open>C9: The answer does not depend on how the network cuts the stream, as long as no character is cut:
  two deliveries of the same bytes, each piece whole characters, give the same chunks to the client and
  the same answer, also where lines and events are cut anywhere.\<close>

theorem answer_independent_of_cuts:
  assumes "concat bs = concat bs'" and "\<forall>b \<in> set bs \<union> set bs'. wf_utf8 b"
  shows "read_response env self (map Inr bs) slot = read_response env self (map Inr bs') slot"
proof -
  have "read_stream env name (map Inr bs) [] st = read_stream env name (map Inr bs') [] st" for name st
    using read_stream_whole [of bs "[]" env name "[]" st] read_stream_whole [of bs' "[]" env name "[]" st] assms by simp
  then show ?thesis by (simp add: read_response_def)
qed

text \<open>A character that falls on a cut is lost: its two halves are decoded on their own, and the line
  is read as if it held two replacement characters.\<close>

theorem cut_character_lost:
  assumes "wf_utf8 pre" and "utf8_width c = Some 2" and "is_continuation d"
  shows "read_stream env name (Inr (pre @ [c]) # Inr (d # post) # items) buf st
      = read_stream env name (Inr (pre @ REPLACEMENT @ REPLACEMENT) # Inr post # items) buf st
    \<and> from_utf8_lossy (pre @ [c, d] @ post) = pre @ [c, d] @ from_utf8_lossy post"
proof -
  have c: "utf8_chunk c [] = (1, False)" "utf8_chunk c (d # post) = (2, True)" if "second_ok c d"
    using assms(2) that by (simp_all add: utf8_chunk_def)
  have ok: "second_ok c d" using assms(2,3) by (auto simp: second_ok_def utf8_width_def Let_def split: if_splits)
  have d: "utf8_chunk d post = (1, False)" for post
    using assms(3) by (auto simp: utf8_chunk_def utf8_width_def is_continuation_def Let_def split: option.splits)
  have rep: "wf_utf8 REPLACEMENT" by code_simp
  have 1: "from_utf8_lossy (pre @ [c]) = from_utf8_lossy (pre @ REPLACEMENT)"
    using lossy_append [OF assms(1)] c(1) [OF ok] lossy_id [OF rep] by (simp add: from_utf8_lossy.simps(2))
  have 2: "from_utf8_lossy (d # post) = from_utf8_lossy (REPLACEMENT @ post)"
    using d by (simp add: from_utf8_lossy.simps(2) lossy_append [OF rep])
  have 3: "from_utf8_lossy ((pre @ REPLACEMENT) @ REPLACEMENT) = from_utf8_lossy (pre @ REPLACEMENT) @ from_utf8_lossy REPLACEMENT"
    using lossy_append [OF assms(1)] lossy_append [OF rep, of REPLACEMENT] lossy_id [OF rep] by simp
  have 4: "from_utf8_lossy (pre @ [c, d] @ post) = pre @ [c, d] @ from_utf8_lossy post"
    using lossy_append [OF assms(1), of "[c, d] @ post"] c(2) [OF ok] by (simp add: from_utf8_lossy.simps(2))
  have "read_stream env name (Inr (d # post) # items) buf st
      = read_stream env name (Inr REPLACEMENT # Inr post # items) buf st" for buf st
    unfolding read_stream_decoded [OF 2] by (rule read_stream_split) (simp add: lossy_append [OF rep] lossy_id [OF rep])
  then have "read_stream env name (Inr (pre @ [c]) # Inr (d # post) # items) buf st
      = read_stream env name (Inr (pre @ REPLACEMENT) # Inr REPLACEMENT # Inr post # items) buf st"
    unfolding read_stream_decoded [OF 1] by (rule read_stream_behind)
  also have "\<dots> = read_stream env name (Inr ((pre @ REPLACEMENT) @ REPLACEMENT) # Inr post # items) buf st"
    by (rule read_stream_split [OF 3, symmetric])
  finally show ?thesis using 4 by simp
qed

theorem answer_independent_of_cuts_witness:
  "\<forall>env self slot. read_response env self (map Inr [''data: {'', ''}'', newline # ''data: [DONE]'', [newline]]) slot
    = read_response env self (map Inr [''data: {}'' @ newline # ''data: [DO'', ''NE]'' @ [newline]]) slot"
proof (intro allI answer_independent_of_cuts)
  show "\<forall>b \<in> set [''data: {'', ''}'', newline # ''data: [DONE]'', [newline]]
      \<union> set [''data: {}'' @ newline # ''data: [DO'', ''NE]'' @ [newline]]. wf_utf8 b"
    by (auto intro!: wf_utf8_ascii simp: newline_def)
qed simp

theorem cut_character_lost_witness:
  "\<forall>env items buf st. read_stream env ''n'' (Inr (''caf'' @ utf8 [0xC3]) # Inr (utf8 [0xA9]) # items) buf st
    = read_stream env ''n'' (Inr (''caf'' @ REPLACEMENT @ REPLACEMENT) # Inr [] # items) buf st"
proof (intro allI)
  fix env :: openai_env and items buf st
  have "wf_utf8 ''caf''" by (rule wf_utf8_ascii) simp
  moreover have "utf8_width (char_of (0xC3 :: nat)) = Some 2" "is_continuation (char_of (0xA9 :: nat))"
    by code_simp+
  moreover have "utf8 [0xC3] = [char_of (0xC3 :: nat)]" "utf8 [0xA9] = [char_of (0xA9 :: nat)]" by code_simp+
  ultimately show "read_stream env ''n'' (Inr (''caf'' @ utf8 [0xC3]) # Inr (utf8 [0xA9]) # items) buf st
    = read_stream env ''n'' (Inr (''caf'' @ REPLACEMENT @ REPLACEMENT) # Inr [] # items) buf st"
    using cut_character_lost [of "''caf''" "char_of (0xC3 :: nat)" "char_of (0xA9 :: nat)" env "''n''" "[]" items buf st]
    by simp
qed

section \<open>Tool calls of a stream\<close>

definition last_or_empty :: "bytes list \<Rightarrow> bytes" where
  "last_or_empty xs = (if xs = [] then [] else last xs)"

text \<open>What the deltas of one index say together.\<close>

definition joined :: "stream_tool_delta list \<Rightarrow> nat \<Rightarrow> bytes \<times> bytes \<times> bytes" where
  "joined ds k =
     (let own = filter (\<lambda>d. sd_index d = k) ds
      in (last_or_empty (List.map_filter sd_id own), last_or_empty (List.map_filter sd_name own),
          concat (List.map_filter sd_arguments own)))"

definition parts_wanted :: "stream_tool_delta list \<Rightarrow> nat" where
  "parts_wanted ds = foldr (\<lambda>d n. max (Suc (sd_index d)) n) ds 0"

lemma parts_wanted_simps [simp]:
  "parts_wanted [] = 0"
  "parts_wanted (ds @ [d]) = max (parts_wanted ds) (Suc (sd_index d))"
proof -
  have "foldr (\<lambda>d n. max (Suc (sd_index d)) n) ds (max k m) = max (foldr (\<lambda>d n. max (Suc (sd_index d)) n) ds k) m" for k m
    by (induction ds) (auto simp: max.assoc max.commute max.left_commute)
  from this [of 0 "Suc (sd_index d)"] show "parts_wanted (ds @ [d]) = max (parts_wanted ds) (Suc (sd_index d))"
    by (simp add: parts_wanted_def)
qed (simp add: parts_wanted_def)

lemma joined_beyond: "parts_wanted ds \<le> k \<Longrightarrow> joined ds k = ([], [], [])"
proof -
  assume "parts_wanted ds \<le> k"
  then have "filter (\<lambda>d. sd_index d = k) ds = []" by (induction ds rule: rev_induct) auto
  then show ?thesis by (simp add: joined_def last_or_empty_def List.map_filter_simps)
qed

lemma map_filter_snoc: "List.map_filter f (xs @ [x]) = List.map_filter f xs @ (case f x of None \<Rightarrow> [] | Some y \<Rightarrow> [y])"
  by (simp add: List.map_filter_def split: option.splits)

lemma joined_snoc:
  "joined (ds @ [d]) k =
    (if sd_index d = k
     then case joined ds k of (i, n, a) \<Rightarrow>
       (unwrap_or (sd_id d) i, unwrap_or (sd_name d) n, a @ unwrap_or (sd_arguments d) [])
     else joined ds k)"
  by (simp add: joined_def Let_def map_filter_snoc last_or_empty_def unwrap_or_def split: option.splits)

text \<open>C11: Parallel tool calls that arrive in fragments are put together exactly: the part of each index holds
  the last identifier and the last name sent for it and all its argument fragments in order, however the
  fragments of different calls are interleaved, and there are as many parts as the largest index asks for.\<close>

theorem tool_calls_assembled:
  "foldl apply_delta [] ds = map (joined ds) [0..<parts_wanted ds]"
proof (induction ds rule: rev_induct)
  case (snoc d ds)
  let ?n = "parts_wanted ds" and ?k = "sd_index d"
  define parts where "parts = map (joined ds) [0..<?n] @ replicate (Suc ?k - ?n) ([], [], [])"
  have parts: "parts = map (joined ds) [0..<max ?n (Suc ?k)]"
  proof (rule nth_equalityI)
    fix j assume "j < length parts"
    then show "parts ! j = map (joined ds) [0..<max ?n (Suc ?k)] ! j"
      by (cases "j < ?n") (auto simp: parts_def nth_append joined_beyond)
  qed (simp add: parts_def)
  obtain i n a where k: "joined ds ?k = (i, n, a)" by (cases "joined ds ?k")
  have nth: "parts ! ?k = (i, n, a)" using parts k by (simp add: max_def)
  have padded: "map (joined ds) [0..<?n] @ replicate (Suc ?k - length (map (joined ds) [0..<?n])) ([], [], []) = parts"
    by (simp add: parts_def)
  have "foldl apply_delta [] (ds @ [d]) = apply_delta (map (joined ds) [0..<?n]) d" by (simp add: snoc)
  also have "\<dots> = parts[?k := (unwrap_or (sd_id d) i, unwrap_or (sd_name d) n, a @ unwrap_or (sd_arguments d) [])]"
    unfolding apply_delta_def Let_def padded using nth by simp
  also have "\<dots> = map (joined (ds @ [d])) [0..<max ?n (Suc ?k)]"
    unfolding parts by (rule nth_equalityI) (auto simp: nth_list_update joined_snoc k)
  finally show ?case by simp
qed simp

section \<open>Text that the filter holds back\<close>














end
