(* ===== verification/Vendor_Providers.thy ===== *)
theory Vendor_Providers
  imports Openai_Provider
begin

text \<open>
  \<open>agent/providers_anthropic.rs\<close> and \<open>agent/providers_google.rs\<close>: the providers for the Anthropic
  Messages API and for Gemini. The conversion of a history, the request bodies, the types and the
  reading of answers, and the two calls of each. The environment is that of the OpenAI provider.
\<close>

section \<open>Lines of an event stream\<close>

text \<open>The loop both providers run over the bytes of a stream; \<open>f\<close> takes the data of one event.\<close>

definition data_line :: "(bytes \<Rightarrow> 's \<Rightarrow> 's) \<Rightarrow> bytes \<Rightarrow> 's \<Rightarrow> 's" where
  "data_line f line st =
     (if line = [] \<or> hd line = CHR '':'' then st
      else if starts_with line ''data: '' then f (drop 6 line) st
      else st)"

function feed_lines :: "(bytes \<Rightarrow> 's \<Rightarrow> 's) \<Rightarrow> bytes \<Rightarrow> 's \<Rightarrow> bytes \<times> 's" where
  "feed_lines f buf st =
     (case find_char buf newline of
        None \<Rightarrow> (buf, st)
      | Some i \<Rightarrow> feed_lines f (drop (i + 1) buf) (data_line f (trim (take i buf)) st))"
  by pat_completeness auto
termination
  by (relation "measure (\<lambda>(f, buf, st). length buf)") (auto dest: find_char_Some)

declare feed_lines.simps [simp del]

fun read_events :: "(bytes \<Rightarrow> 's \<Rightarrow> 's) \<Rightarrow> stream_item list \<Rightarrow> bytes \<Rightarrow> 's \<Rightarrow> 's \<times> llm_call_error option" where
  "read_events f [] buf st = (st, None)"
| "read_events f (Inl e # items) buf st = (st, Some (Network (re_text e)))"
| "read_events f (Inr b # items) buf st =
     (let (buf1, st1) = feed_lines f (buf @ from_utf8_lossy b) st in read_events f items buf1 st1)"

text \<open>The partial state of a stream that was cut off: text alone counts.\<close>

definition text_partial :: "bytes \<Rightarrow> partial_state" where
  "text_partial content = (if content \<noteq> [] then Text content else Empty)"

text \<open>A response that is no success, and what the stream wrapper reports.\<close>

definition status_error :: "bytes \<Rightarrow> http_response \<Rightarrow> anyhow_error" where
  "status_error name resp =
     (let err_text = (case hs_text resp of Inr t \<Rightarrow> t | Inl _ \<Rightarrow> [])
      in if hs_status resp = 401 \<or> hs_status resp = 403 then Typed (AuthError name (hs_status resp))
         else if 500 \<le> hs_status resp then Typed (Server5xx name (hs_status resp))
         else case hs_retry_after resp of
                Some ra \<Rightarrow> Untyped (name @ '' API error (retry-after: '' @ ra @ ''): '' @ err_text)
              | None \<Rightarrow> Untyped (name @ '' API error: '' @ err_text))"

section \<open>Anthropic: requests\<close>

datatype thinking_mode = AdaptiveOnly | Adaptive | Manual

definition thinking_mode_of :: "bytes \<Rightarrow> thinking_mode" where
  "thinking_mode_of model =
     (if contains model ''claude-opus-4-7'' \<or> contains model ''claude-mythos'' then AdaptiveOnly
      else if contains model ''claude-opus-4-6'' \<or> contains model ''claude-sonnet-4-6'' then Adaptive
      else Manual)"

definition thinking_config :: "nat \<Rightarrow> bytes \<Rightarrow> nat \<Rightarrow> json option" where
  "thinking_config level model effective_max_tokens =
     (if level = 0 then None
      else if thinking_mode_of model = Manual then
        (let budget = (if level = 1 then 1024 else if level = 2 then 4096 else if level = 3 then 10000
                       else if level = 4 then 20000 else 32000);
             clamped = min budget (effective_max_tokens - 1000)
         in if clamped < 1024 then None
            else Some (JObject [(''type'', JString ''enabled''), (''budget_tokens'', JInt (int clamped))]))
      else
        (let effort = (if level = 1 \<or> level = 2 then ''low'' else if level = 3 then ''medium'' else ''high'')
         in Some (JObject [(''type'', JString ''adaptive''), (''effort'', JString effort),
                           (''display'', JString ''summarized'')])))"

definition thinking_json :: "thinking_block \<Rightarrow> json" where
  "thinking_json tb =
     JObject [(''type'', JString ''thinking''), (''thinking'', JString (tb_thinking tb)),
       (''signature'', JString (tb_signature tb))]"

definition tool_use_json :: "tool_call \<Rightarrow> json" where
  "tool_use_json tc =
     JObject [(''type'', JString ''tool_use''), (''id'', JString (tc_id tc)), (''name'', JString (tc_name tc)),
       (''input'', tc_arguments tc)]"

definition text_json :: "bytes \<Rightarrow> json" where
  "text_json t = JObject [(''type'', JString ''text''), (''text'', JString t)]"

definition role_json :: "bytes \<Rightarrow> json \<Rightarrow> json" where
  "role_json role content = JObject [(''role'', JString role), (''content'', content)]"

definition anthropic_message :: "message \<Rightarrow> json" where
  "anthropic_message m = (case msg_role m of
       Assistant \<Rightarrow>
         (let calls = unwrap_or (msg_tool_calls m) []
          in if calls \<noteq> [] \<or> msg_thinking_blocks m \<noteq> [] then
               role_json ''assistant'' (JArray (map thinking_json (msg_thinking_blocks m)
                 @ (if msg_content m = [] then [] else [text_json (msg_content m)])
                 @ map tool_use_json calls))
             else role_json ''assistant'' (JString (msg_content m)))
     | Tool \<Rightarrow>
         role_json ''user'' (JArray [JObject [(''type'', JString ''tool_result''),
           (''tool_use_id'', JString (unwrap_or (msg_tool_call_id m) [])), (''content'', JString (msg_content m))]])
     | _ \<Rightarrow> role_json ''user'' (JString (msg_content m)))"

definition first_system :: "message list \<Rightarrow> bytes option" where
  "first_system ms = map_option msg_content (find (\<lambda>m. msg_role m = System) ms)"

definition without_system :: "message list \<Rightarrow> message list" where
  "without_system ms = filter (\<lambda>m. msg_role m \<noteq> System) ms"

definition ephemeral :: json where
  "ephemeral = JObject [(''type'', JString ''ephemeral'')]"

definition anthropic_tool :: "tool_definition \<Rightarrow> json_object" where
  "anthropic_tool t =
     [(''name'', JString (td_name t)), (''description'', JString (td_description t)), (''input_schema'', td_input_schema t)]"

text \<open>With prompt caching the last tool carries the cache breakpoint.\<close>

definition anthropic_tools :: "bool \<Rightarrow> tool_definition list \<Rightarrow> json list" where
  "anthropic_tools cache tools =
     (let js = map anthropic_tool tools
      in map JObject (if cache \<and> js \<noteq> [] then butlast js @ [List.last js @ [(''cache_control'', ephemeral)]] else js))"

definition build_request_body ::
  "anthropic_provider \<Rightarrow> message list \<Rightarrow> tool_definition list \<Rightarrow> nat \<Rightarrow> bytes option \<times> json_object" where
  "build_request_body self ms tools thinking_level =
     (let system_text = first_system ms;
          effective_max_tokens = unwrap_or (an_max_tokens self) 8192;
          effective_model = effective (an_model self);
          temperature = (if 0 < thinking_level then max (an_temperature self) 1 else an_temperature self)
      in (system_text,
          [(''model'', JString effective_model),
           (''messages'', JArray (map anthropic_message (without_system ms))),
           (''max_tokens'', JInt (int effective_max_tokens)), (''temperature'', JFloat temperature)]
          @ (case thinking_config thinking_level effective_model effective_max_tokens of
               Some t \<Rightarrow> [(''thinking'', t)] | None \<Rightarrow> [])
          @ (case system_text of
               Some sys \<Rightarrow>
                 [(''system'',
                   if an_prompt_cache self
                   then JArray [JObject [(''type'', JString ''text''), (''text'', JString sys), (''cache_control'', ephemeral)]]
                   else JString sys)]
             | None \<Rightarrow> [])
          @ (if tools = [] then []
             else (''tools'', JArray (anthropic_tools (an_prompt_cache self) tools))
               # (case forced_skill_tool ms tools of
                    Some n \<Rightarrow> [(''tool_choice'', JObject [(''type'', JString ''tool''), (''name'', JString n)])]
                  | None \<Rightarrow> []))))"

section \<open>Anthropic: answers\<close>

datatype content_block =
    TextBlock bytes
  | ThinkingBlock bytes bytes
  | ToolUseBlock bytes bytes json
  | OtherBlock

text \<open>The tag of a block and what is left of it; a block may also be an array that begins with the tag.\<close>

definition tagged_content :: "json \<Rightarrow> (bytes \<times> json) option" where
  "tagged_content v = (case v of
       JObject kvs \<Rightarrow>
         (case filter (\<lambda>(k, _). k = ''type'') kvs of
            [(_, JString t)] \<Rightarrow> Some (t, JObject (filter (\<lambda>(k, _). k \<noteq> ''type'') kvs))
          | _ \<Rightarrow> None)
     | JArray (JString t # xs) \<Rightarrow> Some (t, JArray xs)
     | _ \<Rightarrow> None)"

definition content_block_of :: "json \<Rightarrow> content_block option" where
  "content_block_of v = (case tagged_content v of
       None \<Rightarrow> None
     | Some (t, c) \<Rightarrow>
         if t = ''text'' then
           (let fs = [(''text'', False)]
            in map_option TextBlock (required json_as_str (struct_field fs c ''text'')))
         else if t = ''thinking'' then
           (let fs = [(''thinking'', False), (''signature'', False)]
            in Option.bind (required json_as_str (struct_field fs c ''thinking'')) (\<lambda>x.
               Option.bind (required json_as_str (struct_field fs c ''signature'')) (\<lambda>s.
                 Some (ThinkingBlock x s))))
         else if t = ''tool_use'' then
           (let fs = [(''id'', False), (''name'', False), (''input'', False)]
            in Option.bind (required json_as_str (struct_field fs c ''id'')) (\<lambda>i.
               Option.bind (required json_as_str (struct_field fs c ''name'')) (\<lambda>n.
               Option.bind (required Some (struct_field fs c ''input'')) (\<lambda>a.
                 Some (ToolUseBlock i n (json_value a))))))
         else Some OtherBlock)"

definition anthropic_usage :: "json \<Rightarrow> token_usage option" where
  "anthropic_usage v =
     (let fs = [(''input_tokens'', False), (''output_tokens'', False),
                (''cache_creation_input_tokens'', True), (''cache_read_input_tokens'', True)]
      in Option.bind (required as_u32 (struct_field fs v ''input_tokens'')) (\<lambda>i.
         Option.bind (required as_u32 (struct_field fs v ''output_tokens'')) (\<lambda>out.
         Option.bind (optional as_u32 (struct_field fs v ''cache_creation_input_tokens'')) (\<lambda>_.
         Option.bind (optional as_u32 (struct_field fs v ''cache_read_input_tokens'')) (\<lambda>_.
           Some \<lparr>input_tokens = i, output_tokens = out\<rparr>)))))"

definition anthropic_response ::
  "json \<Rightarrow> (content_block list \<times> token_usage option \<times> bytes option) option" where
  "anthropic_response v =
     (let fs = [(''content'', False), (''usage'', False), (''stop_reason'', False)]
      in Option.bind (required (vec_of content_block_of) (struct_field fs v ''content'')) (\<lambda>bs.
         Option.bind (optional anthropic_usage (struct_field fs v ''usage'')) (\<lambda>u.
         Option.bind (optional json_as_str (struct_field fs v ''stop_reason'')) (\<lambda>r. Some (bs, u, r)))))"

text \<open>One step of the loop over the blocks: text pieces are joined by newlines.\<close>

fun add_block ::
  "bytes \<times> tool_call list \<times> thinking_block list \<Rightarrow> content_block \<Rightarrow> bytes \<times> tool_call list \<times> thinking_block list" where
  "add_block (content, calls, thoughts) (TextBlock t) =
     (content @ (if content \<noteq> [] then [newline] else []) @ t, calls, thoughts)"
| "add_block (content, calls, thoughts) (ThinkingBlock t s) =
     (content, calls, thoughts @ [\<lparr>tb_thinking = t, tb_signature = s\<rparr>])"
| "add_block (content, calls, thoughts) (ToolUseBlock i n a) =
     (content, calls @ [\<lparr>tc_id = i, tc_name = n, tc_arguments = a\<rparr>], thoughts)"
| "add_block (content, calls, thoughts) OtherBlock = (content, calls, thoughts)"

definition vendor_response ::
  "bytes \<Rightarrow> bytes \<Rightarrow> bytes \<Rightarrow> tool_call list \<Rightarrow> token_usage option \<Rightarrow> bytes option \<Rightarrow> thinking_block list \<Rightarrow> llm_response" where
  "vendor_response name model content calls usage finish thoughts =
     \<lparr>lr_content = content, lr_tool_calls = calls, lr_usage = usage, lr_finish_reason = finish, lr_model = Some model,
      lr_provider = Some name, lr_fallback_notice = None, lr_tools_used = [], lr_iterations = 0,
      lr_thinking_blocks = thoughts\<rparr>"

definition parse_anthropic_response ::
  "content_block list \<times> token_usage option \<times> bytes option \<Rightarrow> bytes \<Rightarrow> llm_response" where
  "parse_anthropic_response api_resp model =
     (let (blocks, usage, stop_reason) = api_resp;
          (content, calls, thoughts) = foldl add_block ([], [], []) blocks
      in vendor_response ''anthropic'' model content calls usage stop_reason thoughts)"

section \<open>Anthropic: streaming\<close>

text \<open>\<open>ay_content\<close> and \<open>ay_sent\<close> are what \<open>emit_text\<close> writes; \<open>emit_thinking\<close> does nothing.\<close>

record anthropic_stream =
  ay_content :: bytes
  ay_sent :: "bytes list"
  ay_thinking :: bytes
  ay_signature :: bytes
  ay_in_thinking :: bool
  ay_blocks :: "thinking_block list"

definition anthropic_stream_init :: anthropic_stream where
  "anthropic_stream_init =
     \<lparr>ay_content = [], ay_sent = [], ay_thinking = [], ay_signature = [], ay_in_thinking = False, ay_blocks = []\<rparr>"

definition text_at :: "json option \<Rightarrow> bytes \<Rightarrow> bytes option" where
  "text_at v k = Option.bind (Option.bind v (\<lambda>d. json_get d k)) json_as_str"

definition block_delta :: "json option \<Rightarrow> anthropic_stream \<Rightarrow> anthropic_stream" where
  "block_delta delta st =
     (if text_at delta ''type'' = Some ''text_delta'' then
        (case text_at delta ''text'' of
           Some t \<Rightarrow> st\<lparr>ay_content := ay_content st @ t, ay_sent := ay_sent st @ [t]\<rparr> | None \<Rightarrow> st)
      else if text_at delta ''type'' = Some ''thinking_delta'' then
        (case text_at delta ''thinking'' of Some t \<Rightarrow> st\<lparr>ay_thinking := ay_thinking st @ t\<rparr> | None \<Rightarrow> st)
      else if text_at delta ''type'' = Some ''signature_delta'' then
        (case text_at delta ''signature'' of Some s \<Rightarrow> st\<lparr>ay_signature := ay_signature st @ s\<rparr> | None \<Rightarrow> st)
      else st)"

definition block_stop :: "anthropic_stream \<Rightarrow> anthropic_stream" where
  "block_stop st =
     (if ay_in_thinking st
      then st\<lparr>ay_blocks := ay_blocks st @ [\<lparr>tb_thinking = ay_thinking st, tb_signature = ay_signature st\<rparr>],
              ay_thinking := [], ay_signature := [], ay_in_thinking := False\<rparr>
      else st)"

definition process_sse_event :: "json \<Rightarrow> anthropic_stream \<Rightarrow> anthropic_stream" where
  "process_sse_event event st =
     (case text_at (Some event) ''type'' of
        None \<Rightarrow> st
      | Some t \<Rightarrow>
          if t = ''content_block_start'' then
            (if text_at (json_get event ''content_block'') ''type'' = Some ''thinking''
             then st\<lparr>ay_in_thinking := True\<rparr> else st)
          else if t = ''content_block_stop'' then block_stop st
          else if t = ''content_block_delta'' then block_delta (json_get event ''delta'') st
          else st)"

definition anthropic_data :: "openai_env \<Rightarrow> bytes \<Rightarrow> anthropic_stream \<Rightarrow> anthropic_stream" where
  "anthropic_data env data st =
     (case ov_parse env data of Some v \<Rightarrow> process_sse_event (json_value v) st | None \<Rightarrow> st)"

definition anthropic_read ::
  "openai_env \<Rightarrow> anthropic_provider \<Rightarrow> stream_item list \<Rightarrow> cancel_reason option \<Rightarrow> bytes list \<times> answer" where
  "anthropic_read env self items slot =
     (let (st, err) = read_events (anthropic_data env) items [] anthropic_stream_init
      in (ay_sent st,
          case err of
            Some e \<Rightarrow> Inl (Typed e)
          | None \<Rightarrow>
              (case slot of
                 Some r \<Rightarrow> Inl (Typed (cancel_error ''anthropic'' r (text_partial (ay_content st))))
               | None \<Rightarrow>
                   Inr (vendor_response ''anthropic'' (effective (an_model self)) (ay_content st) [] None None
                     (ay_blocks st)))))"

definition anthropic_chat ::
  "openai_env \<Rightarrow> anthropic_provider \<Rightarrow> http_world \<Rightarrow> http_world \<times> answer option" where
  "anthropic_chat env self w =
     (case retry_http_post_custom (ov_http env) ''anthropic'' RETRYABLE_ANTHROPIC (an_max_retries self) w of
        (w1, None) \<Rightarrow> (w1, None)
      | (w1, Some (Inl e)) \<Rightarrow> (w1, Some (Inl (Untyped e)))
      | (w1, Some (Inr body_text)) \<Rightarrow>
          (w1, Some (case Option.bind (ov_parse env body_text) anthropic_response of
             None \<Rightarrow> Inl (Untyped (''anthropic response parse error: '' @ ov_detail env body_text))
           | Some r \<Rightarrow> Inr (parse_anthropic_response r (effective (an_model self))))))"

text \<open>With tools both providers call \<open>chat\<close> and send the text at once, unless there are tool calls.\<close>

definition whole_answer :: "answer option \<Rightarrow> (bytes list \<times> answer) option" where
  "whole_answer r = map_option (\<lambda>a. case a of
       Inl e \<Rightarrow> ([], Inl e)
     | Inr resp \<Rightarrow>
         (if lr_tool_calls resp = [] \<and> strip_thinking (lr_content resp) \<noteq> [] then [strip_thinking (lr_content resp)] else [],
          Inr resp)) r"

definition anthropic_chat_stream ::
  "openai_env \<Rightarrow> anthropic_provider \<Rightarrow> tool_definition list \<Rightarrow> http_world \<Rightarrow> http_world \<times> (bytes list \<times> answer) option" where
  "anthropic_chat_stream env self tools w =
     (if tools \<noteq> [] then (let (w1, r) = anthropic_chat env self w in (w1, whole_answer r))
      else case send_request (ov_http env) w of
        (w1, Inl e) \<Rightarrow>
          (w1, Some ([], Inl (Typed (classify_reqwest_err e ''anthropic'' (connect_secs (an_timeouts self))
             (request_secs (an_timeouts self))))))
      | (w1, Inr resp) \<Rightarrow>
          if \<not> is_success (hs_status resp) then (w1, Some ([], Inl (status_error ''anthropic'' resp)))
          else (let (items, slot) = stream_with_cancellation (an_timeouts self) (ov_cancel env) (hs_stream resp)
                in (w1, Some (anthropic_read env self items slot))))"

section \<open>Gemini: requests\<close>

definition gemini_text :: "bytes \<Rightarrow> json" where
  "gemini_text t = JObject [(''text'', JString t)]"

definition gemini_parts :: "bytes \<Rightarrow> json list \<Rightarrow> json" where
  "gemini_parts role parts = JObject [(''role'', JString role), (''parts'', JArray parts)]"

definition function_response :: "bytes \<Rightarrow> bytes \<Rightarrow> json" where
  "function_response name result =
     JObject [(''functionResponse'',
       JObject [(''name'', JString name), (''response'', JObject [(''result'', JString result)])])]"

definition function_call :: "tool_call \<Rightarrow> json" where
  "function_call tc =
     JObject [(''functionCall'', JObject [(''name'', JString (tc_name tc)), (''args'', tc_arguments tc)])]"

definition gemini_message :: "message \<Rightarrow> json" where
  "gemini_message m =
     (let role = (if msg_role m = Assistant then ''model'' else ''user'');
          calls = unwrap_or (msg_tool_calls m) []
      in if msg_role m = Tool then
           gemini_parts role [function_response (unwrap_or (msg_tool_call_id m) ''unknown'') (msg_content m)]
         else if msg_role m = Assistant \<and> calls \<noteq> [] then
           gemini_parts role ((if msg_content m = [] then [] else [gemini_text (msg_content m)]) @ map function_call calls)
         else gemini_parts role [gemini_text (msg_content m)])"

definition messages_to_gemini_format :: "message list \<Rightarrow> bytes option \<times> json list" where
  "messages_to_gemini_format ms = (first_system ms, map gemini_message (without_system ms))"

function strip_empty_required :: "json \<Rightarrow> json" where
  "strip_empty_required (JObject kvs) =
     JObject (map (\<lambda>(k, v). (k, strip_empty_required v)) (filter (\<lambda>(k, v). \<not> (k = ''required'' \<and> v = JArray [])) kvs))"
| "strip_empty_required (JArray xs) = JArray (map strip_empty_required xs)"
| "strip_empty_required JNull = JNull"
| "strip_empty_required (JBool b) = JBool b"
| "strip_empty_required (JInt i) = JInt i"
| "strip_empty_required (JFloat f) = JFloat f"
| "strip_empty_required (JString s) = JString s"
  by pat_completeness auto
termination
proof (relation "measure size")
  fix kvs :: json_object and x k v
  assume x: "x \<in> set (filter (\<lambda>(k, v). \<not> (k = ''required'' \<and> v = JArray [])) kvs)" "(k, v) = x"
  then have "(k, v) \<in> set kvs" by auto
  then have "size_prod (\<lambda>_. 0) size (k, v) \<le> size_list (size_prod (\<lambda>_. 0) size) kvs"
    by (intro size_list_estimation') auto
  then show "(v, JObject kvs) \<in> measure size" by simp
qed (auto simp: less_Suc_eq_le intro: size_list_estimation')

definition gemini_tool :: "tool_definition \<Rightarrow> json" where
  "gemini_tool t =
     JObject [(''name'', JString (td_name t)), (''description'', JString (td_description t)),
       (''parameters'', strip_empty_required (td_input_schema t))]"

definition gemini_body :: "google_provider \<Rightarrow> message list \<Rightarrow> tool_definition list \<Rightarrow> json" where
  "gemini_body self ms tools =
     (let (system, contents) = messages_to_gemini_format ms
      in JObject ([(''contents'', JArray contents),
           (''generationConfig'', JObject [(''temperature'', JFloat (go_temperature self)),
              (''maxOutputTokens'', JInt (int (unwrap_or (go_max_tokens self) 8192)))])]
         @ (case system of
              Some sys \<Rightarrow> [(''systemInstruction'', JObject [(''parts'', JArray [gemini_text sys])])] | None \<Rightarrow> [])
         @ (if tools = [] then []
            else (''tools'', JArray [JObject [(''functionDeclarations'', JArray (map gemini_tool tools))]])
              # (case forced_skill_tool ms tools of
                   Some n \<Rightarrow> [(''toolConfig'', JObject [(''functionCallingConfig'',
                     JObject [(''mode'', JString ''ANY''), (''allowedFunctionNames'', JArray [JString n])])])]
                 | None \<Rightarrow> []))))"

section \<open>Gemini: answers\<close>

record gemini_part =
  gp_text :: "bytes option"
  gp_call :: "(bytes \<times> json option) option"

definition gemini_call_of :: "json \<Rightarrow> (bytes \<times> json option) option" where
  "gemini_call_of v =
     (let fs = [(''name'', False), (''args'', False)]
      in Option.bind (required json_as_str (struct_field fs v ''name'')) (\<lambda>n.
         Option.bind (optional Some (struct_field fs v ''args'')) (\<lambda>a. Some (n, map_option json_value a))))"

definition gemini_part_of :: "json \<Rightarrow> gemini_part option" where
  "gemini_part_of v =
     (let fs = [(''text'', False), (''functionCall'', False)]
      in Option.bind (optional json_as_str (struct_field fs v ''text'')) (\<lambda>t.
         Option.bind (optional gemini_call_of (struct_field fs v ''functionCall'')) (\<lambda>c.
           Some \<lparr>gp_text = t, gp_call = c\<rparr>)))"

record gemini_candidate =
  gc_parts :: "gemini_part list option"
  gc_finish_reason :: "bytes option"

definition gemini_content_of :: "json \<Rightarrow> gemini_part list option option" where
  "gemini_content_of v = optional (vec_of gemini_part_of) (struct_field [(''parts'', False)] v ''parts'')"

definition gemini_candidate_of :: "json \<Rightarrow> gemini_candidate option" where
  "gemini_candidate_of v =
     (let fs = [(''content'', False), (''finishReason'', False)]
      in Option.bind (optional gemini_content_of (struct_field fs v ''content'')) (\<lambda>c.
         Option.bind (optional json_as_str (struct_field fs v ''finishReason'')) (\<lambda>fr.
           Some \<lparr>gc_parts = Option.bind c id, gc_finish_reason = fr\<rparr>)))"

definition gemini_usage :: "json \<Rightarrow> token_usage option" where
  "gemini_usage v =
     (let fs = [(''promptTokenCount'', False), (''candidatesTokenCount'', False)]
      in Option.bind (optional as_u32 (struct_field fs v ''promptTokenCount'')) (\<lambda>p.
         Option.bind (optional as_u32 (struct_field fs v ''candidatesTokenCount'')) (\<lambda>c.
           Some \<lparr>input_tokens = unwrap_or p 0, output_tokens = unwrap_or c 0\<rparr>)))"

definition gemini_response :: "json \<Rightarrow> (gemini_candidate list option \<times> token_usage option) option" where
  "gemini_response v =
     (let fs = [(''candidates'', False), (''usageMetadata'', False)]
      in Option.bind (optional (vec_of gemini_candidate_of) (struct_field fs v ''candidates'')) (\<lambda>cs.
         Option.bind (optional gemini_usage (struct_field fs v ''usageMetadata'')) (\<lambda>u. Some (cs, u))))"

text \<open>The loop over the parts, \<open>i\<close> the number of the part.\<close>

fun gemini_add_parts :: "nat \<Rightarrow> gemini_part list \<Rightarrow> bytes \<times> tool_call list \<Rightarrow> bytes \<times> tool_call list" where
  "gemini_add_parts i [] acc = acc"
| "gemini_add_parts i (p # ps) (content, calls) =
     (let content1 = (case gp_text p of
             Some t \<Rightarrow> content @ (if content \<noteq> [] then [newline] else []) @ t | None \<Rightarrow> content);
          calls1 = (case gp_call p of
             Some (n, args) \<Rightarrow>
               calls @ [\<lparr>tc_id = ''call_'' @ show_nat i, tc_name = n, tc_arguments = unwrap_or args (JObject [])\<rparr>]
           | None \<Rightarrow> calls)
      in gemini_add_parts (Suc i) ps (content1, calls1))"

definition parse_gemini_response ::
  "gemini_candidate list option \<times> token_usage option \<Rightarrow> bytes \<Rightarrow> llm_response" where
  "parse_gemini_response api_resp model =
     (let (candidates, usage) = api_resp;
          (content, calls, finish) = (case candidates of
              Some (c # _) \<Rightarrow>
                (let (content, calls) = gemini_add_parts 0 (unwrap_or (gc_parts c) []) ([], [])
                 in (content, calls, gc_finish_reason c))
            | _ \<Rightarrow> ([], [], None))
      in vendor_response ''google'' model content calls usage finish [])"

record gemini_stream =
  gy_content :: bytes
  gy_filter :: thinking_filter
  gy_finish_reason :: "bytes option"
  gy_sent :: "bytes list"

definition gemini_stream_init :: gemini_stream where
  "gemini_stream_init = \<lparr>gy_content = [], gy_filter = filter_new, gy_finish_reason = None, gy_sent = []\<rparr>"

definition gemini_stream_text :: "bytes \<Rightarrow> gemini_stream \<Rightarrow> gemini_stream" where
  "gemini_stream_text t st =
     (let (f, filtered) = process (gy_filter st) t
      in st\<lparr>gy_content := gy_content st @ t, gy_filter := f,
            gy_sent := gy_sent st @ (if filtered \<noteq> [] then [filtered] else [])\<rparr>)"

definition gemini_stream_part :: "gemini_part \<Rightarrow> gemini_stream \<Rightarrow> gemini_stream" where
  "gemini_stream_part p st = (case gp_text p of Some t \<Rightarrow> gemini_stream_text t st | None \<Rightarrow> st)"

definition gemini_stream_candidate :: "gemini_candidate \<Rightarrow> gemini_stream \<Rightarrow> gemini_stream" where
  "gemini_stream_candidate c st =
     (let st1 = (case gc_finish_reason c of Some fr \<Rightarrow> st\<lparr>gy_finish_reason := Some fr\<rparr> | None \<Rightarrow> st)
      in fold gemini_stream_part (unwrap_or (gc_parts c) []) st1)"

definition gemini_data :: "openai_env \<Rightarrow> bytes \<Rightarrow> gemini_stream \<Rightarrow> gemini_stream" where
  "gemini_data env data st =
     (case Option.bind (ov_parse env data) gemini_response of
        Some (Some cs, _) \<Rightarrow> fold gemini_stream_candidate cs st
      | _ \<Rightarrow> st)"

definition gemini_read ::
  "openai_env \<Rightarrow> google_provider \<Rightarrow> stream_item list \<Rightarrow> cancel_reason option \<Rightarrow> bytes list \<times> answer" where
  "gemini_read env self items slot =
     (let (st, err) = read_events (gemini_data env) items [] gemini_stream_init
      in (gy_sent st,
          case err of
            Some e \<Rightarrow> Inl (Typed e)
          | None \<Rightarrow>
              (case slot of
                 Some r \<Rightarrow> Inl (Typed (cancel_error ''google'' r (text_partial (gy_content st))))
               | None \<Rightarrow>
                   Inr (vendor_response ''google'' (effective (go_model self)) (gy_content st) [] None
                     (gy_finish_reason st) []))))"

definition gemini_api_key :: "openai_env \<Rightarrow> google_provider \<Rightarrow> (anyhow_error, bytes) result" where
  "gemini_api_key env self =
     (case resolve_credential (ov_secrets env) (go_credential_scope self) (go_api_key_name self) of
        Some k \<Rightarrow> Inr k
      | None \<Rightarrow> Inl (Untyped (''Google API key not found ('' @ go_api_key_name self @ '')'')))"

definition gemini_chat :: "openai_env \<Rightarrow> google_provider \<Rightarrow> http_world \<Rightarrow> http_world \<times> answer option" where
  "gemini_chat env self w =
     (case gemini_api_key env self of
        Inl e \<Rightarrow> (w, Some (Inl e))
      | Inr api_key \<Rightarrow>
          (case retry_http_post_custom (ov_http env) ''google'' RETRYABLE_OPENAI (go_max_retries self) w of
             (w1, None) \<Rightarrow> (w1, None)
           | (w1, Some (Inl e)) \<Rightarrow> (w1, Some (Inl (Untyped e)))
           | (w1, Some (Inr body_text)) \<Rightarrow>
               (w1, Some (case Option.bind (ov_parse env body_text) gemini_response of
                  None \<Rightarrow> Inl (Untyped (''google response parse error: '' @ ov_detail env body_text))
                | Some r \<Rightarrow> Inr (parse_gemini_response r (effective (go_model self)))))))"

definition gemini_chat_stream ::
  "openai_env \<Rightarrow> google_provider \<Rightarrow> tool_definition list \<Rightarrow> http_world \<Rightarrow> http_world \<times> (bytes list \<times> answer) option" where
  "gemini_chat_stream env self tools w =
     (if tools \<noteq> [] then (let (w1, r) = gemini_chat env self w in (w1, whole_answer r))
      else case gemini_api_key env self of
        Inl e \<Rightarrow> (w, Some ([], Inl e))
      | Inr api_key \<Rightarrow>
          (case send_request (ov_http env) w of
             (w1, Inl e) \<Rightarrow>
               (w1, Some ([], Inl (Typed (classify_reqwest_err e ''google'' (connect_secs (go_timeouts self))
                  (request_secs (go_timeouts self))))))
           | (w1, Inr resp) \<Rightarrow>
               if \<not> is_success (hs_status resp) then (w1, Some ([], Inl (status_error ''google'' resp)))
               else (let (items, slot) = stream_with_cancellation (go_timeouts self) (ov_cancel env) (hs_stream resp)
                     in (w1, Some (gemini_read env self items slot)))))"

end
