(* ===== verification/Vendor_Facts.thy ===== *)
theory Vendor_Facts
  imports Vendor_Providers History Openai_Facts
begin

text \<open>
  Facts about the Anthropic and Gemini providers: which part of a history reaches them, how tool
  results are named, the bounds of the thinking budget, the cleaning of tool schemas, and the reading
  of event streams.
\<close>

section \<open>What of a history is sent\<close>

lemma system_msg_head: "system_msg ms = Some sys \<Longrightarrow> msg_role sys = System \<and> (\<exists>rest. ms = sys # rest)"
  by (cases ms) (auto simp: system_msg_def split: if_splits)

lemma summary_messages_system: "m \<in> set (summary_messages r) \<Longrightarrow> msg_role m = System"
  by (auto simp: summary_messages_def plain_message_def Let_def split: if_splits)

lemma rebuilt_first_system:
  "system_msg ms = None \<Longrightarrow> summary_messages r = [m] \<Longrightarrow> first_system (rebuild_messages ms e r) = Some (msg_content m)"
  using summary_messages_system [of m r] by (simp add: rebuild_messages_def first_system_def)

lemma summary_messages_one:
  "summary_messages r \<noteq> [] \<Longrightarrow>
    summary_messages r = [plain_message System (''[Previous conversation summary]'' @ [newline] @ strip_thinking r)]"
  by (auto simp: summary_messages_def Let_def split: if_splits)

text \<open>C16: In a history that begins with a system prompt the summary that a compaction puts in the place
  of the old messages does not reach Anthropic or Gemini: both requests take the text of the first system
  message only and leave the others out, and the summary is the second. The request is the one for a
  history whose old part was just deleted. This is for a summary without the marker of a detected skill,
  which the choice of the tools looks for in every message. It depends on the prompt: in a history without
  one the summary is itself the first system message, and is sent.\<close>

theorem compaction_summary_not_sent:
  assumes "system_msg ms = Some sys" and "\<not> contains summary ''## Relevant Skill Detected''"
    and "system_msg bare = None"
  shows "build_request_body self (sys # (plain_message System summary # drop e ms)) tools level
      = build_request_body self (sys # drop e ms) tools level
    \<and> gemini_body go (sys # (plain_message System summary # drop e ms)) tools = gemini_body go (sys # drop e ms) tools
    \<and> (\<forall>r. summary_messages r \<noteq> [] \<longrightarrow>
        rebuild_messages ms e r = sys # plain_message System (''[Previous conversation summary]'' @ [newline] @ strip_thinking r) # drop e ms
        \<and> first_system (rebuild_messages bare e r) = Some (''[Previous conversation summary]'' @ [newline] @ strip_thinking r))"
proof -
  have sys: "msg_role sys = System" using system_msg_head [OF assms(1)] by blast
  let ?with = "sys # plain_message System summary # drop e ms" and ?without = "sys # drop e ms"
  have "first_system ?with = first_system ?without" "without_system ?with = without_system ?without"
    using sys by (simp_all add: first_system_def without_system_def plain_message_def)
  moreover have "forced_skill_tool ?with tools = forced_skill_tool ?without tools"
    using assms(2) by (simp add: forced_skill_tool_def plain_message_def)
  moreover have "first_system (rebuild_messages bare e r) = Some (''[Previous conversation summary]'' @ [newline] @ strip_thinking r)"
    if "summary_messages r \<noteq> []" for r
    using rebuilt_first_system [OF assms(3) summary_messages_one [OF that], of e] by (simp add: plain_message_def)
  moreover have "rebuild_messages ms e r
      = sys # plain_message System (''[Previous conversation summary]'' @ [newline] @ strip_thinking r) # drop e ms"
    if "summary_messages r \<noteq> []" for r
    using assms(1) summary_messages_one [OF that] by (simp add: rebuild_messages_def)
  ultimately show ?thesis
    by (simp add: build_request_body_def gemini_body_def messages_to_gemini_format_def Let_def)
qed

theorem compaction_summary_not_sent_witness:
  "\<forall>go. gemini_body go [plain_message System ''You help.'', plain_message System ''[Previous conversation summary]'',
                           plain_message User ''And now?''] []
      = gemini_body go [plain_message System ''You help.'', plain_message User ''And now?''] []"
proof
  fix go
  let ?ms = "[plain_message System ''You help.'', plain_message User ''And now?'']"
  have "system_msg ?ms = Some (plain_message System ''You help.'')" by (simp add: system_msg_def plain_message_def)
  moreover have "\<not> contains ''[Previous conversation summary]'' ''## Relevant Skill Detected''" by code_simp
  ultimately show "gemini_body go [plain_message System ''You help.'', plain_message System ''[Previous conversation summary]'',
                           plain_message User ''And now?''] []
      = gemini_body go [plain_message System ''You help.'', plain_message User ''And now?''] []"
    using compaction_summary_not_sent [of ?ms _ "''[Previous conversation summary]''" "[]" undefined 1 "[]" 0 go]
    by (simp add: system_msg_def [of "[]"])
qed

section \<open>Tool results for Gemini\<close>

lemma gemini_add_parts_calls:
  "gemini_add_parts i ps (content, calls) = (content', calls') \<Longrightarrow>
    \<exists>more. calls' = calls @ more \<and> (\<forall>c \<in> set more. \<exists>j. tc_id c = ''call_'' @ show_nat j)"
proof (induction ps arbitrary: i content calls)
  case (Cons p ps)
  let ?new = "case gp_call p of
      Some (n, args) \<Rightarrow> [\<lparr>tc_id = ''call_'' @ show_nat i, tc_name = n, tc_arguments = unwrap_or args (JObject [])\<rparr>] | None \<Rightarrow> []"
  obtain content1 where step: "gemini_add_parts (Suc i) ps (content1, calls @ ?new) = (content', calls')"
    using Cons.prems by (cases "gp_call p") (auto simp: Let_def)
  from Cons.IH [OF step] obtain rest where rest: "calls' = (calls @ ?new) @ rest"
    "\<forall>c \<in> set rest. \<exists>j. tc_id c = ''call_'' @ show_nat j" by blast
  have "\<exists>j. tc_id c = ''call_'' @ show_nat j" if "c \<in> set (?new @ rest)" for c
    using that rest(2) by (cases "gp_call p") auto
  then show ?case using rest(1) by (intro exI [of _ "?new @ rest"]) auto
qed simp

text \<open>The result of a tool is returned to Gemini under a name that no tool has. The provider numbers
  the calls of an answer from zero, in every answer again, and sends this number where the interface expects
  the name of the function that was called.\<close>

theorem gemini_results_misnamed:
  assumes "c \<in> set (lr_tool_calls (parse_gemini_response r model))"
  shows "\<exists>i. tc_id c = ''call_'' @ show_nat i
    \<and> gemini_message ((plain_message Tool res)\<lparr>msg_tool_call_id := Some (tc_id c)\<rparr>)
      = gemini_parts ''user'' [function_response (''call_'' @ show_nat i) res]
    \<and> function_call c = JObject [(''functionCall'', JObject [(''name'', JString (tc_name c)), (''args'', tc_arguments c)])]"
proof -
  obtain cand rest usage where r: "r = (Some (cand # rest), usage)"
    using assms by (cases r) (auto simp: parse_gemini_response_def vendor_response_def split: option.splits list.splits prod.splits)
  obtain content calls where p: "gemini_add_parts 0 (unwrap_or (gc_parts cand) []) ([], []) = (content, calls)" by fastforce
  have "c \<in> set calls" using assms p by (simp add: r parse_gemini_response_def vendor_response_def)
  then obtain i where "tc_id c = ''call_'' @ show_nat i" using gemini_add_parts_calls [OF p] by auto
  then show ?thesis by (auto simp: gemini_message_def plain_message_def function_call_def)
qed

definition demo_gemini :: "gemini_candidate list option \<times> token_usage option" where
  "demo_gemini = (Some [\<lparr>gc_parts = Some [\<lparr>gp_text = None, gp_call = Some (''weather'', None)\<rparr>], gc_finish_reason = None\<rparr>], None)"

theorem gemini_results_misnamed_witness:
  "gemini_message ((plain_message Tool ''sunny'')\<lparr>msg_tool_call_id := Some (tc_id (hd (lr_tool_calls (parse_gemini_response demo_gemini ''g''))))\<rparr>)
      = gemini_parts ''user'' [function_response ''call_0'' ''sunny'']
    \<and> tc_name (hd (lr_tool_calls (parse_gemini_response demo_gemini ''g''))) = ''weather''"
proof -
  let ?c = "\<lparr>tc_id = ''call_'' @ show_nat 0, tc_name = ''weather'', tc_arguments = JObject []\<rparr>"
  have calls: "lr_tool_calls (parse_gemini_response demo_gemini ''g'') = [?c]"
    by (simp add: demo_gemini_def parse_gemini_response_def vendor_response_def)
  have zero: "show_nat 0 = ''0''" by code_simp
  have "?c \<in> set (lr_tool_calls (parse_gemini_response demo_gemini ''g''))" unfolding calls by simp
  from gemini_results_misnamed [OF this, of "''sunny''"] show ?thesis unfolding calls using zero by auto
qed

section \<open>Thinking budget\<close>

text \<open>For a model with a manual budget thinking is on exactly if the answer has at least 2024 tokens, and
  its budget then is at least 1024 and leaves 1000 tokens for the answer; for the other models it is on for
  every level above zero.\<close>

theorem thinking_budget_fits:
  "(thinking_config level model max_tokens = None) =
     (level = 0 \<or> thinking_mode_of model = Manual \<and> max_tokens < 2024)
   \<and> (case thinking_config level model max_tokens of
        Some v \<Rightarrow> thinking_mode_of model \<noteq> Manual
          \<or> (\<exists>b. v = JObject [(''type'', JString ''enabled''), (''budget_tokens'', JInt (int b))]
                \<and> 1024 \<le> b \<and> b + 1000 \<le> max_tokens \<and> b \<le> 32000)
      | None \<Rightarrow> True)"
  by (auto simp: thinking_config_def Let_def min_def split: if_splits)

section \<open>Tool schemas for Gemini\<close>

fun empty_required :: "json \<Rightarrow> bool" where
  "empty_required (JObject kvs) = list_ex (\<lambda>(k, v). k = ''required'' \<and> v = JArray [] \<or> empty_required v) kvs"
| "empty_required (JArray xs) = list_ex empty_required xs"
| "empty_required v = False"

lemma strip_empty_required_array: "strip_empty_required v = JArray [] \<longleftrightarrow> v = JArray []"
  by (cases v) auto

text \<open>After the cleaning a schema has no empty \<open>required\<close> list at any depth, and a schema without one is
  sent as it is.\<close>

theorem strip_empty_required_exact:
  "\<not> empty_required (strip_empty_required v) \<and> (empty_required v \<or> strip_empty_required v = v)"
proof (induction v rule: strip_empty_required.induct)
  case (1 kvs)
  let ?keep = "filter (\<lambda>(k, v). \<not> (k = ''required'' \<and> v = JArray [])) kvs"
  have clean: "\<not> empty_required (strip_empty_required v)" and same: "empty_required v \<or> strip_empty_required v = v"
    if "(k, v) \<in> set ?keep" for k v using "1.IH" [OF that refl] by auto
  have "\<not> empty_required (strip_empty_required (JObject kvs))"
    using clean by (auto simp: list_ex_iff strip_empty_required_array)
  moreover have "strip_empty_required (JObject kvs) = JObject kvs" if n: "\<not> empty_required (JObject kvs)"
  proof -
    have keep: "?keep = kvs" using n by (auto simp: list_ex_iff filter_id_conv)
    have "map (\<lambda>(k, v). (k, strip_empty_required v)) kvs = kvs"
      using same n unfolding keep by (intro map_idI) (auto simp: list_ex_iff)
    then show ?thesis using keep by simp
  qed
  ultimately show ?case by blast
next
  case (2 xs)
  then show ?case by (auto simp: list_ex_iff intro!: map_idI)
qed auto

section \<open>Event streams\<close>

lemma feed_lines_append:
  "feed_lines f (buf @ t) st = (let (buf1, st1) = feed_lines f buf st in feed_lines f (buf1 @ t) st1)"
proof (induction f buf st rule: feed_lines.induct)
  case (1 f buf st)
  show ?case
  proof (cases "find_char buf newline")
    case None
    then show ?thesis by (simp add: feed_lines.simps [of f buf st])
  next
    case (Some i)
    then have "find_char (buf @ t) newline = Some i" "i < length buf"
      using find_char_Some [OF Some] find_char_after [OF Some] by auto
    then show ?thesis using Some "1.IH" [OF Some]
      by (simp add: feed_lines.simps [of f buf st] feed_lines.simps [of f "buf @ t" st])
  qed
qed

lemma feed_lines_rest: "newline \<notin> set (fst (feed_lines f buf st))"
proof (induction f buf st rule: feed_lines.induct)
  case (1 f buf st)
  then show ?case by (cases "find_char buf newline") (simp_all add: feed_lines.simps [of f buf st] find_char_None [symmetric])
qed

lemma read_events_whole:
  assumes "\<forall>b \<in> set bs. wf_utf8 b" and "newline \<notin> set buf"
  shows "read_events f (map Inr bs) buf st = (snd (feed_lines f (buf @ concat bs) st), None)"
  using assms
proof (induction bs arbitrary: buf st)
  case Nil
  then have "find_char buf newline = None" by (simp add: find_char_None)
  then show ?case by (simp add: feed_lines.simps [of f buf st])
next
  case (Cons b bs)
  obtain buf1 st1 where p: "feed_lines f (buf @ b) st = (buf1, st1)" by fastforce
  have "newline \<notin> set buf1" using feed_lines_rest [of f "buf @ b" st] p by simp
  then have "read_events f (map Inr bs) buf1 st1 = (snd (feed_lines f (buf1 @ concat bs) st1), None)"
    using Cons.IH Cons.prems(1) by simp
  moreover have "feed_lines f (buf @ concat (b # bs)) st = feed_lines f (buf1 @ concat bs) st1"
    using feed_lines_append [of f "buf @ b" "concat bs" st] p by simp
  ultimately show ?case using p Cons.prems(1) by (simp add: lossy_id)
qed

lemma read_events_cuts:
  assumes "concat bs = concat bs'" and "\<forall>b \<in> set bs \<union> set bs'. wf_utf8 b"
  shows "read_events f (map Inr bs) [] st = read_events f (map Inr bs') [] st"
  using read_events_whole [of bs "[]" f st] read_events_whole [of bs' "[]" f st] assms by simp

text \<open>The answers of Anthropic and Gemini do not depend on how the network cuts their streams, as long
  as no character is cut.\<close>

theorem vendor_answers_independent_of_cuts:
  assumes "concat bs = concat bs'" and "\<forall>b \<in> set bs \<union> set bs'. wf_utf8 b"
  shows "anthropic_read env an (map Inr bs) slot = anthropic_read env an (map Inr bs') slot
    \<and> gemini_read env go (map Inr bs) slot = gemini_read env go (map Inr bs') slot"
  unfolding anthropic_read_def gemini_read_def read_events_cuts [OF assms] by simp

theorem vendor_answers_independent_of_cuts_witness:
  "\<forall>env an. anthropic_read env an (map Inr [''da'', ''ta: {}'' @ [newline]]) None
     = anthropic_read env an (map Inr [''data: {}'', [newline]]) None"
proof (intro allI vendor_answers_independent_of_cuts [THEN conjunct1])
  show "\<forall>b \<in> set [''da'', ''ta: {}'' @ [newline]] \<union> set [''data: {}'', [newline]]. wf_utf8 b"
    by (auto intro!: wf_utf8_ascii simp: newline_def)
qed simp

section \<open>The blocks of an Anthropic stream\<close>

text \<open>The events that announce a block, as the interface documents them: its start, its deltas, its stop.\<close>

datatype streamed_block = StreamedText "bytes list" | StreamedThinking "bytes list" "bytes list"

definition typed_event :: "bytes \<Rightarrow> json_object \<Rightarrow> json" where
  "typed_event t kvs = JObject ((''type'', JString t) # kvs)"

definition delta_event :: "bytes \<Rightarrow> bytes \<Rightarrow> bytes \<Rightarrow> json" where
  "delta_event kind k t =
     typed_event ''content_block_delta'' [(''delta'', JObject [(''type'', JString kind), (k, JString t)])]"

definition vendor_start_event :: "bytes \<Rightarrow> json" where
  "vendor_start_event kind = typed_event ''content_block_start'' [(''content_block'', JObject [(''type'', JString kind)])]"

fun block_events :: "streamed_block \<Rightarrow> json list" where
  "block_events (StreamedText ts) =
     vendor_start_event ''text'' # map (delta_event ''text_delta'' ''text'') ts @ [typed_event ''content_block_stop'' []]"
| "block_events (StreamedThinking ts ss) =
     vendor_start_event ''thinking'' # map (delta_event ''thinking_delta'' ''thinking'') ts
       @ map (delta_event ''signature_delta'' ''signature'') ss @ [typed_event ''content_block_stop'' []]"

fun text_pieces :: "streamed_block \<Rightarrow> bytes list" where
  "text_pieces (StreamedText ts) = ts"
| "text_pieces (StreamedThinking ts ss) = []"

fun thinking_of :: "streamed_block \<Rightarrow> thinking_block list" where
  "thinking_of (StreamedText ts) = []"
| "thinking_of (StreamedThinking ts ss) = [\<lparr>tb_thinking = concat ts, tb_signature = concat ss\<rparr>]"

lemma event_simps:
  "process_sse_event (delta_event ''text_delta'' ''text'' t) st = st\<lparr>ay_content := ay_content st @ t, ay_sent := ay_sent st @ [t]\<rparr>"
  "process_sse_event (delta_event ''thinking_delta'' ''thinking'' t) st = st\<lparr>ay_thinking := ay_thinking st @ t\<rparr>"
  "process_sse_event (delta_event ''signature_delta'' ''signature'' t) st = st\<lparr>ay_signature := ay_signature st @ t\<rparr>"
  "process_sse_event (vendor_start_event ''text'') st = st"
  "process_sse_event (vendor_start_event ''thinking'') st = st\<lparr>ay_in_thinking := True\<rparr>"
  "process_sse_event (typed_event ''content_block_stop'' []) st = block_stop st"
  by (simp_all add: process_sse_event_def delta_event_def vendor_start_event_def typed_event_def text_at_def json_get_def
      block_delta_def json_as_str_def)

lemma fold_text_deltas:
  "fold process_sse_event (map (delta_event ''text_delta'' ''text'') ts) st
    = st\<lparr>ay_content := ay_content st @ concat ts, ay_sent := ay_sent st @ ts\<rparr>"
  by (induction ts arbitrary: st) (simp_all add: event_simps)

lemma fold_thinking_deltas:
  "fold process_sse_event (map (delta_event ''thinking_delta'' ''thinking'') ts) st
    = st\<lparr>ay_thinking := ay_thinking st @ concat ts\<rparr>"
  by (induction ts arbitrary: st) (simp_all add: event_simps)

lemma fold_signature_deltas:
  "fold process_sse_event (map (delta_event ''signature_delta'' ''signature'') ts) st
    = st\<lparr>ay_signature := ay_signature st @ concat ts\<rparr>"
  by (induction ts arbitrary: st) (simp_all add: event_simps)

definition between_blocks :: "anthropic_stream \<Rightarrow> bool" where
  "between_blocks st \<longleftrightarrow> ay_thinking st = [] \<and> ay_signature st = [] \<and> \<not> ay_in_thinking st"

lemma fold_block_events:
  assumes "between_blocks st"
  shows "fold process_sse_event (block_events b) st
    = st\<lparr>ay_content := ay_content st @ concat (text_pieces b), ay_sent := ay_sent st @ text_pieces b,
         ay_blocks := ay_blocks st @ thinking_of b\<rparr>"
  using assms
  by (cases b) (simp_all add: event_simps fold_text_deltas fold_thinking_deltas fold_signature_deltas block_stop_def
      between_blocks_def)

text \<open>An Anthropic stream is read back exactly: for every sequence of text and thinking blocks, cut into
  any pieces, the client gets the text pieces in order, the answer is their concatenation, and the thinking
  blocks are returned with their signatures, none of them mixed up with another.\<close>

theorem anthropic_stream_round_trip:
  "fold process_sse_event (concat (map block_events bs)) anthropic_stream_init
    = \<lparr>ay_content = concat (concat (map text_pieces bs)), ay_sent = concat (map text_pieces bs), ay_thinking = [],
       ay_signature = [], ay_in_thinking = False, ay_blocks = concat (map thinking_of bs)\<rparr>"
proof -
  have "between_blocks st \<Longrightarrow> fold process_sse_event (concat (map block_events bs)) st
    = st\<lparr>ay_content := ay_content st @ concat (concat (map text_pieces bs)),
         ay_sent := ay_sent st @ concat (map text_pieces bs), ay_blocks := ay_blocks st @ concat (map thinking_of bs)\<rparr>" for st
  proof (induction bs arbitrary: st)
    case (Cons b bs)
    let ?st = "st\<lparr>ay_content := ay_content st @ concat (text_pieces b), ay_sent := ay_sent st @ text_pieces b,
         ay_blocks := ay_blocks st @ thinking_of b\<rparr>"
    have "between_blocks ?st" using Cons.prems by (simp add: between_blocks_def)
    then show ?case using Cons.IH [of ?st] fold_block_events [OF Cons.prems, of b] by simp
  qed simp
  from this [of anthropic_stream_init] show ?thesis by (simp add: between_blocks_def anthropic_stream_init_def)
qed

end
