(* ===== verification/Yaml_Tools.thy ===== *)
theory Yaml_Tools
  imports Hyde_Types Text_Codec Ssrf "HOL-Library.Char_ord" "HOL-Library.List_Lexorder"
begin

text \<open>
  \<open>tools/yaml_tools.rs\<close>: HTTP tools that are defined in YAML files. The definition and what the model
  sees of it, the request made of it (parameters, authentication, body), its execution with retries and
  pagination, and the processing of the answer.

  HTTP, the secret store, the process environment, the JSON printer and parser and the encodings of
  other crates are fields of the environment. A map that the code iterates in an order it does not fix
  (\<open>HashMap\<close>) is a list in an arbitrary order; an object of \<open>serde_json\<close> is iterated by its keys in
  byte order.
\<close>

section \<open>Definitions\<close>

datatype tool_status = Verified | Draft | Disabled

datatype param_location = PathParam | QueryParam | BodyParam | HeaderParam

text \<open>A number of a definition may be infinite or not a number.\<close>

datatype yaml_number = Finite rat | NotFinite

record yaml_param =
  yp_type :: bytes
  yp_required :: bool
  yp_location :: param_location
  yp_description :: bytes
  yp_default :: "json option"
  yp_enum_values :: "bytes list"
  yp_minimum :: "yaml_number option"
  yp_maximum :: "yaml_number option"
  yp_examples :: "bytes list"
  yp_default_from_env :: "bytes option"

record yaml_auth =
  ya_type :: bytes
  ya_key :: "bytes option"
  ya_username_key :: "bytes option"
  ya_password_key :: "bytes option"
  ya_header_name :: "bytes option"
  ya_param_name :: "bytes option"
  ya_headers :: "(bytes \<times> bytes) list option"
  ya_token_url :: "bytes option"
  ya_token_body :: "bytes option"
  ya_token_field :: "bytes option"

record yaml_retry =
  yr_max_attempts :: nat
  yr_backoff_base_ms :: nat
  yr_retry_on :: "nat list"

record yaml_pagination =
  yg_type :: bytes
  yg_param :: bytes
  yg_limit_param :: "bytes option"
  yg_limit :: "32 word option"
  yg_max_pages :: "nat option"
  yg_results_path :: "bytes option"
  yg_next_path :: "bytes option"

record yaml_graphql =
  yq_query :: bytes
  yq_variables :: "(bytes \<times> bytes) list option"

datatype response_step = Jsonpath bytes | PickFields "bytes list" | SortBy bytes bool | Limit nat

record yaml_tool =
  yt_name :: bytes
  yt_description :: bytes
  yt_endpoint :: bytes
  yt_method :: bytes
  yt_headers :: "(bytes \<times> bytes) list"
  yt_parameters :: "(bytes \<times> yaml_param) list"
  yt_auth :: "yaml_auth option"
  yt_body_template :: "bytes option"
  yt_response_transform :: "bytes option"
  yt_status :: tool_status
  yt_timeout :: nat
  yt_retry :: "yaml_retry option"
  yt_content_type :: bytes
  yt_pagination :: "yaml_pagination option"
  yt_response_schema :: "json option"
  yt_graphql :: "yaml_graphql option"
  yt_response_pipeline :: "response_step list"
  yt_channel_action :: "bytes option"
  yt_required_base :: bool
  yt_required_secrets :: "bytes list"

section \<open>Environment\<close>

text \<open>A request, with the client that sends it: the plain one or the one that refuses private addresses.\<close>

datatype http_kind = PlainClient | SsrfClient

datatype form_part = TextPart bytes | FilePart bytes bytes

datatype yaml_body =
    NoBody
  | RawBody bytes
  | JsonBody json
  | FormBody "(bytes \<times> bytes) list"
  | MultipartBody "(bytes \<times> form_part) list"

record http_request =
  rq_client :: http_kind
  rq_method :: bytes
  rq_url :: bytes
  rq_headers :: "(bytes \<times> bytes) list"
  rq_query :: "(bytes \<times> bytes) list"
  rq_body :: yaml_body

record yaml_response =
  ys_status :: nat
  ys_content_length :: "nat option"
  ys_text :: "(bytes, bytes) result"
  ys_bytes :: "(bytes, bytes) result"

text \<open>\<open>ye_reply n\<close>: the time until the answer to the \<open>n\<close>-th request, and the answer.\<close>

record yaml_env =
  ye_resolver :: "(bytes \<Rightarrow> bytes option) option"
  ye_var :: "bytes \<Rightarrow> bytes option"
  ye_get_token :: "(bytes \<Rightarrow> (bytes, bytes) result) option"
  ye_client :: http_kind
  ye_parse_url :: url_parser
  ye_ssrf_text :: "ssrf_error \<Rightarrow> bytes"
  ye_reply :: "nat \<Rightarrow> http_request \<Rightarrow> duration \<times> (bytes, yaml_response) result"
  ye_status_text :: "nat \<Rightarrow> bytes"
  ye_parse :: "bytes \<Rightarrow> json option"
  ye_parse_error :: "bytes \<Rightarrow> bytes"
  ye_print :: "json \<Rightarrow> bytes"
  ye_pretty :: "json \<Rightarrow> bytes option"
  ye_urlencode :: "bytes \<Rightarrow> bytes"
  ye_base64 :: "bytes \<Rightarrow> bytes"
  ye_uppercase :: "bytes \<Rightarrow> bytes"
  ye_f64 :: "int \<Rightarrow> rat"

record yaml_world =
  yw_requests :: "http_request list"
  yw_sleeps :: "duration list"

definition resolve_env :: "yaml_env \<Rightarrow> bytes \<Rightarrow> (bytes, bytes) result" where
  "resolve_env env key =
     (case Option.bind (ye_resolver env) (\<lambda>r. r key) of
        Some v \<Rightarrow> Inr v
      | None \<Rightarrow> (case ye_var env key of Some v \<Rightarrow> Inr v | None \<Rightarrow> Inl (''env var '' @ tick @ key @ tick @ '' not set'')))"

definition or_empty :: "(bytes, bytes) result \<Rightarrow> bytes" where
  "or_empty r = (case r of Inr v \<Rightarrow> v | Inl _ \<Rightarrow> [])"

definition value_text :: "yaml_env \<Rightarrow> json \<Rightarrow> bytes" where
  "value_text env v = (case v of JString s \<Rightarrow> s | _ \<Rightarrow> ye_print env v)"

text \<open>\<open>params.as_object()\<close>, in the order of iteration.\<close>

definition in_key_order :: "json_object \<Rightarrow> json_object" where
  "in_key_order kvs = sort_key fst kvs"

definition params_object :: "json \<Rightarrow> json_object" where
  "params_object params = (case params of JObject kvs \<Rightarrow> in_key_order kvs | _ \<Rightarrow> [])"

section \<open>What the model sees\<close>

definition number_json :: "yaml_number \<Rightarrow> json" where
  "number_json x = (case x of Finite r \<Rightarrow> JFloat r | NotFinite \<Rightarrow> JInt 0)"

definition param_schema :: "yaml_param \<Rightarrow> json" where
  "param_schema p =
     JObject ([(''type'', JString (yp_type p)),
         (''description'', JString (yp_description p
            @ (if yp_examples p = [] then [] else '' Examples: '' @ join '', '' (yp_examples p))))]
       @ (if yp_enum_values p = [] then [] else [(''enum'', JArray (map JString (yp_enum_values p)))])
       @ (case yp_default p of Some d \<Rightarrow> [(''default'', d)] | None \<Rightarrow> [])
       @ (case yp_minimum p of Some m \<Rightarrow> [(''minimum'', number_json m)] | None \<Rightarrow> [])
       @ (case yp_maximum p of Some m \<Rightarrow> [(''maximum'', number_json m)] | None \<Rightarrow> []))"

definition requires_secret :: "bytes \<Rightarrow> bytes" where
  "requires_secret k = '' [requires secret: '' @ k @ '']''"

definition to_tool_definition :: "yaml_env \<Rightarrow> yaml_tool \<Rightarrow> tool_definition" where
  "to_tool_definition env t =
     \<lparr>td_name = yt_name t,
      td_description = yt_description t
        @ (case Option.bind (yt_auth t) ya_key of Some k \<Rightarrow> requires_secret k | None \<Rightarrow> [])
        @ concat (map requires_secret (yt_required_secrets t))
        @ (case Option.bind (yt_response_schema t) (ye_pretty env) of
             Some pretty \<Rightarrow> [newline, newline] @ ''Response schema: '' @ pretty | None \<Rightarrow> []),
      td_input_schema = JObject [(''type'', JString ''object''),
        (''properties'', JObject (map (\<lambda>(n, p). (n, param_schema p)) (yt_parameters t))),
        (''required'', JArray (map (\<lambda>(n, p). JString n) (filter (\<lambda>(n, p). yp_required p) (yt_parameters t))))]\<rparr>"

section \<open>JSON path\<close>

text \<open>The results: \<open>None\<close> is a panic, \<open>Some None\<close> a path that does not apply.\<close>

definition parse_usize :: "bytes \<Rightarrow> nat option" where
  "parse_usize = parse_unsigned (2 ^ 64)"

text \<open>\<open>isize\<close> of a text that begins with a minus sign.\<close>

definition parse_negative :: "bytes \<Rightarrow> int option" where
  "parse_negative s =
     (if drop 1 s \<noteq> [] \<and> list_all is_ascii_digit (drop 1 s)
      then map_option (\<lambda>n. - int n) (parse_unsigned (2 ^ 63 + 1) (drop 1 s)) else None)"

definition array_slice :: "bytes \<Rightarrow> json list \<Rightarrow> json option option" where
  "array_slice idx arr =
     (let (s, e) = (case find_char idx CHR '':'' of
            Some i \<Rightarrow> (take i idx, drop (Suc i) idx) | None \<Rightarrow> (idx, []));
          start = unwrap_or (parse_usize s) 0;
          stop = min (unwrap_or (parse_usize e) (length arr)) (length arr)
      in if stop < start then None else Some (Some (JArray (drop start (take stop arr)))))"

definition array_item :: "json list \<Rightarrow> int \<Rightarrow> json option" where
  "array_item arr i = (if 0 \<le> i \<and> nat i < length arr then Some (arr ! nat i) else None)"

definition json_member :: "bytes \<Rightarrow> json \<Rightarrow> json option" where
  "json_member k v = (if k = [] then Some v else json_get v k)"

definition trim_end_brackets :: "bytes \<Rightarrow> bytes" where
  "trim_end_brackets s = rev (dropWhile (\<lambda>c. c = CHR '']'') (rev s))"

fun path_segments :: "bytes list \<Rightarrow> json \<Rightarrow> json option option" where
  "path_segments [] current = Some (Some current)"
| "path_segments (seg # segs) current =
     (if seg = [] then path_segments segs current
      else case find_char seg CHR ''['' of
        None \<Rightarrow> (case json_get current seg of None \<Rightarrow> Some None | Some v \<Rightarrow> path_segments segs v)
      | Some b \<Rightarrow>
          (let idx = trim_end_brackets (drop (Suc b) seg)
           in case json_member (take b seg) current of
                None \<Rightarrow> Some None
              | Some v \<Rightarrow>
                  if idx = ''*'' then (if json_as_array v = None then Some None else path_segments segs v)
                  else if CHR '':'' \<in> set idx then
                    (case json_as_array v of None \<Rightarrow> Some None | Some arr \<Rightarrow> array_slice idx arr)
                  else if starts_with idx ''-'' then
                    (case (json_as_array v, parse_negative idx) of
                       (Some arr, Some neg) \<Rightarrow>
                         (case array_item arr (int (length arr) + neg) of
                            None \<Rightarrow> Some None | Some x \<Rightarrow> path_segments segs x)
                     | _ \<Rightarrow> Some None)
                  else
                    (case (json_as_array v, parse_usize idx) of
                       (Some arr, Some i) \<Rightarrow>
                         (case array_item arr (int i) of None \<Rightarrow> Some None | Some x \<Rightarrow> path_segments segs x)
                     | _ \<Rightarrow> Some None)))"

definition apply_jsonpath :: "json \<Rightarrow> bytes \<Rightarrow> json option option" where
  "apply_jsonpath value path =
     (let p = dropWhile (\<lambda>c. c = CHR ''$'') (trim_prefixes ''$.'' (length path) path)
      in if p = [] then Some (Some value) else path_segments (split_char CHR ''.'' p) value)"

section \<open>Response pipeline\<close>

definition as_f64 :: "yaml_env \<Rightarrow> json \<Rightarrow> rat option" where
  "as_f64 env v = (case v of JInt i \<Rightarrow> Some (ye_f64 env i) | JFloat r \<Rightarrow> Some r | _ \<Rightarrow> None)"

definition sort_number :: "yaml_env \<Rightarrow> bytes \<Rightarrow> json \<Rightarrow> rat" where
  "sort_number env field v = unwrap_or (Option.bind (json_get v field) (as_f64 env)) 0"

definition pick :: "bytes list \<Rightarrow> json \<Rightarrow> json" where
  "pick names v = (case v of JObject kvs \<Rightarrow> JObject (filter (\<lambda>(k, _). k \<in> set names) kvs) | _ \<Rightarrow> v)"

definition on_array :: "(json list \<Rightarrow> json list) \<Rightarrow> json \<Rightarrow> json" where
  "on_array f v = (case json_as_array v of Some xs \<Rightarrow> JArray (f xs) | None \<Rightarrow> v)"

definition pipeline_step :: "yaml_env \<Rightarrow> response_step \<Rightarrow> json \<Rightarrow> json option" where
  "pipeline_step env s v = (case s of
       Jsonpath path \<Rightarrow> map_option (\<lambda>r. unwrap_or r v) (apply_jsonpath v path)
     | PickFields names \<Rightarrow> Some (on_array (map (pick names)) v)
     | SortBy field desc \<Rightarrow>
         Some (on_array (sort_key (\<lambda>x. if desc then - sort_number env field x else sort_number env field x)) v)
     | Limit n \<Rightarrow> Some (on_array (take n) v))"

fun apply_pipeline :: "yaml_env \<Rightarrow> response_step list \<Rightarrow> json \<Rightarrow> json option" where
  "apply_pipeline env [] v = Some v"
| "apply_pipeline env (s # ss) v = Option.bind (pipeline_step env s v) (apply_pipeline env ss)"

section \<open>Templates\<close>

definition placeholder :: "bytes \<Rightarrow> bytes" where
  "placeholder name = ''{{'' @ name @ ''}}''"

text \<open>Conditional blocks. One pass replaces the first opening tag, its next closing tag and what stands
  between them; \<open>None\<close> when there is nothing (more) to replace.\<close>

definition replace_block ::
  "bytes \<Rightarrow> bytes \<Rightarrow> (bytes \<Rightarrow> bool) \<Rightarrow> bytes \<Rightarrow> bytes option" where
  "replace_block open_tag end_tag keep s =
     (case str_find s open_tag of
        None \<Rightarrow> None
      | Some start \<Rightarrow>
          (let rest = drop (start + length open_tag) s
           in case str_find rest ''}}'' of
                None \<Rightarrow> None
              | Some c \<Rightarrow>
                  (let block = drop (c + 2) rest
                   in case str_find block end_tag of
                        None \<Rightarrow> None
                      | Some e \<Rightarrow>
                          Some (take start s @ (if keep (take c rest) then take e block else [])
                                @ drop (e + length end_tag) block))))"

lemma replace_block_shorter:
  assumes "replace_block open_tag end_tag keep s = Some t" and "open_tag \<noteq> []"
  shows "length t < length s"
proof -
  obtain start c e where start: "str_find s open_tag = Some start"
    and c: "str_find (drop (start + length open_tag) s) ''}}'' = Some c"
    and e: "str_find (drop (c + 2) (drop (start + length open_tag) s)) end_tag = Some e"
    and t: "t = take start s
      @ (if keep (take c (drop (start + length open_tag) s))
         then take e (drop (c + 2) (drop (start + length open_tag) s)) else [])
      @ drop (e + length end_tag) (drop (c + 2) (drop (start + length open_tag) s))"
    using assms(1) by (auto simp: replace_block_def Let_def split: option.splits)
  define rest where "rest = drop (start + length open_tag) s"
  define block where "block = drop (c + 2) rest"
  have "start + length open_tag \<le> length s" using str_find_Some [OF start] by simp
  then have "start + length open_tag + length rest = length s" by (simp add: rest_def)
  have "e + length end_tag \<le> length block" using str_find_Some [OF e] by (simp add: block_def rest_def)
  moreover have t': "t = take start s @ (if keep (take c rest) then take e block else []) @ drop (e + length end_tag) block"
    unfolding block_def rest_def by (rule t)
  ultimately have "length t \<le> start + length block" unfolding t' by (auto simp del: drop_drop)
  moreover have "length block \<le> length rest" by (simp add: block_def)
  moreover have "0 < length open_tag" using assms(2) by simp
  ultimately show ?thesis using \<open>start + length open_tag + length rest = length s\<close> by linarith
qed

function replace_blocks :: "bytes \<Rightarrow> bytes \<Rightarrow> (bytes \<Rightarrow> bool) \<Rightarrow> bytes \<Rightarrow> bytes" where
  "replace_blocks open_tag end_tag keep s =
     (case (if open_tag = [] then None else replace_block open_tag end_tag keep s) of
        None \<Rightarrow> s
      | Some t \<Rightarrow> replace_blocks open_tag end_tag keep t)"
  by pat_completeness auto
termination
  by (relation "measure (\<lambda>(a, b, k, s). length s)") (auto dest: replace_block_shorter split: if_splits)

declare replace_blocks.simps [simp del]

definition has_value :: "json_object \<Rightarrow> bytes \<Rightarrow> bool" where
  "has_value params name = (case map_of params name of Some v \<Rightarrow> v \<noteq> JNull | None \<Rightarrow> False)"

definition process_conditionals :: "json_object \<Rightarrow> bytes \<Rightarrow> bytes" where
  "process_conditionals params template =
     replace_blocks ''{{#unless '' ''{{/unless}}'' (\<lambda>n. \<not> has_value params n)
       (replace_blocks ''{{#if '' ''{{/if}}'' (has_value params) template)"

text \<open>The loop over the \<open>${VAR}\<close> of a template; what it has inserted is not looked at again.\<close>

function substitute_env :: "(bytes \<Rightarrow> bytes) \<Rightarrow> bytes \<Rightarrow> bytes" where
  "substitute_env f s =
     (case str_find s ''${'' of
        None \<Rightarrow> s
      | Some o_pos \<Rightarrow>
          (case find_char (drop o_pos s) CHR ''}'' of
             None \<Rightarrow> s
           | Some c \<Rightarrow>
               take o_pos s @ f (drop 2 (take c (drop o_pos s))) @ substitute_env f (drop (Suc (o_pos + c)) s)))"
  by pat_completeness auto
termination
  by (relation "measure (\<lambda>(f, s). length s)") (auto dest!: str_find_Some find_char_Some)

declare substitute_env.simps [simp del]

definition resolve_env_template :: "yaml_env \<Rightarrow> bytes \<Rightarrow> bytes" where
  "resolve_env_template env = substitute_env (\<lambda>k. or_empty (resolve_env env k))"

definition escape_char :: bytes where
  "escape_char = [CHR 0x5C]"

definition json_escape :: "bytes \<Rightarrow> bytes" where
  "json_escape raw =
     replace_char (CHR 0x09) (escape_char @ ''t'')
       (replace_char (CHR 0x0D) (escape_char @ ''r'')
         (replace_char newline (escape_char @ ''n'')
           (replace_char (CHR 0x22) (escape_char @ dquote)
             (replace_char (CHR 0x5C) (escape_char @ escape_char) raw))))"

text \<open>One substitution after the other, in the order of the keys.\<close>

definition substitute_params :: "yaml_env \<Rightarrow> (bytes \<Rightarrow> bytes) \<Rightarrow> json_object \<Rightarrow> bytes \<Rightarrow> bytes" where
  "substitute_params env escape params template =
     fold (\<lambda>(name, v) s. str_replace (placeholder name) (escape (value_text env v)) s) params template"

definition render_body_template :: "yaml_env \<Rightarrow> bytes \<Rightarrow> json_object \<Rightarrow> bytes" where
  "render_body_template env template params =
     (let after_env = substitute_env (\<lambda>k. json_escape (or_empty (resolve_env env k))) template
      in substitute_params env json_escape params (process_conditionals params after_env))"

section \<open>Requests\<close>

definition required_error :: "yaml_env \<Rightarrow> json_object \<Rightarrow> bytes \<times> yaml_param \<Rightarrow> bytes option" where
  "required_error env params np =
     (let (name, p) = np;
          absent = (case map_of params name of None \<Rightarrow> True | Some v \<Rightarrow> v = JNull);
          has_env_default = (case yp_default_from_env p of
              Some k \<Rightarrow> Option.bind (ye_resolver env) (\<lambda>r. r k) \<noteq> None \<or> ye_var env k \<noteq> None
            | None \<Rightarrow> False)
      in if yp_required p \<and> absent \<and> \<not> has_env_default \<and> yp_default p = None
         then Some (''required parameter '' @ tick @ name @ tick @ '' is missing'')
         else case map_of params name of
           Some v \<Rightarrow>
             if yp_type p = ''integer'' \<and> v \<noteq> JNull \<and> \<not> (case v of JInt _ \<Rightarrow> True | JFloat _ \<Rightarrow> True | _ \<Rightarrow> False)
             then Some (''parameter '' @ tick @ name @ tick @ '' must be integer, got '' @ ye_print env v)
             else None
         | None \<Rightarrow> None)"

definition validate_params :: "yaml_env \<Rightarrow> yaml_tool \<Rightarrow> json_object \<Rightarrow> bytes option" where
  "validate_params env t params =
     (case List.map_filter (required_error env params) (yt_parameters t) of [] \<Rightarrow> None | e # _ \<Rightarrow> Some e)"

text \<open>The value of a parameter: the argument of the model, then the secret, then the default.\<close>

definition param_value :: "yaml_env \<Rightarrow> json_object \<Rightarrow> bytes \<Rightarrow> yaml_param \<Rightarrow> json" where
  "param_value env params name p =
     (case map_of params name of
        Some v \<Rightarrow> v
      | None \<Rightarrow>
          (case Option.bind (yp_default_from_env p) (\<lambda>k. Option.bind (ye_resolver env) (\<lambda>r. r k)) of
             Some v \<Rightarrow> JString v
           | None \<Rightarrow> unwrap_or (yp_default p) JNull))"

record placed =
  pl_url :: bytes
  pl_query :: "(bytes \<times> bytes) list"
  pl_headers :: "(bytes \<times> bytes) list"
  pl_body :: json_object

definition place_param :: "yaml_env \<Rightarrow> json_object \<Rightarrow> bytes \<times> yaml_param \<Rightarrow> placed \<Rightarrow> placed" where
  "place_param env params np pl =
     (let (name, p) = np; v = param_value env params name p; s = value_text env v
      in if v = JNull then pl
         else case yp_location p of
           PathParam \<Rightarrow> pl\<lparr>pl_url := str_replace (''{'' @ name @ ''}'') (ye_urlencode env s) (pl_url pl)\<rparr>
         | QueryParam \<Rightarrow> pl\<lparr>pl_query := pl_query pl @ [(name, s)]\<rparr>
         | HeaderParam \<Rightarrow> pl\<lparr>pl_headers := pl_headers pl @ [(name, s)]\<rparr>
         | BodyParam \<Rightarrow> pl\<lparr>pl_body := obj_insert name v (pl_body pl)\<rparr>)"

definition place_params :: "yaml_env \<Rightarrow> yaml_tool \<Rightarrow> json_object \<Rightarrow> placed" where
  "place_params env t params =
     fold (place_param env params) (yt_parameters t)
       \<lparr>pl_url = yt_endpoint t, pl_query = [], pl_headers = [], pl_body = []\<rparr>"

text \<open>Sending: the request is logged and the reply arrives after some time.\<close>

definition yaml_send :: "yaml_env \<Rightarrow> http_request \<Rightarrow> yaml_world \<Rightarrow> yaml_world \<times> duration \<times> (bytes, yaml_response) result" where
  "yaml_send env q w =
     (let (d, r) = ye_reply env (length (yw_requests w)) q
      in (w\<lparr>yw_requests := yw_requests w @ [q]\<rparr>, d, r))"

definition bearer :: "bytes \<Rightarrow> (bytes \<times> bytes) list" where
  "bearer token = [(''Authorization'', ''Bearer '' @ token)]"

definition oauth_refresh ::
  "yaml_env \<Rightarrow> yaml_auth \<Rightarrow> bytes \<Rightarrow> bytes \<Rightarrow> yaml_world \<Rightarrow> yaml_world \<times> (bytes, (bytes \<times> bytes) list) result" where
  "oauth_refresh env a refresh_token token_url w =
     (let body = str_replace ''{{bearer}}'' refresh_token
            (unwrap_or (ya_token_body a) ''grant_type=refresh_token&refresh_token={{bearer}}'');
          token_field = unwrap_or (ya_token_field a) ''access_token''
      in case validate_url_scheme (ye_parse_url env) token_url of
           Inl e \<Rightarrow> (w, Inl (ye_ssrf_text env e))
         | Inr _ \<Rightarrow>
             (case yaml_send env \<lparr>rq_client = ye_client env, rq_method = ''POST'', rq_url = token_url,
                 rq_headers = [(''Content-Type'', ''application/x-www-form-urlencoded'')], rq_query = [],
                 rq_body = RawBody body\<rparr> w of
                (w1, _, Inl e) \<Rightarrow> (w1, Inl (''oauth token request failed: '' @ e))
              | (w1, _, Inr resp) \<Rightarrow>
                  if \<not> (200 \<le> ys_status resp \<and> ys_status resp < 300)
                  then (w1, Inl (''oauth token endpoint returned '' @ ye_status_text env (ys_status resp) @ '': '' @ or_empty (ys_text resp)))
                  else (case ys_bytes resp of
                      Inl e \<Rightarrow> (w1, Inl (''oauth token response not JSON: '' @ e))
                    | Inr b \<Rightarrow>
                        (case ye_parse env b of
                           None \<Rightarrow> (w1, Inl (''oauth token response not JSON: '' @ ye_parse_error env b))
                         | Some j \<Rightarrow>
                             (case Option.bind (json_get j token_field) json_as_str of
                                None \<Rightarrow> (w1, Inl (''oauth response missing '' @ tick @ token_field @ tick @ '' field''))
                              | Some token \<Rightarrow> (w1, Inr (bearer token)))))))"

text \<open>The headers and the query parameters of the authentication.\<close>

definition apply_auth ::
  "yaml_env \<Rightarrow> yaml_auth \<Rightarrow> yaml_world
     \<Rightarrow> yaml_world \<times> (bytes, (bytes \<times> bytes) list \<times> (bytes \<times> bytes) list) result" where
  "apply_auth env a w =
     (let headers = (\<lambda>r. case r of Inl e \<Rightarrow> Inl e | Inr hs \<Rightarrow> Inr (hs, []));
          with_key = (\<lambda>f. case ya_key a of None \<Rightarrow> Inr ([], [])
                         | Some k \<Rightarrow> (case resolve_env env k of Inl e \<Rightarrow> Inl e | Inr v \<Rightarrow> Inr (f v)))
      in if ya_type a = ''bearer_env'' then (w, with_key (\<lambda>v. (bearer v, [])))
         else if ya_type a = ''basic_env'' then
           (w, Inr ([(''Authorization'', ''Basic '' @ ye_base64 env
                (or_empty (resolve_env env (unwrap_or (ya_username_key a) []))
                 @ '':'' @ or_empty (resolve_env env (unwrap_or (ya_password_key a) []))))], []))
         else if ya_type a = ''api_key_header'' then
           (w, case ya_header_name a of None \<Rightarrow> Inr ([], []) | Some h \<Rightarrow> with_key (\<lambda>v. ([(h, v)], [])))
         else if ya_type a = ''api_key_query'' then
           (w, case ya_param_name a of None \<Rightarrow> Inr ([], []) | Some p \<Rightarrow> with_key (\<lambda>v. ([], [(p, v)])))
         else if ya_type a = ''custom'' then
           (w, Inr (map (\<lambda>(h, tpl). (h, resolve_env_template env tpl)) (unwrap_or (ya_headers a) []), []))
         else if ya_type a = ''oauth_refresh'' then
           (case (ya_key a, ya_token_url a) of
              (Some k, Some url) \<Rightarrow>
                (case resolve_env env k of
                   Inl e \<Rightarrow> (w, Inl e)
                 | Inr refresh_token \<Rightarrow>
                     (let (w1, r) = oauth_refresh env a refresh_token url w in (w1, headers r)))
            | _ \<Rightarrow> (w, Inr ([], [])))
         else if ya_type a = ''oauth_provider'' then
           (w, case ya_key a of
                 None \<Rightarrow> Inl (''oauth_provider auth requires '' @ tick @ ''key'' @ tick @ '' field (provider name)'')
               | Some provider \<Rightarrow>
                   (case ye_get_token env of
                      None \<Rightarrow> Inl (''oauth_provider auth for '' @ tick @ provider @ tick
                                  @ '' requires OAuth connection '' @ utf8 [0xE2, 0x80, 0x94] @ '' connect via /integrations'')
                    | Some get \<Rightarrow>
                        (case get provider of
                           Inl e \<Rightarrow> Inl (''OAuth token for '' @ provider @ '': '' @ e)
                         | Inr token \<Rightarrow> Inr (bearer token, []))))
         else (w, Inr ([], [])))"

definition json_or_text :: "yaml_env \<Rightarrow> (bytes \<times> json) list \<Rightarrow> (bytes \<times> bytes) list" where
  "json_or_text env kvs = map (\<lambda>(k, v). (k, value_text env v)) kvs"

text \<open>The parts of a multipart body; the files are fetched one after the other, whatever their status.\<close>

definition fetches_file :: "bytes \<Rightarrow> bool" where
  "fetches_file name \<longleftrightarrow> name = ''file'' \<or> ends_with name ''_url''"

fun multipart_parts ::
  "yaml_env \<Rightarrow> bytes \<Rightarrow> (bytes \<times> bytes) list \<Rightarrow> yaml_world \<Rightarrow> yaml_world \<times> (bytes, (bytes \<times> form_part) list) result" where
  "multipart_parts env filename [] w = (w, Inr [])"
| "multipart_parts env filename ((name, v) # rest) w =
     (let (w1, part) =
        (if fetches_file name then
           (case yaml_send env \<lparr>rq_client = ye_client env, rq_method = ''GET'', rq_url = v, rq_headers = [], rq_query = [],
                                 rq_body = NoBody\<rparr> w of
              (w1, _, Inl e) \<Rightarrow> (w1, Inl ''failed to download file for multipart'')
            | (w1, _, Inr resp) \<Rightarrow>
                (case ys_bytes resp of
                   Inl e \<Rightarrow> (w1, Inl ''failed to read file bytes'')
                 | Inr b \<Rightarrow> (w1, Inr (name, FilePart filename b))))
         else (w, Inr (name, TextPart v)))
      in case part of
           Inl e \<Rightarrow> (w1, Inl e)
         | Inr p \<Rightarrow>
             (case multipart_parts env filename rest w1 of
                (w2, Inl e) \<Rightarrow> (w2, Inl e)
              | (w2, Inr ps) \<Rightarrow> (w2, Inr (p # ps))))"

definition graphql_body :: "yaml_env \<Rightarrow> yaml_graphql \<Rightarrow> json_object \<Rightarrow> json" where
  "graphql_body env g params =
     JObject [(''query'', JString (yq_query g)),
       (''variables'', JObject (in_key_order (map (\<lambda>(k, tpl). (k, JString (substitute_params env id params tpl)))
          (unwrap_or (yq_variables g) []))))]"

text \<open>The body and the headers it adds.\<close>

definition request_payload ::
  "yaml_env \<Rightarrow> yaml_tool \<Rightarrow> bytes \<Rightarrow> json_object \<Rightarrow> json_object \<Rightarrow> yaml_world
     \<Rightarrow> yaml_world \<times> (bytes, (bytes \<times> bytes) list \<times> yaml_body) result" where
  "request_payload env t method params body_params w =
     (if method = ''GET'' \<or> method = ''DELETE'' then (w, Inr ([], NoBody))
      else case yt_graphql t of
        Some g \<Rightarrow> (w, Inr ([(''Content-Type'', ''application/json'')], RawBody (ye_print env (graphql_body env g params))))
      | None \<Rightarrow>
          (case yt_body_template t of
             Some template \<Rightarrow>
               (w, Inr ([(''Content-Type'', yt_content_type t)], RawBody (render_body_template env template params)))
           | None \<Rightarrow>
               if body_params = [] then (w, Inr ([], NoBody))
               else if yt_content_type t = ''multipart/form-data'' then
                 (let filename = unwrap_or (Option.bind (map_of body_params ''file_name'') json_as_str) ''file''
                  in case multipart_parts env filename (json_or_text env body_params) w of
                       (w1, Inl e) \<Rightarrow> (w1, Inl e)
                     | (w1, Inr ps) \<Rightarrow> (w1, Inr ([], MultipartBody ps)))
               else if yt_content_type t = ''application/x-www-form-urlencoded''
               then (w, Inr ([], FormBody (json_or_text env body_params)))
               else (w, Inr ([], JsonBody (JObject body_params)))))"

definition send_yaml_request ::
  "yaml_env \<Rightarrow> yaml_tool \<Rightarrow> json \<Rightarrow> yaml_world \<Rightarrow> yaml_world \<times> (bytes, yaml_response) result" where
  "send_yaml_request env t arguments w =
     (let params = params_object arguments
      in case validate_params env t params of
           Some e \<Rightarrow> (w, Inl e)
         | None \<Rightarrow>
             (let pl = place_params env t params
              in case (case yt_auth t of None \<Rightarrow> (w, Inr ([], [])) | Some a \<Rightarrow> apply_auth env a w) of
                   (w1, Inl e) \<Rightarrow> (w1, Inl e)
                 | (w1, Inr (auth_headers, auth_query)) \<Rightarrow>
                     (let method = ye_uppercase env (yt_method t)
                      in if method \<notin> {''GET'', ''POST'', ''PUT'', ''PATCH'', ''DELETE''}
                         then (w1, Inl (''unsupported HTTP method: '' @ method))
                         else case request_payload env t method params (in_key_order (pl_body pl)) w1 of
                           (w2, Inl e) \<Rightarrow> (w2, Inl e)
                         | (w2, Inr (body_headers, body)) \<Rightarrow>
                             (case yaml_send env \<lparr>rq_client = ye_client env, rq_method = method, rq_url = pl_url pl,
                                 rq_headers = yt_headers t @ auth_headers @ pl_headers pl @ body_headers,
                                 rq_query = pl_query pl @ auth_query, rq_body = body\<rparr> w2 of
                                (w3, d, r) \<Rightarrow>
                                  (w3, if from_secs (yt_timeout t) < d
                                       then Inl (''tool '' @ tick @ yt_name t @ tick @ '' timed out after '' @ show_nat (yt_timeout t) @ ''s'')
                                       else case r of Inl e \<Rightarrow> Inl ''HTTP request failed'' | Inr resp \<Rightarrow> Inr resp)))))"

section \<open>Execution\<close>

definition max_attempts :: "yaml_tool \<Rightarrow> nat" where
  "max_attempts t = (case yt_retry t of None \<Rightarrow> 1 | Some r \<Rightarrow> yr_max_attempts r)"

definition yaml_is_retryable :: "yaml_tool \<Rightarrow> nat \<Rightarrow> bool" where
  "yaml_is_retryable t status \<longleftrightarrow> (case yt_retry t of None \<Rightarrow> False | Some r \<Rightarrow> status \<in> set (yr_retry_on r))"

definition backoff_base_ms :: "yaml_tool \<Rightarrow> nat" where
  "backoff_base_ms t = (case yt_retry t of None \<Rightarrow> 1000 | Some r \<Rightarrow> yr_backoff_base_ms r)"

definition u64_sat :: "nat \<Rightarrow> nat" where
  "u64_sat n = min n (2 ^ 64 - 1)"

definition retry_delay_ms :: "yaml_tool \<Rightarrow> nat \<Rightarrow> nat" where
  "retry_delay_ms t attempt = u64_sat (backoff_base_ms t * u64_sat (2 ^ (min attempt 63 - 1)))"

definition http_failure :: "yaml_env \<Rightarrow> yaml_tool \<Rightarrow> yaml_response \<Rightarrow> bytes" where
  "http_failure env t resp =
     ''tool '' @ tick @ yt_name t @ tick @ '' returned HTTP '' @ ye_status_text env (ys_status resp) @ '': ''
     @ or_empty (ys_text resp)"

text \<open>The loop over the attempts that \<open>execute_with_ctx\<close>, \<open>execute_single\<close> and \<open>execute_binary\<close> share;
  \<open>done\<close> makes the result of a successful response, \<open>None\<close> is a panic in it. An error that is kept
  while the loop goes on is replaced before it could be returned.\<close>

fun attempt_loop ::
  "yaml_env \<Rightarrow> yaml_tool \<Rightarrow> json \<Rightarrow> (yaml_response \<Rightarrow> (bytes, 'a) result option) \<Rightarrow> nat \<Rightarrow> nat
     \<Rightarrow> yaml_world \<Rightarrow> yaml_world \<times> (bytes, 'a) result option" where
  "attempt_loop env t args on_success attempt 0 w =
     (w, Some (Inl (''tool '' @ tick @ yt_name t @ tick @ '' failed after '' @ show_nat (max_attempts t) @ '' attempts'')))"
| "attempt_loop env t args on_success attempt (Suc left) w =
     (let w0 = (if 0 < attempt
                then w\<lparr>yw_sleeps := yw_sleeps w @ [from_millis (retry_delay_ms t attempt)]\<rparr> else w)
      in case send_yaml_request env t args w0 of
           (w1, Inl e) \<Rightarrow> if left = 0 then (w1, Some (Inl e)) else attempt_loop env t args on_success (Suc attempt) left w1
         | (w1, Inr resp) \<Rightarrow>
             if 200 \<le> ys_status resp \<and> ys_status resp < 300 then (w1, on_success resp)
             else if left \<noteq> 0 \<and> yaml_is_retryable t (ys_status resp)
             then attempt_loop env t args on_success (Suc attempt) left w1
             else (w1, Some (Inl (http_failure env t resp))))"

definition transform_body :: "yaml_env \<Rightarrow> yaml_tool \<Rightarrow> bytes \<Rightarrow> bytes option" where
  "transform_body env t body =
     Option.bind
       (case (yt_response_transform t, ye_parse env body) of
          (Some path, Some j) \<Rightarrow>
            (case apply_jsonpath j path of
               None \<Rightarrow> None | Some None \<Rightarrow> Some body | Some (Some v) \<Rightarrow> Some (value_text env v))
        | _ \<Rightarrow> Some body)
       (\<lambda>b. case (yt_response_pipeline t, ye_parse env b) of
              (s # ss, Some j) \<Rightarrow> map_option (value_text env) (apply_pipeline env (s # ss) j)
            | _ \<Rightarrow> Some b)"

definition execute_single ::
  "yaml_env \<Rightarrow> yaml_tool \<Rightarrow> json \<Rightarrow> yaml_world \<Rightarrow> yaml_world \<times> (bytes, bytes) result option" where
  "execute_single env t args w =
     attempt_loop env t args (\<lambda>resp. Some (Inr (or_empty (ys_text resp)))) 0 (max_attempts t) w"

definition page_params :: "yaml_pagination \<Rightarrow> nat \<Rightarrow> bytes option \<Rightarrow> json \<Rightarrow> json" where
  "page_params g page cursor args = (case args of
       JObject kvs \<Rightarrow>
         (let limit = unwrap_or (yg_limit g) 50;
              kvs1 = (if yg_type g = ''offset'' then obj_insert (yg_param g) (JInt (uint (of_nat page * limit))) kvs
                      else if yg_type g = ''page'' then obj_insert (yg_param g) (JInt (uint (of_nat page + 1 :: 32 word))) kvs
                      else if yg_type g = ''cursor''
                      then (case cursor of Some c \<Rightarrow> obj_insert (yg_param g) (JString c) kvs | None \<Rightarrow> kvs)
                      else kvs)
          in JObject (case yg_limit_param g of Some lp \<Rightarrow> obj_insert lp (JInt (uint limit)) kvs1 | None \<Rightarrow> kvs1))
     | _ \<Rightarrow> args)"

fun page_loop ::
  "yaml_env \<Rightarrow> yaml_tool \<Rightarrow> yaml_pagination \<Rightarrow> json \<Rightarrow> nat \<Rightarrow> nat \<Rightarrow> bytes option \<Rightarrow> json list \<Rightarrow> yaml_world
     \<Rightarrow> yaml_world \<times> (bytes, json list) result option" where
  "page_loop env t g args page 0 cursor acc w = (w, Some (Inr acc))"
| "page_loop env t g args page (Suc left) cursor acc w =
     (if json_is_object args \<and> yg_type g = ''cursor'' \<and> cursor = None \<and> 0 < page then (w, Some (Inr acc))
      else case execute_single env t (page_params g page cursor args) w of
        (w1, None) \<Rightarrow> (w1, None)
      | (w1, Some (Inl e)) \<Rightarrow> (w1, Some (Inl e))
      | (w1, Some (Inr body)) \<Rightarrow>
          (let j = unwrap_or (ye_parse env body) (JString body)
           in case (case yg_results_path g of None \<Rightarrow> Some (Some j) | Some rp \<Rightarrow> apply_jsonpath j rp) of
                None \<Rightarrow> (w1, None)
              | Some found \<Rightarrow>
                  (let items = unwrap_or found j;
                       items_arr = unwrap_or (json_as_array items) [items]
                   in if items_arr = [] then (w1, Some (Inr acc))
                      else if yg_type g = ''cursor'' then
                        (case (case yg_next_path g of None \<Rightarrow> Some None | Some np \<Rightarrow> apply_jsonpath j np) of
                           None \<Rightarrow> (w1, None)
                         | Some v \<Rightarrow>
                             (case Option.bind v json_as_str of
                                None \<Rightarrow> (w1, Some (Inr (acc @ items_arr)))
                              | Some c \<Rightarrow> page_loop env t g args (Suc page) left (Some c) (acc @ items_arr) w1))
                      else page_loop env t g args (Suc page) left cursor (acc @ items_arr) w1)))"

definition execute_paginated ::
  "yaml_env \<Rightarrow> yaml_tool \<Rightarrow> yaml_pagination \<Rightarrow> json \<Rightarrow> yaml_world \<Rightarrow> yaml_world \<times> (bytes, bytes) result option" where
  "execute_paginated env t g args w =
     (case page_loop env t g args 0 (unwrap_or (yg_max_pages g) 5) None [] w of
        (w1, None) \<Rightarrow> (w1, None)
      | (w1, Some (Inl e)) \<Rightarrow> (w1, Some (Inl e))
      | (w1, Some (Inr items)) \<Rightarrow> (w1, Some (Inr (ye_print env (JArray items)))))"

definition execute_with_ctx ::
  "yaml_env \<Rightarrow> yaml_tool \<Rightarrow> json \<Rightarrow> yaml_world \<Rightarrow> yaml_world \<times> (bytes, bytes) result option" where
  "execute_with_ctx env t args w =
     (case yt_pagination t of
        Some g \<Rightarrow> execute_paginated env t g args w
      | None \<Rightarrow>
          attempt_loop env t args (\<lambda>resp. map_option Inr (transform_body env t (or_empty (ys_text resp)))) 0 (max_attempts t) w)"

definition MAX_BINARY_SIZE :: nat where
  "MAX_BINARY_SIZE = 50 * 1024 * 1024"

definition binary_body :: "yaml_response \<Rightarrow> (bytes, bytes) result" where
  "binary_body resp =
     (let announced = unwrap_or (ys_content_length resp) 0
      in if MAX_BINARY_SIZE < announced
         then Inl (''response too large: '' @ show_nat announced @ '' bytes (max '' @ show_nat MAX_BINARY_SIZE @ '')'')
         else case ys_bytes resp of
           Inl e \<Rightarrow> Inl ''failed to read response bytes''
         | Inr b \<Rightarrow>
             if MAX_BINARY_SIZE < length b
             then Inl (''binary response too large: '' @ show_nat (length b) @ '' bytes (max '' @ show_nat MAX_BINARY_SIZE @ '')'')
             else Inr b)"

definition execute_binary ::
  "yaml_env \<Rightarrow> yaml_tool \<Rightarrow> json \<Rightarrow> yaml_world \<Rightarrow> yaml_world \<times> (bytes, bytes) result option" where
  "execute_binary env t args w =
     attempt_loop env t args (\<lambda>resp. Some (binary_body resp)) 0 (max_attempts t) w"

section \<open>Loading\<close>

datatype yaml =
    YScalar json
  | YString bytes
  | YSequence "yaml list"
  | YMapping "(yaml \<times> yaml) list"

text \<open>The entries of an overlay go into the mapping of the base one after the other.\<close>

fun merge_yaml_values :: "yaml \<Rightarrow> yaml \<Rightarrow> yaml"
  and merge_entries :: "(yaml \<times> yaml) list \<Rightarrow> (yaml \<times> yaml) list \<Rightarrow> (yaml \<times> yaml) list" where
  "merge_yaml_values base (YMapping os) =
     (case base of YMapping bs \<Rightarrow> YMapping (merge_entries bs os) | _ \<Rightarrow> YMapping os)"
| "merge_yaml_values base overlay = overlay"
| "merge_entries bs [] = bs"
| "merge_entries bs ((k, v) # os) =
     (if k = YString ''extends'' then merge_entries bs os
      else case map_of bs k of
        Some b \<Rightarrow> merge_entries (al_remove k bs @ [(k, merge_yaml_values b v)]) os
      | None \<Rightarrow> merge_entries (bs @ [(k, v)]) os)"

record yaml_file =
  yf_extension :: bytes
  yf_stem :: bytes
  yf_content :: "bytes option"

record yaml_reader =
  yd_parse :: "bytes \<Rightarrow> yaml option"
  yd_from_value :: "yaml \<Rightarrow> yaml_tool option"

definition yaml_extension :: "yaml_file \<Rightarrow> bool" where
  "yaml_extension f \<longleftrightarrow> yf_extension f = ''yaml'' \<or> yf_extension f = ''yml''"

definition read_yaml :: "yaml_reader \<Rightarrow> yaml_file \<Rightarrow> yaml option" where
  "read_yaml rd f = (if yaml_extension f then Option.bind (yf_content f) (yd_parse rd) else None)"

text \<open>The templates by the names of their files; a later file replaces an earlier one.\<close>

definition load_templates :: "yaml_reader \<Rightarrow> yaml_file list \<Rightarrow> (bytes \<times> yaml) list" where
  "load_templates rd files =
     fold (\<lambda>f ts. case read_yaml rd f of Some v \<Rightarrow> al_insert (yf_stem f) v ts | None \<Rightarrow> ts) files []"

definition extends_name :: "yaml \<Rightarrow> bytes option" where
  "extends_name v = (case v of
       YMapping kvs \<Rightarrow> (case map_of kvs (YString ''extends'') of Some (YString n) \<Rightarrow> Some n | _ \<Rightarrow> None)
     | _ \<Rightarrow> None)"

definition load_tool :: "yaml_reader \<Rightarrow> (bytes \<times> yaml) list \<Rightarrow> yaml_file \<Rightarrow> yaml_tool option" where
  "load_tool rd templates f =
     Option.bind (read_yaml rd f) (\<lambda>parsed.
       case extends_name parsed of
         Some n \<Rightarrow>
           (case map_of templates n of
              Some tpl \<Rightarrow> yd_from_value rd (merge_yaml_values tpl parsed)
            | None \<Rightarrow> None)
       | None \<Rightarrow> yd_from_value rd parsed)"

text \<open>A directory: its files and those of \<open>_templates\<close>, in the order they are listed; \<open>None\<close>: it does
  not exist.\<close>

definition load_from_dir :: "yaml_reader \<Rightarrow> (yaml_file list \<times> yaml_file list) option \<Rightarrow> yaml_tool list" where
  "load_from_dir rd dir = (case dir of
       None \<Rightarrow> []
     | Some (files, templates) \<Rightarrow> List.map_filter (load_tool rd (load_templates rd templates)) files)"

definition load_yaml_tools ::
  "yaml_reader \<Rightarrow> (yaml_file list \<times> yaml_file list) option \<Rightarrow> bool \<Rightarrow> yaml_tool list" where
  "load_yaml_tools rd dir include_draft =
     filter (\<lambda>t. case yt_status t of Verified \<Rightarrow> True | Draft \<Rightarrow> include_draft | Disabled \<Rightarrow> False)
       (load_from_dir rd dir)"

definition find_yaml_tool ::
  "yaml_reader \<Rightarrow> (yaml_file list \<times> yaml_file list) option \<Rightarrow> bytes \<Rightarrow> yaml_tool option" where
  "find_yaml_tool rd dir name = List.find (\<lambda>t. yt_name t = name) (load_yaml_tools rd dir True)"

definition empty_auth :: "bytes \<Rightarrow> yaml_auth" where
  "empty_auth ty =
     \<lparr>ya_type = ty, ya_key = None, ya_username_key = None, ya_password_key = None, ya_header_name = None,
      ya_param_name = None, ya_headers = None, ya_token_url = None, ya_token_body = None, ya_token_field = None\<rparr>"

definition openapi_security_to_yaml_auth :: "json \<Rightarrow> yaml_auth option" where
  "openapi_security_to_yaml_auth scheme =
     (let str = (\<lambda>k. Option.bind (json_get scheme k) json_as_str)
      in case str ''type'' of
           None \<Rightarrow> None
         | Some ty \<Rightarrow>
             if ty = ''apiKey'' then
               (case str ''in'' of
                  Some l \<Rightarrow>
                    if l = ''header'' then Some ((empty_auth ''api_key_header'')\<lparr>ya_header_name := str ''name''\<rparr>)
                    else if l = ''query'' then Some ((empty_auth ''api_key_query'')\<lparr>ya_param_name := str ''name''\<rparr>)
                    else None
                | None \<Rightarrow> None)
             else if ty = ''http'' then
               (case str ''scheme'' of
                  Some h \<Rightarrow>
                    if h = ''bearer'' then Some (empty_auth ''bearer_env'')
                    else if h = ''basic'' then Some (empty_auth ''basic_env'') else None
                | None \<Rightarrow> None)
             else if ty = ''oauth2'' then Some (empty_auth ''oauth_refresh'')
             else None)"

section \<open>Dispatch\<close>

text \<open>The search cache of an engine: results by a 64-bit hash of the query, with their expiry.\<close>

definition CACHEABLE_SEARCH_TOOLS :: "bytes list" where
  "CACHEABLE_SEARCH_TOOLS = [''searxng_search'', ''brave_search'']"

type_synonym search_cache = "(64 word \<times> bytes \<times> instant) list"

definition search_cache_key :: "(bytes \<Rightarrow> 64 word) \<Rightarrow> (bytes \<Rightarrow> bytes) \<Rightarrow> bytes \<Rightarrow> 64 word" where
  "search_cache_key hash lower query = hash (lower query)"

definition check_search_cache :: "64 word \<Rightarrow> instant \<Rightarrow> search_cache \<Rightarrow> bytes option" where
  "check_search_cache key now cache =
     (case map_of cache key of Some (r, expiry) \<Rightarrow> if now < expiry then Some r else None | None \<Rightarrow> None)"

definition store_search_cache :: "64 word \<Rightarrow> bytes \<Rightarrow> instant \<Rightarrow> search_cache \<Rightarrow> search_cache" where
  "store_search_cache key r now cache =
     (let cache1 = al_insert key (r, now + from_secs 300) cache
      in if 100 < length cache1 then filter (\<lambda>(_, _, expiry). now < expiry) cache1 else cache1)"

text \<open>The call of a YAML tool from the engine, past its guards: the cache is read at \<open>now\<close> and written at \<open>later\<close>.\<close>

definition tool_client :: "url_parser \<Rightarrow> yaml_tool \<Rightarrow> http_kind" where
  "tool_client parse_url t = (if is_internal_endpoint parse_url (yt_endpoint t) then PlainClient else SsrfClient)"

definition call_yaml_tool ::
  "yaml_env \<Rightarrow> (bytes \<Rightarrow> 64 word) \<Rightarrow> (bytes \<Rightarrow> bytes) \<Rightarrow> (bytes \<Rightarrow> bytes \<Rightarrow> bytes) \<Rightarrow> instant \<Rightarrow> instant \<Rightarrow> yaml_tool \<Rightarrow> json
     \<Rightarrow> search_cache \<times> yaml_world \<Rightarrow> (search_cache \<times> yaml_world) \<times> bytes option" where
  "call_yaml_tool env hash lower format_tool_error now later t args cw =
     (let (cache, w) = cw;
          query = (if yt_name t \<in> set CACHEABLE_SEARCH_TOOLS
                   then Option.bind (json_get args ''query'') json_as_str else None)
      in case Option.bind query (\<lambda>q. check_search_cache (search_cache_key hash lower q) now cache) of
           Some r \<Rightarrow> (cw, Some r)
         | None \<Rightarrow>
             (case execute_with_ctx (env\<lparr>ye_client := tool_client (ye_parse_url env) t\<rparr>) t args w of
                (w1, None) \<Rightarrow> ((cache, w1), None)
              | (w1, Some (Inr r)) \<Rightarrow>
                  ((case query of
                      Some q \<Rightarrow> store_search_cache (search_cache_key hash lower q) r later cache | None \<Rightarrow> cache, w1), Some r)
              | (w1, Some (Inl e)) \<Rightarrow> ((cache, w1), Some (format_tool_error (yt_name t) e))))"

end
