(* ===== verification/Yaml_Facts.thy ===== *)
theory Yaml_Facts
  imports Yaml_Tools
begin

text \<open>
  Facts about YAML tools: what a path template and a body template make of the parameters, which
  defaults are lost, JSON paths on short answers, pagination, the merge of templates, the search cache
  and the client that fetches files.
\<close>

section \<open>Parameters\<close>

text \<open>A required parameter that the model gives as an explicit null passes the validation when it has a
  default, but the default is applied to missing parameters only: the request leaves the parameter out.\<close>

theorem null_loses_default:
  assumes "map_of params name = Some JNull" and "yp_default p = Some d"
  shows "required_error env params (name, p) = None \<and> place_param env params (name, p) pl = pl
    \<and> (map_of params' name = None \<and> yp_default_from_env p = None \<longrightarrow> param_value env params' name p = d)"
  using assms by (simp add: required_error_def place_param_def param_value_def)

definition demo_param :: yaml_param where
  "demo_param =
     \<lparr>yp_type = ''string'', yp_required = True, yp_location = QueryParam, yp_description = [], yp_default = Some (JString ''de''),
      yp_enum_values = [], yp_minimum = None, yp_maximum = None, yp_examples = [], yp_default_from_env = None\<rparr>"

theorem null_loses_default_witness:
  "\<forall>env pl. required_error env [(''lang'', JNull)] (''lang'', demo_param) = None
     \<and> place_param env [(''lang'', JNull)] (''lang'', demo_param) pl = pl
     \<and> param_value env [] ''lang'' demo_param = JString ''de''"
  using null_loses_default [of "[(''lang'', JNull)]" "''lang''" demo_param "JString ''de''" _ _ "[]"]
  by (simp add: demo_param_def)

text \<open>The pieces of an endpoint: literal text without braces, and holes for parameters.\<close>

datatype url_piece = Lit bytes | Hole bytes

fun piece_text :: "url_piece \<Rightarrow> bytes" where
  "piece_text (Lit s) = s"
| "piece_text (Hole n) = ''{'' @ n @ ''}''"

fun piece_ok :: "url_piece \<Rightarrow> bool" where
  "piece_ok (Lit s) = (CHR ''{'' \<notin> set s)"
| "piece_ok (Hole n) = (CHR ''{'' \<notin> set n \<and> CHR ''}'' \<notin> set n)"

definition fill :: "bytes \<Rightarrow> bytes \<Rightarrow> url_piece \<Rightarrow> url_piece" where
  "fill n r p = (if p = Hole n then Lit r else p)"

definition template_text :: "url_piece list \<Rightarrow> bytes" where
  "template_text ps = concat (map piece_text ps)"

lemma template_text_simps [simp]:
  "template_text [] = []" "template_text (p # ps) = piece_text p @ template_text ps"
  by (simp_all add: template_text_def)

lemma fill_simps [simp]:
  "fill n r (Lit s) = Lit s" "fill n r (Hole m) = (if m = n then Lit r else Hole m)"
  by (simp_all add: fill_def)

lemma hole_mismatch:
  assumes "CHR ''}'' \<notin> set n" "CHR ''}'' \<notin> set m" "n \<noteq> m"
  shows "\<not> starts_with (m @ ''}'' @ t) (n @ ''}'')"
proof
  assume "starts_with (m @ ''}'' @ t) (n @ ''}'')"
  then obtain u where u: "m @ ''}'' @ t = n @ ''}'' @ u" by (auto simp: starts_with_iff_prefix prefix_def)
  have "takeWhile (\<lambda>c. c \<noteq> CHR ''}'') (m @ ''}'' @ t) = m" "takeWhile (\<lambda>c. c \<noteq> CHR ''}'') (n @ ''}'' @ u) = n"
    using assms(1,2) by (simp_all add: takeWhile_append)
  then show False using u assms(3) by simp
qed

lemma replace_in_template:
  assumes "\<forall>p \<in> set ps. piece_ok p" and "CHR ''{'' \<notin> set n" and "CHR ''}'' \<notin> set n"
  shows "str_replace (''{'' @ n @ ''}'') r (template_text ps) = template_text (map (fill n r) ps)"
  using assms(1)
proof (induction ps)
  case (Cons p ps)
  let ?pat = "''{'' @ n @ ''}''"
  have ih: "str_replace ?pat r (template_text ps) = template_text (map (fill n r) ps)" using Cons by simp
  show ?case
  proof (cases p)
    case (Lit s)
    then have "CHR ''{'' \<notin> set s" using Cons.prems by simp
    from str_replace_pass [OF this, of "n @ ''}''" r "template_text ps"] ih Lit show ?thesis
      by simp
  next
    case (Hole m)
    show ?thesis
    proof (cases "m = n")
      case True
      have "str_replace ?pat r (?pat @ template_text ps) = r @ str_replace ?pat r (template_text ps)"
        by (rule str_replace_here) simp
      then show ?thesis using ih Hole True by simp
    next
      case False
      have m: "CHR ''{'' \<notin> set m" "CHR ''}'' \<notin> set m" using Cons.prems Hole by simp_all
      have "\<not> starts_with (CHR ''{'' # m @ ''}'' @ template_text ps) ?pat"
        using hole_mismatch [OF assms(3) m(2)] False by (simp add: starts_with_def)
      then have "str_replace ?pat r (CHR ''{'' # m @ ''}'' @ template_text ps)
          = CHR ''{'' # str_replace ?pat r ((m @ ''}'') @ template_text ps)" by (simp add: str_replace_skip)
      also have "str_replace ?pat r ((m @ ''}'') @ template_text ps) = (m @ ''}'') @ str_replace ?pat r (template_text ps)"
        using str_replace_pass [of "CHR ''{''" "m @ ''}''" "n @ ''}''" r "template_text ps"] m(1) by simp
      finally show ?thesis using ih Hole False by simp
    qed
  qed
qed simp

text \<open>What a list of parameters has to say about a hole.\<close>

definition path_value :: "yaml_env \<Rightarrow> json_object \<Rightarrow> (bytes \<times> yaml_param) list \<Rightarrow> bytes \<Rightarrow> bytes option" where
  "path_value env params nps n =
     (case map_of nps n of
        Some p \<Rightarrow>
          if yp_location p = PathParam \<and> param_value env params n p \<noteq> JNull
          then Some (ye_urlencode env (value_text env (param_value env params n p))) else None
      | None \<Rightarrow> None)"

definition fill_all :: "(bytes \<Rightarrow> bytes option) \<Rightarrow> url_piece \<Rightarrow> url_piece" where
  "fill_all f p = (case p of Lit s \<Rightarrow> Lit s | Hole n \<Rightarrow> (case f n of Some r \<Rightarrow> Lit r | None \<Rightarrow> Hole n))"

lemma place_fold:
  assumes "\<forall>s. CHR ''{'' \<notin> set (ye_urlencode env s)" and "distinct (map fst nps)"
    and "\<forall>n \<in> fst ` set nps. CHR ''{'' \<notin> set n \<and> CHR ''}'' \<notin> set n"
    and "\<forall>p \<in> set ps. piece_ok p" and "pl_url pl = template_text ps"
  shows "pl_url (fold (place_param env params) nps pl) = template_text (map (fill_all (path_value env params nps)) ps)"
  using assms(2-)
proof (induction nps arbitrary: pl ps)
  case Nil
  have "fill_all (path_value env params []) p = p" for p by (cases p) (simp_all add: fill_all_def path_value_def)
  then show ?case using Nil by simp
next
  case (Cons np nps)
  obtain n p where np: "np = (n, p)" by (cases np)
  let ?v = "param_value env params n p"
  let ?r = "ye_urlencode env (value_text env ?v)"
  have names: "CHR ''{'' \<notin> set n" "CHR ''}'' \<notin> set n" "map_of nps n = None"
    using Cons.prems(1,2) by (auto simp: np map_of_eq_None_iff)
  show ?case
  proof (cases "yp_location p = PathParam \<and> ?v \<noteq> JNull")
    case True
    have url: "pl_url (place_param env params np pl) = template_text (map (fill n ?r) ps)"
      using True replace_in_template [OF Cons.prems(3) names(1,2)] Cons.prems(4) by (simp add: np place_param_def Let_def)
    have ok: "\<forall>q \<in> set (map (fill n ?r) ps). piece_ok q"
      using Cons.prems(3) assms(1) by (auto simp: fill_def)
    have "fill_all (path_value env params nps) (fill n ?r q) = fill_all (path_value env params (np # nps)) q" for q
      using True by (cases q) (auto simp: fill_all_def path_value_def np)
    then show ?thesis using Cons.IH [OF _ _ ok url] Cons.prems(1,2) by (simp add: comp_def)
  next
    case False
    then have "pl_url (place_param env params np pl) = template_text ps"
      using Cons.prems(4) by (auto simp: np place_param_def Let_def split: param_location.splits)
    moreover have "fill_all (path_value env params nps) q = fill_all (path_value env params (np # nps)) q" for q
      using False names(3) by (cases q) (auto simp: fill_all_def path_value_def np)
    ultimately show ?thesis using Cons.IH [of ps "place_param env params np pl"] Cons.prems(1-3) by simp
  qed
qed

text \<open>C14: The path parameters fill the holes of the endpoint and nothing else: with percent-encoded values
  the URL is the endpoint with each hole replaced by the encoded value of its parameter, in whatever order
  the parameters are visited. No value can open a hole for another or change the text around it.\<close>

theorem path_template_filled:
  assumes "\<forall>s. CHR ''{'' \<notin> set (ye_urlencode env s)"
    and "yt_endpoint t = template_text ps" and "\<forall>p \<in> set ps. piece_ok p"
    and "distinct (map fst (yt_parameters t))"
    and "\<forall>n \<in> fst ` set (yt_parameters t). CHR ''{'' \<notin> set n \<and> CHR ''}'' \<notin> set n"
  shows "pl_url (place_params env t params) = template_text (map (fill_all (path_value env params (yt_parameters t))) ps)"
  unfolding place_params_def by (rule place_fold [OF assms(1,4,5,3)]) (simp add: assms(2))

definition demo_encode :: "bytes \<Rightarrow> bytes" where
  "demo_encode s = concat (map (\<lambda>c. if c = CHR ''{'' then ''%7B'' else if c = CHR ''}'' then ''%7D'' else [c]) s)"

definition demo_tool :: "bytes \<Rightarrow> (bytes \<times> yaml_param) list \<Rightarrow> yaml_tool" where
  "demo_tool url ps =
     \<lparr>yt_name = ''t'', yt_description = [], yt_endpoint = url, yt_method = ''POST'', yt_headers = [], yt_parameters = ps,
      yt_auth = None, yt_body_template = None, yt_response_transform = None, yt_status = Verified, yt_timeout = 60,
      yt_retry = None, yt_content_type = ''application/json'', yt_pagination = None, yt_response_schema = None,
      yt_graphql = None, yt_response_pipeline = [], yt_channel_action = None, yt_required_base = False, yt_required_secrets = []\<rparr>"

theorem path_template_filled_witness:
  "\<forall>env. pl_url (place_params (env\<lparr>ye_urlencode := demo_encode\<rparr>)
      (demo_tool ''http://h/{id}/{tab}'' [(''id'', demo_param\<lparr>yp_location := PathParam\<rparr>), (''tab'', demo_param\<lparr>yp_location := PathParam\<rparr>)])
      [(''id'', JString ''{tab}''), (''tab'', JString ''x'')]) = ''http://h/%7Btab%7D/x''"
proof
  fix env :: yaml_env
  let ?p = "demo_param\<lparr>yp_location := PathParam\<rparr>" and ?env = "env\<lparr>ye_urlencode := demo_encode\<rparr>"
  let ?t = "demo_tool ''http://h/{id}/{tab}'' [(''id'', ?p), (''tab'', ?p)]"
  let ?ps = "[Lit ''http://h/'', Hole ''id'', Lit ''/'', Hole ''tab'']"
  have "\<forall>s. CHR ''{'' \<notin> set (ye_urlencode ?env s)" by (auto simp: demo_encode_def split: if_splits)
  from path_template_filled [OF this, of ?t ?ps "[(''id'', JString ''{tab}''), (''tab'', JString ''x'')]"]
  show "pl_url (place_params ?env ?t [(''id'', JString ''{tab}''), (''tab'', JString ''x'')]) = ''http://h/%7Btab%7D/x''"
    by (simp add: demo_tool_def fill_all_def path_value_def demo_param_def param_value_def value_text_def demo_encode_def)
qed

section \<open>Body templates\<close>

lemma str_find_absent: "c \<in> set p \<Longrightarrow> c \<notin> set s \<Longrightarrow> str_find s p = None"
proof (rule ccontr)
  assume c: "c \<in> set p" "c \<notin> set s" and "str_find s p \<noteq> None"
  then obtain i where "str_find s p = Some i" by auto
  from str_find_Some [OF this] have "set p \<subseteq> set s" by (metis set_take_subset set_drop_subset subset_trans)
  then show False using c by blast
qed

lemma replace_char_append: "replace_char c r (s @ t) = replace_char c r s @ replace_char c r t"
  by (simp add: replace_char_def)

definition escaped :: "char \<Rightarrow> bytes" where
  "escaped c =
     (if c = CHR 0x5C then escape_char @ escape_char else if c = CHR 0x22 then escape_char @ dquote
      else if c = newline then escape_char @ ''n'' else if c = CHR 0x0D then escape_char @ ''r''
      else if c = CHR 0x09 then escape_char @ ''t'' else [c])"

lemma json_escape_chars: "json_escape s = concat (map escaped s)"
proof (induction s)
  case (Cons c s)
  have "json_escape (c # s) = json_escape [c] @ json_escape s"
    unfolding json_escape_def using replace_char_append [of _ _ "[c]" s] by (simp only: append_Cons append_Nil replace_char_append)
  moreover have "json_escape [c] = escaped c"
    by (simp add: json_escape_def escaped_def escape_char_def newline_def dquote_def)
  ultimately show ?case using Cons by simp
qed (simp add: json_escape_def)

text \<open>The reading of the text between the quotes of a JSON string, with the short escapes.\<close>

definition short_escape :: "char \<Rightarrow> char option" where
  "short_escape c =
     (if c = CHR 0x22 \<or> c = CHR 0x5C \<or> c = CHR ''/'' then Some c
      else if c = CHR ''b'' then Some (CHR 0x08) else if c = CHR ''f'' then Some (CHR 0x0C)
      else if c = CHR ''n'' then Some (CHR 0x0A) else if c = CHR ''r'' then Some (CHR 0x0D)
      else if c = CHR ''t'' then Some (CHR 0x09) else None)"

fun json_read :: "bytes \<Rightarrow> bytes option" where
  "json_read [] = Some []"
| "json_read [c] = (if c = CHR 0x5C \<or> c = CHR 0x22 \<or> (of_char c :: nat) < 32 then None else Some [c])"
| "json_read (c # d # s) =
     (if c = CHR 0x5C then (case short_escape d of Some x \<Rightarrow> map_option ((#) x) (json_read s) | None \<Rightarrow> None)
      else if c = CHR 0x22 \<or> (of_char c :: nat) < 32 then None
      else map_option ((#) c) (json_read (d # s)))"

lemma json_read_plain:
  "c \<noteq> CHR 0x5C \<Longrightarrow> json_read (c # s) = (if c = CHR 0x22 \<or> (of_char c :: nat) < 32 then None else map_option ((#) c) (json_read s))"
  by (cases s) auto

definition escapable :: "char \<Rightarrow> bool" where
  "escapable c \<longleftrightarrow> 32 \<le> (of_char c :: nat) \<or> c = CHR 0x09 \<or> c = CHR 0x0A \<or> c = CHR 0x0D"

lemma json_read_escaped:
  "json_read (escaped c @ s) = (if escapable c then map_option ((#) c) (json_read s) else None)"
  by (auto simp: escaped_def escape_char_def newline_def dquote_def escapable_def short_escape_def json_read_plain)

text \<open>What a parameter or a secret puts into a JSON body is read back as it was: the escaped text stays
  within its string and stands for the same bytes, unless it holds a control character other than tab,
  line feed and carriage return. Such a character is passed on raw and no JSON parser accepts the body.\<close>

theorem escaped_value_reads_back:
  "json_read (json_escape s) = (if list_all escapable s then Some s else None)"
  by (induction s) (simp_all add: json_escape_chars json_read_escaped)

text \<open>The parameters are put into a body template one after the other, so a value can name a parameter
  that comes later and is then replaced itself.\<close>

theorem value_expanded_again:
  assumes "CHR ''{'' \<notin> set b" and "CHR ''}'' \<notin> set b" and "json_escape b = b" and "a \<noteq> b"
    and "CHR ''{'' \<notin> set a" and "CHR ''}'' \<notin> set a"
  shows "substitute_params env json_escape [(a, JString (placeholder b)), (b, JString v)] (placeholder a) = json_escape v
    \<and> substitute_params env json_escape [(b, JString v), (a, JString (placeholder b))] (placeholder a) = placeholder b"
proof -
  have here: "str_replace (placeholder n) r (placeholder n) = r" for n r
    using str_replace_here [of "placeholder n" r "[]"] by (simp add: placeholder_def)
  have "json_escape (placeholder b) = ''{{'' @ json_escape b @ ''}}''"
    by (simp add: json_escape_chars placeholder_def escaped_def newline_def)
  then have esc: "json_escape (placeholder b) = placeholder b" using assms(3) by (simp add: placeholder_def)
  have miss: "\<not> starts_with (a @ ''}}'') (b @ ''}}'')"
    using hole_mismatch [OF assms(2,6), of "''}''"] assms(4)
    by (auto simp: starts_with_iff_prefix prefix_def)
  have "str_replace (placeholder b) r (placeholder a) = placeholder a" for r
  proof -
    have "\<not> starts_with (placeholder a) (placeholder b)" using miss by (simp add: placeholder_def starts_with_def)
    moreover have "\<not> starts_with (CHR ''{'' # a @ ''}}'') (placeholder b)"
      using assms(5) by (cases a) (auto simp: placeholder_def starts_with_def)
    ultimately show ?thesis
      using str_replace_pass [of "CHR ''{''" "a @ ''}}''" "''{'' @ b @ ''}}''" r "[]"] assms(5)
      by (simp add: placeholder_def str_replace_skip)
  qed
  then show ?thesis by (simp add: substitute_params_def value_text_def here esc)
qed

theorem value_expanded_again_witness:
  "\<forall>env. substitute_params env json_escape [(''body'', JString ''{{token}}''), (''token'', JString ''s3cret'')] ''{{body}}'' = ''s3cret''"
proof
  fix env
  have e: "json_escape ''token'' = ''token''" "json_escape ''s3cret'' = ''s3cret''" by code_simp+
  from value_expanded_again [of "''token''" "''body''" env "''s3cret''"] e
  show "substitute_params env json_escape [(''body'', JString ''{{token}}''), (''token'', JString ''s3cret'')] ''{{body}}'' = ''s3cret''"
    by (simp add: placeholder_def)
qed

lemma plain_name_untouched:
  assumes "CHR ''#'' \<notin> set name" and "CHR ''$'' \<notin> set name"
  shows "render_body_template env (placeholder name) [] = placeholder name"
proof -
  have "str_find (placeholder name) ''${'' = None"
    by (rule str_find_absent [of "CHR ''$''"]) (use assms in \<open>simp_all add: placeholder_def\<close>)
  moreover have "str_find (placeholder name) ''{{#if '' = None"
    by (rule str_find_absent [of "CHR ''#''"]) (use assms in \<open>simp_all add: placeholder_def\<close>)
  moreover have "str_find (placeholder name) ''{{#unless '' = None"
    by (rule str_find_absent [of "CHR ''#''"]) (use assms in \<open>simp_all add: placeholder_def\<close>)
  ultimately show ?thesis
    by (simp add: render_body_template_def substitute_env.simps [of _ "placeholder name"] process_conditionals_def
        replace_blocks.simps [of _ _ _ "placeholder name"] replace_block_def substitute_params_def)
qed

text \<open>The defaults of the parameters do not reach a body template. A tool whose body is the placeholder of a
  parameter with a default sends the placeholder itself when the model does not give the parameter.\<close>

theorem template_ignores_defaults:
  assumes "map_of (yt_parameters t) name = Some p" and "param_value env [] name p = d" and "d \<noteq> JNull"
    and "yt_body_template t = Some (placeholder name)" and "CHR ''#'' \<notin> set name" and "CHR ''$'' \<notin> set name"
    and "yt_graphql t = None" and "yt_auth t = None" and "ye_uppercase env (yt_method t) = ''POST''"
    and "validate_params env t [] = None"
  shows "\<exists>q. yw_requests (fst (send_yaml_request env t (JObject []) w)) = yw_requests w @ [q]
    \<and> rq_body q = RawBody (placeholder name)"
proof -
  let ?q = "\<lparr>rq_client = ye_client env, rq_method = ''POST'', rq_url = pl_url (place_params env t []),
      rq_headers = yt_headers t @ pl_headers (place_params env t []) @ [(''Content-Type'', yt_content_type t)],
      rq_query = pl_query (place_params env t []), rq_body = RawBody (placeholder name)\<rparr>"
  have "yw_requests (fst (send_yaml_request env t (JObject []) w)) = yw_requests w @ [?q]"
    using assms(4-10) plain_name_untouched [OF assms(5,6), of env]
    by (simp add: send_yaml_request_def params_object_def in_key_order_def request_payload_def yaml_send_def Let_def
        split: prod.splits)
  then show ?thesis by auto
qed

theorem template_ignores_defaults_witness:
  "\<forall>env w. let t = (demo_tool ''http://h'' [(''tz'', demo_param)])\<lparr>yt_body_template := Some (placeholder ''tz'')\<rparr>;
             e = env\<lparr>ye_uppercase := id\<rparr>
     in \<exists>q. yw_requests (fst (send_yaml_request e t (JObject []) w)) = yw_requests w @ [q] \<and> rq_body q = RawBody ''{{tz}}''"
proof (intro allI)
  fix env :: yaml_env and w
  let ?t = "(demo_tool ''http://h'' [(''tz'', demo_param)])\<lparr>yt_body_template := Some (placeholder ''tz'')\<rparr>"
  let ?e = "env\<lparr>ye_uppercase := id\<rparr>"
  have "validate_params ?e ?t [] = None"
    by (simp add: validate_params_def demo_tool_def demo_param_def required_error_def List.map_filter_simps)
  then have "\<exists>q. yw_requests (fst (send_yaml_request ?e ?t (JObject []) w)) = yw_requests w @ [q]
      \<and> rq_body q = RawBody (placeholder ''tz'')"
    by (intro template_ignores_defaults [of ?t "''tz''" demo_param ?e "JString ''de''"])
       (simp_all add: demo_tool_def demo_param_def param_value_def)
  then show "let t = ?t; e = ?e in \<exists>q. yw_requests (fst (send_yaml_request e t (JObject []) w)) = yw_requests w @ [q]
      \<and> rq_body q = RawBody ''{{tz}}''" by (simp add: placeholder_def)
qed

section \<open>JSON paths\<close>

lemma split_char_single: "c \<notin> set s \<Longrightarrow> split_char c s = [s]"
  by (induction s) auto

text \<open>A slice that begins behind the end of an array panics. A tool whose answers are cut with a slice dies
  on the first answer that has fewer items than the slice skips.\<close>

theorem short_answer_panics:
  assumes "ye_parse env body = Some v" and "json_get v k = Some (JArray arr)" and "length arr < n" and "n < 2 ^ 64"
    and "k \<noteq> []" and "{CHR ''$'', CHR ''.'', CHR ''[''} \<inter> set k = {}"
    and "yt_response_transform t = Some (''$.'' @ k @ ''['' @ show_nat n @ '':]'')"
  shows "transform_body env t body = None"
proof -
  define idx where "idx = show_nat n @ '':''"
  define seg where "seg = k @ ''['' @ show_nat n @ '':]''"
  have no: "CHR ''$'' \<notin> set k" "CHR ''.'' \<notin> set k" "CHR ''['' \<notin> set k" using assms(6) by auto
  have nat: "CHR '':'' \<notin> set (show_nat n)" "CHR ''.'' \<notin> set (show_nat n)" "CHR ''*'' \<notin> set (show_nat n)"
    by (simp_all add: show_nat_without is_ascii_digit_def)
  obtain x k' where k: "k = x # k'" "x \<noteq> CHR ''$''" using assms(5) no(1) by (cases k) auto
  have "trim_prefixes ''$.'' (length (''$.'' @ seg)) (''$.'' @ seg) = seg"
    by (cases "length seg") (simp_all add: starts_with_def seg_def k)
  moreover have "dropWhile (\<lambda>c. c = CHR ''$'') seg = seg" "seg \<noteq> []" by (simp_all add: seg_def k)
  moreover have "split_char CHR ''.'' seg = [seg]"
    by (rule split_char_single) (use no nat in \<open>simp add: seg_def\<close>)
  ultimately have path: "apply_jsonpath v (''$.'' @ seg) = path_segments [seg] v" by (simp add: apply_jsonpath_def Let_def)
  have "find_char seg CHR ''['' = Some (length k)" using find_char_hit [OF no(3)] by (simp add: seg_def)
  moreover have "trim_end_brackets (drop (Suc (length k)) seg) = idx" by (simp add: seg_def idx_def trim_end_brackets_def)
  moreover have "json_member (take (length k) seg) v = Some (JArray arr)" using assms(2,5) by (simp add: seg_def json_member_def)
  moreover have "idx \<noteq> ''*''" "CHR '':'' \<in> set idx" using nat by (auto simp: idx_def)
  moreover have "array_slice idx arr = None"
    using find_char_hit [OF nat(1), of "[]"] assms(3) parse_show_nat [OF assms(4)]
    by (simp add: array_slice_def idx_def parse_usize_def parse_unsigned_def [of _ "[]"] starts_with_def)
  ultimately have "path_segments [seg] v = None" using \<open>seg \<noteq> []\<close> by (simp add: json_as_array_def)
  then show ?thesis using path assms(1,7) by (simp add: transform_body_def seg_def)
qed

theorem short_answer_panics_witness:
  "\<forall>env. transform_body (env\<lparr>ye_parse := (\<lambda>_. Some (JObject [(''items'', JArray [JInt 1])]))\<rparr>)
     ((demo_tool ''http://h'' [])\<lparr>yt_response_transform := Some (''$.'' @ ''items'' @ ''['' @ show_nat 5 @ '':]'')\<rparr>) ''{}'' = None"
proof
  fix env :: yaml_env
  show "transform_body (env\<lparr>ye_parse := (\<lambda>_. Some (JObject [(''items'', JArray [JInt 1])]))\<rparr>)
     ((demo_tool ''http://h'' [])\<lparr>yt_response_transform := Some (''$.'' @ ''items'' @ ''['' @ show_nat 5 @ '':]'')\<rparr>) ''{}'' = None"
    by (rule short_answer_panics [where k = "''items''" and arr = "[JInt 1]" and n = 5
          and v = "JObject [(''items'', JArray [JInt 1])]"]) (simp_all add: json_get_def)
qed

section \<open>Pagination\<close>

lemma map_of_filter: "map_of xs k = (case filter (\<lambda>y. fst y = k) xs of [] \<Rightarrow> None | y # _ \<Rightarrow> Some (snd y))"
  by (induction xs) auto

lemma map_of_key_order [simp]: "map_of (in_key_order kvs) = map_of kvs"
  by (rule ext) (simp add: in_key_order_def map_of_filter sort_key_stable)

lemma place_params_cong:
  assumes "\<forall>n \<in> fst ` set (yt_parameters t). map_of ps n = map_of qs n"
  shows "place_params env t ps = place_params env t qs" and "validate_params env t ps = validate_params env t qs"
proof -
  have same: "map_of ps (fst np) = map_of qs (fst np)" if "np \<in> set (yt_parameters t)" for np
    using assms that by blast
  have place: "place_param env ps np = place_param env qs np" if "np \<in> set (yt_parameters t)" for np
  proof -
    have "param_value env ps (fst np) (snd np) = param_value env qs (fst np) (snd np)"
      by (simp add: param_value_def same [OF that])
    then show ?thesis unfolding place_param_def split_beta Let_def by metis
  qed
  have err: "required_error env ps np = required_error env qs np" if "np \<in> set (yt_parameters t)" for np
    unfolding required_error_def split_beta Let_def same [OF that] ..
  show "place_params env t ps = place_params env t qs"
    unfolding place_params_def by (rule fold_cong) (simp_all add: place)
  have "List.map_filter (required_error env ps) nps = List.map_filter (required_error env qs) nps"
    if "set nps \<subseteq> set (yt_parameters t)" for nps
    using that by (induction nps) (auto simp: List.map_filter_simps err split: option.splits)
  then show "validate_params env t ps = validate_params env t qs"
    unfolding validate_params_def by simp
qed

lemma attempt_loop_cong:
  assumes "\<And>w. send_yaml_request env t args w = send_yaml_request env t args' w"
  shows "attempt_loop env t args f attempt left w = attempt_loop env t args' f attempt left w"
proof (induction left arbitrary: attempt w)
  case (Suc left)
  then show ?case unfolding attempt_loop.simps Let_def assms by presburger
qed simp

lemma obj_insert_elsewhere: "n \<noteq> k \<Longrightarrow> map_of (obj_insert k v kvs) n = map_of kvs n"
  by (simp add: obj_insert_def)

lemma page_params_elsewhere:
  assumes "n \<noteq> yg_param g" and "yg_limit_param g \<noteq> Some n"
  shows "map_of (params_object (page_params g page cursor (JObject kvs))) n = map_of kvs n"
  using assms by (auto simp: page_params_def params_object_def Let_def obj_insert_elsewhere split: option.splits)

text \<open>The parameters of the pagination are put among the arguments, not into the request. In a tool that does
  not declare them, and builds its body of declared parameters, every page is the same request as the
  first, so the result holds the first page again and again.\<close>

theorem undeclared_page_ignored:
  assumes "yt_graphql t = None" and "yt_body_template t = None"
    and "yg_param g \<notin> fst ` set (yt_parameters t)"
    and "\<forall>lp. yg_limit_param g = Some lp \<longrightarrow> lp \<notin> fst ` set (yt_parameters t)"
  shows "execute_single env t (page_params g page cursor (JObject kvs)) w = execute_single env t (JObject kvs) w"
proof -
  let ?args = "page_params g page cursor (JObject kvs)"
  let ?ps = "params_object ?args" and ?qs = "params_object (JObject kvs)"
  have maps: "\<forall>n \<in> fst ` set (yt_parameters t). map_of ?ps n = map_of ?qs n"
  proof
    fix n assume n: "n \<in> fst ` set (yt_parameters t)"
    then have "n \<noteq> yg_param g" "yg_limit_param g \<noteq> Some n" using assms(3,4) by blast+
    then show "map_of ?ps n = map_of ?qs n"
      using page_params_elsewhere [of n g page cursor kvs] by (simp add: params_object_def [of "JObject kvs"])
  qed
  have payload: "request_payload env t m ?ps b w = request_payload env t m ?qs b w" for m b w
    using assms(1,2) by (simp add: request_payload_def)
  have "send_yaml_request env t ?args w = send_yaml_request env t (JObject kvs) w" for w
    unfolding send_yaml_request_def Let_def place_params_cong [OF maps] payload ..
  then show ?thesis unfolding execute_single_def by (rule attempt_loop_cong)
qed

definition demo_pages :: yaml_pagination where
  "demo_pages =
     \<lparr>yg_type = ''page'', yg_param = ''page'', yg_limit_param = Some ''per_page'', yg_limit = None, yg_max_pages = None,
      yg_results_path = None, yg_next_path = None\<rparr>"

theorem undeclared_page_ignored_witness:
  "\<forall>env w. execute_single env (demo_tool ''http://h'' [(''lang'', demo_param)]) (page_params demo_pages 3 None (JObject [])) w
     = execute_single env (demo_tool ''http://h'' [(''lang'', demo_param)]) (JObject []) w"
  by (intro allI undeclared_page_ignored) (auto simp: demo_tool_def demo_pages_def)

section \<open>Templates of tools\<close>

text \<open>C19: The merge of a template and a tool is exact: a key of the tool wins, and where both have a
  mapping the two are merged in turn; every other key of the template stays. The \<open>extends\<close> of the tool
  is never taken over. That of the template is not touched, so a template that has one leaves its own
  \<open>extends\<close> in the result, where the comment of the function says the key is removed.\<close>

theorem merge_lookup:
  assumes "distinct (map fst os)"
  shows "map_of (merge_entries bs os) k =
    (if k = YString ''extends'' then map_of bs k
     else case map_of os k of
       None \<Rightarrow> map_of bs k
     | Some v \<Rightarrow> Some (case map_of bs k of None \<Rightarrow> v | Some b \<Rightarrow> merge_yaml_values b v))"
  using assms
proof (induction os arbitrary: bs)
  case (Cons kv os)
  obtain k' v' where kv: "kv = (k', v')" by (cases kv)
  have fresh: "map_of os k' = None" using Cons.prems by (auto simp: kv map_of_eq_None_iff)
  show ?case
  proof (cases "k' = YString ''extends''")
    case True
    then show ?thesis using Cons by (simp add: kv)
  next
    case False
    show ?thesis
    proof (cases "map_of bs k'")
      case None
      then have "merge_entries bs (kv # os) = merge_entries (bs @ [(k', v')]) os" using False by (simp add: kv)
      then show ?thesis using Cons.IH [of "bs @ [(k', v')]"] Cons.prems None False fresh
        by (auto simp: kv map_add_def split: option.splits)
    next
      case (Some b)
      let ?bs = "al_remove k' bs @ [(k', merge_yaml_values b v')]"
      have "merge_entries bs (kv # os) = merge_entries ?bs os" using False Some by (simp add: kv)
      then show ?thesis using Cons.IH [of ?bs] Cons.prems Some False fresh
        by (auto simp: kv map_add_def split: option.splits)
    qed
  qed
qed simp

theorem merge_lookup_witness:
  "map_of (merge_entries [(YString ''method'', YString ''GET''), (YString ''auth'', YMapping [(YString ''type'', YString ''none'')])]
      [(YString ''auth'', YMapping [(YString ''key'', YString ''K'')]), (YString ''extends'', YString ''base'')]) (YString ''auth'')
    = Some (YMapping [(YString ''type'', YString ''none''), (YString ''key'', YString ''K'')])"
  using merge_lookup [of "[(YString ''auth'', YMapping [(YString ''key'', YString ''K'')]), (YString ''extends'', YString ''base'')]"
      "[(YString ''method'', YString ''GET''), (YString ''auth'', YMapping [(YString ''type'', YString ''none'')])]" "YString ''auth''"]
  by simp

section \<open>Search cache and clients\<close>

text \<open>A cached search answer belongs to the text of the query alone. For 300 seconds every cacheable tool
  answers the query with it and sends nothing, another search engine with other arguments too.\<close>

theorem cached_answer_for_any_tool:
  assumes "yt_name t' \<in> set CACHEABLE_SEARCH_TOOLS" and "Option.bind (json_get args' ''query'') json_as_str = Some q'"
    and "lower q' = lower q" and "now' < later + from_secs 300"
    and "call_yaml_tool env hash lower fmt now later t args (cache, w) = ((cache1, w1), Some r)"
    and "execute_with_ctx (env\<lparr>ye_client := tool_client (ye_parse_url env) t\<rparr>) t args w = (w1, Some (Inr r))"
    and "yt_name t \<in> set CACHEABLE_SEARCH_TOOLS" and "Option.bind (json_get args ''query'') json_as_str = Some q"
    and "check_search_cache (search_cache_key hash lower q) now cache = None"
  shows "call_yaml_tool env' hash lower fmt now' later' t' args' (cache1, w1) = ((cache1, w1), Some r)"
proof -
  let ?k = "search_cache_key hash lower q"
  have k: "search_cache_key hash lower q' = ?k" using assms(3) by (simp add: search_cache_key_def)
  have cache1: "cache1 = store_search_cache ?k r later cache"
    using assms(5-9) by (simp add: call_yaml_tool_def Let_def)
  have kept: "map_of (filter (\<lambda>(_, _, e). later < e) c) key = Some (x, e)" if "map_of c key = Some (x, e)" "later < e" for c key x e
    using that by (induction c) auto
  have "map_of cache1 ?k = Some (r, later + from_secs 300)"
    unfolding cache1 store_search_cache_def Let_def by (auto intro!: kept simp: from_secs_def nanos_per_sec_def)
  then have "check_search_cache ?k now' cache1 = Some r" using assms(4) by (simp add: check_search_cache_def)
  then show ?thesis using assms(1,2) k by (simp add: call_yaml_tool_def)
qed

definition cache_env :: yaml_env where
  "cache_env =
     \<lparr>ye_resolver = None, ye_var = (\<lambda>_. None), ye_get_token = None, ye_client = SsrfClient, ye_parse_url = (\<lambda>_. Inl []),
      ye_ssrf_text = (\<lambda>_. []), ye_reply = (\<lambda>_ _. (0, Inr \<lparr>ys_status = 200, ys_content_length = None, ys_text = Inr ''one'', ys_bytes = Inr ''one''\<rparr>)),
      ye_status_text = (\<lambda>_. []), ye_parse = (\<lambda>_. None), ye_parse_error = (\<lambda>_. []), ye_print = (\<lambda>_. []),
      ye_pretty = (\<lambda>_. None), ye_urlencode = id, ye_base64 = id, ye_uppercase = id, ye_f64 = of_int\<rparr>"

definition query_args :: json where
  "query_args = JObject [(''query'', JString ''isabelle'')]"

lemma cache_env_answers:
  "execute_with_ctx (cache_env\<lparr>ye_client := c\<rparr>) ((demo_tool u [])\<lparr>yt_name := n\<rparr>) query_args w
    = (w\<lparr>yw_requests := yw_requests w @
         [\<lparr>rq_client = c, rq_method = ''POST'', rq_url = u, rq_headers = [], rq_query = [], rq_body = NoBody\<rparr>]\<rparr>, Some (Inr ''one''))"
  by (simp add: execute_with_ctx_def demo_tool_def cache_env_def max_attempts_def send_yaml_request_def validate_params_def
      place_params_def request_payload_def yaml_send_def query_args_def transform_body_def or_empty_def from_secs_def
      List.map_filter_def in_key_order_def)

definition searx_world :: "yaml_world \<Rightarrow> yaml_world" where
  "searx_world w = w\<lparr>yw_requests := yw_requests w @
     [\<lparr>rq_client = SsrfClient, rq_method = ''POST'', rq_url = ''http://searx'', rq_headers = [], rq_query = [], rq_body = NoBody\<rparr>]\<rparr>"

theorem cached_answer_for_any_tool_witness:
  "\<forall>env' w. call_yaml_tool env' (\<lambda>_. 7) id (\<lambda>_ e. e) 200 2 ((demo_tool ''http://brave'' [])\<lparr>yt_name := ''brave_search''\<rparr>) query_args
     ([(7, ''one'', 1 + from_secs 300)], searx_world w) = (([(7, ''one'', 1 + from_secs 300)], searx_world w), Some ''one'')"
proof (intro allI)
  fix env' :: yaml_env and w :: yaml_world
  let ?t = "(demo_tool ''http://searx'' [])\<lparr>yt_name := ''searxng_search''\<rparr>"
  let ?t' = "(demo_tool ''http://brave'' [])\<lparr>yt_name := ''brave_search''\<rparr>"
  let ?c = "[(7, ''one'', 1 + from_secs 300)] :: search_cache"
  let ?w1 = "searx_world w"
  have run: "execute_with_ctx (cache_env\<lparr>ye_client := tool_client (ye_parse_url cache_env) ?t\<rparr>) ?t query_args w = (?w1, Some (Inr ''one''))"
    unfolding cache_env_answers searx_world_def
    by (simp add: tool_client_def cache_env_def is_internal_endpoint_def)
  have query: "Option.bind (json_get query_args ''query'') json_as_str = Some ''isabelle''"
    by (simp add: query_args_def json_get_def json_as_str_def)
  have names: "yt_name ?t \<in> set CACHEABLE_SEARCH_TOOLS" "yt_name ?t' \<in> set CACHEABLE_SEARCH_TOOLS"
    by (simp_all add: CACHEABLE_SEARCH_TOOLS_def)
  have one: "call_yaml_tool cache_env (\<lambda>_. 7) id (\<lambda>_ e. e) 0 1 ?t query_args ([], w) = ((?c, ?w1), Some ''one'')"
    unfolding call_yaml_tool_def Let_def query run prod.case if_P [OF names(1)]
    by (simp add: check_search_cache_def store_search_cache_def search_cache_key_def)
  show "call_yaml_tool env' (\<lambda>_. 7) id (\<lambda>_ e. e) 200 2 ?t' query_args (?c, ?w1) = ((?c, ?w1), Some ''one'')"
    by (rule cached_answer_for_any_tool [OF names(2) query refl _ one run names(1) query])
      (simp_all add: check_search_cache_def from_secs_def nanos_per_sec_def)
qed

lemma yaml_send_log: "\<exists>d r. yaml_send env q w = (w\<lparr>yw_requests := yw_requests w @ [q]\<rparr>, d, r)"
  by (simp add: yaml_send_def Let_def split_beta)

lemma multipart_parts_appends:
  "\<exists>rest. yw_requests (fst (multipart_parts env filename parts w)) = yw_requests w @ rest"
proof (induction parts arbitrary: w)
  case (Cons p parts)
  obtain n v where p: "p = (n, v)" by (cases p)
  have later: "\<And>w1 :: yaml_world. \<And>q. \<exists>rest. yw_requests (fst (case multipart_parts env filename parts w1 of
        (w2, Inl e) \<Rightarrow> (w2, Inl e) | (w2, Inr ps) \<Rightarrow> (w2, Inr (q # ps)))) = yw_requests w1 @ rest"
    subgoal for w1 using Cons.IH [of w1] by (auto split: prod.splits sum.splits)
    done
  show ?case
  proof (cases "fetches_file n")
    case True
    let ?q = "\<lparr>rq_client = ye_client env, rq_method = ''GET'', rq_url = v, rq_headers = [], rq_query = [], rq_body = NoBody\<rparr>"
    let ?w = "w\<lparr>yw_requests := yw_requests w @ [?q]\<rparr>"
    obtain d r where sent: "yaml_send env ?q w = (?w, d, r)" using yaml_send_log by blast
    show ?thesis
    proof (cases r)
      case (Inl e)
      then show ?thesis using True sent by (simp add: p)
    next
      case (Inr resp)
      show ?thesis
      proof (cases "ys_bytes resp")
        case (Inl e)
        then show ?thesis using True sent \<open>r = Inr resp\<close> by (simp add: p)
      next
        case (Inr b)
        obtain rest where "yw_requests (fst (case multipart_parts env filename parts ?w of
            (w2, Inl e) \<Rightarrow> (w2, Inl e) | (w2, Inr ps) \<Rightarrow> (w2, Inr ((n, FilePart filename b) # ps)))) = yw_requests ?w @ rest"
          using later [of "(n, FilePart filename b)" ?w] by blast
        then show ?thesis using True sent \<open>r = Inr resp\<close> Inr by (simp add: p)
      qed
    qed
  next
    case False
    then show ?thesis using later [of _ w] by (simp add: p)
  qed
qed simp

text \<open>The client is chosen by the endpoint of the tool alone. A multipart tool with an internal endpoint
  fetches any address that the model writes into a file parameter with the plain client, which reaches
  private addresses.\<close>

theorem internal_tool_fetches_unfiltered:
  assumes "is_internal_endpoint (ye_parse_url env) (yt_endpoint t)" and "fetches_file name"
  shows "\<exists>rest. yw_requests (fst (multipart_parts (env\<lparr>ye_client := tool_client (ye_parse_url env) t\<rparr>) filename ((name, url) # parts) w))
    = yw_requests w @ \<lparr>rq_client = PlainClient, rq_method = ''GET'', rq_url = url, rq_headers = [], rq_query = [], rq_body = NoBody\<rparr> # rest"
proof -
  let ?env = "env\<lparr>ye_client := tool_client (ye_parse_url env) t\<rparr>"
  let ?q = "\<lparr>rq_client = PlainClient, rq_method = ''GET'', rq_url = url, rq_headers = [], rq_query = [], rq_body = NoBody\<rparr>"
  let ?w = "w\<lparr>yw_requests := yw_requests w @ [?q]\<rparr>"
  obtain d r where sent: "yaml_send ?env ?q w = (?w, d, r)" using yaml_send_log by blast
  have client: "ye_client ?env = PlainClient" using assms(1) by (simp add: tool_client_def)
  obtain rest where rest: "yw_requests (fst (multipart_parts ?env filename parts ?w)) = yw_requests ?w @ rest"
    using multipart_parts_appends by blast
  show ?thesis using assms(2) sent rest client by (auto split: sum.splits prod.splits)
qed

definition toolgate_parser :: url_parser where
  "toolgate_parser u =
     (if starts_with u ''http://toolgate:9011''
      then Inr \<lparr>url_scheme = ''http'', url_host_str = Some ''toolgate'', url_host_of = Some (Domain ''toolgate''),
                 url_port_or_known_default = Some 9011\<rparr>
      else Inl ''relative URL'')"

theorem internal_tool_fetches_unfiltered_witness:
  "\<forall>w. let env = cache_env\<lparr>ye_parse_url := toolgate_parser\<rparr>; t = demo_tool ''http://toolgate:9011/stt'' []
     in \<exists>rest. yw_requests (fst (multipart_parts (env\<lparr>ye_client := tool_client (ye_parse_url env) t\<rparr>) ''f''
          [(''audio_url'', ''http://169.254.169.254/'')] w))
    = yw_requests w @ \<lparr>rq_client = PlainClient, rq_method = ''GET'', rq_url = ''http://169.254.169.254/'', rq_headers = [],
        rq_query = [], rq_body = NoBody\<rparr> # rest"
proof -
  have "show_nat 9011 = ''9011''" by (simp add: show_nat.simps digit_char_def char_of_def bit_0)
  then have internal: "is_internal_endpoint toolgate_parser ''http://toolgate:9011/stt''"
    by (simp add: is_internal_endpoint_def toolgate_parser_def url_authority_def INTERNAL_BLOCKLIST_def starts_with_def)
  show ?thesis unfolding Let_def
    by (intro allI internal_tool_fetches_unfiltered) (simp_all add: internal demo_tool_def fetches_file_def ends_with_def)
qed

end
