(* ===== verification/Paths.thy ===== *)
theory Paths
  imports Text_Codec "HOL-Library.Char_ord" "HOL-Library.List_Lexorder"
begin

text \<open>
  \<open>std::path\<close> on Unix as far as the workspace code uses it, and the file system as an environment: its
  answers depend on the operations performed so far, which a run records.
\<close>

section \<open>Paths\<close>

datatype path_component = RootDir | CurDir | ParentDir | Normal bytes

definition path_noise :: "bytes \<Rightarrow> bool" where
  "path_noise s \<longleftrightarrow> s = [] \<or> s = ''.''"

definition segment_component :: "bytes \<Rightarrow> path_component" where
  "segment_component s = (if s = ''..'' then ParentDir else Normal s)"

definition is_absolute :: "bytes \<Rightarrow> bool" where
  "is_absolute p \<longleftrightarrow> starts_with p ''/''"

abbreviation segments :: "bytes \<Rightarrow> bytes list" where
  "segments p \<equiv> split_char CHR ''/'' p"

text \<open>\<open>Path::components\<close>: repeated separators and \<open>.\<close> are skipped, a leading \<open>.\<close> is kept.\<close>

definition path_body :: "bytes \<Rightarrow> path_component list" where
  "path_body p = map segment_component (filter (\<lambda>s. \<not> path_noise s) (segments p))"

definition path_head :: "bytes \<Rightarrow> path_component list" where
  "path_head p = (if is_absolute p then [RootDir] else if hd (segments p) = ''.'' then [CurDir] else [])"

definition components :: "bytes \<Rightarrow> path_component list" where
  "components p = path_head p @ path_body p"

text \<open>\<open>Path::join\<close>.\<close>

definition path_join :: "bytes \<Rightarrow> bytes \<Rightarrow> bytes" where
  "path_join p q = (if is_absolute q then q else if p = [] \<or> last p = CHR ''/'' then p @ q else p @ ''/'' @ q)"

definition path_starts_with :: "bytes \<Rightarrow> bytes \<Rightarrow> bool" where
  "path_starts_with p q \<longleftrightarrow> starts_with (components p) (components q)"

definition path_eq :: "bytes \<Rightarrow> bytes \<Rightarrow> bool" where
  "path_eq p q \<longleftrightarrow> components p = components q"

definition file_name :: "bytes \<Rightarrow> bytes option" where
  "file_name p = (if components p = [] then None else case last (components p) of Normal s \<Rightarrow> Some s | _ \<Rightarrow> None)"

text \<open>The text of a path without some components at its front or its back; separators and \<open>.\<close> at the
  cut are trimmed.\<close>

fun skip_segments :: "nat \<Rightarrow> bytes list \<Rightarrow> bytes list" where
  "skip_segments 0 ss = ss"
| "skip_segments (Suc n) [] = []"
| "skip_segments (Suc n) (s # ss) = (if path_noise s then skip_segments (Suc n) ss else skip_segments n ss)"

definition trim_back :: "bytes list \<Rightarrow> bytes list" where
  "trim_back ss = rev (dropWhile path_noise (rev ss))"

definition path_text :: "bytes list \<Rightarrow> bytes" where
  "path_text ss = join ''/'' ss"

text \<open>\<open>Path::strip_prefix\<close> for a base that is not empty.\<close>

definition strip_path_prefix :: "bytes \<Rightarrow> bytes \<Rightarrow> bytes option" where
  "strip_path_prefix p base =
     (if path_starts_with p base
      then Some (path_text (trim_back (dropWhile path_noise (skip_segments (length (path_body base)) (segments p)))))
      else None)"

definition parent :: "bytes \<Rightarrow> bytes option" where
  "parent p =
     (if components p = [] \<or> components p = [RootDir] then None
      else if path_body p = [] then Some []
      else let rest = path_text (trim_back (butlast (trim_back (segments p))))
           in Some (if rest \<noteq> [] then rest else if is_absolute p then ''/'' else if path_head p = [CurDir] then ''.'' else []))"

section \<open>The file system\<close>

datatype fs_op =
    CreateDirAll bytes
  | WriteFile bytes bytes
  | RemoveDirAll bytes
  | RemoveFile bytes
  | RenamePath bytes bytes
  | CopyFile bytes bytes

type_synonym fs_log = "fs_op list"

record dir_entry =
  de_name :: bytes
  de_is_dir :: bool
  de_size :: nat

record fs_env =
  fe_exists :: "fs_log \<Rightarrow> bytes \<Rightarrow> bool"
  fe_is_dir :: "fs_log \<Rightarrow> bytes \<Rightarrow> bool"
  fe_is_symlink :: "fs_log \<Rightarrow> bytes \<Rightarrow> bool"
  fe_canonical :: "fs_log \<Rightarrow> bytes \<Rightarrow> (bytes, bytes) result"
  fe_read :: "fs_log \<Rightarrow> bytes \<Rightarrow> (bytes, bytes) result"
  fe_list :: "fs_log \<Rightarrow> bytes \<Rightarrow> (bytes, dir_entry list) result"
  fe_perform :: "fs_log \<Rightarrow> fs_op \<Rightarrow> (bytes, unit) result"

definition perform :: "fs_env \<Rightarrow> fs_op \<Rightarrow> fs_log \<Rightarrow> fs_log \<times> (bytes, unit) result" where
  "perform env op w = (w @ [op], fe_perform env w op)"

lemma perform_simps [simp]: "fst (perform env op w) = w @ [op]" "snd (perform env op w) = fe_perform env w op"
  by (simp_all add: perform_def)

definition canonical_or :: "fs_env \<Rightarrow> fs_log \<Rightarrow> bytes \<Rightarrow> bytes" where
  "canonical_or env w p = (case fe_canonical env w p of Inr c \<Rightarrow> c | Inl _ \<Rightarrow> p)"

section \<open>Facts\<close>

lemma split_char_not_Nil [simp]: "split_char c s \<noteq> []"
  by (induction s) (auto split: list.splits)

lemma split_char_cons: "split_char c (x # s) = (if x = c then [] # split_char c s else (x # hd (split_char c s)) # tl (split_char c s))"
  by (cases "split_char c s") auto

lemma split_char_join: "split_char c (s @ c # t) = split_char c s @ split_char c t"
proof (induction s)
  case (Cons x s)
  then show ?case by (cases "split_char c s") (auto simp: split_char_cons simp del: split_char.simps(2))
qed simp

lemma split_char_no_sep: "s \<in> set (split_char c p) \<Longrightarrow> c \<notin> set s"
proof (induction p arbitrary: s)
  case (Cons x p)
  then show ?case by (cases "split_char c p") (auto simp: split_char_cons simp del: split_char.simps(2) split: if_splits)
qed simp

lemma join_split_char: "join [c] (split_char c p) = p"
proof (induction p)
  case (Cons x p)
  then show ?case by (cases "split_char c p"; cases "tl (split_char c p)") (auto simp: split_char_cons simp del: split_char.simps(2))
qed simp

lemma absolute_iff: "is_absolute p \<longleftrightarrow> (\<exists>s. p = CHR ''/'' # s)"
  by (cases p) (auto simp: is_absolute_def starts_with_def)

lemma path_body_append_sep: "path_body (p @ CHR ''/'' # q) = path_body p @ path_body q"
  by (simp add: path_body_def split_char_join)

lemma path_body_trailing: "last p = CHR ''/'' \<Longrightarrow> p \<noteq> [] \<Longrightarrow> path_body (p @ q) = path_body p @ path_body q"
proof -
  assume "last p = CHR ''/''" "p \<noteq> []"
  then obtain p' where p: "p = p' @ [CHR ''/'']" by (metis append_butlast_last_id)
  have "path_body p = path_body p'" using path_body_append_sep [of p' "[]"] by (simp add: p path_body_def path_noise_def)
  then show ?thesis by (simp add: p path_body_append_sep)
qed

lemma path_head_append:
  assumes "p \<noteq> []"
  shows "path_head (p @ CHR ''/'' # q) = path_head p"
proof -
  have "hd (segments (p @ CHR ''/'' # q)) = hd (segments p)" by (simp add: split_char_join)
  moreover have "is_absolute (p @ CHR ''/'' # q) = is_absolute p" using assms by (cases p) (simp_all add: absolute_iff)
  ultimately show ?thesis unfolding path_head_def by presburger
qed

text \<open>A relative path that is joined to another only adds its components.\<close>

lemma path_join_relative:
  assumes "p \<noteq> []" and "\<not> is_absolute q"
  shows "path_body (path_join p q) = path_body p @ path_body q" and "path_head (path_join p q) = path_head p"
proof -
  show "path_body (path_join p q) = path_body p @ path_body q"
    using assms by (simp add: path_join_def path_body_append_sep path_body_trailing)
  show "path_head (path_join p q) = path_head p"
  proof (cases "last p = CHR ''/''")
    case True
    then obtain p' where p: "p = p' @ [CHR ''/'']" using assms(1) by (metis append_butlast_last_id)
    show ?thesis
    proof (cases p')
      case Nil
      then show ?thesis using assms by (simp add: p path_join_def path_head_def is_absolute_def starts_with_def)
    next
      case (Cons c cs)
      then show ?thesis using assms path_head_append [of p' q] path_head_append [of p' "[]"] by (simp add: p path_join_def)
    qed
  next
    case False
    then show ?thesis using assms path_head_append by (simp add: path_join_def)
  qed
qed

lemma path_join_starts: "p \<noteq> [] \<Longrightarrow> \<not> is_absolute q \<Longrightarrow> path_starts_with (path_join p q) p"
  by (simp add: path_starts_with_def components_def path_join_relative starts_with_iff_prefix)

lemma absolute_components: "is_absolute p \<longleftrightarrow> RootDir \<in> set (components p)"
  by (auto simp: components_def path_head_def path_body_def segment_component_def)

end
