(* ===== verification/Workspace.thy ===== *)
theory Workspace
  imports Hyde_Types Paths
begin

text \<open>
  \<open>agent/workspace.rs\<close> and \<open>agent/path_guard.rs\<close>: where the files of an agent are, which of them it may
  write, edit, delete, move and read, and the files of its prompt.
\<close>

section \<open>Files and directories\<close>

definition WORKSPACE_FILES :: "bytes list" where
  "WORKSPACE_FILES = [''SOUL.md'', ''IDENTITY.md'', ''MEMORY.md'']"

definition SHARED_ROOT_PROMPT_FILES :: "bytes list" where
  "SHARED_ROOT_PROMPT_FILES = [''TOOLS.md'', ''AGENTS.md'', ''USER.md'']"

definition READ_ONLY_FILES :: "bytes list" where
  "READ_ONLY_FILES = [''AGENTS.md'']"

definition PRIVILEGED_ROOT_FILES :: "bytes list" where
  "PRIVILEGED_ROOT_FILES = [''TOOLS.md'']"

definition TOOLS_DIR :: bytes where
  "TOOLS_DIR = ''tools''"

definition IDENTITY_FILES :: "bytes list" where
  "IDENTITY_FILES = [''SOUL.md'', ''IDENTITY.md'', ''MEMORY.md'', ''HEARTBEAT.md'']"

definition SHARED_ROOT_FILES :: "bytes list" where
  "SHARED_ROOT_FILES = [''USER.md'', ''AGENTS.md'', ''TOOLS.md'', ''SYSTEM_TOOLS.md'']"

definition SHARED_ROOT_DIRS :: "bytes list" where
  "SHARED_ROOT_DIRS = [''tools'', ''skills'', ''mcp'', ''uploads'']"

definition ROOT_DIRS :: "bytes list" where
  "ROOT_DIRS = [''agents'', ''tools'', ''skills'', ''mcp'', ''uploads'', ''toolgate'', ''channels'']"

definition ALLOWED_EXTERNAL_PREFIXES :: "bytes list" where
  "ALLOWED_EXTERNAL_PREFIXES = [''docker'', ''toolgate'', ''browser-renderer'']"

definition agent_dir :: "bytes \<Rightarrow> bytes \<Rightarrow> bytes" where
  "agent_dir ws agent = path_join (path_join ws ''agents'') agent"

definition file_basename :: "bytes \<Rightarrow> bytes" where
  "file_basename p = unwrap_or (file_name p) []"

definition quoted :: "bytes \<Rightarrow> bytes" where
  "quoted s = tick @ s @ tick"

definition is_read_only :: "fs_env \<Rightarrow> fs_log \<Rightarrow> bytes \<Rightarrow> bytes \<Rightarrow> bool \<Rightarrow> bool" where
  "is_read_only env w ws resolved base =
     (let ws_root = canonical_or env w ws
      in if \<exists>name \<in> set READ_ONLY_FILES. path_eq resolved (path_join ws_root name) then True
         else if \<not> base \<and> (\<exists>name \<in> set PRIVILEGED_ROOT_FILES. path_eq resolved (path_join ws_root name)) then True
         else if base \<and> (case file_name resolved of None \<Rightarrow> True | Some n \<Rightarrow> n = ''SOUL.md'' \<or> n = ''IDENTITY.md'') then True
         else path_starts_with resolved (path_join ws_root TOOLS_DIR) \<and> \<not> base)"

section \<open>Validation of paths\<close>

definition normalize_filename :: "bytes \<Rightarrow> bytes" where
  "normalize_filename filename = dropWhile (\<lambda>c. c = CHR ''/'') (trim_prefixes ''workspace/'' (length filename) filename)"

definition resolve_filename :: "fs_env \<Rightarrow> fs_log \<Rightarrow> bytes \<Rightarrow> bytes \<Rightarrow> bytes \<Rightarrow> bool \<Rightarrow> bytes" where
  "resolve_filename env w ws agent normalized allow_read_any =
     (if CHR ''/'' \<in> set normalized then
        (if hd (segments normalized) \<in> set ROOT_DIRS \<or> hd (segments normalized) \<in> set SHARED_ROOT_FILES
         then path_join ws normalized else path_join (agent_dir ws agent) normalized)
      else if normalized \<in> set SHARED_ROOT_FILES \<or> normalized \<in> set SHARED_ROOT_DIRS then path_join ws normalized
      else if allow_read_any \<and> fe_exists env w (path_join ws normalized) then path_join ws normalized
      else path_join (agent_dir ws agent) normalized)"

text \<open>Where a canonical path may point: into the workspace or one of the service directories beside it.\<close>

definition allowed_target :: "fs_env \<Rightarrow> fs_log \<Rightarrow> bytes \<Rightarrow> bytes \<Rightarrow> bool" where
  "allowed_target env w ws canonical =
     (let ws_canonical = canonical_or env w ws
      in path_starts_with canonical ws_canonical
         \<or> (\<exists>pre \<in> set ALLOWED_EXTERNAL_PREFIXES.
              path_starts_with canonical (path_join (unwrap_or (parent ws_canonical) ws_canonical) pre)))"

definition first_component :: "bytes \<Rightarrow> bytes" where
  "first_component p = (case components p of
       Normal s # _ \<Rightarrow> s | ParentDir # _ \<Rightarrow> ''..'' | CurDir # _ \<Rightarrow> ''.'' | RootDir # _ \<Rightarrow> ''/'' | [] \<Rightarrow> [])"

text \<open>The directories that may be written.\<close>

definition write_allowed :: "bytes \<Rightarrow> bytes \<Rightarrow> bytes \<Rightarrow> (bytes, unit) result" where
  "write_allowed agent filename rel =
     (let fc = first_component rel
      in if CHR ''/'' \<notin> set rel \<and> fc \<noteq> [] then Inr ()
         else if fc = ''agents'' then
           (if starts_with rel (''agents/'' @ agent) then Inr ()
            else Inl (''access denied: cannot write to another agent'' @ tick @ ''s directory ('' @ quoted filename @ '')''))
         else if fc \<in> {''tools'', ''skills'', ''mcp'', ''uploads''} then Inr ()
         else if fc \<in> {''toolgate'', ''channels''} then Inr ()
         else Inl (''access denied: writing to '' @ quoted fc @ '' is not permitted''))"

definition check_resolved ::
  "fs_env \<Rightarrow> fs_log \<Rightarrow> bytes \<Rightarrow> bytes \<Rightarrow> bytes \<Rightarrow> bytes \<Rightarrow> bool \<Rightarrow> (bytes, bytes) result" where
  "check_resolved env w ws agent filename resolved allow_read_any =
     (if fe_exists env w resolved \<and> (case fe_canonical env w resolved of Inr c \<Rightarrow> \<not> allowed_target env w ws c | Inl _ \<Rightarrow> False)
      then Inl (''path traversal via symlink denied: '' @ quoted filename @ '' resolves outside workspace'')
      else if ParentDir \<in> set (components resolved)
      then Inl (''path traversal denied: '' @ quoted filename @ '' contains '' @ quoted ''..'' @ '' component'')
      else if \<not> fe_exists env w resolved
        \<and> (case parent resolved of
             None \<Rightarrow> False
           | Some p \<Rightarrow> fe_exists env w p \<and> (case fe_canonical env w p of Inr c \<Rightarrow> \<not> allowed_target env w ws c | Inl _ \<Rightarrow> False))
      then Inl (''path traversal denied: parent of '' @ quoted filename @ '' resolves outside workspace'')
      else let rel = unwrap_or (strip_path_prefix resolved ws) []
           in if ParentDir \<in> set (components rel)
              then Inl (''path traversal denied: '' @ quoted filename @ '' is outside workspace'')
              else if allow_read_any then Inr resolved
              else case write_allowed agent filename rel of Inl e \<Rightarrow> Inl e | Inr _ \<Rightarrow> Inr resolved)"

definition validate_workspace_path_inner ::
  "fs_env \<Rightarrow> bytes \<Rightarrow> bytes \<Rightarrow> bytes \<Rightarrow> bool \<Rightarrow> fs_log \<Rightarrow> fs_log \<times> (bytes, bytes) result" where
  "validate_workspace_path_inner env ws agent filename allow_read_any w =
     (let (w1, _) = perform env (CreateDirAll (agent_dir ws agent)) w
      in (w1, check_resolved env w1 ws agent filename
            (resolve_filename env w1 ws agent (normalize_filename filename) allow_read_any) allow_read_any))"

definition validate_workspace_path ::
  "fs_env \<Rightarrow> bytes \<Rightarrow> bytes \<Rightarrow> bytes \<Rightarrow> fs_log \<Rightarrow> fs_log \<times> (bytes, bytes) result" where
  "validate_workspace_path env ws agent filename w = validate_workspace_path_inner env ws agent filename False w"

definition validate_workspace_path_read ::
  "fs_env \<Rightarrow> bytes \<Rightarrow> bytes \<Rightarrow> bytes \<Rightarrow> fs_log \<Rightarrow> fs_log \<times> (bytes, bytes) result" where
  "validate_workspace_path_read env ws agent filename w = validate_workspace_path_inner env ws agent filename True w"

text \<open>\<open>path_guard::resolve_workspace_path\<close>: the canonical path, under the canonical workspace.\<close>

definition bad_leaf :: "bytes \<Rightarrow> bool" where
  "bad_leaf n \<longleftrightarrow> n = ''..'' \<or> CHR ''/'' \<in> set n \<or> CHR 0x5C \<in> set n \<or> CHR 0x00 \<in> set n"

definition resolve_workspace_path :: "fs_env \<Rightarrow> fs_log \<Rightarrow> bytes \<Rightarrow> bytes \<Rightarrow> (bytes, bytes) result" where
  "resolve_workspace_path env w ws user =
     (case fe_canonical env w ws of
        Inl e \<Rightarrow> Inl e
      | Inr ws_root \<Rightarrow>
          if (case file_name user of Some n \<Rightarrow> bad_leaf n | None \<Rightarrow> False) then Inl ''invalid leaf component''
          else let joined = (if is_absolute user then user else path_join ws_root user);
                   canonical = (case fe_canonical env w joined of
                       Inr c \<Rightarrow> Inr c
                     | Inl _ \<Rightarrow>
                         (case parent joined of
                            None \<Rightarrow> Inl ''no parent component''
                          | Some p \<Rightarrow>
                              (case fe_canonical env w p of
                                 Inl e \<Rightarrow> Inl e
                               | Inr pc \<Rightarrow> (case file_name joined of
                                     None \<Rightarrow> Inl ''no file component'' | Some f \<Rightarrow> Inr (path_join pc f)))))
               in case canonical of
                    Inl e \<Rightarrow> Inl e
                  | Inr c \<Rightarrow> if path_starts_with c ws_root then Inr c else Inl (''path escapes workspace: '' @ c))"

section \<open>Operations\<close>

text \<open>The path that the protection is checked for: the canonical parent with the name of the file, or
  the target of a symbolic link.\<close>

definition write_check_path :: "fs_env \<Rightarrow> fs_log \<Rightarrow> bytes \<Rightarrow> bytes \<Rightarrow> (bytes, bytes) result" where
  "write_check_path env w filename path =
     (case fe_canonical env w (unwrap_or (parent path) []) of
        Inl _ \<Rightarrow> Inl (quoted filename @ '' escapes workspace or cannot be resolved'')
      | Inr pc \<Rightarrow>
          (case file_name path of
             None \<Rightarrow> Inl ''path has no filename''
           | Some f \<Rightarrow>
               Inr (let candidate = path_join pc f
                    in if fe_is_symlink env w candidate then canonical_or env w candidate else candidate)))"

definition write_workspace_file ::
  "fs_env \<Rightarrow> bytes \<Rightarrow> bytes \<Rightarrow> bytes \<Rightarrow> bytes \<Rightarrow> bool \<Rightarrow> fs_log \<Rightarrow> fs_log \<times> (bytes, unit) result" where
  "write_workspace_file env ws agent filename content base w =
     (case validate_workspace_path env ws agent filename w of
        (w1, Inl e) \<Rightarrow> (w1, Inl e)
      | (w1, Inr path) \<Rightarrow>
          (case parent path of
             None \<Rightarrow> (w1, Inl ''path has no parent'')
           | Some dir \<Rightarrow>
               (case perform env (CreateDirAll dir) w1 of
                  (w2, Inl e) \<Rightarrow> (w2, Inl e)
                | (w2, Inr _) \<Rightarrow>
                    (case write_check_path env w2 filename path of
                       Inl e \<Rightarrow> (w2, Inl e)
                     | Inr check \<Rightarrow>
                         if \<not> path_starts_with check (canonical_or env w2 ws)
                         then (w2, Inl (quoted filename @ '' resolves outside workspace''))
                         else if is_read_only env w2 ws check base
                         then (w2, Inl (quoted filename @ '' is read-only and cannot be modified''))
                         else perform env (WriteFile path content) w2))))"

definition crlf_to_lf :: "bytes \<Rightarrow> bytes" where
  "crlf_to_lf s = str_replace [CHR 0x0D, newline] [newline] s"

definition read_workspace_file ::
  "fs_env \<Rightarrow> bytes \<Rightarrow> bytes \<Rightarrow> bytes \<Rightarrow> fs_log \<Rightarrow> fs_log \<times> (bytes, bytes) result" where
  "read_workspace_file env ws agent filename w =
     (case validate_workspace_path_read env ws agent filename w of
        (w1, Inl e) \<Rightarrow> (w1, Inl e)
      | (w1, Inr path) \<Rightarrow> (w1, case fe_read env w1 path of Inl e \<Rightarrow> Inl e | Inr c \<Rightarrow> Inr (crlf_to_lf c)))"

definition delete_workspace_file ::
  "fs_env \<Rightarrow> bytes \<Rightarrow> bytes \<Rightarrow> bytes \<Rightarrow> fs_log \<Rightarrow> fs_log \<times> (bytes, unit) result" where
  "delete_workspace_file env ws agent filename w =
     (case validate_workspace_path env ws agent filename w of
        (w1, Inl e) \<Rightarrow> (w1, Inl e)
      | (w1, Inr path) \<Rightarrow>
          if is_read_only env w1 ws path False \<or> file_basename filename \<in> set IDENTITY_FILES
          then (w1, Inl (quoted filename @ '' is a protected file and cannot be deleted''))
          else if fe_is_dir env w1 path then
            (case perform env (RemoveDirAll path) w1 of
               (w2, Inl _) \<Rightarrow> (w2, Inl (''failed to remove directory '' @ quoted filename)) | (w2, Inr _) \<Rightarrow> (w2, Inr ()))
          else
            (case perform env (RemoveFile path) w1 of
               (w2, Inl _) \<Rightarrow> (w2, Inl (''file '' @ quoted filename @ '' not found'')) | (w2, Inr _) \<Rightarrow> (w2, Inr ())))"

definition copy_and_remove ::
  "fs_env \<Rightarrow> bytes \<Rightarrow> bytes \<Rightarrow> bytes \<Rightarrow> bytes \<Rightarrow> fs_log \<Rightarrow> fs_log \<times> (bytes, unit) result" where
  "copy_and_remove env old_path new_path src dst w =
     (case perform env (CopyFile src dst) w of
        (w1, Inl _) \<Rightarrow> (w1, Inl (''failed to copy '' @ quoted old_path @ '' to '' @ quoted new_path))
      | (w1, Inr _) \<Rightarrow>
          (case perform env (RemoveFile src) w1 of
             (w2, Inl _) \<Rightarrow> (w2, Inl (''failed to remove source '' @ quoted old_path)) | (w2, Inr _) \<Rightarrow> (w2, Inr ())))"

definition rename_workspace_file ::
  "fs_env \<Rightarrow> bytes \<Rightarrow> bytes \<Rightarrow> bytes \<Rightarrow> bytes \<Rightarrow> fs_log \<Rightarrow> fs_log \<times> (bytes, unit) result" where
  "rename_workspace_file env ws agent old_path new_path w =
     (case validate_workspace_path env ws agent old_path w of
        (w1, Inl e) \<Rightarrow> (w1, Inl e)
      | (w1, Inr src) \<Rightarrow>
          (case validate_workspace_path env ws agent new_path w1 of
             (w2, Inl e) \<Rightarrow> (w2, Inl e)
           | (w2, Inr dst) \<Rightarrow>
               (case (case parent dst of None \<Rightarrow> (w2, Inr ()) | Some p \<Rightarrow> perform env (CreateDirAll p) w2) of
                  (w3, Inl e) \<Rightarrow> (w3, Inl e)
                | (w3, Inr _) \<Rightarrow>
                    (case perform env (RenamePath src dst) w3 of
                       (w4, Inr _) \<Rightarrow> (w4, Inr ())
                     | (w4, Inl _) \<Rightarrow>
                         if fe_is_dir env w4 src then (w4, Inl ''cannot move directories across mount points'')
                         else copy_and_remove env old_path new_path src dst w4))))"

text \<open>\<open>one_decimal\<close> prints a number with one digit after the point.\<close>

definition format_size :: "(rat \<Rightarrow> bytes) \<Rightarrow> nat \<Rightarrow> bytes" where
  "format_size one_decimal n =
     (if n < 1024 then show_nat n @ '' B''
      else if n < 1024 * 1024 then one_decimal (of_nat n / 1024) @ '' KB''
      else one_decimal (of_nat n / (1024 * 1024)) @ '' MB'')"

definition list_workspace_files ::
  "fs_env \<Rightarrow> (rat \<Rightarrow> bytes) \<Rightarrow> bytes \<Rightarrow> bytes \<Rightarrow> bytes \<Rightarrow> fs_log \<Rightarrow> fs_log \<times> (bytes, bytes) result" where
  "list_workspace_files env one_decimal ws agent directory w =
     (case (if directory = [] \<or> directory = ''.'' then (w, Inr (agent_dir ws agent))
            else validate_workspace_path_read env ws agent directory w) of
        (w1, Inl e) \<Rightarrow> (w1, Inl e)
      | (w1, Inr dir) \<Rightarrow>
          (case (if fe_exists env w1 dir then (w1, Inr ()) else perform env (CreateDirAll dir) w1) of
             (w2, Inl e) \<Rightarrow> (w2, Inl e)
           | (w2, Inr _) \<Rightarrow>
               (w2, if \<not> fe_is_dir env w2 dir then Inl (quoted directory @ '' is not a directory'')
                    else case fe_list env w2 dir of
                      Inl e \<Rightarrow> Inl e
                    | Inr es \<Rightarrow>
                        (let rows = sort (map (\<lambda>e. de_name e @ (if de_is_dir e then ''/'' else []) @ '' ('' @ format_size one_decimal (de_size e) @ '')'') es)
                         in Inr (if rows = [] then ''Directory is empty.'' else join [newline] rows)))))"

text \<open>\<open>replacen\<close> with a count of one.\<close>

definition replace_first :: "bytes \<Rightarrow> bytes \<Rightarrow> bytes \<Rightarrow> bytes" where
  "replace_first old new s = (case str_find s old of None \<Rightarrow> s | Some i \<Rightarrow> take i s @ new @ drop (i + length old) s)"

definition edit_workspace_file ::
  "fs_env \<Rightarrow> bytes \<Rightarrow> bytes \<Rightarrow> bytes \<Rightarrow> bytes \<Rightarrow> bytes \<Rightarrow> bool \<Rightarrow> fs_log \<Rightarrow> fs_log \<times> (bytes, unit) result" where
  "edit_workspace_file env ws agent filename old_text new_text base w =
     (case validate_workspace_path env ws agent filename w of
        (w1, Inl e) \<Rightarrow> (w1, Inl e)
      | (w1, Inr path) \<Rightarrow>
          (case resolve_workspace_path env w1 ws path of
             Inl _ \<Rightarrow> (w1, Inl (quoted filename @ '' escapes workspace or cannot be resolved''))
           | Inr check \<Rightarrow>
               if is_read_only env w1 ws check base
               then (w1, Inl (quoted filename @ '' is read-only and cannot be modified''))
               else case fe_read env w1 path of
                 Inl e \<Rightarrow> (w1, Inl e)
               | Inr raw \<Rightarrow>
                   if \<not> contains (crlf_to_lf raw) old_text
                   then (w1, Inl (''old_text not found in file '' @ quoted filename))
                   else perform env (WriteFile path (replace_first old_text new_text (crlf_to_lf raw))) w1))"

section \<open>Prompt files\<close>

definition MAX_PROMPT_FILE_BYTES :: nat where
  "MAX_PROMPT_FILE_BYTES = 12 * 1024"

definition append_with_limit :: "bytes \<Rightarrow> bytes \<Rightarrow> bytes \<Rightarrow> bytes" where
  "append_with_limit prompt content filename =
     (if trim content = [] then prompt
      else prompt
        @ (if length content \<le> MAX_PROMPT_FILE_BYTES then content
           else take (floor_char_boundary content MAX_PROMPT_FILE_BYTES) content
             @ [newline, newline] @ ''['' @ filename @ '': truncated at '' @ show_nat (MAX_PROMPT_FILE_BYTES div 1024) @ '' KB ''
             @ utf8 [0xE2, 0x80, 0x94] @ '' keep this file concise]'' @ [newline])
        @ [newline])"

definition append_file :: "fs_env \<Rightarrow> fs_log \<Rightarrow> bytes \<Rightarrow> bytes \<Rightarrow> bytes \<Rightarrow> bytes" where
  "append_file env w dir file prompt =
     (case fe_read env w (path_join dir file) of Inr c \<Rightarrow> append_with_limit prompt c file | Inl _ \<Rightarrow> prompt)"

definition extra_prompt_files :: "dir_entry list \<Rightarrow> bytes list" where
  "extra_prompt_files es =
     sort (filter (\<lambda>n. ends_with n ''.md'' \<and> n \<notin> set WORKSPACE_FILES \<and> n \<noteq> ''HEARTBEAT.md'') (map de_name es))"

definition load_workspace_prompt :: "fs_env \<Rightarrow> fs_log \<Rightarrow> bytes \<Rightarrow> bytes \<Rightarrow> bytes" where
  "load_workspace_prompt env w ws agent =
     (let dir = agent_dir ws agent;
          extra = (case fe_list env w dir of Inr es \<Rightarrow> extra_prompt_files es | Inl _ \<Rightarrow> [])
      in fold (append_file env w ws) SHARED_ROOT_PROMPT_FILES
           (fold (append_file env w dir) extra (fold (append_file env w dir) WORKSPACE_FILES [])))"

definition default_timezone :: bytes where
  "default_timezone = ''Europe/Samara''"

definition timezone_of_line :: "bytes \<Rightarrow> bytes option" where
  "timezone_of_line line =
     (let t = trim_prefixes ''- '' (length line) (trim line)
      in if starts_with t ''Timezone:'' \<or> starts_with t ''timezone:''
         then (let tz = trim (drop 9 t) in if tz = [] then None else Some tz) else None)"

definition parse_user_timezone :: "fs_env \<Rightarrow> fs_log \<Rightarrow> bytes \<Rightarrow> bytes" where
  "parse_user_timezone env w ws =
     (case fe_read env w (path_join ws ''USER.md'') of
        Inl _ \<Rightarrow> default_timezone
      | Inr content \<Rightarrow>
          (case List.map_filter timezone_of_line (lines content) of [] \<Rightarrow> default_timezone | tz # _ \<Rightarrow> tz))"

end
