(* ===== verification/Fs_Semantics.thy ===== *)
theory Fs_Semantics
  imports Paths
begin

text \<open>
  What the operating system does with a path, as the documentation of \<open>std::fs\<close> and of POSIX states it: a
  tree of directories, files and symbolic links, the resolution of a path with at most forty links on
  the way, and the place that a write through a path reaches, which follows a link in the last component
  even to a file that does not exist yet. Nothing here is code of the program: it says independently of
  the program's checks where a write ends up. Hard links, mounts and permissions are left out.
\<close>

section \<open>Resolution of paths\<close>

datatype fs_node = DirNode | FileNode | LinkNode bytes

type_synonym fs_tree = "bytes list \<Rightarrow> fs_node option"

text \<open>\<open>realpath\<close> from the directory \<open>cur\<close>: the links that may still be followed and the place, if there
  is one.\<close>

function walk :: "fs_tree \<Rightarrow> nat \<Rightarrow> bytes list \<Rightarrow> path_component list \<Rightarrow> (nat \<times> bytes list) option" where
  "walk t n cur [] = Some (n, cur)"
| "walk t n cur (RootDir # cs) = walk t n [] cs"
| "walk t n cur (CurDir # cs) = walk t n cur cs"
| "walk t n cur (ParentDir # cs) = walk t n (butlast cur) cs"
| "walk t n cur (Normal s # cs) =
     (case t (cur @ [s]) of
        None \<Rightarrow> None
      | Some DirNode \<Rightarrow> walk t n (cur @ [s]) cs
      | Some FileNode \<Rightarrow> if cs = [] then Some (n, cur @ [s]) else None
      | Some (LinkNode q) \<Rightarrow> (case n of 0 \<Rightarrow> None | Suc m \<Rightarrow> walk t m cur (components q @ cs)))"
  by pat_completeness auto
termination
  by (relation "inv_image (less_than <*lex*> less_than) (\<lambda>(t, n, cur, cs). (n, length cs))") auto

text \<open>The place that \<open>open\<close> with \<open>O_CREAT\<close> reaches: the last component may be missing.\<close>

function reach :: "fs_tree \<Rightarrow> nat \<Rightarrow> bytes list \<Rightarrow> path_component list \<Rightarrow> bytes list option" where
  "reach t n cur [] = Some cur"
| "reach t n cur (RootDir # cs) = reach t n [] cs"
| "reach t n cur (CurDir # cs) = reach t n cur cs"
| "reach t n cur (ParentDir # cs) = reach t n (butlast cur) cs"
| "reach t n cur (Normal s # cs) =
     (case t (cur @ [s]) of
        None \<Rightarrow> if cs = [] then Some (cur @ [s]) else None
      | Some DirNode \<Rightarrow> reach t n (cur @ [s]) cs
      | Some FileNode \<Rightarrow> if cs = [] then Some (cur @ [s]) else None
      | Some (LinkNode q) \<Rightarrow> (case n of 0 \<Rightarrow> None | Suc m \<Rightarrow> reach t m cur (components q @ cs)))"
  by pat_completeness auto
termination
  by (relation "inv_image (less_than <*lex*> less_than) (\<lambda>(t, n, cur, cs). (n, length cs))") auto

definition LINK_LIMIT :: nat where
  "LINK_LIMIT = 40"

definition resolve_path :: "fs_tree \<Rightarrow> bytes list \<Rightarrow> bytes \<Rightarrow> bytes list option" where
  "resolve_path t cwd p = (if p = [] then None else map_option snd (walk t LINK_LIMIT cwd (components p)))"

definition written_place :: "fs_tree \<Rightarrow> bytes list \<Rightarrow> bytes \<Rightarrow> bytes list option" where
  "written_place t cwd p = (if p = [] then None else reach t LINK_LIMIT cwd (components p))"

text \<open>\<open>lstat\<close>: the last component is not followed.\<close>

definition is_link :: "fs_tree \<Rightarrow> bytes list \<Rightarrow> bytes \<Rightarrow> bool" where
  "is_link t cwd p =
     (case file_name p of
        None \<Rightarrow> False
      | Some s \<Rightarrow> (case walk t LINK_LIMIT cwd (butlast (components p)) of
          None \<Rightarrow> False
        | Some (_, d) \<Rightarrow> (case t (d @ [s]) of Some (LinkNode _) \<Rightarrow> True | _ \<Rightarrow> False)))"

text \<open>A symbolic link whose target does not resolve.\<close>

definition dangling :: "fs_tree \<Rightarrow> bytes list \<Rightarrow> bytes \<Rightarrow> bool" where
  "dangling t cwd p \<longleftrightarrow> is_link t cwd p \<and> resolve_path t cwd p = None"

definition abs_path :: "bytes list \<Rightarrow> bytes" where
  "abs_path ds = ''/'' @ join ''/'' ds"

text \<open>A name that is one proper component.\<close>

definition plain_name :: "bytes \<Rightarrow> bool" where
  "plain_name n \<longleftrightarrow> CHR ''/'' \<notin> set n \<and> \<not> path_noise n \<and> n \<noteq> ''..''"

text \<open>A directory of the tree, reached without links.\<close>

definition real_dir :: "fs_tree \<Rightarrow> bytes list \<Rightarrow> bool" where
  "real_dir t d \<longleftrightarrow> (\<forall>k \<le> length d. 0 < k \<longrightarrow> t (take k d) = Some DirNode) \<and> list_all plain_name d"

text \<open>The file system answers like this tree after the operations \<open>w\<close>: \<open>canonicalize\<close> gives the
  absolute path of the place, \<open>symlink_metadata\<close> looks at the last component itself.\<close>

definition posix_fs :: "fs_env \<Rightarrow> fs_log \<Rightarrow> fs_tree \<Rightarrow> bytes list \<Rightarrow> bool" where
  "posix_fs env w t cwd \<longleftrightarrow> real_dir t cwd
     \<and> (\<forall>q. case resolve_path t cwd q of
              Some r \<Rightarrow> fe_canonical env w q = Inr (abs_path r)
            | None \<Rightarrow> (\<exists>e. fe_canonical env w q = Inl e))
     \<and> (\<forall>q. fe_is_symlink env w q = is_link t cwd q)"

section \<open>Names\<close>

lemma component_plain: "Normal s \<in> set (components p) \<Longrightarrow> plain_name s"
  using split_char_no_sep [of s "CHR ''/''" p]
  by (auto simp: components_def path_head_def path_body_def segment_component_def plain_name_def split: if_splits)

definition plain_components :: "path_component list \<Rightarrow> bool" where
  "plain_components cs \<longleftrightarrow> (\<forall>s. Normal s \<in> set cs \<longrightarrow> plain_name s)"

lemma plain_components_simps [simp]:
  "plain_components []" "plain_components (Normal s # cs) = (plain_name s \<and> plain_components cs)"
  "plain_components (RootDir # cs) = plain_components cs" "plain_components (CurDir # cs) = plain_components cs"
  "plain_components (ParentDir # cs) = plain_components cs"
  "plain_components (as @ cs) = (plain_components as \<and> plain_components cs)" "plain_components (components p)"
  by (auto simp: plain_components_def dest: component_plain)

lemma segments_plain: "plain_name n \<Longrightarrow> segments n = [n]"
proof -
  have "segments m = [m]" if "CHR ''/'' \<notin> set m" for m using that by (induction m) auto
  then show "plain_name n \<Longrightarrow> segments n = [n]" by (simp add: plain_name_def)
qed

lemma components_abs_path: "list_all plain_name ds \<Longrightarrow> components (abs_path ds) = RootDir # map Normal ds"
proof -
  assume plain: "list_all plain_name ds"
  have "path_body (join ''/'' ds) = map Normal ds" using plain
  proof (induction "''/''" ds rule: join.induct)
    case (3 x y xs)
    then show ?case using path_body_append_sep [of x "join ''/'' (y # xs)"] segments_plain [of x]
      by (simp add: path_body_def plain_name_def segment_component_def)
  next
    case (2 x)
    then show ?case using segments_plain [of x] by (simp add: path_body_def plain_name_def segment_component_def)
  qed (simp add: path_body_def path_noise_def)
  then show ?thesis using path_body_append_sep [of "[]" "join ''/'' ds"]
    by (simp add: abs_path_def components_def path_head_def absolute_iff path_body_def path_noise_def)
qed

section \<open>Resolution\<close>

lemma walk_append:
  "walk t n cur xs = Some (m, d) \<Longrightarrow> walk t n cur (xs @ ys) = Some z \<Longrightarrow> walk t m d ys = Some z"
  by (induction t n cur xs rule: walk.induct) (auto split: option.splits fs_node.splits nat.splits if_splits)

lemma reach_append:
  "walk t n cur xs = Some (m, d) \<Longrightarrow> reach t n cur (xs @ ys) = Some r \<Longrightarrow> reach t m d ys = Some r"
  by (induction t n cur xs rule: walk.induct) (auto split: option.splits fs_node.splits nat.splits if_splits)

lemma walk_reach: "walk t n cur cs = Some (k, d) \<Longrightarrow> reach t m cur cs = Some r \<Longrightarrow> r = d"
  by (induction t n cur cs arbitrary: m rule: walk.induct) (auto split: option.splits fs_node.splits nat.splits if_splits)

lemma walk_links: "walk t n cur cs = Some (k, d) \<Longrightarrow> k \<le> n"
  by (induction t n cur cs rule: walk.induct) (fastforce split: option.splits fs_node.splits nat.splits if_splits)+

lemma walk_mono: "walk t n cur cs = Some (k, d) \<Longrightarrow> walk t (n + j) cur cs = Some (k + j, d)"
  by (induction t n cur cs rule: walk.induct) (auto split: option.splits fs_node.splits nat.splits if_splits)

lemma real_dir_butlast:
  assumes "real_dir t d"
  shows "real_dir t (butlast d)"
  unfolding real_dir_def
proof (intro conjI allI impI)
  fix k assume "k \<le> length (butlast d)" "0 < k"
  then have "k < length d" by simp
  then show "t (take k (butlast d)) = Some DirNode"
    using assms \<open>0 < k\<close> by (simp add: take_butlast real_dir_def)
qed (use assms in \<open>auto simp: real_dir_def list_all_iff dest: in_set_butlastD\<close>)

lemma real_dir_snoc: "real_dir t d \<Longrightarrow> t (d @ [s]) = Some DirNode \<Longrightarrow> plain_name s \<Longrightarrow> real_dir t (d @ [s])"
  by (auto simp: real_dir_def le_Suc_eq)

lemma real_dir_Nil [simp]: "real_dir t []"
  by (simp add: real_dir_def)

lemma walk_plain:
  "walk t n cur cs = Some (m, d) \<Longrightarrow> real_dir t cur \<Longrightarrow> plain_components cs \<Longrightarrow> list_all plain_name d"
  by (induction t n cur cs rule: walk.induct)
     (auto simp: real_dir_butlast real_dir_snoc split: option.splits fs_node.splits nat.splits if_splits, auto simp: real_dir_def)

text \<open>Only a directory is passed on the way.\<close>

lemma reach_through:
  "walk t n cur xs = Some (m, d) \<Longrightarrow> reach t n cur (xs @ y # ys) = Some r \<Longrightarrow> real_dir t cur \<Longrightarrow> plain_components xs \<Longrightarrow> real_dir t d"
  by (induction t n cur xs rule: walk.induct)
     (auto simp: real_dir_butlast real_dir_snoc split: option.splits fs_node.splits nat.splits if_splits)

lemma walk_down:
  assumes "\<forall>k \<le> length ds. 0 < k \<longrightarrow> t (cur @ take k ds) = Some DirNode"
  shows "walk t n cur (map Normal ds @ cs) = walk t n (cur @ ds) cs"
  using assms
proof (induction ds arbitrary: cur)
  case (Cons a ds)
  have a: "t (cur @ [a]) = Some DirNode" using Cons.prems [rule_format, of 1] by simp
  have "t ((cur @ [a]) @ take k ds) = Some DirNode" if "k \<le> length ds" "0 < k" for k
    using Cons.prems [rule_format, of "Suc k"] that by simp
  then have "walk t n (cur @ [a]) (map Normal ds @ cs) = walk t n ((cur @ [a]) @ ds) cs" using Cons.IH [of "cur @ [a]"] by blast
  then show ?case using a by simp
qed simp

lemma walk_real_dir: "real_dir t d \<Longrightarrow> walk t n cur (RootDir # map Normal d @ cs) = walk t n d cs"
  using walk_down [of d t "[]" n cs] by (simp add: real_dir_def)

text \<open>In a tree without links below a directory, a path resolves to the place it spells.\<close>

lemma walk_no_links:
  assumes "\<forall>ds. prefix cur ds \<longrightarrow> (\<nexists>q. t ds = Some (LinkNode q))" and "walk t n cur (map Normal ns) = Some (m, d)"
  shows "d = cur @ ns"
  using assms
proof (induction ns arbitrary: cur)
  case (Cons a ns)
  have below: "\<forall>ds. prefix (cur @ [a]) ds \<longrightarrow> (\<nexists>q. t ds = Some (LinkNode q))"
    using Cons.prems(1) by (meson append_prefixD)
  have "\<nexists>q. t (cur @ [a]) = Some (LinkNode q)" using Cons.prems(1) by simp
  then show ?case using Cons.prems(2) Cons.IH [OF below] by (auto split: option.splits fs_node.splits if_splits)
qed simp

section \<open>The place a write reaches\<close>

text \<open>The path that is made of the canonical directory and the name of the file, or of the canonical form of
  this path where it is a link, is the place that a write through the given path reaches.\<close>

theorem checked_place_written:
  assumes fs: "posix_fs env w t cwd" and p: "components p = cs @ [Normal s]" and dir: "components dir = cs"
    and pc: "fe_canonical env w dir = Inr pc" and real: "written_place t cwd p = Some real" and no: "\<not> dangling t cwd p"
  defines "candidate \<equiv> path_join pc s"
  defines "check \<equiv> if fe_is_symlink env w candidate then canonical_or env w candidate else candidate"
  shows "components check = RootDir # map Normal real"
proof -
  have canon: "case resolve_path t cwd q of Some r \<Rightarrow> fe_canonical env w q = Inr (abs_path r) | None \<Rightarrow> (\<exists>e. fe_canonical env w q = Inl e)"
    and link: "fe_is_symlink env w q = is_link t cwd q" and cwd: "real_dir t cwd" for q
    using fs by (auto simp: posix_fs_def)
  have names: "plain_components cs" "plain_name s" using plain_components_simps(7) [of p] by (simp_all add: p del: plain_components_simps(7))
  obtain d where "resolve_path t cwd dir = Some d" and pcd: "pc = abs_path d" using canon [of dir] pc by (auto split: option.splits)
  then obtain m where walk: "walk t LINK_LIMIT cwd cs = Some (m, d)" by (auto simp: resolve_path_def dir split: if_splits)
  have ne: "p \<noteq> []" using p by (auto simp: components_def path_head_def path_body_def is_absolute_def starts_with_def path_noise_def)
  have whole: "reach t LINK_LIMIT cwd (cs @ [Normal s]) = Some real" using real by (simp add: written_place_def p ne)
  have d: "real_dir t d" using reach_through [OF walk whole cwd names(1)] .
  have last: "reach t m d [Normal s] = Some real" by (rule reach_append [OF walk whole])
  have plain: "list_all plain_name d" using d by (simp add: real_dir_def)
  have "\<not> is_absolute s" "path_body s = [Normal s]" "pc \<noteq> []"
    using names(2) segments_plain [of s] pcd
    by (auto simp: plain_name_def absolute_iff path_body_def segment_component_def abs_path_def)
  then have cand: "components candidate = RootDir # map Normal d @ [Normal s]"
    using path_join_relative [of pc s] components_abs_path [OF plain]
    by (simp add: candidate_def components_def pcd)
  then have cne: "candidate \<noteq> []"
    by (auto simp: components_def path_head_def path_body_def is_absolute_def starts_with_def path_noise_def)
  have "butlast (components candidate) = RootDir # map Normal d @ []" unfolding cand by (simp add: butlast_append)
  then have "is_link t cwd candidate \<longleftrightarrow> (\<exists>q. t (d @ [s]) = Some (LinkNode q))"
    unfolding is_link_def file_name_def using walk_real_dir [OF d, of LINK_LIMIT cwd "[]"]
    by (simp add: cand split: option.split fs_node.split)
  moreover have "is_link t cwd p \<longleftrightarrow> (\<exists>q. t (d @ [s]) = Some (LinkNode q))"
    unfolding is_link_def file_name_def using walk by (simp add: p split: option.split fs_node.split)
  ultimately have links: "fe_is_symlink env w candidate \<longleftrightarrow> is_link t cwd p" "is_link t cwd p \<longleftrightarrow> (\<exists>q. t (d @ [s]) = Some (LinkNode q))"
    using link by auto
  show ?thesis
  proof (cases "is_link t cwd p")
    case False
    then have "real = d @ [s]" using last links(2) by (auto split: option.splits fs_node.splits)
    then show ?thesis using False links(1) by (simp add: check_def cand)
  next
    case True
    then obtain r where "resolve_path t cwd p = Some r" using no by (auto simp: dangling_def)
    then obtain k where "walk t LINK_LIMIT cwd (cs @ [Normal s]) = Some (k, r)" by (auto simp: resolve_path_def p split: if_splits)
    then have r: "walk t m d [Normal s] = Some (k, r)" by (rule walk_append [OF walk])
    obtain j where "LINK_LIMIT = m + j" using walk_links [OF walk] by (metis le_add_diff_inverse)
    then have up: "walk t LINK_LIMIT d [Normal s] = Some (k + j, r)" using walk_mono [OF r, of j] by (simp only:)
    then have "resolve_path t cwd candidate = Some r"
      using walk_real_dir [OF d, of LINK_LIMIT cwd "[Normal s]"] by (simp add: resolve_path_def cand cne)
    then have "canonical_or env w candidate = abs_path r" using canon [of candidate] by (simp add: canonical_or_def)
    moreover have "list_all plain_name r" by (rule walk_plain [OF up d]) (simp add: names)
    ultimately show ?thesis
      using True links(1) walk_reach [OF r last] components_abs_path by (simp add: check_def)
  qed
qed

end
