(* ===== verification/Workspace_Facts.thy ===== *)
theory Workspace_Facts
  imports Workspace Fs_Semantics
begin

text \<open>
  Facts about the workspace: which paths validation lets through, what the write, the edit, the deletion
  and the move of a file keep of the protection, and the bounds of the prompt files.
\<close>

section \<open>Components of paths\<close>

lemma segments_join:
  assumes "ss \<noteq> []" and "\<forall>s \<in> set ss. CHR ''/'' \<notin> set s"
  shows "segments (path_text ss) = ss"
proof -
  have plain: "split_char c s = [s]" if "c \<notin> set s" for c :: char and s using that by (induction s) auto
  show ?thesis using assms unfolding path_text_def
  proof (induction "''/''" ss rule: join.induct)
    case (3 x y xs)
    then show ?case using split_char_join [of "CHR ''/''" x "join ''/'' (y # xs)"] by (simp add: plain)
  qed (simp_all add: plain)
qed

lemma path_body_text:
  assumes "\<forall>s \<in> set ss. CHR ''/'' \<notin> set s"
  shows "path_body (path_text ss) = map segment_component (filter (\<lambda>s. \<not> path_noise s) ss)"
proof (cases ss)
  case Nil
  then show ?thesis by (simp add: path_body_def path_text_def path_noise_def)
next
  case (Cons s ss')
  then show ?thesis using segments_join [of ss] assms by (simp add: path_body_def)
qed

lemma filter_trim_back: "filter (\<lambda>s. \<not> path_noise s) (trim_back ss) = filter (\<lambda>s. \<not> path_noise s) ss"
proof -
  have "filter (\<lambda>s. \<not> path_noise s) (dropWhile path_noise xs) = filter (\<lambda>s. \<not> path_noise s) xs" for xs
    by (induction xs) auto
  from this [of "rev ss"] show ?thesis by (simp add: trim_back_def rev_filter [symmetric])
qed

lemma filter_skip: "filter (\<lambda>s. \<not> path_noise s) (skip_segments n ss) = drop n (filter (\<lambda>s. \<not> path_noise s) ss)"
  by (induction n ss rule: skip_segments.induct) auto

lemma filter_dropWhile: "filter (\<lambda>s. \<not> P s) (dropWhile P ss) = filter (\<lambda>s. \<not> P s) ss"
  by (induction ss) auto

lemma set_skip: "set (skip_segments n ss) \<subseteq> set ss"
  by (induction n ss rule: skip_segments.induct) auto

lemma set_trim_back: "set (trim_back ss) \<subseteq> set ss"
  using set_dropWhileD by (fastforce simp: trim_back_def)

text \<open>What is left of a path after its base.\<close>

definition rest_segments :: "bytes \<Rightarrow> bytes \<Rightarrow> bytes list" where
  "rest_segments p base = trim_back (dropWhile path_noise (skip_segments (length (path_body base)) (segments p)))"

lemma rest_segments_no_sep: "s \<in> set (rest_segments p base) \<Longrightarrow> CHR ''/'' \<notin> set s"
  unfolding rest_segments_def using set_trim_back set_skip set_dropWhileD split_char_no_sep by (metis subsetD)

lemma trimmed_ends:
  assumes "trim_back (dropWhile path_noise ss) \<noteq> []"
  shows "\<not> path_noise (hd (trim_back (dropWhile path_noise ss))) \<and> \<not> path_noise (last (trim_back (dropWhile path_noise ss)))"
proof -
  define d where "d = dropWhile path_noise ss"
  define r where "r = dropWhile path_noise (rev d)"
  have r: "r \<noteq> []" using assms by (simp add: trim_back_def d_def r_def)
  then have last: "\<not> path_noise (last (rev r))" using hd_dropWhile [of path_noise "rev d"] by (simp add: last_rev r_def)
  have "suffix r (rev d)" by (simp add: r_def suffix_dropWhile)
  then obtain zs where "d = rev r @ zs" by (metis suffix_to_prefix rev_rev_ident prefixE)
  then have "hd d = hd (rev r)" "d \<noteq> []" using r by simp_all
  then have "\<not> path_noise (hd (rev r))" using hd_dropWhile [of path_noise ss] by (simp add: d_def)
  then show ?thesis using last by (simp add: trim_back_def r_def d_def)
qed

lemmas rest_segments_ends = trimmed_ends [of "skip_segments (length (path_body base)) (segments p)", folded rest_segments_def] for base p

lemma strip_rest:
  assumes "path_starts_with p base"
  shows "strip_path_prefix p base = Some (path_text (rest_segments p base))"
  using assms by (simp add: strip_path_prefix_def rest_segments_def)

lemma rest_body: "path_body (path_text (rest_segments p base)) = drop (length (path_body base)) (path_body p)"
proof -
  have "path_body (path_text (rest_segments p base)) = map segment_component (filter (\<lambda>s. \<not> path_noise s) (rest_segments p base))"
    by (rule path_body_text) (use rest_segments_no_sep in blast)
  then show ?thesis
    by (simp add: rest_segments_def filter_trim_back filter_dropWhile filter_skip path_body_def drop_map)
qed

lemma rest_components:
  "components (path_text (rest_segments p base)) = drop (length (path_body base)) (path_body p)"
proof -
  let ?r = "rest_segments p base"
  have "path_head (path_text ?r) = []"
  proof (cases "?r")
    case Nil
    then show ?thesis by (simp add: path_head_def is_absolute_def path_text_def starts_with_def)
  next
    case (Cons s ss)
    have ends: "\<not> path_noise s" using rest_segments_ends [where p = p and base = base] Cons by simp
    then obtain c s' where s: "s = c # s'" by (cases s) (simp_all add: path_noise_def)
    have "c \<noteq> CHR ''/''" using rest_segments_no_sep [of s p base] Cons s by auto
    then have "\<not> is_absolute (path_text ?r)" by (cases ss) (simp_all add: Cons s path_text_def absolute_iff)
    moreover have "hd (segments (path_text ?r)) \<noteq> ''.''"
      using segments_join [of ?r] rest_segments_no_sep [of _ p base] Cons ends by (simp add: path_noise_def)
    ultimately show ?thesis by (simp add: path_head_def)
  qed
  then show ?thesis by (simp add: components_def rest_body)
qed

lemma component_count: "length (path_body p) \<le> length (components p)"
  by (simp add: components_def)

lemma normalized_not_absolute: "\<not> is_absolute (normalize_filename f)"
proof -
  have "\<not> is_absolute (dropWhile (\<lambda>c. c = CHR ''/'') s)" for s
    by (induction s) (simp_all add: is_absolute_def starts_with_def)
  then show ?thesis by (simp add: normalize_filename_def)
qed

lemma join_components:
  assumes "p \<noteq> []" and "\<not> is_absolute q"
  shows "components (path_join p q) = components p @ path_body q"
  using path_join_relative [OF assms] by (simp add: components_def)

lemma join_not_Nil [simp]: "p \<noteq> [] \<Longrightarrow> path_join p q \<noteq> []"
  by (cases q) (auto simp: path_join_def is_absolute_def starts_with_def)

lemma agent_dir_components:
  assumes "ws \<noteq> []" and "\<not> is_absolute agent"
  shows "components (agent_dir ws agent) = components ws @ Normal ''agents'' # path_body agent" and "agent_dir ws agent \<noteq> []"
proof -
  have "\<not> is_absolute ''agents''" "path_body ''agents'' = [Normal ''agents'']"
    by (simp_all add: is_absolute_def starts_with_def path_body_def path_noise_def segment_component_def)
  then show "components (agent_dir ws agent) = components ws @ Normal ''agents'' # path_body agent"
    using assms by (simp add: agent_dir_def join_components)
  show "agent_dir ws agent \<noteq> []" using assms by (simp add: agent_dir_def)
qed

lemma agent_dir_parts:
  assumes "ws \<noteq> []" and "\<not> is_absolute agent"
  shows "path_body (agent_dir ws agent) = path_body ws @ Normal ''agents'' # path_body agent"
    and "path_head (agent_dir ws agent) = path_head ws"
proof -
  have "\<not> is_absolute ''agents''" "path_body ''agents'' = [Normal ''agents'']"
    by (simp_all add: is_absolute_def starts_with_def path_body_def path_noise_def segment_component_def)
  then show "path_body (agent_dir ws agent) = path_body ws @ Normal ''agents'' # path_body agent"
    "path_head (agent_dir ws agent) = path_head ws"
    using assms by (simp_all add: agent_dir_def path_join_relative)
qed

lemma resolved_parts:
  assumes "ws \<noteq> []" and "\<not> is_absolute agent" and "\<not> is_absolute n"
  shows "\<exists>rest. path_body (resolve_filename env w ws agent n any) = path_body ws @ rest"
    and "path_head (resolve_filename env w ws agent n any) = path_head ws"
  using assms agent_dir_parts [OF assms(1,2)] agent_dir_components(2) [OF assms(1,2)]
  by (auto simp: resolve_filename_def path_join_relative)

lemma body_components: "c \<in> set (path_body p) \<Longrightarrow> c = ParentDir \<or> (\<exists>s. c = Normal s)"
  by (auto simp: path_body_def segment_component_def)

lemma validated_parts:
  assumes "validate_workspace_path_inner env ws agent filename any w = (w1, Inr p)" and "ws \<noteq> []" and "\<not> is_absolute agent"
  obtains rest where "components p = components ws @ rest" and "components (path_text (rest_segments p ws)) = rest"
    and "ParentDir \<notin> set (components p)" and "any \<or> write_allowed agent filename (path_text (rest_segments p ws)) = Inr ()"
    and "w1 = w @ [CreateDirAll (agent_dir ws agent)]"
proof -
  have p: "p = resolve_filename env w1 ws agent (normalize_filename filename) any"
    and ok: "ParentDir \<notin> set (components p)"
    and wr: "any \<or> write_allowed agent filename (unwrap_or (strip_path_prefix p ws) []) = Inr ()"
    and w1: "w1 = w @ [CreateDirAll (agent_dir ws agent)]"
    using assms(1) by (auto simp: validate_workspace_path_inner_def check_resolved_def perform_def Let_def split: if_splits sum.splits)
  obtain rest where body: "path_body p = path_body ws @ rest" and hd: "path_head p = path_head ws"
    using resolved_parts [OF assms(2,3) normalized_not_absolute [of filename]] unfolding p by blast
  then have comps: "components p = components ws @ rest" by (simp add: components_def)
  then have "path_starts_with p ws" by (simp add: path_starts_with_def starts_with_iff_prefix)
  then have wr': "any \<or> write_allowed agent filename (path_text (rest_segments p ws)) = Inr ()" using wr by (simp add: strip_rest)
  have "components (path_text (rest_segments p ws)) = rest" using body by (simp add: rest_components)
  then show thesis by (rule that [OF comps _ ok wr' w1])
qed

section \<open>Scope of the validation\<close>

text \<open>C12: A path that passes the validation for writing lies below the workspace, without \<open>..\<close>, and is a
  direct entry of the workspace, an entry of one of its shared directories, or an entry of the directory of an
  agent whose name begins with the name of the caller.\<close>

theorem write_scope:
  assumes "validate_workspace_path env ws agent filename w = (w1, Inr p)"
    and "ws \<noteq> []" and "agent \<noteq> []" and "agent \<noteq> ''.''" and "CHR ''/'' \<notin> set agent"
  shows "\<exists>rest. components p = components ws @ rest \<and> ParentDir \<notin> set (components p)
    \<and> ((\<exists>s. rest = [Normal s])
       \<or> (\<exists>a r. rest = Normal ''agents'' # Normal a # r \<and> prefix agent a)
       \<or> (\<exists>d r. rest = Normal d # r \<and> d \<in> {''tools'', ''skills'', ''mcp'', ''uploads'', ''toolgate'', ''channels''}))"
proof -
  have "\<not> is_absolute agent" using assms(5) by (auto simp: absolute_iff)
  then obtain rest where comps: "components p = components ws @ rest" and rest: "components (path_text (rest_segments p ws)) = rest"
    and dots: "ParentDir \<notin> set (components p)" and wr: "write_allowed agent filename (path_text (rest_segments p ws)) = Inr ()"
    using validated_parts [OF assms(1) [unfolded validate_workspace_path_def] assms(2)] by blast
  let ?ss = "rest_segments p ws"
  have plain: "\<forall>s \<in> set ?ss. CHR ''/'' \<notin> set s" using rest_segments_no_sep by blast
  have body: "rest = map segment_component (filter (\<lambda>s. \<not> path_noise s) ?ss)"
    using rest_body [of p ws] rest_components [of p ws] path_body_text [OF plain] rest by simp
  have normal: "\<exists>s. c = Normal s" if "c \<in> set rest" for c
    using that dots comps body by (auto simp: segment_component_def)
  show ?thesis
  proof (cases ?ss)
    case Nil
    then show ?thesis using wr rest body by (simp add: write_allowed_def first_component_def)
  next
    case (Cons s ss)
    have s: "\<not> path_noise s" using rest_segments_ends [where p = p and base = ws] Cons by simp
    then have rest': "rest = Normal s # map segment_component (filter (\<lambda>s. \<not> path_noise s) ss)"
      using body normal [of "segment_component s"] by (auto simp: Cons segment_component_def split: if_splits)
    then have fc: "first_component (path_text ?ss) = s" using rest by (simp add: first_component_def)
    show ?thesis
    proof (cases ss)
      case Nil
      then show ?thesis using comps dots rest' by auto
    next
      case (Cons a ss')
      have shape: "path_text ?ss = s @ ''/'' @ path_text ss" using \<open>?ss = s # ss\<close> Cons by (simp add: path_text_def)
      show ?thesis
      proof (cases "s = ''agents''")
        case True
        have "starts_with (path_text ss) agent"
          using wr fc True by (simp add: write_allowed_def shape starts_with_iff_prefix split: if_splits)
        then obtain zs where zs: "path_text ss = agent @ zs" by (auto simp: starts_with_iff_prefix prefix_def)
        have pre: "prefix agent a"
        proof (cases ss')
          case Nil
          then show ?thesis using zs Cons by (simp add: path_text_def)
        next
          case (Cons b bs)
          then have "agent @ zs = a @ CHR ''/'' # path_text ss'" using zs \<open>ss = a # ss'\<close> by (simp add: path_text_def)
          then show ?thesis using assms(5) by (fastforce simp: append_eq_append_conv2 prefix_def Cons_eq_append_conv append_eq_Cons_conv)
        qed
        have a: "\<not> path_noise a" using pre assms(3,4) by (cases agent) (auto simp: path_noise_def prefix_def)
        then have "segment_component a \<in> set rest" using rest' Cons by simp
        then have "segment_component a = Normal a" using normal by (auto simp: segment_component_def split: if_splits)
        then show ?thesis using comps dots rest' Cons a pre True by auto
      next
        case False
        then have "s \<in> {''tools'', ''skills'', ''mcp'', ''uploads'', ''toolgate'', ''channels''}"
          using wr fc False by (auto simp: write_allowed_def shape split: if_splits)
        then show ?thesis using comps dots rest' by auto
      qed
    qed
  qed
qed

section \<open>Parents and relative paths\<close>

lemma trim_back_snoc:
  assumes "filter (\<lambda>s. \<not> path_noise s) ss \<noteq> []"
  obtains xs s where "trim_back ss = xs @ [s]" and "\<not> path_noise s" and "prefix (xs @ [s]) ss"
proof -
  let ?r = "dropWhile path_noise (rev ss)"
  have "\<exists>s \<in> set ss. \<not> path_noise s" using assms by (auto simp: filter_empty_conv)
  then have ne: "?r \<noteq> []" by (simp add: dropWhile_eq_Nil_conv)
  obtain s ys where r: "?r = s # ys" using ne by (cases ?r) auto
  then have "\<not> path_noise s" using hd_dropWhile [OF ne] by simp
  moreover have "suffix ?r (rev ss)" by (rule suffix_dropWhile)
  then have "prefix (rev ?r) ss" by (metis suffix_to_prefix rev_rev_ident)
  ultimately show thesis using that [of "rev ys" s] r by (simp add: trim_back_def)
qed

lemma trim_back_Nil_or_last: "trim_back ss = [] \<or> \<not> path_noise (last (trim_back ss))"
  using hd_dropWhile [of path_noise "rev ss"] by (cases "dropWhile path_noise (rev ss) = []") (simp_all add: trim_back_def last_rev)

lemma trim_back_prefix: "prefix (trim_back ss) ss"
  unfolding trim_back_def by (metis suffix_dropWhile suffix_to_prefix rev_rev_ident)

lemma absolute_segments: "is_absolute p \<longleftrightarrow> hd (segments p) = [] \<and> p \<noteq> []"
  by (cases p) (auto simp: absolute_iff split_char_cons simp del: split_char.simps(2))

lemma path_text_head:
  assumes "ss \<noteq> []" and "\<forall>s \<in> set ss. CHR ''/'' \<notin> set s" and "ss \<noteq> [[]]"
  shows "path_head (path_text ss) = (if hd ss = [] then [RootDir] else if hd ss = ''.'' then [CurDir] else [])"
proof -
  have "path_text ss \<noteq> []" using assms(1,3) by (cases ss; cases "tl ss") (auto simp: path_text_def)
  then show ?thesis using segments_join [OF assms(1,2)] by (simp add: path_head_def absolute_segments)
qed

text \<open>The parent of a path with a proper last component loses just this component.\<close>

lemma parent_components:
  assumes "path_body p \<noteq> []"
  shows "\<exists>q. parent p = Some q \<and> components q = butlast (components p)"
proof -
  have ne: "filter (\<lambda>s. \<not> path_noise s) (segments p) \<noteq> []" using assms by (simp add: path_body_def)
  obtain xs s where tb: "trim_back (segments p) = xs @ [s]" and s: "\<not> path_noise s" and pre: "prefix (xs @ [s]) (segments p)"
    using trim_back_snoc [OF ne] by blast
  let ?rest = "trim_back xs"
  let ?t = "path_text ?rest"
  let ?q = "if ?t \<noteq> [] then ?t else if is_absolute p then ''/'' else if path_head p = [CurDir] then ''.'' else []"
  have "RootDir \<notin> set (path_body p)" by (auto dest: body_components)
  then have parent: "parent p = Some ?q"
    using assms tb by (auto simp: parent_def Let_def components_def path_head_def)
  have sub: "prefix ?rest (segments p)" using prefix_order.trans [OF trim_back_prefix append_prefixD [OF pre]] .
  then have seps: "\<forall>x \<in> set ?rest. CHR ''/'' \<notin> set x" using split_char_no_sep set_mono_prefix by blast
  have "map segment_component (filter (\<lambda>s. \<not> path_noise s) (trim_back (segments p))) = path_body p"
    by (simp add: filter_trim_back path_body_def)
  then have body: "map segment_component (filter (\<lambda>s. \<not> path_noise s) xs) = butlast (path_body p)"
    using s by (simp add: tb) (metis butlast_snoc)
  show ?thesis
  proof (cases "?rest = []")
    case True
    then have t: "?t = []" and "filter (\<lambda>s. \<not> path_noise s) xs = []" using filter_trim_back [of xs] by (simp_all add: path_text_def)
    then have b: "butlast (path_body p) = []" using body by simp
    have "components ?q = path_head p"
      using t by (auto simp: components_def path_head_def path_body_def is_absolute_def starts_with_def path_noise_def)
    then show ?thesis using parent b assms by (simp add: components_def butlast_append)
  next
    case False
    have last: "\<not> path_noise (last ?rest)" using trim_back_Nil_or_last [of xs] False by simp
    then have nn: "?rest \<noteq> [[]]" by (auto simp: path_noise_def)
    have hd: "hd ?rest = hd (segments p)" using sub False by (auto simp: prefix_def)
    have "?t \<noteq> []" using path_text_head [OF False seps nn] last False nn by (cases ?rest; cases "tl ?rest") (auto simp: path_text_def)
    moreover have "path_head ?t = path_head p"
      using path_text_head [OF False seps nn] hd assms by (auto simp: path_head_def absolute_segments path_body_def path_noise_def)
    moreover have "path_body ?t = butlast (path_body p)" using path_body_text [OF seps] body by (simp add: filter_trim_back)
    ultimately show ?thesis using parent assms by (simp add: components_def butlast_append)
  qed
qed

lemma skip_body:
  "dropWhile path_noise (skip_segments (length (filter (\<lambda>s. \<not> path_noise s) xs)) (xs @ ys)) = dropWhile path_noise ys"
proof (induction xs)
  case (Cons x xs)
  have noise: "dropWhile path_noise (skip_segments n (x # zs)) = dropWhile path_noise (skip_segments n zs)" if "path_noise x" for n zs
    using that by (cases n) simp_all
  show ?case using Cons by (cases "path_noise x") (simp_all add: noise)
qed simp

lemma rest_segments_join:
  assumes "p \<noteq> []" and "\<not> is_absolute q"
  shows "rest_segments (path_join p q) p = trim_back (dropWhile path_noise (segments q))"
proof (cases "last p = CHR ''/''")
  case True
  then obtain p' where p: "p = p' @ [CHR ''/'']" using assms(1) by (metis append_butlast_last_id)
  have "path_body p = path_body p'" using path_body_append_sep [of p' "[]"] by (simp add: p path_body_def path_noise_def)
  moreover have "path_join p q = p' @ CHR ''/'' # q" using assms by (simp add: p path_join_def)
  ultimately show ?thesis using skip_body [of "segments p'" "segments q"]
    by (simp add: rest_segments_def split_char_join path_body_def)
next
  case False
  then show ?thesis using assms skip_body [of "segments p" "segments q"]
    by (simp add: rest_segments_def path_join_def split_char_join path_body_def)
qed

section \<open>Operations\<close>

text \<open>No symbolic link below the workspace leads out of it: a path that is spelled below the workspace
  and resolves, resolves to a place in the workspace.\<close>

definition no_links_out :: "fs_env \<Rightarrow> fs_log \<Rightarrow> bytes \<Rightarrow> bool" where
  "no_links_out env w ws \<longleftrightarrow>
     (\<forall>p c. path_starts_with p ws \<and> ParentDir \<notin> set (components p) \<and> fe_canonical env w p = Inr c
        \<longrightarrow> path_starts_with c (canonical_or env w ws))"

lemma links_ok:
  assumes "no_links_out env w ws" and "path_starts_with p ws" and "ParentDir \<notin> set (components p)"
  shows "(case fe_canonical env w p of Inl _ \<Rightarrow> False | Inr c \<Rightarrow> \<not> allowed_target env w ws c) = False"
  using assms unfolding no_links_out_def allowed_target_def Let_def by (auto split: sum.splits)

lemma validate_relative:
  assumes "no_links_out env (w @ [CreateDirAll (agent_dir ws agent)]) ws"
    and "resolve_filename env (w @ [CreateDirAll (agent_dir ws agent)]) ws agent (normalize_filename f) any = path_join ws q"
    and "ws \<noteq> []" and "\<not> is_absolute q" and "ParentDir \<notin> set (components ws)" and "ParentDir \<notin> set (path_body q)"
    and "any \<or> write_allowed agent f (path_text (trim_back (dropWhile path_noise (segments q)))) = Inr ()"
    and "path_body q \<noteq> []"
  shows "validate_workspace_path_inner env ws agent f any w = (w @ [CreateDirAll (agent_dir ws agent)], Inr (path_join ws q))"
proof -
  let ?w = "w @ [CreateDirAll (agent_dir ws agent)]" and ?p = "path_join ws q"
  let ?t = "path_text (trim_back (dropWhile path_noise (segments q)))"
  have rest: "unwrap_or (strip_path_prefix ?p ws) [] = ?t"
    using path_join_starts [OF assms(3,4)] rest_segments_join [OF assms(3,4)] by (simp add: strip_rest)
  have spelled: "components ?p = components ws @ path_body q" by (rule join_components [OF assms(3,4)])
  then have comps: "ParentDir \<notin> set (components ?p)" using assms(5,6) by simp
  have rel: "ParentDir \<notin> set (components ?t)"
    using rest_components [of ?p ws] rest_segments_join [OF assms(3,4)] path_join_relative(1) [OF assms(3,4)] assms(6) by simp
  have body: "path_body ?p \<noteq> []" using path_join_relative(1) [OF assms(3,4)] assms(8) by simp
  obtain d where d: "parent ?p = Some d" "components d = butlast (components ?p)" using parent_components [OF body] by blast
  then have "components d = components ws @ butlast (path_body q)" using spelled assms(8) by (simp add: butlast_append)
  then have "path_starts_with d ws" "ParentDir \<notin> set (components d)"
    using assms(5,6) by (auto simp: path_starts_with_def starts_with_iff_prefix dest: in_set_butlastD)
  from links_ok [OF assms(1) this] have up: "(case fe_canonical env ?w d of Inl _ \<Rightarrow> False | Inr c \<Rightarrow> \<not> allowed_target env ?w ws c) = False" .
  have here: "(case fe_canonical env ?w ?p of Inl _ \<Rightarrow> False | Inr c \<Rightarrow> \<not> allowed_target env ?w ws c) = False"
    by (rule links_ok [OF assms(1) path_join_starts [OF assms(3,4)] comps])
  show ?thesis
    unfolding validate_workspace_path_inner_def perform_def Let_def split_def fst_conv snd_conv check_resolved_def assms(2) rest d(1)
    using comps rel assms(7) here up by (auto split: sum.splits)
qed

lemma not_read_only_relative:
  assumes "\<not> is_absolute p" and "is_absolute (canonical_or env w ws)"
  shows "\<not> is_read_only env w ws p False"
proof -
  let ?W = "canonical_or env w ws"
  have W: "?W \<noteq> []" using assms(2) by (auto simp: absolute_iff)
  have "RootDir \<in> set (components (path_join ?W n))" if "\<not> is_absolute n" for n
    using assms(2) join_components [OF W that] by (simp add: absolute_components)
  moreover have "RootDir \<notin> set (components p)" using assms(1) by (simp add: absolute_components)
  moreover have "\<not> is_absolute ''AGENTS.md''" "\<not> is_absolute ''TOOLS.md''" "\<not> is_absolute ''tools''"
    by (simp_all add: is_absolute_def starts_with_def)
  ultimately show ?thesis
    by (auto simp: is_read_only_def Let_def READ_ONLY_FILES_def PRIVILEGED_ROOT_FILES_def TOOLS_DIR_def path_eq_def
        path_starts_with_def starts_with_iff_prefix dest!: set_mono_prefix)
qed

lemma join_relative_absolute: "p \<noteq> [] \<Longrightarrow> \<not> is_absolute q \<Longrightarrow> is_absolute (path_join p q) = is_absolute p"
  by (simp add: absolute_components join_components) (metis body_components path_component.distinct(3) path_component.distinct(5))

lemma resolve_shared:
  "resolve_filename env w ws agent ''AGENTS.md'' any = path_join ws ''AGENTS.md''"
  "resolve_filename env w ws agent ''TOOLS.md'' any = path_join ws ''TOOLS.md''"
  "resolve_filename env w ws agent ''tools'' any = path_join ws ''tools''"
  "resolve_filename env w ws agent ''agents/'' any = path_join ws ''agents/''"
proof -
  have "hd (segments ''agents/'') = ''agents''" by code_simp
  then show "resolve_filename env w ws agent ''agents/'' any = path_join ws ''agents/''"
    unfolding resolve_filename_def by (simp add: ROOT_DIRS_def)
qed (simp_all add: resolve_filename_def SHARED_ROOT_FILES_def SHARED_ROOT_DIRS_def)

text \<open>C22: The protection of a deletion is checked with the path as it was resolved, not with the canonical
  one. With a relative workspace directory, as the program has by default, it never applies: where no
  symbolic link leads out of the workspace, every agent can delete \<open>AGENTS.md\<close>, \<open>TOOLS.md\<close>, the directory of
  all tools and the directory of all agents.\<close>

theorem relative_workspace_deletes_protected:
  assumes "\<not> is_absolute ws" and "ws \<noteq> []" and "ParentDir \<notin> set (components ws)"
    and "is_absolute (canonical_or env (w @ [CreateDirAll (agent_dir ws agent)]) ws)"
    and "no_links_out env (w @ [CreateDirAll (agent_dir ws agent)]) ws"
    and "f \<in> {''AGENTS.md'', ''TOOLS.md'', ''tools'', ''agents/''}"
  shows "\<exists>dir. fst (delete_workspace_file env ws agent f w)
    = w @ [CreateDirAll (agent_dir ws agent), if dir then RemoveDirAll (path_join ws f) else RemoveFile (path_join ws f)]"
proof -
  let ?w = "w @ [CreateDirAll (agent_dir ws agent)]"
  have rel: "\<not> is_absolute f" using assms(6) by (auto simp: is_absolute_def starts_with_def)
  have norms: "normalize_filename ''AGENTS.md'' = ''AGENTS.md''" "normalize_filename ''TOOLS.md'' = ''TOOLS.md''"
    "normalize_filename ''tools'' = ''tools''" "normalize_filename ''agents/'' = ''agents/''"
    by code_simp+
  then have norm: "normalize_filename f = f" using assms(6) by auto
  have resolve: "resolve_filename env ?w ws agent f False = path_join ws f"
    using assms(6) resolve_shared by blast
  have texts: "path_text (trim_back (dropWhile path_noise (segments ''AGENTS.md''))) = ''AGENTS.md''"
    "path_text (trim_back (dropWhile path_noise (segments ''TOOLS.md''))) = ''TOOLS.md''"
    "path_text (trim_back (dropWhile path_noise (segments ''tools''))) = ''tools''"
    "path_text (trim_back (dropWhile path_noise (segments ''agents/''))) = ''agents''"
    by code_simp+
  have bodies: "path_body ''AGENTS.md'' = [Normal ''AGENTS.md'']" "path_body ''TOOLS.md'' = [Normal ''TOOLS.md'']"
    "path_body ''tools'' = [Normal ''tools'']" "path_body ''agents/'' = [Normal ''agents'']" "path_body ''agents'' = [Normal ''agents'']"
    by code_simp+
  have heads: "path_head ''AGENTS.md'' = []" "path_head ''TOOLS.md'' = []" "path_head ''tools'' = []" "path_head ''agents'' = []" "path_head ''agents/'' = []"
    by code_simp+
  have rel_text: "path_text (trim_back (dropWhile path_noise (segments f))) \<in> {''AGENTS.md'', ''TOOLS.md'', ''tools'', ''agents''}"
    using assms(6) texts by auto
  have body: "path_body f \<in> {[Normal ''AGENTS.md''], [Normal ''TOOLS.md''], [Normal ''tools''], [Normal ''agents'']}"
    using assms(6) bodies by auto
  have allowed: "write_allowed agent f (path_text (trim_back (dropWhile path_noise (segments f)))) = Inr ()"
    using rel_text by (auto simp: write_allowed_def first_component_def components_def heads bodies)
  have valid: "validate_workspace_path env ws agent f w = (?w, Inr (path_join ws f))"
    unfolding validate_workspace_path_def
    by (rule validate_relative) (use assms(2,3,5) rel norm resolve body allowed in auto)
  have "\<not> is_read_only env ?w ws (path_join ws f) False"
    using not_read_only_relative [of "path_join ws f"] join_relative_absolute [OF assms(2) rel] assms(1,4) by simp
  moreover have "file_basename f \<notin> set IDENTITY_FILES"
    using assms(6) by (auto simp: file_basename_def file_name_def components_def heads bodies IDENTITY_FILES_def)
  ultimately show ?thesis using valid
    by (cases "fe_is_dir env ?w (path_join ws f)")
       (auto simp: delete_workspace_file_def perform_def split: sum.splits intro: exI [of _ True] exI [of _ False])
qed

lemma write_allowed_nonempty: "write_allowed agent f rel = Inr () \<Longrightarrow> components rel \<noteq> []"
  by (auto simp: write_allowed_def first_component_def split: if_splits)

text \<open>C21: The edit of a file joins the path, which begins with the workspace directory already, to the
  canonical workspace. With a relative workspace directory, as the program has by default, no edit succeeds
  as long as nothing below \<open><workspace>/<workspace>\<close> resolves: the path looked at is
  \<open>workspace/workspace/\<dots>\<close>. (Where such a directory exists, the protection is checked for a file in
  it and the edit can succeed.)\<close>

theorem relative_workspace_edits_fail:
  assumes "\<not> is_absolute ws" and "ws \<noteq> []" and "\<not> is_absolute agent"
    and "fe_canonical env (w @ [CreateDirAll (agent_dir ws agent)]) ws = Inr R" and "R \<noteq> []"
    and "\<forall>p. path_starts_with p (path_join R ws) \<longrightarrow> (\<exists>e. fe_canonical env (w @ [CreateDirAll (agent_dir ws agent)]) p = Inl e)"
  shows "\<exists>e. edit_workspace_file env ws agent f old new base w = (w @ [CreateDirAll (agent_dir ws agent)], Inl e)"
proof (cases "snd (validate_workspace_path env ws agent f w)")
  case (Inl e)
  then show ?thesis
    by (auto simp: edit_workspace_file_def validate_workspace_path_def validate_workspace_path_inner_def perform_def Let_def)
next
  case (Inr p)
  then obtain w1 where valid: "validate_workspace_path_inner env ws agent f False w = (w1, Inr p)"
    by (metis prod.collapse validate_workspace_path_def)
  obtain rest where comps: "components p = components ws @ rest" and rest: "components (path_text (rest_segments p ws)) = rest"
    and wr: "write_allowed agent f (path_text (rest_segments p ws)) = Inr ()"
    and w1: "w1 = w @ [CreateDirAll (agent_dir ws agent)]"
    using validated_parts [OF valid assms(2,3)] by blast
  have ne: "rest \<noteq> []" using write_allowed_nonempty [OF wr] rest by simp
  have "RootDir \<notin> set rest" using rest rest_components [of p ws] by (auto dest!: in_set_dropD body_components)
  then have rel: "\<not> is_absolute p" using assms(1) comps by (simp add: absolute_components)
  have "length (components ws) = length (path_head ws) + length (path_body ws)" by (simp add: components_def)
  have body_p: "path_body p = path_body ws @ rest"
  proof -
    have "path_head p = path_head ws"
      using resolved_parts(2) [OF assms(2,3) normalized_not_absolute [of f]] valid
      by (auto simp: validate_workspace_path_inner_def check_resolved_def perform_def Let_def split: if_splits sum.splits)
    then show ?thesis using comps by (simp add: components_def)
  qed
  let ?joined = "path_join R p"
  have joined: "components ?joined = components R @ path_body ws @ rest" using join_components [OF assms(5) rel] body_p by simp
  have base: "components (path_join R ws) = components R @ path_body ws" by (rule join_components [OF assms(5,1)])
  have "path_starts_with ?joined (path_join R ws)" by (simp add: path_starts_with_def joined base starts_with_iff_prefix)
  then obtain e1 where e1: "fe_canonical env w1 ?joined = Inl e1" using assms(6) w1 by blast
  have "path_body ?joined \<noteq> []" using path_join_relative(1) [OF assms(5) rel] body_p ne by simp
  then obtain q where q: "parent ?joined = Some q" "components q = butlast (components ?joined)" using parent_components by blast
  have "path_starts_with q (path_join R ws)"
    using q(2) ne by (simp add: path_starts_with_def joined base starts_with_iff_prefix butlast_append)
  then obtain e2 where e2: "fe_canonical env w1 q = Inl e2" using assms(6) w1 by blast
  have "\<exists>e. resolve_workspace_path env w1 ws p = Inl e"
    using assms(4) w1 rel e1 q(1) e2 by (auto simp: resolve_workspace_path_def Let_def split: option.splits)
  then show ?thesis using valid w1 by (auto simp: edit_workspace_file_def validate_workspace_path_def)
qed

text \<open>An edit that succeeds replaces the first occurrence of the text, and only it, in the content of the
  file with its line ends normalised.\<close>

theorem edit_replaces_first:
  assumes "edit_workspace_file env ws agent f old new base w = (w', Inr ())"
  shows "\<exists>p raw pre post. w' = w @ [CreateDirAll (agent_dir ws agent), WriteFile p (pre @ new @ post)]
    \<and> fe_read env (w @ [CreateDirAll (agent_dir ws agent)]) p = Inr raw \<and> crlf_to_lf raw = pre @ old @ post
    \<and> (\<forall>i < length pre. \<not> starts_with (drop i (pre @ old @ post)) old)"
proof -
  let ?w1 = "w @ [CreateDirAll (agent_dir ws agent)]"
  have fst1: "fst (validate_workspace_path env ws agent f w) = ?w1"
    by (simp add: validate_workspace_path_def validate_workspace_path_inner_def perform_def Let_def)
  obtain p raw where read: "fe_read env ?w1 p = Inr raw" and hit: "contains (crlf_to_lf raw) old"
    and w': "w' = ?w1 @ [WriteFile p (replace_first old new (crlf_to_lf raw))]"
    using assms fst1
    by (auto simp: edit_workspace_file_def perform_def split: prod.splits sum.splits if_splits)
  obtain i where i: "str_find (crlf_to_lf raw) old = Some i" using hit by (auto simp: contains_def)
  let ?c = "crlf_to_lf raw"
  have at: "take (length old) (drop i ?c) = old" and le: "i + length old \<le> length ?c" using str_find_Some [OF i] by simp_all
  have split: "?c = take i ?c @ old @ drop (i + length old) ?c"
    using at by (metis add.commute append_take_drop_id drop_drop)
  have least: "\<forall>j < i. \<not> starts_with (drop j ?c) old"
    using str_find_least [OF i] by (auto simp: starts_with_def)
  have "length (take i ?c) = i" using le by simp
  then show ?thesis using read w' i split least
    by (intro exI [of _ p] exI [of _ raw] exI [of _ "take i ?c"] exI [of _ "drop (i + length old) ?c"])
       (simp add: replace_first_def)
qed

section \<open>Ways around the protection\<close>


lemma clean_text:
  assumes "\<not> path_noise (hd (segments q))" and "\<not> path_noise (last (segments q))"
  shows "path_text (trim_back (dropWhile path_noise (segments q))) = q"
proof -
  obtain s ss where ss: "segments q = s # ss" using split_char_not_Nil by (cases "segments q") auto
  obtain xs x where xs: "segments q = xs @ [x]" using split_char_not_Nil [of "CHR ''/''" q] by (metis append_butlast_last_id)
  have "dropWhile path_noise (segments q) = segments q" using assms(1) by (simp add: ss)
  moreover have "trim_back (segments q) = segments q" using assms(2) by (simp add: xs trim_back_def)
  ultimately show ?thesis by (simp add: path_text_def join_split_char)
qed

lemma plain_segments: "CHR ''/'' \<notin> set s \<Longrightarrow> segments s = [s]"
  using segments_join [of "[s]"] by (simp add: path_text_def)

lemma two_segments: "CHR ''/'' \<notin> set a \<Longrightarrow> CHR ''/'' \<notin> set b \<Longrightarrow> segments (a @ ''/'' @ b) = [a, b]"
  by (simp add: split_char_join plain_segments)

lemma three_segments:
  "CHR ''/'' \<notin> set a \<Longrightarrow> CHR ''/'' \<notin> set b \<Longrightarrow> CHR ''/'' \<notin> set c \<Longrightarrow> segments (a @ ''/'' @ b @ ''/'' @ c) = [a, b, c]"
  by (simp add: split_char_join plain_segments)

lemma plain_name_simps:
  assumes "plain_name n"
  shows "n \<noteq> []" and "\<not> is_absolute n" and "path_body n = [Normal n]" and "segments n = [n]"
  using assms plain_segments [of n] by (auto simp: plain_name_def path_noise_def absolute_iff path_body_def segment_component_def)

lemma plain_constants: "plain_name ''agents''" "plain_name ''tools''" "plain_name ''SOUL.md''"
  by code_simp+

lemma below_dir:
  assumes "plain_name d" and "plain_name n"
  shows "segments (d @ ''/'' @ n) = [d, n]" and "path_body (d @ ''/'' @ n) = [Normal d, Normal n]" and "\<not> is_absolute (d @ ''/'' @ n)"
    and "path_text (trim_back (dropWhile path_noise (segments (d @ ''/'' @ n)))) = d @ ''/'' @ n"
proof -
  have segs: "segments (d @ ''/'' @ n) = [d, n]" using assms by (intro two_segments) (simp_all add: plain_name_def)
  then show "segments (d @ ''/'' @ n) = [d, n]" .
  show "path_body (d @ ''/'' @ n) = [Normal d, Normal n]"
    unfolding path_body_def segs using assms by (simp add: plain_name_def segment_component_def)
  show "\<not> is_absolute (d @ ''/'' @ n)" using plain_name_simps(1,2) [OF assms(1)] by (cases d) (auto simp: absolute_iff)
  show "path_text (trim_back (dropWhile path_noise (segments (d @ ''/'' @ n)))) = d @ ''/'' @ n"
    by (rule clean_text) (use assms in \<open>simp_all only: segs list.sel last.simps\<close>, simp_all add: plain_name_def)
qed

lemma below_two:
  assumes "plain_name d" and "plain_name e" and "plain_name n"
  shows "segments (d @ ''/'' @ e @ ''/'' @ n) = [d, e, n]" and "path_body (d @ ''/'' @ e @ ''/'' @ n) = [Normal d, Normal e, Normal n]"
    and "\<not> is_absolute (d @ ''/'' @ e @ ''/'' @ n)"
    and "path_text (trim_back (dropWhile path_noise (segments (d @ ''/'' @ e @ ''/'' @ n)))) = d @ ''/'' @ e @ ''/'' @ n"
proof -
  have segs: "segments (d @ ''/'' @ e @ ''/'' @ n) = [d, e, n]" using assms by (intro three_segments) (simp_all add: plain_name_def)
  then show "segments (d @ ''/'' @ e @ ''/'' @ n) = [d, e, n]" .
  show "path_body (d @ ''/'' @ e @ ''/'' @ n) = [Normal d, Normal e, Normal n]"
    unfolding path_body_def segs using assms by (simp add: plain_name_def segment_component_def)
  show "\<not> is_absolute (d @ ''/'' @ e @ ''/'' @ n)" using plain_name_simps(1,2) [OF assms(1)] by (cases d) (auto simp: absolute_iff)
  show "path_text (trim_back (dropWhile path_noise (segments (d @ ''/'' @ e @ ''/'' @ n)))) = d @ ''/'' @ e @ ''/'' @ n"
    by (rule clean_text) (use assms in \<open>simp_all only: segs list.sel last.simps\<close>, simp_all add: plain_name_def)
qed

lemma no_prefix_needed: "\<not> starts_with f ''workspace/'' \<Longrightarrow> \<not> is_absolute f \<Longrightarrow> normalize_filename f = f"
  by (cases f) (auto simp: normalize_filename_def absolute_iff)

lemma components_eq_body: "\<not> is_absolute n \<Longrightarrow> p \<noteq> [] \<Longrightarrow> path_body n = ns \<Longrightarrow> components (path_join p n) = components p @ ns"
  by (simp add: join_components)

text \<open>Validation of a path below one of the directories that agents may address.\<close>

lemma validate_below:
  assumes "no_links_out env (w @ [CreateDirAll (agent_dir ws agent)]) ws" and "ws \<noteq> []" and "ParentDir \<notin> set (components ws)"
    and "\<not> is_absolute f" and "ParentDir \<notin> set (path_body f)" and "path_body f \<noteq> []" and "CHR ''/'' \<in> set f" and "\<not> starts_with f ''workspace/''"
    and "hd (segments f) \<in> set ROOT_DIRS" and "path_text (trim_back (dropWhile path_noise (segments f))) = f"
    and "write_allowed agent f f = Inr ()"
  shows "validate_workspace_path env ws agent f w = (w @ [CreateDirAll (agent_dir ws agent)], Inr (path_join ws f))"
  unfolding validate_workspace_path_def
  by (rule validate_relative) (use assms no_prefix_needed [OF assms(8,4)] in \<open>simp_all add: resolve_filename_def\<close>)

text \<open>The states in which only directories have been created since \<open>w\<close>.\<close>

definition dirs_after :: "fs_log \<Rightarrow> fs_log set" where
  "dirs_after w = {w @ map CreateDirAll ds | ds. True}"

lemma dirs_after_simps [simp]: "w \<in> dirs_after w" "v \<in> dirs_after w \<Longrightarrow> v @ [CreateDirAll d] \<in> dirs_after w"
proof -
  show "w \<in> dirs_after w" by (auto simp: dirs_after_def intro: exI [of _ "[]"])
  assume "v \<in> dirs_after w"
  then obtain ds where "v = w @ map CreateDirAll ds" by (auto simp: dirs_after_def)
  then have "v @ [CreateDirAll d] = w @ map CreateDirAll (ds @ [d])" by simp
  then show "v @ [CreateDirAll d] \<in> dirs_after w" unfolding dirs_after_def by blast
qed

text \<open>A directory \<open>C\<close> of the workspace, \<open>cs\<close> as it is spelled, that exists or can be created, in which \<open>n\<close> is
  no symbolic link; the canonical workspace is \<open>W\<close>.\<close>

definition usable_dir :: "fs_env \<Rightarrow> fs_log \<Rightarrow> bytes \<Rightarrow> bytes \<Rightarrow> path_component list \<Rightarrow> bytes \<Rightarrow> bytes \<Rightarrow> bool" where
  "usable_dir env w ws W cs C n \<longleftrightarrow>
     (\<forall>v \<in> dirs_after w. canonical_or env v ws = W \<and> \<not> fe_is_symlink env v (path_join C n)
        \<and> (\<forall>q. components q = cs \<longrightarrow> fe_perform env v (CreateDirAll q) = Inr () \<and> fe_canonical env v q = Inr C))"

lemma write_outcome:
  assumes "validate_workspace_path env ws agent f w = (w @ [CreateDirAll a], Inr p)" and "components p = cs @ [Normal n]" and "path_body p \<noteq> []"
    and "usable_dir env w ws W cs C n" and "path_starts_with (path_join C n) W"
  shows "\<exists>w2 \<in> dirs_after w. write_workspace_file env ws agent f content base w =
    (if is_read_only env w2 ws (path_join C n) base then (w2, Inl (quoted f @ '' is read-only and cannot be modified''))
     else perform env (WriteFile p content) w2)"
proof -
  obtain d where d: "parent p = Some d" "components d = cs" using parent_components [OF assms(3)] assms(2) by auto
  let ?w2 = "(w @ [CreateDirAll a]) @ [CreateDirAll d]"
  have in1: "w @ [CreateDirAll a] \<in> dirs_after w" and in2: "?w2 \<in> dirs_after w" by (intro dirs_after_simps)+
  have name: "file_name p = Some n" using assms(2) by (simp add: file_name_def)
  have made: "fe_perform env (w @ [CreateDirAll a]) (CreateDirAll d) = Inr ()"
    using assms(4) in1 d(2) unfolding usable_dir_def by blast
  have there: "fe_canonical env ?w2 d = Inr C" "\<not> fe_is_symlink env ?w2 (path_join C n)" "canonical_or env ?w2 ws = W"
    using assms(4) in2 d(2) unfolding usable_dir_def by blast+
  show ?thesis using in2
    by (rule rev_bexI)
       (use assms(1,5) d(1) name made there in \<open>simp add: write_workspace_file_def perform_def write_check_path_def Let_def\<close>)
qed

lemma write_cases:
  assumes "validate_workspace_path env ws agent f w = (w @ [CreateDirAll a], Inr p)" and "components p = cs @ [Normal n]" and "path_body p \<noteq> []"
    and "usable_dir env w ws W cs C n" and "path_starts_with (path_join C n) W"
  shows "(\<And>v. v \<in> dirs_after w \<Longrightarrow> is_read_only env v ws (path_join C n) base) \<Longrightarrow>
      snd (write_workspace_file env ws agent f content base w) = Inl (quoted f @ '' is read-only and cannot be modified'')"
    and "(\<And>v. v \<in> dirs_after w \<Longrightarrow> \<not> is_read_only env v ws (path_join C n) base) \<Longrightarrow>
      (\<And>v. v \<in> dirs_after w \<Longrightarrow> fe_perform env v (WriteFile p content) = Inr ()) \<Longrightarrow>
      snd (write_workspace_file env ws agent f content base w) = Inr ()
      \<and> last (fst (write_workspace_file env ws agent f content base w)) = WriteFile p content"
  using write_outcome [OF assms, of content base] by (auto simp: perform_def)



text \<open>The directory of another agent is told from the own one by a prefix of the text: an agent may write
  into the directory of every agent whose name begins with its own, even its \<open>SOUL.md\<close>.\<close>

theorem longer_named_agent_writable:
  assumes "\<forall>v \<in> dirs_after w. no_links_out env v ws" and "ws \<noteq> []" and "ParentDir \<notin> set (components ws)"
    and "plain_name other" and "prefix agent other"
    and "usable_dir env w ws W (components ws @ [Normal ''agents'', Normal other]) (path_join W (''agents/'' @ other)) ''SOUL.md''"
    and "W \<noteq> []"
    and "\<forall>v \<in> dirs_after w. fe_perform env v (WriteFile (path_join ws (''agents/'' @ other @ ''/SOUL.md'')) content) = Inr ()"
  shows "snd (write_workspace_file env ws agent (''agents/'' @ other @ ''/SOUL.md'') content False w) = Inr ()
    \<and> last (fst (write_workspace_file env ws agent (''agents/'' @ other @ ''/SOUL.md'') content False w))
      = WriteFile (path_join ws (''agents/'' @ other @ ''/SOUL.md'')) content"
proof -
  let ?f = "''agents'' @ ''/'' @ other @ ''/'' @ ''SOUL.md''"
  have f: "''agents/'' @ other @ ''/SOUL.md'' = ?f" by simp
  note below = below_two [OF plain_constants(1) assms(4) plain_constants(3)]
  have links: "no_links_out env (w @ [CreateDirAll (agent_dir ws agent)]) ws" using assms(1) by simp
  have valid: "validate_workspace_path env ws agent ?f w = (w @ [CreateDirAll (agent_dir ws agent)], Inr (path_join ws ?f))"
  proof (rule validate_below [OF links assms(2,3) below(3)])
    have "starts_with ?f (''agents/'' @ agent)" using assms(5) by (auto simp: starts_with_iff_prefix prefix_def)
    then show "write_allowed agent ?f ?f = Inr ()"
      using below(2,3) by (simp add: write_allowed_def first_component_def components_def path_head_def below(1))
    show "ParentDir \<notin> set (path_body ?f)" by (simp only: below(2)) simp
    show "path_body ?f \<noteq> []" by (simp only: below(2)) simp
    show "hd (segments ?f) \<in> set ROOT_DIRS" by (simp only: below(1)) (simp add: ROOT_DIRS_def)
  qed (use below(4) in \<open>simp_all add: starts_with_def\<close>)
  have comps: "components (path_join ws ?f) = (components ws @ [Normal ''agents'', Normal other]) @ [Normal ''SOUL.md'']"
    using join_components [OF assms(2) below(3)] below(2) by simp
  have body: "path_body (path_join ws ?f) \<noteq> []" using path_join_relative(1) [OF assms(2) below(3)] below(2) by simp
  let ?C = "path_join W (''agents/'' @ other)"
  have C: "components ?C = components W @ [Normal ''agents'', Normal other]"
    using components_eq_body [OF _ assms(7)] below_dir(2,3) [OF plain_constants(1) assms(4)] by simp
  have check: "components (path_join ?C ''SOUL.md'') = components W @ [Normal ''agents'', Normal other, Normal ''SOUL.md'']"
    using components_eq_body [of "''SOUL.md''" ?C] plain_name_simps(2,3) [OF plain_constants(3)] C assms(7) by simp
  have names: "components (path_join W ''AGENTS.md'') = components W @ [Normal ''AGENTS.md'']"
    "components (path_join W ''TOOLS.md'') = components W @ [Normal ''TOOLS.md'']" "components (path_join W ''tools'') = components W @ [Normal ''tools'']"
  proof -
    have "plain_name ''AGENTS.md''" "plain_name ''TOOLS.md''" by code_simp+
    then show "components (path_join W ''AGENTS.md'') = components W @ [Normal ''AGENTS.md'']"
      "components (path_join W ''TOOLS.md'') = components W @ [Normal ''TOOLS.md'']" "components (path_join W ''tools'') = components W @ [Normal ''tools'']"
      using plain_constants(2) by (auto intro: components_eq_body [OF _ assms(7)] dest: plain_name_simps(2,3))
  qed
  have below_W: "path_starts_with (path_join ?C ''SOUL.md'') W"
    unfolding path_starts_with_def check by (simp add: starts_with_iff_prefix)
  have "\<not> is_read_only env v ws (path_join ?C ''SOUL.md'') False" if "v \<in> dirs_after w" for v
  proof -
    have W: "canonical_or env v ws = W" using assms(6) that by (simp add: usable_dir_def)
    show ?thesis
      unfolding is_read_only_def Let_def W READ_ONLY_FILES_def PRIVILEGED_ROOT_FILES_def TOOLS_DIR_def path_eq_def
        path_starts_with_def check starts_with_iff_prefix
      by (simp add: names)
  qed
  then have "snd (write_workspace_file env ws agent ?f content False w) = Inr ()
      \<and> last (fst (write_workspace_file env ws agent ?f content False w)) = WriteFile (path_join ws ?f) content"
    by (rule write_cases(2) [OF valid comps body assms(6) below_W]) (use assms(8) in \<open>simp_all only: f\<close>)
  then show ?thesis unfolding f by simp
qed

section \<open>Protection of writes\<close>


lemma prefix_map_Normal: "prefix (map Normal a) (map Normal b) \<longleftrightarrow> prefix a b"
  by (auto simp: prefix_def map_eq_append_conv inj_map_eq_map inj_def)



section \<open>Prompt files\<close>

text \<open>A file adds at most 12 KiB of its content to the prompt, and a notice if it is longer; the cut is at a
  boundary of a character and what the prompt holds already stays as it is.\<close>

theorem prompt_file_bounded:
  "\<exists>added. append_with_limit prompt content filename = prompt @ added
    \<and> (added = [] \<or> added = content @ [newline] \<and> length content \<le> MAX_PROMPT_FILE_BYTES
       \<or> (\<exists>k notice. added = take k content @ notice \<and> k \<le> MAX_PROMPT_FILE_BYTES \<and> is_char_boundary content k
            \<and> MAX_PROMPT_FILE_BYTES < length content \<and> length notice = length filename + 53))"
proof (cases "trim content = [] \<or> length content \<le> MAX_PROMPT_FILE_BYTES")
  case True
  then show ?thesis by (auto simp: append_with_limit_def)
next
  case False
  let ?k = "floor_char_boundary content MAX_PROMPT_FILE_BYTES"
  let ?notice = "[newline, newline] @ ''['' @ filename @ '': truncated at '' @ show_nat (MAX_PROMPT_FILE_BYTES div 1024) @ '' KB ''
      @ utf8 [0xE2, 0x80, 0x94] @ '' keep this file concise]'' @ [newline] @ [newline]"
  have "MAX_PROMPT_FILE_BYTES div 1024 = 12" by (simp add: MAX_PROMPT_FILE_BYTES_def)
  then have "length (show_nat (MAX_PROMPT_FILE_BYTES div 1024)) = 2" by (simp add: show_nat.simps)
  then have "length ?notice = length filename + 53" by (simp add: utf8_def)
  moreover have "append_with_limit prompt content filename = prompt @ take ?k content @ ?notice"
    using False by (simp add: append_with_limit_def)
  ultimately show ?thesis
    using floor_char_boundary_le [of content MAX_PROMPT_FILE_BYTES] floor_char_boundary_boundary [of content MAX_PROMPT_FILE_BYTES] False
    by (intro exI [of _ "take ?k content @ ?notice"] conjI disjI2 exI [of _ ?k] exI [of _ ?notice]) simp_all
qed

section \<open>Witnesses\<close>

text \<open>The answers of a file system in the state of a tree, as long as nothing has changed it: an operation
  succeeds if the tree allows it.\<close>

definition posix_env :: "fs_tree \<Rightarrow> bytes list \<Rightarrow> fs_env" where
  "posix_env t cwd =
     (let exists = (\<lambda>p. resolve_path t cwd p \<noteq> None);
          is_dir = (\<lambda>p. case resolve_path t cwd p of Some r \<Rightarrow> r = [] \<or> t r = Some DirNode | None \<Rightarrow> False);
          can = (\<lambda>b. if b then Inr () else Inl ''no such file or directory'')
      in \<lparr>fe_exists = (\<lambda>_. exists), fe_is_dir = (\<lambda>_. is_dir), fe_is_symlink = (\<lambda>_. is_link t cwd),
          fe_canonical = (\<lambda>_ p. case resolve_path t cwd p of Some r \<Rightarrow> Inr (abs_path r) | None \<Rightarrow> Inl ''no such file or directory''),
          fe_read = (\<lambda>_ p. if exists p \<and> \<not> is_dir p then Inr ''a b a'' else Inl ''no such file or directory''),
          fe_list = (\<lambda>_ _. Inr []),
          fe_perform = (\<lambda>_ op. can (case op of
              CreateDirAll p \<Rightarrow> is_dir p
            | WriteFile p _ \<Rightarrow> written_place t cwd p \<noteq> None \<and> \<not> is_dir p
            | RemoveDirAll p \<Rightarrow> is_dir p
            | RemoveFile p \<Rightarrow> exists p \<and> \<not> is_dir p
            | RenamePath p q \<Rightarrow> exists p \<and> written_place t cwd q \<noteq> None
            | CopyFile p q \<Rightarrow> exists p \<and> written_place t cwd q \<noteq> None))\<rparr>)"

lemma posix_env_simps [simp]:
  "fe_canonical (posix_env t cwd) w p = (case resolve_path t cwd p of Some r \<Rightarrow> Inr (abs_path r) | None \<Rightarrow> Inl ''no such file or directory'')"
  "fe_is_symlink (posix_env t cwd) w p = is_link t cwd p"
  by (simp_all add: posix_env_def Let_def)


lemma components_Nil: "components p = [] \<Longrightarrow> p = []"
proof (rule ccontr)
  assume none: "components p = []" and "p \<noteq> []"
  then have "\<not> is_absolute p" "hd (segments p) \<noteq> ''.''" and body: "path_body p = []"
    by (auto simp: components_def path_head_def split: if_splits)
  then have "\<not> path_noise (hd (segments p))" using \<open>p \<noteq> []\<close> by (simp add: absolute_segments path_noise_def)
  then show False using body by (cases "segments p") (auto simp: path_body_def)
qed

lemma real_dir_code: "real_dir t d \<longleftrightarrow> list_all (\<lambda>k. t (take (Suc k) d) = Some DirNode) [0..<length d] \<and> list_all plain_name d"
proof -
  have "(\<forall>k \<le> n. 0 < k \<longrightarrow> P k) \<longleftrightarrow> (\<forall>k < n. P (Suc k))" for n P
    by (metis Suc_le_eq gr0_conv_Suc)
  then show ?thesis by (simp add: real_dir_def list_all_iff Ball_def)
qed

lemma resolve_down:
  assumes "real_dir t (cwd @ ds)" and "components q = map Normal ds" and "ds \<noteq> []"
  shows "resolve_path t cwd q = Some (cwd @ ds)"
proof -
  have "t (cwd @ take k ds) = Some DirNode" if "k \<le> length ds" "0 < k" for k
    using assms(1) that unfolding real_dir_def by (auto dest: spec [of _ "length cwd + k"])
  then have "walk t LINK_LIMIT cwd (map Normal ds @ []) = walk t LINK_LIMIT (cwd @ ds) []" by (intro walk_down) blast
  moreover have "q \<noteq> []" using assms(2,3) by (auto simp: components_def path_head_def path_body_def is_absolute_def starts_with_def path_noise_def)
  ultimately show ?thesis using assms(2) by (simp add: resolve_path_def)
qed

lemma posix_env_create:
  "resolve_path t cwd p = Some r \<Longrightarrow> t r = Some DirNode \<Longrightarrow> fe_perform (posix_env t cwd) w (CreateDirAll p) = Inr ()"
  by (simp add: posix_env_def Let_def)

text \<open>Without symbolic links no path leaves the workspace.\<close>

lemma posix_no_links_out:
  assumes "\<And>ds q. t ds \<noteq> Some (LinkNode q)" and "real_dir t cwd" and "resolve_path t cwd ws = Some ws_root"
  shows "no_links_out (posix_env t cwd) w ws"
  unfolding no_links_out_def
proof (intro allI impI, elim conjE)
  fix p c
  assume start: "path_starts_with p ws" and dots: "ParentDir \<notin> set (components p)" and c: "fe_canonical (posix_env t cwd) w p = Inr c"
  obtain r where r: "resolve_path t cwd p = Some r" and cr: "c = abs_path r" using c by (auto split: option.splits)
  obtain rest where rest: "components p = components ws @ rest"
    using start by (auto simp: path_starts_with_def starts_with_iff_prefix prefix_def)
  obtain m where m: "walk t LINK_LIMIT cwd (components ws) = Some (m, ws_root)" using assms(3) by (auto simp: resolve_path_def split: if_splits)
  obtain k where "walk t LINK_LIMIT cwd (components ws @ rest) = Some (k, r)" using r by (auto simp: resolve_path_def rest split: if_splits)
  then have k: "walk t m ws_root rest = Some (k, r)" by (rule walk_append [OF m])
  have wsne: "components ws \<noteq> []" using assms(3) components_Nil [of ws] by (auto simp: resolve_path_def)
  have "\<forall>x \<in> set rest. \<exists>s. x = Normal s"
  proof
    fix x assume x: "x \<in> set rest"
    have "set rest \<subseteq> set (tl (components p))" using rest wsne by (cases "components ws") auto
    also have "\<dots> \<subseteq> set (path_body p)"
      by (cases "path_body p") (auto simp: components_def path_head_def)
    finally have "set rest \<subseteq> set (path_body p)" .
    then show "\<exists>s. x = Normal s" using x dots body_components [of x p] rest by auto
  qed
  then have "rest \<in> lists (range Normal)" by auto
  then obtain ns where ns: "rest = map Normal ns" by (auto simp: lists_image)
  have "r = ws_root @ ns" using walk_no_links [of ws_root t m ns k r] assms(1) k ns by simp
  moreover have "list_all plain_name ws_root" by (rule walk_plain [OF m assms(2)]) simp
  moreover have "list_all plain_name r" using walk_plain [of t LINK_LIMIT cwd "components p" k r] assms(2) r rest m
    by (metis (no_types, lifting) \<open>walk t LINK_LIMIT cwd (components ws @ rest) = Some (k, r)\<close> plain_components_simps(7))
  ultimately show "path_starts_with c (canonical_or (posix_env t cwd) w ws)"
    using assms(3) components_abs_path [of r] components_abs_path [of ws_root]
    by (simp add: canonical_or_def cr path_starts_with_def starts_with_iff_prefix prefix_map_Normal)
qed

text \<open>A workspace in \<open>/srv/workspace\<close> that the program, started in \<open>/srv\<close>, knows as \<open>workspace\<close>.\<close>

definition demo_tree :: fs_tree where
  "demo_tree = map_of
     ([([''srv''], DirNode), ([''srv'', ''workspace''], DirNode), ([''srv'', ''workspace'', ''tools''], DirNode),
       ([''srv'', ''workspace'', ''agents''], DirNode), ([''srv'', ''workspace'', ''agents'', ''Al''], DirNode),
       ([''srv'', ''workspace'', ''agents'', ''Alice''], DirNode), ([''srv'', ''workspace'', ''AGENTS.md''], FileNode),
       ([''srv'', ''workspace'', ''TOOLS.md''], FileNode), ([''srv'', ''workspace'', ''agents'', ''Al'', ''x.yaml''], FileNode),
       ([''srv'', ''workspace'', ''agents'', ''Alice'', ''SOUL.md''], FileNode)])"

definition demo_fs :: fs_env where
  "demo_fs = posix_env demo_tree [''srv'']"

lemma demo_tree_links: "demo_tree ds \<noteq> Some (LinkNode q)"
  by (auto simp: demo_tree_def dest!: map_of_SomeD)

lemma demo_real: "real_dir demo_tree [''srv'']" "resolve_path demo_tree [''srv''] ''workspace'' = Some [''srv'', ''workspace'']"
  unfolding real_dir_code by code_simp+

lemma demo_no_links: "no_links_out demo_fs w ''workspace''"
  unfolding demo_fs_def by (rule posix_no_links_out [OF demo_tree_links demo_real])

lemma demo_canonical_or [simp]: "canonical_or demo_fs w ''workspace'' = ''/srv/workspace''"
proof -
  have "abs_path [''srv'', ''workspace''] = ''/srv/workspace''" by code_simp
  then show ?thesis using demo_real(2) by (simp add: canonical_or_def demo_fs_def)
qed

lemma demo_ws: "\<not> is_absolute ''workspace''" "ParentDir \<notin> set (components ''workspace'')" "is_absolute ''/srv/workspace''"
  by code_simp+

theorem relative_workspace_deletes_protected_witness:
  "\<exists>dir. fst (delete_workspace_file demo_fs ''workspace'' ''Al'' ''agents/'' [])
    = [CreateDirAll (agent_dir ''workspace'' ''Al''),
       if dir then RemoveDirAll (path_join ''workspace'' ''agents/'') else RemoveFile (path_join ''workspace'' ''agents/'')]"
  using relative_workspace_deletes_protected [OF demo_ws(1) _ demo_ws(2) _ demo_no_links, of "[]" "''Al''" "''agents/''"] demo_ws(3) by simp

theorem write_scope_witness:
  "\<exists>p rest. validate_workspace_path demo_fs ''workspace'' ''Al'' ''tools/x.yaml'' [] = ([CreateDirAll (agent_dir ''workspace'' ''Al'')], Inr p)
    \<and> components p = components ''workspace'' @ rest \<and> ParentDir \<notin> set (components p)"
proof -
  have "snd (validate_workspace_path demo_fs ''workspace'' ''Al'' ''tools/x.yaml'' []) = Inr ''workspace/tools/x.yaml''" by code_simp
  moreover have "fst (validate_workspace_path demo_fs ''workspace'' ''Al'' ''tools/x.yaml'' []) = [CreateDirAll (agent_dir ''workspace'' ''Al'')]"
    by (simp add: validate_workspace_path_def validate_workspace_path_inner_def perform_def Let_def)
  ultimately have "validate_workspace_path demo_fs ''workspace'' ''Al'' ''tools/x.yaml'' []
      = ([CreateDirAll (agent_dir ''workspace'' ''Al'')], Inr ''workspace/tools/x.yaml'')" by (simp add: prod_eq_iff)
  then show ?thesis using write_scope [of demo_fs "''workspace''" "''Al''" "''tools/x.yaml''" "[]"] by auto
qed

lemma demo_nothing_below:
  assumes "path_starts_with p (path_join ''/srv/workspace'' ''workspace'')"
  shows "\<exists>e. fe_canonical demo_fs w p = Inl e"
proof -
  have "components (path_join ''/srv/workspace'' ''workspace'') = [RootDir, Normal ''srv'', Normal ''workspace'', Normal ''workspace'']"
    by code_simp
  then obtain rest where rest: "components p = RootDir # map Normal [''srv'', ''workspace''] @ Normal ''workspace'' # rest"
    using assms by (auto simp: path_starts_with_def starts_with_iff_prefix prefix_def)
  have "demo_tree [''srv''] = Some DirNode" "demo_tree [''srv'', ''workspace''] = Some DirNode"
    "demo_tree [''srv'', ''workspace'', ''workspace''] = None" by code_simp+
  then have "walk demo_tree n cwd (components p) = None" for n cwd unfolding rest by simp
  then show ?thesis by (simp add: demo_fs_def resolve_path_def)
qed

theorem relative_workspace_edits_fail_witness:
  "\<exists>e. edit_workspace_file demo_fs ''workspace'' ''Al'' ''notes.md'' ''a'' ''b'' True []
    = ([CreateDirAll (agent_dir ''workspace'' ''Al'')], Inl e)"
proof -
  have "abs_path [''srv'', ''workspace''] = ''/srv/workspace''" by code_simp
  then have "fe_canonical demo_fs w ''workspace'' = Inr ''/srv/workspace''" for w using demo_real(2) by (simp add: demo_fs_def)
  moreover have "\<not> is_absolute ''Al''" by code_simp
  ultimately show ?thesis
    using relative_workspace_edits_fail [OF demo_ws(1), of "''Al''" demo_fs "[]" "''/srv/workspace''" "''notes.md''" "''a''" "''b''" True] demo_nothing_below
    by simp
qed

text \<open>For an absolute workspace an edit succeeds.\<close>

definition demo_absolute :: fs_env where
  "demo_absolute = posix_env (map_of [([''w''], DirNode), ([''w'', ''agents''], DirNode), ([''w'', ''agents'', ''Al''], DirNode),
     ([''w'', ''agents'', ''Al'', ''notes.md''], FileNode)]) []"

theorem edit_replaces_first_witness:
  "\<exists>p raw pre post. fst (edit_workspace_file demo_absolute ''/w'' ''Al'' ''notes.md'' ''a'' ''X'' False [])
      = [CreateDirAll (agent_dir ''/w'' ''Al''), WriteFile p (pre @ ''X'' @ post)]
    \<and> crlf_to_lf raw = pre @ ''a'' @ post"
proof -
  have "snd (edit_workspace_file demo_absolute ''/w'' ''Al'' ''notes.md'' ''a'' ''X'' False []) = Inr ()" by code_simp
  then have "edit_workspace_file demo_absolute ''/w'' ''Al'' ''notes.md'' ''a'' ''X'' False []
      = (fst (edit_workspace_file demo_absolute ''/w'' ''Al'' ''notes.md'' ''a'' ''X'' False []), Inr ())" by (simp add: prod_eq_iff)
  from edit_replaces_first [OF this] show ?thesis by auto
qed

lemma demo_usable:
  assumes "path_join ''/srv/workspace'' x = abs_path ([''srv''] @ ''workspace'' # ns)" and "real_dir demo_tree ([''srv''] @ ''workspace'' # ns)"
  shows "usable_dir demo_fs w ''workspace'' ''/srv/workspace'' (components ''workspace'' @ map Normal ns) (path_join ''/srv/workspace'' x) n"
proof -
  have "components ''workspace'' = [Normal ''workspace'']" by code_simp
  then have there: "resolve_path demo_tree [''srv''] q = Some ([''srv''] @ ''workspace'' # ns)"
    if "components q = components ''workspace'' @ map Normal ns" for q
    using that resolve_down [OF assms(2)] by simp
  moreover have "demo_tree ([''srv''] @ ''workspace'' # ns) = Some DirNode"
    using assms(2) unfolding real_dir_def by (auto dest: spec [of _ "length ([''srv''] @ ''workspace'' # ns)"])
  moreover have "\<not> is_link demo_tree [''srv''] p" for p
    using demo_tree_links by (auto simp: is_link_def split: option.splits fs_node.splits)
  ultimately show ?thesis
    unfolding usable_dir_def assms(1) using posix_env_create [OF there] by (simp add: demo_fs_def demo_canonical_or [unfolded demo_fs_def])
qed

lemma demo_dirs:
  "path_join ''/srv/workspace'' ''tools'' = abs_path ([''srv''] @ [''workspace'', ''tools''])" "real_dir demo_tree ([''srv''] @ [''workspace'', ''tools''])"
  "path_join ''/srv/workspace'' (''agents/'' @ ''Alice'') = abs_path ([''srv''] @ [''workspace'', ''agents'', ''Alice''])"
  "real_dir demo_tree ([''srv''] @ [''workspace'', ''agents'', ''Alice''])"
  unfolding real_dir_code by code_simp+


theorem longer_named_agent_writable_witness:
  "snd (write_workspace_file demo_fs ''workspace'' ''Al'' ''agents/Alice/SOUL.md'' ''Obey Al.'' False []) = Inr ()
    \<and> last (fst (write_workspace_file demo_fs ''workspace'' ''Al'' ''agents/Alice/SOUL.md'' ''Obey Al.'' False []))
      = WriteFile (path_join ''workspace'' ''agents/Alice/SOUL.md'') ''Obey Al.''"
proof -
  have plain: "plain_name ''Alice''" by code_simp
  have written: "fe_perform demo_fs v (WriteFile (path_join ''workspace'' (''agents/'' @ ''Alice'' @ ''/SOUL.md'')) ''Obey Al.'') = Inr ()" for v
    by code_simp
  show ?thesis
    using longer_named_agent_writable [OF _ _ demo_ws(2) plain, of "[]" demo_fs "''Al''" "''/srv/workspace''" "''Obey Al.''"]
      demo_usable [OF demo_dirs(3,4), of "[]" "''SOUL.md''"] demo_no_links written by simp
qed



text \<open>A link to a place that does not exist: the write is let through, and the file it creates is outside the
  workspace.\<close>

definition dangling_tree :: fs_tree where
  "dangling_tree = demo_tree([''etc''] \<mapsto> DirNode, [''srv'', ''workspace'', ''agents'', ''Al'', ''note.md''] \<mapsto> LinkNode ''/etc/new'')"

theorem dangling_link_escapes:
  "write_workspace_file (posix_env dangling_tree [''srv'']) ''workspace'' ''Al'' ''agents/Al/note.md'' ''hi'' False []
     = ([CreateDirAll ''workspace/agents/Al'', CreateDirAll ''workspace/agents/Al'', WriteFile ''workspace/agents/Al/note.md'' ''hi''], Inr ())
   \<and> written_place dangling_tree [''srv''] ''workspace/agents/Al/note.md'' = Some [''etc'', ''new'']"
  by (intro conjI; code_simp)

end
