(* ===== verification/Spec2Isabelle.thy ===== *)
theory Spec2Isabelle
  imports Hyde_Prelude Hyde_Types Text_Codec Thinking Tool_Loop Mention_Parser Agent_Pool History Agent_Loop Session_Run
    Run_Facts Ssrf Rate_Limiter Event_Stream Llm_Errors Llm_Call Tool_Policy Approvals Session_Store Session_Facts
    Tool_Batch Stream_Registry Sse_Converter Sse_Facts Cli_Backend Cli_Facts Provider_Config Provider_Routing
    Routing_Facts Http_Retry Tool_Call_Text Tool_Call_Facts Openai_Provider Openai_Facts
    Vendor_Providers Vendor_Facts Yaml_Tools Yaml_Facts
    Paths Workspace Workspace_Facts
begin

text \<open>
  HydeClaw is a gateway that runs AI agents for chat channels and a web client. This development models its core in
  Rust (\<open>src/crates\<close>; paths below are relative to \<open>src/crates/hydeclaw-core/src\<close> unless a crate is
  named) and proves what makes it correct, or where it is not.

  \<^bold>\<open>The program.\<close> A request of the web client enters at \<open>gateway/handlers/chat.rs\<close>, which starts two tasks. The
  engine task (\<open>agent/engine/run.rs\<close>) claims the session and saves the user message (\<open>pipeline/bootstrap.rs\<close>), runs the
  loop of LLM calls and tool batches (\<open>pipeline/execute.rs\<close>, \<open>pipeline/parallel.rs\<close>) and settles the session
  (\<open>pipeline/finalize.rs\<close>, \<open>session_manager.rs\<close>). Its events pass a bounded channel and a coalescer to the second
  task, the converter, which turns them into SSE frames, keeps them in the registry of streams for clients that
  reconnect, and stores the streamed text. The loop calls a provider: one that speaks HTTP, one that runs a program, or
  a router over several of them. Around it stand the compaction of long histories, the detector of tool loops, the
  approval of calls by a human, the tool policy, the session tables with their repair and retention, the
  limiters and the guard against requests into the private network.

  \<^bold>\<open>Conventions.\<close> A Rust string is the list of its bytes (\<open>Hyde_Prelude\<close>); what Unicode decides, such as lower-casing,
  is an argument. A panic is \<open>None\<close>, an error a value of \<open>result\<close>; machine integers are words where the width
  matters and natural numbers where the code cannot reach it. Time is a number of nanoseconds that a clock argument
  gives for each reading. What the code awaits (database calls, background tasks, other requests) is explicit: a call
  counter decides which calls fail, background tasks are values that run later in any order, and concurrent parts are
  step relations. Code that is not in the repository (the JSON parser, regular expressions, HTTP, the LLM, DNS, the
  URL parser, the secret store) is an argument of the definitions that use it.

  \<^bold>\<open>Parts.\<close>
  \<^item> \<open>Hyde_Prelude\<close>, \<open>Hyde_Types\<close>, \<open>Text_Codec\<close>: the standard library on bytes, the shared data of
    \<open>hydeclaw-types/src/lib.rs\<close> and \<open>agent/stream_event.rs\<close>, and the decoding and replacing of text.
  \<^item> \<open>Thinking\<close> (\<open>agent/thinking.rs\<close>): removal of reasoning blocks, one-shot and streaming. Lemmas: tag-free text passes
    unchanged however it is cut, nothing is emitted inside a block, the buffer stays bounded.
  \<^item> \<open>Tool_Loop\<close> (\<open>agent/tool_loop.rs\<close>): the loop detector. A call is refused exactly when the log of executions ends in
    one less than the threshold of the same call; a streak is rebuilt from the event log after a restart.
  \<^item> \<open>Mention_Parser\<close>, \<open>Tool_Policy\<close>, \<open>Ssrf\<close>, \<open>Rate_Limiter\<close>: \<open>agent/mention_parser.rs\<close>; the policy filters of
    \<open>pipeline/dispatch.rs\<close> with \<open>channel_kind.rs\<close> and \<open>hooks.rs\<close>; \<open>net/ssrf.rs\<close>;
    \<open>hydeclaw-gateway-util/src/rate_limiter.rs\<close>. The limiter refines a fixed-window specification per address; an
    address is private exactly in the documented blocks.
  \<^item> \<open>Agent_Pool\<close> (\<open>agent/session_agent_pool.rs\<close>): live agents as a step relation with an invariant of status and counters.
  \<^item> \<open>History\<close> (\<open>agent/history.rs\<close>, \<open>pipeline/context.rs\<close>): token estimates and compaction; the recent messages
    are preserved, an error changes nothing.
  \<^item> \<open>Llm_Errors\<close>, \<open>Llm_Call\<close> (\<open>providers/error.rs\<close>, \<open>error_classify.rs\<close>, \<open>pipeline/llm_call.rs\<close>): error classes,
    delays and the three retry layers. The recursion over a retry is structural in the attempts left; the loop without a
    number of attempts is fuelled, and enough fuel is computed from the run limit and a clock that progresses.
  \<^item> \<open>Provider_Config\<close>, \<open>Provider_Routing\<close>, \<open>Routing_Facts\<close> (\<open>agent/providers.rs\<close>, \<open>db/providers.rs\<close>,
    \<open>providers/timeouts.rs\<close>): validation and construction of providers, and the router. The locale \<open>provider_call\<close>
    says what a call of one provider promises; the loop over the fallbacks is treated once in it, and its two
    interpretations give the properties of calls and of streams: equality with a first-decisive-answer specification, a
    bound on the calls, no failover after output of the primary.
  \<^item> \<open>Http_Retry\<close> (\<open>agent/providers_http.rs\<close>, \<open>providers/cancellable_stream.rs\<close>): \<open>send_loop\<close> recurses on the attempts left;
    a stream is cut at the limits of silence and duration.
  \<^item> \<open>Tool_Call_Text\<close>, \<open>Tool_Call_Facts\<close> (\<open>agent/json_repair.rs\<close>, \<open>agent/providers_openai.rs\<close>): JSON repair and tool
    calls in text, with the round trip of the latter.
  \<^item> \<open>Openai_Provider\<close>, \<open>Openai_Facts\<close> (\<open>agent/providers_openai.rs\<close>, wire format of \<open>agent/providers.rs\<close>): requests, the derived
    deserialisers, the stream parser and the two calls. Lemmas: the answer does not depend on how the network cuts the stream between
    characters, parallel calls are assembled from their fragments, a request's tool messages are paired with their calls.
  \<^item> \<open>Vendor_Providers\<close>, \<open>Vendor_Facts\<close> (\<open>agent/providers_anthropic.rs\<close>, \<open>agent/providers_google.rs\<close>): the same for
    Anthropic and Gemini. Lemmas: what of a history is sent, the round trip of an Anthropic stream, schemas, budgets.
  \<^item> \<open>Cli_Backend\<close>, \<open>Cli_Facts\<close> (\<open>agent/cli_backend.rs\<close>, \<open>agent/providers_claude_cli.rs\<close>): providers that are command line
    programs. A reader of shell words and pipelines, written for the proof, reads the sandbox command back. The runs of
    one runner interleave as events: a run passes the gate of the circuit breaker, waits for a permit, and records its end.
  \<^item> \<open>Approvals\<close> (\<open>hydeclaw-db/src/approvals.rs\<close>, \<open>agent/approval_manager.rs\<close>, \<open>pipeline/approval.rs\<close>): rows, waiters and the
    interleavings of requests, resolvers, timeouts and pruning as a step relation with its invariant.
  \<^item> \<open>Session_Store\<close>, \<open>Session_Facts\<close> (\<open>hydeclaw-db/src/session_status.rs\<close>, \<open>sessions.rs\<close>, \<open>session_wal.rs\<close>): the SQL
    statements as functions on the tables; in the start-up clean-up every call may fail. Fuel: the start-up clean-up needs one round per session to clean and one more,
    batched pruning fewer rounds than there are events and one more, the recursive branch query one step per message and
    one more; that these bounds suffice is proved, for the clean-up once the updates of single sessions succeed (it
    spins as long as one fails), for the branch query on the reachable databases.
  \<^item> \<open>Tool_Batch\<close>, \<open>Agent_Loop\<close> (\<open>pipeline/parallel.rs\<close>, \<open>pipeline/execute.rs\<close>): one batch with its cache, its parallel and
    sequential part, and the loop around it, which recurses on the iterations left. Its state keeps the events offered to the sink, the refused ones too. Lemmas: the shape of the events, the
    saved answer, the tree of rows, the results of a batch.
  \<^item> \<open>Session_Run\<close>, \<open>Run_Facts\<close> (\<open>session_manager.rs\<close>, \<open>pipeline/bootstrap.rs\<close>, \<open>pipeline/finalize.rs\<close>,
    \<open>engine/run.rs\<close>, \<open>agent_state.rs\<close>, \<open>hydeclaw-db/src/session_failures.rs\<close>): a message from its arrival to the terminal
    status, for all failing calls and all orders of the background tasks.
  \<^item> \<open>Event_Stream\<close> (\<open>agent/engine_event_sender.rs\<close>, \<open>gateway/sse/coalescer.rs\<close>): the event pipeline as a step relation;
    order and text are preserved.
  \<^item> \<open>Stream_Registry\<close>, \<open>Sse_Converter\<close>, \<open>Sse_Facts\<close> (\<open>gateway/stream_jobs.rs\<close>, \<open>gateway/stream_registry.rs\<close>,
    \<open>gateway/handlers/chat.rs\<close>, \<open>handlers/cancel_grace.rs\<close>): jobs, replay buffers and the converter, which recurses
    on the list of arriving events. Lemmas: bracketed text frames, the registry sees every frame, the job keeps the
    whole text.
  \<^item> \<open>Yaml_Tools\<close>, \<open>Yaml_Facts\<close> (\<open>tools/yaml_tools.rs\<close>, \<open>engine/yaml_tool_runner.rs\<close>, the tool call in
    \<open>engine_dispatch.rs\<close>): user-defined HTTP tools, from their files to the processed answer. A panic is \<open>None\<close>; the attempts and
    the pages are recursions on the number left. Lemmas: what a path template and a body template make of values, defaults,
    pages, inheritance, the search cache, which client fetches files.
  \<^item> \<open>Paths\<close>, \<open>Workspace\<close>, \<open>Workspace_Facts\<close> (\<open>agent/workspace.rs\<close>, \<open>agent/path_guard.rs\<close>): Unix paths, a file
    system that answers by the operations so far, and the file operations of an agent. Lemmas: which paths may be written,
    what a write protects, what deletions, moves and edits do of it, the size of prompt files. \<open>Fs_Semantics\<close> is no
    code: it resolves paths over a tree of directories, files and links as POSIX does, so that the place a write
    reaches is stated independently of the program's checks, and its trees are the witnesses.

  \<^bold>\<open>Interfaces.\<close> A contract that several operations or components share is a locale, interpreted on the code's model where
  the provider stands: an invariant kept by every step (\<open>step_invariant\<close>: detector, registry, jobs, circuit breaker),
  the length of a run at the end of a log (\<open>run_length\<close>), tables whose entries do not interfere (\<open>keyed_step\<close>: both
  limiters), the store of live agents (\<open>agent_store\<close>), an attempt with a bound on its calls (\<open>bounded_attempt\<close>), the
  call of one provider (\<open>provider_call\<close>) and what every step of the converter keeps (\<open>converter_invariant\<close>).

  \<^bold>\<open>Not modelled.\<close> The HTTP handlers that only translate between JSON and the database, the scheduler of jobs,
  vector memory, skills and the text of the system prompt, containers and processes, cryptography and OAuth, the watchdog and
  the memory worker, metrics. They are input and output, external services or glue, and the modelled parts use
  none of their results other than through arguments. In the modelled parts: log output and metrics, the notification of channels about an approval, full-text search
  and the list queries of the session tables, and the OpenAI-compatible endpoints of \<open>chat.rs\<close>.
\<close>

end
